(* ===== verification/MigPrelude.thy ===== *)
theory MigPrelude
  imports Main "HOL-Library.Word" "HOL-Library.State_Monad"
begin

text \<open>
  The vocabulary the other theories share: the machine integers of
  \<^verbatim>\<open>public/basic/basictypes.h\<close> as words, the little-endian layout of an integer in memory
  (the servers run on x86, so \<^verbatim>\<open>*(int32*)cursor_ = dw\<close> stores the low byte first), the byte
  swaps \<^verbatim>\<open>htons\<close>/\<^verbatim>\<open>htonl\<close>, C strings, and the collections of rewrite rules that the
  component theories extend.
\<close>

unbundle bit_operations_syntax

type_synonym byte = "8 word"
type_synonym int8 = "8 word"
type_synonym int16 = "16 word"
type_synonym int32 = "32 word"
type_synonym int64 = "64 word"

text \<open>Rewrite rules for running the state monad of the component theories, and the rules that
  say which bytes a reader consumes and how many bytes a writer appends.\<close>

named_theorems run_simps
named_theorems reads_intros
named_theorems writes_intros

section \<open>Integers in memory\<close>

definition le_bytes :: "nat \<Rightarrow> 'a::len word \<Rightarrow> byte list" where
  "le_bytes n w = map (\<lambda>i. ucast (drop_bit (8 * i) w)) [0..<n]"

primrec le_word :: "byte list \<Rightarrow> 'a::len word" where
  "le_word [] = 0"
| "le_word (b # bs) = ucast b OR push_bit 8 (le_word bs)"

lemma length_le_bytes [simp]: "length (le_bytes n w) = n"
  by (simp add: le_bytes_def)

lemma nth_le_bytes [simp]: "i < n \<Longrightarrow> le_bytes n w ! i = ucast (drop_bit (8 * i) w)"
  by (simp add: le_bytes_def)

lemma bit_byte_ge: "bit (b :: byte) k \<Longrightarrow> k < 8"
  using bit_imp_le_length [of b k] by simp

lemma bit_le_word:
  "bit (le_word bs :: 'a::len word) i \<longleftrightarrow>
     i < LENGTH('a) \<and> i div 8 < length bs \<and> bit (bs ! (i div 8)) (i mod 8)"
proof (induction bs arbitrary: i)
  case Nil
  then show ?case by simp
next
  case (Cons b bs)
  show ?case
  proof (cases "i < 8")
    case True
    then show ?thesis by (auto simp: bit_simps)
  next
    case False
    then have d: "i div 8 = Suc ((i - 8) div 8)" "(i - 8) mod 8 = i mod 8"
      by (simp_all add: le_div_geq le_mod_geq)
    from False have "\<not> bit b i" using bit_byte_ge by blast
    with False d Cons.IH [of "i - 8"] show ?thesis by (auto simp: bit_simps)
  qed
qed

lemma le_word_le_bytes:
  fixes w :: "'a::len word"
  assumes "LENGTH('a) \<le> 8 * n"
  shows "le_word (le_bytes n w) = w"
proof (rule bit_word_eqI)
  fix i assume i: "i < LENGTH('a)"
  with assms have "i div 8 < n" by (simp add: less_mult_imp_div_less mult.commute)
  moreover have "8 * (i div 8) + i mod 8 = i" by simp
  ultimately show "bit (le_word (le_bytes n w) :: 'a word) i \<longleftrightarrow> bit w i"
    using i by (simp add: bit_le_word bit_simps)
qed

lemma le_bytes_le_word:
  assumes "length bs = n" and "8 * n \<le> LENGTH('a::len)"
  shows "le_bytes n (le_word bs :: 'a word) = bs"
proof (rule nth_equalityI)
  show "length (le_bytes n (le_word bs :: 'a word)) = length bs" using assms by simp
next
  fix i assume "i < length (le_bytes n (le_word bs :: 'a word))"
  then have i: "i < n" by simp
  show "le_bytes n (le_word bs :: 'a word) ! i = bs ! i"
  proof (rule bit_word_eqI)
    fix k assume k: "k < LENGTH(8)"
    then have "(8 * i + k) div 8 = i" "(8 * i + k) mod 8 = k" by simp_all
    moreover from i k assms have "8 * i + k < LENGTH('a)" by auto
    ultimately show "bit (le_bytes n (le_word bs :: 'a word) ! i) k \<longleftrightarrow> bit (bs ! i) k"
      using i k assms by (simp add: bit_le_word bit_simps)
  qed
qed

lemma le_word_le_bytes_simps [simp]:
  "le_word (le_bytes 1 (b :: int8)) = b"
  "le_word (le_bytes 2 (w :: int16)) = w"
  "le_word (le_bytes 4 (d :: int32)) = d"
  "le_word (le_bytes 8 (q :: int64)) = q"
  by (simp_all add: le_word_le_bytes)

lemma le_word_le_bytes_1 [simp]: "le_word (le_bytes (Suc 0) (b :: int8)) = b"
  by (simp add: le_word_le_bytes)

lemma le_word_zeros [simp]: "le_word (replicate n 0) = 0"
  by (induction n) auto

section \<open>Byte order\<close>

text \<open>\<^verbatim>\<open>htons\<close>, \<^verbatim>\<open>htonl\<close> of the C library on a little-endian machine reverse the bytes
  of their argument; \<open>n\<close> is the width in bytes.\<close>

definition bswap :: "nat \<Rightarrow> 'a::len word \<Rightarrow> 'a word" where
  "bswap n w = le_word (rev (le_bytes n w))"

lemma le_bytes_bswap:
  fixes w :: "'a::len word"
  shows "8 * n \<le> LENGTH('a) \<Longrightarrow> le_bytes n (bswap n w) = rev (le_bytes n w)"
  by (simp add: bswap_def le_bytes_le_word)

lemma bswap_bswap:
  fixes w :: "'a::len word"
  shows "8 * n = LENGTH('a) \<Longrightarrow> bswap n (bswap n w) = w"
  by (simp add: bswap_def le_bytes_le_word le_word_le_bytes)

section \<open>C strings and fixed character arrays\<close>

text \<open>The bytes a \<^verbatim>\<open>char*\<close> read as a C string denotes: everything before the first NUL.\<close>

definition c_string :: "byte list \<Rightarrow> byte list" where
  "c_string bs = takeWhile (\<lambda>b. b \<noteq> 0) bs"

lemma c_string_append_nul [simp]: "0 \<notin> set s \<Longrightarrow> c_string (s @ 0 # t) = s"
  by (induction s) (auto simp: c_string_def)

lemma c_string_no_nul: "0 \<notin> set (c_string bs)"
  by (auto simp: c_string_def dest: set_takeWhileD)

lemma c_string_id [simp]: "0 \<notin> set s \<Longrightarrow> c_string s = s"
  by (auto simp: c_string_def takeWhile_eq_all_conv)

definition ascii :: "string \<Rightarrow> byte list" where
  "ascii s = map of_char s"

section \<open>Narrowing conversions\<close>

text \<open>Passing an \<^verbatim>\<open>int64\<close> where an \<^verbatim>\<open>int\<close> is expected keeps the low 32 bits; using that
  \<^verbatim>\<open>int\<close> as an \<^verbatim>\<open>int64\<close> again sign-extends it.\<close>

definition to_int :: "int64 \<Rightarrow> int32" where
  "to_int k = ucast k"

definition to_int64 :: "int32 \<Rightarrow> int64" where
  "to_int64 k = scast k"

definition fits_int :: "int64 \<Rightarrow> bool" where
  "fits_int k \<longleftrightarrow> to_int64 (to_int k) = k"

lemma to_int_to_int64 [simp]: "to_int (to_int64 k) = k"
  by (rule bit_word_eqI) (simp add: to_int_def to_int64_def bit_simps)

lemma fits_int_to_int64 [simp]: "fits_int (to_int64 k)"
  by (simp add: fits_int_def)

lemma to_int64_inject [simp]: "to_int64 a = to_int64 b \<longleftrightarrow> a = b"
  by (metis to_int_to_int64)

lemma sint_to_int64 [simp]: "sint (to_int64 k) = sint k"
  by (simp add: to_int64_def sint_up_scast is_up)

section \<open>Decimal text\<close>

text \<open>What \<^verbatim>\<open>%d\<close>, \<^verbatim>\<open>%lld\<close> and \<^verbatim>\<open>std::ostream << int\<close> produce.\<close>

fun nat_digits :: "nat \<Rightarrow> byte list" where
  "nat_digits n = (if n < 10 then [of_nat (48 + n)]
     else nat_digits (n div 10) @ [of_nat (48 + n mod 10)])"

declare nat_digits.simps [simp del]

definition decimal :: "int \<Rightarrow> byte list" where
  "decimal i = (if i < 0 then 45 # nat_digits (nat (- i)) else nat_digits (nat i))"

lemma length_nat_digits: "n < 10 ^ k \<Longrightarrow> 0 < k \<Longrightarrow> length (nat_digits n) \<le> k"
proof (induction k arbitrary: n)
  case (Suc k)
  show ?case
  proof (cases "n < 10")
    case True
    then show ?thesis by (simp add: nat_digits.simps)
  next
    case False
    with Suc.prems have "n div 10 < 10 ^ k" "0 < k" by (auto intro: Suc_leI gr0I)
    with Suc.IH [of "n div 10"] False show ?thesis
      by (subst nat_digits.simps) simp
  qed
qed simp

lemma length_decimal: "\<bar>i\<bar> < 10 ^ 19 \<Longrightarrow> length (decimal i) \<le> 20"
  using length_nat_digits [of "nat \<bar>i\<bar>" 19]
  by (auto simp: decimal_def abs_if nat_less_iff split: if_splits)

lemma length_decimal_word [simp]:
  "length (decimal (sint (w :: int64))) \<le> 20" "length (decimal (sint (d :: int32))) \<le> 20"
  "length (decimal (sint (h :: int16))) \<le> 20" "length (decimal (sint (b :: int8))) \<le> 20"
  using sint_ge [of w] sint_lt [of w] sint_ge [of d] sint_lt [of d]
    sint_ge [of h] sint_lt [of h] sint_ge [of b] sint_lt [of b]
  by (auto intro!: length_decimal)

lemma length_ascii [simp]: "length (ascii s) = length s"
  by (simp add: ascii_def)

lemma length_c_string: "length (c_string bs) \<le> length bs"
  by (simp add: c_string_def length_takeWhile_le)

text \<open>\<^verbatim>\<open>atoll\<close>: leading blanks, a sign, digits; anything else ends the number.\<close>

definition is_digit :: "byte \<Rightarrow> bool" where
  "is_digit b \<longleftrightarrow> 48 \<le> b \<and> b \<le> 57"

definition is_blank :: "byte \<Rightarrow> bool" where
  "is_blank b \<longleftrightarrow> b = 32 \<or> (9 \<le> b \<and> b \<le> 13)"

fun digits_value :: "int \<Rightarrow> byte list \<Rightarrow> int" where
  "digits_value acc [] = acc"
| "digits_value acc (b # bs) =
     (if is_digit b then digits_value (10 * acc + (uint b - 48)) bs else acc)"

definition atoll_int :: "byte list \<Rightarrow> int" where
  "atoll_int s = (case dropWhile is_blank s of
       [] \<Rightarrow> 0
     | b # bs \<Rightarrow> (if b = 45 then - digits_value 0 bs
                  else if b = 43 then digits_value 0 bs
                  else digits_value 0 (b # bs)))"

definition atoll :: "byte list \<Rightarrow> int64" where
  "atoll s = of_int (atoll_int s)"

lemma digit_byte:
  assumes "d < 10"
  shows "is_digit (of_nat (48 + d))" "uint (of_nat (48 + d) :: byte) = 48 + int d"
proof -
  have u: "uint (of_nat (48 + d) :: byte) = int (48 + d)"
    using assms by (simp only: unsigned_of_nat) (simp add: take_bit_nat_eq_self)
  then show "uint (of_nat (48 + d) :: byte) = 48 + int d" by simp
  show "is_digit (of_nat (48 + d))"
    using u assms by (simp add: is_digit_def word_le_def)
qed

lemma nat_digits_digits: "\<forall>b\<in>set (nat_digits n). is_digit b"
proof (induction n rule: nat_digits.induct)
  case (1 n)
  then show ?case using digit_byte(1) [of n] digit_byte(1) [of "n mod 10"]
    by (subst nat_digits.simps) (auto simp del: of_nat_add)
qed

lemma nat_digits_nonempty [simp]: "nat_digits n \<noteq> []"
  by (subst nat_digits.simps) simp

lemma digits_value_append:
  "\<forall>b\<in>set xs. is_digit b \<Longrightarrow> digits_value acc (xs @ ys) = digits_value (digits_value acc xs) ys"
  by (induction xs arbitrary: acc) auto

lemma digits_value_nat_digits:
  "\<exists>k. digits_value acc (nat_digits n) = acc * 10 ^ k + int n \<and> n < 10 ^ k"
proof (induction n arbitrary: acc rule: nat_digits.induct)
  case (1 n)
  show ?case
  proof (cases "n < 10")
    case True
    then have "digits_value acc (nat_digits n) = acc * 10 ^ 1 + int n"
      using digit_byte [of n] by (subst nat_digits.simps) (simp del: of_nat_add)
    with True show ?thesis by (intro exI [of _ 1]) simp
  next
    case False
    from 1 [OF False, of acc] obtain k
      where k: "digits_value acc (nat_digits (n div 10)) = acc * 10 ^ k + int (n div 10)"
        "n div 10 < 10 ^ k" by auto
    have "digits_value acc (nat_digits n) =
        10 * (acc * 10 ^ k + int (n div 10)) + int (n mod 10)"
      using False k digit_byte [of "n mod 10"] nat_digits_digits [of "n div 10"]
      by (subst nat_digits.simps) (simp add: digits_value_append del: of_nat_add)
    also have "\<dots> = acc * 10 ^ Suc k + int n"
    proof -
      have "int n = 10 * int (n div 10) + int (n mod 10)"
        using mult_div_mod_eq [of "10 :: int" "int n"] by (simp add: zdiv_int zmod_int)
      then show ?thesis by (simp add: algebra_simps)
    qed
    finally have "digits_value acc (nat_digits n) = acc * 10 ^ Suc k + int n" .
    moreover have "n < 10 ^ Suc k" using k(2) by simp
    ultimately show ?thesis by blast
  qed
qed

lemma dropWhile_digits: "\<forall>b\<in>set (x # xs). is_digit b \<Longrightarrow> dropWhile is_blank (x # xs) = x # xs"
  by (auto simp: is_digit_def is_blank_def word_le_def)

lemma atoll_int_decimal: "atoll_int (decimal i) = i"
proof (cases "i < 0")
  case True
  obtain k where "digits_value 0 (nat_digits (nat (- i))) = 0 * 10 ^ k + int (nat (- i))"
    using digits_value_nat_digits by blast
  with True show ?thesis by (simp add: atoll_int_def decimal_def is_blank_def)
next
  case False
  obtain x xs where x: "nat_digits (nat i) = x # xs"
    using nat_digits_nonempty by (cases "nat_digits (nat i)") auto
  have d: "\<forall>b\<in>set (x # xs). is_digit b" using nat_digits_digits [of "nat i"] x by simp
  then have "x \<noteq> 45" "x \<noteq> 43" by (auto simp: is_digit_def)
  moreover obtain k where "digits_value 0 (nat_digits (nat i)) = 0 * 10 ^ k + int (nat i)"
    using digits_value_nat_digits by blast
  ultimately show ?thesis using False x dropWhile_digits [OF d]
    by (simp add: atoll_int_def decimal_def)
qed

lemma atoll_decimal [simp]: "atoll (decimal (sint w)) = w"
  by (simp add: atoll_def atoll_int_decimal)

lemma sint32_bounds: "- (2 ^ 31) \<le> sint (w :: int32)" "sint (w :: int32) < 2 ^ 31"
  using sint_ge [of w] sint_lt [of w] by simp_all

lemma uint_scast64:
  assumes "0 \<le> sint (w :: int32)"
  shows "uint (scast w :: int64) = sint w"
proof -
  have "scast w = (word_of_int (sint w) :: int64)" by (rule scast_eq)
  then have "uint (scast w :: int64) = take_bit 64 (sint w)"
    by (simp only: unsigned_of_int) simp
  also have "\<dots> = sint w"
    using assms sint32_bounds(2) [of w] by (intro take_bit_int_eq_self) auto
  finally show ?thesis .
qed

lemma signed_of_nat32: "n < 2 ^ 31 \<Longrightarrow> sint (of_nat n :: int32) = int n"
  by (simp add: signed_of_nat signed_take_bit_int_eq_self)

end
