(* ===== verification/DataPacket.thy ===== *)
theory DataPacket
  imports MigPrelude
begin

text \<open>
  The wire library, \<^verbatim>\<open>src/server/public/protocol/data_packet.{h,cc}\<close>: the growing output buffer
  \<^verbatim>\<open>DataOutPacket\<close>, the cursor over received bytes \<^verbatim>\<open>DataInPacket\<close>, and the laws that relate
  what one writes to what the other reads.  A C++ object is a record, a method a computation of
  the state monad over it.  Accesses outside a buffer do not stop the model: they are recorded
  in a fault field, so that "no fault" is a statement of memory safety.
\<close>

section \<open>DataOutPacket\<close>

text \<open>\<open>out_buffer\<close> holds the bytes between \<^verbatim>\<open>buffer_\<close> and \<^verbatim>\<open>cursor_\<close>; \<open>heap_limit\<close> is the largest
  block \<^verbatim>\<open>malloc\<close>/\<^verbatim>\<open>realloc\<close> grants; \<open>out_fault\<close> records a store beyond
  \<^verbatim>\<open>buffer_ + buffer_length_\<close> or a \<^verbatim>\<open>memcpy\<close> that reads beyond its source.\<close>

record out_packet =
  out_buffer :: "byte list"
  buffer_length :: int32
  heap_limit :: nat
  out_fault :: bool

type_synonym 'a out_m = "(out_packet, 'a) state"

definition granted :: "nat \<Rightarrow> int32 \<Rightarrow> bool" where
  "granted limit len \<longleftrightarrow> 0 \<le> sint len \<and> sint len \<le> int limit"

definition DataOutPacket :: "nat \<Rightarrow> int32 \<Rightarrow> out_packet" where
  "DataOutPacket limit len =
     \<lparr>out_buffer = [], buffer_length = (if granted limit len then len else 0),
      heap_limit = limit, out_fault = False\<rparr>"

definition GetLength :: "out_packet \<Rightarrow> int32" where
  "GetLength p = of_nat (length (out_buffer p))"

definition Reset :: "unit out_m" where
  "Reset = State (\<lambda>p. ((), p\<lparr>out_buffer := []\<rparr>))"

text \<open>The \<^verbatim>\<open>realloc\<close> block of every write method: a failed \<^verbatim>\<open>realloc\<close> leaves a null buffer of
  length 0, and the method returns without writing.  (A \<^verbatim>\<open>realloc\<close> to size 0 frees.)\<close>

definition regrow :: "int32 \<Rightarrow> bool out_m" where
  "regrow len = State (\<lambda>p.
     if granted (heap_limit p) len \<and> len \<noteq> 0
     then (True, p\<lparr>buffer_length := len\<rparr>)
     else (False, p\<lparr>out_buffer := [], buffer_length := 0\<rparr>))"

text \<open>\<^verbatim>\<open>cursor_ - buffer_ + sizeof(x) > buffer_length_\<close> is an unsigned 64-bit comparison:
  \<^verbatim>\<open>sizeof\<close> is a \<^verbatim>\<open>size_t\<close>, so the pointer difference and the sign-extended length are both
  converted.\<close>

definition reserve :: "nat \<Rightarrow> bool out_m" where
  "reserve n = do {
     p \<leftarrow> State_Monad.get;
     if (scast (buffer_length p) :: int64) < of_nat (length (out_buffer p)) + of_nat n
     then regrow (of_nat (length (out_buffer p) + n) * 2)
     else State_Monad.return True
   }"

definition store :: "byte list \<Rightarrow> unit out_m" where
  "store bs = State (\<lambda>p.
     ((), p\<lparr>out_buffer := out_buffer p @ bs,
            out_fault := (out_fault p \<or>
              sint (buffer_length p) < int (length (out_buffer p) + length bs))\<rparr>))"

definition out_fail :: "unit out_m" where
  "out_fail = State (\<lambda>p. ((), p\<lparr>out_fault := True\<rparr>))"

definition Write8 :: "int8 \<Rightarrow> unit out_m" where
  "Write8 b = do { ok \<leftarrow> reserve 1; if ok then store (le_bytes 1 b) else State_Monad.return () }"

definition Write16 :: "int16 \<Rightarrow> unit out_m" where
  "Write16 w = do { ok \<leftarrow> reserve 2; if ok then store (le_bytes 2 w) else State_Monad.return () }"

definition Write32 :: "int32 \<Rightarrow> unit out_m" where
  "Write32 dw = do { ok \<leftarrow> reserve 4; if ok then store (le_bytes 4 dw) else State_Monad.return () }"

definition Write64 :: "int64 \<Rightarrow> unit out_m" where
  "Write64 lw = do { ok \<leftarrow> reserve 8; if ok then store (le_bytes 8 lw) else State_Monad.return () }"

text \<open>\<^verbatim>\<open>WriteData\<close> compares signed; \<open>buf\<close> is the memory at the source pointer.\<close>

definition WriteData :: "byte list \<Rightarrow> int32 \<Rightarrow> unit out_m" where
  "WriteData buf len = do {
     p \<leftarrow> State_Monad.get;
     ok \<leftarrow> (if sint (buffer_length p) < int (length (out_buffer p)) + sint len
           then regrow ((of_nat (length (out_buffer p)) + len) * 2)
           else State_Monad.return True);
     if \<not> ok then State_Monad.return ()
     else if sint len < 0 \<or> int (length buf) < sint len then out_fail
     else store (take (nat (sint len)) buf)
   }"

text \<open>The macro \<^verbatim>\<open>htonl64\<close>, mask by mask; \<^verbatim>\<open>ntohl64\<close> is the same macro.\<close>

definition htonl64 :: "int64 \<Rightarrow> int64" where
  "htonl64 x =
     drop_bit 56 (x AND 0xff00000000000000) OR
     drop_bit 40 (x AND 0x00ff000000000000) OR
     drop_bit 24 (x AND 0x0000ff0000000000) OR
     drop_bit 8 (x AND 0x000000ff00000000) OR
     push_bit 8 (x AND 0x00000000ff000000) OR
     push_bit 24 (x AND 0x0000000000ff0000) OR
     push_bit 40 (x AND 0x000000000000ff00) OR
     push_bit 56 (x AND 0x00000000000000ff)"

definition htons :: "int16 \<Rightarrow> int16" where "htons w = bswap 2 w"
definition htonl :: "int32 \<Rightarrow> int32" where "htonl w = bswap 4 w"

definition out_int8 :: "int8 \<Rightarrow> unit out_m" where "out_int8 b = Write8 b"
definition out_int16 :: "int16 \<Rightarrow> unit out_m" where "out_int16 w = Write16 (htons w)"
definition out_int32 :: "int32 \<Rightarrow> unit out_m" where "out_int32 dw = Write32 (htonl dw)"
definition out_int64 :: "int64 \<Rightarrow> unit out_m" where "out_int64 lw = Write64 (htonl64 lw)"
definition out_bool :: "bool \<Rightarrow> unit out_m" where "out_bool b = Write8 (if b then 1 else 0)"

text \<open>\<^verbatim>\<open>WriteString(str, n)\<close> reserves \<^verbatim>\<open>n + sizeof(len)\<close> bytes and stores
  \<^verbatim>\<open>sizeof(len) + n + 1\<close>: the length prefix, \<open>n\<close> characters and the terminating NUL.\<close>

definition WriteString :: "byte list \<Rightarrow> int32 \<Rightarrow> unit out_m" where
  "WriteString str n = do {
     let len = n + 1;
     p \<leftarrow> State_Monad.get;
     let need = (of_nat (length (out_buffer p)) + scast n + 4 :: int64);
     ok \<leftarrow> (if (scast (buffer_length p) :: int64) < need
           then regrow (ucast need * 2)
           else State_Monad.return True);
     if \<not> ok then State_Monad.return ()
     else do {
       out_int32 len;
       if sint n < 0 \<or> sint len < 0 \<or> int (length str) < sint n then out_fail
       else store (take (nat (sint n)) str @ [0])
     }
   }"

definition out_cstr :: "byte list \<Rightarrow> unit out_m" where
  "out_cstr str = WriteString (c_string str) (of_nat (length (c_string str)))"

definition out_string :: "byte list \<Rightarrow> unit out_m" where
  "out_string str = WriteString (c_string str) (of_nat (length (c_string str)))"

section \<open>DataInPacket\<close>

datatype fault = NullRead | OutOfBoundsRead | OutOfBoundsWrite | BadAlloc

text \<open>\<open>in_data\<close> is the memory at \<^verbatim>\<open>data_\<close>, \<open>in_cursor\<close> the offset of \<^verbatim>\<open>cursor_\<close> from it.\<close>

record in_packet =
  in_data :: "byte list"
  in_cursor :: int
  data_len :: int32
  in_fault :: "fault option"

type_synonym 'a in_m = "(in_packet, 'a) state"

definition DataInPacket :: "byte list \<Rightarrow> int32 \<Rightarrow> in_packet" where
  "DataInPacket d n = \<lparr>in_data = d, in_cursor = 0, data_len = n, in_fault = None\<rparr>"

definition in_fail :: "fault \<Rightarrow> unit in_m" where
  "in_fail f = State (\<lambda>p. ((), p\<lparr>in_fault := (if in_fault p = None then Some f else in_fault p)\<rparr>))"

definition remaining :: "in_packet \<Rightarrow> int" where
  "remaining p = sint (data_len p) - in_cursor p"

text \<open>\<^verbatim>\<open>memcpy(dst, ptr, n)\<close> from a pointer into the data (\<open>None\<close> is \<^verbatim>\<open>NULL\<close>).\<close>

definition memcpy_from :: "int option \<Rightarrow> int \<Rightarrow> byte list in_m" where
  "memcpy_from ptr n = (if n = 0 then State_Monad.return []
     else case ptr of
       None \<Rightarrow> do { in_fail NullRead; State_Monad.return (replicate (nat n) 0) }
     | Some q \<Rightarrow> do {
         p \<leftarrow> State_Monad.get;
         if 0 \<le> q \<and> 0 \<le> n \<and> q + n \<le> int (length (in_data p))
         then State_Monad.return (take (nat n) (drop (nat q) (in_data p)))
         else do { in_fail OutOfBoundsRead; State_Monad.return (replicate (nat n) 0) } })"

definition forward_cursor :: "int \<Rightarrow> unit in_m" where
  "forward_cursor n = State (\<lambda>p. ((), p\<lparr>in_cursor := in_cursor p + n\<rparr>))"

text \<open>\<^verbatim>\<open>data_len_ - (cursor_ - data_) >= sizeof(w)\<close> converts the signed difference to
  \<^verbatim>\<open>size_t\<close>: once the cursor is past the end, the test is true.\<close>

definition has_bytes :: "in_packet \<Rightarrow> nat \<Rightarrow> bool" where
  "has_bytes p n \<longleftrightarrow> (of_nat n :: int64) \<le> of_int (remaining p)"

definition read_word :: "nat \<Rightarrow> 'a::len word in_m" where
  "read_word n = do {
     p \<leftarrow> State_Monad.get;
     if has_bytes p n then do {
       bs \<leftarrow> memcpy_from (Some (in_cursor p)) (int n);
       forward_cursor (int n);
       State_Monad.return (le_word bs)
     } else State_Monad.return 0
   }"

definition Read8 :: "int8 in_m" where "Read8 = read_word 1"
definition Read16 :: "int16 in_m" where "Read16 = read_word 2"
definition Read32 :: "int32 in_m" where "Read32 = read_word 4"
definition Read64 :: "int64 in_m" where "Read64 = read_word 8"

text \<open>\<^verbatim>\<open>ReadData(size, n)\<close> sets \<open>n\<close> to what remains and advances by \<open>size\<close> whatever it is.\<close>

definition ReadData :: "int32 \<Rightarrow> (int option \<times> int32) in_m" where
  "ReadData sz = do {
     p \<leftarrow> State_Monad.get;
     let n = (of_int (remaining p) :: int32);
     if n = 0 then State_Monad.return (None, n)
     else do { forward_cursor (sint sz); State_Monad.return (Some (in_cursor p), n) }
   }"

definition PeekData :: "(int option \<times> int32) in_m" where
  "PeekData = do {
     p \<leftarrow> State_Monad.get;
     let n = (of_int (remaining p) :: int32);
     State_Monad.return (if n = 0 then None else Some (in_cursor p), n)
   }"

definition in_int8 :: "int8 in_m" where "in_int8 = Read8"
definition in_int16 :: "int16 in_m" where "in_int16 = do { w \<leftarrow> Read16; State_Monad.return (htons w) }"
definition in_int32 :: "int32 in_m" where "in_int32 = do { w \<leftarrow> Read32; State_Monad.return (htonl w) }"
definition in_int64 :: "int64 in_m" where "in_int64 = do { w \<leftarrow> Read64; State_Monad.return (htonl64 w) }"
definition in_bool :: "bool in_m" where "in_bool = do { b \<leftarrow> Read8; State_Monad.return (b \<noteq> 0) }"

text \<open>\<^verbatim>\<open>operator >> (std::string&)\<close>: a length, then that many bytes of which the last must be
  NUL; the string taken is the C string that starts there.  Anything else gives the empty
  string and leaves the cursor after the length.\<close>

definition in_string :: "byte list in_m" where
  "in_string = do {
     len \<leftarrow> in_int32;
     p \<leftarrow> State_Monad.get;
     if 0 < sint len \<and> sint len \<le> remaining p then do {
       bs \<leftarrow> memcpy_from (Some (in_cursor p)) (sint len);
       if last bs = 0 then do {
         forward_cursor (sint len);
         State_Monad.return (c_string bs)
       } else State_Monad.return []
     } else State_Monad.return []
   }"

text \<open>\<^verbatim>\<open>operator >> (char* str)\<close> copies the same string with \<^verbatim>\<open>strcpy\<close> into an array of \<open>cap\<close>
  bytes, which the operator is not told.\<close>

definition in_chars :: "nat \<Rightarrow> byte list in_m" where
  "in_chars cap = do {
     s \<leftarrow> in_string;
     (if cap < length s + 1 then in_fail OutOfBoundsWrite else State_Monad.return ());
     State_Monad.return s
   }"

definition Forward :: "int32 \<Rightarrow> int32 in_m" where
  "Forward delta = do {
     p \<leftarrow> State_Monad.get;
     let forward_len = (of_int (in_cursor p) :: int32);
     let d = (if sint forward_len < sint delta then forward_len else delta);
     forward_cursor (- sint d);
     State_Monad.return d
   }"

section \<open>What a writer appends\<close>

text \<open>\<open>fits p n\<close>: \<open>n\<close> more bytes lie within the allocated block.  \<open>writes m bs\<close>: whenever \<open>bs\<close> fits,
  \<open>m\<close> appends exactly \<open>bs\<close> and changes nothing else.\<close>

definition fits :: "out_packet \<Rightarrow> nat \<Rightarrow> bool" where
  "fits p n \<longleftrightarrow> int (length (out_buffer p) + n) \<le> sint (buffer_length p)"

definition writes :: "unit out_m \<Rightarrow> byte list \<Rightarrow> bool" where
  "writes m bs \<longleftrightarrow> (\<forall>p. fits p (length bs) \<longrightarrow>
     run_state m p = ((), p\<lparr>out_buffer := out_buffer p @ bs\<rparr>))"

lemma fits_bound: "fits p n \<Longrightarrow> length (out_buffer p) + n < 2 ^ 31"
  using sint32_bounds(2) [of "buffer_length p"] by (simp add: fits_def)

lemma scast_less_of_nat:
  assumes "int k \<le> sint (w :: int32)"
  shows "\<not> (scast w :: int64) < of_nat k"
proof -
  have k: "k < 2 ^ 31" using assms sint32_bounds(2) [of w] by simp
  then have "uint (of_nat k :: int64) = int k"
    by (simp add: unsigned_of_nat take_bit_nat_eq_self)
  moreover have "uint (scast w :: int64) = sint w"
    using assms by (intro uint_scast64) simp
  ultimately show ?thesis using assms by (simp add: word_less_def)
qed

lemma run_reserve [run_simps]: "fits p n \<Longrightarrow> run_state (reserve n) p = (True, p)"
  using scast_less_of_nat [of "length (out_buffer p) + n" "buffer_length p"]
  by (simp add: reserve_def fits_def)

lemma run_store [run_simps]:
  "fits p (length bs) \<Longrightarrow> run_state (store bs) p = ((), p\<lparr>out_buffer := out_buffer p @ bs\<rparr>)"
  by (simp add: store_def fits_def)

lemma writes_return [writes_intros]: "writes (State_Monad.return ()) []"
  by (simp add: writes_def)

lemma writes_bind:
  assumes "writes m bs" and "writes m' cs"
  shows "writes (m \<bind> (\<lambda>_. m')) (bs @ cs)"
  unfolding writes_def
proof (intro allI impI)
  fix p assume f: "fits p (length (bs @ cs))"
  then have 1: "run_state m p = ((), p\<lparr>out_buffer := out_buffer p @ bs\<rparr>)"
    using assms(1) by (simp add: writes_def fits_def)
  from f have "fits (p\<lparr>out_buffer := out_buffer p @ bs\<rparr>) (length cs)"
    by (simp add: fits_def)
  then have "run_state m' (p\<lparr>out_buffer := out_buffer p @ bs\<rparr>) =
      ((), p\<lparr>out_buffer := (out_buffer p @ bs) @ cs\<rparr>)"
    using assms(2) by (simp add: writes_def)
  with 1 show "run_state (m \<bind> (\<lambda>_. m')) p = ((), p\<lparr>out_buffer := out_buffer p @ bs @ cs\<rparr>)"
    by simp
qed

lemma writes_word [writes_intros]:
  "writes (Write8 b) (le_bytes 1 b)"
  "writes (Write16 w) (le_bytes 2 w)"
  "writes (Write32 d) (le_bytes 4 d)"
  "writes (Write64 q) (le_bytes 8 q)"
  by (simp_all add: writes_def Write8_def Write16_def Write32_def Write64_def
      run_reserve run_store)

lemma writes_WriteData [writes_intros]:
  assumes "length buf = n" and "n < 2 ^ 31"
  shows "writes (WriteData buf (of_nat n)) buf"
proof -
  have "sint (of_nat n :: int32) = int n"
    using assms(2) by (simp add: signed_of_nat signed_take_bit_int_eq_self)
  then show ?thesis
    using assms by (auto simp: writes_def WriteData_def fits_def run_store)
qed

section \<open>What a reader consumes\<close>

text \<open>\<open>reads m bs x\<close>: at a cursor in front of the bytes \<open>bs\<close>, \<open>m\<close> returns \<open>x\<close> and moves the
  cursor behind them, without a fault.\<close>

definition in_ok :: "in_packet \<Rightarrow> bool" where
  "in_ok p \<longleftrightarrow> in_fault p = None \<and> sint (data_len p) = int (length (in_data p)) \<and>
     0 \<le> in_cursor p \<and> in_cursor p \<le> sint (data_len p)"

definition before :: "in_packet \<Rightarrow> byte list \<Rightarrow> bool" where
  "before p bs \<longleftrightarrow> in_ok p \<and> (\<exists>rest. drop (nat (in_cursor p)) (in_data p) = bs @ rest)"

definition advance :: "nat \<Rightarrow> in_packet \<Rightarrow> in_packet" where
  "advance n p = p\<lparr>in_cursor := in_cursor p + int n\<rparr>"

definition reads :: "'a in_m \<Rightarrow> byte list \<Rightarrow> 'a \<Rightarrow> bool" where
  "reads m bs x \<longleftrightarrow> (\<forall>p. before p bs \<longrightarrow> run_state m p = (x, advance (length bs) p))"

lemma advance_simps [simp]:
  "in_data (advance n p) = in_data p" "data_len (advance n p) = data_len p"
  "in_fault (advance n p) = in_fault p" "in_cursor (advance n p) = in_cursor p + int n"
  "advance 0 p = p" "advance m (advance n p) = advance (n + m) p"
  by (simp_all add: advance_def)

lemma run_forward_cursor [simp]: "run_state (forward_cursor (int n)) p = ((), advance n p)"
  by (simp add: forward_cursor_def advance_def)

lemma before_remaining: "before p bs \<Longrightarrow> int (length bs) \<le> remaining p"
proof -
  assume b: "before p bs"
  then obtain rest where "drop (nat (in_cursor p)) (in_data p) = bs @ rest"
    by (auto simp: before_def)
  then have "length (in_data p) - nat (in_cursor p) \<ge> length bs"
    by (metis length_append length_drop le_add1)
  with b show ?thesis by (auto simp: before_def in_ok_def remaining_def)
qed

lemma before_take:
  assumes "before p (bs @ cs)"
  shows "take (length bs) (drop (nat (in_cursor p)) (in_data p)) = bs"
  using assms by (auto simp: before_def)

lemma before_appendD:
  assumes "before p (bs @ cs)"
  shows "before p bs" and "before (advance (length bs) p) cs"
proof -
  obtain rest where r: "drop (nat (in_cursor p)) (in_data p) = bs @ cs @ rest"
    using assms by (auto simp: before_def)
  then show "before p bs" using assms by (auto simp: before_def)
  have c: "0 \<le> in_cursor p" using assms by (simp add: before_def in_ok_def)
  then have "drop (nat (in_cursor p + int (length bs))) (in_data p) = cs @ rest"
    using r by (metis add.commute append_eq_conv_conj drop_drop nat_int nat_int_add int_nat_eq)
  moreover have "int (length bs) \<le> remaining p" using before_remaining [OF \<open>before p bs\<close>] .
  ultimately show "before (advance (length bs) p) cs"
    using assms by (auto simp: before_def in_ok_def remaining_def)
qed

lemma reads_return [reads_intros]: "reads (State_Monad.return x) [] x"
  by (simp add: reads_def)

lemma reads_bind:
  assumes "reads m bs x" and "reads (f x) cs y"
  shows "reads (m \<bind> f) (bs @ cs) y"
  unfolding reads_def
proof (intro allI impI)
  fix p assume "before p (bs @ cs)"
  note b = before_appendD [OF this]
  show "run_state (m \<bind> f) p = (y, advance (length (bs @ cs)) p)"
    using assms b by (simp add: reads_def)
qed

lemma reads_bind_return:
  assumes "reads m bs x" and "f x = State_Monad.return y"
  shows "reads (m \<bind> f) bs y"
  using reads_bind [OF assms(1), of f "[]" y] assms(2) by (simp add: reads_return)

lemma before_bounds:
  assumes "before p bs"
  shows "0 \<le> in_cursor p" "in_cursor p + int (length bs) \<le> int (length (in_data p))"
    "int (length (in_data p)) < 2 ^ 31" "remaining p = int (length (in_data p)) - in_cursor p"
  using assms before_remaining [OF assms] sint32_bounds(2) [of "data_len p"]
  by (auto simp: before_def in_ok_def remaining_def)

lemma has_bytes_iff:
  assumes "0 \<le> remaining p" "remaining p < 2 ^ 31" "n < 2 ^ 31"
  shows "has_bytes p n \<longleftrightarrow> int n \<le> remaining p"
proof -
  have "uint (of_nat n :: int64) = int n" using assms(3)
    by (simp add: unsigned_of_nat take_bit_nat_eq_self)
  moreover have "uint (of_int (remaining p) :: int64) = remaining p" using assms(1,2)
    by (simp add: unsigned_of_int take_bit_int_eq_self)
  ultimately show ?thesis by (simp add: has_bytes_def word_le_def)
qed

lemma run_memcpy_before [run_simps]:
  assumes "before p bs"
  shows "run_state (memcpy_from (Some (in_cursor p)) (int (length bs))) p = (bs, p)"
  using before_bounds [OF assms] before_take [of p bs "[]"] assms
  by (auto simp: memcpy_from_def)

lemma reads_read_word:
  assumes "length bs = n"
  shows "reads (read_word n) bs (le_word bs)"
  unfolding reads_def
proof (intro allI impI)
  fix p assume b: "before p bs"
  note bb = before_bounds [OF b] before_remaining [OF b]
  have "has_bytes p (length bs)"
    using bb by (subst has_bytes_iff) auto
  then show "run_state (read_word n) p = (le_word bs, advance (length bs) p)"
    using assms b by (auto simp: read_word_def run_memcpy_before)
qed

lemma reads_word [reads_intros]:
  "reads Read8 (le_bytes 1 b) b" "reads Read16 (le_bytes 2 w) w"
  "reads Read32 (le_bytes 4 d) d" "reads Read64 (le_bytes 8 q) q"
  using reads_read_word [where ?'a = 8, of "le_bytes 1 b" 1]
    reads_read_word [where ?'a = 16, of "le_bytes 2 w" 2]
    reads_read_word [where ?'a = 32, of "le_bytes 4 d" 4]
    reads_read_word [where ?'a = 64, of "le_bytes 8 q" 8]
  by (simp_all add: Read8_def Read16_def Read32_def Read64_def)

text \<open>\<^verbatim>\<open>memcpy(dst, in.ReadData(n, temp), n)\<close>, the idiom with which the protocols fetch
  character arrays, alone, with the last element set to NUL, and through a \<^verbatim>\<open>new char[len]\<close>.\<close>

definition read_bytes :: "int32 \<Rightarrow> byte list in_m" where
  "read_bytes n = do { r \<leftarrow> ReadData n; memcpy_from (fst r) (sint n) }"

definition read_chars :: "nat \<Rightarrow> byte list in_m" where
  "read_chars n = do {
     bs \<leftarrow> read_bytes (of_nat n);
     State_Monad.return (bs[n - 1 := 0])
   }"

definition read_content :: "int32 \<Rightarrow> byte list in_m" where
  "read_content len =
     (if sint len < 0 then do { in_fail BadAlloc; State_Monad.return [] } else read_bytes len)"

lemma of_int_32_eq_0:
  assumes "0 \<le> r" "r < 2 ^ 31"
  shows "(of_int r :: int32) = 0 \<longleftrightarrow> r = 0"
proof
  have "sint (of_nat (nat r) :: int32) = int (nat r)"
    using assms by (intro signed_of_nat32) (simp add: nat_less_iff)
  moreover assume "(of_int r :: int32) = 0"
  ultimately show "r = 0" using assms by simp
qed simp

lemma reads_read_bytes [reads_intros]:
  assumes "length bs = n" "n < 2 ^ 31"
  shows "reads (read_bytes (of_nat n)) bs bs"
  unfolding reads_def
proof (intro allI impI)
  fix p assume b: "before p bs"
  note bb = before_bounds [OF b] before_remaining [OF b]
  have n: "sint (of_nat n :: int32) = int n" using assms(2) by (rule signed_of_nat32)
  have r: "(of_int (remaining p) :: int32) = 0 \<longleftrightarrow> remaining p = 0"
    using bb by (intro of_int_32_eq_0) auto
  have "run_state (memcpy_from (Some (in_cursor p)) (int n)) (advance n p) = (bs, advance n p)"
    using bb before_take [of p bs "[]"] b assms(1)
    by (auto simp: memcpy_from_def)
  with n r bb assms(1) show "run_state (read_bytes (of_nat n)) p = (bs, advance (length bs) p)"
    by (auto simp: read_bytes_def ReadData_def Let_def memcpy_from_def)
qed

definition char_array :: "nat \<Rightarrow> byte list \<Rightarrow> bool" where
  "char_array n a \<longleftrightarrow> length a = n \<and> 0 < n \<and> n < 2 ^ 31 \<and> last a = 0"

lemma char_array_update: "char_array n a \<Longrightarrow> a[n - 1 := 0] = a"
  by (cases a rule: rev_cases) (auto simp: char_array_def)

lemma reads_read_chars [reads_intros]:
  assumes "char_array n a"
  shows "reads (read_chars n) a a"
  unfolding read_chars_def
proof (rule reads_bind_return)
  show "reads (read_bytes (of_nat n)) a a"
    using assms by (intro reads_read_bytes) (auto simp: char_array_def)
  show "State_Monad.return (a[n - 1 := 0]) = State_Monad.return a"
    using assms by (simp only: char_array_update)
qed

lemma reads_read_content [reads_intros]:
  assumes "sint len = int (length bs)"
  shows "reads (read_content len) bs bs"
proof -
  have "of_int (sint len) = len" by simp
  then have "len = of_nat (length bs)" by (simp only: assms of_int_of_nat_eq)
  moreover have "length bs < 2 ^ 31" using assms sint32_bounds(2) [of len] by simp
  ultimately show ?thesis
    using assms reads_read_bytes [of bs "length bs"] by (simp add: read_content_def)
qed

section \<open>Network byte order\<close>

lemma bit_htonl64:
  assumes "i < 64"
  shows "bit (htonl64 x) i \<longleftrightarrow> bit x (8 * (7 - i div 8) + i mod 8)"
proof -
  have "nat (int i) = i" "int i \<in> set [0..63]" using assms by auto
  moreover have "\<forall>j \<in> set [0..63].
      bit (htonl64 x) (nat j) = bit x (8 * (7 - nat j div 8) + nat j mod 8)"
    by (simp add: htonl64_def bit_simps upto.simps del: set_upto)
      (simp add: numeral_2_eq_2)
  ultimately show ?thesis by metis
qed

lemma htonl64_eq_bswap: "htonl64 x = bswap 8 x"
proof (rule bit_word_eqI)
  fix i assume "i < LENGTH(64)"
  then have i: "i < 64" by simp
  then have d: "i div 8 < 8" by (simp add: less_mult_imp_div_less)
  then have "rev (le_bytes 8 x) ! (i div 8) = ucast (drop_bit (8 * (7 - i div 8)) x)"
    by (simp add: rev_nth)
  then show "bit (htonl64 x) i \<longleftrightarrow> bit (bswap 8 x) i"
    using i d by (simp add: bit_htonl64 bswap_def bit_le_word bit_simps)
qed

text \<open>The mask-and-shift macro htonl64 reverses the eight bytes of its argument, as htonl and
  htons do for four and two bytes, and each of the three conversions is its own inverse.\<close>

theorem byte_order:
  "htonl64 x = bswap 8 x \<and> htonl64 (htonl64 x) = x \<and> htonl (htonl d) = d \<and> htons (htons w) = w \<and>
   le_bytes 8 (htonl64 x) = rev (le_bytes 8 x) \<and>
   le_bytes 4 (htonl d) = rev (le_bytes 4 d) \<and> le_bytes 2 (htons w) = rev (le_bytes 2 w)"
  by (simp add: htonl64_eq_bswap htonl_def htons_def bswap_bswap le_bytes_bswap)

lemma htonl_involutions [simp]:
  "htonl64 (htonl64 x) = x" "htonl (htonl d) = d" "htons (htons w) = w"
  by (simp_all add: htonl64_eq_bswap htonl_def htons_def bswap_bswap)

section \<open>Strings\<close>

lemma writes_out_word [writes_intros]:
  "writes (out_int8 b) (le_bytes 1 b)"
  "writes (out_int16 w) (le_bytes 2 (htons w))"
  "writes (out_int32 d) (le_bytes 4 (htonl d))"
  "writes (out_int64 q) (le_bytes 8 (htonl64 q))"
  "writes (out_bool c) (le_bytes 1 (if c then 1 else 0 :: int8))"
  by (simp_all only: out_int8_def out_int16_def out_int32_def out_int64_def out_bool_def
      writes_word)

lemma reads_in_word [reads_intros]:
  "reads in_int8 (le_bytes 1 b) b"
  "reads in_int16 (le_bytes 2 (htons w)) w"
  "reads in_int32 (le_bytes 4 (htonl d)) d"
  "reads in_int64 (le_bytes 8 (htonl64 q)) q"
  "reads in_bool (le_bytes 1 (if c then 1 else 0 :: int8)) c"
  unfolding in_int8_def in_int16_def in_int32_def in_int64_def in_bool_def
  by (rule reads_word, (rule reads_bind_return, rule reads_word, simp)+)

text \<open>A string travels as its length with the NUL, in network order, and its characters.\<close>

definition string_bytes :: "byte list \<Rightarrow> byte list" where
  "string_bytes s = le_bytes 4 (htonl (of_nat (length s + 1))) @ s @ [0]"

definition plain_string :: "byte list \<Rightarrow> bool" where
  "plain_string s \<longleftrightarrow> 0 \<notin> set s \<and> length s + 6 < 2 ^ 31"

lemma length_string_bytes [simp]: "length (string_bytes s) = length s + 5"
  by (simp add: string_bytes_def)

lemma writes_WriteString:
  assumes "plain_string s"
  shows "writes (WriteString s (of_nat (length s))) (string_bytes s)"
  unfolding writes_def
proof (intro allI impI)
  fix p assume f: "fits p (length (string_bytes s))"
  have n: "length s < 2 ^ 31" using assms by (simp add: plain_string_def)
  have sn: "sint (of_nat (length s) :: int32) = int (length s)"
    using n by (rule signed_of_nat32)
  have sn1: "sint (of_nat (length s) + 1 :: int32) = int (length s) + 1"
    using assms signed_of_nat32 [of "length s + 1"] by (simp add: plain_string_def add.commute)
  have sc: "scast (of_nat (length s) :: int32) = (of_nat (length s) :: int64)"
    using sn by (metis of_int_of_nat_eq scast_eq)
  have big: "\<not> (scast (buffer_length p) :: int64)
      < of_nat (length (out_buffer p)) + of_nat (length s) + 4"
    using scast_less_of_nat [of "length (out_buffer p) + length s + 4" "buffer_length p"] f
    by (simp add: fits_def)
  have w: "run_state (out_int32 (of_nat (length s) + 1)) p =
      ((), p\<lparr>out_buffer := out_buffer p @ le_bytes 4 (htonl (of_nat (length s) + 1))\<rparr>)"
    using writes_out_word(3) [of "of_nat (length s) + 1"] f by (simp add: writes_def fits_def)
  have st: "run_state (store (s @ [0]))
      (p\<lparr>out_buffer := out_buffer p @ le_bytes 4 (htonl (of_nat (length s) + 1))\<rparr>) =
      ((), p\<lparr>out_buffer := (out_buffer p @ le_bytes 4 (htonl (of_nat (length s) + 1))) @ s @ [0]\<rparr>)"
    using f by (subst run_store) (auto simp: fits_def)
  show "run_state (WriteString s (of_nat (length s))) p =
      ((), p\<lparr>out_buffer := out_buffer p @ string_bytes s\<rparr>)"
    using big w st sn sn1 by (simp add: WriteString_def Let_def sc string_bytes_def ac_simps)
qed

lemma reads_in_string:
  assumes "plain_string s"
  shows "reads in_string (string_bytes s) s"
  unfolding reads_def
proof (intro allI impI)
  fix p assume b: "before p (string_bytes s)"
  have sn: "sint (of_nat (length s) + 1 :: int32) = int (length s) + 1"
    using assms signed_of_nat32 [of "length s + 1"] by (simp add: plain_string_def add.commute)
  from b have b': "before p (le_bytes 4 (htonl (of_nat (length s + 1))) @ s @ [0])"
    by (simp only: string_bytes_def)
  note b1 = before_appendD [OF b'] and rd = reads_in_word(3) [unfolded reads_def, rule_format]
  define q where "q = advance 4 p"
  have 1: "run_state in_int32 p = (of_nat (length s + 1), q)"
    using rd [OF b1(1)] by (simp add: q_def)
  have bq: "before q (s @ [0])" using b1(2) by (simp add: q_def)
  have 2: "run_state (memcpy_from (Some (in_cursor q)) (int (length s) + 1)) q = (s @ [0], q)"
    using run_memcpy_before [OF bq] by (simp add: add.commute)
  have 3: "int (length s) + 1 \<le> remaining q"
    using before_remaining [OF bq] by simp
  have 4: "run_state (forward_cursor (int (length s) + 1)) q = ((), advance (length s + 1) q)"
    using run_forward_cursor [of "length s + 1" q] by (simp add: add.commute)
  show "run_state in_string p = (s, advance (length (string_bytes s)) p)"
    using 1 2 3 4 sn assms
    by (simp add: in_string_def plain_string_def q_def add.commute)
qed

section \<open>Codecs\<close>

text \<open>The contract between a writer and the reader of the same type: on well-formed values the
  writer appends an encoding and the reader takes exactly that encoding back.\<close>

primrec put_all :: "('a \<Rightarrow> unit out_m) \<Rightarrow> 'a list \<Rightarrow> unit out_m" where
  "put_all put [] = State_Monad.return ()"
| "put_all put (x # xs) = do { put x; put_all put xs }"

primrec get_all :: "('t \<Rightarrow> 'a in_m) \<Rightarrow> 't list \<Rightarrow> 'a list in_m" where
  "get_all get [] = State_Monad.return []"
| "get_all get (t # ts) = do { x \<leftarrow> get t; xs \<leftarrow> get_all get ts; State_Monad.return (x # xs) }"

locale wire_writer =
  fixes wf :: "'a \<Rightarrow> bool" and enc :: "'a \<Rightarrow> byte list" and put :: "'a \<Rightarrow> unit out_m"
  assumes put_writes: "wf x \<Longrightarrow> writes (put x) (enc x)"
begin

lemma put_all_writes: "list_all wf xs \<Longrightarrow> writes (put_all put xs) (concat (map enc xs))"
  by (induction xs) (auto intro: writes_return writes_bind put_writes)

end

text \<open>A writer all of whose encodings have one length.\<close>

locale fixed_writer = wire_writer +
  fixes width :: nat
  assumes width: "wf x \<Longrightarrow> length (enc x) = width"
begin

lemma length_all: "list_all wf xs \<Longrightarrow> length (concat (map enc xs)) = width * length xs"
  by (induction xs) (simp_all add: width)

end

locale wire_codec = wire_writer wf enc put
  for wf :: "'a \<Rightarrow> bool" and enc :: "'a \<Rightarrow> byte list" and put :: "'a \<Rightarrow> unit out_m" +
  fixes tag :: "'a \<Rightarrow> 't" and get :: "'t \<Rightarrow> 'a in_m"
  assumes get_reads: "wf x \<Longrightarrow> reads (get (tag x)) (enc x) x"
begin

lemma get_all_reads:
  "list_all wf xs \<Longrightarrow> reads (get_all get (map tag xs)) (concat (map enc xs)) xs"
proof (induction xs)
  case (Cons x xs)
  then have 1: "reads (get (tag x)) (enc x) x"
    and 2: "reads (get_all get (map tag xs)) (concat (map enc xs)) xs"
    by (simp_all add: get_reads)
  have "reads (get_all get (map tag xs) \<bind> (\<lambda>xs. State_Monad.return (x # xs)))
      (concat (map enc xs)) (x # xs)"
    by (rule reads_bind_return [OF 2]) (rule refl)
  from reads_bind [OF 1, where f = "\<lambda>x. get_all get (map tag xs) \<bind>
      (\<lambda>xs. State_Monad.return (x # xs))", OF this]
  show ?case by simp
qed (simp add: reads_return)

end

section \<open>Packets written and read back\<close>

lemma run_writes_fresh:
  assumes "writes m bs" "granted limit len" "int (length bs) \<le> sint len"
  shows "run_state m (DataOutPacket limit len) =
    ((), (DataOutPacket limit len)\<lparr>out_buffer := bs\<rparr>)"
  using assms by (auto simp: writes_def fits_def DataOutPacket_def)

lemma run_reads_fresh:
  assumes "reads m bs x" "length bs < 2 ^ 31"
  shows "run_state m (DataInPacket bs (of_nat (length bs))) =
    (x, advance (length bs) (DataInPacket bs (of_nat (length bs))))"
  using assms signed_of_nat32 [of "length bs"]
  by (auto simp: reads_def before_def in_ok_def DataInPacket_def)

text \<open>A value with the type that selects its \<^verbatim>\<open><<\<close> and \<^verbatim>\<open>>>\<close> operator.\<close>

datatype wire_value = VInt8 int8 | VInt16 int16 | VInt32 int32 | VInt64 int64 | VBool bool
  | VString "byte list"

datatype wire_type = TInt8 | TInt16 | TInt32 | TInt64 | TBool | TString

primrec put_value :: "wire_value \<Rightarrow> unit out_m" where
  "put_value (VInt8 b) = out_int8 b"
| "put_value (VInt16 w) = out_int16 w"
| "put_value (VInt32 d) = out_int32 d"
| "put_value (VInt64 q) = out_int64 q"
| "put_value (VBool c) = out_bool c"
| "put_value (VString s) = out_string s"

primrec get_value :: "wire_type \<Rightarrow> wire_value in_m" where
  "get_value TInt8 = do { b \<leftarrow> in_int8; State_Monad.return (VInt8 b) }"
| "get_value TInt16 = do { w \<leftarrow> in_int16; State_Monad.return (VInt16 w) }"
| "get_value TInt32 = do { d \<leftarrow> in_int32; State_Monad.return (VInt32 d) }"
| "get_value TInt64 = do { q \<leftarrow> in_int64; State_Monad.return (VInt64 q) }"
| "get_value TBool = do { c \<leftarrow> in_bool; State_Monad.return (VBool c) }"
| "get_value TString = do { s \<leftarrow> in_string; State_Monad.return (VString s) }"

primrec type_of :: "wire_value \<Rightarrow> wire_type" where
  "type_of (VInt8 b) = TInt8"
| "type_of (VInt16 w) = TInt16"
| "type_of (VInt32 d) = TInt32"
| "type_of (VInt64 q) = TInt64"
| "type_of (VBool c) = TBool"
| "type_of (VString s) = TString"

primrec value_bytes :: "wire_value \<Rightarrow> byte list" where
  "value_bytes (VInt8 b) = le_bytes 1 b"
| "value_bytes (VInt16 w) = le_bytes 2 (htons w)"
| "value_bytes (VInt32 d) = le_bytes 4 (htonl d)"
| "value_bytes (VInt64 q) = le_bytes 8 (htonl64 q)"
| "value_bytes (VBool c) = le_bytes 1 (if c then 1 else 0 :: int8)"
| "value_bytes (VString s) = string_bytes s"

primrec plain_value :: "wire_value \<Rightarrow> bool" where
  "plain_value (VInt8 b) = True"
| "plain_value (VInt16 w) = True"
| "plain_value (VInt32 d) = True"
| "plain_value (VInt64 q) = True"
| "plain_value (VBool c) = True"
| "plain_value (VString s) = plain_string s"

lemma writes_put_value: "plain_value v \<Longrightarrow> writes (put_value v) (value_bytes v)"
proof (cases v)
  case (VString s)
  assume "plain_value v"
  with VString writes_WriteString [of s] show ?thesis
    by (simp add: out_string_def plain_string_def)
qed (use writes_out_word in simp_all)

lemma reads_get_value: "plain_value v \<Longrightarrow> reads (get_value (type_of v)) (value_bytes v) v"
proof (cases v)
  case (VString s)
  assume "plain_value v"
  with VString reads_bind_return [OF reads_in_string [of s], where f = "\<lambda>s. State_Monad.return (VString s)"]
  show ?thesis by simp
qed (simp_all only: get_value.simps type_of.simps value_bytes.simps,
     (rule reads_bind_return, rule reads_in_word, rule refl)+)

interpretation network: wire_codec plain_value value_bytes put_value type_of get_value
  by unfold_locales (auto intro: writes_put_value reads_get_value)

interpretation native64: wire_codec "\<lambda>_. True" "le_bytes 8" Write64 "\<lambda>_. ()" "\<lambda>_. Read64"
  by unfold_locales (auto intro: writes_word reads_word)

text \<open>C24: Any sequence of values (8 to 64-bit integers, booleans, NUL-free strings) written with
  the << operators to a DataOutPacket that is large enough is read back unchanged by the >>
  operators of a DataInPacket over the written bytes, in the same order, consuming all of
  them, without a memory fault on either side.\<close>

theorem stream_roundtrip:
  assumes "list_all plain_value vs" and "granted limit len"
    and "int (length (concat (map value_bytes vs))) \<le> sint len"
  defines "out \<equiv> snd (run_state (put_all put_value vs) (DataOutPacket limit len))"
  defines "r \<equiv> run_state (get_all get_value (map type_of vs))
                 (DataInPacket (out_buffer out) (GetLength out))"
  shows "\<not> out_fault out \<and> fst r = vs \<and> in_fault (snd r) = None \<and> remaining (snd r) = 0"
proof -
  let ?bs = "concat (map value_bytes vs)"
  have n: "length ?bs < 2 ^ 31" using assms(3) sint32_bounds(2) [of len] by simp
  have o: "out = (DataOutPacket limit len)\<lparr>out_buffer := ?bs\<rparr>"
    using run_writes_fresh [OF network.put_all_writes [OF assms(1)] assms(2,3)]
    by (simp add: out_def)
  then have "\<not> out_fault out" by (simp add: DataOutPacket_def)
  moreover have "r = (vs, advance (length ?bs) (DataInPacket ?bs (of_nat (length ?bs))))"
    using run_reads_fresh [OF network.get_all_reads [OF assms(1)] n] o
    by (simp add: r_def GetLength_def)
  ultimately show ?thesis
    using signed_of_nat32 [OF n] by (simp add: DataInPacket_def remaining_def)
qed

theorem stream_roundtrip_witness:
  "let vs = [VInt32 7, VBool True, VString [104, 105], VInt64 (- 1)];
       out = snd (run_state (put_all put_value vs) (DataOutPacket 4096 1024))
   in fst (run_state (get_all get_value (map type_of vs))
        (DataInPacket (out_buffer out) (GetLength out))) = vs"
  using stream_roundtrip [of "[VInt32 7, VBool True, VString [104, 105], VInt64 (- 1)]" 4096 1024]
  by (simp add: plain_string_def granted_def Let_def)

section \<open>Growth\<close>

text \<open>Between two writes nothing has been stored beyond the allocated block.\<close>

definition out_sound :: "out_packet \<Rightarrow> bool" where
  "out_sound p \<longleftrightarrow> \<not> out_fault p \<and> int (length (out_buffer p)) \<le> sint (buffer_length p)"

datatype write_op = Op8 int8 | Op16 int16 | Op32 int32 | Op64 int64 | OpData "byte list"

primrec run_op :: "write_op \<Rightarrow> unit out_m" where
  "run_op (Op8 b) = Write8 b"
| "run_op (Op16 w) = Write16 w"
| "run_op (Op32 d) = Write32 d"
| "run_op (Op64 q) = Write64 q"
| "run_op (OpData bs) = WriteData bs (of_nat (length bs))"

primrec op_bytes :: "write_op \<Rightarrow> byte list" where
  "op_bytes (Op8 b) = le_bytes 1 b"
| "op_bytes (Op16 w) = le_bytes 2 w"
| "op_bytes (Op32 d) = le_bytes 4 d"
| "op_bytes (Op64 q) = le_bytes 8 q"
| "op_bytes (OpData bs) = bs"

text \<open>The outcome of the \<^verbatim>\<open>realloc\<close> block when \<open>n\<close> bytes are needed.\<close>

definition after_reserve :: "out_packet \<Rightarrow> nat \<Rightarrow> bool \<times> out_packet" where
  "after_reserve p n =
     (if fits p n then (True, p)
      else if 2 * (length (out_buffer p) + n) \<le> heap_limit p
      then (True, p\<lparr>buffer_length := of_nat (2 * (length (out_buffer p) + n))\<rparr>)
      else (False, p\<lparr>out_buffer := [], buffer_length := 0\<rparr>))"

lemma run_regrow:
  assumes "0 < m" "m < 2 ^ 31"
  shows "run_state (regrow (of_nat m)) p =
    (if m \<le> heap_limit p then (True, p\<lparr>buffer_length := of_nat m\<rparr>)
     else (False, p\<lparr>out_buffer := [], buffer_length := 0\<rparr>))"
proof -
  have "sint (of_nat m :: int32) = int m" using assms(2) by (rule signed_of_nat32)
  moreover from this have "(of_nat m :: int32) \<noteq> 0" using assms(1) by (metis of_nat_0_less_iff sint_0 less_irrefl)
  ultimately show ?thesis by (simp add: regrow_def granted_def)
qed

lemma run_reserve_general:
  assumes "out_sound p" "length (out_buffer p) + n < 2 ^ 30"
  shows "run_state (reserve n) p = after_reserve p n"
proof (cases "fits p n")
  case True
  then show ?thesis by (simp add: after_reserve_def run_reserve)
next
  case False
  let ?k = "length (out_buffer p) + n"
  have "0 \<le> sint (buffer_length p)" using assms(1) by (simp add: out_sound_def)
  then have "uint (scast (buffer_length p) :: int64) = sint (buffer_length p)"
    by (rule uint_scast64)
  moreover have "uint (of_nat ?k :: int64) = int ?k"
    using assms(2) by (simp only: unsigned_of_nat) (simp add: take_bit_nat_eq_self)
  ultimately have less: "(scast (buffer_length p) :: int64) < of_nat (length (out_buffer p)) + of_nat n"
    using False by (simp add: word_less_def fits_def)
  have "(of_nat (length (out_buffer p)) + of_nat n) * 2 = (of_nat (2 * ?k) :: int32)"
    by simp
  moreover have "0 < 2 * ?k" using False assms(1) by (auto simp: fits_def out_sound_def)
  ultimately show ?thesis
    using less False assms(2) run_regrow [of "2 * ?k" p]
    by (simp add: reserve_def after_reserve_def ac_simps)
qed

lemma run_WriteData_general:
  assumes "out_sound p" "length (out_buffer p) + length bs < 2 ^ 30"
  shows "run_state (WriteData bs (of_nat (length bs))) p =
    (case after_reserve p (length bs) of
       (True, q) \<Rightarrow> run_state (store bs) q | (False, q) \<Rightarrow> ((), q))"
proof -
  let ?k = "length (out_buffer p) + length bs"
  have n: "sint (of_nat (length bs) :: int32) = int (length bs)"
    using assms(2) by (intro signed_of_nat32) simp
  have eq: "(of_nat (length (out_buffer p)) + of_nat (length bs)) * 2 = (of_nat (2 * ?k) :: int32)"
    by (simp add: ac_simps)
  show ?thesis
  proof (cases "fits p (length bs)")
    case True
    then show ?thesis using n by (simp add: WriteData_def after_reserve_def fits_def)
  next
    case False
    have "0 < 2 * ?k" using False assms(1) by (auto simp: fits_def out_sound_def)
    then show ?thesis
      using n eq False assms(2) run_regrow [of "2 * ?k" p]
      by (simp add: WriteData_def after_reserve_def fits_def ac_simps)
  qed
qed

lemma run_op_general:
  assumes "out_sound p" "length (out_buffer p) + length (op_bytes x) < 2 ^ 30"
  shows "run_state (run_op x) p =
    (case after_reserve p (length (op_bytes x)) of
       (True, q) \<Rightarrow> run_state (store (op_bytes x)) q | (False, q) \<Rightarrow> ((), q))"
proof (cases x)
  case (OpData bs)
  then show ?thesis using assms run_WriteData_general [of p bs]
    by (simp split: prod.splits bool.splits)
qed (use assms run_reserve_general in
      \<open>simp_all add: Write8_def Write16_def Write32_def Write64_def split: prod.splits bool.splits\<close>)

lemma after_reserve_sound:
  assumes "out_sound p" "length (out_buffer p) + n < 2 ^ 30" "after_reserve p n = (ok, q)"
  shows "if ok then fits q n \<and> out_buffer q = out_buffer p \<and> out_sound q \<and> heap_limit q = heap_limit p
         else out_buffer q = [] \<and> out_sound q \<and> heap_limit q = heap_limit p \<and>
           heap_limit p < 2 * (length (out_buffer p) + n)"
proof -
  have "sint (of_nat (2 * (length (out_buffer p) + n)) :: int32) = int (2 * (length (out_buffer p) + n))"
    using assms(2) by (intro signed_of_nat32) simp
  then show ?thesis
    using assms(1,3)
    by (auto simp: after_reserve_def fits_def out_sound_def simp del: of_nat_mult of_nat_add
        split: if_splits)
qed

lemma run_op_step:
  assumes "out_sound p" "length (out_buffer p) + length (op_bytes x) < 2 ^ 30"
  defines "q \<equiv> snd (run_state (run_op x) p)"
  shows "out_sound q" "heap_limit q = heap_limit p"
    and "out_buffer q = out_buffer p @ op_bytes x \<or>
      out_buffer q = [] \<and> heap_limit p < 2 * (length (out_buffer p) + length (op_bytes x))"
proof -
  obtain ok r where r: "after_reserve p (length (op_bytes x)) = (ok, r)" by force
  note s = after_reserve_sound [OF assms(1,2) r]
  have q: "q = (if ok then r\<lparr>out_buffer := out_buffer r @ op_bytes x\<rparr> else r)"
    using run_op_general [OF assms(1,2)] r s by (auto simp: q_def run_store split: bool.splits)
  from s q show "out_sound q" "heap_limit q = heap_limit p"
    by (auto simp: out_sound_def fits_def split: if_splits)
  from s q show "out_buffer q = out_buffer p @ op_bytes x \<or>
      out_buffer q = [] \<and> heap_limit p < 2 * (length (out_buffer p) + length (op_bytes x))"
    by (auto split: if_splits)
qed

lemma run_ops:
  assumes "out_sound p" "length (out_buffer p) + length (concat (map op_bytes ops)) < 2 ^ 30"
  defines "q \<equiv> snd (run_state (put_all run_op ops) p)"
  shows "out_sound q \<and> heap_limit q = heap_limit p \<and>
    (2 * (length (out_buffer p) + length (concat (map op_bytes ops))) \<le> heap_limit p \<longrightarrow>
       out_buffer q = out_buffer p @ concat (map op_bytes ops))"
  using assms(1,2) unfolding q_def
proof (induction ops arbitrary: p)
  case (Cons x ops)
  define r where "r = snd (run_state (run_op x) p)"
  have x: "length (out_buffer p) + length (op_bytes x) < 2 ^ 30" using Cons.prems(2) by simp
  note st = run_op_step [OF Cons.prems(1) x, folded r_def]
  have "length (out_buffer r) + length (concat (map op_bytes ops)) < 2 ^ 30"
    using st(3) Cons.prems(2) by auto
  note IH = Cons.IH [OF st(1) this]
  have run: "snd (run_state (put_all run_op (x # ops)) p) =
      snd (run_state (put_all run_op ops) r)"
    by (simp add: r_def split: prod.split)
  show ?case using IH st(2,3) by (auto simp: run simp del: put_all.simps)
qed simp

text \<open>C36: Whatever the initial capacity, a sequence of Write8 to Write64 and WriteData calls of
  less than 2^30 bytes never stores outside the block, and when realloc can grant twice the
  total the buffer ends up holding exactly the concatenation of all the bytes written.\<close>

theorem growing_buffer:
  assumes "length (concat (map op_bytes ops)) < 2 ^ 30" and "granted limit len"
  defines "p \<equiv> snd (run_state (put_all run_op ops) (DataOutPacket limit len))"
  shows "\<not> out_fault p \<and> int (length (out_buffer p)) \<le> sint (buffer_length p) \<and>
    (2 * length (concat (map op_bytes ops)) \<le> limit \<longrightarrow>
      out_buffer p = concat (map op_bytes ops))"
proof -
  have "out_sound (DataOutPacket limit len)"
    using assms(2) by (simp add: out_sound_def DataOutPacket_def granted_def)
  from run_ops [OF this, of ops] assms(1)
  show ?thesis by (simp add: p_def DataOutPacket_def out_sound_def)
qed

theorem growing_buffer_witness:
  "out_buffer (snd (run_state (put_all run_op [Op64 1, OpData [1, 2, 3], Op16 5])
     (DataOutPacket 100 4))) = [1, 0, 0, 0, 0, 0, 0, 0, 1, 2, 3, 5, 0]"
  using growing_buffer [of "[Op64 1, OpData [1, 2, 3], Op16 5]" 100 4]
  by (simp add: granted_def le_bytes_def upt_rec)

section \<open>The length check of WriteString\<close>

lemma scast_less_iff:
  assumes "0 \<le> sint (w :: int32)" "k < 2 ^ 31"
  shows "(scast w :: int64) < of_nat k \<longleftrightarrow> sint w < int k"
  using uint_scast64 [OF assms(1)] assms(2)
  by (simp add: word_less_def unsigned_of_nat take_bit_nat_eq_self)

text \<open>With the block large enough for what is checked, the prefix goes in and then \<open>n + 1\<close>
  bytes are stored.\<close>

lemma run_WriteString_stored:
  assumes "plain_string s" "int (length (out_buffer q) + length s + 4) \<le> sint (buffer_length q)"
  shows "run_state (do { out_int32 (of_nat (length s) + 1); store (s @ [0]) }) q =
    ((), q\<lparr>out_buffer := out_buffer q @ string_bytes s,
           out_fault := (out_fault q \<or>
             int (length (out_buffer q) + length s + 4) = sint (buffer_length q))\<rparr>)"
proof -
  have "fits q (length (le_bytes 4 (htonl (of_nat (length s) + 1))))"
    using assms(2) by (simp add: fits_def)
  then have "run_state (out_int32 (of_nat (length s) + 1)) q =
      ((), q\<lparr>out_buffer := out_buffer q @ le_bytes 4 (htonl (of_nat (length s) + 1))\<rparr>)"
    using writes_out_word(3) by (simp only: writes_def)
  moreover have "(sint (buffer_length q) < int (length s) + (int (length (out_buffer q)) + 5)) =
      (int (length s) + (int (length (out_buffer q)) + 4) = sint (buffer_length q))"
    using assms(2) by auto
  ultimately show ?thesis by (simp add: store_def string_bytes_def ac_simps)
qed

lemma run_WriteString:
  assumes "plain_string s" "0 \<le> sint (buffer_length p)" "length (out_buffer p) + length s + 4 < 2 ^ 30"
  shows "run_state (WriteString s (of_nat (length s))) p =
    (let k = length (out_buffer p) + length s + 4;
         (ok, q) = (if int k \<le> sint (buffer_length p) then (True, p)
                    else run_state (regrow (of_nat (2 * k))) p)
     in if ok then run_state (do { out_int32 (of_nat (length s) + 1); store (s @ [0]) }) q
        else ((), q))"
proof -
  let ?k = "length (out_buffer p) + length s + 4"
  have sn: "sint (of_nat (length s) :: int32) = int (length s)"
    using assms(3) by (intro signed_of_nat32) simp
  have sn1: "sint (of_nat (length s) + 1 :: int32) = int (length s) + 1"
    using assms(3) signed_of_nat32 [of "length s + 1"] by (simp add: add.commute)
  have sc: "scast (of_nat (length s) :: int32) = (of_nat (length s) :: int64)"
    using sn by (metis of_int_of_nat_eq scast_eq)
  have need: "of_nat (length (out_buffer p)) + scast (of_nat (length s) :: int32) + 4 = (of_nat ?k :: int64)"
    by (simp add: sc)
  have u: "ucast (of_nat ?k :: int64) * 2 = (of_nat (2 * ?k) :: int32)"
  proof -
    have "uint (of_nat ?k :: int64) = int ?k"
      using assms(3) by (simp only: unsigned_of_nat) (simp add: take_bit_nat_eq_self)
    then have "ucast (of_nat ?k :: int64) = (of_nat ?k :: int32)"
      by (simp only: ucast_eq of_int_of_nat_eq)
    then show ?thesis by (simp only: of_nat_mult mult.commute) simp
  qed
  have less: "(scast (buffer_length p) :: int64) < of_nat ?k \<longleftrightarrow> sint (buffer_length p) < int ?k"
    using assms(2,3) by (intro scast_less_iff) auto
  show ?thesis
    unfolding WriteString_def Let_def
    by (simp only: need u less run_state_bind run_state_get prod.case sn sn1)
      (auto simp: not_less split: prod.splits)
qed

text \<open>WriteString reserves one byte less than it stores: for a NUL-free string it writes past
  the end of the heap block exactly when the bytes already written plus the string length plus
  four equal the block size, and in no other case.\<close>

theorem WriteString_overrun:
  assumes "out_sound p" and "plain_string s"
    and "length (out_buffer p) + length s + 4 < 2 ^ 30"
    and "2 * (length (out_buffer p) + length s + 4) \<le> heap_limit p"
  shows "out_fault (snd (run_state (WriteString s (of_nat (length s))) p)) \<longleftrightarrow>
    int (length (out_buffer p) + length s + 4) = sint (buffer_length p)"
proof -
  let ?k = "length (out_buffer p) + length s + 4"
  have nf: "\<not> out_fault p" and b: "0 \<le> sint (buffer_length p)"
    using assms(1) by (auto simp: out_sound_def)
  note run = run_WriteString [OF assms(2) b assms(3)]
  show ?thesis
  proof (cases "int ?k \<le> sint (buffer_length p)")
    case True
    then show ?thesis using run run_WriteString_stored [OF assms(2) True] nf by simp
  next
    case False
    have s2: "sint (of_nat (2 * ?k) :: int32) = int (2 * ?k)"
      using assms(3) by (intro signed_of_nat32) simp
    let ?q = "p\<lparr>buffer_length := of_nat (2 * ?k)\<rparr>"
    have r: "run_state (regrow (of_nat (2 * ?k))) p = (True, ?q)"
      using run_regrow [of "2 * ?k" p] assms(3,4) by simp
    have "int (length (out_buffer ?q) + length s + 4) \<le> sint (buffer_length ?q)"
      using s2 by simp
    from run_WriteString_stored [OF assms(2) this] run r False nf s2
    show ?thesis by simp
  qed
qed

theorem WriteString_overrun_witness:
  "out_fault (snd (run_state (WriteString [104, 105] 2)
     \<lparr>out_buffer = [], buffer_length = 6, heap_limit = 100, out_fault = False\<rparr>))"
  using WriteString_overrun [of "\<lparr>out_buffer = [], buffer_length = 6, heap_limit = 100, out_fault = False\<rparr>"
      "[104, 105]"]
  by (simp add: out_sound_def plain_string_def)

section \<open>Reading past the end\<close>

text \<open>Reading an integer wider than what is left of the message returns 0 and leaves the packet
  unchanged.\<close>

theorem short_reads:
  assumes "0 \<le> remaining p"
  shows "(remaining p < 1 \<longrightarrow> run_state Read8 p = (0, p)) \<and>
    (remaining p < 2 \<longrightarrow> run_state Read16 p = (0, p)) \<and>
    (remaining p < 4 \<longrightarrow> run_state Read32 p = (0, p)) \<and>
    (remaining p < 8 \<longrightarrow> run_state Read64 p = (0, p))"
  using assms
  by (simp add: Read8_def Read16_def Read32_def Read64_def read_word_def has_bytes_iff)

theorem short_reads_witness: "run_state Read32 (DataInPacket [1, 2, 3] 3) = (0, DataInPacket [1, 2, 3] 3)"
  using short_reads [of "DataInPacket [1, 2, 3] 3"] by (simp add: remaining_def DataInPacket_def)

lemma in_ok_remaining:
  "in_ok p \<Longrightarrow> 0 \<le> remaining p \<and> remaining p < 2 ^ 31 \<and>
     remaining p = int (length (in_data p)) - in_cursor p"
  using sint32_bounds(2) [of "data_len p"] by (auto simp: in_ok_def remaining_def)

lemma in_ok_before:
  assumes "in_ok p" "int n \<le> remaining p"
  shows "before p (take n (drop (nat (in_cursor p)) (in_data p)))"
    and "length (take n (drop (nat (in_cursor p)) (in_data p))) = n"
proof -
  show "before p (take n (drop (nat (in_cursor p)) (in_data p)))"
    using assms(1) append_take_drop_id [of n "drop (nat (in_cursor p)) (in_data p)"]
    unfolding before_def by metis
  show "length (take n (drop (nat (in_cursor p)) (in_data p))) = n"
    using assms in_ok_remaining [OF assms(1)] by (auto simp: in_ok_def)
qed

lemma run_read_bytes:
  assumes "in_ok p" and "0 < n" and "n < 2 ^ 31"
  shows "run_state (read_bytes (of_nat n)) p =
    (if int n \<le> remaining p then (take n (drop (nat (in_cursor p)) (in_data p)), advance n p)
     else if remaining p = 0 then (replicate n 0, p\<lparr>in_fault := Some NullRead\<rparr>)
     else (replicate n 0, (advance n p)\<lparr>in_fault := Some OutOfBoundsRead\<rparr>))"
proof (cases "int n \<le> remaining p")
  case True
  then show ?thesis
    using reads_read_bytes [OF in_ok_before(2) [OF assms(1) True] assms(3)]
      in_ok_before [OF assms(1) True] by (simp add: reads_def)
next
  case False
  note r = in_ok_remaining [OF assms(1)]
  have n: "sint (of_nat n :: int32) = int n" using assms(3) by (rule signed_of_nat32)
  have z: "(of_int (remaining p) :: int32) = 0 \<longleftrightarrow> remaining p = 0"
    using r by (intro of_int_32_eq_0) auto
  show ?thesis
    using False assms(1,2) n z r
    by (auto simp: read_bytes_def ReadData_def Let_def memcpy_from_def in_fail_def in_ok_def advance_def)
qed

text \<open>Copying n bytes with memcpy from ReadData(n) has three outcomes: with n bytes left it
  returns them and advances; with none left ReadData returns NULL and the copy reads from it;
  with fewer than n left the cursor moves beyond the end and the copy reads outside the
  message.\<close>

theorem read_bytes_cases:
  assumes "in_ok p" and "0 < n" and "n < 2 ^ 31"
  shows "run_state (read_bytes (of_nat n)) p =
    (if int n \<le> remaining p then (take n (drop (nat (in_cursor p)) (in_data p)), advance n p)
     else if remaining p = 0 then (replicate n 0, p\<lparr>in_fault := Some NullRead\<rparr>)
     else (replicate n 0, (advance n p)\<lparr>in_fault := Some OutOfBoundsRead\<rparr>))"
  by (rule run_read_bytes [OF assms])

theorem read_bytes_cases_witness:
  "snd (run_state (read_bytes 4) (DataInPacket [1, 2, 3] 3)) =
     \<lparr>in_data = [1, 2, 3], in_cursor = 4, data_len = 3, in_fault = Some OutOfBoundsRead\<rparr>"
  using read_bytes_cases [of "DataInPacket [1, 2, 3] 3" 4]
  by (simp add: in_ok_def remaining_def DataInPacket_def advance_def)

end
