(* ===== verification/ChatPackets.thy ===== *)
theory ChatPackets
  imports DataPacket
begin

text \<open>
  The packets of the chat server, \<^verbatim>\<open>src/server/chat/base/comm_head.h\<close>: a record per struct, the
  operation codes, and the size macros.  A \<^verbatim>\<open>char\<close> array is a list of exactly its size; a
  \<^verbatim>\<open>std::string\<close> is a list of bytes.
\<close>

abbreviation TOKEN_LEN :: nat where "TOKEN_LEN \<equiv> 32"
abbreviation NICKNAME_LEN :: nat where "NICKNAME_LEN \<equiv> 48"
abbreviation HEAD_URL_LEN :: nat where "HEAD_URL_LEN \<equiv> 256"
abbreviation PACKET_HEAD_LENGTH :: int32 where "PACKET_HEAD_LENGTH \<equiv> 31"

abbreviation PACKET_CONFIRM :: int32 where "PACKET_CONFIRM \<equiv> 200"
abbreviation USER_LOGIN :: int32 where "USER_LOGIN \<equiv> 1000"
abbreviation USER_LOGIN_SUCESS :: int32 where "USER_LOGIN_SUCESS \<equiv> 1001"
abbreviation USER_LOGIN_FAILED :: int32 where "USER_LOGIN_FAILED \<equiv> 1002"
abbreviation USER_QUIT :: int32 where "USER_QUIT \<equiv> 1010"
abbreviation USER_NOTIFICATION_QUIT :: int32 where "USER_NOTIFICATION_QUIT \<equiv> 1011"
abbreviation REQ_OPPOSITION_INFO :: int32 where "REQ_OPPOSITION_INFO \<equiv> 1020"
abbreviation GET_OPPOSITION_INFO :: int32 where "GET_OPPOSITION_INFO \<equiv> 1021"
abbreviation USER_ONLINE_REQ :: int32 where "USER_ONLINE_REQ \<equiv> 1030"
abbreviation USER_ONLINE_RSP :: int32 where "USER_ONLINE_RSP \<equiv> 1031"
abbreviation TEXT_CHAT_PRIVATE_SEND :: int32 where "TEXT_CHAT_PRIVATE_SEND \<equiv> 1100"
abbreviation TEXT_CHAT_PRIVATE_RECV :: int32 where "TEXT_CHAT_PRIVATE_RECV \<equiv> 1101"
abbreviation MULTI_SOUND_SEND :: int32 where "MULTI_SOUND_SEND \<equiv> 2100"
abbreviation MULTI_SOUND_RECV :: int32 where "MULTI_SOUND_RECV \<equiv> 2101"
abbreviation MULTI_CHAT_SEND :: int32 where "MULTI_CHAT_SEND \<equiv> 2200"
abbreviation MULTI_CHAT_RECV :: int32 where "MULTI_CHAT_RECV \<equiv> 2201"

abbreviation ERROR_TYPE :: int16 where "ERROR_TYPE \<equiv> 0"
abbreviation USER_TYPE :: int16 where "USER_TYPE \<equiv> 1"
abbreviation CHAT_TYPE :: int16 where "CHAT_TYPE \<equiv> 2"
abbreviation MEDIA_TYPE :: int16 where "MEDIA_TYPE \<equiv> 3"

record packet_head =
  packet_length :: int32
  operate_code :: int32
  data_length :: int32
  current_time :: int32
  msg_type :: int16
  is_zip :: int8
  msg_id :: int64
  reserverd :: int32

record packet_confirm =
  pc_platform_id :: int64
  pc_send_user_id :: int64
  pc_recv_user_id :: int64
  pc_private_msg_id :: int64
  pc_session_id :: int64
  pc_token :: "byte list"

record user_login =
  ul_platform_id :: int64
  ul_user_id :: int64
  ul_net_type :: int8
  ul_user_type :: int8
  ul_device :: int8
  ul_token :: "byte list"

record user_login_sucess =
  us_platform_id :: int64
  us_user_id :: int64
  us_nick_number :: int64
  us_token :: "byte list"
  us_nickname :: "byte list"
  us_head_url :: "byte list"

record chat_failed =
  cf_platform_id :: int64
  cf_error_msg :: "byte list"

record user_quit =
  uq_platform_id :: int64
  uq_user_id :: int64
  uq_session :: int64
  uq_token :: "byte list"

record user_quit_notification =
  un_platform_id :: int64
  un_user_id :: int64

record req_oppstion_info =
  ro_platform_id :: int64
  ro_user_id :: int64
  ro_oppostion_id :: int64
  ro_type :: int16
  ro_token :: "byte list"

record oppinfo =
  oi_user_id :: int64
  oi_user_nicknumber :: int64
  oi_nickname :: "byte list"
  oi_user_head :: "byte list"

record opposition_info =
  op_platform_id :: int64
  op_oppo_id :: int64
  op_oppo_nick_number :: int64
  op_session :: int64
  op_oppo_type :: int16
  op_oppo_nickname :: "byte list"
  op_oppo_user_head :: "byte list"
  op_opponfo_list :: "oppinfo list"

record text_chat_private_send =
  ts_platform_id :: int64
  ts_send_user_id :: int64
  ts_recv_user_id :: int64
  ts_session :: int64
  ts_token :: "byte list"
  ts_content :: "byte list"

record text_chat_private_recv =
  tr_platform_id :: int64
  tr_send_user_id :: int64
  tr_recv_user_id :: int64
  tr_content :: "byte list"

record user_online_req =
  oq_platform_id :: int64
  oq_group_id :: int64
  oq_user_id :: int64
  oq_token :: "byte list"

record user_online_rsp =
  or_platform_id :: int64
  or_group_id :: int64
  or_user_id :: int64
  or_user_nicknumber :: int64
  or_nickname :: "byte list"
  or_user_head :: "byte list"

record multi_sound_send =
  ms_platform_id :: int64
  ms_multi_id :: int64
  ms_multi_type :: int16
  ms_send_user_id :: int64
  ms_session :: int64
  ms_token :: "byte list"
  ms_sound_path :: "byte list"

record multi_sound_recv =
  mr_platform_id :: int64
  mr_multi_id :: int64
  mr_send_user_id :: int64
  mr_sound_path :: "byte list"

record multi_chat_send =
  cs_platform_id :: int64
  cs_multi_id :: int64
  cs_send_user_id :: int64
  cs_session :: int64
  cs_token :: "byte list"
  cs_content :: "byte list"

record multi_chat_recv =
  cr_platform_id :: int64
  cr_multi_id :: int64
  cr_send_user_id :: int64
  cr_send_nickname :: "byte list"
  cr_content :: "byte list"

text \<open>The struct behind a \<^verbatim>\<open>PacketHead*\<close>.\<close>

datatype body =
    Confirm packet_confirm
  | Login user_login
  | LoginSucess user_login_sucess
  | Failed chat_failed
  | Quit user_quit
  | QuitNotification user_quit_notification
  | ReqOpposition req_oppstion_info
  | Opposition opposition_info
  | PrivateSend text_chat_private_send
  | PrivateRecv text_chat_private_recv
  | OnlineReq user_online_req
  | OnlineRsp user_online_rsp
  | SoundSend multi_sound_send
  | SoundRecv multi_sound_recv
  | ChatSend multi_chat_send
  | ChatRecv multi_chat_recv

primrec operatorcode :: "body \<Rightarrow> int32" where
  "operatorcode (Confirm _) = PACKET_CONFIRM"
| "operatorcode (Login _) = USER_LOGIN"
| "operatorcode (LoginSucess _) = USER_LOGIN_SUCESS"
| "operatorcode (Failed _) = USER_LOGIN_FAILED"
| "operatorcode (Quit _) = USER_QUIT"
| "operatorcode (QuitNotification _) = USER_NOTIFICATION_QUIT"
| "operatorcode (ReqOpposition _) = REQ_OPPOSITION_INFO"
| "operatorcode (Opposition _) = GET_OPPOSITION_INFO"
| "operatorcode (PrivateSend _) = TEXT_CHAT_PRIVATE_SEND"
| "operatorcode (PrivateRecv _) = TEXT_CHAT_PRIVATE_RECV"
| "operatorcode (OnlineReq _) = USER_ONLINE_REQ"
| "operatorcode (OnlineRsp _) = USER_ONLINE_RSP"
| "operatorcode (SoundSend _) = MULTI_SOUND_SEND"
| "operatorcode (SoundRecv _) = MULTI_SOUND_RECV"
| "operatorcode (ChatSend _) = MULTI_CHAT_SEND"
| "operatorcode (ChatRecv _) = MULTI_CHAT_RECV"

text \<open>What the size macros say the payload of a packet takes.\<close>

primrec payload_size :: "body \<Rightarrow> int32" where
  "payload_size (Confirm _) = 8 * 5 + 32"
| "payload_size (Login _) = 8 * 2 + 1 * 3 + 32"
| "payload_size (LoginSucess _) = 8 * 3 + 32 + 48 + 256"
| "payload_size (Failed f) = 8 + of_nat (length (cf_error_msg f))"
| "payload_size (Quit _) = 8 * 3 + 32"
| "payload_size (QuitNotification _) = 8 * 2"
| "payload_size (ReqOpposition _) = 8 * 3 + 2 + 32"
| "payload_size (Opposition p) = of_nat (length (op_opponfo_list p)) * (8 * 2 + 48 + 256)
     + 8 * 4 + 2 + 48 + 256"
| "payload_size (PrivateSend s) = 8 * 4 + 32 + of_nat (length (ts_content s))"
| "payload_size (PrivateRecv r) = 8 * 3 + of_nat (length (tr_content r))"
| "payload_size (OnlineReq _) = 8 * 3 + 32"
| "payload_size (OnlineRsp _) = 8 * 4 + 48 + 256"
| "payload_size (SoundSend s) = 8 * 4 + 2 + 32 + of_nat (length (ms_sound_path s))"
| "payload_size (SoundRecv r) = 8 * 3 + of_nat (length (mr_sound_path r))"
| "payload_size (ChatSend s) = 8 * 4 + 32 + of_nat (length (cs_content s))"
| "payload_size (ChatRecv r) = 8 * 3 + 48 + of_nat (length (cr_content r))"

section \<open>Well-formed packets\<close>

text \<open>Character arrays have their declared sizes and end in NUL; what varies in length is
  bounded, so that lengths fit the \<^verbatim>\<open>int32\<close> fields of the header.\<close>

abbreviation token_array :: "byte list \<Rightarrow> bool" where "token_array \<equiv> char_array TOKEN_LEN"
abbreviation nickname_array :: "byte list \<Rightarrow> bool" where "nickname_array \<equiv> char_array NICKNAME_LEN"
abbreviation head_url_array :: "byte list \<Rightarrow> bool" where "head_url_array \<equiv> char_array HEAD_URL_LEN"

definition content_ok :: "byte list \<Rightarrow> bool" where
  "content_ok s \<longleftrightarrow> length s < 2 ^ 30"

definition wf_oppinfo :: "oppinfo \<Rightarrow> bool" where
  "wf_oppinfo o' \<longleftrightarrow> nickname_array (oi_nickname o') \<and> head_url_array (oi_user_head o')"

primrec wf_body :: "body \<Rightarrow> bool" where
  "wf_body (Confirm p) = token_array (pc_token p)"
| "wf_body (Login p) = token_array (ul_token p)"
| "wf_body (LoginSucess p) = (token_array (us_token p) \<and> nickname_array (us_nickname p)
     \<and> head_url_array (us_head_url p))"
| "wf_body (Failed p) = content_ok (cf_error_msg p)"
| "wf_body (Quit p) = token_array (uq_token p)"
| "wf_body (QuitNotification p) = True"
| "wf_body (ReqOpposition p) = token_array (ro_token p)"
| "wf_body (Opposition p) = (nickname_array (op_oppo_nickname p)
     \<and> head_url_array (op_oppo_user_head p) \<and> list_all wf_oppinfo (op_opponfo_list p)
     \<and> length (op_opponfo_list p) < 2 ^ 20)"
| "wf_body (PrivateSend p) = (token_array (ts_token p) \<and> content_ok (ts_content p))"
| "wf_body (PrivateRecv p) = content_ok (tr_content p)"
| "wf_body (OnlineReq p) = token_array (oq_token p)"
| "wf_body (OnlineRsp p) = (nickname_array (or_nickname p) \<and> head_url_array (or_user_head p))"
| "wf_body (SoundSend p) = (token_array (ms_token p) \<and> content_ok (ms_sound_path p))"
| "wf_body (SoundRecv p) = content_ok (mr_sound_path p)"
| "wf_body (ChatSend p) = (token_array (cs_token p) \<and> content_ok (cs_content p))"
| "wf_body (ChatRecv p) = (nickname_array (cr_send_nickname p) \<and> content_ok (cr_content p))"

end
