(* ===== verification/ChatPack.thy ===== *)
theory ChatPack
  imports ChatPackets
begin

text \<open>
  \<^verbatim>\<open>ProtocolPack::PackStream\<close> of \<^verbatim>\<open>src/server/chat/base/protocol.cc\<close>: one writer per case of
  its switch, the header macro \<^verbatim>\<open>BUILDHEAD\<close>, the bytes a packet is on the wire, and the theorem
  that packing yields exactly them.
\<close>

section \<open>Packing\<close>

definition write_confirm :: "packet_confirm \<Rightarrow> unit out_m" where
  "write_confirm p = do {
     Write64 (pc_platform_id p);
     Write64 (pc_send_user_id p);
     Write64 (pc_recv_user_id p);
     Write64 (pc_session_id p);
     Write64 (pc_private_msg_id p);
     WriteData (pc_token p) (of_nat TOKEN_LEN)
   }"

definition write_login :: "user_login \<Rightarrow> unit out_m" where
  "write_login p = do {
     Write64 (ul_platform_id p);
     Write64 (ul_user_id p);
     Write8 (ul_net_type p);
     Write8 (ul_user_type p);
     Write8 (ul_device p);
     WriteData (ul_token p) (of_nat TOKEN_LEN)
   }"

definition write_login_sucess :: "user_login_sucess \<Rightarrow> unit out_m" where
  "write_login_sucess p = do {
     Write64 (us_platform_id p);
     Write64 (us_user_id p);
     Write64 (us_nick_number p);
     WriteData (us_token p) (of_nat TOKEN_LEN);
     WriteData (us_nickname p) (of_nat NICKNAME_LEN);
     WriteData (us_head_url p) (of_nat HEAD_URL_LEN)
   }"

definition write_failed :: "chat_failed \<Rightarrow> unit out_m" where
  "write_failed p = do {
     Write64 (cf_platform_id p);
     WriteData (cf_error_msg p) (of_nat (length (cf_error_msg p)))
   }"

definition write_quit :: "user_quit \<Rightarrow> unit out_m" where
  "write_quit p = do {
     Write64 (uq_platform_id p);
     Write64 (uq_user_id p);
     Write64 (uq_session p);
     WriteData (uq_token p) (of_nat TOKEN_LEN)
   }"

definition write_quit_notification :: "user_quit_notification \<Rightarrow> unit out_m" where
  "write_quit_notification p = do {
     Write64 (un_platform_id p);
     Write64 (un_user_id p)
   }"

definition write_req_opposition :: "req_oppstion_info \<Rightarrow> unit out_m" where
  "write_req_opposition p = do {
     Write64 (ro_platform_id p);
     Write64 (ro_user_id p);
     Write64 (ro_oppostion_id p);
     Write16 (ro_type p);
     WriteData (ro_token p) (of_nat TOKEN_LEN)
   }"

definition write_private_send :: "text_chat_private_send \<Rightarrow> unit out_m" where
  "write_private_send p = do {
     Write64 (ts_platform_id p);
     Write64 (ts_send_user_id p);
     Write64 (ts_recv_user_id p);
     Write64 (ts_session p);
     WriteData (ts_token p) (of_nat TOKEN_LEN);
     WriteData (ts_content p) (of_nat (length (ts_content p)))
   }"

definition write_private_recv :: "text_chat_private_recv \<Rightarrow> unit out_m" where
  "write_private_recv p = do {
     Write64 (tr_platform_id p);
     Write64 (tr_send_user_id p);
     Write64 (tr_recv_user_id p);
     WriteData (tr_content p) (of_nat (length (tr_content p)))
   }"

definition write_oppinfo :: "oppinfo \<Rightarrow> unit out_m" where
  "write_oppinfo p = do {
     Write64 (oi_user_id p);
     Write64 (oi_user_nicknumber p);
     WriteData (oi_nickname p) (of_nat NICKNAME_LEN);
     WriteData (oi_user_head p) (of_nat HEAD_URL_LEN)
   }"

definition write_opposition :: "opposition_info \<Rightarrow> unit out_m" where
  "write_opposition p = do {
     Write64 (op_platform_id p);
     Write64 (op_oppo_id p);
     Write64 (op_oppo_nick_number p);
     Write64 (op_session p);
     Write16 (op_oppo_type p);
     WriteData (op_oppo_nickname p) (of_nat NICKNAME_LEN);
     WriteData (op_oppo_user_head p) (of_nat HEAD_URL_LEN);
     put_all write_oppinfo (op_opponfo_list p)
   }"

definition write_online_req :: "user_online_req \<Rightarrow> unit out_m" where
  "write_online_req p = do {
     Write64 (oq_platform_id p);
     Write64 (oq_group_id p);
     Write64 (oq_user_id p);
     WriteData (oq_token p) (of_nat TOKEN_LEN)
   }"

definition write_online_rsp :: "user_online_rsp \<Rightarrow> unit out_m" where
  "write_online_rsp p = do {
     Write64 (or_platform_id p);
     Write64 (or_group_id p);
     Write64 (or_user_id p);
     Write64 (or_user_nicknumber p);
     WriteData (or_nickname p) (of_nat NICKNAME_LEN);
     WriteData (or_user_head p) (of_nat HEAD_URL_LEN)
   }"

definition write_chat_send :: "multi_chat_send \<Rightarrow> unit out_m" where
  "write_chat_send p = do {
     Write64 (cs_platform_id p);
     Write64 (cs_multi_id p);
     Write64 (cs_send_user_id p);
     Write64 (cs_session p);
     WriteData (cs_token p) (of_nat TOKEN_LEN);
     WriteData (cs_content p) (of_nat (length (cs_content p)))
   }"

definition write_chat_recv :: "multi_chat_recv \<Rightarrow> unit out_m" where
  "write_chat_recv p = do {
     Write64 (cr_platform_id p);
     Write64 (cr_multi_id p);
     Write64 (cr_send_user_id p);
     WriteData (cr_send_nickname p) (of_nat NICKNAME_LEN);
     WriteData (cr_content p) (of_nat (length (cr_content p)))
   }"

definition write_sound_send :: "multi_sound_send \<Rightarrow> unit out_m" where
  "write_sound_send p = do {
     Write64 (ms_platform_id p);
     Write64 (ms_multi_id p);
     Write16 (ms_multi_type p);
     Write64 (ms_send_user_id p);
     Write64 (ms_session p);
     WriteData (ms_token p) (of_nat TOKEN_LEN);
     WriteData (ms_sound_path p) (of_nat (length (ms_sound_path p)))
   }"

definition write_sound_recv :: "multi_sound_recv \<Rightarrow> unit out_m" where
  "write_sound_recv p = do {
     Write64 (mr_platform_id p);
     Write64 (mr_multi_id p);
     Write64 (mr_send_user_id p);
     WriteData (mr_sound_path p) (of_nat (length (mr_sound_path p)))
   }"

primrec write_body :: "body \<Rightarrow> unit out_m" where
  "write_body (Confirm p) = write_confirm p"
| "write_body (Login p) = write_login p"
| "write_body (LoginSucess p) = write_login_sucess p"
| "write_body (Failed p) = write_failed p"
| "write_body (Quit p) = write_quit p"
| "write_body (QuitNotification p) = write_quit_notification p"
| "write_body (ReqOpposition p) = write_req_opposition p"
| "write_body (Opposition p) = write_opposition p"
| "write_body (PrivateSend p) = write_private_send p"
| "write_body (PrivateRecv p) = write_private_recv p"
| "write_body (OnlineReq p) = write_online_req p"
| "write_body (OnlineRsp p) = write_online_rsp p"
| "write_body (SoundSend p) = write_sound_send p"
| "write_body (SoundRecv p) = write_sound_recv p"
| "write_body (ChatSend p) = write_chat_send p"
| "write_body (ChatRecv p) = write_chat_recv p"

text \<open>The macro \<^verbatim>\<open>BUILDHEAD\<close> after its arithmetic: the eight header fields.\<close>

definition BUILDHEAD :: "packet_head \<Rightarrow> int32 \<Rightarrow> unit out_m" where
  "BUILDHEAD h len = do {
     Write32 (len + PACKET_HEAD_LENGTH);
     Write32 (operate_code h);
     Write32 len;
     Write32 (current_time h);
     Write16 (msg_type h);
     Write8 (is_zip h);
     Write64 (msg_id h);
     Write32 (reserverd h)
   }"

text \<open>The outcome of \<^verbatim>\<open>PackStream\<close>: the buffer and the length reported with it; \<^verbatim>\<open>false\<close> for an
  unknown operation; a \<^verbatim>\<open>new char[]\<close> of a negative length throws; \<open>BadCast\<close> when the struct
  behind the pointer is not the one the operation code promises.\<close>

datatype packed = Packed out_packet int32 | PackFailed int32 | PackThrows | BadCast

definition pack_packet :: "nat \<Rightarrow> packet_head \<Rightarrow> int32 \<Rightarrow> unit out_m \<Rightarrow> packed" where
  "pack_packet limit h len w =
     (if sint (len + PACKET_HEAD_LENGTH) < 0 then PackThrows
      else Packed
        (snd (run_state (do { BUILDHEAD h len; w }) (DataOutPacket limit (len + PACKET_HEAD_LENGTH))))
        (if packet_length h = PACKET_HEAD_LENGTH \<and> data_length h = 0 then PACKET_HEAD_LENGTH
         else len + PACKET_HEAD_LENGTH))"

definition packed_operations :: "int32 list" where
  "packed_operations = [USER_LOGIN, USER_LOGIN_SUCESS, USER_LOGIN_FAILED, USER_QUIT,
     USER_NOTIFICATION_QUIT, REQ_OPPOSITION_INFO, TEXT_CHAT_PRIVATE_SEND, TEXT_CHAT_PRIVATE_RECV,
     PACKET_CONFIRM, GET_OPPOSITION_INFO, USER_ONLINE_REQ, USER_ONLINE_RSP, MULTI_CHAT_SEND,
     MULTI_CHAT_RECV, MULTI_SOUND_SEND, MULTI_SOUND_RECV]"

text \<open>The cast of the switch.  A \<^verbatim>\<open>UserQuit\<close> starts with the fields of a
  \<^verbatim>\<open>UserQuitNotification\<close>, which is how \<^verbatim>\<open>SendQuitInfoSession\<close> sends one.\<close>

definition cast_body :: "int32 \<Rightarrow> body \<Rightarrow> body option" where
  "cast_body op b =
     (if operatorcode b = op then Some b
      else case b of
        Quit q \<Rightarrow> (if op = USER_NOTIFICATION_QUIT
          then Some (QuitNotification \<lparr>un_platform_id = uq_platform_id q, un_user_id = uq_user_id q\<rparr>)
          else None)
      | _ \<Rightarrow> None)"

definition PackStream :: "nat \<Rightarrow> packet_head \<Rightarrow> body \<Rightarrow> packed" where
  "PackStream limit h b =
     (if operate_code h \<notin> set packed_operations then PackFailed (packet_length h)
      else case cast_body (operate_code h) b of
        None \<Rightarrow> BadCast
      | Some b' \<Rightarrow> pack_packet limit h (payload_size b') (write_body b'))"

section \<open>The bytes of a packet\<close>

definition oppinfo_bytes :: "oppinfo \<Rightarrow> byte list" where
  "oppinfo_bytes p = le_bytes 8 (oi_user_id p) @ le_bytes 8 (oi_user_nicknumber p) @
     oi_nickname p @ oi_user_head p"

primrec body_bytes :: "body \<Rightarrow> byte list" where
  "body_bytes (Confirm p) = le_bytes 8 (pc_platform_id p) @ le_bytes 8 (pc_send_user_id p) @
     le_bytes 8 (pc_recv_user_id p) @ le_bytes 8 (pc_session_id p) @
     le_bytes 8 (pc_private_msg_id p) @ pc_token p"
| "body_bytes (Login p) = le_bytes 8 (ul_platform_id p) @ le_bytes 8 (ul_user_id p) @
     le_bytes 1 (ul_net_type p) @ le_bytes 1 (ul_user_type p) @ le_bytes 1 (ul_device p) @
     ul_token p"
| "body_bytes (LoginSucess p) = le_bytes 8 (us_platform_id p) @ le_bytes 8 (us_user_id p) @
     le_bytes 8 (us_nick_number p) @ us_token p @ us_nickname p @ us_head_url p"
| "body_bytes (Failed p) = le_bytes 8 (cf_platform_id p) @ cf_error_msg p"
| "body_bytes (Quit p) = le_bytes 8 (uq_platform_id p) @ le_bytes 8 (uq_user_id p) @
     le_bytes 8 (uq_session p) @ uq_token p"
| "body_bytes (QuitNotification p) = le_bytes 8 (un_platform_id p) @ le_bytes 8 (un_user_id p)"
| "body_bytes (ReqOpposition p) = le_bytes 8 (ro_platform_id p) @ le_bytes 8 (ro_user_id p) @
     le_bytes 8 (ro_oppostion_id p) @ le_bytes 2 (ro_type p) @ ro_token p"
| "body_bytes (Opposition p) = le_bytes 8 (op_platform_id p) @ le_bytes 8 (op_oppo_id p) @
     le_bytes 8 (op_oppo_nick_number p) @ le_bytes 8 (op_session p) @ le_bytes 2 (op_oppo_type p) @
     op_oppo_nickname p @ op_oppo_user_head p @ concat (map oppinfo_bytes (op_opponfo_list p))"
| "body_bytes (PrivateSend p) = le_bytes 8 (ts_platform_id p) @ le_bytes 8 (ts_send_user_id p) @
     le_bytes 8 (ts_recv_user_id p) @ le_bytes 8 (ts_session p) @ ts_token p @ ts_content p"
| "body_bytes (PrivateRecv p) = le_bytes 8 (tr_platform_id p) @ le_bytes 8 (tr_send_user_id p) @
     le_bytes 8 (tr_recv_user_id p) @ tr_content p"
| "body_bytes (OnlineReq p) = le_bytes 8 (oq_platform_id p) @ le_bytes 8 (oq_group_id p) @
     le_bytes 8 (oq_user_id p) @ oq_token p"
| "body_bytes (OnlineRsp p) = le_bytes 8 (or_platform_id p) @ le_bytes 8 (or_group_id p) @
     le_bytes 8 (or_user_id p) @ le_bytes 8 (or_user_nicknumber p) @ or_nickname p @ or_user_head p"
| "body_bytes (SoundSend p) = le_bytes 8 (ms_platform_id p) @ le_bytes 8 (ms_multi_id p) @
     le_bytes 2 (ms_multi_type p) @ le_bytes 8 (ms_send_user_id p) @ le_bytes 8 (ms_session p) @
     ms_token p @ ms_sound_path p"
| "body_bytes (SoundRecv p) = le_bytes 8 (mr_platform_id p) @ le_bytes 8 (mr_multi_id p) @
     le_bytes 8 (mr_send_user_id p) @ mr_sound_path p"
| "body_bytes (ChatSend p) = le_bytes 8 (cs_platform_id p) @ le_bytes 8 (cs_multi_id p) @
     le_bytes 8 (cs_send_user_id p) @ le_bytes 8 (cs_session p) @ cs_token p @ cs_content p"
| "body_bytes (ChatRecv p) = le_bytes 8 (cr_platform_id p) @ le_bytes 8 (cr_multi_id p) @
     le_bytes 8 (cr_send_user_id p) @ cr_send_nickname p @ cr_content p"

definition head_bytes :: "packet_head \<Rightarrow> int32 \<Rightarrow> byte list" where
  "head_bytes h len = le_bytes 4 (len + PACKET_HEAD_LENGTH) @ le_bytes 4 (operate_code h) @
     le_bytes 4 len @ le_bytes 4 (current_time h) @ le_bytes 2 (msg_type h) @ le_bytes 1 (is_zip h) @
     le_bytes 8 (msg_id h) @ le_bytes 4 (reserverd h)"

lemma length_head_bytes [simp]: "length (head_bytes h len) = 31"
  by (simp add: head_bytes_def)

lemma writes_chars:
  "char_array n a \<Longrightarrow> writes (WriteData a (of_nat n)) a"
  by (intro writes_WriteData) (auto simp: char_array_def)

lemma writes_content:
  "content_ok s \<Longrightarrow> writes (WriteData s (of_nat (length s))) s"
  by (intro writes_WriteData) (auto simp: content_ok_def)

lemmas writes_field = writes_bind [OF writes_word(1)] writes_bind [OF writes_word(2)]
  writes_bind [OF writes_word(3)] writes_bind [OF writes_word(4)] writes_bind [OF writes_chars]
  writes_word writes_chars writes_content

lemma writes_oppinfo: "wf_oppinfo p \<Longrightarrow> writes (write_oppinfo p) (oppinfo_bytes p)"
  unfolding write_oppinfo_def oppinfo_bytes_def wf_oppinfo_def
  by (intro writes_field) auto

interpretation oppinfos: fixed_writer wf_oppinfo oppinfo_bytes write_oppinfo 320
  by unfold_locales (rule writes_oppinfo, assumption, auto simp: oppinfo_bytes_def wf_oppinfo_def char_array_def)

lemmas write_defs = write_confirm_def write_login_def write_login_sucess_def write_failed_def
  write_quit_def write_quit_notification_def write_req_opposition_def write_private_send_def
  write_private_recv_def write_opposition_def write_online_req_def write_online_rsp_def
  write_chat_send_def write_chat_recv_def write_sound_send_def write_sound_recv_def

lemma writes_body: "wf_body b \<Longrightarrow> writes (write_body b) (body_bytes b)"
  by (cases b; simp only: write_body.simps body_bytes.simps write_defs wf_body.simps;
      intro writes_field oppinfos.put_all_writes; simp)

lemma writes_BUILDHEAD: "writes (BUILDHEAD h len) (head_bytes h len)"
  unfolding BUILDHEAD_def head_bytes_def by (intro writes_field)

text \<open>The size macros agree with what is written.\<close>

lemma payload_size_bytes:
  assumes "wf_body b"
  shows "payload_size b = of_nat (length (body_bytes b))"
    and "length (body_bytes b) < 2 ^ 30 + 2 ^ 10"
  using assms oppinfos.length_all
  by (cases b; force simp: char_array_def content_ok_def)+

lemma PackStream_writes:
  assumes "wf_body b" and "operate_code h = operatorcode b"
    and "length (body_bytes b) + 31 \<le> limit"
  defines "n \<equiv> (of_nat (length (body_bytes b)) :: int32)"
  shows "\<exists>out len. PackStream limit h b = Packed out len \<and> \<not> out_fault out \<and>
    out_buffer out = head_bytes h n @ body_bytes b \<and>
    (packet_length h \<noteq> PACKET_HEAD_LENGTH \<or> data_length h \<noteq> 0 \<longrightarrow>
       len = n + PACKET_HEAD_LENGTH \<and> sint len = int (length (out_buffer out)))"
proof -
  note size = payload_size_bytes [OF assms(1)]
  have n31: "sint (n + PACKET_HEAD_LENGTH) = int (length (body_bytes b)) + 31"
    using signed_of_nat32 [of "length (body_bytes b) + 31"] size(2) by (simp add: n_def add.commute)
  have known: "operatorcode b \<in> set packed_operations"
    by (cases b) (simp_all add: packed_operations_def)
  have "writes (do { BUILDHEAD h n; write_body b }) (head_bytes h n @ body_bytes b)"
    by (rule writes_bind [OF writes_BUILDHEAD writes_body [OF assms(1)]])
  moreover have "granted limit (n + PACKET_HEAD_LENGTH)"
    using assms(3) n31 by (simp add: granted_def)
  ultimately have "run_state (do { BUILDHEAD h n; write_body b })
      (DataOutPacket limit (n + PACKET_HEAD_LENGTH)) =
    ((), (DataOutPacket limit (n + PACKET_HEAD_LENGTH))\<lparr>out_buffer := head_bytes h n @ body_bytes b\<rparr>)"
    by (rule run_writes_fresh) (simp add: n31)
  then show ?thesis
    using assms(2) size(1) known n31
    by (simp add: PackStream_def cast_body_def pack_packet_def DataOutPacket_def n_def)
qed

text \<open>C2: PackStream of a well-formed chat packet succeeds, writes exactly the 31 header bytes
  followed by the fields of the body in order, never stores outside the buffer sized by the
  size macro, and reports the number of bytes written as the stream length unless the caller
  passed a header-only packet.\<close>

theorem PackStream_bytes:
  assumes "wf_body b" and "operate_code h = operatorcode b"
    and "length (body_bytes b) + 31 \<le> limit"
  defines "n \<equiv> (of_nat (length (body_bytes b)) :: int32)"
  shows "\<exists>out len. PackStream limit h b = Packed out len \<and> \<not> out_fault out \<and>
    out_buffer out = head_bytes h n @ body_bytes b \<and>
    (packet_length h \<noteq> PACKET_HEAD_LENGTH \<or> data_length h \<noteq> 0 \<longrightarrow>
       len = n + PACKET_HEAD_LENGTH \<and> sint len = int (length (out_buffer out)))"
  unfolding n_def by (rule PackStream_writes [OF assms(1-3)])

theorem PackStream_bytes_witness:
  "\<exists>out len. PackStream 1000 \<lparr>packet_length = 0, operate_code = USER_NOTIFICATION_QUIT, data_length = 0,
       current_time = 5, msg_type = 1, is_zip = 0, msg_id = 9, reserverd = 0\<rparr>
     (QuitNotification \<lparr>un_platform_id = 10000, un_user_id = 7\<rparr>) = Packed out len \<and> sint len = 47"
  using PackStream_bytes [of "QuitNotification \<lparr>un_platform_id = 10000, un_user_id = 7\<rparr>"
    "\<lparr>packet_length = 0, operate_code = USER_NOTIFICATION_QUIT, data_length = 0,
       current_time = 5, msg_type = 1, is_zip = 0, msg_id = 9, reserverd = 0\<rparr>" 1000]
  by auto

end
