(* ===== verification/ChatUnpack.thy ===== *)
theory ChatUnpack
  imports ChatPack
begin

text \<open>
  \<^verbatim>\<open>ProtocolPack::UnpackStream\<close> of \<^verbatim>\<open>src/server/chat/base/protocol.cc\<close>: the checks on the
  header, one reader per case of its switch, and the theorems that relate it to \<^verbatim>\<open>PackStream\<close>:
  which packets come back unchanged, and which are read beyond the end of the message.
\<close>

section \<open>Unpacking\<close>

text \<open>The macro \<^verbatim>\<open>BUILDPACKHEAD\<close>.\<close>

definition BUILDPACKHEAD :: "packet_head in_m" where
  "BUILDPACKHEAD = do {
     pl \<leftarrow> Read32;
     oc \<leftarrow> Read32;
     dl \<leftarrow> Read32;
     ct \<leftarrow> Read32;
     mt \<leftarrow> Read16;
     iz \<leftarrow> Read8;
     mi \<leftarrow> Read64;
     rs \<leftarrow> Read32;
     State_Monad.return \<lparr>packet_length = pl, operate_code = oc, data_length = dl,
       current_time = ct, msg_type = mt, is_zip = iz, msg_id = mi, reserverd = rs\<rparr>
   }"

definition read_login :: "body in_m" where
  "read_login = do {
     a \<leftarrow> Read64; b \<leftarrow> Read64; n \<leftarrow> Read8; u \<leftarrow> Read8; d \<leftarrow> Read8;
     t \<leftarrow> read_chars TOKEN_LEN;
     State_Monad.return (Login \<lparr>ul_platform_id = a, ul_user_id = b, ul_net_type = n,
       ul_user_type = u, ul_device = d, ul_token = t\<rparr>)
   }"

definition read_login_sucess :: "body in_m" where
  "read_login_sucess = do {
     a \<leftarrow> Read64; b \<leftarrow> Read64; n \<leftarrow> Read64;
     t \<leftarrow> read_chars TOKEN_LEN;
     k \<leftarrow> read_chars NICKNAME_LEN;
     u \<leftarrow> read_chars HEAD_URL_LEN;
     State_Monad.return (LoginSucess \<lparr>us_platform_id = a, us_user_id = b, us_nick_number = n,
       us_token = t, us_nickname = k, us_head_url = u\<rparr>)
   }"

text \<open>The length read is the whole \<^verbatim>\<open>data_length\<close>, although eight of its bytes are already
  consumed.\<close>

definition read_failed :: "packet_head \<Rightarrow> body in_m" where
  "read_failed h = do {
     a \<leftarrow> Read64;
     s \<leftarrow> read_content (data_length h);
     State_Monad.return (Failed \<lparr>cf_platform_id = a, cf_error_msg = s\<rparr>)
   }"

definition read_quit :: "body in_m" where
  "read_quit = do {
     a \<leftarrow> Read64; b \<leftarrow> Read64; s \<leftarrow> Read64;
     t \<leftarrow> read_chars TOKEN_LEN;
     State_Monad.return (Quit \<lparr>uq_platform_id = a, uq_user_id = b, uq_session = s, uq_token = t\<rparr>)
   }"

definition read_quit_notification :: "body in_m" where
  "read_quit_notification = do {
     a \<leftarrow> Read64; b \<leftarrow> Read64;
     State_Monad.return (QuitNotification \<lparr>un_platform_id = a, un_user_id = b\<rparr>)
   }"

definition read_req_opposition :: "body in_m" where
  "read_req_opposition = do {
     a \<leftarrow> Read64; b \<leftarrow> Read64; c \<leftarrow> Read64; y \<leftarrow> Read16;
     t \<leftarrow> read_chars TOKEN_LEN;
     State_Monad.return (ReqOpposition \<lparr>ro_platform_id = a, ro_user_id = b, ro_oppostion_id = c,
       ro_type = y, ro_token = t\<rparr>)
   }"

definition read_online_req :: "body in_m" where
  "read_online_req = do {
     a \<leftarrow> Read64; b \<leftarrow> Read64; c \<leftarrow> Read64;
     t \<leftarrow> read_chars TOKEN_LEN;
     State_Monad.return (OnlineReq \<lparr>oq_platform_id = a, oq_group_id = b, oq_user_id = c,
       oq_token = t\<rparr>)
   }"

definition read_online_rsp :: "body in_m" where
  "read_online_rsp = do {
     a \<leftarrow> Read64; b \<leftarrow> Read64; c \<leftarrow> Read64; d \<leftarrow> Read64;
     k \<leftarrow> read_chars NICKNAME_LEN;
     u \<leftarrow> read_chars HEAD_URL_LEN;
     State_Monad.return (OnlineRsp \<lparr>or_platform_id = a, or_group_id = b, or_user_id = c,
       or_user_nicknumber = d, or_nickname = k, or_user_head = u\<rparr>)
   }"

text \<open>Three 64-bit fields are consumed, two are subtracted.\<close>

definition read_private_recv :: "packet_head \<Rightarrow> body in_m" where
  "read_private_recv h = do {
     a \<leftarrow> Read64; b \<leftarrow> Read64; c \<leftarrow> Read64;
     s \<leftarrow> read_content (data_length h - 8 * 2);
     State_Monad.return (PrivateRecv \<lparr>tr_platform_id = a, tr_send_user_id = b,
       tr_recv_user_id = c, tr_content = s\<rparr>)
   }"

definition read_private_send :: "packet_head \<Rightarrow> body in_m" where
  "read_private_send h = do {
     a \<leftarrow> Read64; b \<leftarrow> Read64; c \<leftarrow> Read64; d \<leftarrow> Read64;
     t \<leftarrow> read_chars TOKEN_LEN;
     s \<leftarrow> read_content (data_length h - 8 * 4 - 32);
     State_Monad.return (PrivateSend \<lparr>ts_platform_id = a, ts_send_user_id = b,
       ts_recv_user_id = c, ts_session = d, ts_token = t, ts_content = s\<rparr>)
   }"

definition read_confirm :: "body in_m" where
  "read_confirm = do {
     a \<leftarrow> Read64; b \<leftarrow> Read64; c \<leftarrow> Read64; d \<leftarrow> Read64; e \<leftarrow> Read64;
     t \<leftarrow> read_chars TOKEN_LEN;
     State_Monad.return (Confirm \<lparr>pc_platform_id = a, pc_send_user_id = b, pc_recv_user_id = c,
       pc_private_msg_id = e, pc_session_id = d, pc_token = t\<rparr>)
   }"

text \<open>A store \<^verbatim>\<open>a[i] = c\<close> into a character array.\<close>

definition store_char :: "byte list \<Rightarrow> nat \<Rightarrow> byte \<Rightarrow> byte list in_m" where
  "store_char a i c =
     (if i < length a then State_Monad.return (a[i := c])
      else do { in_fail OutOfBoundsWrite; State_Monad.return a })"

text \<open>The terminating store of an entry goes to \<^verbatim>\<open>user_head[HEAD_URL_LEN]\<close>.\<close>

definition read_oppinfo :: "oppinfo in_m" where
  "read_oppinfo = do {
     a \<leftarrow> Read64; b \<leftarrow> Read64;
     k \<leftarrow> read_chars NICKNAME_LEN;
     u \<leftarrow> read_bytes (of_nat HEAD_URL_LEN);
     u \<leftarrow> store_char u HEAD_URL_LEN 0;
     State_Monad.return \<lparr>oi_user_id = a, oi_user_nicknumber = b, oi_nickname = k, oi_user_head = u\<rparr>
   }"

text \<open>\<^verbatim>\<open>sizeof\<close> makes both lines of the entry count unsigned 64-bit arithmetic, truncated to
  \<^verbatim>\<open>int\<close>.\<close>

definition oppinfo_nums :: "int32 \<Rightarrow> int32" where
  "oppinfo_nums len =
     (let list_size = (ucast ((scast len :: int64) - 8 * 3 - 48 - 32) :: int32)
      in ucast ((scast list_size :: int64) div (8 * 2 + 48 + 256)))"

definition read_opposition :: "int32 \<Rightarrow> body in_m" where
  "read_opposition len = do {
     a \<leftarrow> Read64; b \<leftarrow> Read64; c \<leftarrow> Read64; d \<leftarrow> Read64; y \<leftarrow> Read16;
     k \<leftarrow> read_chars NICKNAME_LEN;
     u \<leftarrow> read_chars HEAD_URL_LEN;
     os \<leftarrow> get_all (\<lambda>_. read_oppinfo) (replicate (nat (sint (oppinfo_nums len))) ());
     State_Monad.return (Opposition \<lparr>op_platform_id = a, op_oppo_id = b, op_oppo_nick_number = c,
       op_session = d, op_oppo_type = y, op_oppo_nickname = k, op_oppo_user_head = u,
       op_opponfo_list = os\<rparr>)
   }"

definition read_chat_send :: "packet_head \<Rightarrow> body in_m" where
  "read_chat_send h = do {
     a \<leftarrow> Read64; b \<leftarrow> Read64; c \<leftarrow> Read64; d \<leftarrow> Read64;
     t \<leftarrow> read_chars TOKEN_LEN;
     s \<leftarrow> read_content (data_length h - 8 * 4 - 32);
     State_Monad.return (ChatSend \<lparr>cs_platform_id = a, cs_multi_id = b, cs_send_user_id = c,
       cs_session = d, cs_token = t, cs_content = s\<rparr>)
   }"

definition read_chat_recv :: "packet_head \<Rightarrow> body in_m" where
  "read_chat_recv h = do {
     a \<leftarrow> Read64; b \<leftarrow> Read64; c \<leftarrow> Read64;
     k \<leftarrow> read_chars NICKNAME_LEN;
     s \<leftarrow> read_content (data_length h - 8 * 3 - 48);
     State_Monad.return (ChatRecv \<lparr>cr_platform_id = a, cr_multi_id = b, cr_send_user_id = c,
       cr_send_nickname = k, cr_content = s\<rparr>)
   }"

definition read_sound_send :: "packet_head \<Rightarrow> body in_m" where
  "read_sound_send h = do {
     a \<leftarrow> Read64; b \<leftarrow> Read64; y \<leftarrow> Read16; c \<leftarrow> Read64; d \<leftarrow> Read64;
     t \<leftarrow> read_chars TOKEN_LEN;
     s \<leftarrow> read_content (data_length h - 8 * 4 - 2 - 32);
     State_Monad.return (SoundSend \<lparr>ms_platform_id = a, ms_multi_id = b, ms_multi_type = y,
       ms_send_user_id = c, ms_session = d, ms_token = t, ms_sound_path = s\<rparr>)
   }"

definition read_sound_recv :: "packet_head \<Rightarrow> body in_m" where
  "read_sound_recv h = do {
     a \<leftarrow> Read64; b \<leftarrow> Read64; c \<leftarrow> Read64;
     s \<leftarrow> read_content (data_length h - 8 * 3);
     State_Monad.return (SoundRecv \<lparr>mr_platform_id = a, mr_multi_id = b, mr_send_user_id = c,
       mr_sound_path = s\<rparr>)
   }"

text \<open>The switch; \<open>len\<close> is the local \<^verbatim>\<open>data_length\<close>, \<open>h\<close> the header already read.\<close>

definition read_body :: "int32 \<Rightarrow> int32 \<Rightarrow> packet_head \<Rightarrow> body in_m option" where
  "read_body op len h =
     (if op = USER_LOGIN then Some read_login
      else if op = USER_LOGIN_SUCESS then Some read_login_sucess
      else if op = USER_LOGIN_FAILED then Some (read_failed h)
      else if op = USER_QUIT then Some read_quit
      else if op = USER_NOTIFICATION_QUIT then Some read_quit_notification
      else if op = REQ_OPPOSITION_INFO then Some read_req_opposition
      else if op = USER_ONLINE_REQ then Some read_online_req
      else if op = USER_ONLINE_RSP then Some read_online_rsp
      else if op = TEXT_CHAT_PRIVATE_RECV then Some (read_private_recv h)
      else if op = TEXT_CHAT_PRIVATE_SEND then Some (read_private_send h)
      else if op = PACKET_CONFIRM then Some read_confirm
      else if op = GET_OPPOSITION_INFO then Some (read_opposition len)
      else if op = MULTI_CHAT_SEND then Some (read_chat_send h)
      else if op = MULTI_CHAT_RECV then Some (read_chat_recv h)
      else if op = MULTI_SOUND_SEND then Some (read_sound_send h)
      else if op = MULTI_SOUND_RECV then Some (read_sound_recv h)
      else None)"

text \<open>An \<^verbatim>\<open>int32\<close> of the message read through the \<^verbatim>\<open>PacketHead\<close> cast.\<close>

definition raw32 :: "byte list \<Rightarrow> nat \<Rightarrow> int32" where
  "raw32 msg offset = le_word (take 4 (drop offset msg))"

definition read_packet :: "int32 \<Rightarrow> int32 \<Rightarrow> (packet_head \<times> body) option in_m" where
  "read_packet op len = do {
     h \<leftarrow> BUILDPACKHEAD;
     case read_body op len h of
       None \<Rightarrow> State_Monad.return None
     | Some rd \<Rightarrow> do { b \<leftarrow> rd; State_Monad.return (Some (h, b)) }
   }"

text \<open>The comparisons with \<^verbatim>\<open>PACKET_HEAD_LENGTH\<close> are unsigned, as it is built from \<^verbatim>\<open>sizeof\<close>.
  \<open>None\<close> is \<^verbatim>\<open>return false\<close>; otherwise the packet and the reader's final state, whose fault
  field tells whether the message was read out of bounds.\<close>

definition UnpackStream ::
  "byte list \<Rightarrow> int32 \<Rightarrow> ((packet_head \<times> body) \<times> in_packet) option" where
  "UnpackStream msg len =
     (if (scast len :: int64) < 31 then None
      else let pl = raw32 msg 0; op = raw32 msg 4; dl = raw32 msg 8 in
        if (scast pl :: int64) < 31 \<or> pl \<noteq> len \<or> (scast dl :: int64) \<noteq> scast pl - 31 then None
        else case run_state (read_packet op dl) (DataInPacket msg pl) of
          (None, p) \<Rightarrow> None
        | (Some hb, p) \<Rightarrow> Some (hb, p))"

section \<open>Which messages are rejected\<close>

lemma scast64_of_nat: "n < 2 ^ 31 \<Longrightarrow> scast (of_nat n :: int32) = (of_nat n :: int64)"
  using signed_of_nat32 [of n] by (metis of_int_of_nat_eq scast_eq)

lemma uint_scast_nonneg: "0 \<le> sint (w :: int32) \<Longrightarrow> uint (scast w :: int64) = sint w"
  by (rule uint_scast64)

lemma scast_inject64: "(scast (v :: int32) :: int64) = scast w \<longleftrightarrow> v = w"
  using to_int64_inject [of v w] by (simp add: to_int64_def)

lemma scast_minus_31:
  assumes "31 \<le> sint (w :: int32)"
  shows "(scast w :: int64) - 31 = scast (w - 31)"
proof -
  have w: "w = of_nat (nat (sint w))" using assms by simp
  have b: "nat (sint w) < 2 ^ 31" using sint32_bounds(2) [of w] by (simp add: nat_less_iff)
  have "(scast w :: int64) = of_nat (nat (sint w))"
    using scast64_of_nat [OF b] w by simp
  moreover have "w - 31 = of_nat (nat (sint w) - 31)"
    using assms by (subst w) (simp add: of_nat_diff nat_le_iff)
  then have "(scast (w - 31) :: int64) = of_nat (nat (sint w) - 31)"
    using scast64_of_nat [of "nat (sint w) - 31"] b by simp
  ultimately show ?thesis using assms by (simp add: of_nat_diff)
qed

lemma read_body_none: "read_body op len h = None \<longleftrightarrow> op \<notin> set packed_operations"
  by (auto simp: read_body_def packed_operations_def)

lemma read_body_some: "read_body op len h = Some rd \<Longrightarrow> op \<in> set packed_operations"
  using read_body_none [of op len h] by auto

lemma run_read_packet:
  "run_state (read_packet op len) p =
     (case run_state BUILDPACKHEAD p of (h, q) \<Rightarrow>
        (case read_body op len h of None \<Rightarrow> (None, q)
         | Some rd \<Rightarrow> (case run_state rd q of (b, q') \<Rightarrow> (Some (h, b), q'))))"
  by (simp add: read_packet_def split: prod.split option.split)

lemma UnpackStream_accepts:
  assumes "sint len = int (length msg)" and "31 \<le> length msg"
  shows "UnpackStream msg len =
    (if raw32 msg 0 = len \<and> raw32 msg 8 = len - 31 \<and> raw32 msg 4 \<in> set packed_operations
     then (case run_state (read_packet (raw32 msg 4) (len - 31)) (DataInPacket msg len) of
             (hb, p) \<Rightarrow> Some (the hb, p))
     else None)"
proof -
  have u: "uint (scast len :: int64) = int (length msg)"
    using assms by (simp add: uint_scast64)
  then have "\<not> (scast len :: int64) < 31" using assms(2) by (simp add: word_less_def)
  moreover have "(scast dl :: int64) \<noteq> scast len - 31 \<longleftrightarrow> dl \<noteq> len - 31" for dl :: int32
    using assms scast_minus_31 [of len] by (simp add: scast_inject64)
  ultimately show ?thesis
    by (auto simp: UnpackStream_def Let_def run_read_packet read_body_none dest: read_body_some
        split: prod.split option.split)
qed

text \<open>C31: A message of at least 31 bytes is rejected by UnpackStream exactly when its packet_length
  field differs from the received length, its data_length field is not the received length
  minus 31, or its operation code is none of the sixteen packet kinds.\<close>

theorem UnpackStream_rejects:
  assumes "sint len = int (length msg)" and "31 \<le> length msg"
  shows "UnpackStream msg len = None \<longleftrightarrow>
    raw32 msg 0 \<noteq> len \<or> raw32 msg 8 \<noteq> len - 31 \<or> raw32 msg 4 \<notin> set packed_operations"
  using UnpackStream_accepts [OF assms] by (auto split: prod.splits if_splits)

theorem UnpackStream_rejects_witness:
  "UnpackStream (replicate 40 0) 40 = None"
  using UnpackStream_rejects [of 40 "replicate 40 0"]
  by (simp add: raw32_def)

section \<open>Round trip\<close>

definition sized_head :: "packet_head \<Rightarrow> int32 \<Rightarrow> packet_head" where
  "sized_head h len = h\<lparr>packet_length := len + PACKET_HEAD_LENGTH, data_length := len\<rparr>"

lemmas reads_field = reads_bind [OF reads_word(1)] reads_bind [OF reads_word(2)]
  reads_bind [OF reads_word(3)] reads_bind [OF reads_word(4)] reads_bind [OF reads_read_chars]

lemmas reads_last = reads_bind_return [OF reads_word(3)] reads_bind_return [OF reads_word(4)]
  reads_bind_return [OF reads_read_chars] reads_bind_return [OF reads_read_content]

lemma reads_BUILDPACKHEAD: "reads BUILDPACKHEAD (head_bytes h len) (sized_head h len)"
  unfolding BUILDPACKHEAD_def head_bytes_def
  by (intro reads_field reads_last, cases h) (simp add: sized_head_def)

lemmas read_defs = read_login_def read_login_sucess_def read_failed_def read_quit_def
  read_quit_notification_def read_req_opposition_def read_online_req_def read_online_rsp_def
  read_private_recv_def read_private_send_def read_confirm_def read_chat_send_def
  read_chat_recv_def read_sound_send_def read_sound_recv_def

text \<open>The packets whose case reads what its writer wrote.\<close>

primrec faithful_body :: "body \<Rightarrow> bool" where
  "faithful_body (Confirm p) = True"
| "faithful_body (Login p) = True"
| "faithful_body (LoginSucess p) = True"
| "faithful_body (Failed p) = False"
| "faithful_body (Quit p) = True"
| "faithful_body (QuitNotification p) = True"
| "faithful_body (ReqOpposition p) = True"
| "faithful_body (Opposition p) = (op_opponfo_list p = [])"
| "faithful_body (PrivateSend p) = True"
| "faithful_body (PrivateRecv p) = False"
| "faithful_body (OnlineReq p) = True"
| "faithful_body (OnlineRsp p) = True"
| "faithful_body (SoundSend p) = True"
| "faithful_body (SoundRecv p) = True"
| "faithful_body (ChatSend p) = True"
| "faithful_body (ChatRecv p) = True"

lemma sint_content_length:
  "content_ok s \<Longrightarrow> sint (of_nat (length s) :: int32) = int (length s)"
  by (intro signed_of_nat32) (simp add: content_ok_def)

lemma reads_content:
  "content_ok s \<Longrightarrow> len = of_nat (length s) \<Longrightarrow> reads (read_content len) s s"
  by (intro reads_read_content) (simp add: sint_content_length)

lemmas reads_ends = reads_bind_return [OF reads_word(4)] reads_bind_return [OF reads_read_chars]
  reads_bind_return [OF reads_content]

lemma reads_fixed_bodies:
  "wf_body (Confirm p1) \<Longrightarrow> reads read_confirm (body_bytes (Confirm p1)) (Confirm p1)"
  "wf_body (Login p2) \<Longrightarrow> reads read_login (body_bytes (Login p2)) (Login p2)"
  "wf_body (LoginSucess p3) \<Longrightarrow>
     reads read_login_sucess (body_bytes (LoginSucess p3)) (LoginSucess p3)"
  "wf_body (Quit p4) \<Longrightarrow> reads read_quit (body_bytes (Quit p4)) (Quit p4)"
  "reads read_quit_notification (body_bytes (QuitNotification p5)) (QuitNotification p5)"
  "wf_body (ReqOpposition p6) \<Longrightarrow>
     reads read_req_opposition (body_bytes (ReqOpposition p6)) (ReqOpposition p6)"
  "wf_body (OnlineReq p7) \<Longrightarrow> reads read_online_req (body_bytes (OnlineReq p7)) (OnlineReq p7)"
  "wf_body (OnlineRsp p8) \<Longrightarrow> reads read_online_rsp (body_bytes (OnlineRsp p8)) (OnlineRsp p8)"
  by (cases p1; cases p2; cases p3; cases p4; cases p5; cases p6; cases p7; cases p8;
      simp only: read_defs body_bytes.simps wf_body.simps; intro reads_field reads_ends; simp)+

lemma reads_content_bodies:
  "wf_body (PrivateSend q1) \<Longrightarrow> data_length h = payload_size (PrivateSend q1) \<Longrightarrow>
     reads (read_private_send h) (body_bytes (PrivateSend q1)) (PrivateSend q1)"
  "wf_body (SoundSend q2) \<Longrightarrow> data_length h = payload_size (SoundSend q2) \<Longrightarrow>
     reads (read_sound_send h) (body_bytes (SoundSend q2)) (SoundSend q2)"
  "wf_body (SoundRecv q3) \<Longrightarrow> data_length h = payload_size (SoundRecv q3) \<Longrightarrow>
     reads (read_sound_recv h) (body_bytes (SoundRecv q3)) (SoundRecv q3)"
  "wf_body (ChatSend q4) \<Longrightarrow> data_length h = payload_size (ChatSend q4) \<Longrightarrow>
     reads (read_chat_send h) (body_bytes (ChatSend q4)) (ChatSend q4)"
  "wf_body (ChatRecv q5) \<Longrightarrow> data_length h = payload_size (ChatRecv q5) \<Longrightarrow>
     reads (read_chat_recv h) (body_bytes (ChatRecv q5)) (ChatRecv q5)"
  by (cases q1; cases q2; cases q3; cases q4; cases q5;
      simp only: read_defs body_bytes.simps wf_body.simps; intro reads_field reads_ends; simp)+

lemma oppinfo_nums_none: "oppinfo_nums 338 = 0"
  by (simp add: oppinfo_nums_def)

lemma reads_opposition:
  assumes "wf_body (Opposition p)" "op_opponfo_list p = []"
  shows "reads (read_opposition 338) (body_bytes (Opposition p)) (Opposition p)"
  unfolding read_opposition_def oppinfo_nums_none using assms
  by (simp, intro reads_field reads_ends, auto, cases p, simp)

lemma reads_body:
  assumes "wf_body b" "faithful_body b" "operate_code h = operatorcode b"
    and "data_length h = payload_size b"
  shows "\<exists>rd. read_body (operatorcode b) (payload_size b) h = Some rd \<and> reads rd (body_bytes b) b"
  using assms reads_fixed_bodies reads_content_bodies reads_opposition
  by (cases b) (simp_all add: read_body_def del: body_bytes.simps wf_body.simps)

text \<open>A packed message passes the header checks and reaches its case of the switch.\<close>

lemma unpack_packed:
  assumes "wf_body b" "operate_code h = operatorcode b"
  defines "n \<equiv> (of_nat (length (body_bytes b)) :: int32)"
  defines "q \<equiv> advance 31 (DataInPacket (head_bytes h n @ body_bytes b) (n + PACKET_HEAD_LENGTH))"
  assumes "read_body (operatorcode b) n (sized_head h n) = Some rd"
  shows "UnpackStream (head_bytes h n @ body_bytes b) (n + PACKET_HEAD_LENGTH) =
      (case run_state rd q of (b', p) \<Rightarrow> Some ((sized_head h n, b'), p))"
    and "before q (body_bytes b)" and "remaining q = int (length (body_bytes b))"
proof -
  let ?msg = "head_bytes h n @ body_bytes b"
  note size = payload_size_bytes [OF assms(1)]
  have len: "length ?msg < 2 ^ 31" using size(2) by simp
  have n31: "n + PACKET_HEAD_LENGTH = of_nat (length ?msg)" by (simp add: n_def)
  note sn31 = signed_of_nat32 [OF len, folded n31]
  have before: "before (DataInPacket ?msg (n + PACKET_HEAD_LENGTH)) ?msg"
    using sn31 by (auto simp: before_def in_ok_def DataInPacket_def)
  from before_appendD [OF this]
  have bq: "before (DataInPacket ?msg (n + PACKET_HEAD_LENGTH)) (head_bytes h n)"
    "before q (body_bytes b)" by (simp_all add: q_def)
  from bq(2) show "before q (body_bytes b)" .
  show "remaining q = int (length (body_bytes b))"
    using sn31 by (simp add: q_def remaining_def DataInPacket_def)
  have run: "run_state BUILDPACKHEAD (DataInPacket ?msg (n + PACKET_HEAD_LENGTH)) = (sized_head h n, q)"
    using reads_BUILDPACKHEAD [of h n] bq(1) by (simp add: reads_def q_def)
  have raws: "raw32 ?msg 0 = n + PACKET_HEAD_LENGTH" "raw32 ?msg 4 = operatorcode b" "raw32 ?msg 8 = n"
    using assms(2) by (simp_all add: raw32_def head_bytes_def)
  have "operatorcode b \<in> set packed_operations"
    by (cases b) (simp_all add: packed_operations_def)
  then show "UnpackStream ?msg (n + PACKET_HEAD_LENGTH) =
      (case run_state rd q of (b', p) \<Rightarrow> Some ((sized_head h n, b'), p))"
    using raws run UnpackStream_accepts [of "n + PACKET_HEAD_LENGTH" ?msg] sn31 assms(5)
    by (simp add: run_read_packet split: prod.split)
qed

lemma unpack_faithful:
  assumes "wf_body b" and "faithful_body b" and "operate_code h = operatorcode b"
  defines "n \<equiv> (of_nat (length (body_bytes b)) :: int32)"
  shows "\<exists>p. UnpackStream (head_bytes h n @ body_bytes b) (n + PACKET_HEAD_LENGTH) =
      Some ((sized_head h n, b), p) \<and> in_fault p = None \<and> remaining p = 0"
proof -
  obtain rd where rd: "read_body (operatorcode b) n (sized_head h n) = Some rd"
    "reads rd (body_bytes b) b"
    using reads_body [OF assms(1,2), of "sized_head h n"] assms(3) payload_size_bytes [OF assms(1)]
    by (auto simp: sized_head_def n_def)
  note u = unpack_packed [OF assms(1,3) rd(1) [unfolded n_def], folded n_def]
  let ?q = "advance 31 (DataInPacket (head_bytes h n @ body_bytes b) (n + PACKET_HEAD_LENGTH))"
  have "run_state rd ?q = (b, advance (length (body_bytes b)) ?q)"
    using rd(2) u(2) by (simp add: reads_def)
  then show ?thesis using u by (simp add: DataInPacket_def remaining_def)
qed

text \<open>C1: For every well-formed chat packet except those with a length error in their case
  (USER_LOGIN_FAILED, TEXT_CHAT_PRIVATE_RECV, GET_OPPOSITION_INFO with entries), UnpackStream
  accepts the bytes PackStream produces, returns the same header (with the lengths BUILDHEAD
  computed) and the same body, consumes the whole message and never touches memory outside it.\<close>

theorem pack_unpack:
  assumes "wf_body b" and "faithful_body b" and "operate_code h = operatorcode b"
  defines "n \<equiv> (of_nat (length (body_bytes b)) :: int32)"
  shows "\<exists>p. UnpackStream (head_bytes h n @ body_bytes b) (n + PACKET_HEAD_LENGTH) =
      Some ((sized_head h n, b), p) \<and> in_fault p = None \<and> remaining p = 0"
  unfolding n_def by (rule unpack_faithful [OF assms(1-3)])

theorem pack_unpack_witness:
  "\<exists>p. UnpackStream (head_bytes \<lparr>packet_length = 0, operate_code = USER_NOTIFICATION_QUIT,
       data_length = 0, current_time = 5, msg_type = 1, is_zip = 0, msg_id = 9, reserverd = 0\<rparr> 16 @
     body_bytes (QuitNotification \<lparr>un_platform_id = 10000, un_user_id = 7\<rparr>)) 47 =
     Some ((\<lparr>packet_length = 47, operate_code = USER_NOTIFICATION_QUIT,
       data_length = 16, current_time = 5, msg_type = 1, is_zip = 0, msg_id = 9, reserverd = 0\<rparr>,
     QuitNotification \<lparr>un_platform_id = 10000, un_user_id = 7\<rparr>), p)"
  using pack_unpack [of "QuitNotification \<lparr>un_platform_id = 10000, un_user_id = 7\<rparr>"
    "\<lparr>packet_length = 0, operate_code = USER_NOTIFICATION_QUIT,
       data_length = 0, current_time = 5, msg_type = 1, is_zip = 0, msg_id = 9, reserverd = 0\<rparr>"]
  by (auto simp: sized_head_def)

section \<open>Reading beyond the message\<close>

lemma run_read_word:
  assumes "in_ok p" "n < 2 ^ 31"
  shows "\<exists>v. run_state (read_word n) p = (v, if int n \<le> remaining p then advance n p else p)"
proof (cases "int n \<le> remaining p")
  case True
  note b = in_ok_before [OF assms(1) True]
  from reads_read_word [OF b(2)] b show ?thesis using True
    by (auto simp: reads_def)
next
  case False
  then show ?thesis
    using assms in_ok_remaining [OF assms(1)] has_bytes_iff [of p n]
    by (simp add: read_word_def)
qed

lemma in_ok_advance: "in_ok p \<Longrightarrow> int n \<le> remaining p \<Longrightarrow> in_ok (advance n p)"
  by (auto simp: in_ok_def remaining_def)

lemma remaining_advance [simp]: "remaining (advance n p) = remaining p - int n"
  by (simp add: remaining_def)

text \<open>Where a read of \<open>n\<close> bytes leaves the cursor.\<close>

definition left :: "nat \<Rightarrow> int \<Rightarrow> int" where
  "left n r = (if int n \<le> r then r - int n else r)"

lemma after_read_word:
  assumes "in_ok p" "n < 2 ^ 31"
  shows "in_ok (snd (run_state (read_word n :: 'a::len word in_m) p)) \<and>
    remaining (snd (run_state (read_word n :: 'a word in_m) p)) = left n (remaining p)"
  using run_read_word [OF assms, where ?'a = 'a] in_ok_advance [OF assms(1)] assms(1)
  by (auto simp: left_def)

lemma after_words:
  assumes "in_ok p"
  shows "in_ok (snd (run_state Read8 p))" "remaining (snd (run_state Read8 p)) = left 1 (remaining p)"
    "in_ok (snd (run_state Read16 p))" "remaining (snd (run_state Read16 p)) = left 2 (remaining p)"
    "in_ok (snd (run_state Read32 p))" "remaining (snd (run_state Read32 p)) = left 4 (remaining p)"
    "in_ok (snd (run_state Read64 p))" "remaining (snd (run_state Read64 p)) = left 8 (remaining p)"
  by (simp_all add: Read8_def Read16_def Read32_def Read64_def after_read_word [OF assms]
      del: One_nat_def)

lemma after_head:
  assumes "in_ok p" "31 \<le> remaining p"
  shows "in_ok (snd (run_state BUILDPACKHEAD p))"
    and "remaining (snd (run_state BUILDPACKHEAD p)) = remaining p - 31"
  using assms
  by (simp_all add: BUILDPACKHEAD_def split_beta after_words left_def)

lemma fault_read_bytes:
  assumes "in_ok p" "0 < n" "n < 2 ^ 31"
  shows "in_fault (snd (run_state (read_bytes (of_nat n)) p)) = None \<longleftrightarrow> int n \<le> remaining p"
proof -
  have "in_fault p = None" using assms(1) by (simp add: in_ok_def)
  then show ?thesis
    using run_read_bytes [OF assms] by simp
qed

lemma fault_read_chars:
  assumes "in_ok p" "0 < n" "n < 2 ^ 31"
  shows "in_fault (snd (run_state (read_chars n) p)) = None \<longleftrightarrow> int n \<le> remaining p"
  using fault_read_bytes [OF assms] by (simp add: read_chars_def split_beta)

lemma fault_read_login:
  assumes "in_ok p"
  shows "in_fault (snd (run_state read_login p)) = None \<longleftrightarrow> 51 \<le> remaining p"
proof -
  define a where "a = snd (run_state Read64 p)"
  define b where "b = snd (run_state Read64 a)"
  define c where "c = snd (run_state Read8 b)"
  define d where "d = snd (run_state Read8 c)"
  define e where "e = snd (run_state Read8 d)"
  have ok: "in_ok a" "in_ok b" "in_ok c" "in_ok d" "in_ok e"
    using assms by (simp_all add: a_def b_def c_def d_def e_def after_words)
  have "remaining e = left 1 (left 1 (left 1 (left 8 (left 8 (remaining p)))))"
    using assms ok by (simp add: a_def b_def c_def d_def e_def after_words)
  then have "32 \<le> remaining e \<longleftrightarrow> 51 \<le> remaining p"
    by (auto simp: left_def)
  moreover have "snd (run_state read_login p) = snd (run_state (read_chars TOKEN_LEN) e)"
    by (simp add: read_login_def split_beta a_def b_def c_def d_def e_def)
  ultimately show ?thesis
    using fault_read_chars [OF ok(5), of TOKEN_LEN] by simp
qed

lemma in_ok_fresh: "sint len = int (length msg) \<Longrightarrow>
  in_ok (DataInPacket msg len) \<and> remaining (DataInPacket msg len) = int (length msg)"
  by (simp add: in_ok_def DataInPacket_def remaining_def)

text \<open>C30: An otherwise accepted USER_LOGIN message of any length is unpacked without reading
  outside the message exactly when its payload has at least the 51 bytes of the struct:
  UnpackStream does not check the payload against the struct, so a shorter message is read out
  of bounds.\<close>

theorem login_memory_safe_iff:
  assumes "sint len = int (length msg)" and "31 \<le> length msg"
    and "raw32 msg 0 = len" and "raw32 msg 4 = USER_LOGIN" and "raw32 msg 8 = len - 31"
  shows "\<exists>hb p. UnpackStream msg len = Some (hb, p) \<and>
    (in_fault p = None \<longleftrightarrow> 51 \<le> length msg - 31)"
proof -
  let ?q = "snd (run_state BUILDPACKHEAD (DataInPacket msg len))"
  note h = after_head [of "DataInPacket msg len"] in_ok_fresh [OF assms(1)]
  have q: "in_ok ?q" "remaining ?q = int (length msg) - 31" using h assms(2) by auto
  have "UnpackStream msg len =
      (case run_state (read_packet USER_LOGIN (len - 31)) (DataInPacket msg len) of
         (hb, p) \<Rightarrow> Some (the hb, p))"
    using UnpackStream_accepts [OF assms(1,2)] assms(3-5) by (simp add: packed_operations_def)
  then obtain hb where "UnpackStream msg len = Some (hb, snd (run_state read_login ?q))"
    by (auto simp: run_read_packet read_body_def split_beta)
  then show ?thesis using fault_read_login [OF q(1)] q(2) assms(2) by auto
qed

theorem login_memory_safe_iff_witness:
  "\<exists>hb p. UnpackStream (le_bytes 4 (31 :: int32) @ le_bytes 4 USER_LOGIN @ replicate 23 0) 31 =
     Some (hb, p) \<and> in_fault p \<noteq> None"
  using login_memory_safe_iff [of 31 "le_bytes 4 (31 :: int32) @ le_bytes 4 USER_LOGIN @ replicate 23 0"]
  by (simp add: raw32_def)

lemma reads_word64_run:
  assumes "before p (le_bytes 8 q @ bs)"
  shows "run_state Read64 p = (q, advance 8 p)" "before (advance 8 p) bs"
  using before_appendD [OF assms] reads_word(4) [of q] by (auto simp: reads_def)

lemma before_ok: "before p bs \<Longrightarrow> in_ok p"
  by (simp add: before_def)

text \<open>How a read of eight bytes more than the packet holds behind its fixed part ends: the copy
  reads behind the message, and the cursor is left eight bytes behind it; with nothing left
  \<^verbatim>\<open>ReadData\<close> returns \<^verbatim>\<open>NULL\<close> and the copy reads from that.\<close>

definition overread :: "byte list \<Rightarrow> in_packet \<Rightarrow> bool" where
  "overread content p \<longleftrightarrow>
     (if content = [] then in_fault p = Some NullRead \<and> remaining p = 0
      else in_fault p = Some OutOfBoundsRead \<and> remaining p = - 8)"

lemma overread_content:
  assumes "in_ok p" "sint len = int (length content) + 8" "remaining p = int (length content)"
  shows "overread content (snd (run_state (read_content len) p))"
proof -
  have "of_int (sint len) = len" by simp
  then have l: "len = of_nat (length content + 8)"
    by (simp only: assms(2)) (metis of_int_of_nat_eq of_nat_add of_nat_numeral)
  have n: "length content + 8 < 2 ^ 31" using assms(2) sint32_bounds(2) [of len] by simp
  have "snd (run_state (read_bytes len) p) =
      (if remaining p = 0 then p\<lparr>in_fault := Some NullRead\<rparr>
       else (advance (length content + 8) p)\<lparr>in_fault := Some OutOfBoundsRead\<rparr>)"
    unfolding l by (subst run_read_bytes [OF assms(1) _ n]) (use assms(3) in simp_all)
  moreover have "run_state (read_content len) p = run_state (read_bytes len) p"
    using assms(2) by (simp add: read_content_def)
  ultimately show ?thesis
    using assms(3) by (cases "content = []") (auto simp: overread_def remaining_def)
qed

lemma overread_failed:
  assumes "wf_body (Failed f)" "data_length h = payload_size (Failed f)"
    and "before q (body_bytes (Failed f))" "remaining q = int (length (body_bytes (Failed f)))"
  shows "overread (cf_error_msg f) (snd (run_state (read_failed h) q))"
proof -
  from assms(3) have b: "before q (le_bytes 8 (cf_platform_id f) @ cf_error_msg f)" by simp
  note r = reads_word64_run [OF b]
  have "sint (data_length h) = int (length (cf_error_msg f)) + 8"
    using signed_of_nat32 [of "length (cf_error_msg f) + 8"] assms(1,2)
    by (simp add: content_ok_def add.commute)
  from overread_content [OF before_ok [OF r(2)] this] show ?thesis
    using r(1) assms(4) by (simp add: read_failed_def split_beta)
qed

lemma overread_private_recv:
  assumes "wf_body (PrivateRecv f)" "data_length h = payload_size (PrivateRecv f)"
    and "before q (body_bytes (PrivateRecv f))"
    and "remaining q = int (length (body_bytes (PrivateRecv f)))"
  shows "overread (tr_content f) (snd (run_state (read_private_recv h) q))"
proof -
  from assms(3) have b: "before q (le_bytes 8 (tr_platform_id f) @ le_bytes 8 (tr_send_user_id f) @
     le_bytes 8 (tr_recv_user_id f) @ tr_content f)" by simp
  note r1 = reads_word64_run [OF b]
  note r2 = reads_word64_run [OF r1(2)]
  note r3 = reads_word64_run [OF r2(2)]
  have "sint (data_length h - 8 * 2) = int (length (tr_content f)) + 8"
    using signed_of_nat32 [of "length (tr_content f) + 8"] assms(1,2)
    by (simp add: content_ok_def add.commute)
  from overread_content [OF before_ok [OF r3(2)] this] show ?thesis
    using r1(1) r2(1) r3(1) assms(4) by (simp add: read_private_recv_def split_beta)
qed

text \<open>The first fault stays the one recorded.\<close>

definition sticky :: "'a in_m \<Rightarrow> bool" where
  "sticky m \<longleftrightarrow> (\<forall>p f. in_fault p = Some f \<longrightarrow> in_fault (snd (run_state m p)) = Some f)"

lemma sticky_bind [simp]: "sticky m \<Longrightarrow> (\<And>x. sticky (f x)) \<Longrightarrow> sticky (m \<bind> f)"
  by (simp add: sticky_def split_beta)

lemma sticky_basic [simp]:
  "sticky (State_Monad.return x)" "sticky State_Monad.get" "sticky (in_fail f)"
  "sticky (forward_cursor n)"
  by (auto simp: sticky_def in_fail_def forward_cursor_def)

lemma sticky_memcpy_from [simp]: "sticky (memcpy_from ptr n)"
  by (auto simp: memcpy_from_def split: option.split)

lemma sticky_read_word [simp]: "sticky (read_word n)"
  by (simp add: read_word_def)

lemma sticky_reads [simp]: "sticky Read64" "sticky (read_bytes n)" "sticky (read_chars k)"
  by (simp_all add: Read64_def read_bytes_def read_chars_def ReadData_def Let_def)

lemma sticky_read_oppinfo [simp]: "sticky read_oppinfo"
  by (simp add: read_oppinfo_def store_char_def)

lemma sticky_get_all [simp]: "(\<And>t. sticky (get t)) \<Longrightarrow> sticky (get_all get ts)"
  by (induction ts) simp_all

lemma after_read_bytes:
  assumes "in_ok p" "0 < n" "n < 2 ^ 31" "int n \<le> remaining p"
  shows "run_state (read_bytes (of_nat n)) p = (take n (drop (nat (in_cursor p)) (in_data p)), advance n p)"
    and "snd (run_state (read_chars n) p) = advance n p" and "in_ok (advance n p)"
  using run_read_bytes [OF assms(1-3)] assms(4) in_ok_advance [OF assms(1,4)] by (simp_all add: read_chars_def split_beta)

text \<open>Up to its last store an entry is read inside the message.\<close>

lemma read_oppinfo_faults:
  assumes "in_ok p" "320 \<le> remaining p"
  shows "in_fault (snd (run_state read_oppinfo p)) = Some OutOfBoundsWrite"
proof -
  define a where "a = snd (run_state Read64 p)"
  define b where "b = snd (run_state Read64 a)"
  have ab: "in_ok a" "in_ok b" using assms(1) by (simp_all add: a_def b_def after_words)
  have "remaining a = remaining p - 8" "remaining b = remaining a - 8"
    using assms ab(1) by (simp_all add: a_def b_def after_words left_def)
  then have r: "304 \<le> remaining b" using assms(2) by simp
  note c = after_read_bytes [OF ab(2), of NICKNAME_LEN]
  have c: "snd (run_state (read_chars NICKNAME_LEN) b) = advance 48 b" "in_ok (advance 48 b)" using c(2,3) r by simp_all
  have d: "run_state (read_bytes (of_nat HEAD_URL_LEN)) (advance 48 b) =
      (take 256 (drop (nat (in_cursor (advance 48 b))) (in_data (advance 48 b))), advance 256 (advance 48 b))"
    using after_read_bytes(1) [OF c(2), of HEAD_URL_LEN] r by simp
  have "snd (run_state read_oppinfo p) = snd (run_state (in_fail OutOfBoundsWrite) (advance 304 b))"
    using c(1) d by (simp add: read_oppinfo_def split_beta store_char_def a_def b_def)
  then show ?thesis using ab(2) by (simp add: in_fail_def in_ok_def)
qed

lemma read_opposition_faults:
  assumes "0 < sint (oppinfo_nums len)" "in_ok p" "658 \<le> remaining p"
  shows "in_fault (snd (run_state (read_opposition len) p)) = Some OutOfBoundsWrite"
proof -
  obtain k where k: "nat (sint (oppinfo_nums len)) = Suc k"
    using assms by (cases "nat (sint (oppinfo_nums len))") auto
  have s: "sticky (get_all (\<lambda>_. read_oppinfo) (replicate k ()))" by simp
  define a where "a = snd (run_state Read64 p)"
  define b where "b = snd (run_state Read64 a)"
  define c where "c = snd (run_state Read64 b)"
  define d where "d = snd (run_state Read64 c)"
  define e where "e = snd (run_state Read16 d)"
  have ok: "in_ok a" "in_ok b" "in_ok c" "in_ok d" "in_ok e"
    using assms(2) by (simp_all add: a_def b_def c_def d_def e_def after_words)
  have "remaining e = left 2 (left 8 (left 8 (left 8 (left 8 (remaining p)))))"
    using assms(2) ok by (simp add: a_def b_def c_def d_def e_def after_words)
  then have r: "624 \<le> remaining e" using assms(3) by (simp add: left_def)
  have f: "snd (run_state (read_chars NICKNAME_LEN) e) = advance 48 e" "in_ok (advance 48 e)"
    using after_read_bytes(2,3) [OF ok(5), of NICKNAME_LEN] r by simp_all
  have g: "snd (run_state (read_chars HEAD_URL_LEN) (advance 48 e)) = advance 304 e" "in_ok (advance 304 e)"
    using after_read_bytes(2,3) [OF f(2), of HEAD_URL_LEN] r by simp_all
  have "in_fault (snd (run_state read_oppinfo (advance 304 e))) = Some OutOfBoundsWrite"
    using read_oppinfo_faults [OF g(2)] r by simp
  moreover have "snd (run_state (read_opposition len) p) =
      snd (run_state (get_all (\<lambda>_. read_oppinfo) (replicate k ())) (snd (run_state read_oppinfo (advance 304 e))))"
    using f(1) g(1) by (simp add: read_opposition_def k split_beta a_def b_def c_def d_def e_def)
  ultimately show ?thesis using s by (simp add: sticky_def)
qed

text \<open>The entry count survives its odd formula: the constants it leaves out are worth less than
  one entry.\<close>

lemma oppinfo_nums_exact:
  assumes "k < 2 ^ 20"
  shows "oppinfo_nums (of_nat (320 * k + 338)) = of_nat k"
proof -
  have "(scast (of_nat (320 * k + 338) :: int32) :: int64) = of_nat (320 * k + 338)"
    using assms by (intro scast64_of_nat) simp
  then have "(scast (of_nat (320 * k + 338) :: int32) :: int64) - 8 * 3 - 48 - 32 = of_nat (320 * k + 234)"
    by simp
  moreover have "ucast (of_nat (320 * k + 234) :: int64) = (of_nat (320 * k + 234) :: int32)"
    using assms by (simp only: ucast_eq unsigned_of_nat) (simp add: take_bit_nat_eq_self)
  moreover have "(scast (of_nat (320 * k + 234) :: int32) :: int64) = of_nat (320 * k + 234)"
    using assms by (intro scast64_of_nat) simp
  moreover have "(of_nat (320 * k + 234) :: int64) div (8 * 2 + 48 + 256) = of_nat k"
    using assms by (simp only: word_arith_nat_div unsigned_of_nat) (simp add: take_bit_nat_eq_self)
  moreover have "ucast (of_nat k :: int64) = (of_nat k :: int32)"
    using assms by (simp only: ucast_eq unsigned_of_nat) (simp add: take_bit_nat_eq_self)
  ultimately show ?thesis by (simp add: oppinfo_nums_def Let_def add.commute)
qed

text \<open>C32: Unpacking a well-formed packet of the remaining kinds, that is the very bytes PackStream
  wrote for USER_LOGIN_FAILED, TEXT_CHAT_PRIVATE_RECV or a GET_OPPOSITION_INFO with at least
  one entry, always accesses memory out of bounds. For the first two the copy of the text
  reads behind the message and leaves the cursor eight bytes behind its end, or reads from
  NULL when the text is empty; for the third, the first fault is the NUL stored at index
  HEAD_URL_LEN of an array of HEAD_URL_LEN characters.\<close>

theorem unfaithful_packets_fault:
  assumes "wf_body b" and "\<not> faithful_body b" and "operate_code h = operatorcode b"
  defines "n \<equiv> (of_nat (length (body_bytes b)) :: int32)"
  shows "\<exists>hb p. UnpackStream (head_bytes h n @ body_bytes b) (n + PACKET_HEAD_LENGTH) = Some (hb, p) \<and>
    (case b of Failed f \<Rightarrow> overread (cf_error_msg f) p | PrivateRecv f \<Rightarrow> overread (tr_content f) p
     | _ \<Rightarrow> in_fault p = Some OutOfBoundsWrite)"
proof -
  have size: "data_length (sized_head h n) = payload_size b"
    using payload_size_bytes [OF assms(1)] by (simp add: sized_head_def n_def)
  obtain rd where rd: "read_body (operatorcode b) n (sized_head h n) = Some rd"
    by (cases b) (simp_all add: read_body_def)
  note u = unpack_packed [OF assms(1,3) rd [unfolded n_def], folded n_def]
  let ?q = "advance 31 (DataInPacket (head_bytes h n @ body_bytes b) (n + PACKET_HEAD_LENGTH))"
  have "case b of Failed f \<Rightarrow> overread (cf_error_msg f) (snd (run_state rd ?q))
      | PrivateRecv f \<Rightarrow> overread (tr_content f) (snd (run_state rd ?q))
      | _ \<Rightarrow> in_fault (snd (run_state rd ?q)) = Some OutOfBoundsWrite"
  proof (cases b)
    case (Failed f)
    with overread_failed [of f "sized_head h n" ?q] u assms(1) size rd
    show ?thesis by (simp add: read_body_def)
  next
    case (PrivateRecv f)
    with overread_private_recv [of f "sized_head h n" ?q] u assms(1) size rd
    show ?thesis by (simp add: read_body_def)
  next
    case (Opposition p)
    let ?k = "length (op_opponfo_list p)"
    have k: "0 < ?k" "?k < 2 ^ 20" using Opposition assms(1,2) by simp_all
    have len: "length (body_bytes b) = 320 * ?k + 338"
      using Opposition assms(1) oppinfos.length_all by (simp add: char_array_def)
    then have "0 < sint (oppinfo_nums n)"
      using oppinfo_nums_exact [OF k(2)] signed_of_nat32 [of ?k] k by (simp add: n_def)
    moreover have "rd = read_opposition n" using Opposition rd by (simp add: read_body_def)
    moreover have "658 \<le> remaining ?q" unfolding u(3) len using k(1) by (simp add: Suc_le_eq)
    ultimately show ?thesis using read_opposition_faults [OF _ before_ok [OF u(2)]] Opposition by simp
  qed (use assms(2) in simp_all)
  then show ?thesis using u(1) by (auto simp: split_beta)
qed

theorem unfaithful_packets_fault_witness:
  "\<exists>hb p. UnpackStream (head_bytes \<lparr>packet_length = 0, operate_code = TEXT_CHAT_PRIVATE_RECV,
       data_length = 0, current_time = 5, msg_type = 2, is_zip = 0, msg_id = 9, reserverd = 0\<rparr> 26 @
     body_bytes (PrivateRecv \<lparr>tr_platform_id = 1, tr_send_user_id = 2, tr_recv_user_id = 3,
       tr_content = [104, 105]\<rparr>)) 57 = Some (hb, p) \<and> in_fault p = Some OutOfBoundsRead \<and> remaining p = - 8"
  using unfaithful_packets_fault [of "PrivateRecv \<lparr>tr_platform_id = 1, tr_send_user_id = 2,
      tr_recv_user_id = 3, tr_content = [104, 105]\<rparr>"
    "\<lparr>packet_length = 0, operate_code = TEXT_CHAT_PRIVATE_RECV,
       data_length = 0, current_time = 5, msg_type = 2, is_zip = 0, msg_id = 9, reserverd = 0\<rparr>"]
  by (simp add: content_ok_def overread_def)

end
