(* ===== verification/ChatDump.thy ===== *)
theory ChatDump
  imports ChatPack
begin

text \<open>
  The diagnostics of \<^verbatim>\<open>src/server/chat/base/protocol.cc\<close>: \<^verbatim>\<open>DumpPacket\<close>, which prints every packet
  sent or received into a buffer on the stack, and \<^verbatim>\<open>HexEncode\<close>.
\<close>

section \<open>DumpPacket\<close>

text \<open>\<open>dump_j\<close> is the running offset \<^verbatim>\<open>j\<close>, \<open>dump_text\<close> what the buffer holds, \<open>dump_overrun\<close>
  whether \<^verbatim>\<open>snprintf\<close> was pointed beyond the end of the buffer.\<close>

record dump =
  dump_j :: int
  dump_text :: "byte list"
  dump_overrun :: bool

abbreviation DUMPPACKBUF :: int where "DUMPPACKBUF \<equiv> 4096"

text \<open>\<^verbatim>\<open>j += snprintf (buf + j, DUMPPACKBUF - j, ...)\<close>: the size argument is unsigned, so once
  \<^verbatim>\<open>j\<close> exceeds the buffer it is huge and the text goes beyond the end.\<close>

definition print_chunk :: "byte list \<Rightarrow> dump \<Rightarrow> dump" where
  "print_chunk t d =
     (let room = DUMPPACKBUF - dump_j d in
      \<lparr>dump_j = dump_j d + int (length t),
       dump_text = dump_text d @ take (nat (room - 1)) t,
       dump_overrun = (dump_overrun d \<or> room < 0)\<rparr>)"

definition PRINT_TITLE :: "string \<Rightarrow> byte list" where
  "PRINT_TITLE v = 10 # ascii ''-------- '' @ ascii v @ ascii '' --------'' @ [10]"

definition PRINT_END :: "string \<Rightarrow> byte list" where
  "PRINT_END v = ascii ''-------- '' @ ascii v @ ascii '' --------'' @ [10]"

definition PRINT_INT :: "string \<Rightarrow> int \<Rightarrow> byte list" where
  "PRINT_INT name v = 9 # ascii name @ ascii '' = '' @ decimal v @ [10]"

definition PRINT_STRING :: "string \<Rightarrow> byte list \<Rightarrow> byte list" where
  "PRINT_STRING name v = 9 # ascii name @ ascii '' = '' @ c_string v @ [10]"

text \<open>\<^verbatim>\<open>PRINT_INT\<close> casts to \<^verbatim>\<open>int\<close>, also the 64-bit message id.\<close>

definition DUMPHEAD :: "packet_head \<Rightarrow> byte list list" where
  "DUMPHEAD h =
    [PRINT_INT ''packet_length'' (sint (packet_length h)),
     PRINT_INT ''operate_code'' (sint (operate_code h)),
     PRINT_INT ''data_length'' (sint (data_length h)),
     PRINT_INT ''current_time'' (sint (current_time h)),
     PRINT_INT ''msg_type'' (sint (msg_type h)),
     PRINT_INT ''is_zip'' (sint (is_zip h)),
     PRINT_INT ''msg_id'' (sint (to_int (msg_id h))),
     PRINT_INT ''reserved'' (sint (reserverd h))]"

text \<open>The lines of a case after the header.\<close>

definition dump_login :: "user_login \<Rightarrow> byte list list" where
  "dump_login p =
    [PRINT_INT ''vUserLogin->platform_id'' (sint (ul_platform_id p)),
     PRINT_INT ''vUserLogin->user_id'' (sint (ul_user_id p)),
     PRINT_INT ''vUserLogin->device'' (sint (ul_device p)),
     PRINT_INT ''vUserLogin->net_type'' (sint (ul_net_type p)),
     PRINT_INT ''vUserLogin->user_type'' (sint (ul_user_type p)),
     PRINT_STRING ''vUserLogin->token'' (ul_token p),
     PRINT_END ''struct ErrorReponse Dump End'']"

definition dump_login_sucess :: "user_login_sucess \<Rightarrow> byte list list" where
  "dump_login_sucess p =
    [PRINT_INT ''vUserLoginSucess->platform_id'' (sint (us_platform_id p)),
     PRINT_INT ''vUserLoginSucess->user_id'' (sint (us_user_id p)),
     PRINT_INT ''vUserLoginSucess->nick_number'' (sint (us_nick_number p)),
     PRINT_STRING ''vUserLoginSucess->token'' (us_token p),
     PRINT_STRING ''vUserLoginSucess->nickname'' (us_nickname p),
     PRINT_STRING ''vUserLoginSucess->head_url'' (us_head_url p),
     PRINT_END ''Strut vUserLoginSucess Dump End'']"

definition dump_failed :: "chat_failed \<Rightarrow> byte list list" where
  "dump_failed p =
    [PRINT_INT ''vChatFailed->platform_id'' (sint (cf_platform_id p)),
     PRINT_STRING ''vChatFailed->error_msg.c_str()'' (cf_error_msg p),
     PRINT_END ''struct ChatFailed Dump End'']"

definition dump_quit :: "user_quit \<Rightarrow> byte list list" where
  "dump_quit p =
    [PRINT_INT ''vUserQuit->platform_id'' (sint (uq_platform_id p)),
     PRINT_INT ''vUserQuit->user_id'' (sint (uq_user_id p)),
     PRINT_INT ''vUserQuit->session'' (sint (uq_session p)),
     PRINT_STRING ''vUserQuit->token'' (uq_token p),
     PRINT_END ''struct UserQuit Dump End'']"

definition dump_quit_notification :: "user_quit_notification \<Rightarrow> byte list list" where
  "dump_quit_notification p =
    [PRINT_INT ''vUserQuitNotification->platform_id'' (sint (un_platform_id p)),
     PRINT_INT ''vUserQuitNotification->user_id'' (sint (un_user_id p)),
     PRINT_END ''struct UserQuitNotification Dump End'']"

definition dump_online_req :: "user_online_req \<Rightarrow> byte list list" where
  "dump_online_req p =
    [PRINT_INT ''vUserOnLineReq->platform_id'' (sint (oq_platform_id p)),
     PRINT_INT ''vUserOnLineReq->group_id'' (sint (oq_group_id p)),
     PRINT_INT ''vUserOnLineReq->user_id'' (sint (oq_user_id p)),
     PRINT_STRING ''vUserOnLineReq->token'' (oq_token p),
     PRINT_END ''struct UserOnLineReq Dump End'']"

definition dump_online_rsp :: "user_online_rsp \<Rightarrow> byte list list" where
  "dump_online_rsp p =
    [PRINT_INT ''vUserOnLineRsp->platform_id'' (sint (or_platform_id p)),
     PRINT_INT ''vUserOnLineRsp->group_id'' (sint (or_group_id p)),
     PRINT_INT ''vUserOnLineRsp->user_nicknumber'' (sint (or_user_nicknumber p)),
     PRINT_INT ''vUserOnLineRsp->user_id'' (sint (or_user_id p)),
     PRINT_STRING ''vUserOnLineRsp->nickname'' (or_nickname p),
     PRINT_STRING ''vUserOnLineRsp->user_head'' (or_user_head p),
     PRINT_END ''struct UserOnLineRsp Dump End'']"

definition dump_req_opposition :: "req_oppstion_info \<Rightarrow> byte list list" where
  "dump_req_opposition p =
    [PRINT_INT ''vReqOppstionInfo->platform_id'' (sint (ro_platform_id p)),
     PRINT_INT ''vReqOppstionInfo->user_id'' (sint (ro_user_id p)),
     PRINT_INT ''vReqOppstionInfo->oppostion_id'' (sint (ro_oppostion_id p)),
     PRINT_INT ''vReqOppstionInfo->type'' (sint (ro_type p)),
     PRINT_STRING ''vReqOppstionInfo->token'' (ro_token p),
     PRINT_END ''struct UserQuitNotification Dump End'']"

definition dump_oppinfo :: "oppinfo \<Rightarrow> byte list list" where
  "dump_oppinfo p =
    [PRINT_INT ''(*it)->user_id'' (sint (oi_user_id p)),
     PRINT_INT ''(*it)->user_nicknumber'' (sint (oi_user_nicknumber p)),
     PRINT_STRING ''(*it)->nickname'' (oi_nickname p),
     PRINT_STRING ''(*it)->user_head'' (oi_user_head p)]"

definition dump_opposition :: "opposition_info \<Rightarrow> byte list list" where
  "dump_opposition p =
    [PRINT_TITLE ''struct OppositionInfo DumpBegin'',
     PRINT_INT ''vOppostionInfo->platform_id'' (sint (op_platform_id p)),
     PRINT_INT ''vOppostionInfo->oppo_id'' (sint (op_oppo_id p)),
     PRINT_INT ''vOppostionInfo->oppo_nick_number'' (sint (op_oppo_nick_number p)),
     PRINT_INT ''vOppostionInfo->session'' (sint (op_session p)),
     PRINT_INT ''vOppostionInfo->oppo_type'' (sint (op_oppo_type p)),
     PRINT_STRING ''vOppostionInfo->oppo_nickname'' (op_oppo_nickname p),
     PRINT_STRING ''vOppostionInfo->oppo_user_head'' (op_oppo_user_head p)] @
    concat (map dump_oppinfo (op_opponfo_list p)) @
    [PRINT_END ''struct OppositionInfo Dump End'']"

definition dump_private_send :: "text_chat_private_send \<Rightarrow> byte list list" where
  "dump_private_send p =
    [PRINT_INT ''vTextChatPrivateSend->platform_id'' (sint (ts_platform_id p)),
     PRINT_INT ''vTextChatPrivateSend->send_user_id'' (sint (ts_send_user_id p)),
     PRINT_INT ''vTextChatPrivateSend->recv_user_id'' (sint (ts_recv_user_id p)),
     PRINT_INT ''vTextChatPrivateSend->session'' (sint (ts_session p)),
     PRINT_STRING ''vTextChatPrivateSend->token'' (ts_token p),
     PRINT_STRING ''vTextChatPrivateSend->content.c_str()'' (ts_content p),
     PRINT_END ''struct TextChatPrivateSend Dump End'']"

definition dump_private_recv :: "text_chat_private_recv \<Rightarrow> byte list list" where
  "dump_private_recv p =
    [PRINT_INT ''vTextChatPrivateRecv->platform_id'' (sint (tr_platform_id p)),
     PRINT_INT ''vTextChatPrivateRecv->send_user_id'' (sint (tr_send_user_id p)),
     PRINT_INT ''vTextChatPrivateRecv->recv_user_id'' (sint (tr_recv_user_id p)),
     PRINT_STRING ''vTextChatPrivateRecv->content.c_str()'' (tr_content p),
     PRINT_END ''struct TextChatPrivateRecv Dump End'']"

definition dump_confirm :: "packet_confirm \<Rightarrow> byte list list" where
  "dump_confirm p =
    [PRINT_INT ''vPacketConfirm->platform_id'' (sint (pc_platform_id p)),
     PRINT_INT ''vPacketConfirm->send_user_id'' (sint (pc_send_user_id p)),
     PRINT_INT ''vPacketConfirm->recv_user_id'' (sint (pc_recv_user_id p)),
     PRINT_INT ''vPacketConfirm->session_id'' (sint (pc_session_id p)),
     PRINT_INT ''vPacketConfirm->private_msg_id'' (sint (pc_private_msg_id p)),
     PRINT_STRING ''vPacketConfirm->token'' (pc_token p),
     PRINT_END ''struct PacketConfirm End'']"

definition dump_chat_send :: "multi_chat_send \<Rightarrow> byte list list" where
  "dump_chat_send p =
    [PRINT_INT ''vMultiChatSend->platform_id'' (sint (cs_platform_id p)),
     PRINT_INT ''vMultiChatSend->multi_id'' (sint (cs_multi_id p)),
     PRINT_INT ''vMultiChatSend->send_user_id'' (sint (cs_send_user_id p)),
     PRINT_INT ''vMultiChatSend->session'' (sint (cs_session p)),
     PRINT_STRING ''vMultiChatSend->token'' (cs_token p),
     PRINT_STRING ''vMultiChatSend->content.c_str()'' (cs_content p),
     PRINT_END ''struct MultiChatSend End'']"

definition dump_chat_recv :: "multi_chat_recv \<Rightarrow> byte list list" where
  "dump_chat_recv p =
    [PRINT_INT ''vMultiChatRecv->platform_id'' (sint (cr_platform_id p)),
     PRINT_INT ''vMultiChatRecv->multi_id'' (sint (cr_multi_id p)),
     PRINT_INT ''vMultiChatRecv->send_user_id'' (sint (cr_send_user_id p)),
     PRINT_STRING ''vMultiChatRecv->send_nickname'' (cr_send_nickname p),
     PRINT_STRING ''vMultiChatRecv->content.c_str()'' (cr_content p),
     PRINT_END ''struct MultiChatRecv End'']"

definition dump_sound_send :: "multi_sound_send \<Rightarrow> byte list list" where
  "dump_sound_send p =
    [PRINT_INT ''vMultiSoundSend->platform_id'' (sint (ms_platform_id p)),
     PRINT_INT ''vMultiSoundSend->multi_id'' (sint (ms_multi_id p)),
     PRINT_INT ''vMultiSoundSend->multi_type'' (sint (ms_multi_type p)),
     PRINT_INT ''vMultiSoundSend->send_user_id'' (sint (ms_send_user_id p)),
     PRINT_STRING ''vMultiSoundSend->token'' (ms_token p),
     PRINT_STRING ''vMultiSoundSend->sound_path.c_str()'' (ms_sound_path p),
     PRINT_END ''struct MultiSoundSend End'']"

text \<open>The group id is not printed; its line prints the header's message type again.\<close>

definition dump_sound_recv :: "packet_head \<Rightarrow> multi_sound_recv \<Rightarrow> byte list list" where
  "dump_sound_recv h p =
    [PRINT_INT ''vMultiSoundRecv->platform_id'' (sint (mr_platform_id p)),
     PRINT_INT ''vMultiSoundRecv->msg_type'' (sint (msg_type h)),
     PRINT_INT ''vMultiSoundRecv->send_user_id'' (sint (mr_send_user_id p)),
     PRINT_STRING ''vMultiSoundRecv->sound_path.c_str()'' (mr_sound_path p),
     PRINT_END ''struct MultiSoundRecv End'']"

primrec dump_lines :: "packet_head \<Rightarrow> body \<Rightarrow> byte list list" where
  "dump_lines h (Confirm p) = dump_confirm p"
| "dump_lines h (Login p) = dump_login p"
| "dump_lines h (LoginSucess p) = dump_login_sucess p"
| "dump_lines h (Failed p) = dump_failed p"
| "dump_lines h (Quit p) = dump_quit p"
| "dump_lines h (QuitNotification p) = dump_quit_notification p"
| "dump_lines h (ReqOpposition p) = dump_req_opposition p"
| "dump_lines h (Opposition p) = dump_opposition p"
| "dump_lines h (PrivateSend p) = dump_private_send p"
| "dump_lines h (PrivateRecv p) = dump_private_recv p"
| "dump_lines h (OnlineReq p) = dump_online_req p"
| "dump_lines h (OnlineRsp p) = dump_online_rsp p"
| "dump_lines h (SoundSend p) = dump_sound_send p"
| "dump_lines h (SoundRecv p) = dump_sound_recv h p"
| "dump_lines h (ChatSend p) = dump_chat_send p"
| "dump_lines h (ChatRecv p) = dump_chat_recv p"

text \<open>The titles; \<^verbatim>\<open>GET_OPPOSITION_INFO\<close> prints its own after the header.\<close>

primrec dump_title :: "body \<Rightarrow> byte list list" where
  "dump_title (Confirm p) = [PRINT_TITLE ''struct PacketConfirm Dump Begin'']"
| "dump_title (Login p) = [PRINT_TITLE ''struct UserLogin Dump Begin'']"
| "dump_title (LoginSucess p) = [PRINT_TITLE ''Strut vUserLoginSucess Dump Begin'']"
| "dump_title (Failed p) = [PRINT_TITLE ''struct ChatFailed Dump Begin'']"
| "dump_title (Quit p) = [PRINT_TITLE ''struct UserQuit Dump Begin'']"
| "dump_title (QuitNotification p) = [PRINT_TITLE ''struct UserQuitNotification Dump Begin'']"
| "dump_title (ReqOpposition p) = [PRINT_TITLE ''struct UserQuitNotification Dump Begin'']"
| "dump_title (Opposition p) = []"
| "dump_title (PrivateSend p) = [PRINT_TITLE ''struct TextChatPrivateSend Dump Begin'']"
| "dump_title (PrivateRecv p) = [PRINT_TITLE ''struct TextChatPrivateRecv Dump Begin'']"
| "dump_title (OnlineReq p) = [PRINT_TITLE ''struct UserOnLineReq Dump Begin'']"
| "dump_title (OnlineRsp p) = [PRINT_TITLE ''struct UserOnLineRsp Dump Begin'']"
| "dump_title (SoundSend p) = [PRINT_TITLE ''struct MultiSoundSend Dump Begin'']"
| "dump_title (SoundRecv p) = [PRINT_TITLE ''struct MultiSoundRecv Dump Begin'']"
| "dump_title (ChatSend p) = [PRINT_TITLE ''struct MultiChatSend Dump Begin'']"
| "dump_title (ChatRecv p) = [PRINT_TITLE ''struct MultiChatRecv Dump Begin'']"

definition dump_chunks :: "packet_head \<Rightarrow> body \<Rightarrow> byte list list" where
  "dump_chunks h b = dump_title b @ DUMPHEAD h @
     (if packet_length h = PACKET_HEAD_LENGTH \<and> data_length h = 0 then [] else dump_lines h b)"

definition DumpPacket :: "packet_head \<Rightarrow> body \<Rightarrow> dump" where
  "DumpPacket h b =
     fold print_chunk
       (if operate_code h \<in> set packed_operations then
          (case cast_body (operate_code h) b of None \<Rightarrow> [] | Some b' \<Rightarrow> dump_chunks h b')
        else [])
       \<lparr>dump_j = 0, dump_text = [], dump_overrun = False\<rparr>"

section \<open>The bounds of the dump buffer\<close>

lemma fold_print_chunk_j:
  "dump_j (fold print_chunk cs d) = dump_j d + int (length (concat cs))"
  by (induction cs arbitrary: d) (simp_all add: print_chunk_def Let_def)

lemma fold_print_chunk_overrun:
  "dump_overrun (fold print_chunk cs d) \<longleftrightarrow>
     dump_overrun d \<or> cs \<noteq> [] \<and> DUMPPACKBUF < dump_j d + int (length (concat (butlast cs)))"
proof (induction cs arbitrary: d)
  case (Cons c cs)
  show ?case
    by (simp only: fold.simps o_apply Cons.IH)
      (auto simp: print_chunk_def Let_def)
qed simp

lemma fold_print_chunk_text:
  "0 \<le> dump_j d \<Longrightarrow> dump_text d = take 4095 t \<Longrightarrow> dump_j d = int (length t) \<Longrightarrow>
     dump_text (fold print_chunk cs d) = take 4095 (t @ concat cs)"
proof (induction cs arbitrary: d t)
  case (Cons c cs)
  have "dump_text (print_chunk c d) = take 4095 (t @ c)"
    using Cons.prems by (simp add: print_chunk_def Let_def nat_diff_distrib')
  moreover have "dump_j (print_chunk c d) = int (length (t @ c))"
    using Cons.prems by (simp add: print_chunk_def Let_def)
  ultimately show ?case using Cons.IH [of "print_chunk c d" "t @ c"] Cons.prems(1) by simp
qed simp

definition dump_bound :: "nat \<Rightarrow> byte list list \<Rightarrow> bool" where
  "dump_bound k cs \<longleftrightarrow> length (concat cs) \<le> k"

named_theorems dump_bounds

lemma dump_bound_nil [dump_bounds]: "dump_bound 0 []"
  by (simp add: dump_bound_def)

lemma dump_bound_int [dump_bounds]:
  assumes "dump_bound k cs"
  shows "dump_bound (length name + 25 + k) (PRINT_INT name (sint (w :: int64)) # cs)"
    "dump_bound (length name + 25 + k) (PRINT_INT name (sint (d :: int32)) # cs)"
    "dump_bound (length name + 25 + k) (PRINT_INT name (sint (h :: int16)) # cs)"
    "dump_bound (length name + 25 + k) (PRINT_INT name (sint (b :: int8)) # cs)"
  using assms length_decimal_word(1) [of w] length_decimal_word(2) [of d]
    length_decimal_word(3) [of h] length_decimal_word(4) [of b]
  by (simp_all add: dump_bound_def PRINT_INT_def del: length_decimal_word)

lemma dump_bound_string [dump_bounds]:
  assumes "length v \<le> n" "dump_bound k cs"
  shows "dump_bound (length name + 5 + n + k) (PRINT_STRING name v # cs)"
  using assms length_c_string [of v] by (simp add: dump_bound_def PRINT_STRING_def)

lemma dump_bound_title [dump_bounds]:
  assumes "dump_bound k cs"
  shows "dump_bound (length v + 20 + k) (PRINT_TITLE v # cs)"
    "dump_bound (length v + 19 + k) (PRINT_END v # cs)"
  using assms by (simp_all add: dump_bound_def PRINT_TITLE_def PRINT_END_def)

lemma dump_bound_append:
  "dump_bound k cs \<Longrightarrow> dump_bound l ds \<Longrightarrow> dump_bound (k + l) (cs @ ds)"
  by (simp add: dump_bound_def)

lemma dump_bound_mono: "dump_bound k cs \<Longrightarrow> k \<le> n \<Longrightarrow> dump_bound n cs"
  by (simp add: dump_bound_def)

lemma char_array_length: "char_array n a \<Longrightarrow> length a \<le> n"
  by (simp add: char_array_def)

lemma dump_bound_head: "dump_bound 300 (DUMPHEAD h)"
  unfolding DUMPHEAD_def
  by (rule dump_bound_mono, (rule dump_bounds)+) simp

text \<open>How much text of variable length a packet carries.\<close>

primrec free_text :: "body \<Rightarrow> nat" where
  "free_text (Confirm p) = 0"
| "free_text (Login p) = 0"
| "free_text (LoginSucess p) = 0"
| "free_text (Failed p) = length (cf_error_msg p)"
| "free_text (Quit p) = 0"
| "free_text (QuitNotification p) = 0"
| "free_text (ReqOpposition p) = 0"
| "free_text (Opposition p) = 450 * length (op_opponfo_list p)"
| "free_text (PrivateSend p) = length (ts_content p)"
| "free_text (PrivateRecv p) = length (tr_content p)"
| "free_text (OnlineReq p) = 0"
| "free_text (OnlineRsp p) = 0"
| "free_text (SoundSend p) = length (ms_sound_path p)"
| "free_text (SoundRecv p) = length (mr_sound_path p)"
| "free_text (ChatSend p) = length (cs_content p)"
| "free_text (ChatRecv p) = length (cr_content p)"

lemma dump_bound_oppinfo:
  assumes "wf_oppinfo p"
  shows "dump_bound 450 (dump_oppinfo p)"
proof -
  have "length (oi_nickname p) \<le> 48" "length (oi_user_head p) \<le> 256"
    using assms by (auto simp: wf_oppinfo_def intro: char_array_length)
  then have "dump_bound (length ''(*it)->user_id'' + 25 + (length ''(*it)->user_nicknumber'' + 25 +
      (length ''(*it)->nickname'' + 5 + 48 + (length ''(*it)->user_head'' + 5 + 256 + 0)))) (dump_oppinfo p)"
    unfolding dump_oppinfo_def by (intro dump_bounds)
  then show ?thesis by (rule dump_bound_mono) simp
qed

lemma dump_bound_oppinfos:
  "list_all wf_oppinfo os \<Longrightarrow> dump_bound (450 * length os) (concat (map dump_oppinfo os))"
proof (induction os)
  case (Cons p os)
  then show ?case using dump_bound_oppinfo dump_bound_append [of 450 "dump_oppinfo p"] by simp
qed (simp add: dump_bound_nil)

lemma dump_bound_body:
  assumes "wf_body b" "free_text b \<le> 2048"
  shows "dump_bound 3000 (dump_lines h b)"
proof (cases b)
  case (Opposition p)
  have os: "dump_bound (450 * length (op_opponfo_list p)) (concat (map dump_oppinfo (op_opponfo_list p)))"
    using dump_bound_oppinfos assms(1) Opposition by simp
  have "dump_bound 60 [PRINT_END ''struct OppositionInfo Dump End'']"
    by (rule dump_bound_mono, (rule dump_bounds)+) simp
  note tail = dump_bound_append [OF os this]
  have k: "length (op_oppo_nickname p) \<le> 48" "length (op_oppo_user_head p) \<le> 256"
    using assms Opposition by (auto intro: char_array_length)
  show ?thesis
    unfolding Opposition dump_lines.simps dump_opposition_def append.simps
    by (rule dump_bound_mono, (rule dump_bounds tail k)+) (use assms(2) Opposition in simp)
qed (use assms in \<open>simp_all only: dump_lines.simps dump_confirm_def dump_login_def
    dump_login_sucess_def dump_failed_def dump_quit_def dump_quit_notification_def
    dump_req_opposition_def dump_private_send_def dump_private_recv_def dump_online_req_def
    dump_online_rsp_def dump_sound_send_def dump_sound_recv_def dump_chat_send_def dump_chat_recv_def\<close>,
    (rule dump_bound_mono, (rule dump_bounds order_refl)+, simp add: char_array_def)+)

lemma dump_chunks_nonempty: "dump_chunks h b \<noteq> []"
  by (simp add: dump_chunks_def DUMPHEAD_def)

lemma DumpPacket_chunks:
  assumes "operate_code h = operatorcode b"
  shows "DumpPacket h b = fold print_chunk (dump_chunks h b)
    \<lparr>dump_j = 0, dump_text = [], dump_overrun = False\<rparr>"
proof -
  have "operatorcode b \<in> set packed_operations"
    by (cases b) (simp_all add: packed_operations_def)
  then show ?thesis using assms by (simp add: DumpPacket_def cast_body_def)
qed

lemma length_concat_butlast: "length (concat (butlast cs)) \<le> length (concat cs)"
  by (induction cs) auto

lemma dump_fits:
  assumes "wf_body b" and "operate_code h = operatorcode b" and "free_text b \<le> 2048"
  shows "\<not> dump_overrun (DumpPacket h b) \<and>
    dump_text (DumpPacket h b) = concat (dump_chunks h b)"
proof -
  have "dump_bound 80 (dump_title b)"
    by (cases b; simp add: dump_bound_def PRINT_TITLE_def)
  moreover have "dump_bound 3000 (if packet_length h = PACKET_HEAD_LENGTH \<and> data_length h = 0
      then [] else dump_lines h b)"
    using dump_bound_body [OF assms(1,3)] by (auto simp: dump_bound_def)
  ultimately have "dump_bound (80 + (300 + 3000)) (dump_chunks h b)"
    unfolding dump_chunks_def by (intro dump_bound_append dump_bound_head)
  then have n: "length (concat (dump_chunks h b)) \<le> 3380" by (simp add: dump_bound_def)
  then show ?thesis
    using length_concat_butlast [of "dump_chunks h b"] fold_print_chunk_text
    by (simp add: DumpPacket_chunks [OF assms(2)] fold_print_chunk_overrun)
qed

text \<open>Dumping a packet whose free text is short enough never writes outside the 4096-byte
  buffer of DumpPacket.\<close>

theorem DumpPacket_fits:
  assumes "wf_body b" and "operate_code h = operatorcode b" and "free_text b \<le> 2048"
  shows "\<not> dump_overrun (DumpPacket h b) \<and>
    dump_text (DumpPacket h b) = concat (dump_chunks h b)"
  using dump_fits [OF assms] .

theorem DumpPacket_fits_witness:
  "\<not> dump_overrun (DumpPacket \<lparr>packet_length = 0, operate_code = TEXT_CHAT_PRIVATE_RECV, data_length = 0,
       current_time = 5, msg_type = 1, is_zip = 0, msg_id = 9, reserverd = 0\<rparr>
     (PrivateRecv \<lparr>tr_platform_id = 1, tr_send_user_id = 2, tr_recv_user_id = 3,
       tr_content = replicate 2000 65\<rparr>))"
  using DumpPacket_fits [of "PrivateRecv \<lparr>tr_platform_id = 1, tr_send_user_id = 2, tr_recv_user_id = 3,
       tr_content = replicate 2000 65\<rparr>"
    "\<lparr>packet_length = 0, operate_code = TEXT_CHAT_PRIVATE_RECV, data_length = 0,
       current_time = 5, msg_type = 1, is_zip = 0, msg_id = 9, reserverd = 0\<rparr>"]
  by (simp add: content_ok_def)

text \<open>Dumping a private message whose text (up to its first NUL) exceeds the buffer sends
  snprintf beyond the end of the 4096-byte buffer, since the offset grows by the untruncated
  length.\<close>

theorem DumpPacket_long_message_overruns:
  assumes "operate_code h = TEXT_CHAT_PRIVATE_SEND"
    and "\<not> (packet_length h = PACKET_HEAD_LENGTH \<and> data_length h = 0)"
    and "4096 \<le> length (c_string (ts_content p))"
  shows "dump_overrun (DumpPacket h (PrivateSend p))"
proof -
  have h: "operate_code h = operatorcode (PrivateSend p)" using assms(1) by simp
  have "butlast (dump_lines h (PrivateSend p)) \<noteq> []"
    by (simp add: dump_private_send_def)
  moreover have "dump_lines h (PrivateSend p) \<noteq> []" by (simp add: dump_private_send_def)
  ultimately have "butlast (dump_chunks h (PrivateSend p)) =
      dump_title (PrivateSend p) @ DUMPHEAD h @ butlast (dump_lines h (PrivateSend p))"
    unfolding dump_chunks_def if_not_P [OF assms(2)]
    by (simp add: butlast_append del: dump_lines.simps dump_title.simps)
  moreover have "4096 < length (concat (butlast (dump_lines h (PrivateSend p))))"
    using assms(3) by (simp add: dump_private_send_def PRINT_STRING_def)
  ultimately show ?thesis
    by (simp add: DumpPacket_chunks [OF h] fold_print_chunk_overrun dump_chunks_nonempty
        del: dump_lines.simps dump_title.simps)
qed

theorem DumpPacket_long_message_overruns_witness:
  "dump_overrun (DumpPacket \<lparr>packet_length = 4191, operate_code = TEXT_CHAT_PRIVATE_SEND,
       data_length = 4160, current_time = 5, msg_type = 1, is_zip = 0, msg_id = 9, reserverd = 0\<rparr>
     (PrivateSend \<lparr>ts_platform_id = 1, ts_send_user_id = 2, ts_recv_user_id = 3, ts_session = 4,
       ts_token = replicate 32 0, ts_content = replicate 4096 65\<rparr>))"
  by (rule DumpPacket_long_message_overruns) simp_all

section \<open>HexEncode\<close>

definition kHexChars :: "byte list" where
  "kHexChars = ascii ''0123456789ABCDEF''"

definition hex_group :: "nat \<Rightarrow> byte \<Rightarrow> byte list" where
  "hex_group i b =
     [kHexChars ! unat (drop_bit 4 b AND 0xf), kHexChars ! unat (b AND 0xf),
      if (i * 3 + 2 + 1) mod 12 \<noteq> 0 then 32 else 10]"

fun hex_from :: "nat \<Rightarrow> byte list \<Rightarrow> byte list" where
  "hex_from i [] = []"
| "hex_from i (b # bs) = hex_group i b @ hex_from (i + 1) bs"

definition HexEncode :: "byte list \<Rightarrow> byte list" where
  "HexEncode bs = hex_from 0 bs"

text \<open>Reading the text back.\<close>

definition hex_value :: "byte \<Rightarrow> byte" where
  "hex_value c = (if c < 58 then c - 48 else c - 55)"

fun HexDecode :: "byte list \<Rightarrow> byte list" where
  "HexDecode (a # b # s # rest) = (push_bit 4 (hex_value a) OR hex_value b) # HexDecode rest"
| "HexDecode _ = []"

lemma hex_value_kHexChars:
  assumes "n < 16"
  shows "hex_value (kHexChars ! n) = of_nat n"
proof -
  have "\<forall>n \<in> set [0..<16]. hex_value (kHexChars ! n) = of_nat n"
    by (simp add: hex_value_def kHexChars_def ascii_def upt_rec)
  then show ?thesis using assms by auto
qed

lemma nibbles: "push_bit 4 (drop_bit 4 b AND 0xf) OR (b AND 0xf) = (b :: byte)"
proof (rule bit_word_eqI)
  fix n assume "n < LENGTH(8)"
  then have "nat (int n) = n" "int n \<in> set [0..7]" by auto
  moreover have "\<forall>j \<in> set [0..7].
      bit (push_bit 4 (drop_bit 4 b AND 0xf) OR (b AND 0xf)) (nat j) = bit b (nat j)"
    by (simp add: bit_simps upto.simps del: set_upto)
  ultimately show "bit (push_bit 4 (drop_bit 4 b AND 0xf) OR (b AND 0xf)) n = bit b n"
    by metis
qed

lemma unat_nibble: "unat (b AND 0xf :: byte) < 16"
proof -
  have "b AND 0xf \<le> 0xf" by (rule word_and_le1)
  then show ?thesis by (simp add: word_le_nat_alt)
qed

lemma HexDecode_group: "HexDecode (hex_group i b @ rest) = b # HexDecode rest"
  using nibbles [of b] by (simp add: hex_group_def hex_value_kHexChars unat_nibble)

text \<open>HexEncode writes every byte so that it can be recovered: decoding the hexadecimal text
  gives back the bytes.\<close>

theorem HexEncode_roundtrip:
  "HexDecode (HexEncode bs) = bs \<and> length (HexEncode bs) = 3 * length bs"
proof -
  have "HexDecode (hex_from i bs) = bs \<and> length (hex_from i bs) = 3 * length bs" for i
    by (induction i bs rule: hex_from.induct) (simp_all add: HexDecode_group, simp add: hex_group_def)
  then show ?thesis by (simp add: HexEncode_def)
qed

end
