(* ===== verification/StdMap.thy ===== *)
theory StdMap
  imports MigPrelude
begin

text \<open>
  \<^verbatim>\<open>std::map\<close> with integer keys, and the wrappers \<^verbatim>\<open>MapGet\<close>, \<^verbatim>\<open>MapAdd\<close>, \<^verbatim>\<open>MapDel\<close> of
  \<^verbatim>\<open>src/server/public/basic/template.h\<close> through which the servers use it.  A map is the list of
  its pairs in iteration order, strictly ascending by the signed value of the key.  The laws
  clients rely on are the locale \<open>dictionary\<close>.
\<close>

type_synonym ('k, 'v) stdmap = "('k \<times> 'v) list"

definition map_find :: "('k::len word, 'v) stdmap \<Rightarrow> 'k word \<Rightarrow> 'v option" where
  "map_find m k = map_of m k"

fun map_set :: "'k::len word \<Rightarrow> 'v \<Rightarrow> ('k word, 'v) stdmap \<Rightarrow> ('k word, 'v) stdmap" where
  "map_set k v [] = [(k, v)]"
| "map_set k v ((k', v') # m) =
     (if k = k' then (k, v) # m
      else if sint k < sint k' then (k, v) # (k', v') # m
      else (k', v') # map_set k v m)"

fun map_erase :: "'k::len word \<Rightarrow> ('k word, 'v) stdmap \<Rightarrow> ('k word, 'v) stdmap" where
  "map_erase k [] = []"
| "map_erase k ((k', v') # m) = (if k = k' then m else (k', v') # map_erase k m)"

definition map_sorted :: "('k::len word, 'v) stdmap \<Rightarrow> bool" where
  "map_sorted m \<longleftrightarrow> sorted_wrt (\<lambda>a b. sint (fst a) < sint (fst b)) m"

section \<open>The laws of a dictionary\<close>

locale dictionary =
  fixes inv :: "'m \<Rightarrow> bool" and empty :: 'm and lookup :: "'m \<Rightarrow> 'k \<Rightarrow> 'v option"
    and update :: "'k \<Rightarrow> 'v \<Rightarrow> 'm \<Rightarrow> 'm" and delete :: "'k \<Rightarrow> 'm \<Rightarrow> 'm"
  assumes inv_empty: "inv empty"
    and inv_update: "inv m \<Longrightarrow> inv (update k v m)"
    and inv_delete: "inv m \<Longrightarrow> inv (delete k m)"
    and lookup_empty: "lookup empty k = None"
    and lookup_update: "inv m \<Longrightarrow> lookup (update k v m) k' = (if k' = k then Some v else lookup m k')"
    and lookup_delete: "inv m \<Longrightarrow> lookup (delete k m) k' = (if k' = k then None else lookup m k')"
begin

lemma lookup_update_same: "inv m \<Longrightarrow> lookup (update k v m) k = Some v"
  by (simp add: lookup_update)

lemma lookup_update_other: "inv m \<Longrightarrow> k' \<noteq> k \<Longrightarrow> lookup (update k v m) k' = lookup m k'"
  by (simp add: lookup_update)

lemma lookup_delete_same: "inv m \<Longrightarrow> lookup (delete k m) k = None"
  by (simp add: lookup_delete)

lemma lookup_delete_other: "inv m \<Longrightarrow> k' \<noteq> k \<Longrightarrow> lookup (delete k m) k' = lookup m k'"
  by (simp add: lookup_delete)

lemma delete_update_lookup:
  "inv m \<Longrightarrow> lookup (delete k (update k v m)) k' = (if k' = k then None else lookup m k')"
  by (simp add: lookup_delete lookup_update inv_update)

end

lemma map_find_simps [simp]:
  "map_find [] k = None"
  "map_find ((k', v) # m) k = (if k = k' then Some v else map_find m k)"
  by (simp_all add: map_find_def)

lemma sint_eq_iff: "sint k = sint k' \<longleftrightarrow> (k :: 'k::len word) = k'"
  by (rule iffI, rule signed_word_eqI) simp_all

lemma map_sorted_Cons [simp]:
  "map_sorted ((k, v) # m) \<longleftrightarrow> (\<forall>(k', v') \<in> set m. sint k < sint k') \<and> map_sorted m"
  by (auto simp: map_sorted_def)

lemma map_sorted_Nil [simp]: "map_sorted []"
  by (simp add: map_sorted_def)

lemma set_map_set: "set (map_set k v m) \<subseteq> insert (k, v) (set m)"
  by (induction k v m rule: map_set.induct) auto

lemma set_map_erase: "set (map_erase k m) \<subseteq> set m"
  by (induction k m rule: map_erase.induct) auto

lemma map_sorted_set [simp]: "map_sorted m \<Longrightarrow> map_sorted (map_set k v m)"
proof (induction m)
  case (Cons p m)
  obtain k' v' where p: "p = (k', v')" by force
  show ?case
  proof (cases "k = k' \<or> sint k < sint k'")
    case True
    then show ?thesis using Cons.prems by (force simp: p)
  next
    case False
    then have "sint k' < sint k" using sint_eq_iff [of k k'] by linarith
    then have "\<forall>x \<in> insert (k, v) (set m). sint k' < sint (fst x)"
      using Cons.prems by (auto simp: p)
    then have "\<forall>x \<in> set (map_set k v m). sint k' < sint (fst x)"
      using set_map_set [of k v m] by blast
    then show ?thesis using Cons False by (auto simp: p)
  qed
qed simp

lemma map_sorted_erase [simp]: "map_sorted m \<Longrightarrow> map_sorted (map_erase k m)"
proof (induction m)
  case (Cons p m)
  then show ?case using set_map_erase [of k m] by (cases p) fastforce
qed simp

lemma map_find_set [simp]: "map_find (map_set k v m) k' = (if k' = k then Some v else map_find m k')"
  by (induction m) auto

lemma map_set_twice [simp]: "map_set k v (map_set k v' m) = map_set k v m"
  by (induction m) auto

lemma map_find_above: "\<forall>(k', v) \<in> set m. sint k < sint k' \<Longrightarrow> map_find m k = None"
  by (induction m) auto

lemma map_find_erase [simp]:
  "map_sorted m \<Longrightarrow> map_find (map_erase k m) k' = (if k' = k then None else map_find m k')"
proof (induction m)
  case (Cons p m)
  then show ?case using map_find_above [of m k'] by (cases p) auto
qed simp

interpretation stdmap: dictionary map_sorted "[]" map_find map_set map_erase
  by unfold_locales simp_all

lemma map_find_in_set: "map_find m k = Some v \<Longrightarrow> (k, v) \<in> set m"
  by (simp add: map_find_def map_of_SomeD)

lemma map_sorted_distinct: "map_sorted m \<Longrightarrow> distinct (map fst m)"
proof (induction m)
  case (Cons p m)
  then show ?case by (cases p) force
qed simp

lemma map_find_iff: "map_sorted m \<Longrightarrow> map_find m k = Some v \<longleftrightarrow> (k, v) \<in> set m"
  using map_sorted_distinct [of m] by (simp add: map_find_def)

lemma map_find_None: "map_find m k = None \<longleftrightarrow> k \<notin> fst ` set m"
  by (simp add: map_find_def map_of_eq_None_iff)

lemma length_map_set: "length (map_set k v m) = length m + (if map_find m k = None then 1 else 0)"
  if "map_sorted m"
  using that
proof (induction m)
  case (Cons p m)
  obtain k' v' where p: "p = (k', v')" by force
  have "map_find m k = None" if "sint k < sint k'"
    using that Cons.prems by (intro map_find_above) (auto simp: p intro: less_trans)
  then show ?case using Cons by (auto simp: p)
qed simp

section \<open>template.h\<close>

text \<open>The \<^verbatim>\<open>MapGet\<close> whose key parameter is an \<^verbatim>\<open>int\<close>.  It is the one overload resolution picks
  for \<^verbatim>\<open>MapGet<M, M::iterator, V>(m, k, v)\<close> unless \<open>k\<close> converts to \<open>V\<close>, also when \<open>k\<close> is an
  \<^verbatim>\<open>int64\<close>: the key is then cut to 32 bits at the call.\<close>

definition MapGet :: "(int64, 'v) stdmap \<Rightarrow> int32 \<Rightarrow> 'v option" where
  "MapGet m idx = map_find m (to_int64 idx)"

text \<open>The \<^verbatim>\<open>MapGet\<close> whose key parameter has the key's own type.\<close>

definition MapGetKey :: "('k::len word, 'v) stdmap \<Rightarrow> 'k word \<Rightarrow> 'v option" where
  "MapGetKey m idx = map_find m idx"

definition MapAdd :: "('k::len word, 'v) stdmap \<Rightarrow> 'k word \<Rightarrow> 'v \<Rightarrow> bool \<times> ('k word, 'v) stdmap" where
  "MapAdd m idx val = (True, map_set idx val m)"

definition MapDel :: "('k::len word, 'v) stdmap \<Rightarrow> 'k word \<Rightarrow> bool \<times> ('k word, 'v) stdmap" where
  "MapDel m idx = (case map_find m idx of None \<Rightarrow> (False, m) | Some _ \<Rightarrow> (True, map_erase idx m))"

definition MapCount :: "('k::len word, 'v) stdmap \<Rightarrow> bool \<times> int32" where
  "MapCount m = (True, of_nat (length m))"

definition MapClr :: "('k::len word, 'v) stdmap \<Rightarrow> bool \<times> ('k word, 'v) stdmap" where
  "MapClr m = (True, [])"

text \<open>After MapAdd under a 64-bit key, the MapGet with an int parameter finds the value exactly
  under keys with the same low 32 bits, and only if the inserted key is the sign extension of
  those bits.\<close>

theorem MapGet_after_MapAdd:
  "MapGet (snd (MapAdd m k v)) (to_int k') =
    (if to_int k' = to_int k \<and> fits_int k then Some v else MapGet m (to_int k'))"
proof -
  have "to_int64 (to_int k') = k \<longleftrightarrow> to_int k' = to_int k \<and> fits_int k"
    unfolding fits_int_def by (metis to_int_to_int64)
  then show ?thesis by (simp add: MapGet_def MapAdd_def)
qed

lemma map_erase_absent: "map_find m k = None \<Longrightarrow> map_erase k m = m"
  by (induction m) (auto split: if_splits)

lemma MapDel_eq: "MapDel m k = (map_find m k \<noteq> None, map_erase k m)"
  by (auto simp: MapDel_def map_erase_absent split: option.splits)

end
