(* ===== verification/ChatWorld.thy ===== *)
theory ChatWorld
  imports ChatUnpack ChatDump StdMap
begin

text \<open>
  The state of the chat server and its surroundings, and the helpers of
  \<^verbatim>\<open>src/server/chat/base/logic_comm.cc\<close> and \<^verbatim>\<open>src/server/public/basic/radom_in.cc\<close> every handler
  uses.  A \<^verbatim>\<open>UserInfo\<close> shares its \<^verbatim>\<open>Data\<close> with every copy made of it
  (\<^verbatim>\<open>src/server/chat/chat/chat_basic_infos.{h,cc}\<close>), so it is an address into a heap: a setter on
  one copy is seen through all of them.  There is no destructor, hence reference counts only
  grow and nothing reachable is freed.
\<close>

section \<open>Data\<close>

record user_data =
  ud_platform_id :: int64
  ud_user_id :: int64
  ud_nicknumber :: int64
  ud_socket :: int32
  ud_session :: int64
  ud_nickname :: "byte list"
  ud_head_url :: "byte list"
  ud_platform_token :: "byte list"
  ud_chat_token :: "byte list"

type_synonym user_info = nat

definition default_user :: user_data where
  "default_user = \<lparr>ud_platform_id = 0, ud_user_id = 0, ud_nicknumber = 0, ud_socket = 0,
     ud_session = 0, ud_nickname = [], ud_head_url = [], ud_platform_token = [], ud_chat_token = []\<rparr>"

definition UserInfo_Data ::
  "int64 \<Rightarrow> int64 \<Rightarrow> int64 \<Rightarrow> byte list \<Rightarrow> byte list \<Rightarrow> user_data" where
  "UserInfo_Data pid uid nicknumber nickname head_url =
     \<lparr>ud_platform_id = pid, ud_user_id = uid, ud_nicknumber = nicknumber, ud_socket = 0,
      ud_session = 0, ud_nickname = nickname, ud_head_url = head_url, ud_platform_token = [],
      ud_chat_token = []\<rparr>"

text \<open>No handler calls a setter of a \<^verbatim>\<open>GroupInfo\<close> or a \<^verbatim>\<open>PlatformInfo\<close>, so these are values.\<close>

record group_info =
  gi_platform_id :: int64
  gi_group_id :: int64
  gi_group_type :: int16
  gi_nicknumber :: int64
  gi_session :: int64
  gi_name :: "byte list"
  gi_head_url :: "byte list"

text \<open>The default constructor leaves the session unset.\<close>

definition default_group :: "int64 \<Rightarrow> group_info" where
  "default_group unset = \<lparr>gi_platform_id = 0, gi_group_id = 0, gi_group_type = 0, gi_nicknumber = 0,
     gi_session = unset, gi_name = [], gi_head_url = []\<rparr>"

record platform_info =
  pi_platform_id :: int64
  pi_platform_name :: "byte list"

type_synonym session_infos = "(int64, int64) stdmap"

record platform_cache =
  platform_info_of :: platform_info
  user_infos_map :: "(int64, user_info) stdmap"
  group_infos_map :: "(int64, group_info) stdmap"
  leave_infos_map :: "(int64, session_infos) stdmap"
  meeting_infos_map :: "(int64, session_infos) stdmap"
  confirm_message_map :: "(int64, user_info) stdmap"

section \<open>The world\<close>

text \<open>What leaves the server, in order: a packet handed to \<^verbatim>\<open>send\<close> with the bytes it was packed
  to and whether all of them went out; an SQL statement; a message for the push queue; a notice
  to the robot server.\<close>

datatype event =
    Sent int32 packet_head body "byte list" bool
  | Sql "byte list"
  | Pushed int64 int64 "byte list"
  | RobotNotice int32 int64 int64 int64

record world =
  platforms :: "(int64, platform_cache) stdmap"
  sockets :: "(int32, user_info) stdmap"
  robot_server_socket :: int32
  heap :: "user_data list"
  events :: "event list"
  draws :: nat
  ticks :: nat
  pushes :: nat
  sends :: nat
  queries :: nat
  crashed :: bool

type_synonym 'a chat_m = "(world, 'a) state"

text \<open>What the code relies on and does not contain.  A query returns no result when there is no
  connection, or when the statement fails, and otherwise its rows, a field being possibly
  \<^verbatim>\<open>NULL\<close>.  \<open>e_send n k\<close> is the result of the \<open>n\<close>-th call of \<^verbatim>\<open>send\<close>, on \<open>k\<close> bytes; \<open>e_junk\<close>
  what uninitialised memory holds.\<close>

datatype sql_result = NoEngine | ExecFailed | Rows "byte list option list list"

record tm =
  tm_year :: int
  tm_mon :: int
  tm_mday :: int
  tm_hour :: int
  tm_min :: int
  tm_sec :: int

record env =
  e_sql :: "nat \<Rightarrow> byte list \<Rightarrow> sql_result"
  e_random :: "nat \<Rightarrow> int64"
  e_time :: "nat \<Rightarrow> int64"
  e_localtime :: "int64 \<Rightarrow> tm"
  e_md5 :: "byte list \<Rightarrow> byte list"
  e_push_id :: "nat \<Rightarrow> int64 option"
  e_memcached :: "byte list \<Rightarrow> byte list option"
  e_send :: "nat \<Rightarrow> nat \<Rightarrow> int"
  e_distance :: "(byte list \<times> byte list) option \<Rightarrow> (byte list \<times> byte list) option \<Rightarrow> byte list"
  e_memory :: nat
  e_junk64 :: int64
  e_junk :: "nat \<Rightarrow> byte list"

section \<open>Users on the heap\<close>

definition new_user :: "user_data \<Rightarrow> user_info chat_m" where
  "new_user d = State (\<lambda>w. (length (heap w), w\<lparr>heap := heap w @ [d]\<rparr>))"

definition user_of :: "user_info \<Rightarrow> world \<Rightarrow> user_data" where
  "user_of h w = (if h < length (heap w) then heap w ! h else default_user)"

definition get_user :: "user_info \<Rightarrow> user_data chat_m" where
  "get_user h = State (\<lambda>w. (user_of h w, w))"

definition update_user :: "user_info \<Rightarrow> (user_data \<Rightarrow> user_data) \<Rightarrow> unit chat_m" where
  "update_user h f = State (\<lambda>w. ((), w\<lparr>heap := (heap w)[h := f (user_of h w)]\<rparr>))"

definition set_socket :: "user_info \<Rightarrow> int32 \<Rightarrow> unit chat_m" where
  "set_socket h s = update_user h (\<lambda>d. d\<lparr>ud_socket := s\<rparr>)"

definition set_session :: "user_info \<Rightarrow> int64 \<Rightarrow> unit chat_m" where
  "set_session h s = update_user h (\<lambda>d. d\<lparr>ud_session := s\<rparr>)"

definition set_platform_token :: "user_info \<Rightarrow> byte list \<Rightarrow> unit chat_m" where
  "set_platform_token h t = update_user h (\<lambda>d. d\<lparr>ud_platform_token := t\<rparr>)"

definition set_chat_token :: "user_info \<Rightarrow> byte list \<Rightarrow> unit chat_m" where
  "set_chat_token h t = update_user h (\<lambda>d. d\<lparr>ud_chat_token := t\<rparr>)"

section \<open>Clock, randomness and headers\<close>

definition emit :: "event \<Rightarrow> unit chat_m" where
  "emit e = State (\<lambda>w. ((), w\<lparr>events := events w @ [e]\<rparr>))"

definition time_now :: "env \<Rightarrow> int64 chat_m" where
  "time_now E = State (\<lambda>w. (e_time E (ticks w), w\<lparr>ticks := ticks w + 1\<rparr>))"

text \<open>\<^verbatim>\<open>SysRadom::GetRandomID\<close>: eight bytes of \<^verbatim>\<open>/dev/urandom\<close>, negated unless positive.\<close>

definition GetRandomID :: "env \<Rightarrow> int64 chat_m" where
  "GetRandomID E = State (\<lambda>w.
     let rd = e_random E (draws w)
     in (if 0 < sint rd then rd else - rd, w\<lparr>draws := draws w + 1\<rparr>))"

definition make_head_with ::
  "int32 \<Rightarrow> env \<Rightarrow> int32 \<Rightarrow> int16 \<Rightarrow> int8 \<Rightarrow> int32 \<Rightarrow> packet_head chat_m" where
  "make_head_with len E op type iz res = do {
     t \<leftarrow> time_now E;
     m \<leftarrow> GetRandomID E;
     State_Monad.return \<lparr>packet_length = len, operate_code = op, data_length = 0,
       current_time = ucast t, msg_type = type, is_zip = iz, msg_id = m, reserverd = res\<rparr>
   }"

definition MAKE_HEAD :: "env \<Rightarrow> int32 \<Rightarrow> int16 \<Rightarrow> int8 \<Rightarrow> int32 \<Rightarrow> packet_head chat_m" where
  "MAKE_HEAD = make_head_with 0"

definition MAKE_FAIL_HEAD :: "env \<Rightarrow> int32 \<Rightarrow> int16 \<Rightarrow> int8 \<Rightarrow> int32 \<Rightarrow> packet_head chat_m" where
  "MAKE_FAIL_HEAD = make_head_with PACKET_HEAD_LENGTH"

section \<open>Sending\<close>

text \<open>\<^verbatim>\<open>SafeStrncpy\<close> fills the array; a source as long as the array leaves it without a NUL.\<close>

definition SafeStrncpy :: "nat \<Rightarrow> byte list \<Rightarrow> byte list" where
  "SafeStrncpy dest_size src = take dest_size src @ replicate (dest_size - length src) 0"

text \<open>The loop of \<^verbatim>\<open>SendFull\<close>; the fuel bounds the number of calls of \<^verbatim>\<open>send\<close>, \<open>None\<close> is a loop
  still running.\<close>

definition kernel_send :: "env \<Rightarrow> nat \<Rightarrow> int chat_m" where
  "kernel_send E nbytes = State (\<lambda>w. (e_send E (sends w) nbytes, w\<lparr>sends := sends w + 1\<rparr>))"

fun SendFull :: "nat \<Rightarrow> env \<Rightarrow> nat \<Rightarrow> int \<Rightarrow> int option chat_m" where
  "SendFull 0 E nbytes tot = State_Monad.return None"
| "SendFull (Suc fuel) E nbytes tot = do {
     amt \<leftarrow> kernel_send E nbytes;
     if amt = -1 then State_Monad.return (Some (-1))
     else if 0 < int nbytes - amt then SendFull fuel E (nat (int nbytes - amt)) (tot + amt)
     else State_Monad.return (Some (tot + amt))
   }"

definition crash :: "unit chat_m" where
  "crash = State (\<lambda>w. ((), w\<lparr>crashed := True\<rparr>))"

text \<open>\<^verbatim>\<open>SendMessage\<close>: packs, dumps, sends.  An exception, a store outside a buffer and a loop
  that does not end are recorded as a crash.\<close>

definition SendMessage :: "env \<Rightarrow> int32 \<Rightarrow> packet_head \<Rightarrow> body \<Rightarrow> bool chat_m" where
  "SendMessage E socket h b =
     (if sint socket \<le> 0 then State_Monad.return False
      else case PackStream (e_memory E) h b of
        PackFailed len \<Rightarrow> State_Monad.return False
      | PackThrows \<Rightarrow> do { crash; State_Monad.return False }
      | BadCast \<Rightarrow> do { crash; State_Monad.return False }
      | Packed out len \<Rightarrow> do {
          (if dump_overrun (DumpPacket h b) \<or> out_fault out then crash else State_Monad.return ());
          ret \<leftarrow> SendFull (nat (sint len)) E (nat (sint len)) 0;
          (if ret = None then crash else State_Monad.return ());
          emit (Sent socket h b (out_buffer out) (ret = Some (sint len)));
          State_Monad.return (ret = Some (sint len)) })"

definition SendBytes :: "env \<Rightarrow> int32 \<Rightarrow> byte list option \<Rightarrow> int32 \<Rightarrow> bool chat_m" where
  "SendBytes E socket bytes len =
     (if sint socket \<le> 0 \<or> bytes = None \<or> sint len \<le> 0 then State_Monad.return False
      else do {
        ret \<leftarrow> SendFull (nat (sint len)) E (nat (sint len)) 0;
        State_Monad.return (ret = Some (sint len))
      })"

text \<open>The texts of \<^verbatim>\<open>migchat_strerror\<close> in UTF-8.\<close>

definition migchat_strerror :: "int32 \<Rightarrow> byte list" where
  "migchat_strerror error_code =
     (if error_code = 1 then [0xe7, 0x94, 0xa8, 0xe6, 0x88, 0xb7, 0xe4, 0xb8, 0x8d, 0xe5, 0xad,
        0x98, 0xe5, 0x9c, 0xa8]
      else if error_code = 2 then [0xe5, 0xaf, 0x86, 0xe7, 0xa0, 0x81, 0xe9, 0x94, 0x99, 0xe8,
        0xaf, 0xaf]
      else [0xe6, 0x9c, 0xaa, 0xe7, 0x9f, 0xa5])"

abbreviation MIG_CHAT_USER_NO_EXIST :: int32 where "MIG_CHAT_USER_NO_EXIST \<equiv> 1"
abbreviation MIG_CHAT_USER_PASSWORD_ERROR :: int32 where "MIG_CHAT_USER_PASSWORD_ERROR \<equiv> 2"

definition SendErrorCode ::
  "env \<Rightarrow> int32 \<Rightarrow> int32 \<Rightarrow> int16 \<Rightarrow> int8 \<Rightarrow> int32 \<Rightarrow> int32 \<Rightarrow> bool chat_m" where
  "SendErrorCode E socket op type iz session error_code = do {
     h \<leftarrow> MAKE_HEAD E op type iz session;
     SendMessage E socket h
       (Failed \<lparr>cf_platform_id = 10000, cf_error_msg = migchat_strerror error_code\<rparr>)
   }"

definition senderror :: "env \<Rightarrow> int32 \<Rightarrow> int32 \<Rightarrow> int8 \<Rightarrow> int32 \<Rightarrow> int32 \<Rightarrow> bool chat_m" where
  "senderror E socket op iz session error_code =
     SendErrorCode E socket op ERROR_TYPE iz session error_code"

section \<open>Well-formed states\<close>

text \<open>Every map is in order and every \<^verbatim>\<open>UserInfo\<close> in a map points to an allocated object.\<close>

definition handles_ok :: "nat \<Rightarrow> ('k \<times> user_info) list \<Rightarrow> bool" where
  "handles_ok n m \<longleftrightarrow> (\<forall>(k, h) \<in> set m. h < n)"

definition inner_sorted :: "('k \<times> session_infos) list \<Rightarrow> bool" where
  "inner_sorted ms \<longleftrightarrow> (\<forall>(k, m) \<in> set ms. map_sorted m)"

definition platform_ok :: "nat \<Rightarrow> platform_cache \<Rightarrow> bool" where
  "platform_ok n pc \<longleftrightarrow> map_sorted (user_infos_map pc) \<and> map_sorted (group_infos_map pc) \<and>
     map_sorted (leave_infos_map pc) \<and> map_sorted (meeting_infos_map pc) \<and>
     map_sorted (confirm_message_map pc) \<and>
     inner_sorted (leave_infos_map pc) \<and> inner_sorted (meeting_infos_map pc) \<and>
     handles_ok n (user_infos_map pc) \<and> handles_ok n (confirm_message_map pc)"

definition world_ok :: "world \<Rightarrow> bool" where
  "world_ok w \<longleftrightarrow> map_sorted (platforms w) \<and> map_sorted (sockets w) \<and>
     handles_ok (length (heap w)) (sockets w) \<and>
     (\<forall>(k, pc) \<in> set (platforms w). platform_ok (length (heap w)) pc)"

definition valid :: "user_info \<Rightarrow> world \<Rightarrow> bool" where
  "valid h w \<longleftrightarrow> h < length (heap w)"

text \<open>\<open>safe H m K\<close>: from a well-formed state in which the handles \<open>H\<close> are allocated, \<open>m\<close> ends
  in a well-formed state that frees no user, and the handles \<open>K a\<close> of its result \<open>a\<close> are
  allocated in it.\<close>

definition safe :: "user_info set \<Rightarrow> 'a chat_m \<Rightarrow> ('a \<Rightarrow> user_info set) \<Rightarrow> bool" where
  "safe H m K \<longleftrightarrow> (\<forall>w. world_ok w \<longrightarrow> (\<forall>h\<in>H. valid h w) \<longrightarrow>
     (case run_state m w of (a, w') \<Rightarrow>
        world_ok w' \<and> length (heap w) \<le> length (heap w') \<and> (\<forall>h\<in>K a. valid h w')))"

abbreviation no_handles :: "'a \<Rightarrow> user_info set" where "no_handles \<equiv> \<lambda>_. {}"

named_theorems safe_rules

lemma safe_bind:
  assumes "safe H m K" "\<And>a. safe (H \<union> K a) (f a) L"
  shows "safe H (m \<bind> f) L"
  unfolding safe_def
proof (intro allI impI)
  fix w assume w: "world_ok w" "\<forall>h\<in>H. valid h w"
  obtain a w' where m: "run_state m w = (a, w')" by force
  with assms(1) w have w': "world_ok w'" "length (heap w) \<le> length (heap w')" "\<forall>h\<in>K a. valid h w'"
    by (auto simp: safe_def)
  with w(2) have "\<forall>h\<in>H \<union> K a. valid h w'" by (auto simp: valid_def)
  with w' assms(2) [of a] m show "case run_state (m \<bind> f) w of (b, w'') \<Rightarrow>
      world_ok w'' \<and> length (heap w) \<le> length (heap w'') \<and> (\<forall>h\<in>L b. valid h w'')"
    by (fastforce simp: safe_def split: prod.splits)
qed

lemma safe_seq:
  "safe H m no_handles \<Longrightarrow> (\<And>a. safe H (f a) L) \<Longrightarrow> safe H (m \<bind> f) L"
  using safe_bind [of H m no_handles f L] by simp

lemma safe_return [safe_rules]: "K x \<subseteq> H \<Longrightarrow> safe H (State_Monad.return x) K"
  by (auto simp: safe_def)

lemma safe_if [safe_rules]:
  "(b \<Longrightarrow> safe H m K) \<Longrightarrow> (\<not> b \<Longrightarrow> safe H m' K) \<Longrightarrow> safe H (if b then m else m') K"
  by simp

lemma safe_option [safe_rules]:
  "(x = None \<Longrightarrow> safe H m K) \<Longrightarrow> (\<And>y. x = Some y \<Longrightarrow> safe H (f y) K) \<Longrightarrow>
     safe H (case x of None \<Rightarrow> m | Some y \<Rightarrow> f y) K"
  by (cases x) auto

lemma safe_drop: "safe H m K \<Longrightarrow> safe H m no_handles"
  by (fastforce simp: safe_def)

lemma world_ok_simps [simp]:
  "world_ok (w\<lparr>robot_server_socket := s\<rparr>) = world_ok w"
  "world_ok (w\<lparr>events := es\<rparr>) = world_ok w" "world_ok (w\<lparr>draws := n\<rparr>) = world_ok w"
  "world_ok (w\<lparr>ticks := n\<rparr>) = world_ok w" "world_ok (w\<lparr>pushes := n\<rparr>) = world_ok w"
  "world_ok (w\<lparr>sends := n\<rparr>) = world_ok w" "world_ok (w\<lparr>queries := n\<rparr>) = world_ok w"
  "world_ok (w\<lparr>crashed := c\<rparr>) = world_ok w"
  by (simp_all add: world_ok_def)

lemma handles_ok_mono: "handles_ok n m \<Longrightarrow> n \<le> k \<Longrightarrow> handles_ok k m"
  by (fastforce simp: handles_ok_def)

lemma platform_ok_mono: "platform_ok n pc \<Longrightarrow> n \<le> k \<Longrightarrow> platform_ok k pc"
  by (auto simp: platform_ok_def intro: handles_ok_mono)

lemma world_ok_grow: "world_ok w \<Longrightarrow> length (heap w) \<le> length us \<Longrightarrow> world_ok (w\<lparr>heap := us\<rparr>)"
  by (auto simp: world_ok_def intro: handles_ok_mono platform_ok_mono)

lemma safe_new_user [safe_rules]: "safe H (new_user d) (\<lambda>h. {h})"
  by (auto simp: safe_def new_user_def valid_def intro: world_ok_grow)

lemma safe_update_user [safe_rules]: "safe H (update_user h f) no_handles"
  by (auto simp: safe_def update_user_def intro: world_ok_grow)

lemma safe_setters [safe_rules]:
  "safe H (set_socket h s) no_handles" "safe H (set_session h k) no_handles"
  "safe H (set_platform_token h t) no_handles" "safe H (set_chat_token h t) no_handles"
  by (simp_all add: set_socket_def set_session_def set_platform_token_def set_chat_token_def
      safe_update_user)

lemma safe_simple [safe_rules]:
  "safe H (get_user h) no_handles" "safe H (emit e) no_handles" "safe H (time_now E) no_handles"
  "safe H (GetRandomID E) no_handles" "safe H crash no_handles"
  "safe H (kernel_send E n) no_handles"
  by (auto simp: safe_def kernel_send_def get_user_def emit_def time_now_def GetRandomID_def crash_def Let_def)

lemma safe_make_head [safe_rules]:
  "safe H (MAKE_HEAD E op t z r) no_handles" "safe H (MAKE_FAIL_HEAD E op t z r) no_handles"
  unfolding MAKE_HEAD_def MAKE_FAIL_HEAD_def make_head_with_def
  by (rule safe_bind, rule safe_rules, rule safe_bind, rule safe_rules, rule safe_rules, simp)+

lemma safe_SendFull [safe_rules]: "safe H (SendFull fuel E n t) no_handles"
proof (induction fuel arbitrary: n t)
  case (Suc fuel)
  then show ?case by (auto intro!: safe_bind safe_rules)
qed (simp add: safe_return)

lemma safe_SendMessage [safe_rules]: "safe H (SendMessage E s h b) no_handles"
  unfolding SendMessage_def
  by (cases "PackStream (e_memory E) h b")
    (auto intro!: safe_bind safe_rules)

lemma safe_senderror [safe_rules]: "safe H (senderror E s op z n c) no_handles"
  unfolding senderror_def SendErrorCode_def
  by (rule safe_bind, rule safe_rules, rule safe_rules)

section \<open>SendFull\<close>

text \<open>The documented behaviour of \<^verbatim>\<open>send\<close> on a positive number of bytes.\<close>

definition send_law :: "env \<Rightarrow> bool" where
  "send_law E \<longleftrightarrow> (\<forall>i n. 0 < n \<longrightarrow> e_send E i n = -1 \<or> (0 < e_send E i n \<and> e_send E i n \<le> int n))"

lemma SendFull_enough_fuel:
  assumes "send_law E"
  shows "0 < n \<Longrightarrow> n \<le> fuel \<Longrightarrow>
    fst (run_state (SendFull fuel E n t) w) \<in> {Some (-1), Some (t + int n)}"
proof (induction fuel arbitrary: n t w)
  case (Suc fuel)
  define amt where "amt = e_send E (sends w) n"
  have law: "amt = -1 \<or> (0 < amt \<and> amt \<le> int n)"
    using assms Suc.prems(1) by (simp add: send_law_def amt_def)
  show ?case
  proof (cases "amt \<noteq> -1 \<and> amt < int n")
    case True
    with law have "0 < nat (int n - amt)" "nat (int n - amt) \<le> fuel"
      "t + amt + int (nat (int n - amt)) = t + int n"
      using Suc.prems(2) by auto
    from Suc.IH [OF this(1,2), of "t + amt" "w\<lparr>sends := sends w + 1\<rparr>"] this(3) True
    show ?thesis by (simp add: kernel_send_def flip: amt_def)
  next
    case False
    with law show ?thesis by (auto simp: kernel_send_def simp flip: amt_def)
  qed
qed simp

text \<open>C40: Whenever send reports an error or accepts between one byte and all of them, the loop of
  SendFull ends after at most as many calls as there are bytes, returning their number or -1.\<close>

theorem SendFull_returns:
  assumes "send_law E" and "0 < n"
  shows "fst (run_state (SendFull n E n 0) w) = Some (int n) \<or>
    fst (run_state (SendFull n E n 0) w) = Some (-1)"
  using SendFull_enough_fuel [OF assms order_refl, of 0 w] by auto

definition byte_at_a_time :: env where
  "byte_at_a_time = \<lparr>e_sql = (\<lambda>n s. NoEngine), e_random = (\<lambda>n. 5), e_time = (\<lambda>n. 0),
     e_localtime = (\<lambda>t. \<lparr>tm_year = 114, tm_mon = 0, tm_mday = 1, tm_hour = 0, tm_min = 0, tm_sec = 0\<rparr>),
     e_md5 = (\<lambda>s. s), e_push_id = (\<lambda>n. Some (of_nat n)), e_memcached = (\<lambda>k. None), e_send = (\<lambda>i n. 1),
     e_distance = (\<lambda>a b. []), e_memory = 100000, e_junk64 = 0, e_junk = (\<lambda>n. replicate n 0)\<rparr>"

definition empty_world :: world where
  "empty_world = \<lparr>platforms = [], sockets = [], robot_server_socket = 0, heap = [], events = [],
     draws = 0, ticks = 0, pushes = 0, sends = 0, queries = 0, crashed = False\<rparr>"

theorem SendFull_returns_witness:
  "fst (run_state (SendFull 3 byte_at_a_time 3 0) empty_world) \<in> {Some 3, Some (-1)}"
  using SendFull_returns [of byte_at_a_time 3 empty_world]
  by (simp add: send_law_def byte_at_a_time_def)

lemma send_law_byte_at_a_time [simp]: "send_law byte_at_a_time"
  by (simp add: send_law_def byte_at_a_time_def)

lemma world_ok_empty [simp]: "world_ok empty_world"
  by (simp add: world_ok_def empty_world_def handles_ok_def)

end
