(* ===== verification/ChatCache.thy ===== *)
theory ChatCache
  imports ChatWorld
begin

text \<open>
  \<^verbatim>\<open>PlatformChatCacheManager\<close> and \<^verbatim>\<open>CacheManagerOp\<close> of
  \<^verbatim>\<open>src/server/chat/chat/chat_cache_manager.{h,cc}\<close>: the per-platform maps of users, groups,
  leave sessions, meetings and pending confirmations, and the map from sockets to users.  Each
  operation is one critical section of the lock, hence one computation.  Lookups go through the
  \<^verbatim>\<open>MapGet\<close> with an \<^verbatim>\<open>int\<close> key wherever overload resolution selects it.
\<close>

section \<open>Access to a platform\<close>

definition GetPlatformCache :: "int64 \<Rightarrow> world \<Rightarrow> platform_cache option" where
  "GetPlatformCache pid w = map_find (platforms w) pid"

definition put_platform :: "int64 \<Rightarrow> platform_cache \<Rightarrow> world \<Rightarrow> world" where
  "put_platform pid pc w = w\<lparr>platforms := map_set pid pc (platforms w)\<rparr>"

text \<open>The frame of an operation: \<open>d\<close> is what it returns for an unknown platform, \<open>f\<close> what it does
  to the cache.\<close>

definition with_platform :: "int64 \<Rightarrow> 'a \<Rightarrow> (platform_cache \<Rightarrow> 'a \<times> platform_cache) \<Rightarrow> 'a chat_m" where
  "with_platform pid d f = State (\<lambda>w. case GetPlatformCache pid w of
       None \<Rightarrow> (d, w)
     | Some pc \<Rightarrow> (case f pc of (a, pc') \<Rightarrow> (a, put_platform pid pc' w)))"

definition empty_cache :: platform_cache where
  "empty_cache = \<lparr>platform_info_of = \<lparr>pi_platform_id = 0, pi_platform_name = []\<rparr>,
     user_infos_map = [], group_infos_map = [], leave_infos_map = [], meeting_infos_map = [],
     confirm_message_map = []\<rparr>"

section \<open>Operations on the maps\<close>

definition SetPlatformInfo :: "int64 \<Rightarrow> platform_info \<Rightarrow> unit chat_m" where
  "SetPlatformInfo pid info = State (\<lambda>w.
     let pc = (case GetPlatformCache pid w of None \<Rightarrow> empty_cache | Some pc \<Rightarrow> pc)
     in ((), put_platform pid (pc\<lparr>platform_info_of := info\<rparr>) w))"

definition GetPlatformInfo :: "int64 \<Rightarrow> platform_info option chat_m" where
  "GetPlatformInfo pid = with_platform pid None (\<lambda>pc. (Some (platform_info_of pc), pc))"

definition AddConfirmMessage :: "int64 \<Rightarrow> int64 \<Rightarrow> user_info \<Rightarrow> bool chat_m" where
  "AddConfirmMessage pid mid user = with_platform pid False (\<lambda>pc.
     case MapAdd (confirm_message_map pc) mid user of
       (r, m) \<Rightarrow> (r, pc\<lparr>confirm_message_map := m\<rparr>))"

definition DelConfirmMessage :: "int64 \<Rightarrow> int64 \<Rightarrow> bool chat_m" where
  "DelConfirmMessage pid mid = with_platform pid False (\<lambda>pc.
     case MapDel (confirm_message_map pc) mid of
       (r, m) \<Rightarrow> (r, pc\<lparr>confirm_message_map := m\<rparr>))"

definition AddGroupInfos :: "int64 \<Rightarrow> int64 \<Rightarrow> group_info \<Rightarrow> bool chat_m" where
  "AddGroupInfos pid gid g = with_platform pid False (\<lambda>pc.
     case MapAdd (group_infos_map pc) gid g of (r, m) \<Rightarrow> (r, pc\<lparr>group_infos_map := m\<rparr>))"

definition GetGroupInfos :: "int64 \<Rightarrow> int64 \<Rightarrow> group_info option chat_m" where
  "GetGroupInfos pid gid = with_platform pid None (\<lambda>pc.
     (MapGet (group_infos_map pc) (to_int gid), pc))"

definition DelGroupInfos :: "int64 \<Rightarrow> int64 \<Rightarrow> bool chat_m" where
  "DelGroupInfos pid gid = with_platform pid False (\<lambda>pc.
     case MapDel (group_infos_map pc) gid of (r, m) \<Rightarrow> (r, pc\<lparr>group_infos_map := m\<rparr>))"

definition AddUserInfos :: "int64 \<Rightarrow> int64 \<Rightarrow> user_info \<Rightarrow> bool chat_m" where
  "AddUserInfos pid uid user = with_platform pid False (\<lambda>pc.
     case MapAdd (user_infos_map pc) uid user of (r, m) \<Rightarrow> (r, pc\<lparr>user_infos_map := m\<rparr>))"

definition GetUserInfos :: "int64 \<Rightarrow> int64 \<Rightarrow> user_info option chat_m" where
  "GetUserInfos pid uid = with_platform pid None (\<lambda>pc.
     (MapGet (user_infos_map pc) (to_int uid), pc))"

definition DelUserInos :: "int64 \<Rightarrow> int64 \<Rightarrow> bool chat_m" where
  "DelUserInos pid uid = with_platform pid False (\<lambda>pc.
     case MapDel (user_infos_map pc) uid of (r, m) \<Rightarrow> (r, pc\<lparr>user_infos_map := m\<rparr>))"

definition CheckMeetingInfos :: "int64 \<Rightarrow> int64 \<Rightarrow> int64 \<Rightarrow> bool chat_m" where
  "CheckMeetingInfos pid session uid = with_platform pid False (\<lambda>pc.
     (case MapGet (meeting_infos_map pc) (to_int session) of
        None \<Rightarrow> False
      | Some meeting \<Rightarrow> MapGetKey meeting uid \<noteq> None, pc))"

text \<open>Joining a meeting: the members found (none if the lookup fails) and the newcomer are stored
  under the session.\<close>

definition JoinMeeting :: "int64 \<Rightarrow> int64 \<Rightarrow> int64 \<Rightarrow> bool chat_m" where
  "JoinMeeting pid session uid = with_platform pid False (\<lambda>pc.
     let meeting = (case MapGet (meeting_infos_map pc) (to_int session) of None \<Rightarrow> [] | Some m \<Rightarrow> m)
     in case MapAdd (meeting_infos_map pc) session (map_set uid uid meeting) of
          (r, m) \<Rightarrow> (r, pc\<lparr>meeting_infos_map := m\<rparr>))"

definition AddMeetingInfos :: "int64 \<Rightarrow> int64 \<Rightarrow> int64 \<Rightarrow> int64 \<Rightarrow> bool chat_m" where
  "AddMeetingInfos pid session tid mid = with_platform pid False (\<lambda>pc.
     case MapAdd (meeting_infos_map pc) session (map_set mid mid (map_set tid tid [])) of
       (r, m) \<Rightarrow> (r, pc\<lparr>meeting_infos_map := m\<rparr>))"

text \<open>The last key of a two-member meeting that is not \<open>uid\<close>, 0 if there is none.\<close>

definition other_member :: "session_infos \<Rightarrow> int64 \<Rightarrow> int64" where
  "other_member meeting uid = fold (\<lambda>(k, v) tid. if k \<noteq> uid then k else tid) meeting 0"

text \<open>With more than two members the erase works on the local copy.  The function runs off its
  end; no caller uses its value.\<close>

definition DelMeetingInfos :: "int64 \<Rightarrow> int64 \<Rightarrow> int64 \<Rightarrow> unit chat_m" where
  "DelMeetingInfos pid session uid = with_platform pid () (\<lambda>pc.
     let meeting = (case MapGetKey (meeting_infos_map pc) session of None \<Rightarrow> [] | Some m \<Rightarrow> m)
     in if 2 < length meeting then ((), pc)
        else if length meeting = 2 then
          ((), pc\<lparr>meeting_infos_map := snd (MapDel (meeting_infos_map pc) session),
                  leave_infos_map := snd (MapAdd (leave_infos_map pc) uid
                    (map_set (other_member meeting uid) session []))\<rparr>)
        else ((), pc\<lparr>leave_infos_map := snd (MapDel (leave_infos_map pc) uid)\<rparr>))"

definition AddLeaveInfos :: "int64 \<Rightarrow> int64 \<Rightarrow> int64 \<Rightarrow> int64 \<Rightarrow> bool chat_m" where
  "AddLeaveInfos pid session tid mid = with_platform pid False (\<lambda>pc.
     let infos = (case MapGet (leave_infos_map pc) (to_int tid) of None \<Rightarrow> [] | Some m \<Rightarrow> m)
     in case MapAdd (leave_infos_map pc) tid (map_set mid session infos) of
          (r, m) \<Rightarrow> (r, pc\<lparr>leave_infos_map := m\<rparr>))"

definition IsExitsLeaveInfos :: "int64 \<Rightarrow> int64 \<Rightarrow> int64 \<Rightarrow> int64 option chat_m" where
  "IsExitsLeaveInfos pid tid mid = with_platform pid None (\<lambda>pc.
     (case MapGet (leave_infos_map pc) (to_int mid) of
        None \<Rightarrow> None
      | Some infos \<Rightarrow> MapGetKey infos tid, pc))"

definition ClearLeaveInfos :: "int64 \<Rightarrow> int64 \<Rightarrow> bool chat_m" where
  "ClearLeaveInfos pid tid = with_platform pid False (\<lambda>pc.
     case MapDel (leave_infos_map pc) tid of (r, m) \<Rightarrow> (r, pc\<lparr>leave_infos_map := m\<rparr>))"

definition DelLeaveInfos :: "int64 \<Rightarrow> int64 \<Rightarrow> int64 \<Rightarrow> bool chat_m" where
  "DelLeaveInfos pid tid mid = with_platform pid False (\<lambda>pc.
     case MapGet (leave_infos_map pc) (to_int tid) of
       None \<Rightarrow> (False, pc)
     | Some infos \<Rightarrow>
        (let infos' = snd (MapDel infos mid);
             (r, m) = (if 0 < length infos' then MapAdd (leave_infos_map pc) tid infos'
                       else MapDel (leave_infos_map pc) tid)
         in (r, pc\<lparr>leave_infos_map := m\<rparr>)))"

section \<open>Sockets\<close>

definition AddSocket :: "int32 \<Rightarrow> user_info \<Rightarrow> bool chat_m" where
  "AddSocket socket user = State (\<lambda>w.
     case MapAdd (sockets w) socket user of (r, m) \<Rightarrow> (r, w\<lparr>sockets := m\<rparr>))"

definition GetSocket :: "int32 \<Rightarrow> user_info option chat_m" where
  "GetSocket socket = State (\<lambda>w. (MapGetKey (sockets w) socket, w))"

definition DelSocket :: "int32 \<Rightarrow> bool chat_m" where
  "DelSocket socket = State (\<lambda>w.
     case MapDel (sockets w) socket of (r, m) \<Rightarrow> (r, w\<lparr>sockets := m\<rparr>))"

definition SetRobotServerSocket :: "int32 \<Rightarrow> unit chat_m" where
  "SetRobotServerSocket socket = State (\<lambda>w. ((), w\<lparr>robot_server_socket := socket\<rparr>))"

text \<open>\<^verbatim>\<open>NoticeRobotLogin\<close> (\<^verbatim>\<open>src/server/robot/intertface/robot_interface.cc\<close>) sends nothing
  without a robot server or for an id below ten millions.\<close>

definition NoticeRobotChatLogin :: "int64 \<Rightarrow> int64 \<Rightarrow> int64 \<Rightarrow> bool chat_m" where
  "NoticeRobotChatLogin pid uid robotid = do {
     w \<leftarrow> State_Monad.get;
     (if sint (robot_server_socket w) \<le> 0 \<or> sint robotid < 10000000 then State_Monad.return ()
      else emit (RobotNotice (robot_server_socket w) pid uid robotid));
     State_Monad.return True
   }"

section \<open>Sending to a meeting\<close>

text \<open>The loop over the members of a meeting; \<^verbatim>\<open>int id = it->first\<close> cuts the key, and the user is
  looked up under it.\<close>

primrec send_members ::
  "env \<Rightarrow> platform_cache \<Rightarrow> (user_data \<Rightarrow> bool) \<Rightarrow> packet_head \<Rightarrow> body \<Rightarrow> session_infos \<Rightarrow> unit chat_m"
where
  "send_members E pc wanted h b [] = State_Monad.return ()"
| "send_members E pc wanted h b (kv # m) = do {
     (case MapGet (user_infos_map pc) (to_int (fst kv)) of
        None \<Rightarrow> State_Monad.return ()
      | Some user \<Rightarrow> do {
          d \<leftarrow> get_user user;
          (if wanted d then do { r \<leftarrow> SendMessage E (ud_socket d) h b; State_Monad.return () }
           else State_Monad.return ()) });
     send_members E pc wanted h b m
   }"

definition send_meeting ::
  "env \<Rightarrow> int64 \<Rightarrow> int64 \<Rightarrow> (user_data \<Rightarrow> bool) \<Rightarrow> packet_head \<Rightarrow> body \<Rightarrow> bool chat_m" where
  "send_meeting E pid session wanted h b = do {
     w \<leftarrow> State_Monad.get;
     case GetPlatformCache pid w of
       None \<Rightarrow> State_Monad.return False
     | Some pc \<Rightarrow> do {
         send_members E pc wanted h b
           (case MapGet (meeting_infos_map pc) (to_int session) of None \<Rightarrow> [] | Some m \<Rightarrow> m);
         State_Monad.return True }
   }"

definition SendMeetingNotSelf ::
  "env \<Rightarrow> int64 \<Rightarrow> int64 \<Rightarrow> int64 \<Rightarrow> int64 \<Rightarrow> packet_head \<Rightarrow> body \<Rightarrow> bool chat_m" where
  "SendMeetingNotSelf E pid gid send_id session h b =
     send_meeting E pid session (\<lambda>d. ud_user_id d \<noteq> send_id) h b"

definition SendMeetingMessage ::
  "env \<Rightarrow> int64 \<Rightarrow> int64 \<Rightarrow> int64 \<Rightarrow> packet_head \<Rightarrow> body \<Rightarrow> bool chat_m" where
  "SendMeetingMessage E pid gid session h b = send_meeting E pid session (\<lambda>d. True) h b"

text \<open>The packet is a \<^verbatim>\<open>UserQuit\<close> whose session and token stay uninitialised, sent with the
  operation code of the notification.\<close>

definition SendQuitInfoSession :: "env \<Rightarrow> int64 \<Rightarrow> int64 \<Rightarrow> int32 \<Rightarrow> bool chat_m" where
  "SendQuitInfoSession E pid session uid = do {
     h \<leftarrow> MAKE_HEAD E USER_NOTIFICATION_QUIT USER_TYPE 0 0;
     SendMeetingNotSelf E pid session (to_int64 uid) session h
       (Quit \<lparr>uq_platform_id = pid, uq_user_id = to_int64 uid, uq_session = e_junk64 E,
              uq_token = e_junk E TOKEN_LEN\<rparr>)
   }"

definition make_oppinfo :: "user_data \<Rightarrow> oppinfo" where
  "make_oppinfo d = \<lparr>oi_user_id = ud_user_id d, oi_user_nicknumber = ud_nicknumber d,
     oi_nickname = SafeStrncpy NICKNAME_LEN (ud_nickname d),
     oi_user_head = SafeStrncpy HEAD_URL_LEN (ud_head_url d)\<rparr>"

definition group_list ::
  "int64 \<Rightarrow> int64 \<Rightarrow> (int64 \<Rightarrow> bool) \<Rightarrow> world \<Rightarrow> oppinfo list option" where
  "group_list pid session wanted w =
     (case GetPlatformCache pid w of
        None \<Rightarrow> None
      | Some pc \<Rightarrow> (case MapGet (meeting_infos_map pc) (to_int session) of
          None \<Rightarrow> None
        | Some meeting \<Rightarrow> Some (List.map_filter
            (\<lambda>(k, uid). if wanted uid
               then map_option (\<lambda>user. make_oppinfo (user_of user w))
                      (MapGet (user_infos_map pc) (to_int uid))
               else None) meeting)))"

definition GetGroupListUserInfoNotSelf ::
  "int64 \<Rightarrow> int64 \<Rightarrow> int64 \<Rightarrow> int64 \<Rightarrow> oppinfo list option chat_m" where
  "GetGroupListUserInfoNotSelf pid gid send_id session =
     State (\<lambda>w. (group_list pid session (\<lambda>uid. uid \<noteq> send_id) w, w))"

definition GetGroupListUserInfo :: "int64 \<Rightarrow> int64 \<Rightarrow> int64 \<Rightarrow> oppinfo list option chat_m" where
  "GetGroupListUserInfo pid gid session = State (\<lambda>w. (group_list pid session (\<lambda>uid. True) w, w))"

section \<open>The operations keep the state well-formed\<close>

lemma safe_with_platform:
  assumes "\<And>n pc a pc'. platform_ok n pc \<Longrightarrow> \<forall>h\<in>H. h < n \<Longrightarrow> f pc = (a, pc') \<Longrightarrow>
      platform_ok n pc' \<and> (\<forall>h\<in>K a. h < n)"
    and "K d = {}"
  shows "safe H (with_platform pid d f) K"
proof -
  have "world_ok (put_platform pid pc' w) \<and> (\<forall>h\<in>K a. valid h w)"
    if w: "world_ok w" "\<forall>h\<in>H. valid h w" and pc: "GetPlatformCache pid w = Some pc" "f pc = (a, pc')"
    for w pc a pc'
  proof -
    have "platform_ok (length (heap w)) pc"
      using w(1) pc(1) by (fastforce simp: GetPlatformCache_def world_ok_def dest: map_find_in_set)
    from assms(1) [OF this _ pc(2)] w(2)
    have ok: "platform_ok (length (heap w)) pc'" "\<forall>h\<in>K a. valid h w" by (auto simp: valid_def)
    with w(1) set_map_set [of pid pc' "platforms w"] show ?thesis
      by (auto simp: world_ok_def put_platform_def)
  qed
  then show ?thesis using assms(2)
    by (fastforce simp: safe_def with_platform_def put_platform_def valid_def
        split: option.splits prod.splits)
qed

lemma handles_ok_update [simp]:
  "handles_ok n m \<Longrightarrow> h < n \<Longrightarrow> handles_ok n (map_set k h m)"
  "handles_ok n m \<Longrightarrow> handles_ok n (map_erase k m)"
  using set_map_set [of k h m] set_map_erase [of k m] by (auto simp: handles_ok_def)

lemma inner_sorted_update [simp]:
  "inner_sorted ms \<Longrightarrow> map_sorted m \<Longrightarrow> inner_sorted (map_set k m ms)"
  "inner_sorted ms \<Longrightarrow> inner_sorted (map_erase k ms)"
  using set_map_set [of k m ms] set_map_erase [of k ms] by (auto simp: inner_sorted_def)

lemma MapGet_sorted: "inner_sorted ms \<Longrightarrow> MapGet ms i = Some m \<Longrightarrow> map_sorted m"
  by (fastforce simp: MapGet_def inner_sorted_def dest: map_find_in_set)

lemma MapGet_valid: "handles_ok n m \<Longrightarrow> MapGet m i = Some h \<Longrightarrow> h < n"
  by (fastforce simp: MapGet_def handles_ok_def dest: map_find_in_set)

lemmas platform_simps = platform_ok_def MapAdd_def MapDel_eq Let_def

lemma safe_lookups [safe_rules]:
  "safe H (GetPlatformInfo pid) no_handles" "safe H (GetGroupInfos pid gid) no_handles"
  "safe H (GetUserInfos pid uid) set_option" "safe H (CheckMeetingInfos pid s uid) no_handles"
  "safe H (IsExitsLeaveInfos pid t m) no_handles"
  unfolding GetPlatformInfo_def GetGroupInfos_def GetUserInfos_def CheckMeetingInfos_def
    IsExitsLeaveInfos_def
  by (rule safe_with_platform; auto simp: platform_ok_def dest: MapGet_valid)+

lemma safe_map_add [safe_rules]:
  "h \<in> H \<Longrightarrow> safe H (AddConfirmMessage pid k h) no_handles"
  "h \<in> H \<Longrightarrow> safe H (AddUserInfos pid k h) no_handles"
  "safe H (AddGroupInfos pid k g) no_handles"
  unfolding AddConfirmMessage_def AddUserInfos_def AddGroupInfos_def
  by (rule safe_with_platform; auto simp: platform_simps)+

lemma safe_map_del [safe_rules]:
  "safe H (DelConfirmMessage pid k) no_handles" "safe H (DelUserInos pid k) no_handles"
  "safe H (DelGroupInfos pid k) no_handles" "safe H (ClearLeaveInfos pid k) no_handles"
  unfolding DelConfirmMessage_def DelUserInos_def DelGroupInfos_def ClearLeaveInfos_def
  by (rule safe_with_platform; auto simp: platform_simps)+

lemma map_sorted_found: "inner_sorted ms \<Longrightarrow>
  map_sorted (case MapGet ms i of None \<Rightarrow> [] | Some m \<Rightarrow> m)"
  by (auto split: option.split dest: MapGet_sorted)

lemma safe_meetings [safe_rules]:
  "safe H (JoinMeeting pid s uid) no_handles" "safe H (AddMeetingInfos pid s t m) no_handles"
  "safe H (DelMeetingInfos pid s uid) no_handles" "safe H (AddLeaveInfos pid s t m) no_handles"
  unfolding JoinMeeting_def AddMeetingInfos_def DelMeetingInfos_def AddLeaveInfos_def
  by (rule safe_with_platform; auto simp: platform_simps map_sorted_found simp del: map_set.simps
      split: if_splits)+

lemma safe_DelLeaveInfos [safe_rules]: "safe H (DelLeaveInfos pid t m) no_handles"
  unfolding DelLeaveInfos_def
  by (rule safe_with_platform)
    (auto simp: platform_simps dest: MapGet_sorted [rotated] split: option.splits if_splits)

lemma safe_sockets [safe_rules]:
  "h \<in> H \<Longrightarrow> safe H (AddSocket s h) no_handles" "safe H (DelSocket s) no_handles"
  "safe H (GetSocket s) set_option" "safe H (SetRobotServerSocket s) no_handles"
  unfolding AddSocket_def DelSocket_def GetSocket_def SetRobotServerSocket_def safe_def
  by (auto simp: world_ok_def MapAdd_def MapDel_eq MapGetKey_def valid_def handles_ok_def
      dest: map_find_in_set subsetD [OF set_map_set] subsetD [OF set_map_erase])

lemma safe_get [safe_rules]: "safe H State_Monad.get no_handles"
  by (simp add: safe_def)

lemma safe_NoticeRobotChatLogin [safe_rules]: "safe H (NoticeRobotChatLogin p u r) no_handles"
  unfolding NoticeRobotChatLogin_def by (auto intro!: safe_seq safe_rules)

lemma safe_send_members [safe_rules]: "safe H (send_members E pc wanted h b m) no_handles"
  by (induction m arbitrary: H) (auto intro!: safe_seq safe_rules)

lemma safe_send_meeting [safe_rules]:
  "safe H (SendMeetingNotSelf E p g u s h b) no_handles"
  "safe H (SendMeetingMessage E p g s h b) no_handles"
  "safe H (SendQuitInfoSession E p s i) no_handles"
  unfolding SendMeetingNotSelf_def SendMeetingMessage_def SendQuitInfoSession_def send_meeting_def
  by (auto intro!: safe_seq safe_rules)

lemma safe_group_lists [safe_rules]:
  "safe H (GetGroupListUserInfoNotSelf p g u s) no_handles"
  "safe H (GetGroupListUserInfo p g s) no_handles"
  by (simp_all add: GetGroupListUserInfoNotSelf_def GetGroupListUserInfo_def safe_def)

end
