(* ===== verification/ChatStore.thy ===== *)
theory ChatStore
  imports ChatCache
begin

text \<open>
  What the handlers read from and write to the stores:
  \<^verbatim>\<open>src/server/chat/chat/db_comm.cc\<close> (the SQL texts and what is made of the rows),
  \<^verbatim>\<open>logic_unit.cc\<close> (tokens, the summary of a message, times) and the message identifiers of
  \<^verbatim>\<open>dic_comm.cc\<close>.  The database, the message counter, MD5 and the geographic distance are
  parameters.
\<close>

section \<open>Queries\<close>

text \<open>Statements go through \<^verbatim>\<open>sql.c_str()\<close>, so a NUL byte ends them; without a connection
  nothing is sent.\<close>

definition run_sql :: "env \<Rightarrow> byte list \<Rightarrow> sql_result chat_m" where
  "run_sql E sql = State (\<lambda>w.
     let r = e_sql E (queries w) (c_string sql); w' = w\<lparr>queries := queries w + 1\<rparr>
     in (r, if r = NoEngine then w' else w'\<lparr>events := events w' @ [Sql (c_string sql)]\<rparr>))"

definition column :: "byte list option list \<Rightarrow> nat \<Rightarrow> byte list option" where
  "column row i = (if i < length row then row ! i else None)"

definition comma :: "byte list" where "comma = ascii '',''"
definition quoted :: "byte list \<Rightarrow> byte list" where "quoted s = 39 # s @ [39]"

section \<open>db_comm.cc\<close>

definition sql_get_user_info :: "int64 \<Rightarrow> int64 \<Rightarrow> byte list" where
  "sql_get_user_info pid uid = ascii ''call proc_ChatGetUserInfo('' @ decimal (sint pid) @ comma @
     decimal (sint uid) @ ascii '');''"

text \<open>One row of the result: \<^verbatim>\<open>atoll(NULL)\<close> and a \<^verbatim>\<open>std::string\<close> made of \<^verbatim>\<open>NULL\<close> end the server.\<close>

definition user_of_row :: "int64 \<Rightarrow> int64 \<Rightarrow> byte list option list \<Rightarrow> user_data option" where
  "user_of_row pid uid row = (case (column row 0, column row 1, column row 2) of
       (Some nicknumber, Some nickname, Some head_url) \<Rightarrow>
          Some (UserInfo_Data pid uid (atoll nicknumber) nickname head_url)
     | _ \<Rightarrow> None)"

primrec fetch_users ::
  "int64 \<Rightarrow> int64 \<Rightarrow> byte list option list list \<Rightarrow> user_info \<Rightarrow> user_info chat_m" where
  "fetch_users pid uid [] userinfo = State_Monad.return userinfo"
| "fetch_users pid uid (row # rows) userinfo =
     (case user_of_row pid uid row of
        None \<Rightarrow> do { crash; State_Monad.return userinfo }
      | Some d \<Rightarrow> do { h \<leftarrow> new_user d; fetch_users pid uid rows h })"

text \<open>\<^verbatim>\<open>DBComm::GetUserInfo\<close>, and \<^verbatim>\<open>LogicUnit::GetUserInfo\<close> which only calls it; the argument is
  what the output parameter held before, the result what it holds after.\<close>

definition DBComm_GetUserInfo ::
  "env \<Rightarrow> int64 \<Rightarrow> int64 \<Rightarrow> user_info \<Rightarrow> (bool \<times> user_info) chat_m" where
  "DBComm_GetUserInfo E pid uid userinfo = do {
     r \<leftarrow> run_sql E (sql_get_user_info pid uid);
     case r of
       Rows rows \<Rightarrow>
         (if rows = [] then State_Monad.return (False, userinfo)
          else do { h \<leftarrow> fetch_users pid uid rows userinfo; State_Monad.return (True, h) })
     | _ \<Rightarrow> State_Monad.return (False, userinfo)
   }"

definition GetUserInfo ::
  "env \<Rightarrow> int64 \<Rightarrow> int64 \<Rightarrow> user_info \<Rightarrow> (bool \<times> user_info) chat_m" where
  "GetUserInfo E pid uid userinfo = DBComm_GetUserInfo E pid uid userinfo"

definition sql_user_lbs_pos :: "int64 \<Rightarrow> byte list" where
  "sql_user_lbs_pos uid = ascii ''call proc_GetLbsAboutInfos('' @ decimal (sint uid) @ ascii '');''"

primrec fetch_pos ::
  "byte list option list list \<Rightarrow> (byte list \<times> byte list) option \<Rightarrow>
     (byte list \<times> byte list) option chat_m" where
  "fetch_pos [] pos = State_Monad.return pos"
| "fetch_pos (row # rows) pos = (case (column row 4, column row 5) of
       (Some latitude, Some longitude) \<Rightarrow> fetch_pos rows (Some (latitude, longitude))
     | _ \<Rightarrow> do { crash; State_Monad.return pos })"

text \<open>The position as the texts of its two numbers; \<open>None\<close> is the position 0, 0 the caller puts
  in when the query fails.\<close>

definition GetUserLBSPos :: "env \<Rightarrow> int64 \<Rightarrow> (byte list \<times> byte list) option chat_m" where
  "GetUserLBSPos E uid = do {
     r \<leftarrow> run_sql E (sql_user_lbs_pos uid);
     case r of Rows rows \<Rightarrow> fetch_pos rows None | _ \<Rightarrow> State_Monad.return None
   }"

definition sql_message_list ::
  "int32 \<Rightarrow> int64 \<Rightarrow> int64 \<Rightarrow> byte list \<Rightarrow> byte list \<Rightarrow> byte list" where
  "sql_message_list type send_uid to_uid s_distance message =
     ascii ''call proc_RecordMessageList('' @ decimal (sint type) @ comma @ quoted message @ comma @
     decimal (sint send_uid) @ comma @ decimal (sint to_uid) @ comma @ quoted (ascii ''0'') @ comma @
     quoted s_distance @ ascii '')''"

definition sql_succeeds :: "sql_result \<Rightarrow> bool" where
  "sql_succeeds r = (case r of Rows _ \<Rightarrow> True | _ \<Rightarrow> False)"

definition RecordUserMessageList ::
  "env \<Rightarrow> int32 \<Rightarrow> int64 \<Rightarrow> int64 \<Rightarrow> byte list \<Rightarrow> byte list \<Rightarrow> bool chat_m" where
  "RecordUserMessageList E type send_uid to_uid s_distance message = do {
     r \<leftarrow> run_sql E (sql_message_list type send_uid to_uid (take 255 s_distance) message);
     State_Monad.return (sql_succeeds r)
   }"

record message_infos =
  mi_platform :: int64
  mi_msgid :: int64
  mi_fid :: int64
  mi_oppid :: int64
  mi_type :: int32
  mi_nickname :: "byte list"
  mi_message :: "byte list"
  mi_lasttime :: "byte list"
  mi_head :: "byte list"

abbreviation ALONE_CHAT :: int32 where "ALONE_CHAT \<equiv> 1"
abbreviation TEMP_GROUP_CHAT :: int32 where "TEMP_GROUP_CHAT \<equiv> 2"
abbreviation DIMENSION_GROUP_CHAT :: int32 where "DIMENSION_GROUP_CHAT \<equiv> 3"

definition sql_chat_message :: "int32 \<Rightarrow> message_infos \<Rightarrow> byte list" where
  "sql_chat_message type m =
     (if type = ALONE_CHAT then
        ascii ''call proc_V2RecordAloneMessage('' @ decimal (sint (mi_platform m)) @ comma @
        decimal (sint (mi_msgid m)) @ comma @ decimal (sint (mi_fid m)) @ comma @
        quoted (mi_nickname m) @ comma @ decimal (sint (mi_oppid m)) @ comma @
        quoted (mi_lasttime m) @ comma @ quoted (mi_message m) @ comma @ quoted (mi_head m) @ ascii '');''
      else
        ascii ''call proc_V2RecordGroupMessage('' @ decimal (sint (mi_platform m)) @ comma @
        decimal (sint (mi_oppid m)) @ comma @ decimal (sint (mi_msgid m)) @ comma @
        decimal (sint (mi_fid m)) @ comma @ quoted (mi_nickname m) @ comma @
        quoted (mi_lasttime m) @ comma @ quoted (mi_message m) @ comma @ quoted (mi_head m) @ ascii '');'')"

definition RecordChatMessage :: "env \<Rightarrow> int32 \<Rightarrow> message_infos \<Rightarrow> bool chat_m" where
  "RecordChatMessage E type m = do {
     r \<leftarrow> run_sql E (sql_chat_message type m);
     State_Monad.return (sql_succeeds r)
   }"

text \<open>\<^verbatim>\<open>DBComm::RecordMessage\<close>, the record of the unused overload of \<^verbatim>\<open>LeaveMessage\<close>.\<close>

definition sql_record_message ::
  "int64 \<Rightarrow> int64 \<Rightarrow> int64 \<Rightarrow> int64 \<Rightarrow> byte list \<Rightarrow> byte list \<Rightarrow> byte list" where
  "sql_record_message pid fid tid mid message time =
     ascii ''call proc_ChatRecordMessage('' @ decimal (sint pid) @ comma @ decimal (sint mid) @ comma @
     decimal (sint fid) @ comma @ decimal (sint tid) @ comma @ quoted time @ comma @
     quoted message @ ascii '');''"

definition RecordMessage ::
  "env \<Rightarrow> int64 \<Rightarrow> int64 \<Rightarrow> int64 \<Rightarrow> int64 \<Rightarrow> byte list \<Rightarrow> byte list \<Rightarrow> bool chat_m" where
  "RecordMessage E pid fid tid mid message time = do {
     r \<leftarrow> run_sql E (sql_record_message pid fid tid mid message time);
     State_Monad.return (sql_succeeds r)
   }"

definition number_column :: "byte list option list \<Rightarrow> nat \<Rightarrow> int64" where
  "number_column row i = (case column row i of None \<Rightarrow> 0 | Some s \<Rightarrow> atoll s)"

definition group_of_row :: "byte list option list \<Rightarrow> group_info" where
  "group_of_row row = \<lparr>gi_platform_id = 10000, gi_group_id = number_column row 0, gi_group_type = 3,
     gi_nicknumber = number_column row 1, gi_session = number_column row 1,
     gi_name = (case column row 2 of None \<Rightarrow> [] | Some s \<Rightarrow> s), gi_head_url = []\<rparr>"

primrec add_groups :: "byte list option list list \<Rightarrow> unit chat_m" where
  "add_groups [] = State_Monad.return ()"
| "add_groups (row # rows) = do {
     r \<leftarrow> AddGroupInfos 10000 (number_column row 0) (group_of_row row);
     add_groups rows
   }"

definition GetDimensionGroup :: "env \<Rightarrow> bool chat_m" where
  "GetDimensionGroup E = do {
     r \<leftarrow> run_sql E (ascii ''call proc_V2GetDimensionGroup();'');
     case r of
       Rows rows \<Rightarrow> do { add_groups rows; State_Monad.return (rows \<noteq> []) }
     | _ \<Rightarrow> State_Monad.return False
   }"

section \<open>logic_unit.cc\<close>

text \<open>The random number is cut to 32 bits.\<close>

definition SetChatToken :: "env \<Rightarrow> user_info \<Rightarrow> bool chat_m" where
  "SetChatToken E userinfo = do {
     random_num \<leftarrow> GetRandomID E;
     set_chat_token userinfo (e_md5 E (decimal (sint (to_int random_num))));
     State_Monad.return True
   }"

definition CheckToken :: "env \<Rightarrow> int64 \<Rightarrow> int64 \<Rightarrow> byte list \<Rightarrow> bool" where
  "CheckToken E pid uid token =
     (case e_memcached E (decimal (sint pid) @ ascii ''_'' @ decimal (sint uid)) of
        None \<Rightarrow> False
      | Some stored \<Rightarrow> c_string stored = c_string token)"

definition CheckChatToken :: "user_info \<Rightarrow> byte list \<Rightarrow> bool chat_m" where
  "CheckChatToken userinfo token = do {
     d \<leftarrow> get_user userinfo;
     State_Monad.return (c_string (ud_chat_token d) = c_string token)
   }"

definition GetCurrentTimeFormat :: "env \<Rightarrow> int64 \<Rightarrow> byte list" where
  "GetCurrentTimeFormat E current =
     (let t = e_localtime E current
      in decimal (1900 + tm_year t) @ ascii ''-'' @ decimal (1 + tm_mon t) @ ascii ''-'' @
         decimal (tm_mday t) @ ascii '' '' @ decimal (tm_hour t) @ ascii '':'' @
         decimal (tm_min t) @ ascii '':'' @ decimal (tm_sec t))"

abbreviation MAX_SUMMARY_CONTENT_LEN :: nat where "MAX_SUMMARY_CONTENT_LEN \<equiv> 16"

text \<open>\<^verbatim>\<open>content.rfind("[")\<close>: the text before the last bracket and the text from it on.\<close>

fun last_bracket :: "byte list \<Rightarrow> (byte list \<times> byte list) option" where
  "last_bracket [] = None"
| "last_bracket (b # bs) = (case last_bracket bs of
       Some (pre, post) \<Rightarrow> Some (b # pre, post)
     | None \<Rightarrow> (if b = 91 then Some ([], b # bs) else None))"

definition SummaryTestContent :: "byte list \<Rightarrow> byte list" where
  "SummaryTestContent msg =
     (if length msg \<le> MAX_SUMMARY_CONTENT_LEN then msg
      else let content = take MAX_SUMMARY_CONTENT_LEN msg
           in (case last_bracket content of
                 None \<Rightarrow> content
               | Some (pre, rstr) \<Rightarrow> if 93 \<in> set rstr then content else pre) @ ascii ''......'')"

abbreviation TYPE_TEXT :: int32 where "TYPE_TEXT \<equiv> 1"

definition OnSummaryContent :: "byte list \<Rightarrow> int32 \<Rightarrow> byte list" where
  "OnSummaryContent msg mtype = (if mtype = TYPE_TEXT then SummaryTestContent msg else [])"

definition MakeLeaveContent ::
  "env \<Rightarrow> user_info \<Rightarrow> user_info \<Rightarrow> byte list \<Rightarrow> int32 \<Rightarrow> (byte list \<times> byte list) chat_m" where
  "MakeLeaveContent E send_userinfo recv_userinfo msg mtype = do {
     s \<leftarrow> get_user send_userinfo;
     uid_pos \<leftarrow> GetUserLBSPos E (ud_user_id s);
     r \<leftarrow> get_user recv_userinfo;
     tar_pos \<leftarrow> GetUserLBSPos E (ud_user_id r);
     State_Monad.return (OnSummaryContent msg mtype, e_distance E uid_pos tar_pos)
   }"

text \<open>\<^verbatim>\<open>RedisComm::GenaratePushMsgID\<close>; the argument is what the variable held.\<close>

definition GenaratePushMsgID :: "env \<Rightarrow> int64 \<Rightarrow> int64 chat_m" where
  "GenaratePushMsgID E old = State (\<lambda>w.
     (case e_push_id E (pushes w) of None \<Rightarrow> old | Some i \<Rightarrow> i, w\<lparr>pushes := pushes w + 1\<rparr>))"

section \<open>The operations keep the state well-formed\<close>

lemma safe_run_sql [safe_rules]: "safe H (run_sql E q) no_handles"
  by (auto simp: safe_def run_sql_def Let_def)

lemma safe_fetch_users: "h \<in> H \<Longrightarrow> safe H (fetch_users pid uid rows h) (\<lambda>h. {h})"
proof (induction rows arbitrary: h H)
  case (Cons row rows)
  then show ?case
    by (cases "user_of_row pid uid row")
      (auto intro!: safe_seq safe_bind [where K = "\<lambda>h. {h}"] safe_rules)
qed (simp add: safe_return)

lemma safe_GetUserInfo [safe_rules]: "h \<in> H \<Longrightarrow> safe H (GetUserInfo E pid uid h) (\<lambda>(r, h). {h})"
  unfolding GetUserInfo_def DBComm_GetUserInfo_def
proof (rule safe_seq, rule safe_rules)
  fix r assume h: "h \<in> H"
  have "safe H (do { h \<leftarrow> fetch_users pid uid rows h; State_Monad.return (True, h) }) (\<lambda>(r, h). {h})"
    for rows by (rule safe_bind [OF safe_fetch_users [OF h]]) (simp add: safe_return)
  with h show "safe H (case r of
      Rows rows \<Rightarrow> (if rows = [] then State_Monad.return (False, h)
        else do { h \<leftarrow> fetch_users pid uid rows h; State_Monad.return (True, h) })
    | _ \<Rightarrow> State_Monad.return (False, h)) (\<lambda>(r, h). {h})"
    by (simp add: safe_return split: sql_result.split)
qed

lemma safe_fetch_pos [safe_rules]: "safe H (fetch_pos rows pos) no_handles"
proof (induction rows arbitrary: pos)
  case (Cons row rows)
  then show ?case by (auto intro!: safe_seq safe_rules split: option.split prod.split)
qed (simp add: safe_return)

lemma safe_GetUserLBSPos [safe_rules]: "safe H (GetUserLBSPos E uid) no_handles"
  unfolding GetUserLBSPos_def
  by (rule safe_seq, rule safe_rules) (auto intro!: safe_rules split: sql_result.split)

lemma safe_add_groups: "safe H (add_groups rows) no_handles"
  by (induction rows) (auto intro!: safe_seq safe_rules)

lemma safe_GetDimensionGroup [safe_rules]: "safe H (GetDimensionGroup E) no_handles"
  unfolding GetDimensionGroup_def
  by (rule safe_seq, rule safe_rules)
    (auto intro!: safe_return safe_seq [OF safe_add_groups] split: sql_result.split)

lemma safe_push_id [safe_rules]: "safe H (GenaratePushMsgID E old) no_handles"
  by (auto simp: safe_def GenaratePushMsgID_def)

lemma safe_records [safe_rules]:
  "safe H (RecordUserMessageList E t s u d m) no_handles"
  "safe H (RecordChatMessage E t mi) no_handles"
  "safe H (RecordMessage E p f u i m c) no_handles"
  unfolding RecordUserMessageList_def RecordChatMessage_def RecordMessage_def
  by (auto intro!: safe_seq safe_rules)

lemma safe_logic [safe_rules]:
  "safe H (SetChatToken E u) no_handles" "safe H (CheckChatToken u t) no_handles"
  "safe H (MakeLeaveContent E s r m n) no_handles"
  unfolding SetChatToken_def CheckChatToken_def MakeLeaveContent_def
  by (auto intro!: safe_seq safe_rules)

section \<open>Users from the database\<close>

text \<open>What the database says of a user: the last row, if every row has its three columns.\<close>

definition known_user :: "env \<Rightarrow> nat \<Rightarrow> int64 \<Rightarrow> int64 \<Rightarrow> user_data list" where
  "known_user E n pid uid = (case e_sql E n (c_string (sql_get_user_info pid uid)) of
       Rows rows \<Rightarrow> (if \<forall>row\<in>set rows. user_of_row pid uid row \<noteq> None
         then map (\<lambda>row. the (user_of_row pid uid row)) rows else [])
     | _ \<Rightarrow> [])"

lemma run_fetch_users:
  "\<forall>row\<in>set rows. user_of_row pid uid row \<noteq> None \<Longrightarrow>
   run_state (fetch_users pid uid rows h) w =
     (if rows = [] then h else length (heap w) + length rows - 1,
      w\<lparr>heap := heap w @ map (\<lambda>row. the (user_of_row pid uid row)) rows\<rparr>)"
  by (induction rows arbitrary: h w) (auto simp: new_user_def)

lemma run_GetUserInfo_known:
  assumes "known_user E (queries w) pid uid = us" and "us \<noteq> []"
  shows "run_state (GetUserInfo E pid uid h) w =
    ((True, length (heap w) + length us - 1),
     w\<lparr>queries := queries w + 1, heap := heap w @ us,
       events := events w @ [Sql (c_string (sql_get_user_info pid uid))]\<rparr>)"
proof -
  obtain rows where rows: "e_sql E (queries w) (c_string (sql_get_user_info pid uid)) = Rows rows"
      "\<forall>row\<in>set rows. user_of_row pid uid row \<noteq> None"
      "us = map (\<lambda>row. the (user_of_row pid uid row)) rows" "rows \<noteq> []"
    using assms by (auto simp: known_user_def split: sql_result.splits if_splits)
  then show ?thesis
    using run_fetch_users [OF rows(2)]
    by (simp add: GetUserInfo_def DBComm_GetUserInfo_def run_sql_def)
qed

definition unknown_user :: "env \<Rightarrow> nat \<Rightarrow> int64 \<Rightarrow> int64 \<Rightarrow> bool" where
  "unknown_user E n pid uid \<longleftrightarrow> (case e_sql E n (c_string (sql_get_user_info pid uid)) of
     Rows rows \<Rightarrow> rows = [] | _ \<Rightarrow> True)"

lemma run_GetUserInfo_unknown:
  assumes "unknown_user E (queries w) pid uid"
  shows "\<exists>es. run_state (GetUserInfo E pid uid h) w =
    ((False, h), w\<lparr>queries := queries w + 1, events := events w @ map Sql es\<rparr>)"
proof (cases "e_sql E (queries w) (c_string (sql_get_user_info pid uid)) = NoEngine")
  case True
  then show ?thesis
    by (intro exI [of _ "[]"])
      (simp add: GetUserInfo_def DBComm_GetUserInfo_def run_sql_def)
next
  case False
  with assms show ?thesis
    by (intro exI [of _ "[c_string (sql_get_user_info pid uid)]"])
      (auto simp: GetUserInfo_def DBComm_GetUserInfo_def run_sql_def unknown_user_def
         split: sql_result.splits)
qed

section \<open>Summaries\<close>

lemma last_bracket_None: "last_bracket bs = None \<longleftrightarrow> 91 \<notin> set bs"
  by (induction bs) (auto split: option.split)

lemma last_bracket_Some:
  "last_bracket bs = Some (pre, post) \<Longrightarrow> \<exists>t. post = 91 # t \<and> 91 \<notin> set t \<and> bs = pre @ post"
  by (induction bs arbitrary: pre)
    (auto split: option.splits if_splits simp: last_bracket_None)

lemma split_at: "x \<notin> set a \<Longrightarrow> x \<notin> set a' \<Longrightarrow> a @ x # b = a' @ x # b' \<longleftrightarrow> a = a' \<and> b = b'"
proof (induction a arbitrary: a')
  case Nil
  then show ?case by (cases a') auto
next
  case (Cons y a)
  then show ?case by (cases a') auto
qed

lemma split_at_last:
  assumes "x \<notin> set b" "x \<notin> set b'" "a @ x # b = a' @ x # b'"
  shows "a = a'" "b = b'"
proof -
  have "rev b @ x # rev a = rev b' @ x # rev a'" using arg_cong [OF assms(3), of rev] by simp
  then show "a = a'" "b = b'" using split_at [of x "rev b" "rev b'"] assms(1,2) by simp_all
qed

text \<open>A summary is the message itself up to 16 bytes; a longer one is cut to 16 bytes, then
  before the last bracket when no closing bracket follows it, and ends in six dots.\<close>

theorem summary_shape:
  "if length msg \<le> 16 then SummaryTestContent msg = msg
   else \<exists>pre cut. take 16 msg = pre @ cut \<and> SummaryTestContent msg = pre @ ascii ''......'' \<and>
     (if \<exists>a b. take 16 msg = a @ 91 # b \<and> 91 \<notin> set b \<and> 93 \<notin> set b
      then \<exists>t. cut = 91 # t \<and> 91 \<notin> set t \<and> 93 \<notin> set t else cut = [])"
proof (cases "length msg \<le> 16")
  case False
  let ?c = "take 16 msg"
  show ?thesis
  proof (cases "last_bracket ?c")
    case None
    then have "91 \<notin> set ?c" by (simp add: last_bracket_None)
    then have no: "\<nexists>a b. ?c = a @ 91 # b \<and> 91 \<notin> set b \<and> 93 \<notin> set b"
      by (metis in_set_conv_decomp)
    have c: "SummaryTestContent msg = ?c @ ascii ''......''"
      using False None by (simp add: SummaryTestContent_def)
    have "\<exists>pre cut. ?c = pre @ cut \<and> SummaryTestContent msg = pre @ ascii ''......'' \<and> cut = []"
      using c by (intro exI [of _ ?c] exI [of _ "[]"]) simp
    with False no show ?thesis by (simp only: if_False)
  next
    case (Some p)
    obtain pre post where p: "p = (pre, post)" by force
    obtain t where t: "post = 91 # t" "91 \<notin> set t" "?c = pre @ post"
      using last_bracket_Some Some p by blast
    have uniq: "a = pre \<and> b = t" if "?c = a @ 91 # b" "91 \<notin> set b" for a b
      using split_at_last [of 91 b t a pre] that t by auto
    have s: "SummaryTestContent msg = (if 93 \<in> set post then ?c else pre) @ ascii ''......''"
      using False Some p by (simp add: SummaryTestContent_def)
    show ?thesis
    proof (cases "93 \<in> set t")
      case True
      then have "\<nexists>a b. ?c = a @ 91 # b \<and> 91 \<notin> set b \<and> 93 \<notin> set b" using uniq by blast
      moreover have "\<exists>pre cut. ?c = pre @ cut \<and> SummaryTestContent msg = pre @ ascii ''......'' \<and> cut = []"
        using True s t(1) by (intro exI [of _ ?c] exI [of _ "[]"]) simp
      ultimately show ?thesis using False by (simp only: if_False)
    next
      case no: False
      then have "\<exists>a b. ?c = a @ 91 # b \<and> 91 \<notin> set b \<and> 93 \<notin> set b" using t by blast
      moreover have "\<exists>pre cut. ?c = pre @ cut \<and> SummaryTestContent msg = pre @ ascii ''......'' \<and>
          (\<exists>t. cut = 91 # t \<and> 91 \<notin> set t \<and> 93 \<notin> set t)"
        using no s t by (intro exI [of _ pre] exI [of _ post]) simp
      ultimately show ?thesis using False by (simp only: if_True if_False)
    qed
  qed
qed (simp add: SummaryTestContent_def)

section \<open>SQL texts\<close>

text \<open>A chat message containing a quote ends the string literal of the statement that records
  it: for such a text the statement sent is the one of another message and head, followed by a
  comment.\<close>

theorem message_escapes_sql:
  "sql_chat_message type (m\<lparr>mi_message := msg @ [39] @ comma @ [39] @ url @ [39] @ ascii '');-- ''\<rparr>) =
   sql_chat_message type (m\<lparr>mi_message := msg, mi_head := url\<rparr>) @
     ascii ''-- '' @ [39] @ comma @ quoted (mi_head m) @ ascii '');''"
  by (simp add: sql_chat_message_def quoted_def comma_def ascii_def)

text \<open>Without quotes in the texts the statement determines the record.\<close>

lemma nat_digits_no [simp]: "44 \<notin> set (nat_digits n)" "39 \<notin> set (nat_digits n)"
  using nat_digits_digits [of n] by (auto simp: is_digit_def)

lemma decimal_no [simp]: "44 \<notin> set (decimal i)"
  by (simp add: decimal_def)

lemma decimal_inject: "decimal i = decimal j \<Longrightarrow> i = j"
  by (metis atoll_int_decimal)

lemma decimal_field:
  "decimal (sint a) @ comma @ r = decimal (sint a') @ comma @ r' \<longleftrightarrow> (a::int64) = a' \<and> r = r'"
  using decimal_inject [of "sint a" "sint a'"] sint_eq_iff [of a a']
  by (auto simp: comma_def ascii_def split_at)

lemma comma_field: "comma @ r = comma @ r' \<longleftrightarrow> r = r'"
  by simp

lemma quoted_field:
  "39 \<notin> set a \<Longrightarrow> 39 \<notin> set a' \<Longrightarrow> quoted a @ r = quoted a' @ r' \<longleftrightarrow> a = a' \<and> r = r'"
  by (simp add: quoted_def split_at)

definition quote_free :: "message_infos \<Rightarrow> bool" where
  "quote_free m \<longleftrightarrow> 39 \<notin> set (mi_nickname m) \<and> 39 \<notin> set (mi_lasttime m) \<and>
     39 \<notin> set (mi_message m) \<and> 39 \<notin> set (mi_head m)"

text \<open>Without quotes in nickname, time, text and head, the recording statement determines the
  whole record.\<close>

theorem sql_chat_message_injective:
  assumes "quote_free m" and "quote_free m'" and "mi_type m = mi_type m'"
    and "sql_chat_message type m = sql_chat_message type m'"
  shows "m = m'"
  using assms
  by (cases m; cases m')
    (auto simp: sql_chat_message_def decimal_field quoted_field quote_free_def
       quoted_field [of _ _ "[]" "[]", simplified] split: if_splits)

definition sample_message :: message_infos where
  "sample_message = \<lparr>mi_platform = 10000, mi_msgid = 1, mi_fid = 7, mi_oppid = 8, mi_type = 1,
     mi_nickname = [65], mi_message = [66], mi_lasttime = [67], mi_head = []\<rparr>"

theorem sql_chat_message_injective_witness:
  "sql_chat_message 1 sample_message \<noteq> sql_chat_message 1 (sample_message\<lparr>mi_message := [67]\<rparr>)"
  using sql_chat_message_injective [of sample_message "sample_message\<lparr>mi_message := [67]\<rparr>" 1]
  by (auto simp: sample_message_def quote_free_def)

end
