(* ===== verification/ChatDelivery.thy ===== *)
theory ChatDelivery
  imports ChatStore
begin

text \<open>
  What a send does to the state and to the record of what left the server, and, from it, who
  receives a message sent to a meeting (\<^verbatim>\<open>SendMeetingNotSelf\<close>, \<^verbatim>\<open>SendMeetingMessage\<close> of
  \<^verbatim>\<open>chat_cache_manager.cc\<close>).
\<close>

section \<open>Observing a run\<close>

text \<open>The packets among the events: socket, header and body.\<close>

primrec delivery :: "event \<Rightarrow> (int32 \<times> packet_head \<times> body) option" where
  "delivery (Sent s h b bytes ok) = Some (s, h, b)"
| "delivery (Sql q) = None"
| "delivery (Pushed t u m) = None"
| "delivery (RobotNotice s p u r) = None"

definition deliveries :: "event list \<Rightarrow> (int32 \<times> packet_head \<times> body) list" where
  "deliveries es = List.map_filter delivery es"

lemma deliveries_simps [simp]:
  "deliveries [] = []"
  "deliveries (Sent s h b bytes ok # es) = (s, h, b) # deliveries es"
  "deliveries (Sql q # es) = deliveries es"
  "deliveries (Pushed t u m # es) = deliveries es"
  "deliveries (RobotNotice r p u i # es) = deliveries es"
  by (simp_all add: deliveries_def List.map_filter_simps)

lemma deliveries_append [simp]: "deliveries (es @ fs) = deliveries es @ deliveries fs"
  by (simp add: deliveries_def List.map_filter_def)

lemma deliveries_Sql [simp]: "deliveries (map Sql qs) = []"
  by (induction qs) simp_all

definition new_events :: "'a chat_m \<Rightarrow> world \<Rightarrow> event list" where
  "new_events m w = drop (length (events w)) (events (snd (run_state m w)))"

text \<open>What a computation that only sends leaves alone.\<close>

definition after_sends :: "world \<Rightarrow> nat \<Rightarrow> bool \<Rightarrow> event list \<Rightarrow> world" where
  "after_sends w n c es = w\<lparr>sends := n, crashed := c, events := events w @ es\<rparr>"

definition only_sends :: "world \<Rightarrow> world \<Rightarrow> (int32 \<times> packet_head \<times> body) list \<Rightarrow> bool" where
  "only_sends w w' ds \<longleftrightarrow> (\<exists>n c es. w' = after_sends w n c es \<and> deliveries es = ds)"

lemma after_sends_simps [simp]:
  "platforms (after_sends w n c es) = platforms w" "sockets (after_sends w n c es) = sockets w"
  "robot_server_socket (after_sends w n c es) = robot_server_socket w"
  "heap (after_sends w n c es) = heap w" "events (after_sends w n c es) = events w @ es"
  "draws (after_sends w n c es) = draws w" "ticks (after_sends w n c es) = ticks w"
  "pushes (after_sends w n c es) = pushes w" "queries (after_sends w n c es) = queries w"
  "crashed (after_sends w n c es) = c" "sends (after_sends w n c es) = n"
  by (simp_all add: after_sends_def)

lemma user_of_after_sends [simp]: "user_of h (after_sends w n c es) = user_of h w"
  by (simp add: user_of_def)

lemma after_sends_twice [simp]:
  "after_sends (after_sends w n c es) n' c' es' = after_sends w n' c' (es @ es')"
  by (simp add: after_sends_def)

lemma only_sends_refl [simp]: "only_sends w w []"
  unfolding only_sends_def
  by (rule exI [of _ "sends w"], rule exI [of _ "crashed w"], rule exI [of _ "[]"])
    (simp add: after_sends_def)

lemma only_sends_trans:
  "only_sends w w' ds \<Longrightarrow> only_sends w' w'' ds' \<Longrightarrow> only_sends w w'' (ds @ ds')"
  unfolding only_sends_def by (metis after_sends_twice deliveries_append)

section \<open>One packet\<close>

text \<open>A packet \<^verbatim>\<open>PackStream\<close> accepts: the operation code fits the struct (or a \<^verbatim>\<open>UserQuit\<close> goes
  out as a notification) and the length does not overflow.\<close>

definition packs :: "packet_head \<Rightarrow> body \<Rightarrow> bool" where
  "packs h b \<longleftrightarrow> (\<exists>b'. cast_body (operate_code h) b = Some b' \<and> 0 \<le> sint (payload_size b' + 31))"

lemma cast_body_packed: "cast_body op b = Some b' \<Longrightarrow> op \<in> set packed_operations"
  by (cases b) (auto simp: cast_body_def packed_operations_def split: if_splits)

lemma packs_PackStream:
  assumes "packs h b"
  shows "\<exists>out len. PackStream limit h b = Packed out len"
proof -
  obtain b' where b: "cast_body (operate_code h) b = Some b'" "0 \<le> sint (payload_size b' + 31)"
    using assms unfolding packs_def by blast
  then show ?thesis using cast_body_packed [OF b(1)] unfolding PackStream_def pack_packet_def
    by (simp del: payload_size.simps write_body.simps)
qed

lemma run_SendFull: "\<exists>n. snd (run_state (SendFull fuel E k t) w) = w\<lparr>sends := n\<rparr>"
proof (induction fuel arbitrary: k t w)
  case 0
  have "w = w\<lparr>sends := sends w\<rparr>" by simp
  then show ?case by (simp only: SendFull.simps State_Monad.run_state_return snd_conv) blast
next
  case (Suc fuel)
  let ?w = "w\<lparr>sends := sends w + 1\<rparr>"
  obtain n where n: "snd (run_state (SendFull fuel E (nat (int k - e_send E (sends w) k))
      (t + e_send E (sends w) k)) ?w) = ?w\<lparr>sends := n\<rparr>" using Suc.IH by blast
  then show ?case by (auto simp: kernel_send_def intro: exI [of _ "sends w + 1"])
qed

lemma run_SendMessage:
  assumes "packs h b" and "0 < sint s"
  shows "\<exists>n c bytes ok. run_state (SendMessage E s h b) w =
    (ok, after_sends w n c [Sent s h b bytes ok])"
proof -
  obtain out len where p: "PackStream (e_memory E) h b = Packed out len"
    using packs_PackStream assms(1) by blast
  define w1 where "w1 = (if dump_overrun (DumpPacket h b) \<or> out_fault out
    then w\<lparr>crashed := True\<rparr> else w)"
  have w1: "w1 = w\<lparr>crashed := crashed w1\<rparr>" by (simp add: w1_def)
  obtain ret w2 where r: "run_state (SendFull (nat (sint len)) E (nat (sint len)) 0) w1 = (ret, w2)"
    by force
  then obtain n where "w2 = w1\<lparr>sends := n\<rparr>"
    using run_SendFull [of "nat (sint len)" E "nat (sint len)" 0 w1] by auto
  with w1 have w2: "w2 = w\<lparr>crashed := crashed w1, sends := n\<rparr>" by (metis world.update_convs)
  have "run_state (SendMessage E s h b) w =
    (ret = Some (sint len), after_sends w n (if ret = None then True else crashed w1)
       [Sent s h b (out_buffer out) (ret = Some (sint len))])"
  proof -
    have pre: "run_state (if dump_overrun (DumpPacket h b) \<or> out_fault out then crash
        else State_Monad.return ()) w = ((), w1)"
      by (simp add: w1_def crash_def)
    have post: "run_state (if ret = None then crash else State_Monad.return ()) v =
        ((), v\<lparr>crashed := (if ret = None then True else crashed v)\<rparr>)" for v
      by (simp add: crash_def)
    show ?thesis using assms(2) p
      by (simp add: SendMessage_def pre r post emit_def w2 after_sends_def split del: if_split
          cong: if_cong)
  qed
  then show ?thesis by blast
qed

lemma run_SendMessage_no_socket:
  "sint s \<le> 0 \<Longrightarrow> run_state (SendMessage E s h b) w = (False, w)"
  by (simp add: SendMessage_def)

definition reaches :: "int32 \<Rightarrow> packet_head \<Rightarrow> body \<Rightarrow> (int32 \<times> packet_head \<times> body) list" where
  "reaches s h b = (if 0 < sint s then [(s, h, b)] else [])"

lemma SendMessage_only_sends:
  assumes "packs h b"
  shows "only_sends w (snd (run_state (SendMessage E s h b) w)) (reaches s h b)"
proof (cases "0 < sint s")
  case True
  obtain n c bytes ok where "run_state (SendMessage E s h b) w =
      (ok, after_sends w n c [Sent s h b bytes ok])"
    using run_SendMessage [OF assms True] by blast
  with True show ?thesis unfolding only_sends_def reaches_def
    by (intro exI [of _ n] exI [of _ c] exI [of _ "[Sent s h b bytes ok]"]) simp
qed (simp add: run_SendMessage_no_socket reaches_def)

section \<open>Everyone in a meeting\<close>

text \<open>The users of the members' identifiers, in the order of the map, that the platform knows.\<close>

definition online_members :: "platform_cache \<Rightarrow> session_infos \<Rightarrow> user_info list" where
  "online_members pc meeting = List.map_filter (\<lambda>kv. MapGet (user_infos_map pc) (to_int (fst kv))) meeting"

definition meeting_of :: "platform_cache \<Rightarrow> int64 \<Rightarrow> session_infos" where
  "meeting_of pc session =
     (case MapGet (meeting_infos_map pc) (to_int session) of None \<Rightarrow> [] | Some m \<Rightarrow> m)"

lemma send_members_only_sends:
  assumes "packs h b"
  shows "only_sends w (snd (run_state (send_members E pc wanted h b m) w))
    (concat (map (\<lambda>u. reaches (ud_socket (user_of u w)) h b)
       (filter (\<lambda>u. wanted (user_of u w)) (online_members pc m))))"
proof (induction m arbitrary: w)
  case Nil
  then show ?case by (simp add: online_members_def List.map_filter_simps)
next
  case (Cons kv m)
  show ?case
  proof (cases "MapGet (user_infos_map pc) (to_int (fst kv))")
    case None
    then show ?thesis using Cons.IH [of w] by (simp add: online_members_def List.map_filter_simps)
  next
    case (Some u)
    show ?thesis
    proof (cases "wanted (user_of u w)")
      case True
      obtain r w' where w': "run_state (SendMessage E (ud_socket (user_of u w)) h b) w = (r, w')"
        by force
      have s: "only_sends w w' (reaches (ud_socket (user_of u w)) h b)"
        using SendMessage_only_sends [OF assms, of w E] w' by (metis snd_conv)
      then have "user_of v w' = user_of v w" for v by (auto simp: only_sends_def)
      with only_sends_trans [OF s Cons.IH [of w']] Some True w' show ?thesis
        by (simp add: online_members_def List.map_filter_simps get_user_def)
    next
      case False
      then show ?thesis using Some Cons.IH [of w]
        by (simp add: online_members_def List.map_filter_simps get_user_def)
    qed
  qed
qed

lemma send_meeting_only_sends:
  assumes "packs h b" and "GetPlatformCache pid w = Some pc"
  shows "only_sends w (snd (run_state (send_meeting E pid session wanted h b) w))
    (concat (map (\<lambda>u. reaches (ud_socket (user_of u w)) h b)
       (filter (\<lambda>u. wanted (user_of u w)) (online_members pc (meeting_of pc session)))))"
  using send_members_only_sends [OF assms(1), of w E pc wanted "meeting_of pc session"] assms(2)
  by (simp add: send_meeting_def meeting_of_def split_beta)

text \<open>SendMeetingNotSelf sends the packet exactly once to the socket of every member of the
  meeting that the platform knows, has a positive socket and another user id than the sender,
  in the order of the meeting, and changes nothing else.\<close>

theorem SendMeetingNotSelf_recipients:
  assumes "packs h b" and "GetPlatformCache pid w = Some pc"
  shows "only_sends w (snd (run_state (SendMeetingNotSelf E pid gid send_id session h b) w))
    (concat (map (\<lambda>u. reaches (ud_socket (user_of u w)) h b)
       (filter (\<lambda>u. ud_user_id (user_of u w) \<noteq> send_id) (online_members pc (meeting_of pc session)))))"
  using send_meeting_only_sends [OF assms, of E session] by (simp add: SendMeetingNotSelf_def)

end
