(* ===== verification/UserConnection.thy ===== *)
theory UserConnection
  imports ChatDelivery
begin

text \<open>
  \<^verbatim>\<open>UserConnectionMgr\<close> of \<^verbatim>\<open>src/server/chat/chat/user_connection.{h,cc}\<close>: login, quitting and
  lost connections, opening a conversation with a user or a group, announcing oneself to a
  group.  A \<^verbatim>\<open>chat_base::UserInfo\<close> declared in a handler is a fresh default user.
\<close>

section \<open>OnUserLogin\<close>

text \<open>\<^verbatim>\<open>CheckToken\<close> asks the memory cache, and its answer is overwritten by \<^verbatim>\<open>r = true\<close>; the answer
  of \<^verbatim>\<open>AddUserInfos\<close> is overwritten by that of \<^verbatim>\<open>AddSocket\<close>.\<close>

definition login_sucess :: "user_login \<Rightarrow> user_data \<Rightarrow> body" where
  "login_sucess p d = LoginSucess \<lparr>us_platform_id = ul_platform_id p, us_user_id = ud_user_id d,
     us_nick_number = ud_nicknumber d, us_token = SafeStrncpy TOKEN_LEN (ud_chat_token d),
     us_nickname = SafeStrncpy NICKNAME_LEN (ud_nickname d),
     us_head_url = SafeStrncpy HEAD_URL_LEN (ud_head_url d)\<rparr>"

definition OnUserLogin :: "env \<Rightarrow> int32 \<Rightarrow> packet_head \<Rightarrow> user_login \<Rightarrow> bool chat_m" where
  "OnUserLogin E socket h p = do {
     userinfo \<leftarrow> new_user default_user;
     r \<leftarrow> State_Monad.return (CheckToken E (ul_platform_id p) (ul_user_id p) (ul_token p));
     r \<leftarrow> State_Monad.return True;
     (if \<not> r then do {
        x \<leftarrow> senderror E socket USER_LOGIN_FAILED 0 (reserverd h) MIG_CHAT_USER_PASSWORD_ERROR;
        State_Monad.return False }
      else do {
     (r, userinfo) \<leftarrow> GetUserInfo E (ul_platform_id p) (ul_user_id p) userinfo;
     (if \<not> r then do {
        x \<leftarrow> senderror E socket USER_LOGIN_FAILED 0 (reserverd h) MIG_CHAT_USER_NO_EXIST;
        State_Monad.return False }
      else do {
        set_socket userinfo socket;
        set_platform_token userinfo (c_string (ul_token p));
        r \<leftarrow> AddUserInfos (ul_platform_id p) (ul_user_id p) userinfo;
        r \<leftarrow> AddSocket socket userinfo;
        (if \<not> r then do {
           x \<leftarrow> senderror E socket USER_LOGIN_FAILED 0 (reserverd h) MIG_CHAT_USER_NO_EXIST;
           State_Monad.return False }
         else do {
           x \<leftarrow> SetChatToken E userinfo;
           h' \<leftarrow> MAKE_HEAD E USER_LOGIN_SUCESS USER_TYPE 0 (reserverd h);
           d \<leftarrow> get_user userinfo;
           SendMessage E socket h' (login_sucess p d) }) }) })
   }"

section \<open>Leaving\<close>

definition ClearUserinfo :: "env \<Rightarrow> int64 \<Rightarrow> int64 \<Rightarrow> int64 \<Rightarrow> bool chat_m" where
  "ClearUserinfo E pid uid session = do {
     DelMeetingInfos pid session uid;
     x \<leftarrow> SendQuitInfoSession E pid session (to_int uid);
     DelUserInos pid uid
   }"

definition OnAberrant :: "env \<Rightarrow> int32 \<Rightarrow> bool chat_m" where
  "OnAberrant E socket = do {
     u \<leftarrow> GetSocket socket;
     case u of
       None \<Rightarrow> State_Monad.return False
     | Some user_info \<Rightarrow> do {
         x \<leftarrow> DelSocket socket;
         d \<leftarrow> get_user user_info;
         x \<leftarrow> ClearUserinfo E (ud_platform_id d) (ud_user_id d) (ud_session d);
         State_Monad.return True }
   }"

text \<open>The token of the packet is compared and the comparison overwritten.\<close>

definition OnUserQuit :: "env \<Rightarrow> int32 \<Rightarrow> packet_head \<Rightarrow> user_quit \<Rightarrow> bool chat_m" where
  "OnUserQuit E socket h p = do {
     u \<leftarrow> GetUserInfos (uq_platform_id p) (uq_user_id p);
     case u of
       None \<Rightarrow> State_Monad.return False
     | Some userinfo \<Rightarrow> do {
         r \<leftarrow> CheckChatToken userinfo (uq_token p);
         (let r = True in
          if \<not> r then do {
            x \<leftarrow> SendErrorCode E socket USER_LOGIN_FAILED ERROR_TYPE 0 (reserverd h)
                   MIG_CHAT_USER_PASSWORD_ERROR;
            State_Monad.return False }
          else do {
            x \<leftarrow> DelSocket socket;
            ClearUserinfo E (uq_platform_id p) (uq_user_id p) (uq_session p) }) }
   }"

section \<open>Opening a conversation\<close>

text \<open>The default name in UTF-8.\<close>

definition default_group_name :: "byte list" where
  "default_group_name = [0xe4, 0xb8, 0xb4, 0xe6, 0x97, 0xb6, 0xe8, 0xae, 0xa8, 0xe8, 0xae, 0xba,
     0xe7, 0xbb, 0x84]"

definition default_group_url :: "byte list" where
  "default_group_url = ascii ''http://face.miu.miglab.com/default.jpg''"

definition OnCreateGroupInfo :: "int64 \<Rightarrow> int64 \<Rightarrow> int16 \<Rightarrow> int64 \<Rightarrow> group_info chat_m" where
  "OnCreateGroupInfo pid gid type session =
     (let g = \<lparr>gi_platform_id = pid, gi_group_id = gid, gi_group_type = type, gi_nicknumber = gid,
        gi_session = session, gi_name = default_group_name, gi_head_url = default_group_url\<rparr>
      in do { x \<leftarrow> AddGroupInfos pid gid g; State_Monad.return g })"

definition group_opposition :: "int64 \<Rightarrow> int64 \<Rightarrow> int32 \<Rightarrow> group_info \<Rightarrow> oppinfo list \<Rightarrow> body" where
  "group_opposition pid oppinfo_id type g members = Opposition \<lparr>op_platform_id = pid,
     op_oppo_id = gi_group_id g, op_oppo_nick_number = gi_nicknumber g, op_session = oppinfo_id,
     op_oppo_type = ucast type, op_oppo_nickname = SafeStrncpy NICKNAME_LEN (gi_name g),
     op_oppo_user_head = SafeStrncpy HEAD_URL_LEN (gi_head_url g), op_opponfo_list = members\<rparr>"

definition the_list :: "'a list option \<Rightarrow> 'a list" where
  "the_list xs = (case xs of None \<Rightarrow> [] | Some ys \<Rightarrow> ys)"

text \<open>\<^verbatim>\<open>opponfo_list.front()\<close>, whose result nothing uses, is undefined on an empty list.\<close>

definition front :: "oppinfo list \<Rightarrow> unit chat_m" where
  "front members = (if members = [] then crash else State_Monad.return ())"

definition open_group ::
  "env \<Rightarrow> int32 \<Rightarrow> int64 \<Rightarrow> int64 \<Rightarrow> int64 \<Rightarrow> int32 \<Rightarrow> int64 \<Rightarrow> user_info \<Rightarrow> group_info \<Rightarrow> bool chat_m" where
  "open_group E socket pid uid oppinfo_id type usr_session userinfo g = do {
     x \<leftarrow> JoinMeeting pid oppinfo_id uid;
     set_session userinfo oppinfo_id;
     h \<leftarrow> MAKE_HEAD E GET_OPPOSITION_INFO USER_TYPE 0 (to_int usr_session);
     members \<leftarrow> GetGroupListUserInfoNotSelf pid (gi_group_id g) uid oppinfo_id;
     x \<leftarrow> front (the_list members);
     SendMessage E socket h (group_opposition pid oppinfo_id type g (the_list members))
   }"

definition OnGetGroupInfo ::
  "env \<Rightarrow> int32 \<Rightarrow> int64 \<Rightarrow> int64 \<Rightarrow> int64 \<Rightarrow> int32 \<Rightarrow> int64 \<Rightarrow> bool chat_m" where
  "OnGetGroupInfo E socket pid uid oppinfo_id type usr_session = do {
     u \<leftarrow> GetUserInfos pid uid;
     case u of
       None \<Rightarrow> State_Monad.return False
     | Some userinfo \<Rightarrow> do {
         g \<leftarrow> GetGroupInfos pid oppinfo_id;
         (if type = DIMENSION_GROUP_CHAT \<and> g = None then State_Monad.return False
          else do {
            groupinfo \<leftarrow> (case g of
                Some groupinfo \<Rightarrow> State_Monad.return groupinfo
              | None \<Rightarrow> if type = TEMP_GROUP_CHAT
                  then OnCreateGroupInfo pid oppinfo_id (ucast type) oppinfo_id
                  else State_Monad.return (default_group (e_junk64 E)));
            open_group E socket pid uid oppinfo_id type usr_session userinfo groupinfo }) }
   }"

text \<open>\<^verbatim>\<open>OnGetTempGroupInfo\<close>, which nothing calls, creates the group whatever the type and lists
  all members.\<close>

definition OnGetTempGroupInfo ::
  "env \<Rightarrow> int32 \<Rightarrow> int64 \<Rightarrow> int64 \<Rightarrow> int64 \<Rightarrow> int32 \<Rightarrow> int64 \<Rightarrow> bool chat_m" where
  "OnGetTempGroupInfo E socket pid uid oppinfo_id type usr_session = do {
     u \<leftarrow> GetUserInfos pid uid;
     case u of
       None \<Rightarrow> State_Monad.return False
     | Some userinfo \<Rightarrow> do {
         g \<leftarrow> GetGroupInfos pid oppinfo_id;
         groupinfo \<leftarrow> (case g of
             Some groupinfo \<Rightarrow> State_Monad.return groupinfo
           | None \<Rightarrow> OnCreateGroupInfo pid oppinfo_id (ucast type) oppinfo_id);
         x \<leftarrow> JoinMeeting pid oppinfo_id uid;
         set_session userinfo oppinfo_id;
         h \<leftarrow> MAKE_HEAD E GET_OPPOSITION_INFO USER_TYPE 0 (to_int usr_session);
         members \<leftarrow> GetGroupListUserInfo pid (gi_group_id groupinfo) oppinfo_id;
         x \<leftarrow> front (the_list members);
         SendMessage E socket h (group_opposition pid oppinfo_id type groupinfo (the_list members)) }
   }"

text \<open>The answer carries the names of the asking user in its header part and those of the other
  one in its only entry.\<close>

definition user_opposition :: "int64 \<Rightarrow> int64 \<Rightarrow> int32 \<Rightarrow> int64 \<Rightarrow> user_data \<Rightarrow> user_data \<Rightarrow> body" where
  "user_opposition pid oppinfo_id type session d oppinfo_d = Opposition \<lparr>op_platform_id = pid,
     op_oppo_id = oppinfo_id, op_oppo_nick_number = ud_nicknumber d, op_session = session,
     op_oppo_type = ucast type, op_oppo_nickname = SafeStrncpy NICKNAME_LEN (ud_nickname d),
     op_oppo_user_head = SafeStrncpy HEAD_URL_LEN (ud_head_url d),
     op_opponfo_list = [\<lparr>oi_user_id = oppinfo_id, oi_user_nicknumber = ud_nicknumber oppinfo_d,
        oi_nickname = SafeStrncpy NICKNAME_LEN (ud_nickname oppinfo_d),
        oi_user_head = SafeStrncpy HEAD_URL_LEN (ud_head_url oppinfo_d)\<rparr>]\<rparr>"

text \<open>Choosing the session: the one the other user left behind, else a new one.\<close>

definition select_session :: "env \<Rightarrow> int64 \<Rightarrow> int64 \<Rightarrow> int64 \<Rightarrow> user_info \<Rightarrow> int64 chat_m" where
  "select_session E pid uid oppinfo_id userinfo = do {
     s \<leftarrow> IsExitsLeaveInfos pid oppinfo_id uid;
     case s of
       None \<Rightarrow> do {
         session \<leftarrow> GetRandomID E;
         x \<leftarrow> AddLeaveInfos pid session oppinfo_id uid;
         set_session userinfo session;
         State_Monad.return session }
     | Some session \<Rightarrow> do {
         set_session userinfo session;
         x \<leftarrow> ClearLeaveInfos pid oppinfo_id;
         x \<leftarrow> AddMeetingInfos pid session oppinfo_id uid;
         State_Monad.return session }
   }"

definition find_opposite :: "env \<Rightarrow> int64 \<Rightarrow> int64 \<Rightarrow> int64 \<Rightarrow> (bool \<times> user_info) chat_m" where
  "find_opposite E pid uid oppinfo_id = do {
     u \<leftarrow> GetUserInfos pid oppinfo_id;
     case u of
       Some oppinfo_user_info \<Rightarrow> State_Monad.return (True, oppinfo_user_info)
     | None \<Rightarrow> do {
         fresh \<leftarrow> new_user default_user;
         (r, oppinfo_user_info) \<leftarrow> GetUserInfo E pid oppinfo_id fresh;
         (if r \<and> 10000 < sint oppinfo_id
          then do { x \<leftarrow> NoticeRobotChatLogin pid uid oppinfo_id; State_Monad.return () }
          else State_Monad.return ());
         State_Monad.return (r, oppinfo_user_info) }
   }"

definition OnGetUserInfo ::
  "env \<Rightarrow> int32 \<Rightarrow> int64 \<Rightarrow> int64 \<Rightarrow> int64 \<Rightarrow> int32 \<Rightarrow> int64 \<Rightarrow> bool chat_m" where
  "OnGetUserInfo E socket pid uid oppinfo_id type usr_session = do {
     (r, oppinfo_user_info) \<leftarrow> find_opposite E pid uid oppinfo_id;
     (if \<not> r then do {
        x \<leftarrow> senderror E socket USER_LOGIN_FAILED 0 (to_int usr_session) MIG_CHAT_USER_NO_EXIST;
        State_Monad.return False }
      else do {
        u \<leftarrow> GetUserInfos pid uid;
        case u of
          None \<Rightarrow> State_Monad.return False
        | Some userinfo \<Rightarrow> do {
            session \<leftarrow> select_session E pid uid oppinfo_id userinfo;
            h \<leftarrow> MAKE_HEAD E GET_OPPOSITION_INFO USER_TYPE 0 (to_int usr_session);
            d \<leftarrow> get_user userinfo;
            oppinfo_d \<leftarrow> get_user oppinfo_user_info;
            SendMessage E socket h (user_opposition pid oppinfo_id type session d oppinfo_d) } })
   }"

text \<open>For another type the function runs off its end; its caller drops the result.\<close>

definition OnGetOppInfos :: "env \<Rightarrow> int32 \<Rightarrow> packet_head \<Rightarrow> req_oppstion_info \<Rightarrow> bool chat_m" where
  "OnGetOppInfos E socket h p = do {
     u \<leftarrow> GetUserInfos (ro_platform_id p) (ro_user_id p);
     case u of
       None \<Rightarrow> State_Monad.return False
     | Some user_info \<Rightarrow> do {
         r \<leftarrow> CheckChatToken user_info (ro_token p);
         (let r = True; type = scast (ro_type p) :: int32; session = to_int64 (reserverd h) in
          if \<not> r then do {
            x \<leftarrow> senderror E socket USER_LOGIN_FAILED 0 (reserverd h) MIG_CHAT_USER_PASSWORD_ERROR;
            State_Monad.return False }
          else if type = ALONE_CHAT then
            OnGetUserInfo E socket (ro_platform_id p) (ro_user_id p) (ro_oppostion_id p) type session
          else if type = TEMP_GROUP_CHAT \<or> type = DIMENSION_GROUP_CHAT then
            OnGetGroupInfo E socket (ro_platform_id p) (ro_user_id p) (ro_oppostion_id p) type session
          else State_Monad.return False) }
   }"

section \<open>OnUserGroupOnline\<close>

definition online_rsp :: "env \<Rightarrow> user_online_req \<Rightarrow> user_data \<Rightarrow> body" where
  "online_rsp E p d = OnlineRsp \<lparr>or_platform_id = oq_platform_id p, or_group_id = oq_group_id p,
     or_user_id = oq_user_id p, or_user_nicknumber = e_junk64 E,
     or_nickname = SafeStrncpy NICKNAME_LEN (ud_nickname d),
     or_user_head = SafeStrncpy HEAD_URL_LEN (ud_head_url d)\<rparr>"

definition OnUserGroupOnline :: "env \<Rightarrow> int32 \<Rightarrow> packet_head \<Rightarrow> user_online_req \<Rightarrow> bool chat_m" where
  "OnUserGroupOnline E socket h p = do {
     g \<leftarrow> GetGroupInfos (oq_platform_id p) (oq_group_id p);
     (if g = None then State_Monad.return False
      else do {
        u \<leftarrow> GetUserInfos (oq_platform_id p) (oq_user_id p);
        case u of
          None \<Rightarrow> State_Monad.return False
        | Some send_user_info \<Rightarrow> do {
            r \<leftarrow> CheckMeetingInfos (oq_platform_id p) (oq_group_id p) (oq_user_id p);
            (if \<not> r then State_Monad.return False
             else do {
               h' \<leftarrow> MAKE_HEAD E USER_ONLINE_RSP CHAT_TYPE 0 (reserverd h);
               d \<leftarrow> get_user send_user_info;
               x \<leftarrow> SendMeetingNotSelf E (oq_platform_id p) (oq_group_id p) (oq_user_id p)
                      (oq_group_id p) h' (online_rsp E p d);
               State_Monad.return True }) } })
   }"

section \<open>The handlers keep the state well-formed\<close>

lemma safe_SendErrorCode [safe_rules]: "safe H (SendErrorCode E s op t z n c) no_handles"
  unfolding SendErrorCode_def by (auto intro!: safe_seq safe_rules)

lemma safe_OnUserLogin [safe_rules]: "safe H (OnUserLogin E s h p) no_handles"
  unfolding OnUserLogin_def
  apply (simp only: bind_left_identity not_True_eq_False if_False)
  apply (rule safe_bind, rule safe_rules)
  apply (rule safe_bind, rule safe_GetUserInfo, simp)
  apply (auto intro!: safe_seq safe_rules)
  done

lemma safe_ClearUserinfo [safe_rules]: "safe H (ClearUserinfo E p u s) no_handles"
  unfolding ClearUserinfo_def by (auto intro!: safe_seq safe_rules)

lemma safe_OnAberrant [safe_rules]: "safe H (OnAberrant E s) no_handles"
  unfolding OnAberrant_def
  by (rule safe_bind, rule safe_sockets) (auto intro!: safe_seq safe_rules)

lemma safe_OnUserQuit [safe_rules]: "safe H (OnUserQuit E s h p) no_handles"
  unfolding OnUserQuit_def Let_def
  by (rule safe_bind, rule safe_lookups) (auto intro!: safe_seq safe_rules)

lemma safe_OnCreateGroupInfo [safe_rules]: "safe H (OnCreateGroupInfo p g t s) no_handles"
  unfolding OnCreateGroupInfo_def Let_def by (auto intro!: safe_seq safe_rules)

lemma safe_front [safe_rules]: "safe H (front ms) no_handles"
  unfolding front_def by (auto intro!: safe_seq safe_rules)

lemma safe_open_group [safe_rules]: "safe H (open_group E s p u i t us ui g) no_handles"
  unfolding open_group_def by (auto intro!: safe_seq safe_rules)

lemma safe_OnGetGroupInfo [safe_rules]: "safe H (OnGetGroupInfo E s p u i t us) no_handles"
  unfolding OnGetGroupInfo_def
  by (rule safe_bind, rule safe_lookups) (auto intro!: safe_seq safe_rules)

lemma safe_OnGetTempGroupInfo [safe_rules]: "safe H (OnGetTempGroupInfo E s p u i t us) no_handles"
  unfolding OnGetTempGroupInfo_def
  by (rule safe_bind, rule safe_lookups) (auto intro!: safe_seq safe_rules)

lemma safe_select_session [safe_rules]: "safe H (select_session E p u i ui) no_handles"
  unfolding select_session_def by (auto intro!: safe_seq safe_rules)

lemma safe_find_opposite [safe_rules]: "safe H (find_opposite E p u i) no_handles"
  unfolding find_opposite_def
  apply (rule safe_bind, rule safe_lookups)
  apply (rule safe_option)
  apply (rule safe_bind, rule safe_rules)
  apply (rule safe_bind, rule safe_GetUserInfo, simp)
  apply (auto intro!: safe_seq safe_rules)
  done

lemma safe_OnGetUserInfo [safe_rules]: "safe H (OnGetUserInfo E s p u i t us) no_handles"
  unfolding OnGetUserInfo_def
  by (auto intro!: safe_seq safe_rules safe_drop [OF safe_lookups(3)])

lemma safe_OnGetOppInfos [safe_rules]: "safe H (OnGetOppInfos E s h p) no_handles"
  unfolding OnGetOppInfos_def Let_def
  by (rule safe_bind, rule safe_lookups) (auto intro!: safe_seq safe_rules)

lemma safe_OnUserGroupOnline [safe_rules]: "safe H (OnUserGroupOnline E s h p) no_handles"
  unfolding OnUserGroupOnline_def
  apply (rule safe_seq, rule safe_rules)
  apply (rule safe_if, rule safe_return, simp)
  apply (rule safe_bind, rule safe_lookups)
  apply (auto intro!: safe_seq safe_rules)
  done

end
