(* ===== verification/ChatServer.thy ===== *)
theory ChatServer
  imports UserConnection
begin

text \<open>
  Messages and dispatch: \<^verbatim>\<open>IMSMgr\<close> (\<^verbatim>\<open>src/server/chat/chat/im_mgr.cc\<close>), \<^verbatim>\<open>FileMgr\<close>
  (\<^verbatim>\<open>file_mgr.cc\<close>) and \<^verbatim>\<open>ChatManager\<close> (\<^verbatim>\<open>chat_manager.cc\<close>), whose calls are the steps of the
  server.
\<close>

section \<open>im_mgr.cc\<close>

abbreviation MESSAGE_TYPE :: int32 where "MESSAGE_TYPE \<equiv> 3"

definition OnCreatePrviateChat :: "bool chat_m" where
  "OnCreatePrviateChat = State_Monad.return True"

definition confirm_reply :: "env \<Rightarrow> packet_confirm \<Rightarrow> body" where
  "confirm_reply E p = Confirm \<lparr>pc_platform_id = pc_platform_id p, pc_send_user_id = pc_send_user_id p,
     pc_recv_user_id = pc_recv_user_id p, pc_private_msg_id = e_junk64 E, pc_session_id = e_junk64 E,
     pc_token = e_junk E TOKEN_LEN\<rparr>"

text \<open>The reply takes its message id from the packet's private one; three of its fields are
  never set.\<close>

definition OnConfirmMessage :: "env \<Rightarrow> int32 \<Rightarrow> packet_head \<Rightarrow> packet_confirm \<Rightarrow> bool chat_m" where
  "OnConfirmMessage E socket h p = do {
     x \<leftarrow> DelConfirmMessage (pc_platform_id p) (msg_id h);
     u \<leftarrow> GetUserInfos (pc_platform_id p) (pc_send_user_id p);
     case u of
       None \<Rightarrow> State_Monad.return False
     | Some recv_user_info \<Rightarrow> do {
         d \<leftarrow> get_user recv_user_info;
         h' \<leftarrow> MAKE_HEAD E PACKET_CONFIRM CHAT_TYPE 0 (to_int (ud_session d));
         x \<leftarrow> SendMessage E (ud_socket d) (h'\<lparr>msg_id := pc_private_msg_id p\<rparr>) (confirm_reply E p);
         State_Monad.return True }
   }"

definition LeaveMessage ::
  "env \<Rightarrow> int64 \<Rightarrow> int64 \<Rightarrow> int32 \<Rightarrow> int64 \<Rightarrow> int64 \<Rightarrow> user_info \<Rightarrow> byte list \<Rightarrow> bool chat_m" where
  "LeaveMessage E pid mid type oppid current send_userinfo message = do {
     d \<leftarrow> get_user send_userinfo;
     r \<leftarrow> RecordChatMessage E type \<lparr>mi_platform = pid, mi_msgid = mid, mi_fid = ud_user_id d,
            mi_oppid = oppid, mi_type = type, mi_nickname = ud_nickname d, mi_message = message,
            mi_lasttime = GetCurrentTimeFormat E current, mi_head = ud_head_url d\<rparr>;
     State_Monad.return True
   }"

text \<open>The overload for two users, which nothing calls.\<close>

definition LeaveMessageTo ::
  "env \<Rightarrow> int64 \<Rightarrow> int64 \<Rightarrow> int64 \<Rightarrow> user_info \<Rightarrow> user_info \<Rightarrow> byte list \<Rightarrow> bool chat_m" where
  "LeaveMessageTo E pid mid current send_userinfo recv_userinfo message = do {
     s \<leftarrow> get_user send_userinfo;
     r \<leftarrow> get_user recv_userinfo;
     RecordMessage E pid (ud_user_id s) (ud_user_id r) mid message (GetCurrentTimeFormat E current)
   }"

definition group_message :: "multi_chat_send \<Rightarrow> user_data \<Rightarrow> body" where
  "group_message p d = ChatRecv \<lparr>cr_platform_id = cs_platform_id p, cr_multi_id = cs_multi_id p,
     cr_send_user_id = cs_send_user_id p, cr_send_nickname = SafeStrncpy NICKNAME_LEN (ud_nickname d),
     cr_content = cs_content p\<rparr>"

definition OnGroupMessage :: "env \<Rightarrow> int32 \<Rightarrow> packet_head \<Rightarrow> multi_chat_send \<Rightarrow> bool chat_m" where
  "OnGroupMessage E socket h p = do {
     g \<leftarrow> GetGroupInfos (cs_platform_id p) (cs_multi_id p);
     (if g = None then State_Monad.return False
      else do {
        u \<leftarrow> GetUserInfos (cs_platform_id p) (cs_send_user_id p);
        case u of
          None \<Rightarrow> State_Monad.return False
        | Some send_user_info \<Rightarrow> do {
            mid \<leftarrow> GenaratePushMsgID E 0;
            h' \<leftarrow> MAKE_HEAD E MULTI_CHAT_RECV CHAT_TYPE 0 (reserverd h);
            d \<leftarrow> get_user send_user_info;
            x \<leftarrow> SendMeetingNotSelf E (cs_platform_id p) (cs_multi_id p) (cs_send_user_id p)
                   (cs_session p) h' (group_message p d);
            t \<leftarrow> time_now E;
            x \<leftarrow> LeaveMessage E (cs_platform_id p) mid DIMENSION_GROUP_CHAT (cs_multi_id p) t
                   send_user_info (cs_content p);
            State_Monad.return True } })
   }"

text \<open>The summary of the message is what is left of it in the list of messages.\<close>

definition OffLineMessage ::
  "env \<Rightarrow> int64 \<Rightarrow> int64 \<Rightarrow> int64 \<Rightarrow> user_info \<Rightarrow> user_info \<Rightarrow> byte list \<Rightarrow> byte list chat_m" where
  "OffLineMessage E pid mid current send_userinfo recv_userinfo message = do {
     (summary, s_distance) \<leftarrow> MakeLeaveContent E send_userinfo recv_userinfo message TYPE_TEXT;
     s \<leftarrow> get_user send_userinfo;
     r \<leftarrow> get_user recv_userinfo;
     x \<leftarrow> RecordUserMessageList E MESSAGE_TYPE (ud_user_id s) (ud_user_id r) s_distance summary;
     State_Monad.return summary
   }"

definition PushMessage :: "int64 \<Rightarrow> user_info \<Rightarrow> user_info \<Rightarrow> byte list \<Rightarrow> bool chat_m" where
  "PushMessage pid send_userinfo recv_userinfo message = do {
     s \<leftarrow> get_user send_userinfo;
     r \<leftarrow> get_user recv_userinfo;
     emit (Pushed (ud_user_id r) (ud_user_id s) message);
     State_Monad.return True
   }"

definition private_recv :: "text_chat_private_send \<Rightarrow> body" where
  "private_recv p = PrivateRecv \<lparr>tr_platform_id = ts_platform_id p, tr_send_user_id = ts_send_user_id p,
     tr_recv_user_id = ts_recv_user_id p, tr_content = ts_content p\<rparr>"

text \<open>The sender is looked up among the users of the platform, but the system user 10000 is
  taken from the database, whatever the answer.\<close>

definition find_sender :: "env \<Rightarrow> text_chat_private_send \<Rightarrow> (bool \<times> user_info) chat_m" where
  "find_sender E p = do {
     fresh \<leftarrow> new_user default_user;
     (if ts_send_user_id p \<noteq> 10000 then do {
        u \<leftarrow> GetUserInfos (ts_platform_id p) (ts_send_user_id p);
        State_Monad.return (case u of None \<Rightarrow> (False, fresh) | Some send_user_info \<Rightarrow> (True, send_user_info)) }
      else do {
        (r, send_user_info) \<leftarrow> GetUserInfo E (ts_platform_id p) (ts_send_user_id p) fresh;
        State_Monad.return (True, send_user_info) })
   }"

text \<open>The receiver: found online, found in the database, or unknown.\<close>

definition find_receiver :: "env \<Rightarrow> text_chat_private_send \<Rightarrow> (bool \<times> bool \<times> user_info) chat_m" where
  "find_receiver E p = do {
     u \<leftarrow> GetUserInfos (ts_platform_id p) (ts_recv_user_id p);
     case u of
       Some recv_user_info \<Rightarrow> State_Monad.return (True, False, recv_user_info)
     | None \<Rightarrow> do {
         fresh \<leftarrow> new_user default_user;
         (r, recv_user_info) \<leftarrow> GetUserInfo E (ts_platform_id p) (ts_recv_user_id p) fresh;
         State_Monad.return (r, True, recv_user_info) }
   }"

definition deliver_private ::
  "env \<Rightarrow> packet_head \<Rightarrow> text_chat_private_send \<Rightarrow> int64 \<Rightarrow> user_info \<Rightarrow> user_info \<Rightarrow> unit chat_m" where
  "deliver_private E h p mid send_user_info recv_user_info = do {
     h' \<leftarrow> MAKE_HEAD E TEXT_CHAT_PRIVATE_RECV CHAT_TYPE 0 (reserverd h);
     d \<leftarrow> get_user recv_user_info;
     x \<leftarrow> SendMessage E (ud_socket d) (h'\<lparr>msg_id := mid\<rparr>) (private_recv p);
     x \<leftarrow> AddConfirmMessage (ts_platform_id p) mid send_user_info;
     State_Monad.return ()
   }"

definition OnMessage :: "env \<Rightarrow> int32 \<Rightarrow> packet_head \<Rightarrow> text_chat_private_send \<Rightarrow> bool chat_m" where
  "OnMessage E socket h p = do {
     userinfo \<leftarrow> new_user default_user;
     r \<leftarrow> CheckChatToken userinfo (ts_token p);
     (let r = True in
      if \<not> r then do {
        x \<leftarrow> SendErrorCode E socket USER_LOGIN_FAILED ERROR_TYPE 0 (reserverd h)
               MIG_CHAT_USER_PASSWORD_ERROR;
        State_Monad.return False }
      else do {
        (r, send_user_info) \<leftarrow> find_sender E p;
        s \<leftarrow> get_user send_user_info;
        (if \<not> r then do {
           x \<leftarrow> senderror E socket USER_LOGIN_FAILED 0 (to_int (ud_session s)) MIG_CHAT_USER_NO_EXIST;
           State_Monad.return False }
         else do {
           (r, is_push, recv_user_info) \<leftarrow> find_receiver E p;
           (if \<not> r then do {
              x \<leftarrow> senderror E socket USER_LOGIN_FAILED 0 (to_int (ud_session s)) MIG_CHAT_USER_NO_EXIST;
              State_Monad.return False }
            else do {
              mid \<leftarrow> GenaratePushMsgID E (e_junk64 E);
              d \<leftarrow> get_user recv_user_info;
              (if is_push then do {
                 t \<leftarrow> time_now E;
                 summary \<leftarrow> OffLineMessage E (ts_platform_id p) mid t send_user_info recv_user_info
                              (ts_content p);
                 x \<leftarrow> PushMessage (ts_platform_id p) send_user_info recv_user_info summary;
                 State_Monad.return () }
               else if ud_session d \<noteq> ts_session p then do {
                 t \<leftarrow> time_now E;
                 summary \<leftarrow> OffLineMessage E (ts_platform_id p) mid t send_user_info recv_user_info
                              (ts_content p);
                 State_Monad.return () }
               else deliver_private E h p mid send_user_info recv_user_info);
              t \<leftarrow> time_now E;
              LeaveMessage E (ts_platform_id p) mid ALONE_CHAT (ts_recv_user_id p) t send_user_info
                (ts_content p) }) }) })
   }"

section \<open>file_mgr.cc\<close>

definition sound_url :: "byte list" where
  "sound_url = ascii ''http://sound.miglab.com/''"

definition sound_recv :: "multi_sound_send \<Rightarrow> body" where
  "sound_recv p = SoundRecv \<lparr>mr_platform_id = ms_platform_id p, mr_multi_id = ms_multi_id p,
     mr_send_user_id = ms_send_user_id p, mr_sound_path = sound_url @ ms_sound_path p\<rparr>"

definition OnGroupSound :: "env \<Rightarrow> int32 \<Rightarrow> packet_head \<Rightarrow> multi_sound_send \<Rightarrow> bool chat_m" where
  "OnGroupSound E socket h p = do {
     h' \<leftarrow> MAKE_HEAD E MULTI_SOUND_RECV MEDIA_TYPE 0 (reserverd h);
     x \<leftarrow> SendMeetingMessage E (ms_platform_id p) (ms_multi_id p) (ms_session p) h' (sound_recv p);
     State_Monad.return True
   }"

section \<open>chat_manager.cc\<close>

definition InitDefaultPlatformInfo :: "env \<Rightarrow> bool chat_m" where
  "InitDefaultPlatformInfo E = do {
     SetPlatformInfo 10000 \<lparr>pi_platform_id = 10000, pi_platform_name = ascii ''miu''\<rparr>;
     x \<leftarrow> GetDimensionGroup E;
     State_Monad.return True
   }"

text \<open>The switch on the operation code; the packet was cast to the struct of that code.\<close>

definition dispatch :: "env \<Rightarrow> int32 \<Rightarrow> packet_head \<Rightarrow> body \<Rightarrow> bool chat_m" where
  "dispatch E socket h b = (case b of
       Login p \<Rightarrow> OnUserLogin E socket h p
     | Quit p \<Rightarrow> OnUserQuit E socket h p
     | ReqOpposition p \<Rightarrow> OnGetOppInfos E socket h p
     | PrivateSend p \<Rightarrow> OnMessage E socket h p
     | Confirm p \<Rightarrow> OnConfirmMessage E socket h p
     | SoundSend p \<Rightarrow> OnGroupSound E socket h p
     | ChatSend p \<Rightarrow> OnGroupMessage E socket h p
     | OnlineReq p \<Rightarrow> OnUserGroupOnline E socket h p
     | _ \<Rightarrow> State_Monad.return True)"

text \<open>\<^verbatim>\<open>msg\<close> is a buffer of \<^verbatim>\<open>len\<close> bytes or NULL; the length is compared unsigned.  A read
  beyond the message and a dump beyond its buffer are crashes.\<close>

definition OnChatManagerMessage :: "env \<Rightarrow> int32 \<Rightarrow> byte list option \<Rightarrow> int32 \<Rightarrow> bool chat_m" where
  "OnChatManagerMessage E socket m len =
     (if sint socket \<le> 0 \<or> m = None \<or> (scast len :: int64) < 31 then State_Monad.return False
      else case UnpackStream (the m) len of
        None \<Rightarrow> State_Monad.return False
      | Some ((h, b), p) \<Rightarrow> do {
          (if in_fault p \<noteq> None \<or> dump_overrun (DumpPacket h b) then crash else State_Monad.return ());
          x \<leftarrow> dispatch E socket h b;
          State_Monad.return True })"

definition OnChatManagerClose :: "env \<Rightarrow> int32 \<Rightarrow> bool chat_m" where
  "OnChatManagerClose E socket = do { x \<leftarrow> OnAberrant E socket; State_Monad.return True }"

definition OnBroadcastConnect :: "int32 \<Rightarrow> bool chat_m" where
  "OnBroadcastConnect socket = do { SetRobotServerSocket socket; State_Monad.return True }"

text \<open>Connections, other broadcasts and timers change nothing.\<close>

definition OnChatConnect :: "bool chat_m" where "OnChatConnect = State_Monad.return True"
definition OnBroadcastMessage :: "bool chat_m" where "OnBroadcastMessage = State_Monad.return True"
definition OnBroadcastClose :: "bool chat_m" where "OnBroadcastClose = State_Monad.return True"
definition OnTimeout :: "bool chat_m" where "OnTimeout = State_Monad.return True"

section \<open>The server as a state machine\<close>

definition runs :: "'a chat_m \<Rightarrow> world \<Rightarrow> world" where
  "runs m w = snd (run_state m w)"

inductive server_step :: "env \<Rightarrow> world \<Rightarrow> world \<Rightarrow> bool" for E where
  message: "server_step E w (runs (OnChatManagerMessage E socket m len) w)"
| closed: "server_step E w (runs (OnChatManagerClose E socket) w)"
| robot_server: "server_step E w (runs (OnBroadcastConnect socket) w)"
| idle: "server_step E w (runs OnTimeout w)"

inductive reachable :: "env \<Rightarrow> world \<Rightarrow> bool" for E where
  start: "reachable E (runs (InitDefaultPlatformInfo E) empty_world)"
| step: "reachable E w \<Longrightarrow> server_step E w w' \<Longrightarrow> reachable E w'"

inductive_cases server_stepE: "server_step E w w'"

section \<open>Invariant\<close>

lemma safe_OnConfirmMessage [safe_rules]: "safe H (OnConfirmMessage E s h p) no_handles"
  unfolding OnConfirmMessage_def
  by (auto intro!: safe_seq safe_rules safe_drop [OF safe_lookups(3)])

lemma safe_LeaveMessage [safe_rules]:
  "safe H (LeaveMessage E p m t u c s txt) no_handles" "safe H (LeaveMessageTo E p m c s r txt) no_handles"
  unfolding LeaveMessage_def LeaveMessageTo_def by (auto intro!: safe_seq safe_rules)

lemma safe_OnGroupMessage [safe_rules]: "safe H (OnGroupMessage E s h p) no_handles"
  unfolding OnGroupMessage_def
  by (auto intro!: safe_seq safe_rules safe_drop [OF safe_lookups(3)])

lemma safe_OffLineMessage [safe_rules]: "safe H (OffLineMessage E p m t s r txt) no_handles"
  unfolding OffLineMessage_def by (auto intro!: safe_seq safe_rules)

lemma safe_PushMessage [safe_rules]: "safe H (PushMessage p s r txt) no_handles"
  unfolding PushMessage_def by (auto intro!: safe_seq safe_rules)

lemma safe_find_sender [safe_rules]: "safe H (find_sender E p) (\<lambda>(r, h). {h})"
  unfolding find_sender_def
  apply (rule safe_bind, rule safe_new_user)
  apply (rule safe_if)
   apply (rule safe_bind, rule safe_lookups)
   apply (auto intro!: safe_return split: option.split)[1]
  apply (rule safe_bind, rule safe_GetUserInfo)
  apply (auto intro!: safe_return)
  done

lemma safe_find_receiver [safe_rules]: "safe H (find_receiver E p) no_handles"
  unfolding find_receiver_def
  apply (rule safe_seq, rule safe_drop, rule safe_lookups)
  apply (rule safe_option)
   apply (rule safe_bind, rule safe_new_user)
   apply (rule safe_bind, rule safe_GetUserInfo)
  apply (auto intro!: safe_return)
  done

lemma safe_deliver_private: "u \<in> H \<Longrightarrow> safe H (deliver_private E h p m u r) no_handles"
  unfolding deliver_private_def by (auto intro!: safe_seq safe_rules)

lemma safe_OnMessage [safe_rules]: "safe H (OnMessage E s h p) no_handles"
  unfolding OnMessage_def Let_def
  apply (rule safe_seq, rule safe_drop, rule safe_new_user)
  apply (rule safe_seq, rule safe_rules)
  apply (rule safe_if, blast)
  apply (rule safe_bind, rule safe_find_sender)
  apply (auto intro!: safe_seq safe_rules safe_deliver_private)
  done

lemma safe_OnGroupSound [safe_rules]: "safe H (OnGroupSound E s h p) no_handles"
  unfolding OnGroupSound_def by (auto intro!: safe_seq safe_rules)

lemma safe_dispatch [safe_rules]: "safe H (dispatch E s h b) no_handles"
  unfolding dispatch_def by (auto intro!: safe_rules split: body.split)

lemma safe_OnChatManagerMessage: "safe H (OnChatManagerMessage E s m len) no_handles"
proof -
  have "safe H (do {
      (if c then crash else State_Monad.return ());
      x \<leftarrow> dispatch E s h b;
      State_Monad.return True }) no_handles" for c h b
    by (auto intro!: safe_seq safe_rules)
  then show ?thesis unfolding OnChatManagerMessage_def
    by (auto intro!: safe_return split: option.split)
qed

lemma empty_cache_ok: "platform_ok n empty_cache"
  by (simp add: platform_ok_def empty_cache_def handles_ok_def inner_sorted_def)

lemma safe_SetPlatformInfo [safe_rules]: "safe H (SetPlatformInfo pid info) no_handles"
proof -
  have "world_ok (put_platform pid (pc\<lparr>platform_info_of := info\<rparr>) w)"
    if "world_ok w" "pc = empty_cache \<or> GetPlatformCache pid w = Some pc" for w pc
  proof -
    have "platform_ok (length (heap w)) pc"
      using that empty_cache_ok
      by (fastforce simp: world_ok_def GetPlatformCache_def dest: map_find_in_set)
    with that(1) set_map_set [of pid "pc\<lparr>platform_info_of := info\<rparr>" "platforms w"] show ?thesis
      by (auto simp: world_ok_def put_platform_def platform_ok_def)
  qed
  then show ?thesis
    by (auto simp: safe_def SetPlatformInfo_def valid_def put_platform_def Let_def split: option.split)
qed

lemma runs_ok: "safe {} m no_handles \<Longrightarrow> world_ok w \<Longrightarrow> world_ok (runs m w)"
  unfolding safe_def runs_def by (metis (no_types, lifting) case_prod_conv empty_iff prod.collapse)

lemma server_step_ok: "server_step E w w' \<Longrightarrow> world_ok w \<Longrightarrow> world_ok w'"
proof (erule server_stepE, goal_cases)
  case (1 s m len)
  then show ?case using runs_ok [OF safe_OnChatManagerMessage] by simp
next
  case (2 s)
  then show ?case unfolding OnChatManagerClose_def
    by (auto intro!: runs_ok safe_seq safe_rules)
next
  case (3 s)
  then show ?case unfolding OnBroadcastConnect_def
    by (auto intro!: runs_ok safe_seq safe_rules)
next
  case 4
  then show ?case by (auto intro!: runs_ok safe_rules simp: OnTimeout_def)
qed

text \<open>In every state the chat server reaches from its start by messages of any content, closed
  connections and robot connections, all maps are in order and every user in a map is an
  allocated object.\<close>

theorem reachable_world_ok: "reachable E w \<Longrightarrow> world_ok w"
proof (induction rule: reachable.induct)
  case start
  then show ?case unfolding InitDefaultPlatformInfo_def
    by (auto intro!: runs_ok safe_seq safe_rules)
next
  case (step w w')
  then show ?case by (metis server_step_ok)
qed

end
