(* ===== verification/ChatSessions.thy ===== *)
theory ChatSessions
  imports ChatServer
begin

text \<open>
  What login, quitting, a lost connection and opening a conversation do to the users, sockets
  and meetings of the chat server, and which packets they send: the behaviour of the handlers
  of \<^verbatim>\<open>UserConnection\<close>.
\<close>

section \<open>Running the operations of the cache\<close>

lemma GetPlatformCache_simps [simp]:
  "GetPlatformCache pid (w\<lparr>sockets := m\<rparr>) = GetPlatformCache pid w"
  "GetPlatformCache pid (w\<lparr>heap := us\<rparr>) = GetPlatformCache pid w"
  "GetPlatformCache pid (w\<lparr>events := es\<rparr>) = GetPlatformCache pid w"
  "GetPlatformCache pid (w\<lparr>draws := n\<rparr>) = GetPlatformCache pid w"
  "GetPlatformCache pid (w\<lparr>ticks := n\<rparr>) = GetPlatformCache pid w"
  "GetPlatformCache pid (w\<lparr>pushes := n\<rparr>) = GetPlatformCache pid w"
  "GetPlatformCache pid (w\<lparr>sends := n\<rparr>) = GetPlatformCache pid w"
  "GetPlatformCache pid (w\<lparr>queries := n\<rparr>) = GetPlatformCache pid w"
  "GetPlatformCache pid (w\<lparr>crashed := c\<rparr>) = GetPlatformCache pid w"
  "GetPlatformCache pid (after_sends w k c es) = GetPlatformCache pid w"
  "GetPlatformCache pid (put_platform pid' pc w) =
     (if pid = pid' then Some pc else GetPlatformCache pid w)"
  by (simp_all add: GetPlatformCache_def put_platform_def)

lemma put_platform_simps [simp]:
  "sockets (put_platform pid pc w) = sockets w" "heap (put_platform pid pc w) = heap w"
  "events (put_platform pid pc w) = events w" "draws (put_platform pid pc w) = draws w"
  "ticks (put_platform pid pc w) = ticks w" "pushes (put_platform pid pc w) = pushes w"
  "sends (put_platform pid pc w) = sends w" "queries (put_platform pid pc w) = queries w"
  "crashed (put_platform pid pc w) = crashed w"
  "robot_server_socket (put_platform pid pc w) = robot_server_socket w"
  by (simp_all add: put_platform_def)

lemma user_of_simps [simp]:
  "user_of h (w\<lparr>sockets := m\<rparr>) = user_of h w" "user_of h (w\<lparr>events := es\<rparr>) = user_of h w"
  "user_of h (w\<lparr>draws := n\<rparr>) = user_of h w" "user_of h (w\<lparr>ticks := n\<rparr>) = user_of h w"
  "user_of h (w\<lparr>pushes := n\<rparr>) = user_of h w" "user_of h (w\<lparr>sends := n\<rparr>) = user_of h w"
  "user_of h (w\<lparr>queries := n\<rparr>) = user_of h w" "user_of h (w\<lparr>crashed := c\<rparr>) = user_of h w"
  "user_of h (put_platform pid pc w) = user_of h w"
  by (simp_all add: user_of_def)

lemma run_with_platform:
  "GetPlatformCache pid w = Some pc \<Longrightarrow>
   run_state (with_platform pid d f) w = (case f pc of (a, pc') \<Rightarrow> (a, put_platform pid pc' w))"
  by (simp add: with_platform_def)

lemma run_update_user:
  "run_state (update_user h f) w = ((), w\<lparr>heap := (heap w)[h := f (user_of h w)]\<rparr>)"
  by (simp add: update_user_def)

lemma user_of_update [simp]:
  "user_of k (w\<lparr>heap := (heap w)[h := d]\<rparr>) = (if k = h \<and> h < length (heap w) then d else user_of k w)"
  by (auto simp: user_of_def)

definition head_with :: "packet_head \<Rightarrow> int32 \<Rightarrow> int16 \<Rightarrow> int32 \<Rightarrow> bool" where
  "head_with h op type res \<longleftrightarrow> operate_code h = op \<and> msg_type h = type \<and> reserverd h = res \<and>
     packet_length h = 0 \<and> data_length h = 0 \<and> is_zip h = 0"

lemma run_MAKE_HEAD:
  "\<exists>h'. head_with h' op type res \<and> run_state (MAKE_HEAD E op type 0 res) w =
     (h', w\<lparr>ticks := ticks w + 1, draws := draws w + 1\<rparr>)"
  by (simp add: MAKE_HEAD_def make_head_with_def time_now_def GetRandomID_def head_with_def Let_def)

lemma packs_body: "operate_code h = operatorcode b \<Longrightarrow> 0 \<le> sint (payload_size b + 31) \<Longrightarrow> packs h b"
  by (simp add: packs_def cast_body_def)

lemma run_senderror:
  assumes "0 < sint s" and "op = USER_LOGIN_FAILED"
  shows "\<exists>h n c bytes ok. head_with h op ERROR_TYPE session \<and>
    run_state (senderror E s op 0 session code) w =
      (ok, after_sends (w\<lparr>ticks := ticks w + 1, draws := draws w + 1\<rparr>) n c
      [Sent s h (Failed \<lparr>cf_platform_id = 10000, cf_error_msg = migchat_strerror code\<rparr>) bytes ok])"
proof -
  obtain h where h: "head_with h op ERROR_TYPE session"
    "run_state (MAKE_HEAD E op ERROR_TYPE 0 session) w =
      (h, w\<lparr>ticks := ticks w + 1, draws := draws w + 1\<rparr>)"
    using run_MAKE_HEAD by blast
  let ?b = "Failed \<lparr>cf_platform_id = 10000, cf_error_msg = migchat_strerror code\<rparr>"
  have "packs h ?b"
    using h(1) assms(2) by (intro packs_body) (simp_all add: head_with_def migchat_strerror_def)
  from run_SendMessage [OF this assms(1), of E "w\<lparr>ticks := ticks w + 1, draws := draws w + 1\<rparr>"] h
  show ?thesis unfolding senderror_def SendErrorCode_def by fastforce
qed

section \<open>Login\<close>

definition logged_in :: "env \<Rightarrow> int32 \<Rightarrow> user_login \<Rightarrow> int64 \<Rightarrow> user_data \<Rightarrow> user_data" where
  "logged_in E socket p random d = d\<lparr>ud_socket := socket, ud_platform_token := c_string (ul_token p),
     ud_chat_token := e_md5 E (decimal (sint (to_int random)))\<rparr>"

definition random_id :: "env \<Rightarrow> nat \<Rightarrow> int64" where
  "random_id E n = (if 0 < sint (e_random E n) then e_random E n else - e_random E n)"

lemma run_GetRandomID: "run_state (GetRandomID E) w = (random_id E (draws w), w\<lparr>draws := draws w + 1\<rparr>)"
  by (simp add: GetRandomID_def random_id_def Let_def)

lemma packs_login_sucess: "head_with h USER_LOGIN_SUCESS t r \<Longrightarrow> packs h (login_sucess p d)"
  by (intro packs_body) (simp_all add: head_with_def login_sucess_def)

text \<open>The state in which a successful login sends its answer: the fresh user object is discarded,
  those of the database's rows follow, the last being the one kept.\<close>

definition login_world :: "env \<Rightarrow> int32 \<Rightarrow> user_login \<Rightarrow> user_data list \<Rightarrow> platform_cache \<Rightarrow> world \<Rightarrow> world" where
  "login_world E socket p us pc w =
     (let n = length (heap w) + length us;
          q = c_string (sql_get_user_info (ul_platform_id p) (ul_user_id p))
      in w\<lparr>queries := queries w + 1, events := events w @ [Sql q],
          platforms := map_set (ul_platform_id p)
            (pc\<lparr>user_infos_map := map_set (ul_user_id p) n (user_infos_map pc)\<rparr>) (platforms w),
          sockets := map_set socket n (sockets w), draws := draws w + 1,
          heap := heap w @ default_user # butlast us @
             [logged_in E socket p (random_id E (draws w)) (last us)]\<rparr>)"

lemma run_OnUserLogin:
  assumes us: "known_user E (queries w) (ul_platform_id p) (ul_user_id p) = us" "us \<noteq> []"
    and pc: "GetPlatformCache (ul_platform_id p) w = Some pc"
  shows "\<exists>h'. head_with h' USER_LOGIN_SUCESS USER_TYPE (reserverd h) \<and>
    run_state (OnUserLogin E socket h p) w = run_state (SendMessage E socket h'
       (login_sucess p (logged_in E socket p (random_id E (draws w)) (last us))))
       (let v = login_world E socket p us pc w in v\<lparr>ticks := ticks v + 1, draws := draws v + 1\<rparr>)"
proof -
  let ?w1 = "w\<lparr>heap := heap w @ [default_user]\<rparr>"
  let ?n = "length (heap w) + length us"
  have g: "run_state (GetUserInfo E (ul_platform_id p) (ul_user_id p) (length (heap w))) ?w1 =
    ((True, ?n), ?w1\<lparr>queries := queries w + 1, heap := heap w @ default_user # us,
       events := events w @ [Sql (c_string (sql_get_user_info (ul_platform_id p) (ul_user_id p)))]\<rparr>)"
    using run_GetUserInfo_known [of E ?w1, OF _ us(2)] us(1) by simp
  obtain ds d where snoc: "us = ds @ [d]" using us(2) by (metis rev_exhaust)
  define w2 where "w2 = login_world E socket p us pc w"
  obtain h' where h': "head_with h' USER_LOGIN_SUCESS USER_TYPE (reserverd h)"
    "run_state (MAKE_HEAD E USER_LOGIN_SUCESS USER_TYPE 0 (reserverd h)) w2 =
      (h', w2\<lparr>ticks := ticks w2 + 1, draws := draws w2 + 1\<rparr>)"
    using run_MAKE_HEAD by blast
  have heap2: "heap w2 = (heap w @ default_user # ds @ [d])[Suc (length (heap w) + length ds) :=
      logged_in E socket p (random_id E (draws w)) d]"
    using snoc by (simp add: w2_def login_world_def Let_def list_update_append)
  have u: "user_of ?n w2 = logged_in E socket p (random_id E (draws w)) (last us)"
    using snoc heap2 by (simp add: user_of_def)
  have "run_state (OnUserLogin E socket h p) w =
     run_state (do { h' \<leftarrow> MAKE_HEAD E USER_LOGIN_SUCESS USER_TYPE 0 (reserverd h);
           d \<leftarrow> get_user ?n;
           SendMessage E socket h' (login_sucess p d) }) w2"
    unfolding OnUserLogin_def
    using snoc by (simp add: new_user_def g set_socket_def set_platform_token_def run_update_user
      AddUserInfos_def with_platform_def MapAdd_def pc AddSocket_def SetChatToken_def
      run_GetRandomID set_chat_token_def w2_def login_world_def Let_def put_platform_def
      logged_in_def user_of_def nth_append list_update_append)
  then show ?thesis using h' u by (auto simp: w2_def get_user_def Let_def)
qed

lemma run_runs: "run_state m w = (a, w') \<Longrightarrow> runs m w = w'"
  by (simp add: runs_def)

definition sent_by :: "'a chat_m \<Rightarrow> world \<Rightarrow> (int32 \<times> packet_head \<times> body) list" where
  "sent_by m w = deliveries (new_events m w)"

lemma sent_by_run: "run_state m w = (a, w') \<Longrightarrow> events w' = events w @ es \<Longrightarrow> sent_by m w = deliveries es"
  by (simp add: sent_by_def new_events_def)

lemma login_effect:
  fixes h :: packet_head
  assumes "known_user E (queries w) (ul_platform_id p) (ul_user_id p) = us" and "us \<noteq> []"
    and "GetPlatformCache (ul_platform_id p) w = Some pc" and "0 < sint socket"
  defines "w' \<equiv> runs (OnUserLogin E socket h p) w" and "u \<equiv> length (heap w) + length us"
  shows "GetPlatformCache (ul_platform_id p) w' =
      Some (pc\<lparr>user_infos_map := map_set (ul_user_id p) u (user_infos_map pc)\<rparr>) \<and>
    sockets w' = map_set socket u (sockets w) \<and>
    user_of u w' = logged_in E socket p (random_id E (draws w)) (last us) \<and>
    (\<forall>v < length (heap w). user_of v w' = user_of v w) \<and>
    (\<exists>h'. head_with h' USER_LOGIN_SUCESS USER_TYPE (reserverd h) \<and>
      sent_by (OnUserLogin E socket h p) w = [(socket, h', login_sucess p (user_of u w'))])"
proof -
  define v where "v = login_world E socket p us pc w"
  obtain h' where h': "head_with h' USER_LOGIN_SUCESS USER_TYPE (reserverd h)"
    "run_state (OnUserLogin E socket h p) w = run_state (SendMessage E socket h'
       (login_sucess p (logged_in E socket p (random_id E (draws w)) (last us))))
       (v\<lparr>ticks := ticks v + 1, draws := draws v + 1\<rparr>)"
    using run_OnUserLogin [OF assms(1-3)] unfolding v_def Let_def by blast
  from run_SendMessage [OF packs_login_sucess [OF h'(1)] assms(4)] h'(2)
  obtain n c bytes ok where run: "run_state (OnUserLogin E socket h p) w =
    (ok, after_sends (v\<lparr>ticks := ticks v + 1, draws := draws v + 1\<rparr>) n c
      [Sent socket h' (login_sucess p (logged_in E socket p (random_id E (draws w)) (last us))) bytes ok])"
    by metis
  have u: "user_of u v = logged_in E socket p (random_id E (draws w)) (last us)"
    using assms(2) by (simp add: v_def login_world_def Let_def user_of_def u_def nth_append)
  have old: "user_of k v = user_of k w" if "k < length (heap w)" for k
    using that by (simp add: v_def login_world_def Let_def user_of_def nth_append)
  have sent: "sent_by (OnUserLogin E socket h p) w =
      [(socket, h', login_sucess p (logged_in E socket p (random_id E (draws w)) (last us)))]"
    using sent_by_run [OF run, of "Sql _ # _"] by (simp add: v_def login_world_def Let_def)
  have "sockets v = map_set socket u (sockets w)"
    "GetPlatformCache (ul_platform_id p) v =
      Some (pc\<lparr>user_infos_map := map_set (ul_user_id p) u (user_infos_map pc)\<rparr>)"
    by (simp_all add: v_def login_world_def Let_def GetPlatformCache_def u_def)
  then show ?thesis
    unfolding w'_def run_runs [OF run] using sent h'(1) u old by auto
qed

text \<open>C21: A login of a user the database knows enters the last row of the answer under the user id
  and under the socket, with socket, token and a fresh chat token set, changes no other user,
  and answers with exactly one USER_LOGIN_SUCESS carrying these data.\<close>

theorem OnUserLogin_known_user:
  fixes h :: packet_head
  assumes "known_user E (queries w) (ul_platform_id p) (ul_user_id p) = us" and "us \<noteq> []"
    and "GetPlatformCache (ul_platform_id p) w = Some pc" and "0 < sint socket"
  defines "w' \<equiv> runs (OnUserLogin E socket h p) w" and "u \<equiv> length (heap w) + length us"
  shows "GetPlatformCache (ul_platform_id p) w' =
      Some (pc\<lparr>user_infos_map := map_set (ul_user_id p) u (user_infos_map pc)\<rparr>) \<and>
    sockets w' = map_set socket u (sockets w) \<and>
    user_of u w' = logged_in E socket p (random_id E (draws w)) (last us) \<and>
    (\<forall>v < length (heap w). user_of v w' = user_of v w) \<and>
    (\<exists>h'. head_with h' USER_LOGIN_SUCESS USER_TYPE (reserverd h) \<and>
      sent_by (OnUserLogin E socket h p) w = [(socket, h', login_sucess p (user_of u w'))])"
  unfolding w'_def u_def by (rule login_effect [OF assms(1-4)])

lemma GetUserInfos_value:
  "fst (run_state (GetUserInfos pid k) w) = (case GetPlatformCache pid w of None \<Rightarrow> None
     | Some pc \<Rightarrow> MapGet (user_infos_map pc) (to_int k))"
  by (simp add: GetUserInfos_def with_platform_def split: option.split)

lemma MapGet_map_set:
  "MapGet (map_set k v m) (to_int k') =
    (if to_int k' = to_int k \<and> fits_int k then Some v else MapGet m (to_int k'))"
  unfolding MapGet_def fits_int_def by (simp, metis to_int_to_int64)

text \<open>C28: After a login the user is found under its id exactly when the id fits an int; a wider id
  is stored but found under no id at all, and every other lookup is unchanged.\<close>

theorem login_then_lookup:
  fixes h :: packet_head
  assumes "known_user E (queries w) (ul_platform_id p) (ul_user_id p) = us" and "us \<noteq> []"
    and "GetPlatformCache (ul_platform_id p) w = Some pc" and "0 < sint socket"
  shows "fst (run_state (GetUserInfos (ul_platform_id p) k) (runs (OnUserLogin E socket h p) w)) =
    (if to_int k = to_int (ul_user_id p) \<and> fits_int (ul_user_id p)
     then Some (length (heap w) + length us)
     else fst (run_state (GetUserInfos (ul_platform_id p) k) w))"
  using login_effect [OF assms, of h] assms(3) by (simp add: GetUserInfos_value MapGet_map_set)

text \<open>C37: A login of a user the database does not know leaves platforms and sockets as they were,
  answers with exactly one USER_LOGIN_FAILED and returns false.\<close>

theorem OnUserLogin_unknown_user:
  fixes h :: packet_head
  assumes "unknown_user E (queries w) (ul_platform_id p) (ul_user_id p)" and "0 < sint socket"
  defines "w' \<equiv> runs (OnUserLogin E socket h p) w"
  shows "platforms w' = platforms w \<and> sockets w' = sockets w \<and>
    fst (run_state (OnUserLogin E socket h p) w) = False \<and>
    (\<exists>h'. head_with h' USER_LOGIN_FAILED ERROR_TYPE (reserverd h) \<and>
      sent_by (OnUserLogin E socket h p) w = [(socket, h', Failed \<lparr>cf_platform_id = 10000,
        cf_error_msg = migchat_strerror MIG_CHAT_USER_NO_EXIST\<rparr>)])"
proof -
  let ?w1 = "w\<lparr>heap := heap w @ [default_user]\<rparr>"
  obtain es where g: "run_state (GetUserInfo E (ul_platform_id p) (ul_user_id p) (length (heap w))) ?w1 =
      ((False, length (heap w)), ?w1\<lparr>queries := queries w + 1, events := events w @ map Sql es\<rparr>)"
    using run_GetUserInfo_unknown [of E ?w1] assms(1) by fastforce
  let ?w2 = "?w1\<lparr>queries := queries w + 1, events := events w @ map Sql es\<rparr>"
  obtain h' n c bytes ok where h': "head_with h' USER_LOGIN_FAILED ERROR_TYPE (reserverd h)"
    "run_state (senderror E socket USER_LOGIN_FAILED 0 (reserverd h) MIG_CHAT_USER_NO_EXIST) ?w2 =
      (ok, after_sends (?w2\<lparr>ticks := ticks ?w2 + 1, draws := draws ?w2 + 1\<rparr>) n c
        [Sent socket h' (Failed \<lparr>cf_platform_id = 10000,
           cf_error_msg = migchat_strerror MIG_CHAT_USER_NO_EXIST\<rparr>) bytes ok])"
    using run_senderror [OF assms(2) refl] by blast
  have run: "run_state (OnUserLogin E socket h p) w =
      (False, after_sends (?w2\<lparr>ticks := ticks ?w2 + 1, draws := draws ?w2 + 1\<rparr>) n c
        [Sent socket h' (Failed \<lparr>cf_platform_id = 10000,
           cf_error_msg = migchat_strerror MIG_CHAT_USER_NO_EXIST\<rparr>) bytes ok])"
    using g h'(2) by (simp add: OnUserLogin_def new_user_def)
  show ?thesis
    unfolding w'_def run_runs [OF run] using h'(1) run sent_by_run [OF run, of "map Sql es @ [_]"]
    by auto
qed

section \<open>Leaving\<close>

text \<open>What \<^verbatim>\<open>DelMeetingInfos\<close> makes of a platform's maps.\<close>

definition leave_meeting :: "int64 \<Rightarrow> int64 \<Rightarrow> platform_cache \<Rightarrow> platform_cache" where
  "leave_meeting session uid pc =
     (let meeting = (case map_find (meeting_infos_map pc) session of None \<Rightarrow> [] | Some m \<Rightarrow> m)
      in if 2 < length meeting then pc
         else if length meeting = 2 then
           pc\<lparr>meeting_infos_map := map_erase session (meeting_infos_map pc),
              leave_infos_map := map_set uid [(other_member meeting uid, session)] (leave_infos_map pc)\<rparr>
         else pc\<lparr>leave_infos_map := map_erase uid (leave_infos_map pc)\<rparr>)"

lemma run_DelMeetingInfos:
  "GetPlatformCache pid w = Some pc \<Longrightarrow>
   run_state (DelMeetingInfos pid session uid) w = ((), put_platform pid (leave_meeting session uid pc) w)"
  by (simp add: DelMeetingInfos_def run_with_platform leave_meeting_def MapGetKey_def MapDel_eq
      MapAdd_def Let_def)

lemma user_infos_leave_meeting [simp]: "user_infos_map (leave_meeting s u pc) = user_infos_map pc"
  by (simp add: leave_meeting_def Let_def)

definition quit_body :: "env \<Rightarrow> int64 \<Rightarrow> int64 \<Rightarrow> body" where
  "quit_body E pid uid = Quit \<lparr>uq_platform_id = pid, uq_user_id = to_int64 (to_int uid),
     uq_session = e_junk64 E, uq_token = e_junk E TOKEN_LEN\<rparr>"

definition quit_deliveries ::
  "env \<Rightarrow> packet_head \<Rightarrow> int64 \<Rightarrow> int64 \<Rightarrow> int64 \<Rightarrow> platform_cache \<Rightarrow> world \<Rightarrow>
     (int32 \<times> packet_head \<times> body) list" where
  "quit_deliveries E h pid session uid pc w = concat (map
     (\<lambda>u. reaches (ud_socket (user_of u w)) h (quit_body E pid uid))
     (filter (\<lambda>u. ud_user_id (user_of u w) \<noteq> to_int64 (to_int uid))
       (online_members pc (meeting_of pc session))))"

lemma run_ClearUserinfo:
  assumes "GetPlatformCache pid w = Some pc" and pc': "pc' = leave_meeting session uid pc"
  shows "\<exists>h n c es r. head_with h USER_NOTIFICATION_QUIT USER_TYPE 0 \<and>
    run_state (ClearUserinfo E pid uid session) w = (r,
      put_platform pid (pc'\<lparr>user_infos_map := map_erase uid (user_infos_map pc)\<rparr>)
       (after_sends ((put_platform pid pc' w)\<lparr>ticks := ticks w + 1, draws := draws w + 1\<rparr>) n c es)) \<and>
    deliveries es = quit_deliveries E h pid session uid pc' w"
proof -
  let ?w1 = "put_platform pid pc' w"
  obtain h where h: "head_with h USER_NOTIFICATION_QUIT USER_TYPE 0"
    "run_state (MAKE_HEAD E USER_NOTIFICATION_QUIT USER_TYPE 0 0) ?w1 =
      (h, ?w1\<lparr>ticks := ticks w + 1, draws := draws w + 1\<rparr>)"
    using run_MAKE_HEAD [of USER_NOTIFICATION_QUIT USER_TYPE 0 E ?w1] by auto
  let ?w2 = "?w1\<lparr>ticks := ticks w + 1, draws := draws w + 1\<rparr>"
  have packs: "packs h (quit_body E pid uid)"
    using h(1) by (simp add: packs_def cast_body_def quit_body_def head_with_def)
  have "GetPlatformCache pid ?w2 = Some pc'" by simp
  from send_meeting_only_sends [OF packs this, of E session "\<lambda>d. ud_user_id d \<noteq> to_int64 (to_int uid)"]
  obtain n c es r where s: "run_state (send_meeting E pid session
      (\<lambda>d. ud_user_id d \<noteq> to_int64 (to_int uid)) h (quit_body E pid uid)) ?w2 =
      (r, after_sends ?w2 n c es)" "deliveries es = quit_deliveries E h pid session uid pc' w"
    unfolding only_sends_def quit_deliveries_def by (auto simp: prod_eq_iff)
  have "run_state (SendQuitInfoSession E pid session (to_int uid)) ?w1 = (r, after_sends ?w2 n c es)"
    using s(1) h(2) by (simp add: SendQuitInfoSession_def SendMeetingNotSelf_def quit_body_def)
  then show ?thesis using h(1) s(2) run_DelMeetingInfos [OF assms(1), of session uid]
    by (simp add: ClearUserinfo_def DelUserInos_def run_with_platform MapDel_eq flip: pc')
      (force simp: pc')
qed

lemma map_set_same: "map_sorted m \<Longrightarrow> map_find m k = Some v \<Longrightarrow> map_set k v m = m"
proof (induction m)
  case (Cons p m)
  obtain k' v' where p: "p = (k', v')" by force
  show ?case
  proof (cases "k = k'")
    case False
    with Cons.prems have f: "map_find m k = Some v" by (simp add: p)
    then have "sint k' < sint k" using Cons.prems(1) by (force simp: p dest: map_find_in_set)
    with False f Cons show ?thesis by (simp add: p)
  qed (use Cons.prems in \<open>simp add: p\<close>)
qed simp

lemma world_ok_sorted: "world_ok w \<Longrightarrow> map_sorted (platforms w)"
  by (simp add: world_ok_def)

lemma put_platform_id:
  "map_sorted (platforms w) \<Longrightarrow> GetPlatformCache pid w = Some pc \<Longrightarrow> put_platform pid pc w = w"
  by (simp add: put_platform_def GetPlatformCache_def map_set_same)

lemma run_GetUserInfos:
  "map_sorted (platforms w) \<Longrightarrow> GetPlatformCache pid w = Some pc \<Longrightarrow>
   run_state (GetUserInfos pid uid) w = (MapGet (user_infos_map pc) (to_int uid), w)"
  by (simp add: GetUserInfos_def run_with_platform put_platform_id)

lemma run_GetGroupInfos:
  "map_sorted (platforms w) \<Longrightarrow> GetPlatformCache pid w = Some pc \<Longrightarrow>
   run_state (GetGroupInfos pid gid) w = (MapGet (group_infos_map pc) (to_int gid), w)"
  by (simp add: GetGroupInfos_def run_with_platform put_platform_id)

lemma run_DelSocket: "run_state (DelSocket s) w = (map_find (sockets w) s \<noteq> None, w\<lparr>sockets := map_erase s (sockets w)\<rparr>)"
  by (simp add: DelSocket_def MapDel_eq)

lemma quit_deliveries_sockets [simp]:
  "quit_deliveries E h pid s u pc (w\<lparr>sockets := m\<rparr>) = quit_deliveries E h pid s u pc w"
  by (simp add: quit_deliveries_def)

lemma quit_effect:
  assumes "world_ok w" and pc: "GetPlatformCache (uq_platform_id p) w = Some pc"
    and "MapGet (user_infos_map pc) (to_int (uq_user_id p)) = Some user"
    and pc': "pc' = leave_meeting (uq_session p) (uq_user_id p) pc"
  shows "\<exists>h' n c es t d. head_with h' USER_NOTIFICATION_QUIT USER_TYPE 0 \<and>
    runs (OnUserQuit E socket h p) w = put_platform (uq_platform_id p)
       (pc'\<lparr>user_infos_map := map_erase (uq_user_id p) (user_infos_map pc)\<rparr>)
       (after_sends ((put_platform (uq_platform_id p) pc' (w\<lparr>sockets := map_erase socket (sockets w)\<rparr>))
         \<lparr>ticks := t, draws := d\<rparr>) n c es) \<and>
    deliveries es = quit_deliveries E h' (uq_platform_id p) (uq_session p) (uq_user_id p) pc' w"
proof -
  let ?w1 = "w\<lparr>sockets := map_erase socket (sockets w)\<rparr>"
  have "GetPlatformCache (uq_platform_id p) ?w1 = Some pc" using pc by simp
  from run_ClearUserinfo [OF this pc', of E] obtain h' n c es r where
    "head_with h' USER_NOTIFICATION_QUIT USER_TYPE 0"
    "run_state (ClearUserinfo E (uq_platform_id p) (uq_user_id p) (uq_session p)) ?w1 = (r,
      put_platform (uq_platform_id p) (pc'\<lparr>user_infos_map := map_erase (uq_user_id p) (user_infos_map pc)\<rparr>)
       (after_sends ((put_platform (uq_platform_id p) pc' ?w1)\<lparr>ticks := ticks w + 1, draws := draws w + 1\<rparr>) n c es))"
    "deliveries es = quit_deliveries E h' (uq_platform_id p) (uq_session p) (uq_user_id p) pc' w"
    by auto
  moreover from this have "run_state (OnUserQuit E socket h p) w = (r,
      put_platform (uq_platform_id p) (pc'\<lparr>user_infos_map := map_erase (uq_user_id p) (user_infos_map pc)\<rparr>)
       (after_sends ((put_platform (uq_platform_id p) pc' ?w1)\<lparr>ticks := ticks w + 1, draws := draws w + 1\<rparr>) n c es))"
    using assms world_ok_sorted [OF assms(1)]
    by (simp add: OnUserQuit_def run_GetUserInfos CheckChatToken_def get_user_def run_DelSocket)
  ultimately show ?thesis unfolding runs_def by (metis snd_conv)
qed

text \<open>C23: Quitting removes the user and the socket, leaves the meeting as DelMeetingInfos does, and
  notifies exactly the other online members of what remains of the meeting.\<close>

theorem OnUserQuit_effect:
  assumes "world_ok w" and "GetPlatformCache (uq_platform_id p) w = Some pc"
    and "MapGet (user_infos_map pc) (to_int (uq_user_id p)) = Some user"
    and "pc' = leave_meeting (uq_session p) (uq_user_id p) pc"
  shows "GetPlatformCache (uq_platform_id p) (runs (OnUserQuit E socket h p) w) =
      Some (pc'\<lparr>user_infos_map := map_erase (uq_user_id p) (user_infos_map pc)\<rparr>) \<and>
    map_find (sockets (runs (OnUserQuit E socket h p) w)) socket = None \<and>
    heap (runs (OnUserQuit E socket h p) w) = heap w \<and>
    (\<exists>h'. head_with h' USER_NOTIFICATION_QUIT USER_TYPE 0 \<and>
      sent_by (OnUserQuit E socket h p) w = concat (map
        (\<lambda>u. reaches (ud_socket (user_of u w)) h' (quit_body E (uq_platform_id p) (uq_user_id p)))
        (filter (\<lambda>u. ud_user_id (user_of u w) \<noteq> to_int64 (to_int (uq_user_id p)))
          (online_members pc' (meeting_of pc' (uq_session p))))))"
proof -
  obtain h' n c es t d where q: "head_with h' USER_NOTIFICATION_QUIT USER_TYPE 0"
    "runs (OnUserQuit E socket h p) w = put_platform (uq_platform_id p)
       (pc'\<lparr>user_infos_map := map_erase (uq_user_id p) (user_infos_map pc)\<rparr>)
       (after_sends ((put_platform (uq_platform_id p) pc' (w\<lparr>sockets := map_erase socket (sockets w)\<rparr>))
         \<lparr>ticks := t, draws := d\<rparr>) n c es)"
    "deliveries es = quit_deliveries E h' (uq_platform_id p) (uq_session p) (uq_user_id p) pc' w"
    using quit_effect [OF assms] by blast
  then have "sent_by (OnUserQuit E socket h p) w = deliveries es"
    by (simp add: sent_by_def new_events_def runs_def)
  with q assms(1) show ?thesis by (auto simp: quit_deliveries_def world_ok_def)
qed

text \<open>C27: When a member of a conversation of two quits, the meeting is deleted and the other member
  recorded in the leave table, but nobody is notified, because the notification looks for the
  meeting already deleted. The session may be any 64-bit number, provided that no other
  meeting has its lower 32 bits, sign-extended, as its session: the notification looks for
  those only.\<close>

theorem quit_of_a_pair_is_silent:
  assumes "world_ok w" and "GetPlatformCache (uq_platform_id p) w = Some pc"
    and "MapGet (user_infos_map pc) (to_int (uq_user_id p)) = Some user"
    and "map_find (meeting_infos_map pc) (uq_session p) = Some meeting" and "length meeting = 2"
    and "to_int64 (to_int (uq_session p)) = uq_session p \<or>
      map_find (meeting_infos_map pc) (to_int64 (to_int (uq_session p))) = None"
  shows "sent_by (OnUserQuit E socket h p) w = [] \<and>
    (\<exists>pc'. GetPlatformCache (uq_platform_id p) (runs (OnUserQuit E socket h p) w) = Some pc' \<and>
       map_find (meeting_infos_map pc') (uq_session p) = None \<and>
       map_find (leave_infos_map pc') (uq_user_id p) =
         Some [(other_member meeting (uq_user_id p), uq_session p)])"
proof -
  define pc' where "pc' = leave_meeting (uq_session p) (uq_user_id p) pc"
  have ok: "platform_ok (length (heap w)) pc"
    using assms(1,2) by (fastforce simp: world_ok_def GetPlatformCache_def dest: map_find_in_set)
  have pc'': "pc' = pc\<lparr>meeting_infos_map := map_erase (uq_session p) (meeting_infos_map pc),
      leave_infos_map := map_set (uq_user_id p) [(other_member meeting (uq_user_id p), uq_session p)]
        (leave_infos_map pc)\<rparr>"
    using assms(4,5) by (simp add: pc'_def leave_meeting_def Let_def)
  have "meeting_of pc' (uq_session p) = []"
    using assms(6) ok by (auto simp: meeting_of_def pc'' MapGet_def platform_ok_def)
  moreover obtain h' n c es t d where q: "runs (OnUserQuit E socket h p) w = put_platform (uq_platform_id p)
       (pc'\<lparr>user_infos_map := map_erase (uq_user_id p) (user_infos_map pc)\<rparr>)
       (after_sends ((put_platform (uq_platform_id p) pc' (w\<lparr>sockets := map_erase socket (sockets w)\<rparr>))
         \<lparr>ticks := t, draws := d\<rparr>) n c es)"
    "deliveries es = quit_deliveries E h' (uq_platform_id p) (uq_session p) (uq_user_id p) pc' w"
    using quit_effect [OF assms(1-3) pc'_def] by blast
  moreover have "sent_by (OnUserQuit E socket h p) w = deliveries es"
    using q(1) by (simp add: sent_by_def new_events_def runs_def)
  ultimately show ?thesis using ok
    by (simp add: quit_deliveries_def online_members_def List.map_filter_simps)
      (simp add: pc'' platform_ok_def)
qed

lemma aberrant_effect:
  assumes "map_find (sockets w) socket = Some user"
    and "GetPlatformCache (ud_platform_id (user_of user w)) w = Some pc"
  shows "GetPlatformCache (ud_platform_id (user_of user w)) (runs (OnChatManagerClose E socket) w) =
      Some ((leave_meeting (ud_session (user_of user w)) (ud_user_id (user_of user w)) pc)
        \<lparr>user_infos_map := map_erase (ud_user_id (user_of user w)) (user_infos_map pc)\<rparr>) \<and>
    sockets (runs (OnChatManagerClose E socket) w) = map_erase socket (sockets w)"
proof -
  let ?w1 = "w\<lparr>sockets := map_erase socket (sockets w)\<rparr>"
  let ?d = "user_of user w"
  have "GetPlatformCache (ud_platform_id ?d) ?w1 = Some pc" using assms(2) by simp
  from run_ClearUserinfo [OF this refl, of E "ud_user_id ?d" "ud_session ?d"] assms(1)
  show ?thesis
    by (auto simp: runs_def OnChatManagerClose_def OnAberrant_def GetSocket_def MapGetKey_def
        get_user_def run_DelSocket)
qed

lemma user_of_row_ids: "user_of_row pid uid row = Some d \<Longrightarrow> ud_platform_id d = pid \<and> ud_user_id d = uid"
  by (auto simp: user_of_row_def UserInfo_Data_def split: option.splits)

lemma known_user_ids:
  "known_user E n pid uid = us \<Longrightarrow> d \<in> set us \<Longrightarrow> ud_platform_id d = pid \<and> ud_user_id d = uid"
  by (fastforce simp: known_user_def split: sql_result.splits if_splits dest: user_of_row_ids)

lemma map_erase_set: "map_sorted m \<Longrightarrow> map_erase k (map_set k v m) = map_erase k m"
proof (induction m)
  case (Cons x m)
  obtain a b where x: "x = (a, b)" by force
  have "map_erase k m = m" if "sint k < sint a"
    using that Cons.prems by (intro map_erase_absent map_find_above) (auto simp: x intro: less_trans)
  then show ?case using Cons by (simp add: x)
qed simp

lemma world_ok_runs_login: "world_ok w \<Longrightarrow> world_ok (runs (OnUserLogin E socket h p) w)"
  by (auto intro!: runs_ok safe_rules)

lemma platform_ok_of: "world_ok w \<Longrightarrow> GetPlatformCache pid w = Some pc \<Longrightarrow> platform_ok (length (heap w)) pc"
  by (fastforce simp: world_ok_def GetPlatformCache_def dest: map_find_in_set)

text \<open>C26: When the connection of a freshly logged-in user is lost, the socket is forgotten and the
  user is gone from the platform, all other users remaining.\<close>

theorem login_then_close:
  fixes h :: packet_head
  assumes "world_ok w" and us: "known_user E (queries w) (ul_platform_id p) (ul_user_id p) = us" "us \<noteq> []"
    and "GetPlatformCache (ul_platform_id p) w = Some pc" and "0 < sint socket"
    and "w' = runs (OnChatManagerClose E socket) (runs (OnUserLogin E socket h p) w)"
  shows "map_find (sockets w') socket = None \<and>
    (\<exists>pc'. GetPlatformCache (ul_platform_id p) w' = Some pc' \<and>
      user_infos_map pc' = map_erase (ul_user_id p) (user_infos_map pc))"
proof -
  let ?v = "runs (OnUserLogin E socket h p) w"
  let ?u = "length (heap w) + length us"
  note login = login_effect [OF us assms(4,5), of h]
  have sock: "map_find (sockets ?v) socket = Some ?u" using login by simp
  have "user_of ?u ?v = logged_in E socket p (random_id E (draws w)) (last us)" using login by simp
  then have d: "ud_platform_id (user_of ?u ?v) = ul_platform_id p" "ud_user_id (user_of ?u ?v) = ul_user_id p"
    using known_user_ids [OF us(1), of "last us"] us(2) by (simp_all add: logged_in_def)
  have "GetPlatformCache (ud_platform_id (user_of ?u ?v)) ?v =
      Some (pc\<lparr>user_infos_map := map_set (ul_user_id p) ?u (user_infos_map pc)\<rparr>)"
    using login d(1) by simp
  note close = aberrant_effect [OF sock this, of E]
  have ok: "platform_ok (length (heap w)) pc" by (rule platform_ok_of [OF assms(1,4)])
  have "map_sorted (sockets ?v)" using world_ok_runs_login [OF assms(1)] by (simp add: world_ok_def)
  then show ?thesis using close d ok unfolding assms(6)
    by (simp add: platform_ok_def map_erase_set)
qed

section \<open>Tokens\<close>

lemma CheckChatToken_ignored: "CheckChatToken u t \<bind> (\<lambda>r. m) = m"
  by (rule state_ext) (simp add: CheckChatToken_def get_user_def)

text \<open>C38: The token of a packet has no influence on quitting, opening a conversation or sending a
  private message: its comparison is overwritten, so anyone can act for any user.\<close>

theorem tokens_are_not_checked:
  "OnUserQuit E socket h (q\<lparr>uq_token := t\<rparr>) = OnUserQuit E socket h q \<and>
   OnGetOppInfos E socket h (r\<lparr>ro_token := t\<rparr>) = OnGetOppInfos E socket h r \<and>
   OnMessage E socket h (m\<lparr>ts_token := t\<rparr>) = OnMessage E socket h m"
  by (simp add: OnUserQuit_def OnGetOppInfos_def OnMessage_def CheckChatToken_ignored
      find_sender_def find_receiver_def deliver_private_def private_recv_def Let_def
      cong: option.case_cong if_cong prod.case_cong)

section \<open>A small server\<close>

text \<open>Users 7 and 8 on sockets 5 and 6, both in the meeting of group 77; the database answers every
  query with one row, and every \<^verbatim>\<open>send\<close> takes all it is given.\<close>

definition sample_env :: env where
  "sample_env = byte_at_a_time\<lparr>e_sql := \<lambda>n s. Rows [[Some [55], Some [65], Some []]],
     e_send := \<lambda>n k. int k\<rparr>"

definition sample_user :: "int64 \<Rightarrow> int32 \<Rightarrow> int64 \<Rightarrow> user_data" where
  "sample_user uid socket session = (UserInfo_Data 10000 uid uid [65] [])
     \<lparr>ud_socket := socket, ud_session := session\<rparr>"

definition sample_group :: group_info where
  "sample_group = (default_group 0)\<lparr>gi_platform_id := 10000, gi_group_id := 77\<rparr>"

definition sample_cache :: platform_cache where
  "sample_cache = empty_cache\<lparr>user_infos_map := [(7, 0), (8, 1)], group_infos_map := [(77, sample_group)],
     meeting_infos_map := [(77, [(7, 7), (8, 8)])]\<rparr>"

definition sample_world :: world where
  "sample_world = empty_world\<lparr>platforms := [(10000, sample_cache)], sockets := [(5, 0), (6, 1)],
     heap := [sample_user 7 5 77, sample_user 8 6 77]\<rparr>"

definition sample_head :: packet_head where
  "sample_head = \<lparr>packet_length = 0, operate_code = MULTI_CHAT_RECV, data_length = 0, current_time = 0,
     msg_type = CHAT_TYPE, is_zip = 0, msg_id = 3, reserverd = 4\<rparr>"

definition sample_chat :: body where
  "sample_chat = ChatRecv \<lparr>cr_platform_id = 10000, cr_multi_id = 77, cr_send_user_id = 7,
     cr_send_nickname = replicate 48 0, cr_content = [72, 105]\<rparr>"

definition sample_login :: user_login where
  "sample_login = \<lparr>ul_platform_id = 10000, ul_user_id = 9, ul_net_type = 0, ul_user_type = 0,
     ul_device = 0, ul_token = replicate 32 0\<rparr>"

definition sample_quit :: user_quit where
  "sample_quit = \<lparr>uq_platform_id = 10000, uq_user_id = 7, uq_session = 77, uq_token = []\<rparr>"

lemma sample_simps [simp]:
  "GetPlatformCache 10000 sample_world = Some sample_cache"
  "sockets sample_world = [(5, 0), (6, 1)]" "length (heap sample_world) = 2"
  "user_of 0 sample_world = sample_user 7 5 77" "user_of (Suc 0) sample_world = sample_user 8 6 77"
  "queries sample_world = 0" "user_infos_map sample_cache = [(7, 0), (8, 1)]"
  "group_infos_map sample_cache = [(77, sample_group)]"
  "meeting_infos_map sample_cache = [(77, [(7, 7), (8, 8)])]" "leave_infos_map sample_cache = []"
  "ud_user_id (sample_user u s k) = u" "ud_socket (sample_user u s k) = s"
  "ud_session (sample_user u s k) = k" "ud_platform_id (sample_user u s k) = 10000"
  by (simp_all add: sample_world_def sample_cache_def GetPlatformCache_def user_of_def sample_user_def
      UserInfo_Data_def empty_world_def empty_cache_def)

lemma world_ok_sample [simp]: "world_ok sample_world"
  by (simp add: world_ok_def sample_world_def sample_cache_def platform_ok_def handles_ok_def
      inner_sorted_def empty_cache_def)

lemma known_sample [simp]:
  "known_user sample_env n pid uid = [UserInfo_Data pid uid (atoll [55]) [65] []]"
  by (simp add: known_user_def sample_env_def user_of_row_def column_def)

lemma to_int_small [simp]: "to_int 7 = 7" "to_int 8 = 8" "to_int 9 = 9" "to_int 77 = 77"
  "to_int64 7 = 7" "to_int64 8 = 8" "to_int64 9 = 9" "to_int64 77 = 77"
  by (simp_all add: to_int_def to_int64_def)

theorem SendMeetingNotSelf_recipients_witness:
  "only_sends sample_world (snd (run_state (SendMeetingNotSelf sample_env 10000 77 7 77 sample_head sample_chat)
     sample_world)) [(6, sample_head, sample_chat)]"
proof -
  have "packs sample_head sample_chat"
    by (rule packs_body) (simp_all add: sample_head_def sample_chat_def)
  from SendMeetingNotSelf_recipients [OF this, of 10000 sample_world sample_cache sample_env 77 7 77]
  show ?thesis
    by (simp add: meeting_of_def MapGet_def online_members_def List.map_filter_simps reaches_def)
qed

theorem OnUserLogin_known_user_witness:
  "map_find (sockets (runs (OnUserLogin sample_env 9 sample_head sample_login) sample_world)) 9 = Some 3"
  using OnUserLogin_known_user [of sample_env sample_world sample_login _ sample_cache 9 sample_head]
  by (simp add: sample_login_def)

theorem login_then_lookup_witness:
  "fst (run_state (GetUserInfos 10000 9)
     (runs (OnUserLogin sample_env 9 sample_head sample_login) sample_world)) = Some 3"
  using login_then_lookup [of sample_env sample_world sample_login _ sample_cache 9 9 sample_head]
  by (simp add: sample_login_def fits_int_def)

theorem OnUserLogin_unknown_user_witness:
  "sockets (runs (OnUserLogin byte_at_a_time 9 sample_head sample_login) sample_world) = [(5, 0), (6, 1)]"
  using OnUserLogin_unknown_user [of byte_at_a_time sample_world sample_login 9 sample_head]
  by (simp add: unknown_user_def byte_at_a_time_def)

theorem OnUserQuit_effect_witness:
  "map_find (sockets (runs (OnUserQuit sample_env 5 sample_head sample_quit) sample_world)) 5 = None"
  using OnUserQuit_effect [of sample_world sample_quit sample_cache 0 _ sample_env 5 sample_head]
  by (simp add: sample_quit_def MapGet_def)

theorem quit_of_a_pair_is_silent_witness:
  "sent_by (OnUserQuit sample_env 5 sample_head sample_quit) sample_world = []"
  using quit_of_a_pair_is_silent [of sample_world sample_quit sample_cache 0 "[(7, 7), (8, 8)]" sample_env 5 sample_head]
  by (simp add: sample_quit_def MapGet_def fits_int_def)

theorem login_then_close_witness:
  "map_find (sockets (runs (OnChatManagerClose sample_env 9)
     (runs (OnUserLogin sample_env 9 sample_head sample_login) sample_world))) 9 = None"
  using login_then_close [of sample_world sample_env sample_login _ sample_cache 9 _ sample_head]
  by (simp add: sample_login_def)

theorem reachable_world_ok_witness:
  "world_ok (runs (OnBroadcastConnect 4) (runs (InitDefaultPlatformInfo sample_env) empty_world))"
  using reachable_world_ok [OF reachable.step [OF reachable.start server_step.robot_server]] .

end
