(* ===== verification/ChatMessages.thy ===== *)
theory ChatMessages
  imports ChatSessions
begin

text \<open>
  How two users find each other (\<^verbatim>\<open>OnGetUserInfo\<close>) and what becomes of a private and of a group
  message (\<^verbatim>\<open>OnMessage\<close>, \<^verbatim>\<open>OnGroupMessage\<close> of \<^verbatim>\<open>src/server/chat/chat/im_mgr.cc\<close>): delivered, left
  for later, pushed, or refused.
\<close>

section \<open>Recording\<close>

definition push_id :: "env \<Rightarrow> nat \<Rightarrow> int64 \<Rightarrow> int64" where
  "push_id E n old = (case e_push_id E n of None \<Rightarrow> old | Some i \<Rightarrow> i)"

lemma run_GenaratePushMsgID:
  "run_state (GenaratePushMsgID E old) w = (push_id E (pushes w) old, w\<lparr>pushes := pushes w + 1\<rparr>)"
  by (simp add: GenaratePushMsgID_def push_id_def)

definition recorded :: "env \<Rightarrow> nat \<Rightarrow> byte list \<Rightarrow> event list" where
  "recorded E n q = (if e_sql E n (c_string q) = NoEngine then [] else [Sql (c_string q)])"

lemma run_run_sql:
  "run_state (run_sql E q) w = (e_sql E (queries w) (c_string q),
     w\<lparr>queries := queries w + 1, events := events w @ recorded E (queries w) q\<rparr>)"
  by (simp add: run_sql_def Let_def recorded_def)

lemma recorded_Sql: "\<exists>qs. recorded E n q = map Sql qs"
  unfolding recorded_def by (metis list.map(1) list.map(2))

lemma deliveries_recorded [simp]: "deliveries (recorded E n q) = []"
  by (simp add: recorded_def)

definition chat_record ::
  "int64 \<Rightarrow> int64 \<Rightarrow> int32 \<Rightarrow> int64 \<Rightarrow> byte list \<Rightarrow> user_data \<Rightarrow> byte list \<Rightarrow> message_infos" where
  "chat_record pid mid type oppid time d content = \<lparr>mi_platform = pid, mi_msgid = mid,
     mi_fid = ud_user_id d, mi_oppid = oppid, mi_type = type, mi_nickname = ud_nickname d,
     mi_message = content, mi_lasttime = time, mi_head = ud_head_url d\<rparr>"

lemma run_LeaveMessage:
  "run_state (LeaveMessage E pid mid type oppid t u content) w = (True,
     w\<lparr>queries := queries w + 1, events := events w @ recorded E (queries w) (sql_chat_message type
        (chat_record pid mid type oppid (GetCurrentTimeFormat E t) (user_of u w) content))\<rparr>)"
  by (simp add: LeaveMessage_def get_user_def RecordChatMessage_def run_run_sql chat_record_def)

lemma run_LeaveMessage_Sql:
  "\<exists>qs. run_state (LeaveMessage E pid mid type oppid t u content) w =
     (True, w\<lparr>queries := queries w + 1, events := events w @ map Sql qs\<rparr>)"
  unfolding run_LeaveMessage using recorded_Sql by metis

definition push_event :: "event \<Rightarrow> (int64 \<times> int64 \<times> byte list) option" where
  "push_event e = (case e of Pushed t u m \<Rightarrow> Some (t, u, m) | _ \<Rightarrow> None)"

definition pushed :: "event list \<Rightarrow> (int64 \<times> int64 \<times> byte list) list" where
  "pushed es = List.map_filter push_event es"

lemma pushed_simps [simp]:
  "pushed [] = []" "pushed (Sql q # es) = pushed es" "pushed (Sent s h b y k # es) = pushed es"
  "pushed (Pushed t u m # es) = (t, u, m) # pushed es"
  by (simp_all add: pushed_def push_event_def List.map_filter_simps)

lemma pushed_append [simp]: "pushed (es @ fs) = pushed es @ pushed fs"
  by (simp add: pushed_def List.map_filter_def)

lemma pushed_Sql [simp]: "pushed (map Sql qs) = []"
  by (induction qs) simp_all

lemma pushed_recorded [simp]: "pushed (recorded E n q) = []"
  by (simp add: recorded_def)

definition pushed_by :: "'a chat_m \<Rightarrow> world \<Rightarrow> (int64 \<times> int64 \<times> byte list) list" where
  "pushed_by m w = pushed (new_events m w)"

section \<open>A private message\<close>

lemma user_of_grow [simp]:
  "u < length (heap w) \<Longrightarrow> user_of u (w\<lparr>heap := heap w @ us\<rparr>) = user_of u w"
  by (simp add: user_of_def nth_append)

lemma found_allocated:
  "world_ok w \<Longrightarrow> GetPlatformCache pid w = Some pc \<Longrightarrow> MapGet (user_infos_map pc) k = Some u \<Longrightarrow>
   u < length (heap w)"
  using platform_ok_of [of w pid pc] by (auto simp: platform_ok_def dest: MapGet_valid)

text \<open>The state in which sender and receiver have been looked up: three or two default users more
  on the heap, and the message has its identifier.\<close>

definition online_pair :: "world \<Rightarrow> text_chat_private_send \<Rightarrow> platform_cache \<Rightarrow> user_info \<Rightarrow> user_info \<Rightarrow> bool" where
  "online_pair w p pc s r \<longleftrightarrow> world_ok w \<and> GetPlatformCache (ts_platform_id p) w = Some pc \<and>
     ts_send_user_id p \<noteq> 10000 \<and>
     MapGet (user_infos_map pc) (to_int (ts_send_user_id p)) = Some s \<and>
     MapGet (user_infos_map pc) (to_int (ts_recv_user_id p)) = Some r"

lemma CheckChatToken_skip: "CheckChatToken u t \<bind> (\<lambda>r. m) = m"
  by (rule CheckChatToken_ignored)

lemma run_find_sender:
  assumes "map_sorted (platforms w)" "GetPlatformCache (ts_platform_id p) w = Some pc"
    "ts_send_user_id p \<noteq> 10000" "MapGet (user_infos_map pc) (to_int (ts_send_user_id p)) = Some s"
  shows "run_state (find_sender E p) w = ((True, s), w\<lparr>heap := heap w @ [default_user]\<rparr>)"
  using assms by (simp add: find_sender_def new_user_def run_GetUserInfos)

lemma run_find_receiver_online:
  assumes "map_sorted (platforms w)" "GetPlatformCache (ts_platform_id p) w = Some pc"
    "MapGet (user_infos_map pc) (to_int (ts_recv_user_id p)) = Some r"
  shows "run_state (find_receiver E p) w = ((True, False, r), w)"
  using assms by (simp add: find_receiver_def run_GetUserInfos)

lemma packs_private_recv:
  assumes "operate_code h = TEXT_CHAT_PRIVATE_RECV" "length (ts_content p) < 2 ^ 30"
  shows "packs h (private_recv p)"
proof (rule packs_body)
  show "0 \<le> sint (payload_size (private_recv p) + 31)"
    using signed_of_nat32 [of "length (ts_content p) + 55"] assms(2)
    by (simp add: private_recv_def add.commute)
qed (use assms in \<open>simp add: private_recv_def\<close>)

lemma run_deliver_private:
  assumes "length (ts_content p) < 2 ^ 30" "0 < sint (ud_socket (user_of r w))"
    and "GetPlatformCache (ts_platform_id p) w = Some pc"
  shows "\<exists>h' n c bytes ok. head_with h' TEXT_CHAT_PRIVATE_RECV CHAT_TYPE (reserverd h) \<and>
    run_state (deliver_private E h p mid s r) w = ((),
      put_platform (ts_platform_id p) (pc\<lparr>confirm_message_map := map_set mid s (confirm_message_map pc)\<rparr>)
        (after_sends (w\<lparr>ticks := ticks w + 1, draws := draws w + 1\<rparr>) n c
          [Sent (ud_socket (user_of r w)) (h'\<lparr>msg_id := mid\<rparr>) (private_recv p) bytes ok]))"
proof -
  obtain h' where h': "head_with h' TEXT_CHAT_PRIVATE_RECV CHAT_TYPE (reserverd h)"
    "run_state (MAKE_HEAD E TEXT_CHAT_PRIVATE_RECV CHAT_TYPE 0 (reserverd h)) w =
      (h', w\<lparr>ticks := ticks w + 1, draws := draws w + 1\<rparr>)"
    using run_MAKE_HEAD by blast
  have "packs (h'\<lparr>msg_id := mid\<rparr>) (private_recv p)"
    using h'(1) assms(1) by (intro packs_private_recv) (simp_all add: head_with_def)
  from run_SendMessage [OF this assms(2), of E "w\<lparr>ticks := ticks w + 1, draws := draws w + 1\<rparr>"]
  obtain n c bytes ok where "run_state (SendMessage E (ud_socket (user_of r w)) (h'\<lparr>msg_id := mid\<rparr>)
      (private_recv p)) (w\<lparr>ticks := ticks w + 1, draws := draws w + 1\<rparr>) =
    (ok, after_sends (w\<lparr>ticks := ticks w + 1, draws := draws w + 1\<rparr>) n c
      [Sent (ud_socket (user_of r w)) (h'\<lparr>msg_id := mid\<rparr>) (private_recv p) bytes ok])"
    by blast
  then have "run_state (deliver_private E h p mid s r) w = ((),
      put_platform (ts_platform_id p) (pc\<lparr>confirm_message_map := map_set mid s (confirm_message_map pc)\<rparr>)
        (after_sends (w\<lparr>ticks := ticks w + 1, draws := draws w + 1\<rparr>) n c
          [Sent (ud_socket (user_of r w)) (h'\<lparr>msg_id := mid\<rparr>) (private_recv p) bytes ok]))"
    using h'(2) assms(3)
    by (simp add: deliver_private_def get_user_def AddConfirmMessage_def run_with_platform MapAdd_def)
  with h'(1) show ?thesis by blast
qed

lemma message_delivered:
  fixes E :: env and h :: packet_head
  assumes "online_pair w p pc s r" and "ud_session (user_of r w) = ts_session p"
    and "0 < sint (ud_socket (user_of r w))" and "length (ts_content p) < 2 ^ 30"
  defines "mid \<equiv> push_id E (pushes w) (e_junk64 E)"
  shows "\<exists>h' bytes ok w'. head_with h' TEXT_CHAT_PRIVATE_RECV CHAT_TYPE (reserverd h) \<and>
    run_state (OnMessage E socket h p) w = (True, w') \<and>
    events w' = events w @
      [Sent (ud_socket (user_of r w)) (h'\<lparr>msg_id := mid\<rparr>) (private_recv p) bytes ok] @
      recorded E (queries w) (sql_chat_message ALONE_CHAT (chat_record (ts_platform_id p) mid ALONE_CHAT
        (ts_recv_user_id p) (GetCurrentTimeFormat E (e_time E (ticks w + 1))) (user_of s w) (ts_content p))) \<and>
    GetPlatformCache (ts_platform_id p) w' =
      Some (pc\<lparr>confirm_message_map := map_set mid s (confirm_message_map pc)\<rparr>)"
proof -
  have w: "world_ok w" "GetPlatformCache (ts_platform_id p) w = Some pc" "ts_send_user_id p \<noteq> 10000"
    "MapGet (user_infos_map pc) (to_int (ts_send_user_id p)) = Some s"
    "MapGet (user_infos_map pc) (to_int (ts_recv_user_id p)) = Some r"
    using assms(1) by (simp_all add: online_pair_def)
  have bound: "s < length (heap w)" "r < length (heap w)" using w found_allocated by blast+
  let ?w1 = "w\<lparr>heap := heap w @ [default_user] @ [default_user], pushes := pushes w + 1\<rparr>"
  have same: "user_of r ?w1 = user_of r w" "user_of s ?w1 = user_of s w"
    using bound by (simp_all add: user_of_def nth_append)
  obtain h' n c bytes ok where d: "head_with h' TEXT_CHAT_PRIVATE_RECV CHAT_TYPE (reserverd h)"
    "run_state (deliver_private E h p mid s r) ?w1 = ((),
      put_platform (ts_platform_id p) (pc\<lparr>confirm_message_map := map_set mid s (confirm_message_map pc)\<rparr>)
        (after_sends (?w1\<lparr>ticks := ticks w + 1, draws := draws w + 1\<rparr>) n c
          [Sent (ud_socket (user_of r w)) (h'\<lparr>msg_id := mid\<rparr>) (private_recv p) bytes ok]))"
    using run_deliver_private [OF assms(4), of r ?w1 pc h E mid s] assms(3) same w(2) by fastforce
  have "run_state (OnMessage E socket h p) w = run_state (do {
      deliver_private E h p mid s r;
      t \<leftarrow> time_now E;
      LeaveMessage E (ts_platform_id p) mid ALONE_CHAT (ts_recv_user_id p) t s (ts_content p) }) ?w1"
    using w world_ok_sorted [OF w(1)] assms(2) same bound
    by (simp add: OnMessage_def new_user_def CheckChatToken_skip run_find_sender get_user_def
        run_find_receiver_online run_GenaratePushMsgID mid_def)
  with d w(2) same show ?thesis
    by (simp add: time_now_def run_LeaveMessage) blast
qed

text \<open>C15: A private message between two online users whose receiver is in the message's session is
  delivered by exactly one TEXT_CHAT_PRIVATE_RECV to the receiver's socket, with the text, the
  header fields and a new message id; the sender is entered under that id among the pending
  confirmations, and the message is recorded in the database.\<close>

theorem OnMessage_delivers:
  fixes E :: env and h :: packet_head
  assumes "online_pair w p pc s r" and "ud_session (user_of r w) = ts_session p"
    and "0 < sint (ud_socket (user_of r w))" and "length (ts_content p) < 2 ^ 30"
  defines "mid \<equiv> push_id E (pushes w) (e_junk64 E)"
  shows "\<exists>h' bytes ok w'. head_with h' TEXT_CHAT_PRIVATE_RECV CHAT_TYPE (reserverd h) \<and>
    run_state (OnMessage E socket h p) w = (True, w') \<and>
    events w' = events w @
      [Sent (ud_socket (user_of r w)) (h'\<lparr>msg_id := mid\<rparr>) (private_recv p) bytes ok] @
      recorded E (queries w) (sql_chat_message ALONE_CHAT (chat_record (ts_platform_id p) mid ALONE_CHAT
        (ts_recv_user_id p) (GetCurrentTimeFormat E (e_time E (ticks w + 1))) (user_of s w) (ts_content p))) \<and>
    GetPlatformCache (ts_platform_id p) w' =
      Some (pc\<lparr>confirm_message_map := map_set mid s (confirm_message_map pc)\<rparr>)"
  unfolding mid_def by (rule message_delivered [OF assms(1-4)])

section \<open>A message left for later\<close>

lemma run_fetch_pos: "\<exists>pos' c. run_state (fetch_pos rows pos) w = (pos', w\<lparr>crashed := c\<rparr>)"
proof (induction rows arbitrary: pos w)
  case Nil
  have "w = w\<lparr>crashed := crashed w\<rparr>" by simp
  then show ?case by (simp only: fetch_pos.simps State_Monad.run_state_return) blast
next
  case (Cons row rows)
  show ?case
  proof (cases "\<exists>x y. column row 4 = Some x \<and> column row 5 = Some y")
    case True
    then show ?thesis using Cons.IH by auto
  next
    case False
    then have "run_state (fetch_pos (row # rows) pos) w = (pos, w\<lparr>crashed := True\<rparr>)"
      by (auto simp: crash_def split: option.splits)
    then show ?thesis by blast
  qed
qed

definition after_queries :: "world \<Rightarrow> nat \<Rightarrow> bool \<Rightarrow> byte list list \<Rightarrow> world" where
  "after_queries w n c qs = w\<lparr>queries := n, crashed := c, events := events w @ map Sql qs\<rparr>"

lemma after_queries_twice [simp]:
  "after_queries (after_queries w n c qs) n' c' qs' = after_queries w n' c' (qs @ qs')"
  by (simp add: after_queries_def)

lemma after_queries_simps [simp]:
  "events (after_queries w n c qs) = events w @ map Sql qs" "heap (after_queries w n c qs) = heap w"
  "platforms (after_queries w n c qs) = platforms w" "sockets (after_queries w n c qs) = sockets w"
  "ticks (after_queries w n c qs) = ticks w" "user_of u (after_queries w n c qs) = user_of u w"
  "pushes (after_queries w n c qs) = pushes w" "draws (after_queries w n c qs) = draws w"
  by (simp_all add: after_queries_def)

lemma run_GetUserLBSPos:
  "\<exists>pos n c qs. run_state (GetUserLBSPos E uid) w = (pos, after_queries w n c qs)"
proof -
  obtain qs where qs: "recorded E (queries w) (sql_user_lbs_pos uid) = map Sql qs"
    using recorded_Sql by blast
  let ?w = "w\<lparr>queries := queries w + 1, events := events w @ map Sql qs\<rparr>"
  have "\<exists>pos c. run_state (GetUserLBSPos E uid) w = (pos, ?w\<lparr>crashed := c\<rparr>)"
  proof (cases "e_sql E (queries w) (c_string (sql_user_lbs_pos uid))")
    case (Rows rows)
    then show ?thesis using run_fetch_pos [of rows None ?w]
      by (simp add: GetUserLBSPos_def run_run_sql qs)
  next
    case NoEngine
    then show ?thesis
      by (simp add: GetUserLBSPos_def run_run_sql qs) (rule exI [of _ "crashed w"], simp)
  next
    case ExecFailed
    then show ?thesis
      by (simp add: GetUserLBSPos_def run_run_sql qs) (rule exI [of _ "crashed w"], simp)
  qed
  then obtain pos c where p: "run_state (GetUserLBSPos E uid) w = (pos, ?w\<lparr>crashed := c\<rparr>)" by blast
  have "?w\<lparr>crashed := c\<rparr> = after_queries w (queries w + 1) c qs" by (simp add: after_queries_def)
  with p show ?thesis by metis
qed

lemma run_RecordUserMessageList:
  "\<exists>r n c qs. run_state (RecordUserMessageList E type s t d m) w = (r, after_queries w n c qs)"
proof -
  obtain qs where "recorded E (queries w) (sql_message_list type s t (take 255 d) m) = map Sql qs"
    using recorded_Sql by blast
  then have "run_state (RecordUserMessageList E type s t d m) w =
    (sql_succeeds (e_sql E (queries w) (c_string (sql_message_list type s t (take 255 d) m))),
     after_queries w (queries w + 1) (crashed w) qs)"
    by (simp add: RecordUserMessageList_def run_run_sql after_queries_def)
  then show ?thesis by blast
qed

lemma run_OffLineMessage:
  "\<exists>n c qs. run_state (OffLineMessage E pid mid t s r msg) w =
    (SummaryTestContent msg, after_queries w n c qs)"
proof -
  obtain p1 n1 c1 qs1 where 1: "run_state (GetUserLBSPos E (ud_user_id (user_of s w))) w =
      (p1, after_queries w n1 c1 qs1)" using run_GetUserLBSPos by blast
  obtain p2 n2 c2 qs2 where 2: "run_state (GetUserLBSPos E (ud_user_id (user_of r w)))
      (after_queries w n1 c1 qs1) = (p2, after_queries w n2 c2 (qs1 @ qs2))"
    using run_GetUserLBSPos [of E "ud_user_id (user_of r w)" "after_queries w n1 c1 qs1"] by auto
  obtain x n3 c3 qs3 where 3: "run_state (RecordUserMessageList E MESSAGE_TYPE (ud_user_id (user_of s w))
      (ud_user_id (user_of r w)) (e_distance E p1 p2) (SummaryTestContent msg))
      (after_queries w n2 c2 (qs1 @ qs2)) = (x, after_queries w n3 c3 ((qs1 @ qs2) @ qs3))"
    using run_RecordUserMessageList [of E MESSAGE_TYPE "ud_user_id (user_of s w)"
        "ud_user_id (user_of r w)" "e_distance E p1 p2" "SummaryTestContent msg"
        "after_queries w n2 c2 (qs1 @ qs2)"] by auto
  then have "run_state (OffLineMessage E pid mid t s r msg) w =
      (SummaryTestContent msg, after_queries w n3 c3 ((qs1 @ qs2) @ qs3))"
    using 1 2 by (simp add: OffLineMessage_def MakeLeaveContent_def get_user_def OnSummaryContent_def)
  then show ?thesis by blast
qed

lemma message_kept:
  fixes E :: env and h :: packet_head
  assumes "online_pair w p pc s r" and "ud_session (user_of r w) \<noteq> ts_session p"
  shows "\<exists>w' qs. run_state (OnMessage E socket h p) w = (True, w') \<and>
    events w' = events w @ map Sql qs \<and> platforms w' = platforms w \<and> sockets w' = sockets w"
proof -
  have w: "world_ok w" "GetPlatformCache (ts_platform_id p) w = Some pc" "ts_send_user_id p \<noteq> 10000"
    "MapGet (user_infos_map pc) (to_int (ts_send_user_id p)) = Some s"
    "MapGet (user_infos_map pc) (to_int (ts_recv_user_id p)) = Some r"
    using assms(1) by (simp_all add: online_pair_def)
  have bound: "s < length (heap w)" "r < length (heap w)" using w found_allocated by blast+
  let ?mid = "push_id E (pushes w) (e_junk64 E)"
  let ?w1 = "w\<lparr>heap := heap w @ [default_user] @ [default_user], pushes := pushes w + 1,
    ticks := ticks w + 1\<rparr>"
  have same: "user_of r ?w1 = user_of r w" using bound by (simp add: user_of_def nth_append)
  obtain n c qs where o: "run_state (OffLineMessage E (ts_platform_id p) ?mid (e_time E (ticks w)) s r
      (ts_content p)) ?w1 = (SummaryTestContent (ts_content p), after_queries ?w1 n c qs)"
    using run_OffLineMessage by blast
  let ?w2 = "(after_queries ?w1 n c qs)\<lparr>ticks := ticks w + 2\<rparr>"
  have run: "run_state (OnMessage E socket h p) w = run_state (LeaveMessage E (ts_platform_id p) ?mid
      ALONE_CHAT (ts_recv_user_id p) (e_time E (Suc (ticks w))) s (ts_content p)) ?w2"
    using w world_ok_sorted [OF w(1)] assms(2) same bound o
    by (simp add: OnMessage_def new_user_def CheckChatToken_skip run_find_sender get_user_def
        run_find_receiver_online run_GenaratePushMsgID time_now_def)
  obtain rs where "run_state (LeaveMessage E (ts_platform_id p) ?mid
      ALONE_CHAT (ts_recv_user_id p) (e_time E (Suc (ticks w))) s (ts_content p)) ?w2 =
      (True, ?w2\<lparr>queries := queries ?w2 + 1, events := events ?w2 @ map Sql rs\<rparr>)"
    using run_LeaveMessage_Sql by blast
  with run show ?thesis by simp (rule exI [of _ "qs @ rs"], simp)
qed

lemma run_find_receiver_offline:
  assumes "map_sorted (platforms w)" "GetPlatformCache (ts_platform_id p) w = Some pc"
    "MapGet (user_infos_map pc) (to_int (ts_recv_user_id p)) = None"
    "known_user E (queries w) (ts_platform_id p) (ts_recv_user_id p) = us" "us \<noteq> []"
  shows "\<exists>r q. run_state (find_receiver E p) w = ((True, True, r), w\<lparr>queries := queries w + 1,
    heap := heap w @ default_user # us, events := events w @ [Sql q]\<rparr>) \<and> r = length (heap w) + length us"
  using assms run_GetUserInfo_known [of E "w\<lparr>heap := heap w @ [default_user]\<rparr>"
      "ts_platform_id p" "ts_recv_user_id p" us]
  by (simp add: find_receiver_def run_GetUserInfos new_user_def) blast

lemma message_pushed:
  fixes E :: env and h :: packet_head
  assumes ok: "world_ok w" and pc: "GetPlatformCache (ts_platform_id p) w = Some pc"
    and s: "ts_send_user_id p \<noteq> 10000" "MapGet (user_infos_map pc) (to_int (ts_send_user_id p)) = Some s"
    and r: "MapGet (user_infos_map pc) (to_int (ts_recv_user_id p)) = None"
    and us: "known_user E (queries w) (ts_platform_id p) (ts_recv_user_id p) = us" "us \<noteq> []"
  shows "\<exists>w' qs qs'. run_state (OnMessage E socket h p) w = (True, w') \<and>
    events w' = events w @ map Sql qs @ [Pushed (ts_recv_user_id p) (ud_user_id (user_of s w))
      (SummaryTestContent (ts_content p))] @ map Sql qs' \<and>
    platforms w' = platforms w \<and> sockets w' = sockets w"
proof -
  let ?mid = "push_id E (pushes w) (e_junk64 E)"
  let ?w0 = "w\<lparr>heap := heap w @ [default_user] @ [default_user]\<rparr>"
  have bound: "s < length (heap w)" using ok pc s found_allocated by blast
  have sorted: "map_sorted (platforms w)" by (rule world_ok_sorted [OF ok])
  obtain u q where f: "run_state (find_receiver E p) ?w0 = ((True, True, u),
      ?w0\<lparr>queries := queries w + 1, heap := heap ?w0 @ default_user # us, events := events w @ [Sql q]\<rparr>)"
      "u = length (heap ?w0) + length us"
    using run_find_receiver_offline [of ?w0 p pc E us] sorted pc r us by auto
  let ?w1 = "?w0\<lparr>queries := queries w + 1, heap := heap ?w0 @ default_user # us,
    events := events w @ [Sql q], pushes := pushes w + 1, ticks := ticks w + 1\<rparr>"
  have us': "user_of s ?w1 = user_of s w" using bound by (simp add: user_of_def nth_append)
  have "us ! (length us - 1) = last us" using us(2) by (simp add: last_conv_nth)
  then have "user_of u ?w1 = last us" using f(2) us(2) by (simp add: user_of_def nth_append)
  then have id: "ud_user_id (user_of u ?w1) = ts_recv_user_id p"
    using known_user_ids [OF us(1), of "last us"] us(2) by simp
  obtain n c qs where o: "run_state (OffLineMessage E (ts_platform_id p) ?mid (e_time E (ticks w)) s u
      (ts_content p)) ?w1 = (SummaryTestContent (ts_content p), after_queries ?w1 n c qs)"
    using run_OffLineMessage by blast
  let ?w2 = "(after_queries ?w1 n c qs)\<lparr>events := events w @ [Sql q] @ map Sql qs @
    [Pushed (ts_recv_user_id p) (ud_user_id (user_of s w)) (SummaryTestContent (ts_content p))],
    ticks := ticks w + 2\<rparr>"
  have run: "run_state (OnMessage E socket h p) w = run_state (LeaveMessage E (ts_platform_id p) ?mid
      ALONE_CHAT (ts_recv_user_id p) (e_time E (Suc (ticks w))) s (ts_content p)) ?w2"
    using sorted pc s f(1) o us' id
    by (simp add: OnMessage_def new_user_def CheckChatToken_skip run_find_sender get_user_def
        run_GenaratePushMsgID time_now_def PushMessage_def emit_def)
  obtain rs where "run_state (LeaveMessage E (ts_platform_id p) ?mid
      ALONE_CHAT (ts_recv_user_id p) (e_time E (Suc (ticks w))) s (ts_content p)) ?w2 =
      (True, ?w2\<lparr>queries := queries ?w2 + 1, events := events ?w2 @ map Sql rs\<rparr>)"
    using run_LeaveMessage_Sql by blast
  with run show ?thesis by simp (rule exI [of _ "q # qs"], rule exI [of _ rs], simp)
qed

text \<open>A private message to an online user in another session is sent and pushed to nobody and
  changes neither platforms nor sockets.\<close>

theorem OnMessage_keeps_for_later:
  fixes E :: env and h :: packet_head
  assumes "online_pair w p pc s r" and "ud_session (user_of r w) \<noteq> ts_session p"
  shows "sent_by (OnMessage E socket h p) w = [] \<and> pushed_by (OnMessage E socket h p) w = [] \<and>
    platforms (runs (OnMessage E socket h p) w) = platforms w \<and>
    sockets (runs (OnMessage E socket h p) w) = sockets w"
  using message_kept [OF assms, of E socket h]
  by (auto simp: sent_by_def pushed_by_def new_events_def runs_def)

text \<open>C29: A private message to a user who is not online but in the database is sent to nobody;
  exactly one push to the receiver is queued, with the sender's id and the summary of the
  text.\<close>

theorem OnMessage_pushes:
  fixes E :: env and h :: packet_head
  assumes "world_ok w" and "GetPlatformCache (ts_platform_id p) w = Some pc"
    and "ts_send_user_id p \<noteq> 10000"
    and "MapGet (user_infos_map pc) (to_int (ts_send_user_id p)) = Some s"
    and "MapGet (user_infos_map pc) (to_int (ts_recv_user_id p)) = None"
    and "known_user E (queries w) (ts_platform_id p) (ts_recv_user_id p) = us" and "us \<noteq> []"
  shows "sent_by (OnMessage E socket h p) w = [] \<and>
    pushed_by (OnMessage E socket h p) w =
      [(ts_recv_user_id p, ud_user_id (user_of s w), SummaryTestContent (ts_content p))] \<and>
    platforms (runs (OnMessage E socket h p) w) = platforms w \<and>
    sockets (runs (OnMessage E socket h p) w) = sockets w"
  using message_pushed [OF assms, of socket h]
  by (auto simp: sent_by_def pushed_by_def new_events_def runs_def)

section \<open>A group message\<close>

lemma packs_group_message:
  assumes "operate_code h = MULTI_CHAT_RECV" "length (cs_content p) < 2 ^ 30"
  shows "packs h (group_message p d)"
proof (rule packs_body)
  show "0 \<le> sint (payload_size (group_message p d) + 31)"
    using signed_of_nat32 [of "length (cs_content p) + 103"] assms(2)
    by (simp add: group_message_def add.commute)
qed (use assms in \<open>simp add: group_message_def\<close>)

text \<open>C22: A group message of an online user to a known group goes as one MULTI_CHAT_RECV, with the
  sender's name and the text, to every online member of the session except the sender, and
  leaves the platforms unchanged.\<close>

theorem OnGroupMessage_recipients:
  fixes E :: env and h :: packet_head
  assumes "world_ok w" and "GetPlatformCache (cs_platform_id p) w = Some pc"
    and "MapGet (group_infos_map pc) (to_int (cs_multi_id p)) = Some g"
    and "MapGet (user_infos_map pc) (to_int (cs_send_user_id p)) = Some s"
    and "length (cs_content p) < 2 ^ 30"
  shows "\<exists>h'. head_with h' MULTI_CHAT_RECV CHAT_TYPE (reserverd h) \<and>
    sent_by (OnGroupMessage E socket h p) w = concat (map
      (\<lambda>u. reaches (ud_socket (user_of u w)) h' (group_message p (user_of s w)))
      (filter (\<lambda>u. ud_user_id (user_of u w) \<noteq> cs_send_user_id p)
        (online_members pc (meeting_of pc (cs_session p))))) \<and>
    platforms (runs (OnGroupMessage E socket h p) w) = platforms w"
proof -
  have sorted: "map_sorted (platforms w)" by (rule world_ok_sorted [OF assms(1)])
  let ?w1 = "w\<lparr>pushes := pushes w + 1\<rparr>"
  obtain h' where h': "head_with h' MULTI_CHAT_RECV CHAT_TYPE (reserverd h)"
    "run_state (MAKE_HEAD E MULTI_CHAT_RECV CHAT_TYPE 0 (reserverd h)) ?w1 =
      (h', ?w1\<lparr>ticks := ticks ?w1 + 1, draws := draws ?w1 + 1\<rparr>)"
    using run_MAKE_HEAD by blast
  let ?w2 = "?w1\<lparr>ticks := ticks ?w1 + 1, draws := draws ?w1 + 1\<rparr>"
  have "packs h' (group_message p (user_of s w))"
    using h'(1) assms(5) by (intro packs_group_message) (simp_all add: head_with_def)
  moreover have "GetPlatformCache (cs_platform_id p) ?w2 = Some pc" using assms(2) by simp
  ultimately have "only_sends ?w2 (snd (run_state (SendMeetingNotSelf E (cs_platform_id p) (cs_multi_id p)
      (cs_send_user_id p) (cs_session p) h' (group_message p (user_of s w))) ?w2))
    (concat (map (\<lambda>u. reaches (ud_socket (user_of u ?w2)) h' (group_message p (user_of s w)))
      (filter (\<lambda>u. ud_user_id (user_of u ?w2) \<noteq> cs_send_user_id p)
        (online_members pc (meeting_of pc (cs_session p))))))"
    unfolding SendMeetingNotSelf_def by (rule send_meeting_only_sends)
  then obtain x n c es where m: "run_state (SendMeetingNotSelf E (cs_platform_id p) (cs_multi_id p)
      (cs_send_user_id p) (cs_session p) h' (group_message p (user_of s w))) ?w2 = (x, after_sends ?w2 n c es)"
    "deliveries es = concat (map (\<lambda>u. reaches (ud_socket (user_of u w)) h' (group_message p (user_of s w)))
      (filter (\<lambda>u. ud_user_id (user_of u w) \<noteq> cs_send_user_id p)
        (online_members pc (meeting_of pc (cs_session p)))))"
    by (auto simp: only_sends_def prod_eq_iff)
  let ?w3 = "(after_sends ?w2 n c es)\<lparr>ticks := ticks w + 2\<rparr>"
  obtain qs where "run_state (LeaveMessage E (cs_platform_id p) (push_id E (pushes w) 0)
      DIMENSION_GROUP_CHAT (cs_multi_id p) (e_time E (Suc (ticks w))) s (cs_content p)) ?w3 =
      (True, ?w3\<lparr>queries := queries ?w3 + 1, events := events ?w3 @ map Sql qs\<rparr>)"
    using run_LeaveMessage_Sql by blast
  then have "run_state (OnGroupMessage E socket h p) w =
      (True, ?w3\<lparr>queries := queries ?w3 + 1, events := events ?w3 @ map Sql qs\<rparr>)"
    using sorted assms h'(2) m(1)
    by (simp add: OnGroupMessage_def run_GetGroupInfos run_GetUserInfos run_GenaratePushMsgID
        get_user_def time_now_def)
  with h'(1) m(2) show ?thesis by (auto simp: sent_by_def new_events_def runs_def)
qed

section \<open>Opening a conversation\<close>

lemma put_platform_twice [simp]: "put_platform pid a (put_platform pid b w) = put_platform pid a w"
  by (simp add: put_platform_def)

definition leave_entry :: "platform_cache \<Rightarrow> int64 \<Rightarrow> int64 \<Rightarrow> int64 option" where
  "leave_entry pc uid opp = (case MapGet (leave_infos_map pc) (to_int uid) of
     None \<Rightarrow> None | Some infos \<Rightarrow> map_find infos opp)"

definition left_by :: "platform_cache \<Rightarrow> int64 \<Rightarrow> session_infos" where
  "left_by pc uid = (case MapGet (leave_infos_map pc) (to_int uid) of None \<Rightarrow> [] | Some infos \<Rightarrow> infos)"

lemma run_IsExitsLeaveInfos:
  "map_sorted (platforms w) \<Longrightarrow> GetPlatformCache pid w = Some pc \<Longrightarrow>
   run_state (IsExitsLeaveInfos pid opp uid) w = (leave_entry pc uid opp, w)"
  by (simp add: IsExitsLeaveInfos_def run_with_platform put_platform_id leave_entry_def MapGetKey_def
      split: option.split)

lemma run_AddLeaveInfos:
  "GetPlatformCache pid w = Some pc \<Longrightarrow> run_state (AddLeaveInfos pid k opp uid) w = (True, put_platform pid
     (pc\<lparr>leave_infos_map := map_set opp (map_set uid k (left_by pc opp)) (leave_infos_map pc)\<rparr>) w)"
  by (simp add: AddLeaveInfos_def run_with_platform MapAdd_def left_by_def)

lemma run_select_new:
  fixes E :: env
  assumes "map_sorted (platforms w)" "GetPlatformCache pid w = Some pc" "leave_entry pc uid opp = None"
  defines "k \<equiv> random_id E (draws w)"
  shows "run_state (select_session E pid uid opp u) w = (k,
    (put_platform pid (pc\<lparr>leave_infos_map := map_set opp (map_set uid k (left_by pc opp)) (leave_infos_map pc)\<rparr>)
      (w\<lparr>draws := draws w + 1\<rparr>))\<lparr>heap := (heap w)[u := (user_of u w)\<lparr>ud_session := k\<rparr>]\<rparr>)"
  using assms
  by (simp add: select_session_def run_IsExitsLeaveInfos run_GetRandomID run_AddLeaveInfos
      set_session_def run_update_user)

lemma run_select_join:
  assumes "map_sorted (platforms w)" "GetPlatformCache pid w = Some pc" "leave_entry pc uid opp = Some k"
  shows "run_state (select_session E pid uid opp u) w = (k,
    put_platform pid (pc\<lparr>leave_infos_map := map_erase opp (leave_infos_map pc),
        meeting_infos_map := map_set k (map_set uid uid (map_set opp opp [])) (meeting_infos_map pc)\<rparr>)
      (w\<lparr>heap := (heap w)[u := (user_of u w)\<lparr>ud_session := k\<rparr>]\<rparr>))"
  using assms
  by (simp add: select_session_def run_IsExitsLeaveInfos ClearLeaveInfos_def MapDel_eq
      AddMeetingInfos_def run_with_platform MapAdd_def set_session_def run_update_user)

definition online :: "platform_cache \<Rightarrow> int64 \<Rightarrow> user_info \<Rightarrow> bool" where
  "online pc uid u \<longleftrightarrow> MapGet (user_infos_map pc) (to_int uid) = Some u"

lemma packs_user_opposition:
  "head_with h GET_OPPOSITION_INFO t r \<Longrightarrow> packs h (user_opposition pid opp type k d d')"
  by (intro packs_body) (simp_all add: head_with_def user_opposition_def)

lemma run_OnGetUserInfo:
  assumes "map_sorted (platforms w)" "GetPlatformCache pid w = Some pc" "online pc uid u" "online pc opp v"
    and "run_state (select_session E pid uid opp u) w = (k, w1)"
  shows "\<exists>h' n c es ok. head_with h' GET_OPPOSITION_INFO USER_TYPE (to_int ses) \<and>
    run_state (OnGetUserInfo E socket pid uid opp type ses) w =
      (ok, after_sends (w1\<lparr>ticks := ticks w1 + 1, draws := draws w1 + 1\<rparr>) n c es) \<and>
    deliveries es = reaches socket h' (user_opposition pid opp type k (user_of u w1) (user_of v w1))"
proof -
  obtain h' where h': "head_with h' GET_OPPOSITION_INFO USER_TYPE (to_int ses)"
    "run_state (MAKE_HEAD E GET_OPPOSITION_INFO USER_TYPE 0 (to_int ses)) w1 =
      (h', w1\<lparr>ticks := ticks w1 + 1, draws := draws w1 + 1\<rparr>)"
    using run_MAKE_HEAD by blast
  let ?b = "user_opposition pid opp type k (user_of u w1) (user_of v w1)"
  let ?w2 = "w1\<lparr>ticks := ticks w1 + 1, draws := draws w1 + 1\<rparr>"
  obtain ok n c es where s: "run_state (SendMessage E socket h' ?b) ?w2 = (ok, after_sends ?w2 n c es)"
    "deliveries es = reaches socket h' ?b"
    using SendMessage_only_sends [OF packs_user_opposition [OF h'(1)], of ?w2 E socket pid opp type k
      "user_of u w1" "user_of v w1"]
    by (auto simp: only_sends_def prod_eq_iff)
  have "run_state (OnGetUserInfo E socket pid uid opp type ses) w = (ok, after_sends ?w2 n c es)"
    using assms h'(2) s(1)
    by (simp add: OnGetUserInfo_def find_opposite_def run_GetUserInfos online_def get_user_def)
  with h'(1) s(2) show ?thesis by blast
qed

lemma meet:
  fixes E :: env and sa sb type type' :: int32 and ses ses' :: int64
  assumes ok: "world_ok w" and pc: "GetPlatformCache pid w = Some pc"
    and on: "online pc a ua" "online pc b ub" and ne: "ua \<noteq> ub"
    and le: "leave_entry pc a b = None" and fb: "fits_int b"
  defines "k \<equiv> random_id E (draws w)"
    and "w1 \<equiv> runs (OnGetUserInfo E sa pid a b type ses) w"
  defines "w2 \<equiv> runs (OnGetUserInfo E sb pid b a type' ses') w1"
  shows "\<exists>pc2 h1 h2. GetPlatformCache pid w2 = Some pc2 \<and> user_infos_map pc2 = user_infos_map pc \<and>
    map_find (meeting_infos_map pc2) k = Some (map_set b b (map_set a a [])) \<and>
    leave_infos_map pc2 = map_erase a (map_set b (map_set a k (left_by pc b)) (leave_infos_map pc)) \<and>
    user_of ua w2 = (user_of ua w)\<lparr>ud_session := k\<rparr> \<and> user_of ub w2 = (user_of ub w)\<lparr>ud_session := k\<rparr> \<and>
    sent_by (OnGetUserInfo E sa pid a b type ses) w = reaches sa h1
      (user_opposition pid b type k (user_of ua w2) (user_of ub w)) \<and>
    sent_by (OnGetUserInfo E sb pid b a type' ses') w1 = reaches sb h2
      (user_opposition pid a type' k (user_of ub w2) (user_of ua w2))"
proof -
  have sorted: "map_sorted (platforms w)" by (rule world_ok_sorted [OF ok])
  have bound: "ua < length (heap w)" "ub < length (heap w)"
    using found_allocated [OF ok pc] on by (auto simp: online_def)
  let ?pc1 = "pc\<lparr>leave_infos_map := map_set b (map_set a k (left_by pc b)) (leave_infos_map pc)\<rparr>"
  define v where "v = (put_platform pid ?pc1 (w\<lparr>draws := draws w + 1\<rparr>))
    \<lparr>heap := (heap w)[ua := (user_of ua w)\<lparr>ud_session := k\<rparr>]\<rparr>"
  have sel1: "run_state (select_session E pid a b ua) w = (k, v)"
    using run_select_new [OF sorted pc le, of E ua] by (simp add: v_def k_def)
  from run_OnGetUserInfo [OF sorted pc on sel1]
  obtain h1 n1 c1 es1 ok1 where one: "run_state (OnGetUserInfo E sa pid a b type ses) w =
      (ok1, after_sends (v\<lparr>ticks := ticks v + 1, draws := draws v + 1\<rparr>) n1 c1 es1)"
      "deliveries es1 = reaches sa h1 (user_opposition pid b type k (user_of ua v) (user_of ub v))"
    by blast
  have w1: "w1 = after_sends (v\<lparr>ticks := ticks v + 1, draws := draws v + 1\<rparr>) n1 c1 es1"
    using one(1) by (simp add: w1_def runs_def)
  have uv: "user_of ua v = (user_of ua w)\<lparr>ud_session := k\<rparr>" "user_of ub v = user_of ub w"
    using bound ne by (auto simp: v_def user_of_def)
  have "world_ok w1" unfolding w1_def by (rule runs_ok [OF safe_OnGetUserInfo ok])
  then have sorted1: "map_sorted (platforms w1)" by (rule world_ok_sorted)
  have pc1: "GetPlatformCache pid w1 = Some ?pc1" by (simp add: w1 v_def)
  have len1: "length (heap w1) = length (heap w)" by (simp add: w1 v_def)
  have "leave_entry ?pc1 b a = Some k"
    using fb by (simp add: leave_entry_def MapGet_map_set)
  from run_select_join [OF sorted1 pc1 this, of E ub] obtain pc2 where
    pc2: "pc2 = ?pc1\<lparr>leave_infos_map := map_erase a (leave_infos_map ?pc1),
        meeting_infos_map := map_set k (map_set b b (map_set a a [])) (meeting_infos_map pc)\<rparr>" and
    sel2: "run_state (select_session E pid b a ub) w1 = (k, put_platform pid pc2
      (w1\<lparr>heap := (heap w1)[ub := (user_of ub w1)\<lparr>ud_session := k\<rparr>]\<rparr>))"
    by simp
  define x where "x = put_platform pid pc2 (w1\<lparr>heap := (heap w1)[ub := (user_of ub w1)\<lparr>ud_session := k\<rparr>]\<rparr>)"
  have on1: "online ?pc1 b ub" "online ?pc1 a ua" using on by (simp_all add: online_def)
  from run_OnGetUserInfo [OF sorted1 pc1 on1 sel2 [folded x_def]]
  obtain h2 n2 c2 es2 ok2 where two: "run_state (OnGetUserInfo E sb pid b a type' ses') w1 =
      (ok2, after_sends (x\<lparr>ticks := ticks x + 1, draws := draws x + 1\<rparr>) n2 c2 es2)"
      "deliveries es2 = reaches sb h2 (user_opposition pid a type' k (user_of ub x) (user_of ua x))"
    by blast
  have w2: "w2 = after_sends (x\<lparr>ticks := ticks x + 1, draws := draws x + 1\<rparr>) n2 c2 es2"
    using two(1) by (simp add: w2_def runs_def)
  have w1u: "user_of ua w1 = user_of ua v" "user_of ub w1 = user_of ub v" by (simp_all add: w1)
  have ux: "user_of ub x = (user_of ub w)\<lparr>ud_session := k\<rparr>" "user_of ua x = (user_of ua w)\<lparr>ud_session := k\<rparr>"
    using bound ne len1 w1u uv by (simp_all add: x_def)
  have sent1: "sent_by (OnGetUserInfo E sa pid a b type ses) w = deliveries es1"
    using sent_by_run [OF one(1), of es1] by (simp add: v_def)
  have sent2: "sent_by (OnGetUserInfo E sb pid b a type' ses') w1 = deliveries es2"
    using sent_by_run [OF two(1), of es2] by (simp add: x_def)
  have "GetPlatformCache pid w2 = Some pc2" by (simp add: w2 x_def)
  moreover have "user_infos_map pc2 = user_infos_map pc"
    "map_find (meeting_infos_map pc2) k = Some (map_set b b (map_set a a []))"
    "leave_infos_map pc2 = map_erase a (map_set b (map_set a k (left_by pc b)) (leave_infos_map pc))"
    by (simp_all add: pc2)
  moreover have "user_of ua w2 = user_of ua x" "user_of ub w2 = user_of ub x" by (simp_all add: w2)
  ultimately show ?thesis using sent1 sent2 one(2) two(2) ux uv by auto
qed

text \<open>C20: When two online users without a pending leave session open a conversation with each
  other, one after the other, both end in the session the first one drew, the meeting of that
  session has exactly the two of them, and each is sent one answer with that session and both
  names.\<close>

theorem conversation_opens:
  fixes E :: env and sa sb type type' :: int32 and ses ses' :: int64
  assumes "world_ok w" and "GetPlatformCache pid w = Some pc"
    and "online pc a ua" "online pc b ub" and "ua \<noteq> ub"
    and "leave_entry pc a b = None" and "fits_int b"
  defines "k \<equiv> random_id E (draws w)"
    and "w1 \<equiv> runs (OnGetUserInfo E sa pid a b type ses) w"
  defines "w2 \<equiv> runs (OnGetUserInfo E sb pid b a type' ses') w1"
  shows "\<exists>pc2 h1 h2. GetPlatformCache pid w2 = Some pc2 \<and>
    map_find (meeting_infos_map pc2) k = Some (map_set b b (map_set a a [])) \<and>
    user_of ua w2 = (user_of ua w)\<lparr>ud_session := k\<rparr> \<and> user_of ub w2 = (user_of ub w)\<lparr>ud_session := k\<rparr> \<and>
    sent_by (OnGetUserInfo E sa pid a b type ses) w = reaches sa h1
      (user_opposition pid b type k (user_of ua w2) (user_of ub w)) \<and>
    sent_by (OnGetUserInfo E sb pid b a type' ses') w1 = reaches sb h2
      (user_opposition pid a type' k (user_of ub w2) (user_of ua w2))"
  using meet [OF assms(1-7), where E = E and sa = sa and type = type and ses = ses and sb = sb and type' = type' and ses' = ses'] unfolding k_def w1_def w2_def by blast

text \<open>After the two users have met, the leave session by which the second one found the first
  is still recorded: the entry cleared is that of the first user.\<close>

theorem leave_entry_survives:
  fixes E :: env and sa sb type type' :: int32 and ses ses' :: int64
  assumes "world_ok w" and "GetPlatformCache pid w = Some pc"
    and "online pc a ua" "online pc b ub" and "ua \<noteq> ub"
    and "leave_entry pc a b = None" and "fits_int b"
  shows "\<exists>pc2. GetPlatformCache pid (runs (OnGetUserInfo E sb pid b a type' ses')
      (runs (OnGetUserInfo E sa pid a b type ses) w)) = Some pc2 \<and>
    leave_entry pc2 b a = Some (random_id E (draws w))"
proof -
  obtain pc2 where pc2: "GetPlatformCache pid (runs (OnGetUserInfo E sb pid b a type' ses')
      (runs (OnGetUserInfo E sa pid a b type ses) w)) = Some pc2"
    "leave_infos_map pc2 = map_erase a (map_set b (map_set a (random_id E (draws w)) (left_by pc b))
      (leave_infos_map pc))"
    using meet [OF assms(1-7), where E = E and sa = sa and type = type and ses = ses and sb = sb and type' = type' and ses' = ses'] by blast
  have "a \<noteq> b" using assms(3-5) by (auto simp: online_def)
  moreover have "map_sorted (leave_infos_map pc)"
    using platform_ok_of [OF assms(1,2)] by (simp add: platform_ok_def)
  ultimately have "leave_entry pc2 b a = Some (random_id E (draws w))"
    using assms(7) by (simp add: leave_entry_def MapGet_def pc2(2) fits_int_def)
  with pc2(1) show ?thesis by blast
qed

text \<open>C14: After two online users have opened a conversation with each other, a private message of
  the first in that session is delivered to the socket of the second, and nothing else is
  sent. No leave session is pending between the two when the first one opens the conversation,
  the id of the second fits an int, the sender is not the assistant 10000, the second has a
  positive socket, the users are different objects, and the text is shorter than 2^30.\<close>

theorem conversation_delivers:
  fixes E :: env and h :: packet_head and sa sb type type' socket :: int32 and ses ses' :: int64
  assumes "world_ok w" and "GetPlatformCache pid w = Some pc"
    and "online pc a ua" "online pc b ub" and "ua \<noteq> ub"
    and "leave_entry pc a b = None" and "fits_int b"
    and "a \<noteq> 10000" and "0 < sint (ud_socket (user_of ub w))"
    and "ts_platform_id p = pid" "ts_send_user_id p = a" "ts_recv_user_id p = b"
    and "ts_session p = random_id E (draws w)" and "length (ts_content p) < 2 ^ 30"
  shows "\<exists>h'. sent_by (OnMessage E socket h p)
      (runs (OnGetUserInfo E sb pid b a type' ses') (runs (OnGetUserInfo E sa pid a b type ses) w)) =
    [(ud_socket (user_of ub w), h', private_recv p)]"
proof -
  let ?w2 = "runs (OnGetUserInfo E sb pid b a type' ses') (runs (OnGetUserInfo E sa pid a b type ses) w)"
  obtain pc2 where pc2: "GetPlatformCache pid ?w2 = Some pc2" "user_infos_map pc2 = user_infos_map pc"
    "user_of ub ?w2 = (user_of ub w)\<lparr>ud_session := random_id E (draws w)\<rparr>"
    using meet [OF assms(1-7), where E = E and sa = sa and type = type and ses = ses and sb = sb and type' = type' and ses' = ses'] by blast
  have "world_ok ?w2" by (intro runs_ok safe_OnGetUserInfo assms(1))
  with pc2 assms(3,4,8,10-12) have "online_pair ?w2 p pc2 ua ub"
    by (simp add: online_pair_def online_def)
  moreover have "ud_session (user_of ub ?w2) = ts_session p" "0 < sint (ud_socket (user_of ub ?w2))"
    using pc2(3) assms(9,13) by simp_all
  ultimately obtain h' bytes ok w' mid q where
    "run_state (OnMessage E socket h p) ?w2 = (True, w')"
    "events w' = events ?w2 @ [Sent (ud_socket (user_of ub ?w2)) (h'\<lparr>msg_id := mid\<rparr>) (private_recv p) bytes ok]
       @ recorded E (queries ?w2) q"
    using message_delivered [of ?w2 p pc2 ua ub h E socket] assms(14) by blast
  then have "sent_by (OnMessage E socket h p) ?w2 =
      [(ud_socket (user_of ub w), h'\<lparr>msg_id := mid\<rparr>, private_recv p)]"
    using pc2(3) by (simp add: sent_by_def new_events_def)
  then show ?thesis by blast
qed

section \<open>Instances\<close>

definition sample_message_to :: "int64 \<Rightarrow> int64 \<Rightarrow> text_chat_private_send" where
  "sample_message_to recv session = \<lparr>ts_platform_id = 10000, ts_send_user_id = 7, ts_recv_user_id = recv,
     ts_session = session, ts_token = [], ts_content = [72, 105]\<rparr>"

definition sample_group_message :: multi_chat_send where
  "sample_group_message = \<lparr>cs_platform_id = 10000, cs_multi_id = 77, cs_send_user_id = 7,
     cs_session = 77, cs_token = [], cs_content = [72, 105]\<rparr>"

lemma sample_message_simps [simp]:
  "ts_platform_id (sample_message_to r k) = 10000" "ts_send_user_id (sample_message_to r k) = 7"
  "ts_recv_user_id (sample_message_to r k) = r" "ts_session (sample_message_to r k) = k"
  "ts_content (sample_message_to r k) = [72, 105]"
  by (simp_all add: sample_message_to_def)

lemma sample_online [simp]:
  "online_pair sample_world (sample_message_to 8 k) sample_cache 0 (Suc 0)"
  "online sample_cache 7 0" "online sample_cache 8 (Suc 0)" "leave_entry sample_cache 7 8 = None"
  by (simp_all add: online_pair_def MapGet_def online_def leave_entry_def)

theorem OnMessage_delivers_witness:
  "fst (run_state (OnMessage sample_env 5 sample_head (sample_message_to 8 77)) sample_world) = True"
  using OnMessage_delivers [of sample_world "sample_message_to 8 77" sample_cache 0 "Suc 0" sample_head sample_env 5]
  by auto

theorem OnMessage_keeps_for_later_witness:
  "sent_by (OnMessage sample_env 5 sample_head (sample_message_to 8 78)) sample_world = []"
  using OnMessage_keeps_for_later [of sample_world "sample_message_to 8 78" sample_cache 0 "Suc 0" sample_env 5 sample_head]
  by simp

theorem OnMessage_pushes_witness:
  "pushed_by (OnMessage sample_env 5 sample_head (sample_message_to 9 77)) sample_world = [(9, 7, [72, 105])]"
  using OnMessage_pushes [of sample_world "sample_message_to 9 77" sample_cache 0 sample_env _ 5 sample_head]
  by (simp add: MapGet_def SummaryTestContent_def)

theorem OnGroupMessage_recipients_witness:
  "map fst (sent_by (OnGroupMessage sample_env 5 sample_head sample_group_message) sample_world) = [6]"
  using OnGroupMessage_recipients [of sample_world sample_group_message sample_cache sample_group 0 sample_head sample_env 5]
  by (auto simp: sample_group_message_def MapGet_def meeting_of_def online_members_def
      List.map_filter_simps reaches_def)

theorem conversation_opens_witness:
  "ud_session (user_of 0 (runs (OnGetUserInfo sample_env 6 10000 8 7 1 0)
     (runs (OnGetUserInfo sample_env 5 10000 7 8 1 0) sample_world))) = random_id sample_env (draws sample_world)"
  using conversation_opens [of sample_world 10000 sample_cache 7 0 8 "Suc 0" sample_env 6 1 0 5 1 0]
  by (auto simp: fits_int_def)

theorem leave_entry_survives_witness:
  "\<exists>pc. GetPlatformCache 10000 (runs (OnGetUserInfo sample_env 6 10000 8 7 1 0)
     (runs (OnGetUserInfo sample_env 5 10000 7 8 1 0) sample_world)) = Some pc \<and>
     leave_entry pc 8 7 = Some (random_id sample_env (draws sample_world))"
  using leave_entry_survives [of sample_world 10000 sample_cache 7 0 8 "Suc 0" sample_env 6 1 0 5 1 0]
  by (auto simp: fits_int_def)

theorem conversation_delivers_witness:
  "\<exists>h'. sent_by (OnMessage sample_env 5 sample_head
      (sample_message_to 8 (random_id sample_env (draws sample_world))))
      (runs (OnGetUserInfo sample_env 6 10000 8 7 1 0) (runs (OnGetUserInfo sample_env 5 10000 7 8 1 0) sample_world)) =
    [(6, h', private_recv (sample_message_to 8 (random_id sample_env (draws sample_world))))]"
  using conversation_delivers [of sample_world 10000 sample_cache 7 0 8 "Suc 0"
      "sample_message_to 8 (random_id sample_env (draws sample_world))" sample_env 5 sample_head 6 1 0 5 1 0]
  by (simp add: fits_int_def)

end
