(* ===== verification/RateTable.thy ===== *)
theory RateTable
  imports MigPrelude "HOL-Library.Multiset"
begin

text \<open>
  The tables of random draws of \<^verbatim>\<open>src/server/public/basic/radom_in.{h,cc}\<close>: \<^verbatim>\<open>MigRadomInV2\<close>, a
  shuffled table handed out entry by entry and shuffled again when used up, and its older
  sibling \<^verbatim>\<open>MigRadomIn\<close> with a fixed table.  The results of \<^verbatim>\<open>rand\<close> are a parameter, a number
  below \<open>2\<^sup>3\<^sup>1\<close> per call.
\<close>

section \<open>A random slot\<close>

text \<open>A natural number as a binary floating point number of \<open>p\<close> significant bits: the nearest
  one, the even one of two.\<close>

function excess_bits :: "nat \<Rightarrow> nat \<Rightarrow> nat" where
  "excess_bits p n = (if n < 2 ^ p then 0 else Suc (excess_bits p (n div 2)))"
  by pat_completeness auto

termination
  by (relation "measure snd") (auto intro!: div_less_dividend gr0I)

declare excess_bits.simps [simp del]

definition round_even :: "nat \<Rightarrow> nat \<Rightarrow> nat" where
  "round_even p n =
     (let u = 2 ^ excess_bits p n; q = n div u; r = n mod u in
      if u < 2 * r \<or> 2 * r = u \<and> odd q then Suc q * u else q * u)"

text \<open>\<^verbatim>\<open>(int) ((float) num * (rand() / (RAND_MAX + 1.0)))\<close>: the quotient is exact, the product is one
  of \<^verbatim>\<open>double\<close>s.\<close>

definition scaled :: "nat \<Rightarrow> nat \<Rightarrow> nat" where
  "scaled num r = round_even 53 (round_even 24 num * r) div 2 ^ 31"

lemma round_even_exact: "n < 2 ^ p \<Longrightarrow> round_even p n = n"
  by (simp add: round_even_def excess_bits.simps [of p n])

lemma round_even_above: "round_even p n \<le> n + 2 ^ excess_bits p n"
  unfolding round_even_def Let_def by (auto intro: trans_le_add1 div_times_less_eq_dividend)

lemma scaled_less:
  assumes "0 < num" "num < 2 ^ 24" "r < 2 ^ 31"
  shows "scaled num r < num"
proof -
  have r: "r \<le> 2 ^ 31 - 1" using assms(3) by simp
  have "num * Suc r \<le> num * 2 ^ 31" using assms(3) by (intro mult_le_mono2) simp
  then have p: "num * r + num \<le> num * 2 ^ 31" by simp
  have "round_even 53 (num * r) < num * 2 ^ 31"
  proof (cases "num * r < 2 ^ 53")
    case True
    have "num * r < num * 2 ^ 31" using assms(1,3) by simp
    then show ?thesis using round_even_exact [OF True] by simp
  next
    case False
    have "num * r < 2 ^ 24 * 2 ^ 31" using assms by (intro mult_strict_mono) auto
    then have "num * r < 2 ^ 55" by simp
    then have "excess_bits 53 (num * r) \<le> 2"
      by (simp add: excess_bits.simps [of 53 "num * r"] excess_bits.simps [of 53 "num * r div 2"]
        excess_bits.simps [of 53 "num * r div 2 div 2"])
    then have "(2::nat) ^ excess_bits 53 (num * r) \<le> 2 ^ 2" by (intro power_increasing) auto
    then have "round_even 53 (num * r) \<le> num * r + 4" using round_even_above [of 53 "num * r"] by simp
    moreover have "num * r \<le> 4 * 2 ^ 31" if "num \<le> 4" using that r by (intro mult_le_mono) simp_all
    then have "4 < num" using False by fastforce
    ultimately show ?thesis using p by linarith
  qed
  then show ?thesis
    using assms(2) by (simp add: scaled_def round_even_exact div_less_iff_less_mult)
qed

section \<open>Filling a table\<close>

text \<open>The inner loop: the next slot holding 0, cyclically.  The fuel bounds the slots tried,
  \<open>None\<close> is a loop still running.\<close>

fun probe :: "nat \<Rightarrow> int list \<Rightarrow> nat \<Rightarrow> nat option" where
  "probe 0 table i = None"
| "probe (Suc fuel) table i =
     (if table ! i \<noteq> 0 then probe fuel table (Suc i mod length table) else Some i)"

text \<open>One value after the other, each into the first free slot from a random one on; a table of
  \<open>n\<close> slots is searched at most \<open>n\<close> times.  Storing 0 leaves a slot free.\<close>

fun fill :: "(nat \<Rightarrow> nat) \<Rightarrow> nat \<Rightarrow> nat \<Rightarrow> int list \<Rightarrow> int list option" where
  "fill rand 0 refcount table = Some table"
| "fill rand (Suc left) refcount table =
     (case probe (length table) table (scaled (length table) (rand refcount)) of
        None \<Rightarrow> None
      | Some i \<Rightarrow> fill rand left (Suc refcount) (table[i := int refcount]))"

definition Reset_table :: "(nat \<Rightarrow> nat) \<Rightarrow> nat \<Rightarrow> int list option" where
  "Reset_table rand num = fill rand num 0 (replicate num 0)"

section \<open>MigRadomInV2\<close>

text \<open>\<open>resets\<close> counts the shuffles, each of which draws afresh.\<close>

record radom_v2 =
  rate_table :: "int list"
  num_of :: nat
  index_of :: nat
  resets :: nat

type_synonym rand_source = "nat \<Rightarrow> nat \<Rightarrow> nat"

definition SetRateTable :: "rand_source \<Rightarrow> int \<Rightarrow> radom_v2 \<Rightarrow> radom_v2 option" where
  "SetRateTable rand num v =
     (let n = (if 0 < num then nat num else num_of v)
      in map_option (\<lambda>t. v\<lparr>num_of := n, index_of := 0, rate_table := t, resets := resets v + 1\<rparr>)
           (Reset_table (rand (resets v)) n))"

definition MigRadomInV2 :: "rand_source \<Rightarrow> nat \<Rightarrow> radom_v2 option" where
  "MigRadomInV2 rand num =
     SetRateTable rand 0 \<lparr>rate_table = [], num_of = num, index_of = 0, resets = 0\<rparr>"

text \<open>The loop of \<^verbatim>\<open>GetPrize\<close> for \<open>k\<close> more entries.\<close>

fun GetPrize :: "rand_source \<Rightarrow> nat \<Rightarrow> radom_v2 \<Rightarrow> (int list \<times> radom_v2) option" where
  "GetPrize rand 0 v = Some ([], v)"
| "GetPrize rand (Suc k) v =
     (case (if index_of v < num_of v then Some v else SetRateTable rand 0 v) of
        None \<Rightarrow> None
      | Some v' \<Rightarrow> (case GetPrize rand k (v'\<lparr>index_of := index_of v' + 1\<rparr>) of
          None \<Rightarrow> None
        | Some (xs, v'') \<Rightarrow> Some (rate_table v' ! index_of v' # xs, v'')))"

section \<open>The table is a permutation\<close>

lemma probe_finds:
  assumes "i < length table" and "d < fuel" and "table ! ((i + d) mod length table) = 0"
  shows "\<exists>j. probe fuel table i = Some j \<and> j < length table \<and> table ! j = 0"
  using assms
proof (induction fuel arbitrary: i d)
  case (Suc fuel)
  show ?case
  proof (cases "table ! i = 0")
    case False
    obtain e where d: "d = Suc e" using Suc.prems(1,3) False by (cases d) auto
    have "(Suc i mod length table + e) mod length table = (i + d) mod length table"
      unfolding d by (simp add: mod_add_left_eq)
    then have "table ! ((Suc i mod length table + e) mod length table) = 0"
      using Suc.prems(3) by simp
    moreover have "Suc i mod length table < length table"
      using Suc.prems(1) by (intro mod_less_divisor) auto
    ultimately show ?thesis using Suc.IH [of "Suc i mod length table" e] False d Suc.prems(2)
      by simp
  qed (use Suc.prems in simp)
qed simp

lemma probe_free:
  assumes "i < length table" and "0 \<in> set table"
  shows "\<exists>j. probe (length table) table i = Some j \<and> j < length table \<and> table ! j = 0"
proof -
  obtain k where k: "k < length table" "table ! k = 0" using assms(2) by (auto simp: in_set_conv_nth)
  let ?d = "(k + length table - i) mod length table"
  have "(i + ?d) mod length table = (i + (k + length table - i)) mod length table"
    by (rule mod_add_right_eq)
  also have "\<dots> = k" using k(1) assms(1) by simp
  finally have "table ! ((i + ?d) mod length table) = 0" using k(2) by simp
  moreover have "?d < length table" using k(1) by (intro mod_less_divisor) auto
  ultimately show ?thesis using probe_finds [OF assms(1), of ?d "length table"] by blast
qed

text \<open>With the values below \<open>c\<close> stored, the table holds 1 to \<open>c - 1\<close> once and is free elsewhere.\<close>

definition partly_filled :: "nat \<Rightarrow> nat \<Rightarrow> int list \<Rightarrow> bool" where
  "partly_filled n c table \<longleftrightarrow> length table = n \<and>
     mset table = mset (map int [1..<c]) + replicate_mset (n - (c - 1)) 0"

lemma partly_filled_free:
  assumes "partly_filled n c table" and "c \<le> n" and "0 < n"
  shows "0 \<in> set table"
proof -
  have "0 < n - (c - 1)" using assms(2,3) by auto
  then have "0 \<in># replicate_mset (n - (c - 1)) (0 :: int)" by simp
  then have "0 \<in># mset table" using assms(1) by (simp add: partly_filled_def)
  then show ?thesis by simp
qed

lemma partly_filled_step:
  assumes "partly_filled n c table" and "c < n" and "i < n" and "table ! i = 0"
  shows "partly_filled n (Suc c) (table[i := int c])"
proof (cases "c = 0")
  case True
  then have "table[i := int c] = table" using assms(4) list_update_id [of table i] by simp
  then show ?thesis using assms(1) True by (simp add: partly_filled_def)
next
  case False
  have len: "length table = n" and m: "mset table = mset (map int [1..<c]) + replicate_mset (n - (c - 1)) 0"
    using assms(1) by (simp_all add: partly_filled_def)
  have "n - (c - 1) = Suc (n - c)" using False assms(2) by simp
  then have "mset (table[i := int c]) = add_mset (int c) (mset (map int [1..<c]) + replicate_mset (n - c) 0)"
    using assms(3,4) len m by (simp add: mset_update)
  then show ?thesis using False len by (simp add: partly_filled_def)
qed

lemma fill_partly:
  assumes "\<And>k. rand k < 2 ^ 31" "n < 2 ^ 24"
  shows "partly_filled n c table \<Longrightarrow> c + left \<le> n \<Longrightarrow> \<exists>t. fill rand left c table = Some t \<and> partly_filled n (c + left) t"
proof (induction left arbitrary: c table)
  case (Suc left)
  have len: "length table = n" using Suc.prems(1) by (simp add: partly_filled_def)
  have "scaled (length table) (rand c) < length table"
    using Suc.prems(2) assms len by (intro scaled_less) auto
  moreover have "0 \<in> set table" using partly_filled_free [OF Suc.prems(1)] Suc.prems(2) by simp
  ultimately obtain j where j: "probe (length table) table (scaled (length table) (rand c)) = Some j"
    "j < n" "table ! j = 0" using probe_free len by metis
  have "partly_filled n (Suc c) (table[j := int c])"
    using partly_filled_step [OF Suc.prems(1) _ j(2,3)] Suc.prems(2) by simp
  from Suc.IH [OF this] j(1) Suc.prems(2) show ?case by simp
qed simp

lemma reset_permutation:
  assumes "\<And>k. rand k < 2 ^ 31" "n < 2 ^ 24"
  shows "\<exists>t. Reset_table rand n = Some t \<and> length t = n \<and> mset t = mset (map int [0..<n])"
proof -
  have "partly_filled n 0 (replicate n 0)" by (simp add: partly_filled_def)
  from fill_partly [of rand, OF assms this] obtain t
    where t: "Reset_table rand n = Some t" "partly_filled n n t"
    by (auto simp: Reset_table_def)
  have "mset (map int [1..<n]) + replicate_mset (n - (n - 1)) 0 = mset (map int [0..<n])"
  proof (cases n)
    case (Suc m)
    then show ?thesis by (simp add: upt_rec [of 0] del: upt_Suc)
  qed simp
  with t show ?thesis by (simp add: partly_filled_def)
qed

text \<open>Filling a rate table of n entries, n below \<open>2\<^sup>2\<^sup>4\<close>, ends and yields a permutation of 0 to n-1,
  whatever the random numbers.  (From \<open>2\<^sup>2\<^sup>4\<close> on a \<^verbatim>\<open>float\<close> does not hold every size, and the slot may
  lie behind the table.)\<close>

theorem rate_table_is_a_permutation:
  assumes "\<And>k. rand k < 2 ^ 31" and "n < 2 ^ 24"
  shows "\<exists>t. Reset_table rand n = Some t \<and> length t = n \<and> mset t = mset (map int [0..<n])"
  using reset_permutation [of rand, OF assms] .

section \<open>A round of prizes\<close>

lemma GetPrize_within:
  "index_of v + k \<le> num_of v \<Longrightarrow> length (rate_table v) = num_of v \<Longrightarrow>
   GetPrize rand k v = Some (take k (drop (index_of v) (rate_table v)), v\<lparr>index_of := index_of v + k\<rparr>)"
proof (induction k arbitrary: v)
  case (Suc k)
  have "GetPrize rand k (v\<lparr>index_of := index_of v + 1\<rparr>) =
      Some (take k (drop (index_of v + 1) (rate_table v)), v\<lparr>index_of := index_of v + Suc k\<rparr>)"
    using Suc.IH [of "v\<lparr>index_of := index_of v + 1\<rparr>"] Suc.prems by simp
  moreover have "drop (index_of v) (rate_table v) =
      rate_table v ! index_of v # drop (Suc (index_of v)) (rate_table v)"
    using Suc.prems by (simp add: Cons_nth_drop_Suc)
  ultimately show ?case using Suc.prems by simp
qed simp

text \<open>C39: From a used-up table, the next n prizes of MigRadomInV2 are each number below n exactly
  once, for n below 2^24, the sizes a float holds exactly.\<close>

theorem a_round_of_prizes_is_a_permutation:
  assumes "\<And>i k. rand i k < 2 ^ 31" and "0 < n" and "num_of v = n" and "n \<le> index_of v" and "n < 2 ^ 24"
  shows "\<exists>xs v'. GetPrize rand n v = Some (xs, v') \<and> mset xs = mset (map int [0..<n]) \<and>
    num_of v' = n \<and> index_of v' = n"
proof -
  obtain t where t: "Reset_table (rand (resets v)) n = Some t" "length t = n" "mset t = mset (map int [0..<n])"
    using reset_permutation [of "rand (resets v)", OF assms(1,5)] by blast
  let ?v = "v\<lparr>num_of := n, index_of := 0, rate_table := t, resets := resets v + 1\<rparr>"
  have s: "SetRateTable rand 0 v = Some ?v" using t(1) assms(3) by (simp add: SetRateTable_def)
  obtain m where m: "n = Suc m" using assms(2) by (cases n) auto
  have "GetPrize rand n v = GetPrize rand n ?v"
    using s assms(3,4) by (simp add: m)
  moreover have "GetPrize rand n ?v = Some (t, ?v\<lparr>index_of := n\<rparr>)"
    using GetPrize_within [of ?v n rand] t(2) by simp
  ultimately show ?thesis using t(3) by simp
qed

theorem rate_table_is_a_permutation_witness:
  "\<exists>t. Reset_table (\<lambda>k. 7) 5 = Some t \<and> mset t = mset (map int [0..<5])"
  using rate_table_is_a_permutation [of "\<lambda>k. 7" 5] by fastforce

theorem a_round_of_prizes_is_a_permutation_witness:
  "\<exists>xs v'. GetPrize (\<lambda>i k. 7) 3 \<lparr>rate_table = [], num_of = 3, index_of = 3, resets = 0\<rparr> = Some (xs, v') \<and>
     mset xs = mset (map int [0..<3])"
  using a_round_of_prizes_is_a_permutation [of "\<lambda>i k. 7" 3
    "\<lparr>rate_table = [], num_of = 3, index_of = 3, resets = 0\<rparr>"] by fastforce

section \<open>MigRadomIn\<close>

abbreviation RATE_SIZE :: int where "RATE_SIZE \<equiv> 100"
abbreviation TABLE_SIZE :: int where "TABLE_SIZE \<equiv> 10000"

text \<open>The counters of the older class; \<^verbatim>\<open>iIndex\<close> is never initialised.  The entry read is \<open>None\<close>
  when the index lies outside the table.\<close>

record radom_v1 =
  gN :: int
  gM :: int
  iIndex :: int32

definition SetRateTableV1 :: "(nat \<Rightarrow> nat) \<Rightarrow> int list option" where
  "SetRateTableV1 rand = Reset_table rand (nat TABLE_SIZE)"

definition c_rem :: "int \<Rightarrow> int \<Rightarrow> int" where
  "c_rem a b = (if a < 0 then - ((- a) mod b) else a mod b)"

definition prize_index :: "nat \<Rightarrow> radom_v1 \<Rightarrow> int" where
  "prize_index r v = int (scaled 100 r) + c_rem (sint (iIndex v)) RATE_SIZE"

text \<open>The label \<^verbatim>\<open>back\<close>: a full count starts the next column and is tried again, at once
  successfully.\<close>

definition advance_columns :: "radom_v1 \<Rightarrow> radom_v1" where
  "advance_columns v =
     (if gN v < RATE_SIZE then v\<lparr>gN := gN v + 1\<rparr>
      else v\<lparr>gN := 1, gM := c_rem (gM v + 1) RATE_SIZE\<rparr>)"

definition GetPrizeV1 :: "int list \<Rightarrow> nat \<Rightarrow> radom_v1 \<Rightarrow> int option \<times> radom_v1" where
  "GetPrizeV1 table r v =
     (let v' = advance_columns v; i = prize_index r v + gM v' * RATE_SIZE
      in (if 0 \<le> i \<and> i < int (length table) then Some (table ! nat i) else None,
          v'\<lparr>iIndex := iIndex v' + 1\<rparr>))"

definition columns_ok :: "radom_v1 \<Rightarrow> bool" where
  "columns_ok v \<longleftrightarrow> 0 \<le> gN v \<and> gN v \<le> RATE_SIZE \<and> 0 \<le> gM v \<and> gM v < RATE_SIZE"

text \<open>GetPrize of the older class keeps its column counters in range, and reads outside its
  table exactly when the uninitialised counter made the index negative or in the last column
  the offset reaches 100.\<close>

theorem MigRadomIn_leaves_the_table:
  assumes "columns_ok v" and "length table = 10000" and "r < 2 ^ 31"
  shows "columns_ok (snd (GetPrizeV1 table r v)) \<and>
    (fst (GetPrizeV1 table r v) = None \<longleftrightarrow>
      (sint (iIndex v) < 0 \<and> prize_index r v + gM (advance_columns v) * RATE_SIZE < 0) \<or>
      (gM (advance_columns v) = 99 \<and> 100 \<le> prize_index r v))"
proof -
  have "scaled 100 r < 100" using assms(3) by (intro scaled_less) simp_all
  then have s: "int (scaled 100 r) \<le> 99" "0 \<le> int (scaled 100 r)" by linarith+
  have c: "c_rem a 100 < 100" "0 \<le> a \<Longrightarrow> 0 \<le> c_rem a 100" for a
    using pos_mod_bound [of 100 a] pos_mod_sign [of 100 "- a"] pos_mod_sign [of 100 a] by (auto simp: c_rem_def)
  have ok: "columns_ok (advance_columns v)"
    using assms(1) c [of "gM v + 1"] by (auto simp: columns_ok_def advance_columns_def)
  then have g: "0 \<le> gM (advance_columns v)" "gM (advance_columns v) \<le> 99"
    by (auto simp: columns_ok_def)
  have p: "prize_index r v \<le> 198" "0 \<le> sint (iIndex v) \<Longrightarrow> 0 \<le> prize_index r v"
    using s c(1) [of "sint (iIndex v)"] c(2) [of "sint (iIndex v)"] by (auto simp: prize_index_def)
  have "columns_ok (snd (GetPrizeV1 table r v))"
    using ok by (simp add: GetPrizeV1_def Let_def columns_ok_def)
  moreover have "fst (GetPrizeV1 table r v) = None \<longleftrightarrow>
      prize_index r v + gM (advance_columns v) * 100 < 0 \<or>
      10000 \<le> prize_index r v + gM (advance_columns v) * 100"
    using assms(2) by (auto simp: GetPrizeV1_def Let_def)
  moreover have "10000 \<le> prize_index r v + gM (advance_columns v) * 100 \<longleftrightarrow>
      gM (advance_columns v) = 99 \<and> 100 \<le> prize_index r v"
    using p(1) g by auto
  moreover have "prize_index r v + gM (advance_columns v) * 100 < 0 \<Longrightarrow> sint (iIndex v) < 0"
    using p(2) g(1) by (cases "0 \<le> sint (iIndex v)") auto
  ultimately show ?thesis by blast
qed

theorem MigRadomIn_leaves_the_table_witness:
  "fst (GetPrizeV1 (replicate 10000 0) (2 ^ 31 - 1) \<lparr>gN = 5, gM = 99, iIndex = 99\<rparr>) = None"
  using MigRadomIn_leaves_the_table [of "\<lparr>gN = 5, gM = 99, iIndex = 99\<rparr>" "replicate 10000 0" "2 ^ 31 - 1"]
  by (simp add: columns_ok_def advance_columns_def prize_index_def scaled_def round_even_exact c_rem_def)

end
