(* ===== verification/RobotPackets.thy ===== *)
theory RobotPackets
  imports Complex_Main ChatUnpack ChatDump
begin

text \<open>
  The packets of the robot server, \<^verbatim>\<open>src/server/robot/base/comm_head.h\<close>, and
  \<^verbatim>\<open>ProtocolPack::PackStream\<close> of \<^verbatim>\<open>src/server/robot/base/protocol.cc\<close>.  Headers, their macros
  \<^verbatim>\<open>BUILDHEAD\<close> and \<^verbatim>\<open>BUILDPACKHEAD\<close> and the wire library are those of the chat server, word for
  word, so the definitions made for it serve here.  A \<^verbatim>\<open>double\<close> is the rational it denotes.
\<close>

section \<open>Structs\<close>

abbreviation MODE_LEN :: nat where "MODE_LEN \<equiv> 32"
abbreviation NAME_LEN :: nat where "NAME_LEN \<equiv> 128"
abbreviation SINGER_LEN :: nat where "SINGER_LEN \<equiv> 128"
abbreviation MESSAGE_LEN :: nat where "MESSAGE_LEN \<equiv> 512"

abbreviation HEART_PACKET :: int32 where "HEART_PACKET \<equiv> 100"
abbreviation NOTICE_USER_ROBOT_LOGIN :: int32 where "NOTICE_USER_ROBOT_LOGIN \<equiv> 1000"
abbreviation NOTICE_USER_ROBOT_HANDSEL_SONG :: int32 where "NOTICE_USER_ROBOT_HANDSEL_SONG \<equiv> 1001"
abbreviation NOTICE_USER_ROBOT_LISTEN_SONG :: int32 where "NOTICE_USER_ROBOT_LISTEN_SONG \<equiv> 1003"
abbreviation NOTICE_USER_ROBOT_SCHEDULER_CHAT_LOGIN :: int32 where
  "NOTICE_USER_ROBOT_SCHEDULER_CHAT_LOGIN \<equiv> 1004"
abbreviation NOTICE_USER_ROBOT_GIFT_LUCK :: int32 where "NOTICE_USER_ROBOT_GIFT_LUCK \<equiv> 1005"
abbreviation SCHEDULER_LOGIN :: int32 where "SCHEDULER_LOGIN \<equiv> 2000"
abbreviation NOTICE_ASSISTANT_LOGIN :: int32 where "NOTICE_ASSISTANT_LOGIN \<equiv> 2100"
abbreviation ASSISTANT_LOGIN_SUCCESS :: int32 where "ASSISTANT_LOGIN_SUCCESS \<equiv> 2101"
abbreviation NOTICE_ASSISTANT_HANDSEL_SONG :: int32 where "NOTICE_ASSISTANT_HANDSEL_SONG \<equiv> 2110"
abbreviation ROBOT_LOGIN :: int32 where "ROBOT_LOGIN \<equiv> 3000"
abbreviation NOTICE_USER_LOGIN :: int32 where "NOTICE_USER_LOGIN \<equiv> 4000"
abbreviation NOTICE_USER_DEFAULT_SONG :: int32 where "NOTICE_USER_DEFAULT_SONG \<equiv> 4001"
abbreviation NOTICE_USER_CURRENT_SONG :: int32 where "NOTICE_USER_CURRENT_SONG \<equiv> 4002"
abbreviation NOTICE_USER_ROBOT_CHAT_LOGIN :: int32 where "NOTICE_USER_ROBOT_CHAT_LOGIN \<equiv> 4003"
abbreviation NOTICE_USER_READY_GIFT_LUCK :: int32 where "NOTICE_USER_READY_GIFT_LUCK \<equiv> 4004"

type_synonym double = rat

record robot_info_packet =
  ri_uid :: int64
  ri_songid :: int64
  ri_latitude :: double
  ri_longitude :: double
  ri_nickname :: "byte list"

record notice_robot_login =
  rl_uid :: int64
  rl_robot_list :: "robot_info_packet list"

record notice_user_login =
  nl_platform_id :: int64
  nl_uid :: int64
  nl_latitude :: double
  nl_longitude :: double

text \<open>\<^verbatim>\<open>NoticeUserDefaultSong\<close> and \<^verbatim>\<open>NoticeUserCurrentSong\<close> have the same fields.\<close>

record notice_user_song =
  ns_platform_id :: int64
  ns_uid :: int64
  ns_songid :: int64
  ns_type_id :: int32
  ns_mode :: "byte list"

record robot_login =
  lg_platform_id :: int64
  lg_uid :: int64
  lg_robot_id :: int64

record notice_handsel_song =
  nh_platform_id :: int64
  nh_uid :: int64
  nh_robot_id :: int64
  nh_song_id :: int64

record scheduler_login =
  sl_platform_id :: int64
  sl_machine_id :: "byte list"

record notice_listen_song =
  ls_platform_id :: int64
  ls_songid :: int64
  ls_typid :: int32
  ls_mode :: "byte list"
  ls_name :: "byte list"
  ls_singer :: "byte list"

record notice_assistant_login =
  na_platform_id :: int64
  na_assistant_id :: int64
  na_nickname :: "byte list"

record assistant_login_success =
  as_platform_id :: int64
  as_assistant_id :: int64

record handle_song_info =
  hs_uid :: int64
  hs_songid :: int64
  hs_message :: "byte list"

record notice_assistant_handsel_song =
  ah_platform_id :: int64
  ah_assistant_id :: int64
  ah_list :: "handle_song_info list"

record notice_chat_login =
  cl_platform_id :: int64
  cl_uid :: int64
  cl_robot_id :: int64

record notice_gift_luck =
  gl_platform_id :: int64
  gl_uid :: int64
  gl_share_plat :: int32
  gl_prize :: int32
  gl_name :: "byte list"
  gl_singer :: "byte list"

record notice_ready_gift_luck =
  rg_platform_id :: int64
  rg_uid :: int64
  rg_songid :: int64
  rg_share_plat :: int32

datatype robot_body =
    Heart
  | RobotLoginNotice notice_robot_login
  | HandselSong notice_handsel_song
  | ListenSong notice_listen_song
  | ChatLogin notice_chat_login
  | GiftLuck notice_gift_luck
  | SchedulerLogin scheduler_login
  | AssistantLogin notice_assistant_login
  | AssistantLoginSuccess assistant_login_success
  | AssistantHandselSong notice_assistant_handsel_song
  | RobotLogin robot_login
  | UserLoginNotice notice_user_login
  | DefaultSong notice_user_song
  | CurrentSong notice_user_song
  | ReadyGiftLuck notice_ready_gift_luck

text \<open>The operation codes under which a struct travels.\<close>

primrec operations_of :: "robot_body \<Rightarrow> int32 list" where
  "operations_of Heart = [HEART_PACKET]"
| "operations_of (RobotLoginNotice _) = [NOTICE_USER_ROBOT_LOGIN]"
| "operations_of (HandselSong _) = [NOTICE_USER_ROBOT_HANDSEL_SONG]"
| "operations_of (ListenSong _) = [NOTICE_USER_ROBOT_LISTEN_SONG]"
| "operations_of (ChatLogin _) =
     [NOTICE_USER_ROBOT_CHAT_LOGIN, NOTICE_USER_ROBOT_SCHEDULER_CHAT_LOGIN]"
| "operations_of (GiftLuck _) = [NOTICE_USER_ROBOT_GIFT_LUCK]"
| "operations_of (SchedulerLogin _) = [SCHEDULER_LOGIN]"
| "operations_of (AssistantLogin _) = [NOTICE_ASSISTANT_LOGIN]"
| "operations_of (AssistantLoginSuccess _) = [ASSISTANT_LOGIN_SUCCESS]"
| "operations_of (AssistantHandselSong _) = [NOTICE_ASSISTANT_HANDSEL_SONG]"
| "operations_of (RobotLogin _) = [ROBOT_LOGIN]"
| "operations_of (UserLoginNotice _) = [NOTICE_USER_LOGIN]"
| "operations_of (DefaultSong _) = [NOTICE_USER_DEFAULT_SONG]"
| "operations_of (CurrentSong _) = [NOTICE_USER_CURRENT_SONG]"
| "operations_of (ReadyGiftLuck _) = [NOTICE_USER_READY_GIFT_LUCK]"

section \<open>PackStream\<close>

text \<open>Passing a \<^verbatim>\<open>double\<close> to an integer parameter drops the fraction; a value out of range
  becomes the x86 indefinite integer.\<close>

definition truncated :: "double \<Rightarrow> int" where
  "truncated d = (if d < 0 then - \<lfloor>- d\<rfloor> else \<lfloor>d\<rfloor>)"

definition double_to_int32 :: "double \<Rightarrow> int32" where
  "double_to_int32 d =
     (if - (2 ^ 31) \<le> truncated d \<and> truncated d < 2 ^ 31 then of_int (truncated d) else 2 ^ 31)"

definition double_to_int64 :: "double \<Rightarrow> int64" where
  "double_to_int64 d =
     (if - (2 ^ 63) \<le> truncated d \<and> truncated d < 2 ^ 63 then of_int (truncated d) else 2 ^ 63)"

definition int32_to_double :: "int32 \<Rightarrow> double" where
  "int32_to_double w = of_int (sint w)"

text \<open>The size macros.\<close>

primrec robot_payload_size :: "robot_body \<Rightarrow> int32" where
  "robot_payload_size Heart = 0"
| "robot_payload_size (RobotLoginNotice p) = of_nat (length (rl_robot_list p)) * (8 * 2 + 4 * 2 + 48) + 8"
| "robot_payload_size (HandselSong _) = 8 * 4"
| "robot_payload_size (ListenSong _) = 8 * 2 + 4 + 32 + 128 + 128"
| "robot_payload_size (ChatLogin _) = 8 * 3"
| "robot_payload_size (GiftLuck _) = 8 * 2 + 4 * 2 + 128 + 128"
| "robot_payload_size (SchedulerLogin p) = 8 + of_nat (length (sl_machine_id p))"
| "robot_payload_size (AssistantLogin _) = 8 * 2 + 48"
| "robot_payload_size (AssistantLoginSuccess _) = 8 * 2"
| "robot_payload_size (AssistantHandselSong p) = of_nat (length (ah_list p)) * (8 * 2 + 512) + 8 * 2"
| "robot_payload_size (RobotLogin _) = 8 * 3"
| "robot_payload_size (UserLoginNotice _) = 8 * 2 + 8 * 2"
| "robot_payload_size (DefaultSong p) = 8 * 3 + 4 + of_nat (length (ns_mode p))"
| "robot_payload_size (CurrentSong p) = 8 * 3 + 4 + of_nat (length (ns_mode p))"
| "robot_payload_size (ReadyGiftLuck _) = 8 * 3 + 4"

definition write_robot_info :: "robot_info_packet \<Rightarrow> unit out_m" where
  "write_robot_info p = do {
     Write64 (ri_uid p);
     Write64 (double_to_int64 (ri_latitude p));
     Write64 (double_to_int64 (ri_longitude p));
     WriteData (ri_nickname p) (of_nat NICKNAME_LEN)
   }"

definition write_handle_song :: "handle_song_info \<Rightarrow> unit out_m" where
  "write_handle_song p = do {
     Write64 (hs_uid p);
     Write64 (hs_songid p);
     WriteData (hs_message p) (of_nat MESSAGE_LEN)
   }"

definition write_user_song :: "notice_user_song \<Rightarrow> unit out_m" where
  "write_user_song p = do {
     Write64 (ns_platform_id p);
     Write64 (ns_uid p);
     Write64 (ns_songid p);
     Write32 (ns_type_id p);
     WriteData (ns_mode p) (of_nat (length (ns_mode p)))
   }"

primrec write_robot_body :: "robot_body \<Rightarrow> unit out_m" where
  "write_robot_body Heart = State_Monad.return ()"
| "write_robot_body (RobotLoginNotice p) = do {
     Write64 (rl_uid p);
     put_all write_robot_info (rl_robot_list p)
   }"
| "write_robot_body (HandselSong p) = do {
     Write64 (nh_platform_id p);
     Write64 (nh_uid p);
     Write64 (nh_robot_id p);
     Write64 (nh_song_id p)
   }"
| "write_robot_body (ListenSong p) = do {
     Write64 (ls_platform_id p);
     Write64 (ls_songid p);
     Write32 (ls_typid p);
     WriteData (ls_mode p) (of_nat MODE_LEN);
     WriteData (ls_name p) (of_nat NAME_LEN);
     WriteData (ls_singer p) (of_nat SINGER_LEN)
   }"
| "write_robot_body (ChatLogin p) = do {
     Write64 (cl_platform_id p);
     Write64 (cl_uid p);
     Write64 (cl_robot_id p)
   }"
| "write_robot_body (GiftLuck p) = do {
     Write64 (gl_platform_id p);
     Write64 (gl_uid p);
     Write32 (gl_share_plat p);
     Write32 (gl_prize p);
     WriteData (gl_name p) (of_nat NAME_LEN);
     WriteData (gl_singer p) (of_nat SINGER_LEN)
   }"
| "write_robot_body (SchedulerLogin p) = do {
     Write64 (sl_platform_id p);
     WriteData (sl_machine_id p) (of_nat (length (sl_machine_id p)))
   }"
| "write_robot_body (AssistantLogin p) = do {
     Write64 (na_platform_id p);
     Write64 (na_assistant_id p);
     WriteData (na_nickname p) (of_nat NICKNAME_LEN)
   }"
| "write_robot_body (AssistantLoginSuccess p) = do {
     Write64 (as_platform_id p);
     Write64 (as_assistant_id p)
   }"
| "write_robot_body (AssistantHandselSong p) = do {
     Write64 (ah_platform_id p);
     Write64 (ah_assistant_id p);
     put_all write_handle_song (ah_list p)
   }"
| "write_robot_body (RobotLogin p) = do {
     Write64 (lg_platform_id p);
     Write64 (lg_uid p);
     Write64 (lg_robot_id p)
   }"
| "write_robot_body (UserLoginNotice p) = do {
     Write64 (nl_platform_id p);
     Write64 (nl_uid p);
     Write32 (double_to_int32 (nl_latitude p));
     Write32 (double_to_int32 (nl_longitude p))
   }"
| "write_robot_body (DefaultSong p) = write_user_song p"
| "write_robot_body (CurrentSong p) = write_user_song p"
| "write_robot_body (ReadyGiftLuck p) = do {
     Write64 (rg_platform_id p);
     Write64 (rg_uid p);
     Write64 (rg_songid p);
     Write32 (rg_share_plat p)
   }"

definition robot_operations :: "int32 list" where
  "robot_operations = [NOTICE_USER_LOGIN, NOTICE_USER_DEFAULT_SONG, NOTICE_USER_CURRENT_SONG,
     NOTICE_USER_ROBOT_LOGIN, SCHEDULER_LOGIN, ROBOT_LOGIN, NOTICE_USER_ROBOT_HANDSEL_SONG,
     NOTICE_USER_ROBOT_LISTEN_SONG, NOTICE_ASSISTANT_LOGIN, ASSISTANT_LOGIN_SUCCESS,
     NOTICE_USER_ROBOT_CHAT_LOGIN, NOTICE_USER_ROBOT_SCHEDULER_CHAT_LOGIN,
     NOTICE_USER_ROBOT_GIFT_LUCK, NOTICE_USER_READY_GIFT_LUCK, NOTICE_ASSISTANT_HANDSEL_SONG,
     HEART_PACKET]"

definition Robot_PackStream :: "nat \<Rightarrow> packet_head \<Rightarrow> robot_body \<Rightarrow> packed" where
  "Robot_PackStream limit h b =
     (if operate_code h \<notin> set robot_operations then PackFailed (packet_length h)
      else if operate_code h \<notin> set (operations_of b) then BadCast
      else pack_packet limit h (robot_payload_size b) (write_robot_body b))"

section \<open>The bytes of a packet\<close>

definition robot_info_bytes :: "robot_info_packet \<Rightarrow> byte list" where
  "robot_info_bytes p = le_bytes 8 (ri_uid p) @ le_bytes 8 (double_to_int64 (ri_latitude p)) @
     le_bytes 8 (double_to_int64 (ri_longitude p)) @ ri_nickname p"

definition handle_song_bytes :: "handle_song_info \<Rightarrow> byte list" where
  "handle_song_bytes p = le_bytes 8 (hs_uid p) @ le_bytes 8 (hs_songid p) @ hs_message p"

definition user_song_bytes :: "notice_user_song \<Rightarrow> byte list" where
  "user_song_bytes p = le_bytes 8 (ns_platform_id p) @ le_bytes 8 (ns_uid p) @
     le_bytes 8 (ns_songid p) @ le_bytes 4 (ns_type_id p) @ ns_mode p"

primrec robot_body_bytes :: "robot_body \<Rightarrow> byte list" where
  "robot_body_bytes Heart = []"
| "robot_body_bytes (RobotLoginNotice p) =
     le_bytes 8 (rl_uid p) @ concat (map robot_info_bytes (rl_robot_list p))"
| "robot_body_bytes (HandselSong p) = le_bytes 8 (nh_platform_id p) @ le_bytes 8 (nh_uid p) @
     le_bytes 8 (nh_robot_id p) @ le_bytes 8 (nh_song_id p)"
| "robot_body_bytes (ListenSong p) = le_bytes 8 (ls_platform_id p) @ le_bytes 8 (ls_songid p) @
     le_bytes 4 (ls_typid p) @ ls_mode p @ ls_name p @ ls_singer p"
| "robot_body_bytes (ChatLogin p) = le_bytes 8 (cl_platform_id p) @ le_bytes 8 (cl_uid p) @
     le_bytes 8 (cl_robot_id p)"
| "robot_body_bytes (GiftLuck p) = le_bytes 8 (gl_platform_id p) @ le_bytes 8 (gl_uid p) @
     le_bytes 4 (gl_share_plat p) @ le_bytes 4 (gl_prize p) @ gl_name p @ gl_singer p"
| "robot_body_bytes (SchedulerLogin p) = le_bytes 8 (sl_platform_id p) @ sl_machine_id p"
| "robot_body_bytes (AssistantLogin p) = le_bytes 8 (na_platform_id p) @
     le_bytes 8 (na_assistant_id p) @ na_nickname p"
| "robot_body_bytes (AssistantLoginSuccess p) = le_bytes 8 (as_platform_id p) @
     le_bytes 8 (as_assistant_id p)"
| "robot_body_bytes (AssistantHandselSong p) = le_bytes 8 (ah_platform_id p) @
     le_bytes 8 (ah_assistant_id p) @ concat (map handle_song_bytes (ah_list p))"
| "robot_body_bytes (RobotLogin p) = le_bytes 8 (lg_platform_id p) @ le_bytes 8 (lg_uid p) @
     le_bytes 8 (lg_robot_id p)"
| "robot_body_bytes (UserLoginNotice p) = le_bytes 8 (nl_platform_id p) @ le_bytes 8 (nl_uid p) @
     le_bytes 4 (double_to_int32 (nl_latitude p)) @ le_bytes 4 (double_to_int32 (nl_longitude p))"
| "robot_body_bytes (DefaultSong p) = user_song_bytes p"
| "robot_body_bytes (CurrentSong p) = user_song_bytes p"
| "robot_body_bytes (ReadyGiftLuck p) = le_bytes 8 (rg_platform_id p) @ le_bytes 8 (rg_uid p) @
     le_bytes 8 (rg_songid p) @ le_bytes 4 (rg_share_plat p)"

definition wf_robot_info :: "robot_info_packet \<Rightarrow> bool" where
  "wf_robot_info p \<longleftrightarrow> nickname_array (ri_nickname p)"

definition wf_handle_song :: "handle_song_info \<Rightarrow> bool" where
  "wf_handle_song p \<longleftrightarrow> char_array MESSAGE_LEN (hs_message p)"

primrec wf_robot_body :: "robot_body \<Rightarrow> bool" where
  "wf_robot_body Heart = True"
| "wf_robot_body (RobotLoginNotice p) =
     (list_all wf_robot_info (rl_robot_list p) \<and> length (rl_robot_list p) < 2 ^ 20)"
| "wf_robot_body (HandselSong p) = True"
| "wf_robot_body (ListenSong p) = (char_array MODE_LEN (ls_mode p) \<and> char_array NAME_LEN (ls_name p) \<and>
     char_array SINGER_LEN (ls_singer p))"
| "wf_robot_body (ChatLogin p) = True"
| "wf_robot_body (GiftLuck p) = (char_array NAME_LEN (gl_name p) \<and> char_array SINGER_LEN (gl_singer p))"
| "wf_robot_body (SchedulerLogin p) = content_ok (sl_machine_id p)"
| "wf_robot_body (AssistantLogin p) = nickname_array (na_nickname p)"
| "wf_robot_body (AssistantLoginSuccess p) = True"
| "wf_robot_body (AssistantHandselSong p) =
     (list_all wf_handle_song (ah_list p) \<and> length (ah_list p) < 2 ^ 20)"
| "wf_robot_body (RobotLogin p) = True"
| "wf_robot_body (UserLoginNotice p) = True"
| "wf_robot_body (DefaultSong p) = content_ok (ns_mode p)"
| "wf_robot_body (CurrentSong p) = content_ok (ns_mode p)"
| "wf_robot_body (ReadyGiftLuck p) = True"

lemma writes_robot_info: "wf_robot_info p \<Longrightarrow> writes (write_robot_info p) (robot_info_bytes p)"
  unfolding write_robot_info_def robot_info_bytes_def wf_robot_info_def by (intro writes_field)

lemma writes_handle_song: "wf_handle_song p \<Longrightarrow> writes (write_handle_song p) (handle_song_bytes p)"
  unfolding write_handle_song_def handle_song_bytes_def wf_handle_song_def by (intro writes_field)

interpretation robot_infos: fixed_writer wf_robot_info robot_info_bytes write_robot_info 72
  by unfold_locales (rule writes_robot_info, assumption,
      simp add: robot_info_bytes_def wf_robot_info_def char_array_def)

interpretation handle_songs: fixed_writer wf_handle_song handle_song_bytes write_handle_song 528
  by unfold_locales (rule writes_handle_song, assumption,
      simp add: handle_song_bytes_def wf_handle_song_def char_array_def)

lemma writes_user_song: "content_ok (ns_mode p) \<Longrightarrow> writes (write_user_song p) (user_song_bytes p)"
  unfolding write_user_song_def user_song_bytes_def by (intro writes_field)

lemma writes_robot_body: "wf_robot_body b \<Longrightarrow> writes (write_robot_body b) (robot_body_bytes b)"
  by (cases b; simp only: write_robot_body.simps robot_body_bytes.simps wf_robot_body.simps;
      intro writes_field writes_return writes_user_song robot_infos.put_all_writes
        handle_songs.put_all_writes; simp)

text \<open>The size macros agree with what is written, but for \<^verbatim>\<open>NOTICEUSERLOGIN_SIZE\<close>.\<close>

primrec unwritten :: "robot_body \<Rightarrow> nat" where
  "unwritten Heart = 0"
| "unwritten (RobotLoginNotice p) = 0"
| "unwritten (HandselSong p) = 0"
| "unwritten (ListenSong p) = 0"
| "unwritten (ChatLogin p) = 0"
| "unwritten (GiftLuck p) = 0"
| "unwritten (SchedulerLogin p) = 0"
| "unwritten (AssistantLogin p) = 0"
| "unwritten (AssistantLoginSuccess p) = 0"
| "unwritten (AssistantHandselSong p) = 0"
| "unwritten (RobotLogin p) = 0"
| "unwritten (UserLoginNotice p) = 8"
| "unwritten (DefaultSong p) = 0"
| "unwritten (CurrentSong p) = 0"
| "unwritten (ReadyGiftLuck p) = 0"

lemma robot_payload_size_bytes:
  assumes "wf_robot_body b"
  shows "robot_payload_size b = of_nat (length (robot_body_bytes b) + unwritten b)"
    and "length (robot_body_bytes b) + unwritten b < 2 ^ 30 + 2 ^ 10"
  using assms robot_infos.length_all handle_songs.length_all
  by (cases b; force simp: char_array_def content_ok_def user_song_bytes_def)+

lemma operations_known: "op \<in> set (operations_of b) \<Longrightarrow> op \<in> set robot_operations"
  by (cases b) (auto simp: robot_operations_def)

lemma Robot_PackStream_writes:
  assumes "wf_robot_body b" and "operate_code h \<in> set (operations_of b)"
  defines "n \<equiv> length (robot_body_bytes b) + unwritten b"
  assumes "n + 31 \<le> limit"
  shows "\<exists>out len. Robot_PackStream limit h b = Packed out len \<and> \<not> out_fault out \<and>
    out_buffer out = head_bytes h (of_nat n) @ robot_body_bytes b \<and>
    (packet_length h \<noteq> PACKET_HEAD_LENGTH \<or> data_length h \<noteq> 0 \<longrightarrow>
       len = of_nat n + PACKET_HEAD_LENGTH \<and> sint len = int (length (out_buffer out) + unwritten b))"
proof -
  note size = robot_payload_size_bytes [OF assms(1), folded n_def]
  have n31: "sint (of_nat n + PACKET_HEAD_LENGTH) = int n + 31"
    using signed_of_nat32 [of "n + 31"] size(2) by (simp add: add.commute)
  let ?w = "do { BUILDHEAD h (of_nat n); write_robot_body b }"
  have "writes ?w (head_bytes h (of_nat n) @ robot_body_bytes b)"
    by (rule writes_bind [OF writes_BUILDHEAD writes_robot_body [OF assms(1)]])
  moreover have "granted limit (of_nat n + PACKET_HEAD_LENGTH)"
    using assms(4) n31 by (simp add: granted_def)
  moreover have "int (length (head_bytes h (of_nat n) @ robot_body_bytes b)) \<le>
      sint (of_nat n + PACKET_HEAD_LENGTH)"
    unfolding n31 by (simp add: n_def)
  ultimately have "run_state ?w (DataOutPacket limit (of_nat n + PACKET_HEAD_LENGTH)) =
    ((), (DataOutPacket limit (of_nat n + PACKET_HEAD_LENGTH))
      \<lparr>out_buffer := head_bytes h (of_nat n) @ robot_body_bytes b\<rparr>)"
    by (rule run_writes_fresh)
  then show ?thesis
    using assms(2) size(1) operations_known [OF assms(2)] n31
    by (simp add: Robot_PackStream_def pack_packet_def DataOutPacket_def) (simp add: n_def)
qed

text \<open>PackStream of the robot server for a well-formed packet succeeds and writes exactly the
  header and the fields in order, inside the buffer its size macro asks for.  The length it
  reports is that of the bytes written, except for NOTICE_USER_LOGIN, where the last eight
  bytes of the reported stream are never written.\<close>

theorem Robot_PackStream_bytes:
  assumes "wf_robot_body b" and "operate_code h \<in> set (operations_of b)"
    and "length (robot_body_bytes b) + unwritten b + 31 \<le> limit"
  shows "\<exists>out len. Robot_PackStream limit h b = Packed out len \<and> \<not> out_fault out \<and>
    out_buffer out = head_bytes h (of_nat (length (robot_body_bytes b) + unwritten b)) @
      robot_body_bytes b \<and>
    (packet_length h \<noteq> PACKET_HEAD_LENGTH \<or> data_length h \<noteq> 0 \<longrightarrow>
       sint len = int (length (out_buffer out) + unwritten b))"
  using Robot_PackStream_writes [OF assms] by blast

definition plain_head :: "int32 \<Rightarrow> packet_head" where
  "plain_head op = \<lparr>packet_length = 0, operate_code = op, data_length = 0, current_time = 5,
     msg_type = USER_TYPE, is_zip = 0, msg_id = 9, reserverd = 0\<rparr>"

lemma plain_head_simps [simp]:
  "operate_code (plain_head op) = op" "packet_length (plain_head op) = 0" "data_length (plain_head op) = 0"
  by (simp_all add: plain_head_def)

theorem Robot_PackStream_bytes_witness:
  "\<exists>out len. Robot_PackStream 1000 (plain_head NOTICE_USER_LOGIN)
     (UserLoginNotice \<lparr>nl_platform_id = 10000, nl_uid = 7, nl_latitude = 30, nl_longitude = 120\<rparr>) =
       Packed out len \<and> length (out_buffer out) = 55 \<and> sint len = 63"
  using Robot_PackStream_bytes [of "UserLoginNotice \<lparr>nl_platform_id = 10000, nl_uid = 7,
      nl_latitude = 30, nl_longitude = 120\<rparr>" "plain_head NOTICE_USER_LOGIN" 1000]
  by force

end
