(* ===== verification/RobotUnpack.thy ===== *)
theory RobotUnpack
  imports RobotPackets
begin

text \<open>
  \<^verbatim>\<open>ProtocolPack::UnpackStream\<close> of \<^verbatim>\<open>src/server/robot/base/protocol.cc\<close> and its relation to
  \<^verbatim>\<open>PackStream\<close>: which packets come back unchanged, what becomes of the others, and which
  messages can be read without leaving them.
\<close>

section \<open>Unpacking\<close>

text \<open>Fields no statement assigns hold what \<^verbatim>\<open>new\<close> left there: \<open>junk\<close>.\<close>

definition read_user_song :: "packet_head \<Rightarrow> notice_user_song in_m" where
  "read_user_song h = do {
     a \<leftarrow> Read64; b \<leftarrow> Read64; c \<leftarrow> Read64; t \<leftarrow> Read32;
     s \<leftarrow> read_content (data_length h - 8 * 3 - 4);
     State_Monad.return \<lparr>ns_platform_id = a, ns_uid = b, ns_songid = c, ns_type_id = t, ns_mode = s\<rparr>
   }"

definition read_user_login_notice :: "robot_body in_m" where
  "read_user_login_notice = do {
     a \<leftarrow> Read64; b \<leftarrow> Read64; x \<leftarrow> Read32; y \<leftarrow> Read32;
     State_Monad.return (UserLoginNotice \<lparr>nl_platform_id = a, nl_uid = b,
       nl_latitude = int32_to_double x, nl_longitude = int32_to_double y\<rparr>)
   }"

definition read_robot_info :: "int64 \<Rightarrow> robot_info_packet in_m" where
  "read_robot_info junk = do {
     a \<leftarrow> Read64; x \<leftarrow> Read32; y \<leftarrow> Read32;
     k \<leftarrow> read_chars NICKNAME_LEN;
     State_Monad.return \<lparr>ri_uid = a, ri_songid = junk, ri_latitude = int32_to_double x,
       ri_longitude = int32_to_double y, ri_nickname = k\<rparr>
   }"

text \<open>The number of entries of \<open>width\<close> bytes after \<open>fixed\<close> bytes, in the unsigned 64-bit arithmetic
  \<^verbatim>\<open>sizeof\<close> brings about, cut to \<^verbatim>\<open>int\<close> twice.\<close>

definition entry_nums :: "int64 \<Rightarrow> int64 \<Rightarrow> int32 \<Rightarrow> int32" where
  "entry_nums fixed width len =
     (let list_size = (ucast ((scast len :: int64) - fixed) :: int32)
      in ucast ((scast list_size :: int64) div width))"

definition read_robot_login_notice :: "int64 \<Rightarrow> int32 \<Rightarrow> robot_body in_m" where
  "read_robot_login_notice junk len = do {
     a \<leftarrow> Read64;
     rs \<leftarrow> get_all (\<lambda>_. read_robot_info junk)
            (replicate (nat (sint (entry_nums 8 (8 * 2 + 4 * 2 + 48) len))) ());
     State_Monad.return (RobotLoginNotice \<lparr>rl_uid = a, rl_robot_list = rs\<rparr>)
   }"

definition read_scheduler_login :: "packet_head \<Rightarrow> robot_body in_m" where
  "read_scheduler_login h = do {
     a \<leftarrow> Read64;
     s \<leftarrow> read_content (data_length h - 8);
     State_Monad.return (SchedulerLogin \<lparr>sl_platform_id = a, sl_machine_id = s\<rparr>)
   }"

definition read_robot_login :: "robot_body in_m" where
  "read_robot_login = do {
     a \<leftarrow> Read64; b \<leftarrow> Read64; c \<leftarrow> Read64;
     State_Monad.return (RobotLogin \<lparr>lg_platform_id = a, lg_uid = b, lg_robot_id = c\<rparr>)
   }"

text \<open>The fourth number overwrites \<^verbatim>\<open>robot_id\<close>; \<^verbatim>\<open>song_id\<close> stays uninitialised.\<close>

definition read_handsel_song :: "int64 \<Rightarrow> robot_body in_m" where
  "read_handsel_song junk = do {
     a \<leftarrow> Read64; b \<leftarrow> Read64; c \<leftarrow> Read64; d \<leftarrow> Read64;
     State_Monad.return (HandselSong \<lparr>nh_platform_id = a, nh_uid = b, nh_robot_id = d, nh_song_id = junk\<rparr>)
   }"

definition read_listen_song :: "robot_body in_m" where
  "read_listen_song = do {
     a \<leftarrow> Read64; b \<leftarrow> Read64; t \<leftarrow> Read32;
     m \<leftarrow> read_chars MODE_LEN;
     n \<leftarrow> read_chars NAME_LEN;
     s \<leftarrow> read_chars SINGER_LEN;
     State_Monad.return (ListenSong \<lparr>ls_platform_id = a, ls_songid = b, ls_typid = t, ls_mode = m,
       ls_name = n, ls_singer = s\<rparr>)
   }"

definition read_assistant_login :: "robot_body in_m" where
  "read_assistant_login = do {
     a \<leftarrow> Read64; b \<leftarrow> Read64;
     k \<leftarrow> read_chars NICKNAME_LEN;
     State_Monad.return (AssistantLogin \<lparr>na_platform_id = a, na_assistant_id = b, na_nickname = k\<rparr>)
   }"

definition read_assistant_login_success :: "robot_body in_m" where
  "read_assistant_login_success = do {
     a \<leftarrow> Read64; b \<leftarrow> Read64;
     State_Monad.return (AssistantLoginSuccess \<lparr>as_platform_id = a, as_assistant_id = b\<rparr>)
   }"

definition read_chat_login :: "robot_body in_m" where
  "read_chat_login = do {
     a \<leftarrow> Read64; b \<leftarrow> Read64; c \<leftarrow> Read64;
     State_Monad.return (ChatLogin \<lparr>cl_platform_id = a, cl_uid = b, cl_robot_id = c\<rparr>)
   }"

text \<open>The song number is read with \<^verbatim>\<open>Read8\<close>.\<close>

definition read_handle_song :: "handle_song_info in_m" where
  "read_handle_song = do {
     a \<leftarrow> Read64; b \<leftarrow> Read8;
     m \<leftarrow> read_chars MESSAGE_LEN;
     State_Monad.return \<lparr>hs_uid = a, hs_songid = scast b, hs_message = m\<rparr>
   }"

definition read_assistant_handsel_song :: "int32 \<Rightarrow> robot_body in_m" where
  "read_assistant_handsel_song len = do {
     a \<leftarrow> Read64; b \<leftarrow> Read64;
     hs \<leftarrow> get_all (\<lambda>_. read_handle_song) (replicate (nat (sint (entry_nums 16 (8 * 2 + 512) len))) ());
     State_Monad.return (AssistantHandselSong \<lparr>ah_platform_id = a, ah_assistant_id = b, ah_list = hs\<rparr>)
   }"

definition read_gift_luck :: "robot_body in_m" where
  "read_gift_luck = do {
     a \<leftarrow> Read64; b \<leftarrow> Read64; x \<leftarrow> Read32; y \<leftarrow> Read32;
     n \<leftarrow> read_chars NAME_LEN;
     s \<leftarrow> read_chars SINGER_LEN;
     State_Monad.return (GiftLuck \<lparr>gl_platform_id = a, gl_uid = b, gl_share_plat = x, gl_prize = y,
       gl_name = n, gl_singer = s\<rparr>)
   }"

definition read_ready_gift_luck :: "robot_body in_m" where
  "read_ready_gift_luck = do {
     a \<leftarrow> Read64; b \<leftarrow> Read64; c \<leftarrow> Read64; x \<leftarrow> Read32;
     State_Monad.return (ReadyGiftLuck \<lparr>rg_platform_id = a, rg_uid = b, rg_songid = c, rg_share_plat = x\<rparr>)
   }"

text \<open>The switch; \<open>len\<close> is the local \<^verbatim>\<open>data_length\<close>, \<open>h\<close> the header already read.\<close>

definition read_robot_body :: "int64 \<Rightarrow> int32 \<Rightarrow> int32 \<Rightarrow> packet_head \<Rightarrow> robot_body in_m option" where
  "read_robot_body junk op len h =
     (if op = NOTICE_USER_LOGIN then Some read_user_login_notice
      else if op = NOTICE_USER_DEFAULT_SONG then
        Some (do { p \<leftarrow> read_user_song h; State_Monad.return (DefaultSong p) })
      else if op = NOTICE_USER_CURRENT_SONG then
        Some (do { p \<leftarrow> read_user_song h; State_Monad.return (CurrentSong p) })
      else if op = NOTICE_USER_ROBOT_LOGIN then Some (read_robot_login_notice junk len)
      else if op = SCHEDULER_LOGIN then Some (read_scheduler_login h)
      else if op = ROBOT_LOGIN then Some read_robot_login
      else if op = NOTICE_USER_ROBOT_HANDSEL_SONG then Some (read_handsel_song junk)
      else if op = NOTICE_USER_ROBOT_LISTEN_SONG then Some read_listen_song
      else if op = NOTICE_ASSISTANT_LOGIN then Some read_assistant_login
      else if op = ASSISTANT_LOGIN_SUCCESS then Some read_assistant_login_success
      else if op = NOTICE_USER_ROBOT_SCHEDULER_CHAT_LOGIN \<or> op = NOTICE_USER_ROBOT_CHAT_LOGIN then
        Some read_chat_login
      else if op = NOTICE_ASSISTANT_HANDSEL_SONG then Some (read_assistant_handsel_song len)
      else if op = NOTICE_USER_ROBOT_GIFT_LUCK then Some read_gift_luck
      else if op = NOTICE_USER_READY_GIFT_LUCK then Some read_ready_gift_luck
      else if op = HEART_PACKET then Some (State_Monad.return Heart)
      else None)"

definition read_robot_packet ::
  "int64 \<Rightarrow> int32 \<Rightarrow> int32 \<Rightarrow> (packet_head \<times> robot_body) option in_m" where
  "read_robot_packet junk op len = do {
     h \<leftarrow> BUILDPACKHEAD;
     case read_robot_body junk op len h of
       None \<Rightarrow> State_Monad.return None
     | Some rd \<Rightarrow> do { b \<leftarrow> rd; State_Monad.return (Some (h, b)) }
   }"

definition Robot_UnpackStream ::
  "int64 \<Rightarrow> byte list \<Rightarrow> int32 \<Rightarrow> ((packet_head \<times> robot_body) \<times> in_packet) option" where
  "Robot_UnpackStream junk msg len =
     (if (scast len :: int64) < 31 then None
      else let pl = raw32 msg 0; op = raw32 msg 4; dl = raw32 msg 8 in
        if (scast pl :: int64) < 31 \<or> pl \<noteq> len \<or> (scast dl :: int64) \<noteq> scast pl - 31 then None
        else case run_state (read_robot_packet junk op dl) (DataInPacket msg pl) of
          (None, p) \<Rightarrow> None
        | (Some hb, p) \<Rightarrow> Some (hb, p))"

section \<open>Which messages are accepted\<close>

lemma read_robot_body_none: "read_robot_body junk op len h = None \<longleftrightarrow> op \<notin> set robot_operations"
  by (auto simp: read_robot_body_def robot_operations_def)

lemma run_read_robot_packet:
  "run_state (read_robot_packet junk op len) p =
     (case run_state BUILDPACKHEAD p of (h, q) \<Rightarrow>
        (case read_robot_body junk op len h of None \<Rightarrow> (None, q)
         | Some rd \<Rightarrow> (case run_state rd q of (b, q') \<Rightarrow> (Some (h, b), q'))))"
  by (simp add: read_robot_packet_def split: prod.split option.split)

lemma Robot_UnpackStream_accepts:
  assumes "sint len = int (length msg)" and "31 \<le> length msg"
    and "raw32 msg 0 = len" "raw32 msg 8 = len - 31" "raw32 msg 4 \<in> set robot_operations"
  shows "\<exists>h q rd. run_state BUILDPACKHEAD (DataInPacket msg len) = (h, q) \<and>
    read_robot_body junk (raw32 msg 4) (len - 31) h = Some rd \<and>
    Robot_UnpackStream junk msg len = (case run_state rd q of (b, p) \<Rightarrow> Some ((h, b), p))"
proof -
  have u: "uint (scast len :: int64) = int (length msg)"
    using assms(1) by (simp add: uint_scast64)
  then have "\<not> (scast len :: int64) < 31" using assms(2) by (simp add: word_less_def)
  moreover have "(scast (len - 31) :: int64) = scast len - 31"
    using scast_minus_31 [of len] assms(1,2) by simp
  moreover obtain h q where "run_state BUILDPACKHEAD (DataInPacket msg len) = (h, q)" by fastforce
  moreover obtain rd where "read_robot_body junk (raw32 msg 4) (len - 31) h = Some rd"
    using assms(5) read_robot_body_none [of junk "raw32 msg 4" "len - 31" h] by auto
  ultimately show ?thesis using assms(3,4)
    by (auto simp: Robot_UnpackStream_def run_read_robot_packet split: prod.split)
qed

text \<open>A message made of a head and a payload passes the header checks and reaches its case of the
  switch.\<close>

lemma robot_unpack_payload:
  assumes "length bs + 31 < 2 ^ 31" "operate_code h \<in> set robot_operations"
  defines "n \<equiv> (of_nat (length bs) :: int32)"
  defines "msg \<equiv> head_bytes h n @ bs"
  defines "q \<equiv> advance 31 (DataInPacket msg (n + PACKET_HEAD_LENGTH))"
  assumes "read_robot_body junk (operate_code h) n (sized_head h n) = Some rd"
  shows "Robot_UnpackStream junk msg (n + PACKET_HEAD_LENGTH) =
      (case run_state rd q of (b', p) \<Rightarrow> Some ((sized_head h n, b'), p))"
    and "before q bs" and "remaining q = int (length bs)"
proof -
  have len: "length msg < 2 ^ 31" using assms(1) by (simp add: msg_def)
  have n31: "n + PACKET_HEAD_LENGTH = of_nat (length msg)" by (simp add: n_def msg_def)
  note sn31 = signed_of_nat32 [OF len, folded n31]
  have before: "before (DataInPacket msg (n + PACKET_HEAD_LENGTH)) (head_bytes h n @ bs)"
    using sn31 by (auto simp: before_def in_ok_def DataInPacket_def msg_def)
  from before_appendD [OF this]
  have bq: "before (DataInPacket msg (n + PACKET_HEAD_LENGTH)) (head_bytes h n)"
    "before q bs" by (simp_all add: q_def)
  from bq(2) show "before q bs" .
  show "remaining q = int (length bs)"
    using sn31 by (simp add: q_def remaining_def DataInPacket_def msg_def)
  have run: "run_state BUILDPACKHEAD (DataInPacket msg (n + PACKET_HEAD_LENGTH)) = (sized_head h n, q)"
    using reads_BUILDPACKHEAD [of h n] bq(1) by (simp add: reads_def q_def)
  have raws: "raw32 msg 0 = n + PACKET_HEAD_LENGTH" "raw32 msg 4 = operate_code h" "raw32 msg 8 = n"
    by (simp_all add: raw32_def head_bytes_def msg_def)
  have "31 \<le> length msg" "n + 31 - 31 = n" by (simp_all add: msg_def)
  then show "Robot_UnpackStream junk msg (n + PACKET_HEAD_LENGTH) =
      (case run_state rd q of (b', p) \<Rightarrow> Some ((sized_head h n, b'), p))"
    using Robot_UnpackStream_accepts [OF sn31, of junk] run raws assms(2,6) by auto
qed

text \<open>In particular a packed message, and one that any reader of its payload's start takes.\<close>

lemma robot_unpack_packed:
  assumes "wf_robot_body b" "operate_code h \<in> set (operations_of b)" "unwritten b = 0"
  defines "n \<equiv> (of_nat (length (robot_body_bytes b)) :: int32)"
  defines "msg \<equiv> head_bytes h n @ robot_body_bytes b"
  defines "q \<equiv> advance 31 (DataInPacket msg (n + PACKET_HEAD_LENGTH))"
  assumes "read_robot_body junk (operate_code h) n (sized_head h n) = Some rd"
  shows "Robot_UnpackStream junk msg (n + PACKET_HEAD_LENGTH) =
      (case run_state rd q of (b', p) \<Rightarrow> Some ((sized_head h n, b'), p))"
    and "before q (robot_body_bytes b)" and "remaining q = int (length (robot_body_bytes b))"
proof -
  have "length (robot_body_bytes b) + 31 < 2 ^ 31"
    using robot_payload_size_bytes(2) [OF assms(1)] assms(3) by simp
  note payload = robot_unpack_payload [OF this operations_known [OF assms(2)], folded n_def, OF assms(7)]
  from payload show "Robot_UnpackStream junk msg (n + PACKET_HEAD_LENGTH) =
      (case run_state rd q of (b', p) \<Rightarrow> Some ((sized_head h n, b'), p))"
    and "before q (robot_body_bytes b)" and "remaining q = int (length (robot_body_bytes b))"
    by (simp_all add: msg_def q_def)
qed

lemma robot_unpack_read:
  assumes "length (bs @ rest) + 31 < 2 ^ 31" "operate_code h \<in> set robot_operations"
  defines "n \<equiv> (of_nat (length (bs @ rest)) :: int32)"
  assumes "read_robot_body junk (operate_code h) n (sized_head h n) = Some rd" "reads rd bs x"
  shows "\<exists>p. Robot_UnpackStream junk (head_bytes h n @ bs @ rest) (n + PACKET_HEAD_LENGTH) =
      Some ((sized_head h n, x), p) \<and> in_fault p = None \<and> remaining p = int (length rest)"
proof -
  define q where "q = advance 31 (DataInPacket (head_bytes h n @ bs @ rest) (n + PACKET_HEAD_LENGTH))"
  note up = robot_unpack_payload [OF assms(1,2), folded n_def, OF assms(4), folded q_def]
  have "before q bs" using before_appendD(1) [of q bs rest] up(2) by simp
  then have run: "run_state rd q = (x, advance (length bs) q)" and "in_fault q = None"
    using assms(5) by (auto simp: reads_def before_def in_ok_def)
  moreover have "remaining (advance (length bs) q) = int (length rest)"
    using up(3) by simp
  ultimately show ?thesis using up(1) by simp
qed

section \<open>Round trip\<close>

text \<open>The packets whose case reads what its writer wrote.\<close>

primrec faithful_robot_body :: "robot_body \<Rightarrow> bool" where
  "faithful_robot_body Heart = True"
| "faithful_robot_body (RobotLoginNotice p) = (rl_robot_list p = [])"
| "faithful_robot_body (HandselSong p) = False"
| "faithful_robot_body (ListenSong p) = True"
| "faithful_robot_body (ChatLogin p) = True"
| "faithful_robot_body (GiftLuck p) = True"
| "faithful_robot_body (SchedulerLogin p) = True"
| "faithful_robot_body (AssistantLogin p) = True"
| "faithful_robot_body (AssistantLoginSuccess p) = True"
| "faithful_robot_body (AssistantHandselSong p) = (ah_list p = [])"
| "faithful_robot_body (RobotLogin p) = True"
| "faithful_robot_body (UserLoginNotice p) = False"
| "faithful_robot_body (DefaultSong p) = True"
| "faithful_robot_body (CurrentSong p) = True"
| "faithful_robot_body (ReadyGiftLuck p) = True"

lemmas robot_read_defs = read_robot_login_def read_listen_song_def read_assistant_login_def
  read_assistant_login_success_def read_chat_login_def read_gift_luck_def read_ready_gift_luck_def
  read_scheduler_login_def read_user_song_def

lemmas robot_reads_ends = reads_bind_return [OF reads_word(3)] reads_ends

lemma reads_robot_fixed:
  "reads read_robot_login (robot_body_bytes (RobotLogin p1)) (RobotLogin p1)"
  "wf_robot_body (ListenSong p2) \<Longrightarrow> reads read_listen_song (robot_body_bytes (ListenSong p2)) (ListenSong p2)"
  "wf_robot_body (AssistantLogin p3) \<Longrightarrow>
     reads read_assistant_login (robot_body_bytes (AssistantLogin p3)) (AssistantLogin p3)"
  "reads read_assistant_login_success (robot_body_bytes (AssistantLoginSuccess p4)) (AssistantLoginSuccess p4)"
  "reads read_chat_login (robot_body_bytes (ChatLogin p5)) (ChatLogin p5)"
  "wf_robot_body (GiftLuck p6) \<Longrightarrow> reads read_gift_luck (robot_body_bytes (GiftLuck p6)) (GiftLuck p6)"
  "reads read_ready_gift_luck (robot_body_bytes (ReadyGiftLuck p7)) (ReadyGiftLuck p7)"
  by (cases p1; cases p2; cases p3; cases p4; cases p5; cases p6; cases p7;
      simp only: robot_read_defs robot_body_bytes.simps wf_robot_body.simps;
      intro reads_field robot_reads_ends; simp)+

lemma reads_user_song:
  assumes "content_ok (ns_mode p)" "data_length h = 8 * 3 + 4 + of_nat (length (ns_mode p))"
  shows "reads (read_user_song h) (user_song_bytes p) p"
  using assms unfolding read_user_song_def user_song_bytes_def
  by (cases p) (simp, intro reads_field robot_reads_ends, auto)

lemma reads_scheduler_login:
  assumes "wf_robot_body (SchedulerLogin p)" "data_length h = 8 + of_nat (length (sl_machine_id p))"
  shows "reads (read_scheduler_login h) (robot_body_bytes (SchedulerLogin p)) (SchedulerLogin p)"
  using assms unfolding read_scheduler_login_def robot_body_bytes.simps
  by (cases p) (simp, intro reads_field robot_reads_ends, auto)

lemma reads_heart: "reads (State_Monad.return Heart) (robot_body_bytes Heart) Heart"
  by (simp add: reads_return)

lemma reads_robot_empty:
  "rl_robot_list p = [] \<Longrightarrow> reads (read_robot_login_notice junk 8) (robot_body_bytes (RobotLoginNotice p)) (RobotLoginNotice p)"
  "ah_list r = [] \<Longrightarrow> reads (read_assistant_handsel_song 16) (robot_body_bytes (AssistantHandselSong r)) (AssistantHandselSong r)"
proof -
  have n: "entry_nums 8 72 8 = 0" "entry_nums 16 528 16 = 0" by (simp_all add: entry_nums_def)
  show "rl_robot_list p = [] \<Longrightarrow> reads (read_robot_login_notice junk 8) (robot_body_bytes (RobotLoginNotice p)) (RobotLoginNotice p)"
    by (cases p) (simp add: read_robot_login_notice_def n, intro reads_field robot_reads_ends, simp)
  show "ah_list r = [] \<Longrightarrow> reads (read_assistant_handsel_song 16) (robot_body_bytes (AssistantHandselSong r)) (AssistantHandselSong r)"
    by (cases r) (simp add: read_assistant_handsel_song_def n, intro reads_field robot_reads_ends, simp)
qed

lemma reads_robot_body:
  assumes "wf_robot_body b" "faithful_robot_body b" "op \<in> set (operations_of b)"
    and "data_length h = robot_payload_size b"
  shows "\<exists>rd. read_robot_body junk op (robot_payload_size b) h = Some rd \<and> reads rd (robot_body_bytes b) b"
proof (cases b)
  case (DefaultSong p)
  with assms have "reads (read_user_song h) (user_song_bytes p) p" by (intro reads_user_song) auto
  then have "reads (read_user_song h \<bind> (\<lambda>p. State_Monad.return (DefaultSong p))) (user_song_bytes p) (DefaultSong p)"
    by (rule reads_bind_return) simp
  with DefaultSong assms(3) show ?thesis by (simp add: read_robot_body_def)
next
  case (CurrentSong p)
  with assms have "reads (read_user_song h) (user_song_bytes p) p" by (intro reads_user_song) auto
  then have "reads (read_user_song h \<bind> (\<lambda>p. State_Monad.return (CurrentSong p))) (user_song_bytes p) (CurrentSong p)"
    by (rule reads_bind_return) simp
  with CurrentSong assms(3) show ?thesis by (simp add: read_robot_body_def)
qed (use assms reads_robot_fixed reads_robot_empty reads_scheduler_login reads_heart in
    \<open>auto simp: read_robot_body_def simp del: robot_body_bytes.simps wf_robot_body.simps
       cong: if_cong\<close>)

lemma Robot_PackStream_packs:
  assumes "wf_robot_body b" "operate_code h \<in> set (operations_of b)" "unwritten b = 0"
    and "length (robot_body_bytes b) + 31 \<le> limit" "Robot_PackStream limit h b = Packed out len"
    and "packet_length h \<noteq> PACKET_HEAD_LENGTH \<or> data_length h \<noteq> 0"
  shows "out_buffer out = head_bytes h (of_nat (length (robot_body_bytes b))) @ robot_body_bytes b"
    and "len = of_nat (length (robot_body_bytes b)) + PACKET_HEAD_LENGTH"
proof -
  let ?n = "of_nat (length (robot_body_bytes b)) :: int32"
  obtain out' len' where "Robot_PackStream limit h b = Packed out' len'"
    "out_buffer out' = head_bytes h ?n @ robot_body_bytes b" "len' = ?n + PACKET_HEAD_LENGTH"
    using Robot_PackStream_writes [OF assms(1,2)] assms(3,4,6) by force
  with assms(5) show "out_buffer out = head_bytes h ?n @ robot_body_bytes b" "len = ?n + PACKET_HEAD_LENGTH"
    by simp_all
qed

text \<open>A packed message whose case reads a part of the payload.\<close>

lemma robot_unpack_prefix:
  assumes "wf_robot_body b" "operate_code h \<in> set (operations_of b)" "unwritten b = 0"
    and "length (robot_body_bytes b) + 31 \<le> limit" "Robot_PackStream limit h b = Packed out len"
    and "packet_length h \<noteq> PACKET_HEAD_LENGTH \<or> data_length h \<noteq> 0"
  defines "n \<equiv> (of_nat (length (robot_body_bytes b)) :: int32)"
  assumes "read_robot_body junk (operate_code h) n (sized_head h n) = Some rd"
    and "robot_body_bytes b = bs @ rest" "reads rd bs x"
  shows "\<exists>p. Robot_UnpackStream junk (out_buffer out) len = Some ((sized_head h n, x), p) \<and>
    in_fault p = None \<and> remaining p = int (length rest)"
proof -
  note out = Robot_PackStream_packs [OF assms(1-6), folded n_def]
  have "length (bs @ rest) + 31 < 2 ^ 31"
    using robot_payload_size_bytes(2) [OF assms(1)] assms(3,9) by simp
  from robot_unpack_read [OF this operations_known [OF assms(2)], folded assms(9), folded n_def,
      OF assms(8,10)] out
  show ?thesis by (simp add: assms(9))
qed

text \<open>C25: Every well-formed packet of a faithful kind that the robot server packs is unpacked to
  the same header and body, consuming the whole message without leaving it.  Faithful are all
  kinds but NOTICE_USER_LOGIN, NOTICE_USER_ROBOT_HANDSEL_SONG and the two list packets when
  their list is not empty.\<close>

theorem robot_pack_unpack:
  assumes "wf_robot_body b" and "faithful_robot_body b" and "operate_code h \<in> set (operations_of b)"
    and "length (robot_body_bytes b) + 31 \<le> limit"
    and "Robot_PackStream limit h b = Packed out len"
    and "packet_length h \<noteq> PACKET_HEAD_LENGTH \<or> data_length h \<noteq> 0"
  shows "\<exists>p. Robot_UnpackStream junk (out_buffer out) len =
      Some ((sized_head h (of_nat (length (robot_body_bytes b))), b), p) \<and>
    in_fault p = None \<and> remaining p = 0"
proof -
  let ?n = "of_nat (length (robot_body_bytes b)) :: int32"
  have u: "unwritten b = 0" using assms(2) by (cases b) simp_all
  have size: "?n = robot_payload_size b" using robot_payload_size_bytes(1) [OF assms(1)] u by simp
  obtain rd where rd: "read_robot_body junk (operate_code h) ?n (sized_head h ?n) = Some rd"
    "reads rd (robot_body_bytes b) b"
    using reads_robot_body [OF assms(1,2,3), of "sized_head h ?n" junk] size by (auto simp: sized_head_def)
  show ?thesis using robot_unpack_prefix [OF assms(1,3) u assms(4-6) rd(1) _ rd(2), of "[]"] by simp
qed

theorem robot_pack_unpack_witness:
  "\<exists>out len p. Robot_PackStream 1000 (plain_head ROBOT_LOGIN)
      (RobotLogin \<lparr>lg_platform_id = 10000, lg_uid = 7, lg_robot_id = 9\<rparr>) = Packed out len \<and>
    Robot_UnpackStream 0 (out_buffer out) len = Some ((sized_head (plain_head ROBOT_LOGIN) 24,
      RobotLogin \<lparr>lg_platform_id = 10000, lg_uid = 7, lg_robot_id = 9\<rparr>), p)"
proof -
  let ?b = "RobotLogin \<lparr>lg_platform_id = 10000, lg_uid = 7, lg_robot_id = 9\<rparr>"
  obtain out len where p: "Robot_PackStream 1000 (plain_head ROBOT_LOGIN) ?b = Packed out len"
    using Robot_PackStream_writes [of ?b "plain_head ROBOT_LOGIN" 1000] by auto
  then show ?thesis
    using robot_pack_unpack [of ?b "plain_head ROBOT_LOGIN" 1000 out len 0] by auto
qed

section \<open>What becomes of a login notice\<close>

text \<open>The writer puts the two coordinates in 64 bits each, the reader takes 32 bits each: it stays
  inside the message, but from the second number on it reads the wrong bytes.\<close>

definition takes :: "nat \<Rightarrow> 'a in_m \<Rightarrow> bool" where
  "takes k m \<longleftrightarrow> (\<forall>bs. length bs = k \<longrightarrow> (\<exists>x. reads m bs x))"

lemma takes_bind: "takes k m \<Longrightarrow> (\<And>x. takes l (f x)) \<Longrightarrow> takes (k + l) (m \<bind> f)"
  unfolding takes_def
proof (intro allI impI)
  fix bs :: "byte list"
  assume m: "\<forall>bs. length bs = k \<longrightarrow> (\<exists>x. reads m bs x)"
    and f: "\<And>x. \<forall>bs. length bs = l \<longrightarrow> (\<exists>y. reads (f x) bs y)" and n: "length bs = k + l"
  obtain x where "reads m (take k bs) x" using m n by fastforce
  moreover obtain y where "reads (f x) (drop k bs) y" using f [of x] n by fastforce
  ultimately show "\<exists>y. reads (m \<bind> f) bs y" using reads_bind [of m "take k bs" x f] by fastforce
qed

lemma takes_return: "takes 0 (State_Monad.return x)"
  by (auto simp: takes_def intro: reads_return)

lemma takes_word: "takes n (read_word n)"
  by (auto simp: takes_def intro: reads_read_word)

lemma takes_words: "takes 1 Read8" "takes 4 Read32" "takes 8 Read64"
  by (simp_all add: Read8_def Read32_def Read64_def takes_word)

lemma reads_read_chars_any: "length bs = n \<Longrightarrow> n < 2 ^ 31 \<Longrightarrow> reads (read_chars n) bs (bs[n - 1 := 0])"
  unfolding read_chars_def by (rule reads_bind_return [OF reads_read_bytes]) auto

lemma takes_chars: "n < 2 ^ 31 \<Longrightarrow> takes n (read_chars n)"
  unfolding takes_def using reads_read_chars_any by blast

lemma reads_get_all_any:
  assumes "\<And>t. takes k (get t)"
  shows "length bs = k * length ts \<Longrightarrow> \<exists>xs. reads (get_all get ts) bs xs \<and> length xs = length ts"
proof (induction ts arbitrary: bs)
  case (Cons t ts)
  obtain x where x: "reads (get t) (take k bs) x" using assms [of t] Cons.prems by (fastforce simp: takes_def)
  have "length (drop k bs) = k * length ts" using Cons.prems by simp
  from Cons.IH [OF this] obtain xs where xs: "reads (get_all get ts) (drop k bs) xs" "length xs = length ts"
    by blast
  have "reads (get_all get ts \<bind> (\<lambda>xs. State_Monad.return (x # xs))) (drop k bs) (x # xs)"
    by (rule reads_bind_return [OF xs(1)]) simp
  from reads_bind [OF x, where f = "\<lambda>x. get_all get ts \<bind> (\<lambda>xs. State_Monad.return (x # xs))", OF this]
  show ?case using xs(2) by (intro exI [of _ "x # xs"]) simp
qed (simp add: reads_return)

lemma takes_get_all: "(\<And>t. takes k (get t)) \<Longrightarrow> takes (k * length ts) (get_all get ts)"
  unfolding takes_def [of "k * length ts"] using reads_get_all_any [of k get] by blast

lemmas takes_rules = takes_bind takes_words takes_chars takes_return

lemma takes_eq: "takes k m \<Longrightarrow> k = l \<Longrightarrow> takes l m"
  by simp

lemma takes_robot_info: "takes 64 (read_robot_info junk)"
  unfolding read_robot_info_def by (rule takes_eq) (rule takes_rules | simp)+

lemma takes_handle_song: "takes 521 read_handle_song"
  unfolding read_handle_song_def by (rule takes_eq) (rule takes_rules | simp)+

text \<open>The first entry as the reader sees it.\<close>

definition low_half :: "int64 \<Rightarrow> int32" where "low_half q = ucast q"
definition high_half :: "int64 \<Rightarrow> int32" where "high_half q = ucast (drop_bit 32 q)"

definition garbled_robot :: "int64 \<Rightarrow> robot_info_packet \<Rightarrow> robot_info_packet" where
  "garbled_robot junk r = \<lparr>ri_uid = ri_uid r, ri_songid = junk,
     ri_latitude = int32_to_double (low_half (double_to_int64 (ri_latitude r))),
     ri_longitude = int32_to_double (high_half (double_to_int64 (ri_latitude r))),
     ri_nickname = (le_bytes 8 (double_to_int64 (ri_longitude r)) @ take 40 (ri_nickname r))[47 := 0]\<rparr>"

lemma le_bytes_halves: "le_bytes 8 q = le_bytes 4 (low_half q) @ le_bytes 4 (high_half q)"
proof (rule nth_equalityI)
  fix i assume "i < length (le_bytes 8 q)"
  then have "i < 8" by simp
  then show "le_bytes 8 q ! i = (le_bytes 4 (low_half q) @ le_bytes 4 (high_half q)) ! i"
    by (auto simp: nth_append low_half_def high_half_def bit_simps intro!: bit_word_eqI)
      (auto simp: algebra_simps)
qed simp

lemma reads_first_robot:
  assumes "wf_robot_info r"
  shows "reads (read_robot_info junk) (take 64 (robot_info_bytes r)) (garbled_robot junk r)"
proof -
  let ?nick = "le_bytes 8 (double_to_int64 (ri_longitude r)) @ take 40 (ri_nickname r)"
  have n: "length (ri_nickname r) = 48" using assms by (simp add: wf_robot_info_def char_array_def)
  have "take 64 (robot_info_bytes r) = le_bytes 8 (ri_uid r) @
      le_bytes 4 (low_half (double_to_int64 (ri_latitude r))) @
      le_bytes 4 (high_half (double_to_int64 (ri_latitude r))) @ ?nick"
    by (simp add: robot_info_bytes_def le_bytes_halves)
  moreover have chars: "reads (read_chars NICKNAME_LEN) ?nick (?nick[47 := 0])"
    using reads_read_chars_any [of ?nick 48] n by simp
  have "reads (read_robot_info junk) (le_bytes 8 (ri_uid r) @
      le_bytes 4 (low_half (double_to_int64 (ri_latitude r))) @
      le_bytes 4 (high_half (double_to_int64 (ri_latitude r))) @ ?nick) (garbled_robot junk r)"
    unfolding read_robot_info_def garbled_robot_def
    by (rule reads_bind [OF reads_word(4)], rule reads_bind [OF reads_word(3)],
        rule reads_bind [OF reads_word(3)], rule reads_bind_return [OF chars], simp)
  ultimately show ?thesis by simp
qed

lemma entry_nums_exact:
  assumes "w * k + f < 2 ^ 31" and "0 < w"
  shows "entry_nums (of_nat f) (of_nat w) (of_nat (w * k + f)) = of_nat k"
proof -
  have "k \<le> w * k" using assms(2) by simp
  moreover have "w \<le> w * k" if "k \<noteq> 0" using that by simp
  ultimately have k: "w * k < 2 ^ 31" "k < 2 ^ 31" "w < 2 ^ 31 \<or> k = 0"
    using assms(1) by linarith+
  have "(scast (of_nat (w * k + f) :: int32) :: int64) - of_nat f = of_nat (w * k)"
    using scast64_of_nat [OF assms(1)] by simp
  moreover have "ucast (of_nat (w * k) :: int64) = (of_nat (w * k) :: int32)"
    using k(1) by (simp only: ucast_eq unsigned_of_nat) (simp add: take_bit_nat_eq_self)
  moreover have "(scast (of_nat (w * k) :: int32) :: int64) = of_nat (w * k)"
    using k(1) by (intro scast64_of_nat)
  moreover have "(of_nat (w * k) :: int64) div of_nat w = of_nat k"
  proof (cases "k = 0")
    case False
    then have "w < 2 ^ 31" using k(3) by simp
    then show ?thesis using k(1) assms(2)
      by (simp only: word_arith_nat_div unsigned_of_nat) (simp add: take_bit_nat_eq_self)
  qed simp
  moreover have "ucast (of_nat k :: int64) = (of_nat k :: int32)"
    using k(2) by (simp only: ucast_eq unsigned_of_nat) (simp add: take_bit_nat_eq_self)
  ultimately show ?thesis by (simp add: entry_nums_def Let_def)
qed

lemma reads_robots:
  assumes "list_all wf_robot_info (r # rs)"
  shows "\<exists>rs'. reads (get_all (\<lambda>_. read_robot_info junk) (replicate (length (r # rs)) ()))
      (take (64 * length (r # rs)) (concat (map robot_info_bytes (r # rs)))) (garbled_robot junk r # rs') \<and>
    length rs' = length rs"
proof -
  let ?bs = "concat (map robot_info_bytes (r # rs))" and ?get = "\<lambda>_ :: unit. read_robot_info junk"
  have len: "length ?bs = 72 * length (r # rs)" using robot_infos.length_all [OF assms] by simp
  have r: "length (robot_info_bytes r) = 72" using robot_infos.width assms by simp
  have first: "reads (?get ()) (take 64 ?bs) (garbled_robot junk r)"
    using reads_first_robot [of r junk] assms r by simp
  have "length (take (64 * length rs) (drop 64 ?bs)) = 64 * length (replicate (length rs) ())" using len by simp
  from reads_get_all_any [of 64 ?get, OF takes_robot_info this]
  obtain rs' where rs': "reads (get_all ?get (replicate (length rs) ())) (take (64 * length rs) (drop 64 ?bs)) rs'"
    and len': "length rs' = length rs" by auto
  have "reads (get_all ?get (replicate (length rs) ()) \<bind> (\<lambda>xs. State_Monad.return (garbled_robot junk r # xs)))
      (take (64 * length rs) (drop 64 ?bs)) (garbled_robot junk r # rs')"
    by (rule reads_bind_return [OF rs']) simp
  from reads_bind [OF first, where f = "\<lambda>x. get_all ?get (replicate (length rs) ()) \<bind>
      (\<lambda>xs. State_Monad.return (x # xs))", OF this]
  have "reads (get_all ?get (replicate (length (r # rs)) ()))
      (take 64 ?bs @ take (64 * length rs) (drop 64 ?bs)) (garbled_robot junk r # rs')" by simp
  moreover have "take 64 ?bs @ take (64 * length rs) (drop 64 ?bs) = take (64 * length (r # rs)) ?bs"
    by (simp only: take_add length_Cons mult_Suc_right)
  ultimately show ?thesis using len' by auto
qed

text \<open>A packed NOTICE_USER_ROBOT_LOGIN with at least one robot is accepted and read inside its
  bounds, with the right number of robots, but the first one already comes back garbled: the
  two halves of its 64-bit latitude as latitude and longitude, and a name that starts with the
  bytes of the longitude.  Eight bytes per robot remain unread.\<close>

theorem robot_login_notice_garbled:
  assumes "wf_robot_body (RobotLoginNotice \<lparr>rl_uid = u, rl_robot_list = r # rs\<rparr>)"
    and "operate_code h = NOTICE_USER_ROBOT_LOGIN" and "72 * length (r # rs) + 39 \<le> limit"
    and "Robot_PackStream limit h (RobotLoginNotice \<lparr>rl_uid = u, rl_robot_list = r # rs\<rparr>) = Packed out len"
    and "packet_length h \<noteq> PACKET_HEAD_LENGTH \<or> data_length h \<noteq> 0"
  shows "\<exists>h' rs' p. Robot_UnpackStream junk (out_buffer out) len =
      Some ((h', RobotLoginNotice \<lparr>rl_uid = u, rl_robot_list = garbled_robot junk r # rs'\<rparr>), p) \<and>
    length rs' = length rs \<and> in_fault p = None \<and> remaining p = 8 * int (length (r # rs))"
proof -
  let ?b = "RobotLoginNotice \<lparr>rl_uid = u, rl_robot_list = r # rs\<rparr>" and ?k = "length (r # rs)"
  let ?robots = "concat (map robot_info_bytes (r # rs))"
  have wf: "list_all wf_robot_info (r # rs)" "?k < 2 ^ 20" using assms(1) by simp_all
  have n: "length (robot_body_bytes ?b) = 72 * ?k + 8" using robot_infos.length_all [OF wf(1)] by simp
  define n where "n = (of_nat (length (robot_body_bytes ?b)) :: int32)"
  have op: "operate_code h \<in> set (operations_of ?b)" using assms(2) by simp
  have k: "entry_nums 8 72 n = of_nat ?k"
    using entry_nums_exact [of 72 ?k 8] wf(2) unfolding n_def n by simp
  have rd: "read_robot_body junk (operate_code h) n (sized_head h n) = Some (read_robot_login_notice junk n)"
    using assms(2) by (simp add: read_robot_body_def)
  obtain rs' where rs': "length rs' = length rs"
    "reads (get_all (\<lambda>_. read_robot_info junk) (replicate ?k ())) (take (64 * ?k) ?robots)
       (garbled_robot junk r # rs')"
    using reads_robots [OF wf(1)] by blast
  have all: "nat (sint (of_nat ?k :: int32)) = ?k" using signed_of_nat32 [of ?k] wf(2) by simp
  have count: "nat (sint (entry_nums 8 (8 * 2 + 4 * 2 + 48) n)) = ?k" using k all by simp
  have rd': "read_robot_login_notice junk n = do {
      a \<leftarrow> Read64; rs \<leftarrow> get_all (\<lambda>_. read_robot_info junk) (replicate ?k ());
      State_Monad.return (RobotLoginNotice \<lparr>rl_uid = a, rl_robot_list = rs\<rparr>) }"
    by (simp only: read_robot_login_notice_def count)
  have rd'': "reads (read_robot_login_notice junk n) (le_bytes 8 u @ take (64 * ?k) ?robots)
      (RobotLoginNotice \<lparr>rl_uid = u, rl_robot_list = garbled_robot junk r # rs'\<rparr>)"
    unfolding rd' by (rule reads_bind [OF reads_word(4)], rule reads_bind_return [OF rs'(2)]) simp
  have parts: "robot_body_bytes ?b = (le_bytes 8 u @ take (64 * ?k) ?robots) @ drop (64 * ?k) ?robots"
    by (simp only: robot_body_bytes.simps append_assoc append_take_drop_id) simp
  have fits: "unwritten ?b = 0" "length (robot_body_bytes ?b) + 31 \<le> limit"
    using n assms(3) by simp_all
  have rest: "length (drop (64 * ?k) ?robots) = 8 * ?k"
    using robot_infos.length_all [OF wf(1)] by (simp only: length_drop)
  show ?thesis
    using robot_unpack_prefix [OF assms(1) op fits assms(4,5) rd [unfolded n_def] parts rd'' [unfolded n_def]]
      rs'(1) unfolding rest by auto
qed

text \<open>A place with a non-negative latitude is read as a whole degree of latitude on the prime
  meridian.\<close>

lemma garbled_coordinates:
  assumes "0 \<le> ri_latitude r" "ri_latitude r < 2 ^ 31"
  shows "ri_latitude (garbled_robot junk r) = of_int \<lfloor>ri_latitude r\<rfloor>"
    and "ri_longitude (garbled_robot junk r) = 0"
proof -
  define n where "n = nat \<lfloor>ri_latitude r\<rfloor>"
  have n: "\<lfloor>ri_latitude r\<rfloor> = int n" "n < 2 ^ 31"
    using assms by (auto simp: n_def floor_less_iff nat_less_iff)
  then have q: "double_to_int64 (ri_latitude r) = of_nat n"
    using assms(1) by (simp add: double_to_int64_def truncated_def)
  have "low_half (of_nat n) = of_nat n"
    unfolding low_half_def using n(2)
    by (simp only: ucast_eq unsigned_of_nat) (simp add: take_bit_nat_eq_self)
  then show "ri_latitude (garbled_robot junk r) = of_int \<lfloor>ri_latitude r\<rfloor>"
    using n signed_of_nat32 [of n] by (simp add: garbled_robot_def q int32_to_double_def)
  have "(drop_bit 32 (of_nat n :: int64)) = 0"
    using n(2) by (auto simp: drop_bit_eq_div word_arith_nat_div unsigned_of_nat take_bit_nat_eq_self)
  then show "ri_longitude (garbled_robot junk r) = 0"
    by (simp add: garbled_robot_def q high_half_def int32_to_double_def)
qed

theorem robot_login_notice_garbled_witness:
  "\<exists>out len h' x p. Robot_PackStream 1000 (plain_head NOTICE_USER_ROBOT_LOGIN)
      (RobotLoginNotice \<lparr>rl_uid = 7, rl_robot_list = [\<lparr>ri_uid = 9, ri_songid = 0, ri_latitude = 30,
         ri_longitude = 120, ri_nickname = replicate 48 0\<rparr>]\<rparr>) = Packed out len \<and>
    Robot_UnpackStream 5 (out_buffer out) len = Some ((h', RobotLoginNotice \<lparr>rl_uid = 7, rl_robot_list = [x]\<rparr>), p) \<and>
    ri_uid x = 9 \<and> ri_songid x = 5 \<and> ri_latitude x = 30 \<and> ri_longitude x = 0"
proof -
  let ?r = "\<lparr>ri_uid = 9, ri_songid = 0, ri_latitude = 30, ri_longitude = 120, ri_nickname = replicate 48 0\<rparr>"
  let ?b = "RobotLoginNotice \<lparr>rl_uid = 7, rl_robot_list = [?r]\<rparr>"
  have wf: "wf_robot_body ?b" by (simp add: wf_robot_info_def char_array_def)
  have n: "length (robot_body_bytes ?b) = 80" by (simp add: robot_info_bytes_def)
  obtain out len where p: "Robot_PackStream 1000 (plain_head NOTICE_USER_ROBOT_LOGIN) ?b = Packed out len"
    using Robot_PackStream_writes [OF wf, of "plain_head NOTICE_USER_ROBOT_LOGIN" 1000] n by auto
  have "\<exists>h' p. Robot_UnpackStream 5 (out_buffer out) len =
      Some ((h', RobotLoginNotice \<lparr>rl_uid = 7, rl_robot_list = [garbled_robot 5 ?r]\<rparr>), p)"
    using robot_login_notice_garbled [OF wf _ _ p, of 5] by auto
  then show ?thesis using p garbled_coordinates [of ?r 5] by (force simp: garbled_robot_def)
qed

end
