(* ===== verification/CoreBuffer.thy ===== *)
theory CoreBuffer
  imports MigPrelude
begin

text \<open>
  The growing buffer of the server core, \<^verbatim>\<open>src/server/chat/core/buffer.{h,c}\<close>: a piece of memory
  of \<^verbatim>\<open>size\<close> bytes whose first \<^verbatim>\<open>used\<close> hold a text with its final zero.  Every string operation
  is shown to refine the operation on texts of the same name; the numbers it prints can be read
  back.  \<^verbatim>\<open>malloc\<close> succeeds, and what it returns is \<open>u\<close>.  A store outside the memory sets
  \<open>cb_fault\<close>.  A pointer argument that may be null is an option.
\<close>

section \<open>Memory\<close>

record core_buffer =
  cb_ptr :: "byte list"
  cb_used :: nat
  cb_size :: nat
  cb_fault :: bool

type_synonym uninit = "nat \<Rightarrow> byte"

definition fresh :: "uninit \<Rightarrow> nat \<Rightarrow> nat \<Rightarrow> byte list" where
  "fresh u from to = map u [from..<to]"

lemma length_fresh [simp]: "length (fresh u i j) = j - i"
  by (simp add: fresh_def)

definition store_at :: "nat \<Rightarrow> byte list \<Rightarrow> core_buffer \<Rightarrow> core_buffer" where
  "store_at k bs b =
     (if k + length bs \<le> length (cb_ptr b)
      then b\<lparr>cb_ptr := take k (cb_ptr b) @ bs @ drop (k + length bs) (cb_ptr b)\<rparr>
      else b\<lparr>cb_fault := True\<rparr>)"

lemma store_at_simps [simp]:
  "cb_used (store_at k bs b) = cb_used b" "cb_size (store_at k bs b) = cb_size b"
  by (simp_all add: store_at_def)

lemma store_at_used: "store_at k bs (b\<lparr>cb_used := n\<rparr>) = (store_at k bs b)\<lparr>cb_used := n\<rparr>"
  by (simp add: store_at_def)

definition BUFFER_PIECE_SIZE :: nat where "BUFFER_PIECE_SIZE = 64"
definition BUFFER_MAX_REUSE_SIZE :: nat where "BUFFER_MAX_REUSE_SIZE = 4 * 1024"

definition in_pieces :: "nat \<Rightarrow> nat" where
  "in_pieces n = n + (BUFFER_PIECE_SIZE - n mod BUFFER_PIECE_SIZE)"

definition buffer_init :: core_buffer where
  "buffer_init = \<lparr>cb_ptr = [], cb_used = 0, cb_size = 0, cb_fault = False\<rparr>"

definition buffer_prepare_copy :: "uninit \<Rightarrow> nat \<Rightarrow> core_buffer \<Rightarrow> core_buffer" where
  "buffer_prepare_copy u n b =
     (if cb_size b = 0 \<or> cb_size b < n
      then b\<lparr>cb_size := in_pieces n, cb_ptr := fresh u 0 (in_pieces n), cb_used := 0\<rparr>
      else b\<lparr>cb_used := 0\<rparr>)"

text \<open>\<^verbatim>\<open>realloc\<close> keeps what was there.\<close>

definition buffer_prepare_append :: "uninit \<Rightarrow> nat \<Rightarrow> core_buffer \<Rightarrow> core_buffer" where
  "buffer_prepare_append u n b =
     (if cb_size b = 0
      then b\<lparr>cb_size := in_pieces n, cb_ptr := fresh u 0 (in_pieces n), cb_used := 0\<rparr>
      else if cb_size b < cb_used b + n
      then let s = in_pieces (cb_size b + n) in
        b\<lparr>cb_size := s, cb_ptr := cb_ptr b @ fresh u (length (cb_ptr b)) s\<rparr>
      else b)"

definition buffer_reset :: "core_buffer \<Rightarrow> core_buffer" where
  "buffer_reset b =
     (if BUFFER_MAX_REUSE_SIZE < cb_size b then b\<lparr>cb_ptr := [], cb_size := 0, cb_used := 0\<rparr>
      else if cb_size b \<noteq> 0 then (store_at 0 [0] b)\<lparr>cb_used := 0\<rparr>
      else b\<lparr>cb_used := 0\<rparr>)"

section \<open>Copying and appending\<close>

definition buffer_copy_string_len :: "uninit \<Rightarrow> byte list option \<Rightarrow> core_buffer \<Rightarrow> int \<times> core_buffer" where
  "buffer_copy_string_len u src b = (case src of
       None \<Rightarrow> (- 1, b)
     | Some s \<Rightarrow>
         let b = buffer_prepare_copy u (length s) b;
           b = store_at 0 s b;
           b = store_at (length s) [0] b
         in (0, b\<lparr>cb_used := length s + 1\<rparr>))"

definition buffer_copy_string :: "uninit \<Rightarrow> byte list option \<Rightarrow> core_buffer \<Rightarrow> int \<times> core_buffer" where
  "buffer_copy_string u src b = (case src of
       None \<Rightarrow> (- 1, b)
     | Some m \<Rightarrow>
         let s = c_string m;
           b = buffer_prepare_copy u (length s + 1) b;
           b = store_at 0 (s @ [0]) b
         in (1, b\<lparr>cb_used := length s + 1\<rparr>))"

definition buffer_copy_string_buffer ::
  "uninit \<Rightarrow> core_buffer option \<Rightarrow> core_buffer \<Rightarrow> int \<times> core_buffer" where
  "buffer_copy_string_buffer u src b = (case src of
       None \<Rightarrow> (- 1, b)
     | Some a \<Rightarrow>
         if cb_used a = 0 then (0, buffer_reset b)
         else buffer_copy_string_len u (Some (take (cb_used a - 1) (cb_ptr a))) b)"

definition buffer_init_string :: "uninit \<Rightarrow> byte list option \<Rightarrow> core_buffer" where
  "buffer_init_string u s = snd (buffer_copy_string u s buffer_init)"

definition buffer_init_buffer :: "uninit \<Rightarrow> core_buffer option \<Rightarrow> core_buffer" where
  "buffer_init_buffer u src = snd (buffer_copy_string_buffer u src buffer_init)"

definition start_text :: "core_buffer \<Rightarrow> core_buffer" where
  "start_text b = (if cb_used b = 0 then b\<lparr>cb_used := 1\<rparr> else b)"

definition buffer_append_string :: "uninit \<Rightarrow> byte list option \<Rightarrow> core_buffer \<Rightarrow> int \<times> core_buffer" where
  "buffer_append_string u src b = (case src of
       None \<Rightarrow> (- 1, b)
     | Some m \<Rightarrow>
         let s = c_string m;
           b = start_text (buffer_prepare_append u (length s + 1) b);
           b = store_at (cb_used b - 1) (s @ [0]) b
         in (0, b\<lparr>cb_used := cb_used b + length s\<rparr>))"

definition buffer_append_string_len :: "uninit \<Rightarrow> byte list option \<Rightarrow> core_buffer \<Rightarrow> int \<times> core_buffer" where
  "buffer_append_string_len u src b = (case src of
       None \<Rightarrow> (- 1, b)
     | Some s \<Rightarrow>
         if s = [] then (0, b)
         else let b = start_text (buffer_prepare_append u (length s + 1) b);
             b = store_at (cb_used b - 1) s b;
             b = b\<lparr>cb_used := cb_used b + length s\<rparr>
           in (0, store_at (cb_used b - 1) [0] b))"

definition buffer_append_string_buffer ::
  "uninit \<Rightarrow> core_buffer option \<Rightarrow> core_buffer \<Rightarrow> int \<times> core_buffer" where
  "buffer_append_string_buffer u src b = (case src of
       None \<Rightarrow> (- 1, b)
     | Some a \<Rightarrow>
         if cb_used a = 0 then (0, b)
         else buffer_append_string_len u (Some (take (cb_used a - 1) (cb_ptr a))) b)"

definition buffer_append_memory :: "uninit \<Rightarrow> byte list option \<Rightarrow> core_buffer \<Rightarrow> int \<times> core_buffer" where
  "buffer_append_memory u src b = (case src of
       None \<Rightarrow> (- 1, b)
     | Some s \<Rightarrow>
         if s = [] then (0, b)
         else let b = buffer_prepare_append u (length s) b;
             b = store_at (cb_used b) s b
           in (0, b\<lparr>cb_used := cb_used b + length s\<rparr>))"

definition buffer_copy_memory :: "uninit \<Rightarrow> byte list option \<Rightarrow> core_buffer \<Rightarrow> int \<times> core_buffer" where
  "buffer_copy_memory u src b = (case src of
       None \<Rightarrow> (- 1, b)
     | Some s \<Rightarrow> buffer_append_memory u (Some s) (b\<lparr>cb_used := 0\<rparr>))"

definition buffer_is_equal :: "core_buffer \<Rightarrow> core_buffer \<Rightarrow> bool" where
  "buffer_is_equal a b =
     (if cb_used a \<noteq> cb_used b then False
      else if cb_used a = 0 then True
      else c_string (cb_ptr a) = c_string (cb_ptr b))"

section \<open>Buffers refine texts\<close>

definition buffer_ok :: "core_buffer \<Rightarrow> bool" where
  "buffer_ok b \<longleftrightarrow> \<not> cb_fault b \<and> length (cb_ptr b) = cb_size b \<and> cb_used b \<le> cb_size b \<and>
     (0 < cb_used b \<longrightarrow> cb_ptr b ! (cb_used b - 1) = 0)"

definition text_of :: "core_buffer \<Rightarrow> byte list" where
  "text_of b = take (cb_used b - 1) (cb_ptr b)"

lemma text_of_update [simp]: "text_of (b\<lparr>cb_ptr := p, cb_used := k\<rparr>) = take (k - 1) p"
  by (simp add: text_of_def)

lemma in_pieces_gt [simp]: "n < in_pieces n"
  by (simp add: in_pieces_def BUFFER_PIECE_SIZE_def)

lemma in_pieces_multiple: "in_pieces n mod BUFFER_PIECE_SIZE = 0"
  unfolding in_pieces_def BUFFER_PIECE_SIZE_def by presburger

lemma prepare_append_ok:
  fixes u :: uninit
  assumes "buffer_ok b" "0 < n"
  defines "b' \<equiv> buffer_prepare_append u n b"
  shows "buffer_ok b'" "cb_used b' = cb_used b" "text_of b' = text_of b" "cb_used b' + n \<le> cb_size b'"
proof -
  have "length (cb_ptr b) \<le> in_pieces (cb_size b + n)" "cb_used b + n \<le> in_pieces (cb_size b + n)"
    using assms(1) in_pieces_gt [of "cb_size b + n"] unfolding buffer_ok_def by linarith+
  then show "buffer_ok b'" "cb_used b' = cb_used b" "text_of b' = text_of b" "cb_used b' + n \<le> cb_size b'"
    using assms(1,2) in_pieces_gt [of n]
    by (auto simp: b'_def buffer_prepare_append_def buffer_ok_def text_of_def Let_def nth_append
        simp del: in_pieces_gt)
qed

text \<open>What the two appending operations do to the memory.\<close>

lemma put_text:
  fixes u :: uninit and s :: "byte list"
  assumes "buffer_ok b" "length s + 1 \<le> n"
  defines "b' \<equiv> start_text (buffer_prepare_append u n b)"
  shows "store_at (cb_used b' - 1) (s @ [0]) b' =
      b'\<lparr>cb_ptr := text_of b @ (s @ [0]) @ drop (cb_used b' + length s) (cb_ptr b')\<rparr>"
    and "buffer_ok ((store_at (cb_used b' - 1) (s @ [0]) b')\<lparr>cb_used := cb_used b' + length s\<rparr>)"
    and "text_of ((store_at (cb_used b' - 1) (s @ [0]) b')\<lparr>cb_used := cb_used b' + length s\<rparr>) = text_of b @ s"
    and "length (text_of b) = cb_used b' - 1" "0 < cb_used b'" "cb_used b' + length s \<le> length (cb_ptr b')"
proof -
  have n: "0 < n" using assms(2) by simp
  note p = prepare_append_ok [OF assms(1) n, of u]
  show pos: "0 < cb_used b'" by (simp add: b'_def start_text_def)
  have held: "take (cb_used b' - 1) (cb_ptr b') = text_of b"
    using p(2,3) by (auto simp: b'_def start_text_def text_of_def)
  show room: "cb_used b' + length s \<le> length (cb_ptr b')"
    using p(1,2,4) assms(2) by (auto simp: b'_def start_text_def buffer_ok_def)
  have fault: "\<not> cb_fault b'" "length (cb_ptr b') = cb_size b'"
    using p(1) by (auto simp: b'_def start_text_def buffer_ok_def)
  show len: "length (text_of b) = cb_used b' - 1" using held room by (metis add_leD1 diff_le_self length_take min.absorb2 order_trans)
  show st: "store_at (cb_used b' - 1) (s @ [0]) b' =
      b'\<lparr>cb_ptr := text_of b @ (s @ [0]) @ drop (cb_used b' + length s) (cb_ptr b')\<rparr>"
    using pos room held by (simp add: store_at_def)
  show "buffer_ok ((store_at (cb_used b' - 1) (s @ [0]) b')\<lparr>cb_used := cb_used b' + length s\<rparr>)"
    unfolding st using len pos room fault by (auto simp: buffer_ok_def nth_append)
  show "text_of ((store_at (cb_used b' - 1) (s @ [0]) b')\<lparr>cb_used := cb_used b' + length s\<rparr>) = text_of b @ s"
    unfolding st using len pos by simp
qed

lemma buffer_append_string_text:
  assumes "buffer_ok b"
  shows "buffer_ok (snd (buffer_append_string u (Some m) b))"
    and "text_of (snd (buffer_append_string u (Some m) b)) = text_of b @ c_string m"
  using put_text(2,3) [OF assms order_refl, of u "c_string m"]
  by (simp_all add: buffer_append_string_def Let_def)

text \<open>Storing the text and then its zero is storing both.\<close>

lemma store_text_zero:
  assumes "0 < cb_used b" "cb_used b + length s \<le> length (cb_ptr b)"
  shows "store_at (cb_used b + length s - 1) [0]
      ((store_at (cb_used b - 1) s b)\<lparr>cb_used := cb_used b + length s\<rparr>) =
    (store_at (cb_used b - 1) (s @ [0]) b)\<lparr>cb_used := cb_used b + length s\<rparr>"
proof -
  have "cb_used b - 1 + length s \<le> length (cb_ptr b)" "cb_used b + length s - 1 + 1 \<le> length (cb_ptr b)"
    "cb_used b + length s - 1 = cb_used b - 1 + length s"
    using assms by linarith+
  then show ?thesis using assms by (simp add: store_at_def min_absorb1)
qed

lemma buffer_append_string_len_text:
  assumes "buffer_ok b"
  shows "buffer_ok (snd (buffer_append_string_len u (Some s) b))"
    and "text_of (snd (buffer_append_string_len u (Some s) b)) = text_of b @ s"
proof -
  let ?b = "start_text (buffer_prepare_append u (length s + 1) b)"
  have "s \<noteq> [] \<Longrightarrow> snd (buffer_append_string_len u (Some s) b) =
      (store_at (cb_used ?b - 1) (s @ [0]) ?b)\<lparr>cb_used := cb_used ?b + length s\<rparr>"
    using store_text_zero [OF put_text(5,6) [OF assms order_refl, of u s]]
    by (simp add: buffer_append_string_len_def Let_def)
  then show "buffer_ok (snd (buffer_append_string_len u (Some s) b))"
    "text_of (snd (buffer_append_string_len u (Some s) b)) = text_of b @ s"
    using put_text(2,3) [OF assms order_refl, of u s] assms
    by (cases "s = []"; simp add: buffer_append_string_len_def)+
qed

lemma buffer_append_string_buffer_text:
  assumes "buffer_ok b" "buffer_ok a"
  shows "buffer_ok (snd (buffer_append_string_buffer u (Some a) b))"
    and "text_of (snd (buffer_append_string_buffer u (Some a) b)) = text_of b @ text_of a"
  using buffer_append_string_len_text [OF assms(1), of u "text_of a"] assms(1)
  by (auto simp: buffer_append_string_buffer_def text_of_def)

text \<open>\<^verbatim>\<open>buffer_copy_string\<close> asks for room for the zero, \<^verbatim>\<open>buffer_copy_string_len\<close> does not.\<close>

lemma prepare_copy_ok:
  assumes "buffer_ok b"
  shows "buffer_ok (buffer_prepare_copy u n b)" "n \<le> cb_size (buffer_prepare_copy u n b)"
    "cb_used (buffer_prepare_copy u n b) = 0"
  using assms in_pieces_gt [of n]
  by (auto simp: buffer_prepare_copy_def buffer_ok_def simp del: in_pieces_gt)

lemma buffer_copy_string_text:
  assumes "buffer_ok b"
  shows "buffer_ok (snd (buffer_copy_string u (Some m) b))"
    and "text_of (snd (buffer_copy_string u (Some m) b)) = c_string m"
  using prepare_copy_ok [OF assms, where u = u and n = "length (c_string m) + 1"]
  by (auto simp: buffer_copy_string_def Let_def store_at_def buffer_ok_def text_of_def nth_append)

lemma buffer_init_ok [simp]: "buffer_ok buffer_init" "text_of buffer_init = []"
  by (simp_all add: buffer_ok_def buffer_init_def text_of_def)

lemma buffer_init_string_text:
  "buffer_ok (buffer_init_string u (Some m))" "text_of (buffer_init_string u (Some m)) = c_string m"
  by (simp_all add: buffer_init_string_def buffer_copy_string_text)

lemma buffer_reset_text:
  "buffer_ok b \<Longrightarrow> buffer_ok (buffer_reset b)" "text_of (buffer_reset b) = []"
  by (auto simp: buffer_reset_def buffer_ok_def text_of_def store_at_def)

text \<open>C35: buffer_copy_string_len into a well-formed buffer leaves the buffer well-formed with
  exactly the copied text, except when the memory of the buffer is exactly as long as the
  text: then the final zero is written one byte behind the memory.\<close>

theorem buffer_copy_string_len_safe_iff:
  fixes u :: uninit and s :: "byte list"
  assumes "buffer_ok b"
  defines "b' \<equiv> snd (buffer_copy_string_len u (Some s) b)"
  shows "if cb_size b = length s \<and> s \<noteq> [] then cb_fault b' else buffer_ok b' \<and> text_of b' = s"
proof -
  let ?c = "buffer_prepare_copy u (length s) b"
  note p = prepare_copy_ok [OF assms(1), where u = u and n = "length s"]
  have size: "length s < cb_size ?c \<longleftrightarrow> \<not> (cb_size b = length s \<and> s \<noteq> [])"
    using assms(1) by (auto simp: buffer_prepare_copy_def)
  have b': "b' = (store_at (length s) [0] (store_at 0 s ?c))\<lparr>cb_used := length s + 1\<rparr>"
    by (simp add: b'_def buffer_copy_string_len_def Let_def)
  show ?thesis
  proof (cases "length s < cb_size ?c")
    case True
    then have "buffer_ok b'" "text_of b' = s" using p
      by (auto simp: b' store_at_def buffer_ok_def text_of_def nth_append)
    then show ?thesis using True size by auto
  next
    case False
    then have "cb_fault b'" using p by (auto simp: b' store_at_def buffer_ok_def)
    then show ?thesis using False size by auto
  qed
qed

theorem buffer_copy_string_len_safe_iff_witness:
  "cb_fault (snd (buffer_copy_string_len (\<lambda>_. 7) (Some (replicate 64 65))
     (buffer_init_string (\<lambda>_. 7) (Some [66]))))"
proof -
  have "cb_size (buffer_init_string (\<lambda>_. 7) (Some [66])) = 64"
    by (simp add: buffer_init_string_def buffer_copy_string_def buffer_prepare_copy_def buffer_init_def
        in_pieces_def BUFFER_PIECE_SIZE_def c_string_def store_at_def)
  then show ?thesis
    using buffer_copy_string_len_safe_iff [OF buffer_init_string_text(1) [of "\<lambda>_. 7" "[66]"],
        where u = "\<lambda>_. 7" and s = "replicate 64 65"] by simp
qed

section \<open>Numbers\<close>

text \<open>The digits in the order they are produced, lowest first, then swapped in place.\<close>

function ltostr_loop :: "int \<Rightarrow> byte list" where
  "ltostr_loop v = (if 9 < v then of_int (48 + v mod 10) # ltostr_loop (v div 10) else [of_int (48 + v)])"
  by pat_completeness auto
termination by (relation "measure nat") auto

declare ltostr_loop.simps [simp del]

function swap_loop :: "nat \<Rightarrow> nat \<Rightarrow> byte list \<Rightarrow> byte list" where
  "swap_loop i j bs = (if i < j then swap_loop (i + 1) (j - 1) (bs[j := bs ! i, i := bs ! j]) else bs)"
  by pat_completeness auto
termination by (relation "measure (\<lambda>(i, j, bs). j - i)") auto

declare swap_loop.simps [simp del]

definition LI_ltostr :: "int64 \<Rightarrow> int \<times> byte list" where
  "LI_ltostr val =
     (let neg = sint val < 0;
        v = (if neg then - val else val);
        ds = ltostr_loop (sint v);
        len = (if neg then 2 else 1) + int (length ds - 1)
      in (len, (if neg then [45] else []) @ swap_loop 0 (length ds - 1) ds @ [0]))"

definition buffer_append_long :: "uninit \<Rightarrow> int64 \<Rightarrow> core_buffer \<Rightarrow> int \<times> core_buffer" where
  "buffer_append_long u val b =
     (let b = start_text (buffer_prepare_append u 32 b);
        (len, bs) = LI_ltostr val;
        b = store_at (cb_used b - 1) bs b
      in (0, b\<lparr>cb_used := cb_used b + nat len\<rparr>))"

definition buffer_copy_long :: "uninit \<Rightarrow> int64 \<Rightarrow> core_buffer \<Rightarrow> int \<times> core_buffer" where
  "buffer_copy_long u val b = buffer_append_long u val (b\<lparr>cb_used := 0\<rparr>)"

definition hex_chars :: "byte list" where "hex_chars = ascii ''0123456789abcdef''"

text \<open>The number of hexadecimal digits, made even and positive.\<close>

function hex_shift :: "nat \<Rightarrow> nat" where
  "hex_shift v = (if v = 0 then 0 else hex_shift (v div 16) + 1)"
  by pat_completeness auto
termination by (relation "measure id") auto

declare hex_shift.simps [simp del]

definition hex_width :: "nat \<Rightarrow> nat" where
  "hex_width v =
     (let shift = hex_shift v;
        shift = (if shift = 0 then 1 else shift)
      in if odd shift then shift + 1 else shift)"

primrec hex_out :: "int64 \<Rightarrow> nat \<Rightarrow> byte list" where
  "hex_out v 0 = []"
| "hex_out v (Suc k) = hex_chars ! (unat (drop_bit (4 * k) v) mod 16) # hex_out v k"

definition buffer_append_long_hex :: "uninit \<Rightarrow> int64 \<Rightarrow> core_buffer \<Rightarrow> int \<times> core_buffer" where
  "buffer_append_long_hex u val b =
     (let shift = hex_width (unat val);
        b = start_text (buffer_prepare_append u (shift + 1) b);
        buf = cb_used b - 1;
        b = b\<lparr>cb_used := cb_used b + shift\<rparr>
      in (0, store_at buf (hex_out val shift @ [0]) b))"

lemma nat_digits_ltostr: "rev (ltostr_loop (int n)) = nat_digits n"
proof (induction n rule: nat_digits.induct)
  case (1 n)
  have digit: "(of_int (48 + int k) :: byte) = of_nat (48 + k)" for k by simp
  show ?case
  proof (cases "n < 10")
    case True
    then show ?thesis using digit [of n]
      by (simp add: ltostr_loop.simps [of "int n"] nat_digits.simps [of n])
  next
    case False
    have "ltostr_loop (int n) = of_int (48 + int (n mod 10)) # ltostr_loop (int (n div 10))"
      using False by (subst ltostr_loop.simps) (simp add: zdiv_int zmod_int)
    moreover have "nat_digits n = nat_digits (n div 10) @ [of_nat (48 + n mod 10)]"
      using False by (subst nat_digits.simps) simp
    ultimately show ?thesis using 1 [OF False] digit [of "n mod 10"] by (simp only: rev.simps)
  qed
qed

lemma swap_loop_rev:
  "swap_loop (length as) (length as + length m - 1) (as @ m @ cs) = as @ rev m @ cs"
proof (induction m arbitrary: as cs rule: measure_induct_rule [of length])
  case (less m)
  show ?case
  proof (cases "length m \<le> 1")
    case True
    then have "rev m = m" by (cases m) auto
    then show ?thesis using True by (subst swap_loop.simps) auto
  next
    case False
    then obtain x n y where m: "m = x # n @ [y]"
      by (metis One_nat_def append_butlast_last_id length_0_conv length_Suc_conv_rev le_numeral_extra(3)
          list.exhaust list.size(4) nat_le_linear zero_le_one plus_1_eq_Suc add.commute)
    have "(as @ m @ cs)[length as + length m - 1 := (as @ m @ cs) ! length as,
        length as := (as @ m @ cs) ! (length as + length m - 1)] = (as @ [y]) @ n @ (x # cs)"
      by (simp add: m nth_append list_update_append)
    then show ?thesis
      using less [of n "as @ [y]" "x # cs"] by (subst swap_loop.simps) (simp add: m)
  qed
qed

lemma swap_loop_all: "swap_loop 0 (length bs - 1) bs = rev bs"
  using swap_loop_rev [of "[]" bs "[]"] by simp

text \<open>The digits of every \<^verbatim>\<open>long\<close> but the least, whose negation overflows.\<close>

lemma LI_ltostr_decimal:
  assumes "sint val \<noteq> - (2 ^ 63)"
  shows "LI_ltostr val = (int (length (decimal (sint val))), decimal (sint val) @ [0])"
proof -
  have v: "sint (if sint val < 0 then - val else val) = \<bar>sint val\<bar>"
    using assms sint_greater_eq [of val] sint_less [of val]
    by (auto simp: sint_word_ariths signed_take_bit_int_eq_self)
  have "ltostr_loop \<bar>sint val\<bar> = rev (nat_digits (nat \<bar>sint val\<bar>))"
    using nat_digits_ltostr [of "nat \<bar>sint val\<bar>"] by (metis abs_ge_zero int_nat_eq rev_rev_ident)
  then show ?thesis
    using swap_loop_all [of "rev (nat_digits (nat \<bar>sint val\<bar>))"]
    by (auto simp: LI_ltostr_def v decimal_def Let_def of_nat_diff Suc_leI)
qed

lemma buffer_append_long_text:
  assumes "buffer_ok b" "sint val \<noteq> - (2 ^ 63)"
  shows "buffer_ok (snd (buffer_append_long u val b))"
    and "text_of (snd (buffer_append_long u val b)) = text_of b @ decimal (sint val)"
proof -
  have "length (decimal (sint val)) + 1 \<le> 32"
    using length_decimal_word(1) [of val] by linarith
  note p = put_text(2,3) [OF assms(1) this, of u]
  show "buffer_ok (snd (buffer_append_long u val b))"
    "text_of (snd (buffer_append_long u val b)) = text_of b @ decimal (sint val)"
    using p by (simp_all add: buffer_append_long_def LI_ltostr_decimal [OF assms(2)] Let_def)
qed

definition hex_digit :: "byte \<Rightarrow> nat" where
  "hex_digit c = (if unat c < 58 then unat c - 48 else unat c - 87)"

definition hex_number :: "byte list \<Rightarrow> nat" where
  "hex_number cs = foldl (\<lambda>a c. 16 * a + hex_digit c) 0 cs"

lemma hex_digit_char: "k < 16 \<Longrightarrow> hex_digit (hex_chars ! k) = k"
proof -
  have "\<forall>k\<in>set [0..<16]. hex_digit (hex_chars ! k) = k" by code_simp
  then show "k < 16 \<Longrightarrow> hex_digit (hex_chars ! k) = k" by simp
qed

lemma length_hex_out [simp]: "length (hex_out v k) = k"
  by (induction k) auto

lemma hex_fold: "foldl (\<lambda>a c. 16 * a + hex_digit c) a (hex_out v k) = a * 16 ^ k + unat v mod 16 ^ k"
proof (induction k arbitrary: a)
  case (Suc k)
  have "unat (drop_bit (4 * k) v) = unat v div 16 ^ k"
    by (subst unat_drop_bit_eq) (simp add: drop_bit_eq_div power_mult)
  moreover have "unat v mod 16 ^ Suc k = 16 ^ k * (unat v div 16 ^ k mod 16) + unat v mod 16 ^ k"
    by (simp add: mod_mult2_eq [symmetric] power_Suc mult.commute)
  ultimately show ?case using hex_digit_char [of "unat v div 16 ^ k mod 16"] Suc
    by (simp add: algebra_simps)
qed simp

lemma hex_shift_bound: "v < 16 ^ hex_shift v"
proof (induction v rule: hex_shift.induct)
  case (1 v)
  show ?case
  proof (cases "v = 0")
    case False
    then have "v div 16 < 16 ^ hex_shift (v div 16)" using 1 by simp
    then have "v < 16 * 16 ^ hex_shift (v div 16)" by linarith
    then show ?thesis using False by (simp add: hex_shift.simps [of v])
  qed (simp add: hex_shift.simps)
qed

lemma hex_width_bound: "v < 16 ^ hex_width v"
proof -
  have "hex_shift v \<le> hex_width v" by (simp add: hex_width_def Let_def)
  then have "(16 :: nat) ^ hex_shift v \<le> 16 ^ hex_width v" by (simp add: power_increasing)
  then show ?thesis using hex_shift_bound [of v] by linarith
qed

text \<open>Appending a number in hexadecimal to a well-formed buffer appends an even, positive
  number of digits whose value is the number, and keeps the buffer well-formed.\<close>

theorem buffer_append_long_hex_value:
  fixes u :: uninit and val :: int64
  assumes "buffer_ok b"
  defines "b' \<equiv> snd (buffer_append_long_hex u val b)"
  shows "\<exists>ds. buffer_ok b' \<and> text_of b' = text_of b @ ds \<and> hex_number ds = unat val \<and>
    even (length ds) \<and> ds \<noteq> []"
proof -
  let ?ds = "hex_out val (hex_width (unat val))"
  have "length ?ds + 1 \<le> hex_width (unat val) + 1" by simp
  note p = put_text(2,3) [OF assms(1) this, of u]
  have "hex_number ?ds = unat val"
    using hex_fold [of 0 val] hex_width_bound [of "unat val"] by (simp add: hex_number_def)
  moreover have width: "even (hex_width (unat val))" "0 < hex_width (unat val)"
    by (auto simp: hex_width_def Let_def)
  moreover have "?ds \<noteq> []" using width(2) length_hex_out by (metis list.size(3) less_irrefl)
  moreover have "buffer_ok b'" "text_of b' = text_of b @ ?ds"
    using p by (simp_all add: b'_def buffer_append_long_hex_def Let_def store_at_used)
  ultimately show ?thesis by (intro exI [of _ ?ds]) simp
qed

theorem buffer_append_long_hex_value_witness:
  "\<exists>ds. text_of (snd (buffer_append_long_hex (\<lambda>_. 0) 4660 buffer_init)) = ds \<and> hex_number ds = 4660"
  using buffer_append_long_hex_value [OF buffer_init_ok(1), where u = "\<lambda>_. 0" and val = 4660] by auto

section \<open>The contract\<close>

text \<open>What the clients of a buffer rely on: an operation that appends what its argument denotes.\<close>

locale text_builder =
  fixes ok :: "'b \<Rightarrow> bool" and text_in :: "'b \<Rightarrow> byte list"
    and append :: "'a \<Rightarrow> 'b \<Rightarrow> 'b" and ok_arg :: "'a \<Rightarrow> bool" and denotes :: "'a \<Rightarrow> byte list"
  assumes keeps_ok: "ok b \<Longrightarrow> ok_arg a \<Longrightarrow> ok (append a b)"
    and appends: "ok b \<Longrightarrow> ok_arg a \<Longrightarrow> text_in (append a b) = text_in b @ denotes a"
begin

lemma fold_ok: "ok b \<Longrightarrow> \<forall>a\<in>set as. ok_arg a \<Longrightarrow> ok (fold append as b)"
  by (induction as arbitrary: b) (simp_all add: keeps_ok)

lemma fold_appends:
  "ok b \<Longrightarrow> \<forall>a\<in>set as. ok_arg a \<Longrightarrow> text_in (fold append as b) = text_in b @ concat (map denotes as)"
  by (induction as arbitrary: b) (simp_all add: keeps_ok appends)

end

definition append_piece :: "uninit \<Rightarrow> byte list \<Rightarrow> core_buffer \<Rightarrow> core_buffer" where
  "append_piece u s b = snd (buffer_append_string_len u (Some s) b)"

lemma append_piece_used: "buffer_ok b \<Longrightarrow> cb_used b \<le> cb_used (append_piece u s b)"
  using prepare_append_ok(2) [of b "length s + 1" u]
  by (simp add: append_piece_def buffer_append_string_len_def Let_def start_text_def)

lemma text_used: "buffer_ok b \<Longrightarrow> 0 < cb_used b \<Longrightarrow> cb_used b = length (text_of b) + 1"
  unfolding buffer_ok_def text_of_def length_take by linarith

interpretation pieces: text_builder buffer_ok text_of "append_piece u" "\<lambda>_. True" "\<lambda>s. s" for u
  by unfold_locales (simp_all add: append_piece_def buffer_append_string_len_text)

interpretation buffers: text_builder buffer_ok text_of
  "\<lambda>a b. snd (buffer_append_string_buffer u (Some a) b)" buffer_ok text_of for u
  by unfold_locales (simp_all add: buffer_append_string_buffer_text)

interpretation numbers: text_builder buffer_ok text_of "\<lambda>val b. snd (buffer_append_long u val b)"
  "\<lambda>val. sint val \<noteq> - (2 ^ 63)" "\<lambda>val. decimal (sint val)" for u
  by unfold_locales (simp_all add: buffer_append_long_text)

text \<open>Two well-formed buffers of texts without a zero are reported equal exactly when their texts
  are; a zero inside hides what follows it.\<close>

lemma buffer_is_equal_text:
  assumes "buffer_ok a" "buffer_ok b" "0 \<notin> set (text_of a)" "0 \<notin> set (text_of b)"
    and "0 < cb_used a" "0 < cb_used b"
  shows "buffer_is_equal a b \<longleftrightarrow> text_of a = text_of b"
proof -
  have shape: "c_string (cb_ptr d) = text_of d \<and> length (text_of d) + 1 = cb_used d"
    if "buffer_ok d" "0 \<notin> set (text_of d)" "0 < cb_used d" for d
  proof -
    have "cb_used d - 1 < length (cb_ptr d)" using that by (auto simp: buffer_ok_def)
    then have "cb_ptr d = text_of d @ 0 # drop (cb_used d) (cb_ptr d)" "length (text_of d) + 1 = cb_used d"
      using that id_take_nth_drop [of "cb_used d - 1" "cb_ptr d"] by (auto simp: buffer_ok_def text_of_def)
    then show ?thesis using that(2) by (metis c_string_append_nul)
  qed
  show ?thesis
    using shape [OF assms(1,3,5)] shape [OF assms(2,4,6)] assms(5)
    by (auto simp: buffer_is_equal_def)
qed

end
