(* ===== verification/CoreNetwork.thy ===== *)
theory CoreNetwork
  imports CoreBuffer
begin

text \<open>
  Receiving in the server core, \<^verbatim>\<open>src/server/chat/core/network.c\<close> (the same file serves the robot
  server): the bytes of a connection are read into blocks of 4096 bytes, cut into packets by the
  length that starts each packet, and queued for the thread pool, whose worker (\<^verbatim>\<open>sys_trun\<close> of
  \<^verbatim>\<open>thread.c\<close>) hands them to the plugins.  One connection is modelled, with the blocks it owns.
  Blocks are numbered and carry their reference count; a freed block is no longer in the heap.
  Memory is always granted.  An access outside a block or to something freed is recorded in
  \<open>faults\<close>.  The assertions are compiled out (\<^verbatim>\<open>NDEBUG\<close>).
\<close>

section \<open>State\<close>

record echo_block =
  bk_address :: "byte list"
  bk_length :: nat
  bk_refcount :: int

text \<open>The union of \<^verbatim>\<open>struct echo_packet\<close> with its \<^verbatim>\<open>block_count\<close>: nothing, one block with offset and
  length, or a list of blocks with \<^verbatim>\<open>head_position\<close> and \<^verbatim>\<open>tail_offset\<close>.\<close>

datatype packet_blocks =
    NoBlocks
  | OneBlock nat nat nat
  | Blocks "nat list" nat nat

datatype connect_type = ACCEPT | CONNECT | OTHER

datatype packet_state = STATE_NEW | STATE_READ_HEADER | STATE_READ_PAY_LOAD

record packet_buffer =
  pb_buf :: core_buffer
  pb_sock :: int32
  pb_type :: connect_type

datatype net_fault = OutsideBlock | FreedBlock | FreedPacket | FreedConnection

datatype close_call = ConnectionClose int32 | ConnectionCloseSrv int32

record psock_conn =
  psc_sock :: int32
  psc_type :: connect_type
  psc_refcount :: int
  psc_closing :: bool
  psc_rx_started :: bool
  psc_rx_ready :: bool
  psc_rx_scheduled :: bool
  psc_rx_state :: packet_state
  psc_rx_nob_left :: int32
  psc_rx_nob_wanted :: int32
  psc_rx_size :: int32
  psc_rx_buffer :: "nat \<times> nat"

record echo_conn =
  ec_block :: "nat option"
  ec_prev_packet_offset :: nat
  ec_offset :: nat
  ec_packet :: "packet_blocks option"

text \<open>\<open>tasks\<close> is the queue of the thread pool, \<open>closes\<close> the calls of the plugins' close handlers.\<close>

record net =
  blocks :: "nat \<Rightarrow> echo_block option"
  next_block :: nat
  psc :: psock_conn
  echo :: echo_conn
  conn_freed :: bool
  tasks :: "packet_buffer list"
  closes :: "close_call list"
  faults :: "net_fault set"

text \<open>What is not determined: fresh memory, the length read from a freed block, a result never set.\<close>

record net_env =
  ne_uninit :: uninit
  ne_freed_length :: nat
  ne_unset_rc :: int

definition EAGAIN :: int where "EAGAIN = 11"
definition EPROTO :: int where "EPROTO = 71"
definition ESHUTDOWN :: int where "ESHUTDOWN = 108"

definition net_fail :: "net_fault \<Rightarrow> net \<Rightarrow> net" where
  "net_fail f n = n\<lparr>faults := insert f (faults n)\<rparr>"

section \<open>Blocks\<close>

definition echo_block_alloc :: "net \<Rightarrow> nat \<times> net" where
  "echo_block_alloc n =
     (next_block n,
      n\<lparr>blocks := (blocks n)(next_block n \<mapsto>
           \<lparr>bk_address = replicate 4096 0, bk_length = 4096, bk_refcount = 0\<rparr>),
        next_block := next_block n + 1\<rparr>)"

definition echo_block_addref :: "nat \<Rightarrow> net \<Rightarrow> net" where
  "echo_block_addref i n = (case blocks n i of
       None \<Rightarrow> net_fail FreedBlock n
     | Some b \<Rightarrow> n\<lparr>blocks := (blocks n)(i \<mapsto> b\<lparr>bk_refcount := bk_refcount b + 1\<rparr>)\<rparr>)"

definition echo_block_free :: "nat \<Rightarrow> net \<Rightarrow> net" where
  "echo_block_free i n = n\<lparr>blocks := (blocks n)(i := None)\<rparr>"

definition echo_block_decref :: "nat \<Rightarrow> net \<Rightarrow> net" where
  "echo_block_decref i n = (case blocks n i of
       None \<Rightarrow> net_fail FreedBlock n
     | Some b \<Rightarrow>
         let r = bk_refcount b - 1; n = n\<lparr>blocks := (blocks n)(i \<mapsto> b\<lparr>bk_refcount := r\<rparr>)\<rparr>
         in if r = 0 then echo_block_free i n else n)"

text \<open>Reading a field of a block that may be gone.\<close>

definition block_length :: "net_env \<Rightarrow> nat \<Rightarrow> net \<Rightarrow> nat \<times> net" where
  "block_length E i n = (case blocks n i of
       None \<Rightarrow> (ne_freed_length E, net_fail FreedBlock n)
     | Some b \<Rightarrow> (bk_length b, n))"

definition read_block :: "nat \<Rightarrow> nat \<Rightarrow> nat \<Rightarrow> net \<Rightarrow> byte list \<times> net" where
  "read_block i off len n = (case blocks n i of
       None \<Rightarrow> (replicate len 0, net_fail FreedBlock n)
     | Some b \<Rightarrow>
         if off + len \<le> length (bk_address b) then (take len (drop off (bk_address b)), n)
         else (replicate len 0, net_fail OutsideBlock n))"

definition write_block :: "nat \<Rightarrow> nat \<Rightarrow> byte list \<Rightarrow> net \<Rightarrow> net" where
  "write_block i off bs n = (case blocks n i of
       None \<Rightarrow> net_fail FreedBlock n
     | Some b \<Rightarrow>
         if off + length bs \<le> length (bk_address b)
         then n\<lparr>blocks := (blocks n)(i \<mapsto> b\<lparr>bk_address :=
                take off (bk_address b) @ bs @ drop (off + length bs) (bk_address b)\<rparr>)\<rparr>
         else net_fail OutsideBlock n)"

definition block_add_tail :: "nat \<Rightarrow> nat \<Rightarrow> nat \<Rightarrow> packet_blocks \<Rightarrow> net \<Rightarrow> packet_blocks \<times> net" where
  "block_add_tail block offset len packet n =
     (let packet = (case packet of
          NoBlocks \<Rightarrow> OneBlock block offset len
        | OneBlock first first_offset l \<Rightarrow> Blocks [first, block] first_offset (offset + len)
        | Blocks bs head tail \<Rightarrow> Blocks (bs @ [block]) head (offset + len))
      in (packet, echo_block_addref block n))"

section \<open>A complete packet\<close>

text \<open>Copying the blocks of a packet into one buffer: the first from its head position, the last up
  to its tail, the others whole.\<close>

primrec append_blocks ::
  "net_env \<Rightarrow> bool \<Rightarrow> nat list \<Rightarrow> nat \<Rightarrow> nat \<Rightarrow> core_buffer \<Rightarrow> net \<Rightarrow> core_buffer \<times> net" where
  "append_blocks E first [] head tail buf n = (buf, n)"
| "append_blocks E first (i # is) head tail buf n =
     (let (len, n) = block_length E i n;
        (s, n) = (if first then read_block i head (len - head) n
                  else if is \<noteq> [] then read_block i 0 len n
                  else read_block i 0 tail n);
        buf = append_piece (ne_uninit E) s buf
      in append_blocks E False is head tail buf (echo_block_decref i n))"

definition echo_handle_packet :: "net_env \<Rightarrow> packet_blocks \<Rightarrow> net \<Rightarrow> net" where
  "echo_handle_packet E packet n =
     (let buf = buffer_init_string (ne_uninit E) (Some [0]);
        (buf, n) = (case packet of
            OneBlock i off len \<Rightarrow>
              (let (s, n) = read_block i off len n
               in (append_piece (ne_uninit E) s buf, echo_block_decref i n))
          | Blocks is head tail \<Rightarrow> append_blocks E True is head tail buf n
          | NoBlocks \<Rightarrow> (buf, n))
      in n\<lparr>tasks := tasks n @ [\<lparr>pb_buf = buf, pb_sock = psc_sock (psc n), pb_type = psc_type (psc n)\<rparr>]\<rparr>)"

section \<open>Receiving\<close>

definition set_psc :: "(psock_conn \<Rightarrow> psock_conn) \<Rightarrow> net \<Rightarrow> net" where
  "set_psc f n = n\<lparr>psc := f (psc n)\<rparr>"

definition set_echo :: "(echo_conn \<Rightarrow> echo_conn) \<Rightarrow> net \<Rightarrow> net" where
  "set_echo f n = n\<lparr>echo := f (echo n)\<rparr>"

text \<open>The block of the connection, made when there is none.\<close>

definition post_block :: "net \<Rightarrow> nat \<times> net" where
  "post_block n = (case ec_block (echo n) of
       Some i \<Rightarrow> (i, n)
     | None \<Rightarrow>
         let (i, n) = echo_block_alloc n;
           n = set_echo (\<lambda>e. e\<lparr>ec_block := Some i\<rparr>) n
         in (i, echo_block_addref i n))"

definition post_size :: "nat \<Rightarrow> nat \<Rightarrow> psock_conn \<Rightarrow> int32" where
  "post_size len off c = (case psc_rx_state c of
       STATE_NEW \<Rightarrow> psc_rx_nob_left c
     | STATE_READ_HEADER \<Rightarrow>
         if int len - int off \<le> sint (psc_rx_nob_left c) then of_int (int len - int off)
         else psc_rx_nob_left c
     | STATE_READ_PAY_LOAD \<Rightarrow> psc_rx_size c)"

definition echo_post_recv :: "net_env \<Rightarrow> int \<Rightarrow> net \<Rightarrow> int \<times> net" where
  "echo_post_recv E status n =
     (let (i, n) = post_block n;
        off = ec_offset (echo n);
        (len, n) = block_length E i n
      in (status, set_psc (\<lambda>c. c\<lparr>psc_rx_size := post_size len off c, psc_rx_buffer := (i, off)\<rparr>) n))"

text \<open>The end of a packet: the rest of the current block joins it, it is handed on, and a block
  without room for another length is given up.\<close>

definition echo_complete :: "net_env \<Rightarrow> nat \<Rightarrow> packet_blocks \<Rightarrow> net \<Rightarrow> net" where
  "echo_complete E block packet n =
     (let prev = ec_prev_packet_offset (echo n);
        len = ec_offset (echo n) - prev;
        (packet, n) = block_add_tail block prev len packet n;
        n = set_echo (\<lambda>e. e\<lparr>ec_prev_packet_offset := prev + len, ec_packet := None\<rparr>) n;
        n = echo_handle_packet E packet n;
        n = set_psc (\<lambda>c. c\<lparr>psc_rx_state := STATE_NEW, psc_rx_nob_wanted := 4, psc_rx_nob_left := 4\<rparr>) n;
        (size, n) = block_length E block n
      in if size < ec_offset (echo n) + 4
         then let n = set_echo (\<lambda>e. e\<lparr>ec_prev_packet_offset := 0, ec_offset := 0\<rparr>) n;
             n = echo_block_decref block n
           in set_echo (\<lambda>e. e\<lparr>ec_block := None\<rparr>) n
         else n)"

text \<open>A full block joins the packet that goes on in the next one.  \<open>packet\<close> is None when the packet
  has just been handed on, and freed.\<close>

definition echo_block_full :: "net_env \<Rightarrow> nat \<Rightarrow> packet_blocks option \<Rightarrow> int \<Rightarrow> net \<Rightarrow> int \<times> net" where
  "echo_block_full E block packet status n =
     (let (size, n) = block_length E block n
      in if ec_offset (echo n) = size
         then let prev = ec_prev_packet_offset (echo n);
             n = (case packet of
                 None \<Rightarrow> net_fail FreedPacket n
               | Some pk \<Rightarrow>
                   let (pk, n) = block_add_tail block prev (size - prev) pk n
                   in set_echo (\<lambda>e. e\<lparr>ec_packet := Some pk\<rparr>) n);
             n = set_echo (\<lambda>e. e\<lparr>ec_prev_packet_offset := 0, ec_offset := 0\<rparr>) n;
             n = echo_block_decref block n
           in (- EAGAIN, set_echo (\<lambda>e. e\<lparr>ec_block := None\<rparr>) n)
         else (status, n))"

text \<open>One pass of the loop; \<open>len\<close> is the number of bytes received.  The result says which packet,
  if any, is still under way.\<close>

definition echo_parse :: "net_env \<Rightarrow> nat \<Rightarrow> packet_blocks \<Rightarrow> nat \<Rightarrow> net \<Rightarrow> int \<times> packet_blocks option \<times> net" where
  "echo_parse E block packet len n =
     (let c = psc n in
      if len = 0 then (0, Some packet, n)
      else if of_nat len \<noteq> psc_rx_size c \<and> psc_rx_state c = STATE_NEW
      then (- EAGAIN, Some packet, set_psc (\<lambda>c. c\<lparr>psc_rx_nob_left := psc_rx_size c - of_nat len\<rparr>) n)
      else if psc_rx_state c = STATE_NEW
      then let (bs, n) = read_block block (ec_prev_packet_offset (echo n)) 4 n;
          wanted = (le_word bs :: int32)
        in (0, Some packet, set_psc (\<lambda>c. c\<lparr>psc_rx_nob_wanted := wanted, psc_rx_nob_left := wanted - 4,
             psc_rx_state := STATE_READ_HEADER\<rparr>) n)
      else if psc_rx_state c = STATE_READ_HEADER
      then let n = set_psc (\<lambda>c. c\<lparr>psc_rx_nob_left := psc_rx_nob_left c - of_nat len\<rparr>) n
        in if psc_rx_nob_left (psc n) \<noteq> 0 then (0, Some packet, n)
           else (0, None, echo_complete E block packet n)
      else (0, Some packet, n))"

definition echo_forward :: "net_env \<Rightarrow> nat \<Rightarrow> net \<Rightarrow> int \<times> net" where
  "echo_forward E len n =
     (let block = the (ec_block (echo n));
        n = set_echo (\<lambda>e. e\<lparr>ec_offset := ec_offset e + len\<rparr>) n;
        packet = (case ec_packet (echo n) of None \<Rightarrow> NoBlocks | Some pk \<Rightarrow> pk);
        n = set_echo (\<lambda>e. e\<lparr>ec_packet := Some packet\<rparr>) n;
        (status, packet, n) = echo_parse E block packet len n;
        (status, n) = echo_block_full E block packet status n
      in echo_post_recv E status n)"

section \<open>The socket\<close>

text \<open>What is still to come from the peer: segments of bytes, its end of the stream, an error.  A
  \<^verbatim>\<open>recv\<close> takes at most what it is asked for, from the first segment; without any it would block.
  The cutting of the stream is arbitrary, so any sequence of short reads is one of these.\<close>

datatype arrival = Segment "byte list" | PeerClosed | Failed nat

datatype received = Got "byte list" | Errno nat

fun recv :: "nat \<Rightarrow> arrival list \<Rightarrow> received \<times> arrival list" where
  "recv want [] = (Errno 11, [])"
| "recv want (PeerClosed # as) = (Got [], PeerClosed # as)"
| "recv want (Failed e # as) = (Errno e, as)"
| "recv want (Segment bs # as) =
     (if want = 0 then (Got [], Segment bs # as)
      else if bs = [] then recv want as
      else if want < length bs then (Got (take want bs), Segment (drop want bs) # as)
      else (Got bs, as))"

text \<open>The size is passed as a \<^verbatim>\<open>size_t\<close>.\<close>

definition requested :: "net \<Rightarrow> nat" where
  "requested n = unat (scast (psc_rx_size (psc n)) :: int64)"

definition sockbase_receive :: "arrival list \<Rightarrow> net \<Rightarrow> int \<times> arrival list \<times> net" where
  "sockbase_receive as n = (case recv (requested n) as of
       (Got bs, as) \<Rightarrow>
         if bs \<noteq> []
         then let n = set_psc (\<lambda>c. c\<lparr>psc_rx_started := True\<rparr>) n;
             (i, off) = psc_rx_buffer (psc n)
           in (int (length bs), as, write_block i off bs n)
         else (if psc_rx_started (psc n) then - EPROTO else 0, as, n)
     | (Errno e, as) \<Rightarrow> (- int e, as, n))"

text \<open>The last reference closes: the plugin is told, block and packet of the connection are freed,
  the blocks of an unfinished packet are not.\<close>

definition echo_conn_free :: "net \<Rightarrow> net" where
  "echo_conn_free n =
     (case ec_block (echo n) of None \<Rightarrow> n | Some i \<Rightarrow> echo_block_decref i n)"

definition destroy_sock_conn :: "net \<Rightarrow> net" where
  "destroy_sock_conn n = (echo_conn_free n)\<lparr>conn_freed := True\<rparr>"

definition touch_conn :: "net \<Rightarrow> net" where
  "touch_conn n = (if conn_freed n then net_fail FreedConnection n else n)"

definition sock_conn_decref :: "net \<Rightarrow> net" where
  "sock_conn_decref n =
     (let n = touch_conn n;
        r = psc_refcount (psc n) - 1;
        n = set_psc (\<lambda>c. c\<lparr>psc_refcount := r\<rparr>) n
      in if r = 0
         then destroy_sock_conn (n\<lparr>closes := closes n @
                [if psc_type (psc n) = ACCEPT then ConnectionClose (psc_sock (psc n))
                 else ConnectionCloseSrv (psc_sock (psc n))]\<rparr>)
         else n)"

definition sock_conn_addref :: "net \<Rightarrow> net" where
  "sock_conn_addref n = set_psc (\<lambda>c. c\<lparr>psc_refcount := psc_refcount c + 1\<rparr>) n"

fun weight :: "arrival list \<Rightarrow> nat" where
  "weight [] = 0"
| "weight (Segment bs # as) = length bs + 1 + weight as"
| "weight (PeerClosed # as) = 1 + weight as"
| "weight (Failed e # as) = 1 + weight as"

lemma recv_weight: "recv want as = (Got bs, as') \<Longrightarrow> bs \<noteq> [] \<Longrightarrow> weight as' < weight as"
  by (induction want as rule: recv.induct) (auto split: if_splits)

lemma sockbase_receive_weight:
  "sockbase_receive as n = (rc, as', n') \<Longrightarrow> 0 < rc \<Longrightarrow> weight as' < weight as"
  using recv_weight [of "requested n" as]
  by (auto simp: sockbase_receive_def EPROTO_def Let_def split: prod.splits received.splits if_splits)

text \<open>Reading until a result other than "again".  Both kinds of end drop two references.\<close>

function sockbase_process_receive :: "net_env \<Rightarrow> arrival list \<Rightarrow> net \<Rightarrow> int \<times> arrival list \<times> net" where
  "sockbase_process_receive E as n =
     (if psc_rx_nob_wanted (psc n) = 0 then (ne_unset_rc E, as, n)
      else case sockbase_receive as n of (rc, as', n) \<Rightarrow>
        if rc \<le> 0
        then if rc = - EAGAIN then (- EAGAIN, as', n)
             else let n = (if rc = 0 then sock_conn_decref n
                           else if \<not> psc_closing (psc n) then sock_conn_decref n else n);
                 n = sock_conn_decref n
               in (if rc = 0 then - ESHUTDOWN else rc, as', n)
        else case echo_forward E (nat rc) n of (rc, n) \<Rightarrow>
          if rc = - EAGAIN then sockbase_process_receive E as' n else (rc, as', n))"
  by pat_completeness auto
termination
  by (relation "measure (\<lambda>(E, as, n). weight as)") (auto intro: sockbase_receive_weight [OF sym])

declare sockbase_process_receive.simps [simp del]

text \<open>The scheduler turns the connection round as long as there is something to do: with fuel, as
  it need not stop.  Nothing is ever put on the list of connections to write.\<close>

fun sockbase_schedule :: "nat \<Rightarrow> net_env \<Rightarrow> arrival list \<Rightarrow> net \<Rightarrow> (arrival list \<times> net) option" where
  "sockbase_schedule 0 E as n = None"
| "sockbase_schedule (Suc fuel) E as n =
     (let n = set_psc (\<lambda>c. c\<lparr>psc_rx_ready := False\<rparr>) n;
        (rc, as, n) = sockbase_process_receive E as n;
        n = touch_conn n;
        n = (if rc = 0 then set_psc (\<lambda>c. c\<lparr>psc_rx_ready := True\<rparr>) n else n)
      in if psc_rx_ready (psc n) then sockbase_schedule fuel E as n
         else Some (as, sock_conn_decref (set_psc (\<lambda>c. c\<lparr>psc_rx_scheduled := False\<rparr>) n)))"

definition server_read_buffer :: "nat \<Rightarrow> net_env \<Rightarrow> arrival list \<Rightarrow> net \<Rightarrow> (arrival list \<times> net) option" where
  "server_read_buffer fuel E as n =
     (let n = set_psc (\<lambda>c. c\<lparr>psc_rx_ready := True\<rparr>) n;
        n = (if psc_rx_scheduled (psc n) then n
             else sock_conn_addref (set_psc (\<lambda>c. c\<lparr>psc_rx_scheduled := True\<rparr>) n))
      in sockbase_schedule fuel E as n)"

text \<open>A connection just accepted, or just made.\<close>

definition create_sock_conn :: psock_conn where
  "create_sock_conn = \<lparr>psc_sock = - 1, psc_type = ACCEPT, psc_refcount = 1, psc_closing = False,
     psc_rx_started = False, psc_rx_ready = False, psc_rx_scheduled = False, psc_rx_state = STATE_NEW,
     psc_rx_nob_left = 0, psc_rx_nob_wanted = 0, psc_rx_size = 0, psc_rx_buffer = (0, 0)\<rparr>"

definition echo_conn_alloc :: echo_conn where
  "echo_conn_alloc = \<lparr>ec_block = None, ec_prev_packet_offset = 0, ec_offset = 0, ec_packet = None\<rparr>"

definition new_connection :: "net_env \<Rightarrow> connect_type \<Rightarrow> int32 \<Rightarrow> net" where
  "new_connection E type sock =
     snd (echo_post_recv E 0 \<lparr>blocks = (\<lambda>_. None), next_block = 0,
       psc = create_sock_conn\<lparr>psc_sock := sock, psc_type := type, psc_rx_nob_left := 4,
         psc_rx_nob_wanted := 4, psc_rx_state := STATE_NEW\<rparr>,
       echo = echo_conn_alloc, conn_freed = False, tasks = [], closes = [], faults = {}\<rparr>)"

section \<open>The worker\<close>

text \<open>Which plugin entry a packet goes to, and with which bytes: the length passed is \<^verbatim>\<open>used-1\<close>, and
  that many bytes are there to be read.\<close>

datatype plugin_call =
    HandlerRead int32 "byte list" int
  | HandlerReadSrv int32 "byte list" int
  | HandlerReadOther int32 "byte list" int

definition sys_trun :: "packet_buffer \<Rightarrow> plugin_call" where
  "sys_trun p =
     (let data = text_of (pb_buf p); len = int (cb_used (pb_buf p)) - 1
      in case pb_type p of
          ACCEPT \<Rightarrow> HandlerRead (pb_sock p) data len
        | CONNECT \<Rightarrow> HandlerReadSrv (pb_sock p) data len
        | OTHER \<Rightarrow> HandlerReadOther (pb_sock p) data len)"

end
