(* ===== verification/CoreReceive.thy ===== *)
theory CoreReceive
  imports CoreNetwork
begin

text \<open>
  One read of \<^verbatim>\<open>src/server/chat/core/network.c\<close>: the invariant \<open>rx_inv\<close> says how the bytes of the packet
  under way lie in the blocks, which blocks there are, and how many bytes are asked for next; a
  read keeps it, and completes a packet exactly when its last byte has come.
\<close>

section \<open>The blocks of a packet\<close>

declare fun_upd_apply [simp del] fun_upd_same [simp] fun_upd_other [simp]

type_synonym heap = "nat \<Rightarrow> echo_block option"

definition block_at :: "heap \<Rightarrow> nat \<Rightarrow> byte list \<Rightarrow> bool" where
  "block_at h i bs \<longleftrightarrow>
     h i = Some \<lparr>bk_address = bs, bk_length = 4096, bk_refcount = 1\<rparr> \<and> length bs = 4096"

primrec packet_ids :: "packet_blocks \<Rightarrow> nat list" where
  "packet_ids NoBlocks = []"
| "packet_ids (OneBlock i off len) = [i]"
| "packet_ids (Blocks is head tail) = is"

primrec packet_start :: "packet_blocks \<Rightarrow> nat" where
  "packet_start NoBlocks = 0"
| "packet_start (OneBlock i off len) = off"
| "packet_start (Blocks is head tail) = head"

text \<open>A packet under way consists of blocks read to their end.\<close>

primrec packet_full :: "packet_blocks \<Rightarrow> bool" where
  "packet_full NoBlocks = True"
| "packet_full (OneBlock i off len) = (off + len = 4096)"
| "packet_full (Blocks is head tail) = (2 \<le> length is \<and> tail = 4096 \<and> head \<le> 4096)"

definition holds :: "heap \<Rightarrow> packet_blocks \<Rightarrow> byte list list \<Rightarrow> bool" where
  "holds h pk bss \<longleftrightarrow> packet_full pk \<and> distinct (packet_ids pk) \<and> list_all2 (block_at h) (packet_ids pk) bss"

lemma block_at_upd [simp]: "i \<noteq> j \<Longrightarrow> block_at (h(j := x)) i bs = block_at h i bs"
  by (simp add: block_at_def)

lemma block_at_length: "block_at h i bs \<Longrightarrow> length bs = 4096"
  by (simp add: block_at_def)

lemma blocks_at_upd: "j \<notin> set is \<Longrightarrow> list_all2 (block_at (h(j := x))) is bss = list_all2 (block_at h) is bss"
  by (induction "is" arbitrary: bss) (auto simp: list_all2_Cons1)

lemma holds_upd: "j \<notin> set (packet_ids pk) \<Longrightarrow> holds (h(j := x)) pk bss = holds h pk bss"
  by (simp add: holds_def blocks_at_upd)

lemma packet_start_le: "packet_full pk \<Longrightarrow> packet_start pk \<le> 4096"
  by (cases pk) auto

definition freed :: "nat list \<Rightarrow> heap \<Rightarrow> heap" where
  "freed is h = (\<lambda>i. if i \<in> set is then None else h i)"

lemma freed_simps [simp]: "freed [] h = h" "freed (i # is) h = freed is (h(i := None))"
  by (auto simp: freed_def)

lemma decref_last: "blocks n i = Some \<lparr>bk_address = bs, bk_length = l, bk_refcount = 1\<rparr> \<Longrightarrow>
  echo_block_decref i n = n\<lparr>blocks := (blocks n)(i := None)\<rparr>"
  by (simp add: echo_block_decref_def echo_block_free_def)

lemma decref_two: "blocks n i = Some \<lparr>bk_address = bs, bk_length = l, bk_refcount = 2\<rparr> \<Longrightarrow>
  echo_block_decref i n = n\<lparr>blocks := (blocks n)(i \<mapsto> \<lparr>bk_address = bs, bk_length = l, bk_refcount = 1\<rparr>)\<rparr>"
  by (simp add: echo_block_decref_def)

text \<open>The last block of a complete packet still belongs to the connection, too.\<close>

definition shared_at :: "heap \<Rightarrow> nat \<Rightarrow> byte list \<Rightarrow> bool" where
  "shared_at h i bs \<longleftrightarrow>
     h i = Some \<lparr>bk_address = bs, bk_length = 4096, bk_refcount = 2\<rparr> \<and> length bs = 4096"

definition text_ok :: "core_buffer \<Rightarrow> bool" where
  "text_ok b \<longleftrightarrow> buffer_ok b \<and> 0 < cb_used b"

lemma text_ok_append [simp]:
  "text_ok b \<Longrightarrow> text_ok (append_piece u s b)" "text_ok b \<Longrightarrow> text_of (append_piece u s b) = text_of b @ s"
  using append_piece_used [of b u s] pieces.keeps_ok [of b u s] pieces.appends [of b u s]
  by (auto simp: text_ok_def)

lemma append_blocks_last:
  assumes "shared_at (blocks n) b bs" "tail \<le> 4096"
  shows "append_blocks E False [b] head tail buf n = (append_piece (ne_uninit E) (take tail bs) buf,
    n\<lparr>blocks := (blocks n)(b \<mapsto> \<lparr>bk_address = bs, bk_length = 4096, bk_refcount = 1\<rparr>)\<rparr>)"
  using assms by (simp add: shared_at_def block_length_def read_block_def decref_two)

lemma append_blocks_step:
  assumes "block_at (blocks n) i bs" "first \<longrightarrow> head \<le> 4096" "is \<noteq> []"
  shows "append_blocks E first (i # is) head tail buf n = append_blocks E False is head tail
    (append_piece (ne_uninit E) (if first then drop head bs else bs) buf) (n\<lparr>blocks := (blocks n)(i := None)\<rparr>)"
  using assms by (auto simp: block_at_def block_length_def read_block_def decref_last)

lemma append_blocks_text:
  assumes "list_all2 (block_at (blocks n)) is bss" "shared_at (blocks n) b bs" "distinct (is @ [b])"
    and "first \<longrightarrow> is \<noteq> [] \<and> head \<le> 4096" "tail \<le> 4096" "text_ok buf"
  shows "\<exists>buf'. append_blocks E first (is @ [b]) head tail buf n =
      (buf', n\<lparr>blocks := (freed is (blocks n))(b \<mapsto> \<lparr>bk_address = bs, bk_length = 4096, bk_refcount = 1\<rparr>)\<rparr>) \<and>
    text_ok buf' \<and> text_of buf' = text_of buf @ (if first then drop head (concat bss) else concat bss) @ take tail bs"
  using assms
proof (induction "is" arbitrary: n bss first buf)
  case Nil
  let ?buf = "append_piece (ne_uninit E) (take tail bs) buf"
  have b: "bss = []" "\<not> first" using Nil(1,4) by simp_all
  have "append_blocks E first ([] @ [b]) head tail buf n = (?buf,
      n\<lparr>blocks := (freed [] (blocks n))(b \<mapsto> \<lparr>bk_address = bs, bk_length = 4096, bk_refcount = 1\<rparr>)\<rparr>)"
    unfolding freed_simps using append_blocks_last [OF Nil(2,5)] b(2) by (simp only: append_Nil)
  moreover have "text_of ?buf = text_of buf @ (if first then drop head (concat bss) else concat bss) @ take tail bs"
    using text_ok_append [OF Nil(6)] b by simp
  moreover have "text_ok ?buf" using text_ok_append [OF Nil(6)] by simp
  ultimately show ?case by (intro exI [of _ ?buf] conjI)
next
  case (Cons i "is")
  obtain bs1 bss' where bss: "bss = bs1 # bss'" "block_at (blocks n) i bs1" "list_all2 (block_at (blocks n)) is bss'"
    using Cons.prems(1) by (auto simp: list_all2_Cons1)
  let ?n = "n\<lparr>blocks := (blocks n)(i := None)\<rparr>"
  let ?buf = "append_piece (ne_uninit E) (if first then drop head bs1 else bs1) buf"
  have step: "append_blocks E first ((i # is) @ [b]) head tail buf n = append_blocks E False (is @ [b]) head tail ?buf ?n"
    using append_blocks_step [OF bss(2), of first head "is @ [b]"] Cons.prems(4) by simp
  have "list_all2 (block_at (blocks ?n)) is bss'" using bss(3) Cons.prems(3) by (simp add: blocks_at_upd)
  moreover have "shared_at (blocks ?n) b bs" "text_ok ?buf" using Cons.prems by (auto simp: shared_at_def)
  ultimately obtain buf' where IH: "append_blocks E False (is @ [b]) head tail ?buf ?n =
      (buf', ?n\<lparr>blocks := (freed is (blocks ?n))(b \<mapsto> \<lparr>bk_address = bs, bk_length = 4096, bk_refcount = 1\<rparr>)\<rparr>)"
      "text_ok buf'" "text_of buf' = text_of ?buf @ concat bss' @ take tail bs"
    using Cons.IH [of ?n bss' False ?buf] Cons.prems by auto
  have "text_of ?buf = text_of buf @ (if first then drop head bs1 else bs1)" using Cons.prems(6) by simp
  moreover have "first \<longrightarrow> drop head (bs1 @ concat bss') = drop head bs1 @ concat bss'"
    using Cons.prems(4) block_at_length [OF bss(2)] by simp
  ultimately show ?case using IH step bss(1) by (intro exI [of _ buf'] conjI) auto
qed

text \<open>The connection's block, filled up to \<open>prev + len\<close>, ends a packet: the packet's text is handed
  on, its other blocks are freed, and the connection's block is as before.\<close>

lemma freed_upd: "b \<notin> set is \<Longrightarrow> blocks n b = Some x \<Longrightarrow> (freed is ((blocks n)(b := y)))(b \<mapsto> x) = freed is (blocks n)"
  by (auto simp: freed_def fun_eq_iff fun_upd_apply)

lemma addref_one: "block_at (blocks n) b bs \<Longrightarrow> echo_block_addref b n =
    n\<lparr>blocks := (blocks n)(b \<mapsto> \<lparr>bk_address = bs, bk_length = 4096, bk_refcount = 2\<rparr>)\<rparr>"
  by (simp add: echo_block_addref_def block_at_def)

definition task_of :: "net \<Rightarrow> core_buffer \<Rightarrow> packet_buffer" where
  "task_of n buf = \<lparr>pb_buf = buf, pb_sock = psc_sock (psc n), pb_type = psc_type (psc n)\<rparr>"

lemma fresh_text: "text_ok (buffer_init_string u (Some [0]))" "text_of (buffer_init_string u (Some [0])) = []"
  using buffer_init_string_text [of u "[0]"]
  by (auto simp: text_ok_def buffer_init_string_def buffer_copy_string_def Let_def c_string_def)

lemma handle_packet:
  assumes "holds (blocks n) pk bss" "block_at (blocks n) b bs" "b \<notin> set (packet_ids pk)"
    and "prev + len \<le> 4096" "packet_ids pk \<noteq> [] \<Longrightarrow> prev = 0"
  shows "\<exists>buf. text_ok buf \<and> text_of buf = drop (packet_start pk) (concat bss) @ take len (drop prev bs) \<and>
    (case block_add_tail b prev len pk n of (pk', n') \<Rightarrow> echo_handle_packet E pk' n') =
      n\<lparr>blocks := freed (packet_ids pk) (blocks n), tasks := tasks n @ [task_of n buf]\<rparr>"
proof -
  let ?two = "n\<lparr>blocks := (blocks n)(b \<mapsto> \<lparr>bk_address = bs, bk_length = 4096, bk_refcount = 2\<rparr>)\<rparr>"
  let ?start = "buffer_init_string (ne_uninit E) (Some [0])"
  have one: "blocks n b = Some \<lparr>bk_address = bs, bk_length = 4096, bk_refcount = 1\<rparr>" "length bs = 4096"
    using assms(2) by (simp_all add: block_at_def)
  have same: "(blocks n)(b \<mapsto> \<lparr>bk_address = bs, bk_length = 4096, bk_refcount = 1\<rparr>) = blocks n"
    using one(1) by (rule map_upd_triv)
  note add = addref_one [OF assms(2)]
  show ?thesis
  proof (cases "packet_ids pk = []")
    case True
    then have pk: "pk = NoBlocks" "bss = []"
      using assms(1) by (cases pk; simp add: holds_def)+
    let ?buf = "append_piece (ne_uninit E) (take len (drop prev bs)) ?start"
    show ?thesis
      using one assms(4) same text_ok_append [OF fresh_text(1)] fresh_text(2)
      by (intro exI [of _ ?buf]) (simp add: pk add block_add_tail_def echo_handle_packet_def read_block_def
          decref_two task_of_def)
  next
    case False
    then have prev: "prev = 0" by (rule assms(5))
    have pk': "block_add_tail b prev len pk n = (Blocks (packet_ids pk @ [b]) (packet_start pk) len, ?two)"
      using False prev by (cases pk) (simp_all add: block_add_tail_def add)
    have "list_all2 (block_at (blocks ?two)) (packet_ids pk) bss"
      using assms(1,3) by (simp add: holds_def blocks_at_upd)
    moreover have "shared_at (blocks ?two) b bs" using one by (simp add: shared_at_def)
    moreover have "distinct (packet_ids pk @ [b])" using assms(1,3) by (simp add: holds_def)
    moreover have "True \<longrightarrow> packet_ids pk \<noteq> [] \<and> packet_start pk \<le> 4096"
      using False assms(1) packet_start_le by (simp add: holds_def)
    moreover have "len \<le> 4096" using assms(4) by simp
    ultimately obtain buf where buf: "text_ok buf"
      "text_of buf = drop (packet_start pk) (concat bss) @ take len bs"
      "append_blocks E True (packet_ids pk @ [b]) (packet_start pk) len ?start ?two = (buf,
        ?two\<lparr>blocks := (freed (packet_ids pk) (blocks ?two))(b \<mapsto> \<lparr>bk_address = bs, bk_length = 4096, bk_refcount = 1\<rparr>)\<rparr>)"
      using append_blocks_text [of ?two "packet_ids pk" bss b bs True "packet_start pk" len ?start E]
        fresh_text by auto
    have "(freed (packet_ids pk) (blocks ?two))(b \<mapsto> \<lparr>bk_address = bs, bk_length = 4096, bk_refcount = 1\<rparr>) =
        freed (packet_ids pk) (blocks n)"
      using freed_upd [where n = n, OF assms(3) one(1)] by simp
    then show ?thesis
      using buf by (intro exI [of _ buf]) (simp add: prev pk' [unfolded prev] echo_handle_packet_def task_of_def)
  qed
qed

section \<open>The state between two reads\<close>

text \<open>\<open>cur\<close> are the bytes of the packet under way.\<close>

definition header :: "byte list \<Rightarrow> int32" where
  "header cur = le_word (take 4 cur)"

definition missing :: "byte list \<Rightarrow> nat" where
  "missing cur = (if length cur < 4 then 4 - length cur else nat (sint (header cur)) - length cur)"

definition owns :: "net \<Rightarrow> packet_blocks \<Rightarrow> byte list list \<Rightarrow> byte list \<Rightarrow> bool" where
  "owns n pk bss bs \<longleftrightarrow>
     holds (blocks n) pk bss \<and> (\<forall>i\<ge>next_block n. blocks n i = None) \<and>
     (packet_ids pk \<noteq> [] \<longrightarrow> ec_prev_packet_offset (echo n) = 0) \<and>
     ec_prev_packet_offset (echo n) \<le> ec_offset (echo n) \<and>
     (case ec_block (echo n) of
        None \<Rightarrow> ec_offset (echo n) = 0 \<and> dom (blocks n) = set (packet_ids pk)
      | Some b \<Rightarrow> block_at (blocks n) b bs \<and> b \<notin> set (packet_ids pk) \<and>
          dom (blocks n) = insert b (set (packet_ids pk)) \<and> ec_offset (echo n) \<le> 4096)"

definition pending :: "net \<Rightarrow> packet_blocks \<Rightarrow> byte list list \<Rightarrow> byte list \<Rightarrow> byte list" where
  "pending n pk bss bs = drop (packet_start pk) (concat bss) @
     take (ec_offset (echo n) - ec_prev_packet_offset (echo n)) (drop (ec_prev_packet_offset (echo n)) bs)"

definition state_ok :: "net \<Rightarrow> packet_blocks \<Rightarrow> byte list \<Rightarrow> bool" where
  "state_ok n pk cur \<longleftrightarrow> psc_rx_nob_left (psc n) = of_nat (missing cur) \<and>
     (if length cur < 4
      then psc_rx_state (psc n) = STATE_NEW \<and> packet_ids pk = [] \<and>
        ec_prev_packet_offset (echo n) + 4 \<le> 4096 \<and> psc_rx_nob_wanted (psc n) = 4
      else psc_rx_state (psc n) = STATE_READ_HEADER \<and> psc_rx_nob_wanted (psc n) = header cur \<and>
        int (length cur) < sint (header cur))"

definition under_way :: "net \<Rightarrow> packet_blocks \<Rightarrow> bool" where
  "under_way n pk \<longleftrightarrow> ec_packet (echo n) = Some pk \<or> ec_packet (echo n) = None \<and> pk = NoBlocks"

definition mid :: "net \<Rightarrow> byte list \<Rightarrow> bool" where
  "mid n cur \<longleftrightarrow> \<not> conn_freed n \<and> ec_offset (echo n) < 4096 \<and>
     (\<exists>pk bss bs. under_way n pk \<and> owns n pk bss bs \<and> cur = pending n pk bss bs \<and> state_ok n pk cur)"

definition rx_inv :: "net \<Rightarrow> byte list \<Rightarrow> bool" where
  "rx_inv n cur \<longleftrightarrow> mid n cur \<and>
     (\<exists>b. ec_block (echo n) = Some b \<and> psc_rx_buffer (psc n) = (b, ec_offset (echo n))) \<and>
     psc_rx_size (psc n) = of_nat (min (4096 - ec_offset (echo n)) (missing cur))"

lemma owns_psc [simp]:
  "owns (n\<lparr>psc := c\<rparr>) pk bss bs = owns n pk bss bs" "under_way (n\<lparr>psc := c\<rparr>) pk = under_way n pk"
  "pending (n\<lparr>psc := c\<rparr>) pk bss bs = pending n pk bss bs"
  by (simp_all add: owns_def under_way_def pending_def split: option.split)

lemma midI:
  "\<not> conn_freed n \<Longrightarrow> ec_offset (echo n) < 4096 \<Longrightarrow> under_way n pk \<Longrightarrow> owns n pk bss bs \<Longrightarrow> state_ok n pk cur \<Longrightarrow>
   pending n pk bss bs = cur \<Longrightarrow> mid n cur"
  by (auto simp: mid_def)

text \<open>What receiving does not touch.\<close>

definition same_conn :: "net \<Rightarrow> net \<Rightarrow> bool" where
  "same_conn n n' \<longleftrightarrow> closes n' = closes n \<and> psc_sock (psc n') = psc_sock (psc n) \<and>
     psc_type (psc n') = psc_type (psc n) \<and> psc_refcount (psc n') = psc_refcount (psc n) \<and>
     psc_closing (psc n') = psc_closing (psc n) \<and> psc_rx_scheduled (psc n') = psc_rx_scheduled (psc n) \<and>
     psc_rx_ready (psc n') = psc_rx_ready (psc n)"

definition quiet :: "net \<Rightarrow> net \<Rightarrow> bool" where
  "quiet n n' \<longleftrightarrow> same_conn n n' \<and> tasks n' = tasks n \<and> faults n' = faults n"

lemma quiet_trans: "quiet a b \<Longrightarrow> quiet b c \<Longrightarrow> quiet a c"
  by (simp add: quiet_def same_conn_def)

lemma same_conn_trans: "same_conn a b \<Longrightarrow> same_conn b c \<Longrightarrow> same_conn a c"
  by (simp add: same_conn_def)

lemma missing_small: "missing cur < 2 ^ 31"
  using sint_less [of "header cur"] by (auto simp: missing_def)

lemma sint_missing: "sint (of_nat (missing cur) :: int32) = int (missing cur)"
  by (rule signed_of_nat32) (rule missing_small)

lemma pending_length:
  assumes "owns n pk bss bs" "packet_ids pk = []"
  shows "length (pending n pk bss bs) = ec_offset (echo n) - ec_prev_packet_offset (echo n)"
proof -
  have "bss = []" using assms by (simp add: owns_def holds_def)
  then show ?thesis using assms(1) block_at_length
    by (cases "ec_block (echo n)") (auto simp: pending_def owns_def)
qed

text \<open>Asking for more: a block is there again, with room for the next bytes.\<close>

lemma post_recv_inv:
  assumes "mid n cur"
  shows "\<exists>n'. echo_post_recv E status n = (status, n') \<and> rx_inv n' cur \<and> quiet n n' \<and>
    ec_offset (echo n') = ec_offset (echo n)"
proof -
  obtain pk bss bs where n: "under_way n pk" "owns n pk bss bs" "cur = pending n pk bss bs" "state_ok n pk cur"
    and live: "\<not> conn_freed n" "ec_offset (echo n) < 4096"
    using assms by (auto simp: mid_def)
  let ?off = "ec_offset (echo n)"
  obtain b n1 bs1 where post: "post_block n = (b, n1)" "ec_block (echo n1) = Some b" "owns n1 pk bss bs1"
    "pending n1 pk bss bs1 = cur" "under_way n1 pk" "state_ok n1 pk cur" "quiet n n1" "\<not> conn_freed n1"
    "ec_offset (echo n1) = ?off" "psc n1 = psc n"
  proof (cases "ec_block (echo n)")
    case (Some b)
    then show ?thesis using that [of b n bs] n live by (simp add: post_block_def quiet_def same_conn_def)
  next
    case None
    let ?b = "next_block n" and ?z = "replicate 4096 (0 :: byte)"
    let ?n = "n\<lparr>blocks := (blocks n)(?b \<mapsto> \<lparr>bk_address = ?z, bk_length = 4096, bk_refcount = 1\<rparr>),
      next_block := ?b + 1, echo := (echo n)\<lparr>ec_block := Some ?b\<rparr>\<rparr>"
    have off: "?off = 0" "dom (blocks n) = set (packet_ids pk)" "ec_prev_packet_offset (echo n) = 0"
      using n(2) None by (auto simp: owns_def)
    have "blocks n ?b = None" using n(2) by (simp add: owns_def)
    then have b: "?b \<notin> set (packet_ids pk)" using off(2) by auto
    have eq: "post_block n = (?b, ?n)"
      using None by (simp add: post_block_def echo_block_alloc_def set_echo_def echo_block_addref_def Let_def)
    have "owns ?n pk bss ?z"
      using n(2) None b off by (auto simp: owns_def holds_upd block_at_def fun_upd_other)
    moreover have "pending ?n pk bss ?z = cur" using n(3) off by (simp add: pending_def)
    moreover have "state_ok ?n pk cur" using n(4) by (simp add: state_ok_def)
    ultimately show ?thesis using that [of ?b ?n ?z] eq n(1) live
      by (simp add: under_way_def quiet_def same_conn_def)
  qed
  have b: "blocks n1 b = Some \<lparr>bk_address = bs1, bk_length = 4096, bk_refcount = 1\<rparr>"
    using post(2,3) by (simp add: owns_def block_at_def)
  have left: "psc_rx_nob_left (psc n) = of_nat (missing cur)" using n(4) by (simp add: state_ok_def)
  let ?size = "of_nat (min (4096 - ?off) (missing cur)) :: int32"
  have size: "post_size 4096 ?off (psc n) = ?size"
  proof (cases "length cur < 4")
    case True
    then have "psc_rx_state (psc n) = STATE_NEW" "packet_ids pk = []" "ec_prev_packet_offset (echo n) + 4 \<le> 4096"
      using n(4) by (simp_all add: state_ok_def)
    moreover have "length cur = ?off - ec_prev_packet_offset (echo n)" if "packet_ids pk = []"
      using pending_length [OF n(2) that] n(3) by simp
    ultimately have "missing cur \<le> 4096 - ?off" using True by (simp add: missing_def)
    then show ?thesis using \<open>psc_rx_state (psc n) = STATE_NEW\<close> left by (simp add: post_size_def min_absorb2)
  next
    case False
    then have "psc_rx_state (psc n) = STATE_READ_HEADER" using n(4) by (simp add: state_ok_def)
    moreover have "of_int (int 4096 - int ?off) = (of_nat (4096 - ?off) :: int32)"
      using live(2) by (simp add: of_nat_diff)
    ultimately show ?thesis using live(2) by (auto simp: post_size_def left sint_missing min_def)
  qed
  let ?n = "n1\<lparr>psc := (psc n1)\<lparr>psc_rx_size := ?size, psc_rx_buffer := (b, ?off)\<rparr>\<rparr>"
  have "echo_post_recv E status n = (status, ?n)"
    using post(1,9,10) b size by (simp add: echo_post_recv_def block_length_def set_psc_def Let_def)
  moreover have "mid ?n cur"
  proof -
    have "owns ?n pk bss bs1" "under_way ?n pk" "pending ?n pk bss bs1 = cur" "state_ok ?n pk cur"
      using post(3-6) by (simp_all add: state_ok_def)
    then show ?thesis using post(8,9) live(2) unfolding mid_def by (intro conjI exI [of _ pk] exI [of _ bss] exI [of _ bs1]) auto
  qed
  moreover have "quiet n ?n" using post(7) by (simp add: quiet_def same_conn_def)
  ultimately show ?thesis using post(2,9) by (intro exI [of _ ?n]) (simp add: rx_inv_def)
qed

text \<open>The packet with the block read to its end.\<close>

definition grown :: "nat \<Rightarrow> nat \<Rightarrow> packet_blocks \<Rightarrow> packet_blocks" where
  "grown b prev pk = (case pk of NoBlocks \<Rightarrow> OneBlock b prev (4096 - prev)
     | OneBlock i off len \<Rightarrow> Blocks [i, b] off (prev + (4096 - prev))
     | Blocks is head tail \<Rightarrow> Blocks (is @ [b]) head (prev + (4096 - prev)))"

lemma grown_shape:
  assumes "packet_full pk" "prev \<le> 4096" "packet_ids pk \<noteq> [] \<Longrightarrow> prev = 0"
  shows "packet_ids (grown b prev pk) = packet_ids pk @ [b]" "packet_full (grown b prev pk)"
    "packet_start (grown b prev pk) = (if packet_ids pk = [] then prev else packet_start pk)"
  using assms by (cases pk; auto simp: grown_def)+

lemma concat_head:
  assumes "holds h pk bss" "packet_ids pk \<noteq> []"
  shows "packet_start pk \<le> length (concat bss)"
proof -
  obtain bs' bss' where "bss = bs' # bss'" "length bs' = 4096"
    using assms block_at_length by (cases bss; cases "packet_ids pk") (auto simp: holds_def)
  moreover have "packet_start pk \<le> 4096" using assms packet_start_le by (simp add: holds_def)
  ultimately show ?thesis by simp
qed

lemma block_full_mid:
  assumes n: "owns n pk bss bs" "ec_block (echo n) = Some b" "ec_packet (echo n) = Some pk"
    and cur: "cur = pending n pk bss bs" "state_ok n pk cur" and "\<not> conn_freed n"
  shows "\<exists>st' n'. echo_block_full E b (Some pk) st n = (st', n') \<and> mid n' cur \<and> quiet n n' \<and>
    (st' = st \<or> st' = - EAGAIN) \<and> ec_offset (echo n') = ec_offset (echo n) mod 4096"
proof -
  let ?prev = "ec_prev_packet_offset (echo n)" and ?off = "ec_offset (echo n)"
  have b: "block_at (blocks n) b bs" "b \<notin> set (packet_ids pk)" "?off \<le> 4096" "?prev \<le> ?off"
    "dom (blocks n) = insert b (set (packet_ids pk))" "packet_ids pk \<noteq> [] \<Longrightarrow> ?prev = 0"
    "holds (blocks n) pk bss" "length bs = 4096"
    using n(1,2) by (auto simp: owns_def block_at_def)
  have one: "blocks n b = Some \<lparr>bk_address = bs, bk_length = 4096, bk_refcount = 1\<rparr>"
    using b(1) by (simp add: block_at_def)
  show ?thesis
  proof (cases "?off = 4096")
    case False
    then have "ec_offset (echo n) < 4096" using b(3) by simp
    moreover from this have "mid n cur" using assms by (auto simp: mid_def under_way_def)
    ultimately show ?thesis using False one
      by (intro exI [of _ st] exI [of _ n]) (simp add: echo_block_full_def block_length_def quiet_def same_conn_def)
  next
    case True
    have four: "4 \<le> length cur"
    proof (rule ccontr)
      assume "\<not> 4 \<le> length cur"
      then have "packet_ids pk = []" "?prev + 4 \<le> 4096" using cur(2) by (auto simp: state_ok_def)
      then show False using pending_length [OF n(1)] cur(1) True \<open>\<not> 4 \<le> length cur\<close> by simp
    qed
    let ?pk = "grown b ?prev pk"
    let ?n = "n\<lparr>echo := \<lparr>ec_block = None, ec_prev_packet_offset = 0, ec_offset = 0, ec_packet = Some ?pk\<rparr>\<rparr>"
    note shape = grown_shape [of pk ?prev b]
    have full: "packet_full pk" "distinct (packet_ids pk)" using b(7) by (simp_all add: holds_def)
    have prev: "?prev \<le> 4096" using b(3,4) by simp
    have add: "block_add_tail b ?prev (4096 - ?prev) pk n = (?pk,
        n\<lparr>blocks := (blocks n)(b \<mapsto> \<lparr>bk_address = bs, bk_length = 4096, bk_refcount = 2\<rparr>)\<rparr>)"
      using addref_one [OF b(1)] by (simp add: block_add_tail_def grown_def split: packet_blocks.split)
    have "echo_block_full E b (Some pk) st n = (- EAGAIN, ?n)"
      using True one add by (simp add: echo_block_full_def block_length_def set_echo_def decref_two map_upd_triv)
    moreover have "owns ?n ?pk (bss @ [bs]) []"
      using n(1) b full shape [OF full(1) prev b(6)] by (auto simp: owns_def holds_def list_all2_appendI)
    moreover have "pending ?n ?pk (bss @ [bs]) [] = cur"
    proof (cases "packet_ids pk = []")
      case True
      then have "bss = []" "pk = NoBlocks" using b(7) by (cases pk; auto simp: holds_def)+
      then show ?thesis using cur(1) \<open>?off = 4096\<close> b(8) by (simp add: pending_def grown_def)
    next
      case False
      then show ?thesis
        using cur(1) shape(3) [OF full(1) prev b(6)] b(6) True concat_head [OF b(7) False] b(8)
        by (simp add: pending_def)
    qed
    moreover have "state_ok ?n ?pk cur" using cur(2) four by (simp add: state_ok_def)
    moreover have "under_way ?n ?pk" by (simp add: under_way_def)
    ultimately show ?thesis using \<open>\<not> conn_freed n\<close> True
      by (intro exI [of _ "- EAGAIN"] exI [of _ ?n])
        (auto simp: mid_def quiet_def same_conn_def)
  qed
qed

text \<open>A packet that is complete: its text is queued and the next one starts.  When the block has no
  room for another length it is freed, and its length is read once more.\<close>

definition completed :: "net \<Rightarrow> core_buffer \<Rightarrow> packet_blocks \<Rightarrow> net" where
  "completed n buf pk =
     n\<lparr>echo := (echo n)\<lparr>ec_prev_packet_offset := ec_offset (echo n), ec_packet := None\<rparr>,
       blocks := freed (packet_ids pk) (blocks n), tasks := tasks n @ [task_of n buf],
       psc := (psc n)\<lparr>psc_rx_state := STATE_NEW, psc_rx_nob_wanted := 4, psc_rx_nob_left := 4\<rparr>\<rparr>"

lemma complete_run:
  assumes n: "owns n pk bss bs" "ec_block (echo n) = Some b"
  shows "\<exists>buf. text_ok buf \<and> text_of buf = pending n pk bss bs \<and>
    echo_complete E b pk n = (if 4096 < ec_offset (echo n) + 4
      then (completed n buf pk)\<lparr>echo := \<lparr>ec_block = None, ec_prev_packet_offset = 0, ec_offset = 0, ec_packet = None\<rparr>,
        blocks := (freed (packet_ids pk) (blocks n))(b := None)\<rparr>
      else completed n buf pk)"
proof -
  let ?prev = "ec_prev_packet_offset (echo n)" and ?off = "ec_offset (echo n)"
  have b: "block_at (blocks n) b bs" "b \<notin> set (packet_ids pk)" "?off \<le> 4096" "?prev \<le> ?off"
    "packet_ids pk \<noteq> [] \<Longrightarrow> ?prev = 0" "holds (blocks n) pk bss"
    using n by (auto simp: owns_def)
  let ?n = "n\<lparr>echo := (echo n)\<lparr>ec_prev_packet_offset := ?off, ec_packet := None\<rparr>\<rparr>"
  have hp: "holds (blocks ?n) pk bss" "block_at (blocks ?n) b bs" "?prev + (?off - ?prev) \<le> 4096"
    using b by simp_all
  obtain buf where buf: "text_ok buf" "text_of buf = drop (packet_start pk) (concat bss) @ take (?off - ?prev) (drop ?prev bs)"
    "(case block_add_tail b ?prev (?off - ?prev) pk ?n of (pk', n') \<Rightarrow> echo_handle_packet E pk' n') =
      ?n\<lparr>blocks := freed (packet_ids pk) (blocks n), tasks := tasks n @ [task_of n buf]\<rparr>"
    using handle_packet [OF hp(1,2) b(2) hp(3) b(5), of E] by (auto simp: task_of_def)
  obtain pk' n' where add: "block_add_tail b ?prev (?off - ?prev) pk n = (pk', n')"
    by fastforce
  have n': "n' = n\<lparr>blocks := (blocks n)(b \<mapsto> \<lparr>bk_address = bs, bk_length = 4096, bk_refcount = 2\<rparr>)\<rparr>"
    using add addref_one [OF b(1)] by (auto simp: block_add_tail_def Let_def)
  have add': "block_add_tail b ?prev (?off - ?prev) pk ?n = (pk', n'\<lparr>echo := echo ?n\<rparr>)"
    using add unfolding n' by (auto simp: block_add_tail_def Let_def addref_one [OF b(1)] addref_one [OF hp(2)])
  have handled: "echo_handle_packet E pk' (n'\<lparr>echo := echo ?n\<rparr>) =
      ?n\<lparr>blocks := freed (packet_ids pk) (blocks n), tasks := tasks n @ [task_of n buf]\<rparr>"
    using buf(3) unfolding add' by simp
  have at: "freed (packet_ids pk) (blocks n) b = Some \<lparr>bk_address = bs, bk_length = 4096, bk_refcount = 1\<rparr>"
    using b(1,2) by (simp add: freed_def block_at_def)
  have "echo_complete E b pk n = (if 4096 < ?off + 4
      then (completed n buf pk)\<lparr>echo := \<lparr>ec_block = None, ec_prev_packet_offset = 0, ec_offset = 0, ec_packet = None\<rparr>,
        blocks := (freed (packet_ids pk) (blocks n))(b := None)\<rparr>
      else completed n buf pk)"
    using b(4) handled at n'
    by (simp add: echo_complete_def add set_echo_def set_psc_def block_length_def decref_last completed_def)
  then show ?thesis using buf(1,2) by (intro exI [of _ buf]) (simp add: pending_def)
qed

lemma complete_mid:
  assumes n: "owns n pk bss bs" "ec_block (echo n) = Some b" and "\<not> conn_freed n"
    and room: "ec_offset (echo n) + 4 \<le> 4096"
  shows "\<exists>n' buf. echo_block_full E b None st (echo_complete E b pk n) = (st, n') \<and> mid n' [] \<and>
    same_conn n n' \<and> faults n' = faults n \<and> ec_offset (echo n') = ec_offset (echo n) \<and>
    text_ok buf \<and> text_of buf = pending n pk bss bs \<and> tasks n' = tasks n @ [task_of n buf]"
proof -
  let ?off = "ec_offset (echo n)"
  have b: "block_at (blocks n) b bs" "b \<notin> set (packet_ids pk)" "?off \<le> 4096"
    "dom (blocks n) = insert b (set (packet_ids pk))" "\<forall>i\<ge>next_block n. blocks n i = None"
    using n by (auto simp: owns_def)
  obtain buf where buf: "text_ok buf" "text_of buf = pending n pk bss bs"
    "echo_complete E b pk n = completed n buf pk"
    using complete_run [OF n, of E] room by auto
  have at: "block_at (freed (packet_ids pk) (blocks n)) b bs" using b(1,2) by (simp add: freed_def block_at_def)
  have dom: "dom (freed (packet_ids pk) (blocks n)) = {b}"
    using b(1,2,4) by (auto simp: freed_def block_at_def split: if_splits)
  have fresh: "\<forall>i\<ge>next_block n. freed (packet_ids pk) (blocks n) i = None"
    using b(5) by (simp add: freed_def)
  let ?n = "completed n buf pk"
  have "echo_block_full E b None st (echo_complete E b pk n) = (st, ?n)"
    using buf(3) at room by (simp add: echo_block_full_def block_length_def block_at_def completed_def)
  moreover have "mid ?n []"
  proof -
    have "owns ?n NoBlocks [] bs"
      using at dom fresh b(3) by (auto simp: owns_def holds_def completed_def n(2) fun_upd_apply dom_def)
    moreover have "under_way ?n NoBlocks" "pending ?n NoBlocks [] bs = []" "state_ok ?n NoBlocks []"
        "ec_offset (echo ?n) < 4096" "\<not> conn_freed ?n"
      using room assms(3) by (simp_all add: completed_def under_way_def pending_def state_ok_def missing_def)
    ultimately show ?thesis by (intro midI)
  qed
  moreover have "same_conn n ?n" "tasks ?n = tasks n @ [task_of n buf]" "faults ?n = faults n"
    "ec_offset (echo ?n) = ?off"
    by (simp_all add: completed_def same_conn_def)
  ultimately show ?thesis using buf(1,2) by (intro exI [of _ ?n] exI [of _ buf]) simp
qed

section \<open>One read\<close>

definition complete :: "byte list \<Rightarrow> bool" where
  "complete cur \<longleftrightarrow> 4 \<le> length cur \<and> int (length cur) = sint (header cur)"

lemma header_append [simp]: "4 \<le> length cur \<Longrightarrow> header (cur @ bs) = header cur"
  by (simp add: header_def)

lemma window:
  assumes "prev \<le> off" "off + length bs \<le> length blk"
  shows "take (off + length bs - prev) (drop prev (take off blk @ bs @ drop (off + length bs) blk)) =
    take (off - prev) (drop prev blk) @ bs"
  using assms by (simp add: drop_take)

text \<open>The bytes in the block, the offset moved on.\<close>

definition loaded :: "nat \<Rightarrow> byte list \<Rightarrow> packet_blocks \<Rightarrow> net \<Rightarrow> net" where
  "loaded b bs pk n = set_echo (\<lambda>e. e\<lparr>ec_offset := ec_offset e + length bs, ec_packet := Some pk\<rparr>)
     (write_block b (ec_offset (echo n)) bs (set_psc (\<lambda>c. c\<lparr>psc_rx_started := True\<rparr>) n))"

lemma loaded_owns:
  assumes n: "owns n pk bss blk" "ec_block (echo n) = Some b" and room: "ec_offset (echo n) + length bs \<le> 4096"
  shows "\<exists>blk'. owns (loaded b bs pk n) pk bss blk' \<and>
    pending (loaded b bs pk n) pk bss blk' = pending n pk bss blk @ bs \<and>
    blocks (loaded b bs pk n) b = Some \<lparr>bk_address = blk', bk_length = 4096, bk_refcount = 1\<rparr>"
    and "quiet n (loaded b bs pk n)" "conn_freed (loaded b bs pk n) = conn_freed n"
    "echo (loaded b bs pk n) = (echo n)\<lparr>ec_offset := ec_offset (echo n) + length bs, ec_packet := Some pk\<rparr>"
    "psc (loaded b bs pk n) = (psc n)\<lparr>psc_rx_started := True\<rparr>"
proof -
  let ?off = "ec_offset (echo n)"
  have b: "block_at (blocks n) b blk" "b \<notin> set (packet_ids pk)" "ec_prev_packet_offset (echo n) \<le> ?off"
    "length blk = 4096"
    using n by (auto simp: owns_def block_at_def)
  let ?blk = "take ?off blk @ bs @ drop (?off + length bs) blk"
  have eq: "loaded b bs pk n = n\<lparr>psc := (psc n)\<lparr>psc_rx_started := True\<rparr>,
      blocks := (blocks n)(b \<mapsto> \<lparr>bk_address = ?blk, bk_length = 4096, bk_refcount = 1\<rparr>),
      echo := (echo n)\<lparr>ec_offset := ?off + length bs, ec_packet := Some pk\<rparr>\<rparr>"
    using b(1) room by (simp add: loaded_def write_block_def set_echo_def set_psc_def block_at_def)
  have "owns (loaded b bs pk n) pk bss ?blk"
    using n b room unfolding eq by (auto simp: owns_def holds_upd block_at_def fun_upd_apply)
  moreover have "pending (loaded b bs pk n) pk bss ?blk = pending n pk bss blk @ bs"
    using window [of "ec_prev_packet_offset (echo n)" ?off bs blk] b(3,4) room unfolding eq pending_def by simp
  ultimately show "\<exists>blk'. owns (loaded b bs pk n) pk bss blk' \<and>
      pending (loaded b bs pk n) pk bss blk' = pending n pk bss blk @ bs \<and>
      blocks (loaded b bs pk n) b = Some \<lparr>bk_address = blk', bk_length = 4096, bk_refcount = 1\<rparr>"
    by (intro exI [of _ ?blk]) (simp add: eq)
  show "quiet n (loaded b bs pk n)" "conn_freed (loaded b bs pk n) = conn_freed n"
    "echo (loaded b bs pk n) = (echo n)\<lparr>ec_offset := ec_offset (echo n) + length bs, ec_packet := Some pk\<rparr>"
    "psc (loaded b bs pk n) = (psc n)\<lparr>psc_rx_started := True\<rparr>"
    by (simp_all add: eq quiet_def same_conn_def)
qed

lemma echo_forward_loaded:
  assumes "under_way n pk" "ec_block (echo n) = Some b"
  shows "echo_forward E (length bs) (write_block b (ec_offset (echo n)) bs (set_psc (\<lambda>c. c\<lparr>psc_rx_started := True\<rparr>) n)) =
    (case echo_parse E b pk (length bs) (loaded b bs pk n) of (st, packet, n) \<Rightarrow>
      case echo_block_full E b packet st n of (st, n) \<Rightarrow> echo_post_recv E st n)"
proof -
  have "echo (write_block b (ec_offset (echo n)) bs (set_psc f n)) = echo n" for f
    by (simp add: write_block_def set_psc_def net_fail_def split: option.split)
  then show ?thesis using assms
    by (auto simp: echo_forward_def loaded_def under_way_def set_echo_def Let_def split: prod.split)
qed

lemma of_nat32_eq: "a < 2 ^ 31 \<Longrightarrow> b < 2 ^ 31 \<Longrightarrow> (of_nat a :: int32) = of_nat b \<longleftrightarrow> a = b"
  using signed_of_nat32 [of a] signed_of_nat32 [of b] by (metis of_nat_eq_iff)

lemma missing_append:
  assumes "length bs \<le> missing cur" "length cur < 4 \<longrightarrow> length (cur @ bs) < 4"
  shows "missing (cur @ bs) = missing cur - length bs"
  using assms by (auto simp: missing_def)

lemma missing_header:
  assumes "length cur = 4" "4 < sint (header cur)"
  shows "of_nat (missing cur) = header cur - 4"
proof -
  have "of_nat (nat (sint (header cur)) - 4) = (of_nat (nat (sint (header cur))) :: int32) - 4"
    using assms(2) by (simp add: of_nat_diff)
  also have "(of_nat (nat (sint (header cur))) :: int32) = of_int (sint (header cur))"
    using assms(2) by (metis int_nat_eq less_le_not_le linear numeral_eq_iff of_int_of_nat_eq order_trans semiring_norm(85) zero_le_numeral)
  finally show ?thesis using assms(1) by (simp add: missing_def)
qed

text \<open>A read that does not end the packet.\<close>

lemma parse_goes_on:
  assumes n: "owns n pk bss blk" "ec_block (echo n) = Some b" "cur = pending n pk bss blk" "state_ok n pk cur"
    and size: "psc_rx_size (psc n) = of_nat (min (4096 - ec_offset (echo n)) (missing cur))"
    and bs: "0 < length bs" "length bs \<le> min (4096 - ec_offset (echo n)) (missing cur)"
    and ok: "\<not> complete (cur @ bs)" "4 \<le> length (cur @ bs) \<Longrightarrow> 4 < sint (header (cur @ bs))"
  defines "n2 \<equiv> loaded b bs pk n"
  shows "\<exists>st c. echo_parse E b pk (length bs) n2 = (st, Some pk, n2\<lparr>psc := c\<rparr>) \<and> (st = 0 \<or> st = - EAGAIN) \<and>
    state_ok (n2\<lparr>psc := c\<rparr>) pk (cur @ bs) \<and> quiet n2 (n2\<lparr>psc := c\<rparr>)"
proof -
  let ?off = "ec_offset (echo n)" and ?left = "psc_rx_nob_left (psc n)"
  have room: "?off + length bs \<le> 4096" using bs n(1,2) by (auto simp: owns_def)
  note l = loaded_owns [OF n(1,2) room, folded n2_def]
  have left: "?left = of_nat (missing cur)" using n(4) by (simp add: state_ok_def)
  have small: "length bs < 2 ^ 31" "min (4096 - ?off) (missing cur) < 2 ^ 31"
    using bs missing_small [of cur] by linarith+
  have eqs: "psc_rx_size (psc n2) = of_nat (min (4096 - ?off) (missing cur))" "psc_rx_nob_left (psc n2) = ?left"
    "psc_rx_state (psc n2) = psc_rx_state (psc n)" "psc_rx_nob_wanted (psc n2) = psc_rx_nob_wanted (psc n)"
    "ec_prev_packet_offset (echo n2) = ec_prev_packet_offset (echo n)"
    using l(4,5) size by simp_all
  have lt: "of_nat (length bs) \<noteq> psc_rx_size (psc n2) \<longleftrightarrow> length bs \<noteq> min (4096 - ?off) (missing cur)"
    using of_nat32_eq [OF small] eqs(1) by simp
  show ?thesis
  proof (cases "length cur < 4")
    case new: True
    then have st: "psc_rx_state (psc n) = STATE_NEW" "packet_ids pk = []" "ec_prev_packet_offset (echo n) + 4 \<le> 4096"
      "psc_rx_nob_wanted (psc n) = 4"
      using n(4) by (simp_all add: state_ok_def)
    have "length cur = ?off - ec_prev_packet_offset (echo n)" using pending_length [OF n(1) st(2)] n(3) by simp
    then have full: "min (4096 - ?off) (missing cur) = 4 - length cur" "missing cur = 4 - length cur"
      using new st(3) by (simp_all add: missing_def)
    show ?thesis
    proof (cases "length bs = 4 - length cur")
      case False
      then have short: "length (cur @ bs) < 4" using bs(2) full by simp
      let ?c = "(psc n2)\<lparr>psc_rx_nob_left := psc_rx_size (psc n2) - of_nat (length bs)\<rparr>"
      have "echo_parse E b pk (length bs) n2 = (- EAGAIN, Some pk, n2\<lparr>psc := ?c\<rparr>)"
        using False lt full st eqs bs(1) by (simp add: echo_parse_def set_psc_def Let_def)
      moreover have "state_ok (n2\<lparr>psc := ?c\<rparr>) pk (cur @ bs)"
        using short st eqs full missing_append [of bs cur] bs(2)
        by (simp add: state_ok_def of_nat_diff)
      ultimately show ?thesis by (intro exI [of _ "- EAGAIN"] exI [of _ ?c]) (simp add: quiet_def same_conn_def)
    next
      case True
      obtain blk' where blk': "owns n2 pk bss blk'" "pending n2 pk bss blk' = cur @ bs"
        "blocks n2 b = Some \<lparr>bk_address = blk', bk_length = 4096, bk_refcount = 1\<rparr>"
        using l(1) n(3) by auto
      have four: "length (cur @ bs) = 4" using True new by simp
      have "bss = []" using n(1) st(2) by (simp add: owns_def holds_def)
      moreover have "ec_offset (echo n2) - ec_prev_packet_offset (echo n2) = 4"
        using pending_length [OF blk'(1) st(2)] blk'(2) four by simp
      ultimately have read: "take 4 (drop (ec_prev_packet_offset (echo n2)) blk') = cur @ bs"
        using blk'(2) by (simp add: pending_def)
      have "length blk' = 4096" using blk'(1) n(2) l(4) by (auto simp: owns_def block_at_def)
      then have rb: "read_block b (ec_prev_packet_offset (echo n2)) 4 n2 = (cur @ bs, n2)"
        using read blk'(3) st(3) eqs(5) by (simp add: read_block_def)
      have h: "le_word (cur @ bs) = header (cur @ bs)" using four by (simp add: header_def)
      let ?h = "header (cur @ bs)"
      let ?c = "(psc n2)\<lparr>psc_rx_nob_wanted := ?h, psc_rx_nob_left := ?h - 4, psc_rx_state := STATE_READ_HEADER\<rparr>"
      have "echo_parse E b pk (length bs) n2 = (0, Some pk, n2\<lparr>psc := ?c\<rparr>)"
        using True lt full st eqs bs(1) rb h by (simp add: echo_parse_def set_psc_def Let_def)
      moreover have "state_ok (n2\<lparr>psc := ?c\<rparr>) pk (cur @ bs)"
        using missing_header [OF four] ok(2) four by (simp add: state_ok_def)
      ultimately show ?thesis by (intro exI [of _ 0] exI [of _ ?c]) (simp add: quiet_def same_conn_def)
    qed
  next
    case False
    then have st: "psc_rx_state (psc n) = STATE_READ_HEADER" "psc_rx_nob_wanted (psc n) = header cur"
      "int (length cur) < sint (header cur)" "4 \<le> length cur"
      using n(4) by (simp_all add: state_ok_def)
    have m: "missing (cur @ bs) = missing cur - length bs" using missing_append [of bs cur] False bs(2) by simp
    have more: "int (length (cur @ bs)) < sint (header cur)"
      using ok(1) st(3,4) bs(2) by (auto simp: complete_def missing_def)
    then have pos: "0 < missing (cur @ bs)" using st(4) by (simp add: missing_def)
    let ?c = "(psc n2)\<lparr>psc_rx_nob_left := ?left - of_nat (length bs)\<rparr>"
    have nl: "?left - of_nat (length bs) = of_nat (missing (cur @ bs))"
      using left m bs(2) by (simp add: of_nat_diff)
    moreover have "of_nat (missing (cur @ bs)) \<noteq> (0 :: int32)"
      using of_nat32_eq [of "missing (cur @ bs)" 0] pos missing_small by simp
    ultimately have "echo_parse E b pk (length bs) n2 = (0, Some pk, n2\<lparr>psc := ?c\<rparr>)"
      using st eqs bs(1) by (simp add: echo_parse_def set_psc_def Let_def)
    moreover have "state_ok (n2\<lparr>psc := ?c\<rparr>) pk (cur @ bs)"
      using st eqs nl more by (simp add: state_ok_def)
    ultimately show ?thesis by (intro exI [of _ 0] exI [of _ ?c]) (simp add: quiet_def same_conn_def)
  qed
qed

text \<open>A read that ends it.\<close>

lemma parse_ends:
  assumes n: "owns n pk bss blk" "ec_block (echo n) = Some b" "cur = pending n pk bss blk" "state_ok n pk cur"
    and bs: "0 < length bs" "length bs \<le> min (4096 - ec_offset (echo n)) (missing cur)"
    and ok: "complete (cur @ bs)" "4 \<le> length (cur @ bs) \<Longrightarrow> 4 < sint (header (cur @ bs))"
  defines "n2 \<equiv> loaded b bs pk n"
  shows "echo_parse E b pk (length bs) n2 = (0, None, echo_complete E b pk (set_psc (\<lambda>c. c\<lparr>psc_rx_nob_left := 0\<rparr>) n2))"
proof -
  have room: "ec_offset (echo n) + length bs \<le> 4096" using bs n(1,2) by (auto simp: owns_def)
  note l = loaded_owns [OF n(1,2) room, folded n2_def]
  have "4 \<le> length cur"
  proof (rule ccontr)
    assume "\<not> 4 \<le> length cur"
    then have "length (cur @ bs) \<le> 4" using bs(2) by (simp add: missing_def) linarith
    then show False using ok by (simp add: complete_def)
  qed
  then have "psc_rx_state (psc n2) = STATE_READ_HEADER" "psc_rx_nob_left (psc n2) = of_nat (missing cur)"
    "missing cur = length bs"
    using n(4) ok(1) l(5) by (auto simp: state_ok_def complete_def missing_def)
  then show ?thesis using bs(1) by (simp add: echo_parse_def set_psc_def Let_def)
qed

text \<open>The bytes of a connection lie one after the other in its blocks, as long as no block is given
  up before it is full: \<open>S\<close> bytes came before those of the packet under way.\<close>

definition placed :: "nat \<Rightarrow> net \<Rightarrow> byte list \<Rightarrow> bool" where
  "placed S n cur \<longleftrightarrow> rx_inv n cur \<and> ec_offset (echo n) = (S + length cur) mod 4096"

text \<open>A packet that ends at this place leaves room for another length in its block.\<close>

definition clear_end :: "nat \<Rightarrow> bool" where
  "clear_end e \<longleftrightarrow> 0 < e mod 4096 \<and> e mod 4096 \<le> 4092"

definition advanced :: "nat \<Rightarrow> net \<Rightarrow> byte list \<Rightarrow> net \<Rightarrow> bool" where
  "advanced S n cur n' \<longleftrightarrow> same_conn n n' \<and> faults n' = faults n \<and>
     (if complete cur
      then placed (S + length cur) n' [] \<and>
        (\<exists>buf. text_ok buf \<and> text_of buf = cur \<and> tasks n' = tasks n @ [task_of n buf])
      else placed S n' cur \<and> tasks n' = tasks n)"

lemma place_moves:
  assumes "off = S mod 4096" "off + k \<le> 4096"
  shows "(off + k) mod 4096 = (S + k) mod 4096" "clear_end (S + k) \<Longrightarrow> off + k + 4 \<le> 4096"
proof -
  show *: "(off + k) mod 4096 = (S + k) mod 4096" using assms(1) by (simp add: mod_add_left_eq)
  assume c: "clear_end (S + k)"
  show "off + k + 4 \<le> 4096"
  proof (cases "off + k = 4096")
    case True
    then show ?thesis using c * by (simp add: clear_end_def)
  next
    case False
    then have "(S + k) mod 4096 = off + k" using assms(2) * by simp
    then show ?thesis using c by (simp add: clear_end_def)
  qed
qed

lemma rx_inv_requested:
  assumes "rx_inv n cur"
  shows "requested n = min (4096 - ec_offset (echo n)) (missing cur)" "0 < requested n"
    "psc_rx_nob_wanted (psc n) \<noteq> 0" "\<not> complete cur"
proof -
  let ?m = "min (4096 - ec_offset (echo n)) (missing cur)"
  obtain pk where st: "state_ok n pk cur" "ec_offset (echo n) < 4096" "psc_rx_size (psc n) = of_nat ?m"
    using assms by (auto simp: rx_inv_def mid_def)
  have "?m < 2 ^ 31" using missing_small [of cur] by linarith
  then have "sint (of_nat ?m :: int32) = int ?m" by (rule signed_of_nat32)
  then show req: "requested n = ?m" by (simp add: requested_def st(3) unat_eq_nat_uint uint_scast64)
  have "4 \<le> length cur \<Longrightarrow> int (length cur) < sint (header cur) \<and> psc_rx_nob_wanted (psc n) = header cur"
    "length cur < 4 \<Longrightarrow> psc_rx_nob_wanted (psc n) = 4"
    using st(1) by (simp_all add: state_ok_def)
  then show "0 < requested n" "psc_rx_nob_wanted (psc n) \<noteq> 0" "\<not> complete cur"
    using st(2) unfolding req by (cases "length cur < 4"; auto simp: missing_def complete_def)+
qed

lemma receive_step:
  assumes placed: "placed S n cur" and bs: "0 < length bs" "length bs \<le> requested n"
    and ok: "4 \<le> length (cur @ bs) \<Longrightarrow> 4 < sint (header (cur @ bs))"
    and clear: "complete (cur @ bs) \<Longrightarrow> clear_end (S + length (cur @ bs))"
  shows "\<exists>b st n'. psc_rx_buffer (psc n) = (b, ec_offset (echo n)) \<and>
    echo_forward E (length bs) (write_block b (ec_offset (echo n)) bs (set_psc (\<lambda>c. c\<lparr>psc_rx_started := True\<rparr>) n)) = (st, n') \<and>
    (st = 0 \<or> st = - EAGAIN) \<and> advanced S n (cur @ bs) n'"
proof -
  let ?off = "ec_offset (echo n)"
  have inv: "rx_inv n cur" and place: "?off = (S + length cur) mod 4096" using placed by (simp_all add: placed_def)
  obtain pk bss blk b where n: "owns n pk bss blk" "ec_block (echo n) = Some b" "cur = pending n pk bss blk"
    "state_ok n pk cur" "under_way n pk" "\<not> conn_freed n" "psc_rx_buffer (psc n) = (b, ?off)"
    "psc_rx_size (psc n) = of_nat (min (4096 - ?off) (missing cur))"
    using inv by (auto simp: rx_inv_def mid_def)
  have len: "length bs \<le> min (4096 - ?off) (missing cur)" using bs rx_inv_requested(1) [OF inv] by simp
  have room: "?off + length bs \<le> 4096" using len n(1,2) by (auto simp: owns_def)
  note moves = place_moves [OF place room]
  define n2 where "n2 = loaded b bs pk n"
  note l = loaded_owns [OF n(1,2) room, folded n2_def]
  obtain blk' where own: "owns n2 pk bss blk'" "pending n2 pk bss blk' = cur @ bs" using l(1) n(3) by auto
  have e2: "ec_block (echo n2) = Some b" "ec_packet (echo n2) = Some pk" "\<not> conn_freed n2"
    using l(3,4) n(2,6) by simp_all
  note fwd = echo_forward_loaded [OF n(5,2), of E bs, folded n2_def]
  show ?thesis
  proof (cases "complete (cur @ bs)")
    case True
    let ?n = "set_psc (\<lambda>c. c\<lparr>psc_rx_nob_left := 0\<rparr>) n2"
    have parse: "echo_parse E b pk (length bs) n2 = (0, None, echo_complete E b pk ?n)"
      using parse_ends [OF n(1-4) bs(1) len True ok] by (simp add: n2_def)
    have o: "owns ?n pk bss blk'" "ec_block (echo ?n) = Some b" "\<not> conn_freed ?n"
      using own(1) e2 by (simp_all add: set_psc_def)
    have "ec_offset (echo ?n) + 4 \<le> 4096"
      using moves(2) clear [OF True] l(4) by (simp add: set_psc_def add.assoc)
    from complete_mid [OF o this, of E 0]
    obtain n3 buf where n3: "echo_block_full E b None 0 (echo_complete E b pk ?n) = (0, n3)" "mid n3 []"
      "same_conn ?n n3" "faults n3 = faults ?n" "ec_offset (echo n3) = ec_offset (echo ?n)" "text_ok buf"
      "text_of buf = pending ?n pk bss blk'" "tasks n3 = tasks ?n @ [task_of ?n buf]" by blast
    obtain n4 where n4: "echo_post_recv E 0 n3 = (0, n4)" "rx_inv n4 []" "quiet n3 n4"
      "ec_offset (echo n4) = ec_offset (echo n3)"
      using post_recv_inv [OF n3(2)] by blast
    have "ec_offset (echo n4) < 4096" using n4(2) by (simp add: rx_inv_def mid_def)
    then have "ec_offset (echo n4) = (S + length (cur @ bs)) mod 4096"
      using n4(4) n3(5) l(4) moves(1) by (simp add: set_psc_def add.assoc)
    then have "placed (S + length (cur @ bs)) n4 []" using n4(2) by (simp add: placed_def)
    then have "advanced S n (cur @ bs) n4"
      using True n3 n4(3) l(2,5) own(2)
      by (auto simp: advanced_def quiet_def same_conn_def set_psc_def task_of_def)
    then show ?thesis using n(7) fwd parse n3(1) n4(1) by simp
  next
    case False
    from parse_goes_on [OF n(1-4,8) bs(1) len False ok, of E, folded n2_def]
    obtain st c where p: "echo_parse E b pk (length bs) n2 = (st, Some pk, n2\<lparr>psc := c\<rparr>)" "st = 0 \<or> st = - EAGAIN"
      "state_ok (n2\<lparr>psc := c\<rparr>) pk (cur @ bs)" "quiet n2 (n2\<lparr>psc := c\<rparr>)" by auto
    have "owns (n2\<lparr>psc := c\<rparr>) pk bss blk'" "ec_block (echo (n2\<lparr>psc := c\<rparr>)) = Some b"
      "ec_packet (echo (n2\<lparr>psc := c\<rparr>)) = Some pk" "cur @ bs = pending (n2\<lparr>psc := c\<rparr>) pk bss blk'"
      "\<not> conn_freed (n2\<lparr>psc := c\<rparr>)"
      using own e2 by simp_all
    from block_full_mid [OF this(1-4) p(3) this(5), of E st]
    obtain st' n3 where n3: "echo_block_full E b (Some pk) st (n2\<lparr>psc := c\<rparr>) = (st', n3)" "mid n3 (cur @ bs)"
      "quiet (n2\<lparr>psc := c\<rparr>) n3" "st' = st \<or> st' = - EAGAIN"
      "ec_offset (echo n3) = ec_offset (echo n2) mod 4096" by auto
    obtain n4 where n4: "echo_post_recv E st' n3 = (st', n4)" "rx_inv n4 (cur @ bs)" "quiet n3 n4"
      "ec_offset (echo n4) = ec_offset (echo n3)"
      using post_recv_inv [OF n3(2)] by blast
    have "placed S n4 (cur @ bs)" using n4(2,4) n3(5) l(4) moves(1) by (simp add: placed_def add.assoc)
    have "quiet n n4" using l(2) p(4) n3(3) n4(3) quiet_trans by blast
    then have "advanced S n (cur @ bs) n4" using False \<open>placed S n4 (cur @ bs)\<close> by (auto simp: advanced_def quiet_def)
    then show ?thesis using n(7) fwd p(1,2) n3(1,4) n4(1) by auto
  qed
qed

end
