(* ===== verification/CoreStream.thy ===== *)
theory CoreStream
  imports CoreReceive
begin

text \<open>
  What receiving in \<^verbatim>\<open>src/server/chat/core/network.c\<close> does with a stream: whatever way the bytes of
  a peer arrive, they are cut into exactly the packets the peer sent, each handed on once and in
  order as soon as its last byte is there, and no block is lost.  Then the streams for which this
  fails, and the end of a connection.
\<close>

section \<open>Framing\<close>

text \<open>What a stream means: packets that start with their own length, and what is left.\<close>

definition packet_size :: "byte list \<Rightarrow> nat" where
  "packet_size s = nat (sint (header s))"

function frames :: "byte list \<Rightarrow> byte list list \<times> byte list" where
  "frames s =
     (if length s < 4 \<or> packet_size s \<le> 4 \<or> length s < packet_size s then ([], s)
      else case frames (drop (packet_size s) s) of (ps, r) \<Rightarrow> (take (packet_size s) s # ps, r))"
  by pat_completeness auto
termination by (relation "measure length") auto

declare frames.simps [simp del]

text \<open>Every length in the stream counts more than itself.\<close>

function well_framed :: "byte list \<Rightarrow> bool" where
  "well_framed s = (if length s < 4 then True else if packet_size s \<le> 4 then False
     else if length s < packet_size s then True else well_framed (drop (packet_size s) s))"
  by pat_completeness auto
termination by (relation "measure length") auto

declare well_framed.simps [simp del]

lemma packet_size_append [simp]: "4 \<le> length s \<Longrightarrow> packet_size (s @ t) = packet_size s"
  by (simp add: packet_size_def)

lemma complete_size: "complete s \<longleftrightarrow> 4 \<le> length s \<and> length s = packet_size s"
  by (auto simp: complete_def packet_size_def)

lemma frames_complete:
  "complete s \<Longrightarrow> 4 < packet_size s \<Longrightarrow> frames (s @ t) = (s # fst (frames t), snd (frames t))"
  by (subst frames.simps) (auto simp: complete_size split: prod.split)

lemma frames_short: "4 \<le> length s \<longrightarrow> length s < packet_size s \<Longrightarrow> frames s = ([], s)"
  by (subst frames.simps) auto

lemma frames_append:
  assumes "frames s = (ps, r)"
  shows "frames (s @ t) = (ps @ fst (frames (r @ t)), snd (frames (r @ t)))"
  using assms
proof (induction s arbitrary: ps rule: frames.induct)
  case (1 s)
  show ?case
  proof (cases "length s < 4 \<or> packet_size s \<le> 4 \<or> length s < packet_size s")
    case True
    then show ?thesis using "1.prems" by (simp add: frames.simps [of s])
  next
    case False
    obtain ps' where ps: "frames (drop (packet_size s) s) = (ps', r)" "ps = take (packet_size s) s # ps'"
      using "1.prems" False by (auto simp: frames.simps [of s] split: prod.splits)
    have "frames (s @ t) = (take (packet_size s) s # fst (frames (drop (packet_size s) s @ t)),
        snd (frames (drop (packet_size s) s @ t)))"
      using False by (subst frames.simps) (auto split: prod.split)
    then show ?thesis using "1.IH" [OF False ps(1)] ps(2) by simp
  qed
qed

lemma well_framed_header: "well_framed (s @ t) \<Longrightarrow> 4 \<le> length s \<Longrightarrow> 4 < sint (header s)"
  by (subst (asm) well_framed.simps) (auto simp: packet_size_def split: if_splits)

lemma well_framed_complete: "well_framed (s @ t) \<Longrightarrow> complete s \<Longrightarrow> well_framed t"
  by (subst (asm) well_framed.simps) (auto simp: complete_size split: if_splits)

lemma well_framed_rest:
  assumes "well_framed (s @ t)" "frames s = (ps, r)"
  shows "well_framed (r @ t)"
  using assms
proof (induction s arbitrary: ps rule: frames.induct)
  case (1 s)
  show ?case
  proof (cases "length s < 4 \<or> packet_size s \<le> 4 \<or> length s < packet_size s")
    case True
    then show ?thesis using "1.prems" by (simp add: frames.simps [of s])
  next
    case False
    obtain ps' where ps: "frames (drop (packet_size s) s) = (ps', r)"
      using "1.prems"(2) False by (auto simp: frames.simps [of s] split: prod.splits)
    have "well_framed (drop (packet_size s) s @ t)"
      using "1.prems"(1) False by (subst (asm) well_framed.simps) (auto split: if_splits)
    then show ?thesis using "1.IH" [OF False _ ps] by simp
  qed
qed

lemma well_framed_prefix: "well_framed (s @ t) \<Longrightarrow> well_framed s"
proof (induction s rule: well_framed.induct)
  case (1 s)
  show ?case
  proof (cases "length s < 4 \<or> length s < packet_size s")
    case True
    then show ?thesis using "1.prems" by (subst well_framed.simps, subst (asm) well_framed.simps) (auto split: if_splits)
  next
    case False
    then show ?thesis using "1.prems" "1.IH"
      by (subst well_framed.simps, subst (asm) (2) well_framed.simps) (auto split: if_splits)
  qed
qed

text \<open>A stream of whole packets and the beginning of another.\<close>

lemma frames_concat:
  assumes "\<forall>p\<in>set ps. complete p \<and> 4 < packet_size p" "4 \<le> length r \<longrightarrow> length r < packet_size r"
  shows "frames (concat ps @ r) = (ps, r)"
  using assms by (induction ps) (simp_all add: frames_short frames_complete)

lemma well_framed_concat:
  assumes "\<forall>p\<in>set ps. complete p \<and> 4 < packet_size p" "4 \<le> length r \<longrightarrow> 4 < packet_size r \<and> length r < packet_size r"
  shows "well_framed (concat ps @ r)"
  using assms
proof (induction ps)
  case Nil
  then show ?case by (auto simp: well_framed.simps [of r])
next
  case (Cons p ps)
  then have "well_framed (concat ps @ r)" by simp
  then show ?case using Cons.prems(1)
    by (subst well_framed.simps) (auto simp: complete_size)
qed

section \<open>Whatever way the bytes arrive\<close>

text \<open>After \<open>S\<close> bytes, every one of these packets ends where its block has room for another length:
  neither at the end of a block of 4096 bytes nor within its last three.\<close>

primrec clear_ends :: "nat \<Rightarrow> byte list list \<Rightarrow> bool" where
  "clear_ends S [] = True"
| "clear_ends S (p # ps) = (clear_end (S + length p) \<and> clear_ends (S + length p) ps)"

lemma clear_ends_append:
  "clear_ends S (ps @ qs) \<longleftrightarrow> clear_ends S ps \<and> clear_ends (S + length (concat ps)) qs"
  by (induction ps arbitrary: S) (simp_all add: add.assoc)

text \<open>\<open>n'\<close> is \<open>n\<close> with the packets \<open>ps\<close> handed on and \<open>r\<close> under way.\<close>

definition handed_on :: "nat \<Rightarrow> net \<Rightarrow> byte list list \<Rightarrow> byte list \<Rightarrow> net \<Rightarrow> bool" where
  "handed_on S n ps r n' \<longleftrightarrow> same_conn n n' \<and> faults n' = faults n \<and> placed (S + length (concat ps)) n' r \<and>
     (\<exists>bufs. list_all text_ok bufs \<and> map text_of bufs = ps \<and> tasks n' = tasks n @ map (task_of n) bufs)"

lemma handed_on_refl: "placed S n r \<Longrightarrow> handed_on S n [] r n"
  by (auto simp: handed_on_def same_conn_def)

lemma task_of_same: "same_conn n n' \<Longrightarrow> task_of n' = task_of n"
  by (auto simp: same_conn_def task_of_def fun_eq_iff)

lemma handed_on_trans:
  assumes "handed_on S n ps r n'" "handed_on (S + length (concat ps)) n' qs s n''"
  shows "handed_on S n (ps @ qs) s n''"
proof -
  obtain bufs bufs' where "list_all text_ok bufs" "map text_of bufs = ps" "tasks n' = tasks n @ map (task_of n) bufs"
    "list_all text_ok bufs'" "map text_of bufs' = qs" "tasks n'' = tasks n' @ map (task_of n') bufs'" "same_conn n n'"
    using assms by (auto simp: handed_on_def)
  then have "\<exists>bufs. list_all text_ok bufs \<and> map text_of bufs = ps @ qs \<and> tasks n'' = tasks n @ map (task_of n) bufs"
    by (intro exI [of _ "bufs @ bufs'"]) (simp add: task_of_same)
  moreover have "faults n'' = faults n" "same_conn n n''" "placed (S + length (concat (ps @ qs))) n'' s"
    using assms same_conn_trans by (auto simp: handed_on_def add.assoc)
  ultimately show ?thesis by (simp add: handed_on_def)
qed

lemma advanced_handed_on:
  assumes "advanced S n cur n'"
  shows "handed_on S n (if complete cur then [cur] else []) (if complete cur then [] else cur) n'"
proof (cases "complete cur")
  case True
  then obtain buf where "text_ok buf" "text_of buf = cur" "tasks n' = tasks n @ [task_of n buf]"
    using assms by (auto simp: advanced_def)
  then have "\<exists>bufs. list_all text_ok bufs \<and> map text_of bufs = [cur] \<and> tasks n' = tasks n @ map (task_of n) bufs"
    by (intro exI [of _ "[buf]"]) simp
  then show ?thesis using True assms by (simp add: handed_on_def advanced_def)
qed (use assms in \<open>simp add: handed_on_def advanced_def\<close>)

lemma recv_segments:
  assumes "0 < want"
  shows "recv want (map Segment segs) = (Errno 11, []) \<and> concat segs = [] \<or>
    (\<exists>bs segs'. recv want (map Segment segs) = (Got bs, map Segment segs') \<and> bs \<noteq> [] \<and> length bs \<le> want \<and>
       concat segs = bs @ concat segs')"
proof (induction segs)
  case (Cons s segs)
  show ?case
  proof (cases "s = []")
    case False
    then show ?thesis using assms
      by (cases "want < length s") (auto intro: exI [of _ "drop want s # segs"] exI [of _ segs])
  qed (use Cons assms in simp)
qed simp

text \<open>One turn: some prefix of what has arrived is taken.\<close>

lemma process_receive_segments:
  assumes "placed S n cur" "well_framed (cur @ concat segs)" "clear_ends S (fst (frames (cur @ concat segs)))"
  shows "\<exists>rc segs' n' taken ps r. sockbase_process_receive E (map Segment segs) n = (rc, map Segment segs', n') \<and>
    concat segs = taken @ concat segs' \<and> frames (cur @ taken) = (ps, r) \<and> handed_on S n ps r n' \<and>
    (rc = - EAGAIN \<and> segs' = [] \<or> rc = 0 \<and> weight (map Segment segs') < weight (map Segment segs))"
  using assms
proof (induction "weight (map Segment segs)" arbitrary: segs n cur S rule: less_induct)
  case less
  have inv: "rx_inv n cur" using less.prems(1) by (simp add: placed_def)
  note req = rx_inv_requested [OF inv]
  have short: "4 \<le> length cur \<longrightarrow> length cur < packet_size cur"
  proof -
    obtain pk where "state_ok n pk cur" using inv by (auto simp: rx_inv_def mid_def)
    then show ?thesis by (auto simp: state_ok_def packet_size_def split: if_splits)
  qed
  show ?case
    using recv_segments [OF req(2), of segs]
  proof
    assume none: "recv (requested n) (map Segment segs) = (Errno 11, []) \<and> concat segs = []"
    then have "sockbase_process_receive E (map Segment segs) n = (- EAGAIN, map Segment [], n)"
      using req(3) by (subst sockbase_process_receive.simps) (simp add: sockbase_receive_def EAGAIN_def)
    then show ?thesis
      using none frames_short [OF short] handed_on_refl [OF less.prems(1)]
      by (intro exI [of _ "- EAGAIN"] exI [of _ "[]"] exI [of _ n] exI [of _ cur]) simp
  next
    assume "\<exists>bs segs'. recv (requested n) (map Segment segs) = (Got bs, map Segment segs') \<and> bs \<noteq> [] \<and>
      length bs \<le> requested n \<and> concat segs = bs @ concat segs'"
    then obtain bs segs' where got: "recv (requested n) (map Segment segs) = (Got bs, map Segment segs')" "bs \<noteq> []"
      "length bs \<le> requested n" "concat segs = bs @ concat segs'" by blast
    have wf: "well_framed ((cur @ bs) @ concat segs')" using less.prems(2) got(4) by simp
    have head: "4 < sint (header (cur @ bs))" if "4 \<le> length (cur @ bs)"
      using well_framed_header [OF wf that] .
    define cur1 where "cur1 = (if complete (cur @ bs) then [] else cur @ bs)"
    define out where "out = (if complete (cur @ bs) then [cur @ bs] else [])"
    have split: "frames ((cur @ bs) @ t) = (out @ fst (frames (cur1 @ t)), snd (frames (cur1 @ t)))" for t
      using frames_complete [of "cur @ bs" t] head by (auto simp: out_def cur1_def complete_size packet_size_def)
    have ends: "clear_ends S out" "clear_ends (S + length (concat out)) (fst (frames (cur1 @ concat segs')))"
      using less.prems(3) split [of "concat segs'"] by (simp_all add: got(4) clear_ends_append)
    have clear: "clear_end (S + length (cur @ bs))" if "complete (cur @ bs)" using ends(1) that by (simp add: out_def)
    have some: "0 < length bs" using got(2) by simp
    obtain b st n1 where step: "psc_rx_buffer (psc n) = (b, ec_offset (echo n))"
      "echo_forward E (length bs) (write_block b (ec_offset (echo n)) bs (set_psc (\<lambda>c. c\<lparr>psc_rx_started := True\<rparr>) n)) = (st, n1)"
      "st = 0 \<or> st = - EAGAIN" "advanced S n (cur @ bs) n1"
      using receive_step [OF less.prems(1) some got(3) head clear, of E] by blast
    have n1: "handed_on S n out cur1 n1" "placed (S + length (concat out)) n1 cur1"
      using advanced_handed_on [OF step(4)] by (simp_all add: out_def cur1_def handed_on_def)
    have wf1: "well_framed (cur1 @ concat segs')"
      using wf well_framed_complete [OF wf] by (simp add: cur1_def)
    have recvd: "sockbase_receive (map Segment segs) n = (int (length bs), map Segment segs',
        write_block b (ec_offset (echo n)) bs (set_psc (\<lambda>c. c\<lparr>psc_rx_started := True\<rparr>) n))"
      using got(1,2) step(1) by (simp add: sockbase_receive_def set_psc_def)
    have run: "sockbase_process_receive E (map Segment segs) n =
        (if st = - EAGAIN then sockbase_process_receive E (map Segment segs') n1 else (st, map Segment segs', n1))"
      using req(3) got(2) step(2) by (subst sockbase_process_receive.simps) (simp add: recvd)
    have lighter: "weight (map Segment segs') < weight (map Segment segs)" using recv_weight [OF got(1,2)] .
    show ?thesis
    proof (cases "st = - EAGAIN")
      case True
      from less.hyps [OF lighter n1(2) wf1 ends(2)]
      obtain rc segs'' n' taken ps r where IH: "sockbase_process_receive E (map Segment segs') n1 = (rc, map Segment segs'', n')"
        "concat segs' = taken @ concat segs''" "frames (cur1 @ taken) = (ps, r)" "handed_on (S + length (concat out)) n1 ps r n'"
        "rc = - EAGAIN \<and> segs'' = [] \<or> rc = 0 \<and> weight (map Segment segs'') < weight (map Segment segs')" by blast
      have "frames (cur @ (bs @ taken)) = (out @ ps, r)" using split [of taken] IH(3) by simp
      moreover have "handed_on S n (out @ ps) r n'" using handed_on_trans [OF n1(1) IH(4)] .
      ultimately show ?thesis using run True IH(1,2,5) got(4) lighter
        by (intro exI [of _ rc] exI [of _ segs''] exI [of _ n'] exI [of _ "bs @ taken"] exI [of _ "out @ ps"] exI [of _ r]) auto
    next
      case False
      have "frames cur1 = ([], cur1)"
        using n1(2) by (intro frames_short) (auto simp: placed_def rx_inv_def mid_def state_ok_def packet_size_def split: if_splits)
      then have "frames (cur @ bs) = (out, cur1)" using split [of "[]"] by simp
      then show ?thesis using run False step(3) got(4) lighter n1(1)
        by (intro exI [of _ st] exI [of _ segs'] exI [of _ n1] exI [of _ bs] exI [of _ out] exI [of _ cur1]) auto
    qed
  qed
qed

text \<open>The fields the scheduler works on.\<close>

definition sched :: "bool \<Rightarrow> bool \<Rightarrow> int \<Rightarrow> net \<Rightarrow> net" where
  "sched ready scheduled refs n =
     n\<lparr>psc := (psc n)\<lparr>psc_rx_ready := ready, psc_rx_scheduled := scheduled, psc_refcount := refs\<rparr>\<rparr>"

lemma rx_inv_sched [simp]: "rx_inv (sched x y z n) cur = rx_inv n cur"
  by (simp add: rx_inv_def mid_def sched_def state_ok_def)

lemma placed_sched [simp]: "placed S (sched x y z n) cur = placed S n cur"
  by (simp add: placed_def) (simp add: sched_def)

lemma handed_on_sched: "handed_on S n ps r n' \<Longrightarrow> handed_on S (sched x y z n) ps r (sched x y z n')"
  unfolding handed_on_def placed_sched
  by (auto simp: sched_def same_conn_def task_of_def [abs_def])

lemma rx_inv_live: "rx_inv n cur \<Longrightarrow> \<not> conn_freed n"
  by (simp add: rx_inv_def mid_def)

lemma schedule_segments:
  assumes "placed S n cur" "well_framed (cur @ concat segs)" "clear_ends S (fst (frames (cur @ concat segs)))"
    and "psc_refcount (psc n) \<noteq> 1"
    and "weight (map Segment segs) < fuel"
  shows "\<exists>n' ps r. sockbase_schedule fuel E (map Segment segs) n = Some ([], n') \<and>
    frames (cur @ concat segs) = (ps, r) \<and> handed_on S (sched False False (psc_refcount (psc n) - 1) n) ps r n'"
  using assms
proof (induction fuel arbitrary: segs n cur S)
  case (Suc fuel)
  let ?s = "psc_rx_scheduled (psc n)" and ?refs = "psc_refcount (psc n)"
  let ?n0 = "sched False ?s ?refs n"
  have n0: "set_psc (\<lambda>c. c\<lparr>psc_rx_ready := False\<rparr>) n = ?n0" by (simp add: set_psc_def sched_def)
  have "placed S ?n0 cur" using Suc.prems(1) by simp
  from process_receive_segments [OF this Suc.prems(2,3), of E]
  obtain rc segs' n1 bs ps r where p: "sockbase_process_receive E (map Segment segs) ?n0 = (rc, map Segment segs', n1)"
    "concat segs = bs @ concat segs'" "frames (cur @ bs) = (ps, r)" "handed_on S ?n0 ps r n1"
    "rc = - EAGAIN \<and> segs' = [] \<or> rc = 0 \<and> weight (map Segment segs') < weight (map Segment segs)" by blast
  let ?S = "S + length (concat ps)"
  have inv1: "rx_inv n1 r" "placed ?S n1 r" and ready1: "\<not> psc_rx_ready (psc n1)" "psc_rx_scheduled (psc n1) = ?s"
    "psc_refcount (psc n1) = ?refs"
    using p(4) by (auto simp: handed_on_def placed_def same_conn_def sched_def)
  have ends: "clear_ends ?S (fst (frames (r @ concat segs')))"
    using Suc.prems(3) frames_append [OF p(3), of "concat segs'"] p(2) by (simp add: clear_ends_append)
  have touch: "touch_conn n1 = n1" using rx_inv_live [OF inv1(1)] by (simp add: touch_conn_def)
  show ?case
    using p(5)
  proof
    assume over: "rc = - EAGAIN \<and> segs' = []"
    let ?n' = "sched False False (?refs - 1) n1"
    have "sock_conn_decref (set_psc (\<lambda>c. c\<lparr>psc_rx_scheduled := False\<rparr>) n1) = ?n'"
      using rx_inv_live [OF inv1(1)] Suc.prems(4) ready1
      by (simp add: sock_conn_decref_def touch_conn_def set_psc_def sched_def Let_def)
    then have "sockbase_schedule (Suc fuel) E (map Segment segs) n = Some ([], ?n')"
      using p(1) n0 touch ready1 over by (simp add: EAGAIN_def Let_def)
    moreover have "handed_on S (sched False False (?refs - 1) n) ps r ?n'"
      using handed_on_sched [OF p(4), of False False "?refs - 1"] by (simp add: sched_def)
    ultimately show ?thesis using p(2,3) over by auto
  next
    assume more: "rc = 0 \<and> weight (map Segment segs') < weight (map Segment segs)"
    let ?n2 = "sched True ?s ?refs n1"
    have n2: "set_psc (\<lambda>c. c\<lparr>psc_rx_ready := True\<rparr>) n1 = ?n2"
      using ready1 by (simp add: set_psc_def sched_def)
    have run: "sockbase_schedule (Suc fuel) E (map Segment segs) n = sockbase_schedule fuel E (map Segment segs') ?n2"
      using p(1) n0 touch n2 more by (simp add: Let_def) (simp add: sched_def)
    have wf: "well_framed (r @ concat segs')"
      using well_framed_rest [of "cur @ bs" "concat segs'" ps r] Suc.prems(2) p(2,3) by simp
    have fuel: "weight (map Segment segs') < fuel" using Suc.prems(5) more by simp
    have inv2: "placed ?S ?n2 r" "clear_ends ?S (fst (frames (r @ concat segs')))" using inv1(2) ends by simp_all
    have refs: "psc_refcount (psc ?n2) \<noteq> 1" using Suc.prems(4) by (simp add: sched_def)
    obtain n' ps' r' where IH: "sockbase_schedule fuel E (map Segment segs') ?n2 = Some ([], n')"
      "frames (r @ concat segs') = (ps', r')" "handed_on ?S (sched False False (psc_refcount (psc ?n2) - 1) ?n2) ps' r' n'"
      using Suc.IH [OF inv2(1) wf inv2(2) refs fuel] by blast
    have "handed_on S (sched False False (?refs - 1) n) ps r (sched False False (?refs - 1) n1)"
      using handed_on_sched [OF p(4), of False False "?refs - 1"] by (simp add: sched_def)
    then have "handed_on S (sched False False (?refs - 1) n) (ps @ ps') r' n'"
      using IH(3) handed_on_trans by (fastforce simp: sched_def)
    moreover have "frames (cur @ concat segs) = (ps @ ps', r')"
      using frames_append [OF p(3), of "concat segs'"] IH(2) p(2) by simp
    ultimately show ?thesis using run IH(1) by auto
  qed
qed simp

text \<open>A connection at rest: nothing scheduled, one reference.\<close>

definition idle :: "net \<Rightarrow> byte list \<Rightarrow> bool" where
  "idle n cur \<longleftrightarrow> rx_inv n cur \<and> psc_refcount (psc n) = 1 \<and> \<not> psc_closing (psc n) \<and>
     \<not> psc_rx_scheduled (psc n) \<and> \<not> psc_rx_ready (psc n)"

lemma read_event:
  assumes "idle n cur" "well_framed (cur @ concat segs)" "clear_ends S (fst (frames (cur @ concat segs)))"
    and "weight (map Segment segs) < fuel" "placed S n cur"
  shows "\<exists>n' ps r. server_read_buffer fuel E (map Segment segs) n = Some ([], n') \<and>
    frames (cur @ concat segs) = (ps, r) \<and> handed_on S n ps r n' \<and> idle n' r"
proof -
  let ?n = "sched True True 2 n"
  have inv: "placed S ?n cur" using assms(5) by simp
  have refs: "psc_refcount (psc ?n) = 2" by (simp add: sched_def)
  have ev: "server_read_buffer fuel E as n = sockbase_schedule fuel E as ?n" for "as"
    using assms(1) by (simp add: server_read_buffer_def sock_conn_addref_def set_psc_def sched_def idle_def)
  have n: "sched False False 1 ?n = n"
    using assms(1) by (cases n) (simp add: idle_def sched_def)
  from schedule_segments [OF inv assms(2,3) _ assms(4), of E]
  obtain n' ps r where run: "sockbase_schedule fuel E (map Segment segs) ?n = Some ([], n')"
    "frames (cur @ concat segs) = (ps, r)" "handed_on S n ps r n'"
    using refs n by auto
  then have "idle n' r" using assms(1) by (auto simp: idle_def handed_on_def placed_def same_conn_def)
  then show ?thesis using run ev by auto
qed

lemma new_connection_idle: "idle (new_connection E type sock) []"
proof -
  let ?n = "\<lparr>blocks = (\<lambda>_. None), next_block = 0,
       psc = create_sock_conn\<lparr>psc_sock := sock, psc_type := type, psc_rx_nob_left := 4,
         psc_rx_nob_wanted := 4, psc_rx_state := STATE_NEW\<rparr>,
       echo = echo_conn_alloc, conn_freed = False, tasks = [], closes = [], faults = {}\<rparr>"
  have "mid ?n []"
    by (rule midI [of _ NoBlocks "[]" "[]"])
      (simp_all add: echo_conn_alloc_def create_sock_conn_def under_way_def owns_def holds_def state_ok_def
        missing_def pending_def)
  then obtain n' where "echo_post_recv E 0 ?n = (0, n')" "rx_inv n' []" "quiet ?n n'"
    using post_recv_inv by blast
  then show ?thesis
    by (simp add: new_connection_def idle_def quiet_def same_conn_def create_sock_conn_def)
qed

section \<open>A connection from its start\<close>

text \<open>The event loop calls \<^verbatim>\<open>server_read_buffer\<close> each time something has arrived.\<close>

fun read_events :: "nat \<Rightarrow> net_env \<Rightarrow> byte list list list \<Rightarrow> net \<Rightarrow> net option" where
  "read_events fuel E [] n = Some n"
| "read_events fuel E (segs # events) n = (case server_read_buffer fuel E (map Segment segs) n of
       Some ([], n) \<Rightarrow> read_events fuel E events n
     | _ \<Rightarrow> None)"

lemma read_events_idle:
  assumes "idle n cur" "well_framed (cur @ concat (concat events))"
    and "clear_ends S (fst (frames (cur @ concat (concat events))))"
    and "\<forall>segs\<in>set events. weight (map Segment segs) < fuel" "placed S n cur"
  shows "\<exists>n' ps r. read_events fuel E events n = Some n' \<and> frames (cur @ concat (concat events)) = (ps, r) \<and>
    handed_on S n ps r n' \<and> idle n' r"
  using assms
proof (induction events arbitrary: n cur S)
  case Nil
  have inv: "rx_inv n cur" using Nil(1) by (simp add: idle_def)
  then have "frames cur = ([], cur)"
    by (intro frames_short) (auto simp: rx_inv_def mid_def state_ok_def packet_size_def split: if_splits)
  then show ?case using Nil handed_on_refl [OF Nil(5)] by auto
next
  case (Cons segs events)
  have wf: "well_framed ((cur @ concat segs) @ concat (concat events))" using Cons.prems(2) by simp
  have fuel: "weight (map Segment segs) < fuel" using Cons.prems(4) by simp
  have wf1: "well_framed (cur @ concat segs)" using wf by (rule well_framed_prefix)
  obtain ps0 r0 where f: "frames (cur @ concat segs) = (ps0, r0)" by fastforce
  have c: "clear_ends S ps0" "clear_ends (S + length (concat ps0)) (fst (frames (r0 @ concat (concat events))))"
    using Cons.prems(3) frames_append [OF f, of "concat (concat events)"] by (simp_all add: clear_ends_append)
  from read_event [OF Cons.prems(1) wf1 _ fuel Cons.prems(5), of E] c(1) f
  obtain n1 ps r where ev: "server_read_buffer fuel E (map Segment segs) n = Some ([], n1)"
    "frames (cur @ concat segs) = (ps, r)" "handed_on S n ps r n1" "idle n1 r" by auto
  have p: "placed (S + length (concat ps)) n1 r" using ev(3) by (simp add: handed_on_def)
  have "well_framed (r @ concat (concat events))" using well_framed_rest [OF wf ev(2)] .
  from Cons.IH [OF ev(4) this _ _ p] Cons.prems(4) c(2) f ev(2)
  obtain n' ps' r' where IH: "read_events fuel E events n1 = Some n'" "frames (r @ concat (concat events)) = (ps', r')"
    "handed_on (S + length (concat ps)) n1 ps' r' n'" "idle n' r'" by auto
  have "frames (cur @ concat (concat (segs # events))) = (ps @ ps', r')"
    using frames_append [OF ev(2), of "concat (concat events)"] IH(2) by simp
  then show ?case using ev(1) IH(1,4) handed_on_trans [OF ev(3) IH(3)] by auto
qed

definition calls_of :: "net \<Rightarrow> plugin_call list" where
  "calls_of n = map sys_trun (tasks n)"

lemma sys_trun_accept:
  "text_ok b \<Longrightarrow> psc_type (psc n) = ACCEPT \<Longrightarrow>
   sys_trun (task_of n b) = HandlerRead (psc_sock (psc n)) (text_of b) (int (length (text_of b)))"
  using text_used [of b] by (simp add: text_ok_def task_of_def sys_trun_def)

lemma calls_accept:
  "list_all text_ok bufs \<Longrightarrow> psc_type (psc n) = ACCEPT \<Longrightarrow>
   map sys_trun (map (task_of n) bufs) =
     map (\<lambda>p. HandlerRead (psc_sock (psc n)) p (int (length p))) (map text_of bufs)"
  by (induction bufs) (simp_all add: sys_trun_accept)

lemma new_connection_fields:
  "psc_type (psc (new_connection E type sock)) = type" "psc_sock (psc (new_connection E type sock)) = sock"
  "tasks (new_connection E type sock) = []" "closes (new_connection E type sock) = []"
  "faults (new_connection E type sock) = {}"
  by (simp_all add: new_connection_def echo_post_recv_def post_block_def echo_block_alloc_def set_echo_def
      echo_block_addref_def block_length_def set_psc_def create_sock_conn_def echo_conn_alloc_def Let_def)

lemma new_connection_offset: "ec_offset (echo (new_connection E type sock)) = 0"
  by (simp add: new_connection_def echo_post_recv_def post_block_def echo_block_alloc_def set_echo_def
      echo_block_addref_def block_length_def set_psc_def echo_conn_alloc_def Let_def)

lemma fresh_events:
  assumes "well_framed (concat (concat events))" and "clear_ends 0 (fst (frames (concat (concat events))))"
    and "\<forall>segs\<in>set events. weight (map Segment segs) < fuel"
  shows "\<exists>n ps r. read_events fuel E events (new_connection E ACCEPT sock) = Some n \<and>
    frames (concat (concat events)) = (ps, r) \<and> calls_of n = map (\<lambda>p. HandlerRead sock p (int (length p))) ps \<and>
    closes n = [] \<and> faults n = {} \<and> idle n r"
proof -
  let ?n = "new_connection E ACCEPT sock"
  have "well_framed ([] @ concat (concat events))" "clear_ends 0 (fst (frames ([] @ concat (concat events))))"
    using assms(1,2) by simp_all
  moreover have "placed 0 ?n []"
    using new_connection_idle [of E ACCEPT sock] by (simp add: placed_def idle_def) (simp add: new_connection_offset)
  ultimately have "\<exists>n ps r. read_events fuel E events ?n = Some n \<and> frames ([] @ concat (concat events)) = (ps, r) \<and>
      handed_on 0 ?n ps r n \<and> idle n r"
    using read_events_idle [OF new_connection_idle [of E ACCEPT sock] _ _ assms(3)] by blast
  then
  obtain n ps r where n: "read_events fuel E events ?n = Some n" "frames (concat (concat events)) = (ps, r)"
    "handed_on 0 ?n ps r n" "idle n r" by auto
  obtain bufs where bufs: "list_all text_ok bufs" "map text_of bufs = ps" "tasks n = map (task_of ?n) bufs"
    using n(3) new_connection_fields(3) [of E ACCEPT sock] by (auto simp: handed_on_def)
  have "calls_of n = map (\<lambda>p. HandlerRead sock p (int (length p))) ps"
    using calls_accept [OF bufs(1), of ?n] bufs(2,3) new_connection_fields(1,2) by (simp add: calls_of_def)
  moreover have "closes n = []" "faults n = {}"
    using n(3) by (auto simp: handed_on_def same_conn_def new_connection_fields)
  ultimately show ?thesis using n by blast
qed

text \<open>C4: However the bytes of packets of more than four bytes, and of the beginning of another, are
  cut on their way and spread over read events, the handler of the plugin is called for
  exactly those packets, once each and in order, with the bytes and length of each; the
  connection stays open, no access leaves a block or uses freed memory, and once every packet
  is complete one block is all the connection holds. Excluded are streams in which a packet
  ends at the end of a 4096-byte block or in its last three bytes: there the core reads the
  length of the block it has just freed.\<close>

theorem stream_is_cut_into_packets:
  assumes "\<forall>p\<in>set ps. complete p \<and> 4 < length p" and "clear_ends 0 ps"
    and "4 \<le> length r \<longrightarrow> 4 < packet_size r \<and> length r < packet_size r"
    and "concat (concat events) = concat ps @ r"
    and "\<forall>segs\<in>set events. weight (map Segment segs) < fuel"
  shows "\<exists>n. read_events fuel E events (new_connection E ACCEPT sock) = Some n \<and>
    calls_of n = map (\<lambda>p. HandlerRead sock p (int (length p))) ps \<and>
    \<not> conn_freed n \<and> closes n = [] \<and> faults n = {} \<and>
    (r = [] \<longrightarrow> (\<exists>b. dom (blocks n) = {b}))"
proof -
  have ps: "\<forall>p\<in>set ps. complete p \<and> 4 < packet_size p" using assms(1) by (auto simp: complete_size)
  have f: "frames (concat (concat events)) = (ps, r)" using frames_concat [OF ps, of r] assms(3,4) by auto
  have "well_framed (concat (concat events))" using well_framed_concat [OF ps assms(3)] assms(4) by simp
  from fresh_events [OF this _ assms(5), of E sock] f assms(2)
  obtain n where n: "read_events fuel E events (new_connection E ACCEPT sock) = Some n"
    "calls_of n = map (\<lambda>p. HandlerRead sock p (int (length p))) ps" "closes n = []" "faults n = {}" "idle n r"
    by auto
  have "\<not> conn_freed n" using n(5) rx_inv_live by (auto simp: idle_def)
  moreover have "r = [] \<longrightarrow> (\<exists>b. dom (blocks n) = {b})"
    using n(5) by (auto simp: idle_def rx_inv_def mid_def owns_def state_ok_def)
  ultimately show ?thesis using n by blast
qed

theorem stream_is_cut_into_packets_witness:
  "\<exists>n. read_events 100 \<lparr>ne_uninit = (\<lambda>_. 0), ne_freed_length = 0, ne_unset_rc = 0\<rparr>
      [[[6, 0], [0]], [[0, 1, 2, 5, 0, 0, 0, 9, 7, 0]]]
      (new_connection \<lparr>ne_uninit = (\<lambda>_. 0), ne_freed_length = 0, ne_unset_rc = 0\<rparr> ACCEPT 5) = Some n \<and>
    calls_of n = [HandlerRead 5 [6, 0, 0, 0, 1, 2] 6, HandlerRead 5 [5, 0, 0, 0, 9] 5]"
  using stream_is_cut_into_packets [of "[[6, 0, 0, 0, 1, 2], [5, 0, 0, 0, 9]]" "[7, 0]"
    "[[[6, 0], [0]], [[0, 1, 2, 5, 0, 0, 0, 9, 7, 0]]]" 100
    "\<lparr>ne_uninit = (\<lambda>_. 0), ne_freed_length = 0, ne_unset_rc = 0\<rparr>" 5]
  by (auto simp: complete_def header_def packet_size_def clear_end_def)

section \<open>The end of a connection\<close>

text \<open>A read that finds the end, or fails: the connection is closed and freed, and used again.\<close>

lemma closing_turn:
  assumes n: "\<not> conn_freed n" "psc_refcount (psc n) = 2" "\<not> psc_closing (psc n)" "psc_type (psc n) = ACCEPT"
    "psc_rx_nob_wanted (psc n) \<noteq> 0" "psc_rx_scheduled (psc n)"
    and rc: "\<And>x. sockbase_receive as (sched x True 2 n) = (rc, as', sched x True 2 n)" "rc \<le> 0" "rc \<noteq> - EAGAIN"
  shows "\<exists>n'. sockbase_schedule (Suc fuel) E as n = Some (as', n') \<and>
    closes n' = closes n @ [ConnectionClose (psc_sock (psc n))] \<and> tasks n' = tasks n \<and>
    conn_freed n' \<and> FreedConnection \<in> faults n'"
proof -
  have keep: "closes (echo_conn_free m) = closes m" "tasks (echo_conn_free m) = tasks m" "psc (echo_conn_free m) = psc m" for m
    by (auto simp: echo_conn_free_def echo_block_decref_def echo_block_free_def net_fail_def Let_def split: option.split)
  let ?n = "sched False True 2 n"
  let ?n1 = "sched False True 1 n"
  have d1: "sock_conn_decref ?n = ?n1"
    using n(1) by (simp add: sock_conn_decref_def touch_conn_def sched_def set_psc_def Let_def)
  let ?n2 = "destroy_sock_conn ((sched False True 0 n)\<lparr>closes := closes n @ [ConnectionClose (psc_sock (psc n))]\<rparr>)"
  have d2: "sock_conn_decref ?n1 = ?n2"
    using n(1,4) by (simp add: sock_conn_decref_def touch_conn_def sched_def set_psc_def Let_def)
  have "\<exists>rc'. sockbase_process_receive E as ?n = (rc', as', ?n2) \<and> rc' \<noteq> 0"
    using n(3,5) rc d1 d2
    by (subst sockbase_process_receive.simps) (simp add: ESHUTDOWN_def sched_def Let_def)
  then obtain rc' where run: "sockbase_process_receive E as ?n = (rc', as', ?n2)" "rc' \<noteq> 0" by blast
  have start: "set_psc (\<lambda>c. c\<lparr>psc_rx_ready := False\<rparr>) n = ?n"
    using n(2,6) by (simp add: set_psc_def sched_def)
  have n2: "conn_freed ?n2" "psc ?n2 = psc (sched False True 0 n)" "tasks ?n2 = tasks n"
    "closes ?n2 = closes n @ [ConnectionClose (psc_sock (psc n))]"
    by (simp_all add: destroy_sock_conn_def keep) (simp_all add: sched_def)
  have "sockbase_schedule (Suc fuel) E as n = Some (as',
      sock_conn_decref (set_psc (\<lambda>c. c\<lparr>psc_rx_scheduled := False\<rparr>) (net_fail FreedConnection ?n2)))"
    using run n2(1,2) start by (simp add: touch_conn_def Let_def) (simp add: net_fail_def sched_def)
  moreover have "sock_conn_decref (set_psc (\<lambda>c. c\<lparr>psc_rx_scheduled := False\<rparr>) (net_fail FreedConnection ?n2)) =
      set_psc (\<lambda>c. c\<lparr>psc_rx_scheduled := False, psc_refcount := - 1\<rparr>) (net_fail FreedConnection ?n2)"
    using n2(1,2) by (simp add: sock_conn_decref_def touch_conn_def set_psc_def net_fail_def Let_def) (simp add: sched_def)
  ultimately show ?thesis
    using n2 by (simp add: set_psc_def net_fail_def)
qed

lemma idle_event:
  "idle n cur \<Longrightarrow> server_read_buffer fuel E as n = sockbase_schedule fuel E as (sched True True 2 n)"
  by (simp add: server_read_buffer_def sock_conn_addref_def set_psc_def sched_def idle_def)

text \<open>C34: When the peer of a connection at rest ends the stream, the close handler of the plugin is
  called exactly once and the connection is freed, but the scheduler goes on to use what was
  freed; what that memory then holds is taken to be what it held before.\<close>

theorem end_of_stream:
  assumes "idle n cur" and "psc_type (psc n) = ACCEPT"
  shows "\<exists>n'. server_read_buffer (Suc fuel) E [PeerClosed] n = Some ([PeerClosed], n') \<and>
    closes n' = closes n @ [ConnectionClose (psc_sock (psc n))] \<and> tasks n' = tasks n \<and>
    conn_freed n' \<and> FreedConnection \<in> faults n'"
proof -
  have inv: "rx_inv n cur" "\<not> psc_closing (psc n)" using assms(1) by (simp_all add: idle_def)
  let ?n = "sched True True 2 n" and ?rc = "if psc_rx_started (psc n) then - EPROTO else 0 :: int"
  have "\<exists>n'. sockbase_schedule (Suc fuel) E [PeerClosed] ?n = Some ([PeerClosed], n') \<and>
    closes n' = closes ?n @ [ConnectionClose (psc_sock (psc ?n))] \<and> tasks n' = tasks ?n \<and>
    conn_freed n' \<and> FreedConnection \<in> faults n'"
  proof (rule closing_turn)
    show "sockbase_receive [PeerClosed] (sched x True 2 ?n) = (?rc, [PeerClosed], sched x True 2 ?n)" for x
      by (simp add: sockbase_receive_def sched_def)
  qed (use rx_inv_live [OF inv(1)] rx_inv_requested(3) [OF inv(1)] inv(2) assms(2) in
      \<open>simp_all add: sched_def EPROTO_def EAGAIN_def\<close>)
  then show ?thesis unfolding idle_event [OF assms(1)] by (simp only: sched_def) simp
qed

theorem end_of_stream_witness:
  "\<exists>n'. server_read_buffer 1 \<lparr>ne_uninit = (\<lambda>_. 0), ne_freed_length = 4096, ne_unset_rc = 0\<rparr> [PeerClosed]
      (new_connection \<lparr>ne_uninit = (\<lambda>_. 0), ne_freed_length = 4096, ne_unset_rc = 0\<rparr> ACCEPT 5) = Some ([PeerClosed], n') \<and>
    closes n' = [ConnectionClose 5]"
  using end_of_stream [OF new_connection_idle, of "\<lparr>ne_uninit = (\<lambda>_. 0), ne_freed_length = 4096, ne_unset_rc = 0\<rparr>"
      ACCEPT 5 0 "\<lparr>ne_uninit = (\<lambda>_. 0), ne_freed_length = 4096, ne_unset_rc = 0\<rparr>"]
  by (auto simp: new_connection_fields)

section \<open>Lengths that do not count themselves\<close>

text \<open>The state after four bytes.\<close>

lemma new_connection_record:
  "new_connection E type sock = \<lparr>blocks = [0 \<mapsto> \<lparr>bk_address = replicate 4096 0, bk_length = 4096, bk_refcount = 1\<rparr>],
     next_block = 1, psc = create_sock_conn\<lparr>psc_sock := sock, psc_type := type, psc_rx_nob_left := 4,
       psc_rx_nob_wanted := 4, psc_rx_state := STATE_NEW, psc_rx_size := 4, psc_rx_buffer := (0, 0)\<rparr>,
     echo = \<lparr>ec_block = Some 0, ec_prev_packet_offset = 0, ec_offset = 0, ec_packet = None\<rparr>,
     conn_freed = False, tasks = [], closes = [], faults = {}\<rparr>"
  by (simp add: new_connection_def echo_post_recv_def post_block_def echo_block_alloc_def set_echo_def
      echo_block_addref_def block_length_def set_psc_def create_sock_conn_def echo_conn_alloc_def
      post_size_def Let_def)

definition after_header :: "net_env \<Rightarrow> connect_type \<Rightarrow> int32 \<Rightarrow> int32 \<Rightarrow> net" where
  "after_header E type sock h = \<lparr>blocks = [0 \<mapsto> \<lparr>bk_address = le_bytes 4 h @ replicate 4092 0, bk_length = 4096, bk_refcount = 1\<rparr>],
     next_block = 1, psc = create_sock_conn\<lparr>psc_sock := sock, psc_type := type, psc_rx_started := True,
       psc_rx_nob_left := h - 4, psc_rx_nob_wanted := h, psc_rx_state := STATE_READ_HEADER,
       psc_rx_size := (if 4092 \<le> sint (h - 4) then 4092 else h - 4), psc_rx_buffer := (0, 4)\<rparr>,
     echo = \<lparr>ec_block = Some 0, ec_prev_packet_offset = 0, ec_offset = 4, ec_packet = Some NoBlocks\<rparr>,
     conn_freed = False, tasks = [], closes = [], faults = {}\<rparr>"

lemma process_header:
  assumes "bs \<noteq> []"
  shows "sockbase_process_receive E [Segment (le_bytes 4 h @ bs)] (sched x y z (new_connection E type sock)) =
    (0, [Segment bs], sched x y z (after_header E type sock h))"
proof -
  let ?n = "sched x y z (new_connection E type sock)"
  have "le_bytes 4 h \<noteq> []" using length_le_bytes [of 4 h] by (metis list.size(3) zero_neq_numeral)
  moreover have "requested ?n = 4" by (simp add: requested_def new_connection_record sched_def)
  ultimately have "sockbase_receive [Segment (le_bytes 4 h @ bs)] ?n = (4, [Segment bs],
      write_block 0 0 (le_bytes 4 h) (set_psc (\<lambda>c. c\<lparr>psc_rx_started := True\<rparr>) ?n))"
    using assms by (simp add: sockbase_receive_def set_psc_def new_connection_record sched_def)
  moreover have "echo_forward E 4 (write_block 0 0 (le_bytes 4 h) (set_psc (\<lambda>c. c\<lparr>psc_rx_started := True\<rparr>) ?n)) =
      (0, sched x y z (after_header E type sock h))"
    by (simp add: echo_forward_def write_block_def set_psc_def set_echo_def new_connection_record sched_def
        echo_parse_def read_block_def echo_block_full_def block_length_def echo_post_recv_def post_block_def
        post_size_def after_header_def Let_def)
  moreover have "psc_rx_nob_wanted (psc ?n) \<noteq> 0" by (simp add: new_connection_record sched_def)
  ultimately show ?thesis
    by (subst sockbase_process_receive.simps) (simp add: EAGAIN_def)
qed

text \<open>C33: On a new connection, a length below four (not zero, and at least -2^31 + 4) makes the
  server ask the socket for more than half of all of memory: what the peer sends beyond the
  4092 bytes left in the block is stored behind it.\<close>

theorem short_length_overruns_block:
  fixes h :: int32
  assumes "- (2 ^ 31) + 4 \<le> sint h" and "sint h < 4" and "h \<noteq> 0"
    and "4092 < length bs" and "length bs < 2 ^ 63"
  shows "\<exists>n n'. sockbase_process_receive E [Segment (le_bytes 4 h @ bs)] (new_connection E ACCEPT sock) =
      (0, [Segment bs], n) \<and> faults n = {} \<and> 2 ^ 63 \<le> requested n \<and>
    sockbase_receive [Segment bs] n = (int (length bs), [], n') \<and> OutsideBlock \<in> faults n'"
proof -
  let ?n = "after_header E ACCEPT sock h"
  have neg: "sint (h - 4) = sint h - 4"
    using assms(1) sint_less [of h] by (simp add: sint_word_ariths signed_take_bit_int_eq_self)
  have size: "psc_rx_size (psc ?n) = h - 4" using neg assms(2) by (simp add: after_header_def)
  have "uint (scast (h - 4) :: int64) = 2 ^ 64 + (sint h - 4)"
  proof -
    have "uint (scast (h - 4) :: int64) = take_bit 64 (sint h - 4)"
      unfolding scast_eq neg by (simp only: unsigned_of_int) simp
    also have "\<dots> = (sint h - 4 + 2 ^ 64) mod 2 ^ 64" by (simp only: take_bit_eq_mod mod_add_self2)
    also have "\<dots> = sint h - 4 + 2 ^ 64" using assms(1,2) by (intro mod_pos_pos_trivial) simp_all
    finally show ?thesis by simp
  qed
  then have req: "2 ^ 63 \<le> requested ?n"
    using assms(1) size by (simp add: requested_def unat_eq_nat_uint nat_le_iff)
  have "bs \<noteq> []" "\<not> requested ?n < length bs" "requested ?n \<noteq> 0" using assms(4,5) req by auto
  then have "recv (requested ?n) [Segment bs] = (Got bs, [])" by simp
  then have "sockbase_receive [Segment bs] ?n = (int (length bs), [],
      write_block 0 4 bs (set_psc (\<lambda>c. c\<lparr>psc_rx_started := True\<rparr>) ?n))"
    using \<open>bs \<noteq> []\<close> by (simp add: sockbase_receive_def set_psc_def) (simp add: after_header_def)
  moreover have "OutsideBlock \<in> faults (write_block 0 4 bs (set_psc (\<lambda>c. c\<lparr>psc_rx_started := True\<rparr>) ?n))"
    using assms(4) by (simp add: write_block_def set_psc_def after_header_def net_fail_def)
  moreover have "sockbase_process_receive E [Segment (le_bytes 4 h @ bs)] (new_connection E ACCEPT sock) =
      (0, [Segment bs], ?n)"
    using process_header [OF \<open>bs \<noteq> []\<close>, of E h False False 1 ACCEPT sock]
    by (simp add: sched_def new_connection_record after_header_def create_sock_conn_def)
  moreover have "faults ?n = {}" by (simp add: after_header_def)
  ultimately show ?thesis using req by blast
qed

text \<open>A packet that is nothing but its own length, four, is not delivered: the connection is
  closed as if the peer had ended it.\<close>

theorem length_four_closes:
  assumes "bs \<noteq> []"
  shows "\<exists>n. server_read_buffer (Suc (Suc fuel)) E [Segment (le_bytes 4 (4 :: int32) @ bs)] (new_connection E ACCEPT sock) =
      Some ([Segment bs], n) \<and> calls_of n = [] \<and> closes n = [ConnectionClose sock] \<and> conn_freed n"
proof -
  let ?n = "new_connection E ACCEPT sock" and ?h = "after_header E ACCEPT sock 4"
  have "server_read_buffer (Suc (Suc fuel)) E [Segment (le_bytes 4 (4 :: int32) @ bs)] ?n =
      sockbase_schedule (Suc fuel) E [Segment bs] (sched True True 2 ?h)"
  proof -
    have "set_psc (\<lambda>c. c\<lparr>psc_rx_ready := False\<rparr>) (sched True True 2 ?n) = sched False True 2 ?n"
      "touch_conn (sched False True 2 ?h) = sched False True 2 ?h"
      "set_psc (\<lambda>c. c\<lparr>psc_rx_ready := True\<rparr>) (sched False True 2 ?h) = sched True True 2 ?h"
      "psc_rx_ready (psc (sched True True 2 ?h))"
      by (simp_all add: set_psc_def sched_def touch_conn_def after_header_def)
    then show ?thesis
      unfolding idle_event [OF new_connection_idle]
      using process_header [OF assms, of E 4 False True 2 ACCEPT sock] by (simp add: Let_def)
  qed
  moreover have "\<exists>n'. sockbase_schedule (Suc fuel) E [Segment bs] (sched True True 2 ?h) = Some ([Segment bs], n') \<and>
    closes n' = closes (sched True True 2 ?h) @ [ConnectionClose (psc_sock (psc (sched True True 2 ?h)))] \<and>
    tasks n' = tasks (sched True True 2 ?h) \<and> conn_freed n' \<and> FreedConnection \<in> faults n'"
  proof (rule closing_turn)
    show "sockbase_receive [Segment bs] (sched x True 2 (sched True True 2 ?h)) =
        (- EPROTO, [Segment bs], sched x True 2 (sched True True 2 ?h))" for x
      by (simp add: sockbase_receive_def requested_def sched_def after_header_def)
  qed (simp_all add: sched_def after_header_def create_sock_conn_def EPROTO_def EAGAIN_def)
  ultimately show ?thesis by (auto simp: calls_of_def sched_def after_header_def)
qed

theorem short_length_overruns_block_witness:
  "\<exists>n n' E. sockbase_process_receive E [Segment (le_bytes 4 (- 1 :: int32) @ replicate 5000 7)] (new_connection E ACCEPT 5) =
      (0, [Segment (replicate 5000 7)], n) \<and>
    sockbase_receive [Segment (replicate 5000 7)] n = (5000, [], n') \<and> OutsideBlock \<in> faults n'"
  using short_length_overruns_block [of "- 1" "replicate 5000 7"] by fastforce

theorem length_four_closes_witness:
  "\<exists>n E. server_read_buffer 2 E [Segment (le_bytes 4 (4 :: int32) @ [9])] (new_connection E ACCEPT 5) =
      Some ([Segment [9]], n) \<and> calls_of n = [] \<and> closes n = [ConnectionClose 5]"
  using length_four_closes [of "[9]" 0 _ 5] by (fastforce simp: numeral_2_eq_2)

end
