(* ===== verification/ChatPlugin.thy ===== *)
theory ChatPlugin
  imports ChatServer CoreStream
begin

text \<open>
  Between the core and the chat server: the calls of the plugins in
  \<^verbatim>\<open>src/server/chat/core/plugins.c\<close> and the entries the chat plugin registers in
  \<^verbatim>\<open>src/server/chat/chat/chat_init.cc\<close>.
\<close>

section \<open>Calling the plugins\<close>

datatype handler_t = HANDLER_UNSET | HANDLER_GO_ON | HANDLER_FINISHED | HANDLER_COMEBACK |
  HANDLER_WAIT_FOR_EVENT | HANDLER_ERROR | HANDLER_WAIT_FOR_FD

type_synonym 'w data_handler = "int32 \<Rightarrow> byte list option \<Rightarrow> int32 \<Rightarrow> 'w \<Rightarrow> handler_t \<times> 'w"
type_synonym 'w fd_handler = "int32 \<Rightarrow> 'w \<Rightarrow> handler_t \<times> 'w"

text \<open>The entries of a plugin; an entry not set is None.\<close>

record 'w plugin =
  pl_id :: "byte list"
  pl_connection :: "'w data_handler option"
  pl_handler_read :: "'w data_handler option"
  pl_connection_srv :: "'w data_handler option"
  pl_handler_read_srv :: "'w data_handler option"
  pl_handler_read_other :: "'w data_handler option"
  pl_connection_close :: "'w fd_handler option"
  pl_connection_close_srv :: "'w fd_handler option"
  pl_handler_init_time :: "('w \<Rightarrow> handler_t \<times> 'w) option"
  pl_time_msg :: "(byte list \<Rightarrow> int32 \<Rightarrow> int32 \<Rightarrow> 'w \<Rightarrow> handler_t \<times> 'w) option"

text \<open>A slot holds the entries of one kind in the order of the plugins.\<close>

definition plugin_slot :: "('w plugin \<Rightarrow> 'a option) \<Rightarrow> 'w plugin list \<Rightarrow> 'a list" where
  "plugin_slot f ps = List.map_filter f ps"

text \<open>The loop of the \<^verbatim>\<open>PLUGIN_TO_SLOT\<close> macros: a result that is final ends it, one it does not know is
  only logged.\<close>

fun plugins_call :: "('w \<Rightarrow> handler_t \<times> 'w) list \<Rightarrow> 'w \<Rightarrow> handler_t \<times> 'w" where
  "plugins_call [] w = (HANDLER_GO_ON, w)"
| "plugins_call (p # ps) w = (case p w of (r, w) \<Rightarrow>
     if r = HANDLER_FINISHED \<or> r = HANDLER_COMEBACK \<or> r = HANDLER_WAIT_FOR_EVENT \<or>
        r = HANDLER_WAIT_FOR_FD \<or> r = HANDLER_ERROR
     then (r, w) else plugins_call ps w)"

definition call_data :: "('w plugin \<Rightarrow> 'w data_handler option) \<Rightarrow> 'w plugin list \<Rightarrow>
    int32 \<Rightarrow> byte list option \<Rightarrow> int32 \<Rightarrow> 'w \<Rightarrow> handler_t \<times> 'w" where
  "call_data f ps fd data len = plugins_call (map (\<lambda>h. h fd data len) (plugin_slot f ps))"

definition call_fd :: "('w plugin \<Rightarrow> 'w fd_handler option) \<Rightarrow> 'w plugin list \<Rightarrow> int32 \<Rightarrow> 'w \<Rightarrow> handler_t \<times> 'w" where
  "call_fd f ps fd = plugins_call (map (\<lambda>h. h fd) (plugin_slot f ps))"

text \<open>Timer messages go to the plugin they name.\<close>

definition plugins_call_time_msg ::
  "'w plugin list \<Rightarrow> byte list \<Rightarrow> int32 \<Rightarrow> int32 \<Rightarrow> 'w \<Rightarrow> handler_t \<times> 'w" where
  "plugins_call_time_msg ps name opcode time =
     plugins_call (map (\<lambda>h. h name opcode time)
       (plugin_slot pl_time_msg (filter (\<lambda>p. c_string (pl_id p) = c_string name) ps)))"

text \<open>What the worker of the thread pool does with a packet.\<close>

definition plugin_entry :: "'w plugin list \<Rightarrow> plugin_call \<Rightarrow> 'w \<Rightarrow> handler_t \<times> 'w" where
  "plugin_entry ps c = (case c of
       HandlerRead s data len \<Rightarrow> call_data pl_handler_read ps s (Some data) (of_int len)
     | HandlerReadSrv s data len \<Rightarrow> call_data pl_handler_read_srv ps s (Some data) (of_int len)
     | HandlerReadOther s data len \<Rightarrow> call_data pl_handler_read_other ps s (Some data) (of_int len))"

definition close_entry :: "'w plugin list \<Rightarrow> close_call \<Rightarrow> 'w \<Rightarrow> handler_t \<times> 'w" where
  "close_entry ps c = (case c of
       ConnectionClose s \<Rightarrow> call_fd pl_connection_close ps s
     | ConnectionCloseSrv s \<Rightarrow> call_fd pl_connection_close_srv ps s)"

section \<open>The chat plugin\<close>

definition go_on :: "'a chat_m \<Rightarrow> world \<Rightarrow> handler_t \<times> world" where
  "go_on m w = (HANDLER_GO_ON, runs m w)"

definition chat_manager_plugin_init :: "env \<Rightarrow> world plugin" where
  "chat_manager_plugin_init E = \<lparr>
     pl_id = [],
     pl_connection = Some (\<lambda>fd data len. go_on OnChatConnect),
     pl_handler_read = Some (\<lambda>sock data len. go_on (OnChatManagerMessage E sock data len)),
     pl_connection_srv = Some (\<lambda>fd data len. go_on (OnBroadcastConnect fd)),
     pl_handler_read_srv = Some (\<lambda>fd data len. go_on OnBroadcastMessage),
     pl_handler_read_other = Some (\<lambda>fd data len w. (HANDLER_GO_ON, w)),
     pl_connection_close = Some (\<lambda>fd. go_on (OnChatManagerClose E fd)),
     pl_connection_close_srv = Some (\<lambda>fd. go_on OnBroadcastClose),
     pl_handler_init_time = Some (go_on (State_Monad.return True :: bool chat_m)),
     pl_time_msg = Some (\<lambda>name opcode time. go_on OnTimeout)\<rparr>"

lemma chat_plugin_reads:
  "plugin_entry [chat_manager_plugin_init E] (HandlerRead s data len) w =
     (HANDLER_GO_ON, runs (OnChatManagerMessage E s (Some data) (of_int len)) w)"
  "close_entry [chat_manager_plugin_init E] (ConnectionClose s) w =
     (HANDLER_GO_ON, runs (OnChatManagerClose E s) w)"
  by (simp_all add: plugin_entry_def close_entry_def call_data_def call_fd_def plugin_slot_def
      List.map_filter_def chat_manager_plugin_init_def go_on_def)

text \<open>The packets of the queue, one after the other.\<close>

definition worker :: "'w plugin list \<Rightarrow> plugin_call list \<Rightarrow> 'w \<Rightarrow> 'w" where
  "worker ps calls w = fold (\<lambda>c w. snd (plugin_entry ps c w)) calls w"

text \<open>Every call of the chat plugin is a step of its server, so what holds of every reachable state
  holds after any traffic.\<close>

lemma plugin_entry_steps:
  "reachable E w \<Longrightarrow> reachable E (snd (plugin_entry [chat_manager_plugin_init E] c w))"
proof (cases c)
  case (HandlerRead s data len)
  assume "reachable E w"
  then show ?thesis unfolding HandlerRead chat_plugin_reads by (auto intro: reachable.step server_step.message)
next
  case (HandlerReadSrv s data len)
  assume "reachable E w"
  then show ?thesis unfolding HandlerReadSrv
    by (simp add: plugin_entry_def call_data_def plugin_slot_def List.map_filter_def
        chat_manager_plugin_init_def go_on_def OnBroadcastMessage_def runs_def)
next
  case (HandlerReadOther s data len)
  assume "reachable E w"
  then show ?thesis unfolding HandlerReadOther
    by (simp add: plugin_entry_def call_data_def plugin_slot_def List.map_filter_def chat_manager_plugin_init_def)
qed

lemma worker_reachable: "reachable E w \<Longrightarrow> reachable E (worker [chat_manager_plugin_init E] calls w)"
  unfolding worker_def by (induction calls arbitrary: w) (simp_all add: plugin_entry_steps)

end
