(* ===== verification/RobotDump.thy ===== *)
theory RobotDump
  imports RobotPackets
begin

text \<open>
  \<^verbatim>\<open>ProtocolPack::DumpPacket\<close> of \<^verbatim>\<open>src/server/robot/base/protocol.cc\<close>: every packet the robot server
  sends is printed into a buffer on the stack.  The \<^verbatim>\<open>PRINT\<close> macros are those of the chat server.
  Unlike there the title follows the header.
\<close>

section \<open>The lines of a case\<close>

definition dump_user_song :: "string \<Rightarrow> string \<Rightarrow> notice_user_song \<Rightarrow> byte list list" where
  "dump_user_song struct v p =
    [PRINT_TITLE (struct @ '' DumpBegin''),
     PRINT_INT (v @ ''->platform_id'') (sint (ns_platform_id p)),
     PRINT_INT (v @ ''->uid'') (sint (ns_uid p)),
     PRINT_INT (v @ ''->songid'') (sint (ns_songid p)),
     PRINT_INT (v @ ''->type_id'') (sint (ns_type_id p)),
     PRINT_STRING (v @ ''->mode.c_str()'') (ns_mode p),
     PRINT_END (struct @ '' DumpEnd'')]"

definition dump_user_login_notice :: "notice_user_login \<Rightarrow> byte list list" where
  "dump_user_login_notice p =
    [PRINT_TITLE ''struct NoticeUserLogin DumpBegin'',
     PRINT_INT ''vNoticeUserLogin->platform_id'' (sint (nl_platform_id p)),
     PRINT_INT ''vNoticeUserLogin->uid'' (sint (nl_uid p)),
     PRINT_INT ''vNoticeUserLogin->latitude'' (sint (double_to_int32 (nl_latitude p))),
     PRINT_INT ''vNoticeUserLogin->longitude'' (sint (double_to_int32 (nl_longitude p))),
     PRINT_END ''struct NoticeUserLogin DumpEnd'']"

definition dump_robot_info :: "robot_info_packet \<Rightarrow> byte list list" where
  "dump_robot_info p =
    [PRINT_INT ''(*it)->uid'' (sint (ri_uid p)),
     PRINT_INT ''(*it)->latitude'' (sint (double_to_int32 (ri_latitude p))),
     PRINT_INT ''(*it)->longitude'' (sint (double_to_int32 (ri_longitude p))),
     PRINT_STRING ''(*it)->nickname'' (ri_nickname p)]"

definition dump_robot_login_notice :: "notice_robot_login \<Rightarrow> byte list list" where
  "dump_robot_login_notice p =
    [PRINT_TITLE ''struct NoticeRobotLogin DumpBegin'',
     PRINT_INT ''vNoticeUserLogin->uid'' (sint (rl_uid p))] @
    concat (map dump_robot_info (rl_robot_list p)) @
    [PRINT_END ''struct NoticeRobotLogin DumpEnd'']"

definition dump_robot_login :: "robot_login \<Rightarrow> byte list list" where
  "dump_robot_login p =
    [PRINT_TITLE ''struct RobotLogin DumpBegin'',
     PRINT_INT ''vRobotLogin->platform_id'' (sint (lg_platform_id p)),
     PRINT_INT ''vRobotLogin->uid'' (sint (lg_uid p)),
     PRINT_INT ''vRobotLogin->robot_id'' (sint (lg_robot_id p)),
     PRINT_END ''struct RobotLogin DumpEnd'']"

definition dump_handsel_song :: "notice_handsel_song \<Rightarrow> byte list list" where
  "dump_handsel_song p =
    [PRINT_TITLE ''struct NoticeUserRobotHandselSong DumpBegin'',
     PRINT_INT ''vNoticeUserRobotHandselSong->platform_id'' (sint (nh_platform_id p)),
     PRINT_INT ''vNoticeUserRobotHandselSong->uid'' (sint (nh_uid p)),
     PRINT_INT ''vNoticeUserRobotHandselSong->robot_id'' (sint (nh_robot_id p)),
     PRINT_INT ''vNoticeUserRobotHandselSong->song_id'' (sint (nh_song_id p)),
     PRINT_END ''struct NoticeUserRobotHandselSong DumpEnd'']"

definition dump_scheduler_login :: "scheduler_login \<Rightarrow> byte list list" where
  "dump_scheduler_login p =
    [PRINT_TITLE ''struct SchedulerLogin DumpBegin'',
     PRINT_INT ''vSchedulerLogin->platform_id'' (sint (sl_platform_id p)),
     PRINT_STRING ''vSchedulerLogin->machine_id.c_str()'' (sl_machine_id p),
     PRINT_END ''struct SchedulerLogin DumpEnd'']"

definition dump_gift_luck :: "notice_gift_luck \<Rightarrow> byte list list" where
  "dump_gift_luck p =
    [PRINT_TITLE ''struct NoticeUserRobotGiftLuck DumpBegin'',
     PRINT_INT ''vNoticeUserRobotGiftLuck->platform_id'' (sint (gl_platform_id p)),
     PRINT_INT ''vNoticeUserRobotGiftLuck->uid'' (sint (gl_uid p)),
     PRINT_INT ''vNoticeUserRobotGiftLuck->share_plat'' (sint (gl_share_plat p)),
     PRINT_INT ''vNoticeUserRobotGiftLuck->prize'' (sint (gl_prize p)),
     PRINT_STRING ''vNoticeUserRobotGiftLuck->name'' (gl_name p),
     PRINT_STRING ''vNoticeUserRobotGiftLuck->singer'' (gl_singer p),
     PRINT_END ''struct NoticeUserRobotGiftLuck DumpEnd'']"

definition dump_ready_gift_luck :: "notice_ready_gift_luck \<Rightarrow> byte list list" where
  "dump_ready_gift_luck p =
    [PRINT_TITLE ''struct NoticeUserReadyGiftLuck DumpBegin'',
     PRINT_INT ''vNoticeUserReadyGiftLuck->platform_id'' (sint (rg_platform_id p)),
     PRINT_INT ''vNoticeUserReadyGiftLuck->uid'' (sint (rg_uid p)),
     PRINT_INT ''vNoticeUserReadyGiftLuck->songid'' (sint (rg_songid p)),
     PRINT_INT ''vNoticeUserReadyGiftLuck->share_plat'' (sint (rg_share_plat p)),
     PRINT_END ''struct NoticeUserReadyGiftLuck DumpEnd'']"

definition dump_listen_song :: "notice_listen_song \<Rightarrow> byte list list" where
  "dump_listen_song p =
    [PRINT_TITLE ''struct NoticeUserListenSong DumpBegin'',
     PRINT_INT ''vNoticeUserListenSong->platform_id'' (sint (ls_platform_id p)),
     PRINT_INT ''vNoticeUserListenSong->songid'' (sint (ls_songid p)),
     PRINT_INT ''vNoticeUserListenSong->typid'' (sint (ls_typid p)),
     PRINT_STRING ''vNoticeUserListenSong->mode'' (ls_mode p),
     PRINT_STRING ''vNoticeUserListenSong->name'' (ls_name p),
     PRINT_STRING ''vNoticeUserListenSong->singer'' (ls_singer p),
     PRINT_END ''struct NoticeUserListenSong DumpEnd'']"

definition dump_assistant_login :: "notice_assistant_login \<Rightarrow> byte list list" where
  "dump_assistant_login p =
    [PRINT_TITLE ''struct NoticeAssistantLogin DumpBegin'',
     PRINT_INT ''vNoticeAssistantLogin->platform_id'' (sint (na_platform_id p)),
     PRINT_INT ''vNoticeAssistantLogin->assistant_id'' (sint (na_assistant_id p)),
     PRINT_STRING ''vNoticeAssistantLogin->nickname'' (na_nickname p),
     PRINT_END ''struct NoticeAssistantLogin DumpEnd'']"

definition dump_assistant_login_success :: "assistant_login_success \<Rightarrow> byte list list" where
  "dump_assistant_login_success p =
    [PRINT_TITLE ''struct AssistantLoginSuccess DumpBegin'',
     PRINT_INT ''vAssistantLoginSuccess->platform_id'' (sint (as_platform_id p)),
     PRINT_INT ''vAssistantLoginSuccess->assistant_id'' (sint (as_assistant_id p)),
     PRINT_END ''struct AssistantLoginSuccess DumpEnd'']"

definition dump_chat_login :: "notice_chat_login \<Rightarrow> byte list list" where
  "dump_chat_login p =
    [PRINT_TITLE ''struct NoticeUserRobotChatLogin DumpBegin'',
     PRINT_INT ''vNoticeUserRobotChatLogin->platform_id'' (sint (cl_platform_id p)),
     PRINT_INT ''vNoticeUserRobotChatLogin->uid'' (sint (cl_uid p)),
     PRINT_INT ''vNoticeUserRobotChatLogin->robot_id'' (sint (cl_robot_id p)),
     PRINT_END ''struct NoticeUserRobotChatLogin DumpEnd'']"

definition dump_handle_song :: "handle_song_info \<Rightarrow> byte list list" where
  "dump_handle_song p =
    [PRINT_INT ''(*it)->uid'' (sint (hs_uid p)),
     PRINT_INT ''(*it)->songid'' (sint (hs_songid p)),
     PRINT_STRING ''(*it)->message'' (hs_message p)]"

definition dump_assistant_handsel_song :: "notice_assistant_handsel_song \<Rightarrow> byte list list" where
  "dump_assistant_handsel_song p =
    [PRINT_TITLE ''struct NoticeAssistanHandselSong DumpBegin'',
     PRINT_INT ''vNoticeAssistanHandselSong->platform_id'' (sint (ah_platform_id p)),
     PRINT_INT ''vNoticeAssistanHandselSong->assistant_id'' (sint (ah_assistant_id p))] @
    concat (map dump_handle_song (ah_list p)) @
    [PRINT_END ''struct NoticeAssistanHandselSong DumpEnd'']"

text \<open>A heart beat prints no header.\<close>

definition dump_heart :: "byte list list" where
  "dump_heart = [PRINT_TITLE ''struct HEART_PACKET DumpBegin'', PRINT_END ''struct HEART_PACKET DumpEnd'']"

primrec robot_dump_lines :: "robot_body \<Rightarrow> byte list list" where
  "robot_dump_lines Heart = dump_heart"
| "robot_dump_lines (RobotLoginNotice p) = dump_robot_login_notice p"
| "robot_dump_lines (HandselSong p) = dump_handsel_song p"
| "robot_dump_lines (ListenSong p) = dump_listen_song p"
| "robot_dump_lines (ChatLogin p) = dump_chat_login p"
| "robot_dump_lines (GiftLuck p) = dump_gift_luck p"
| "robot_dump_lines (SchedulerLogin p) = dump_scheduler_login p"
| "robot_dump_lines (AssistantLogin p) = dump_assistant_login p"
| "robot_dump_lines (AssistantLoginSuccess p) = dump_assistant_login_success p"
| "robot_dump_lines (AssistantHandselSong p) = dump_assistant_handsel_song p"
| "robot_dump_lines (RobotLogin p) = dump_robot_login p"
| "robot_dump_lines (UserLoginNotice p) = dump_user_login_notice p"
| "robot_dump_lines (DefaultSong p) = dump_user_song ''struct NoticeUserDefaultSong'' ''vNoticeUserDefaultSong'' p"
| "robot_dump_lines (CurrentSong p) = dump_user_song ''struct NoticeUserCurrentSong'' ''vNoticeUserCurrentSong'' p"
| "robot_dump_lines (ReadyGiftLuck p) = dump_ready_gift_luck p"

definition robot_dump_chunks :: "packet_head \<Rightarrow> robot_body \<Rightarrow> byte list list" where
  "robot_dump_chunks h b =
     (if b = Heart then robot_dump_lines b
      else DUMPHEAD h @
        (if packet_length h = PACKET_HEAD_LENGTH \<and> data_length h = 0 then [] else robot_dump_lines b))"

text \<open>An operation code of another struct would cast the packet to the wrong type; the model prints
  nothing then, as \<^verbatim>\<open>PackStream\<close>, which comes first, does not let it through.\<close>

definition Robot_DumpPacket :: "packet_head \<Rightarrow> robot_body \<Rightarrow> dump" where
  "Robot_DumpPacket h b =
     fold print_chunk
       (if operate_code h \<in> set (operations_of b) then robot_dump_chunks h b else [])
       \<lparr>dump_j = 0, dump_text = [], dump_overrun = False\<rparr>"

section \<open>The bounds of the dump buffer\<close>

text \<open>How much text of variable length a packet carries.\<close>

primrec robot_free_text :: "robot_body \<Rightarrow> nat" where
  "robot_free_text Heart = 0"
| "robot_free_text (RobotLoginNotice p) = 200 * length (rl_robot_list p)"
| "robot_free_text (HandselSong p) = 0"
| "robot_free_text (ListenSong p) = 0"
| "robot_free_text (ChatLogin p) = 0"
| "robot_free_text (GiftLuck p) = 0"
| "robot_free_text (SchedulerLogin p) = length (sl_machine_id p)"
| "robot_free_text (AssistantLogin p) = 0"
| "robot_free_text (AssistantLoginSuccess p) = 0"
| "robot_free_text (AssistantHandselSong p) = 620 * length (ah_list p)"
| "robot_free_text (RobotLogin p) = 0"
| "robot_free_text (UserLoginNotice p) = 0"
| "robot_free_text (DefaultSong p) = length (ns_mode p)"
| "robot_free_text (CurrentSong p) = length (ns_mode p)"
| "robot_free_text (ReadyGiftLuck p) = 0"

lemma dump_bound_all:
  assumes "\<And>x. P x \<Longrightarrow> dump_bound k (f x)"
  shows "list_all P xs \<Longrightarrow> dump_bound (k * length xs) (concat (map f xs))"
proof (induction xs)
  case (Cons x xs)
  then show ?case using assms dump_bound_append [of k "f x"] by simp
qed (simp add: dump_bound_nil)

lemma dump_bound_robot_info:
  assumes "wf_robot_info p"
  shows "dump_bound 200 (dump_robot_info p)"
proof -
  have n: "length (ri_nickname p) \<le> 48"
    using assms by (auto simp: wf_robot_info_def intro: char_array_length)
  show ?thesis
    unfolding dump_robot_info_def by (rule dump_bound_mono, (rule dump_bounds n)+) simp
qed

lemma dump_bound_handle_song:
  assumes "wf_handle_song p"
  shows "dump_bound 620 (dump_handle_song p)"
proof -
  have n: "length (hs_message p) \<le> 512"
    using assms by (auto simp: wf_handle_song_def intro: char_array_length)
  show ?thesis
    unfolding dump_handle_song_def by (rule dump_bound_mono, (rule dump_bounds n)+) simp
qed

lemma dump_bound_end: "dump_bound (length v + 19) [PRINT_END v]"
  using dump_bound_title(2) [OF dump_bound_nil, of v] by simp

lemma dump_bound_robot_body:
  assumes "wf_robot_body b" "robot_free_text b \<le> 2048"
  shows "dump_bound 3000 (robot_dump_lines b)"
proof (cases b)
  case (RobotLoginNotice p)
  have "dump_bound (200 * length (rl_robot_list p)) (concat (map dump_robot_info (rl_robot_list p)))"
    using dump_bound_all [of wf_robot_info 200 dump_robot_info, OF dump_bound_robot_info] assms(1) RobotLoginNotice by simp
  note tail = dump_bound_append [OF this dump_bound_end]
  show ?thesis
    unfolding RobotLoginNotice robot_dump_lines.simps dump_robot_login_notice_def append.simps
    by (rule dump_bound_mono, (rule dump_bounds tail)+) (use assms(2) RobotLoginNotice in simp)
next
  case (AssistantHandselSong p)
  have "dump_bound (620 * length (ah_list p)) (concat (map dump_handle_song (ah_list p)))"
    using dump_bound_all [of wf_handle_song 620 dump_handle_song, OF dump_bound_handle_song] assms(1) AssistantHandselSong by simp
  note tail = dump_bound_append [OF this dump_bound_end]
  show ?thesis
    unfolding AssistantHandselSong robot_dump_lines.simps dump_assistant_handsel_song_def append.simps
    by (rule dump_bound_mono, (rule dump_bounds tail)+) (use assms(2) AssistantHandselSong in simp)
qed (use assms in \<open>simp_all only: robot_dump_lines.simps dump_heart_def dump_handsel_song_def
    dump_listen_song_def dump_chat_login_def dump_gift_luck_def dump_scheduler_login_def
    dump_assistant_login_def dump_assistant_login_success_def dump_robot_login_def
    dump_user_login_notice_def dump_user_song_def dump_ready_gift_luck_def\<close>,
    (rule dump_bound_mono, (rule dump_bounds order_refl)+, simp add: char_array_def)+)

lemma robot_dump_fits:
  assumes "wf_robot_body b" and "operate_code h \<in> set (operations_of b)" and "robot_free_text b \<le> 2048"
  shows "\<not> dump_overrun (Robot_DumpPacket h b)"
proof -
  have "dump_bound 3000 (if packet_length h = PACKET_HEAD_LENGTH \<and> data_length h = 0
      then [] else robot_dump_lines b)"
    using dump_bound_robot_body [OF assms(1,3)] by (auto simp: dump_bound_def)
  from dump_bound_append [OF dump_bound_head this, of h]
  have "dump_bound 3300 (robot_dump_chunks h b)"
    using dump_bound_robot_body [OF assms(1,3)] by (auto simp: robot_dump_chunks_def dump_bound_def)
  then have "length (concat (robot_dump_chunks h b)) \<le> 3300" by (simp add: dump_bound_def)
  then show ?thesis
    using length_concat_butlast [of "robot_dump_chunks h b"] assms(2)
    by (simp add: Robot_DumpPacket_def fold_print_chunk_overrun)
qed

end
