(* ===== verification/PrizeRate.thy ===== *)
theory PrizeRate
  imports RateTable
begin

text \<open>
  The lucky draw of the robot server: \<^verbatim>\<open>src/server/robot/robot/prize_rate.{h,cc}\<close> and the ranges that
  \<^verbatim>\<open>LogicUnit::LuckGiftCalculation\<close> of \<^verbatim>\<open>logic_unit.cc\<close> makes of the configured rates.  A draw picks
  a ticket from a shuffled table and looks up in whose range its number lies.
\<close>

section \<open>The draw\<close>

record luck_prize =
  lp_prize :: int32
  lp_rate :: int32
  lp_min :: int32
  lp_max :: int32

definition default_luck_prize :: luck_prize where
  "default_luck_prize = \<lparr>lp_prize = 0, lp_rate = 0, lp_min = 0, lp_max = 0\<rparr>"

record prize_rate =
  pr_table :: "int list"
  pr_gN :: int
  pr_gM :: int

text \<open>\<^verbatim>\<open>SetRateTable\<close> is the routine of \<^verbatim>\<open>MigRadomInV2::Reset\<close> for 10000 tickets.  Zero marks a free
  place and is also the first number stored, so the place of ticket 0 is taken again.\<close>

definition PrizeRate_SetRateTable :: "(nat \<Rightarrow> nat) \<Rightarrow> int list option" where
  "PrizeRate_SetRateTable rand = Reset_table rand 10000"

definition PrizeRate :: "(nat \<Rightarrow> nat) \<Rightarrow> prize_rate option" where
  "PrizeRate rand = map_option (\<lambda>t. \<lparr>pr_table = t, pr_gN = 0, pr_gM = 0\<rparr>) (PrizeRate_SetRateTable rand)"

fun award :: "luck_prize list \<Rightarrow> int \<Rightarrow> int32" where
  "award [] num = 0"
| "award (p # ps) num =
     (if sint (lp_min p) \<le> num \<and> num \<le> sint (lp_max p) then lp_prize p else award ps num)"

text \<open>After eleven draws the next hundred tickets are up.\<close>

definition next_ticket :: "prize_rate \<Rightarrow> prize_rate" where
  "next_ticket v = (if pr_gN v < 10 then v\<lparr>pr_gN := pr_gN v + 1\<rparr>
     else v\<lparr>pr_gN := 0, pr_gM := (pr_gM v + 1) mod 100\<rparr>)"

text \<open>\<open>r\<close> is the result of \<^verbatim>\<open>rand\<close>; None is a read outside the table.\<close>

definition PrizeRate_GetPrize :: "nat \<Rightarrow> luck_prize list \<Rightarrow> prize_rate \<Rightarrow> int32 option \<times> prize_rate" where
  "PrizeRate_GetPrize r ps v =
     (let v' = next_ticket v; i = int (scaled 100 r) + pr_gM v' * 100
      in (if 0 \<le> i \<and> i < int (length (pr_table v)) then Some (award ps (pr_table v ! nat i)) else None, v'))"

section \<open>The ranges\<close>

record luck_gift =
  lk_plat :: int32
  lk_rate :: int32
  lk_prize :: int32

fun ranges :: "int32 \<Rightarrow> nat \<Rightarrow> luck_gift list \<Rightarrow> luck_prize list" where
  "ranges late_rate j [] = []"
| "ranges late_rate j (g # gs) =
     (let min = late_rate + 1; max = min + lk_rate g - 1
      in \<lparr>lp_prize = of_nat (j + 1), lp_rate = max - min + 1, lp_min = min, lp_max = max\<rparr> #
           ranges max (j + 1) gs)"

text \<open>The array has three entries; None is a store behind it.\<close>

definition luck_prizes :: "luck_gift list \<Rightarrow> luck_prize list option" where
  "luck_prizes gs = (if length gs \<le> 3
     then Some (ranges (-1) 0 gs @ replicate (3 - length gs) default_luck_prize) else None)"

section \<open>Drawing stays in the table\<close>

definition draw_ok :: "prize_rate \<Rightarrow> bool" where
  "draw_ok v \<longleftrightarrow> length (pr_table v) = 10000 \<and> mset (pr_table v) = mset (map int [0..<10000]) \<and>
     0 \<le> pr_gM v \<and> pr_gM v < 100"

lemma next_ticket_ok: "draw_ok v \<Longrightarrow> draw_ok (next_ticket v)"
  by (simp add: draw_ok_def next_ticket_def)

lemma next_ticket_table [simp]: "pr_table (next_ticket v) = pr_table v"
  by (simp add: next_ticket_def)

lemma PrizeRate_ok:
  assumes "\<And>k. rand k < 2 ^ 31"
  shows "\<exists>v. PrizeRate rand = Some v \<and> draw_ok v"
proof -
  obtain t where "Reset_table rand 10000 = Some t" "length t = 10000"
    "mset t = mset (map int [0..<10000])"
    using reset_permutation [of rand 10000, OF assms] by (auto simp del: upt_rec_numeral)
  then show ?thesis by (simp add: PrizeRate_def PrizeRate_SetRateTable_def draw_ok_def del: upt_rec_numeral)
qed

text \<open>Every draw of the robot server's lottery stays inside its table and keeps it a permutation of
  the 10000 tickets.\<close>

lemma draw_stays_in_table:
  assumes "draw_ok v" and "r < 2 ^ 31"
  shows "\<exists>num \<in> set (pr_table v). fst (PrizeRate_GetPrize r ps v) = Some (award ps num)"
    and "draw_ok (snd (PrizeRate_GetPrize r ps v))"
proof -
  define i where "i = int (scaled 100 r) + pr_gM (next_ticket v) * 100"
  have "scaled 100 r < 100" using assms(2) by (intro scaled_less) simp_all
  moreover have "0 \<le> pr_gM (next_ticket v)" "pr_gM (next_ticket v) < 100"
    using next_ticket_ok [OF assms(1)] by (simp_all add: draw_ok_def)
  ultimately have i: "0 \<le> i" "i < int (length (pr_table v))"
    using assms(1) by (simp_all add: draw_ok_def i_def)
  then have "pr_table v ! nat i \<in> set (pr_table v)" by simp
  then show "\<exists>num \<in> set (pr_table v). fst (PrizeRate_GetPrize r ps v) = Some (award ps num)"
    using i by (auto simp: PrizeRate_GetPrize_def Let_def simp flip: i_def)
  show "draw_ok (snd (PrizeRate_GetPrize r ps v))"
    using next_ticket_ok [OF assms(1)] by (simp add: PrizeRate_GetPrize_def Let_def)
qed

section \<open>The odds\<close>

definition rates_of :: "luck_gift list \<Rightarrow> nat list" where
  "rates_of gs = map (\<lambda>g. nat (sint (lk_rate g))) gs"

text \<open>The tickets in the order of their numbers, each with what it wins.\<close>

fun winnings :: "nat \<Rightarrow> nat list \<Rightarrow> int32 list" where
  "winnings j [] = []"
| "winnings j (n # ns) = replicate n (of_nat (j + 1)) @ winnings (j + 1) ns"

lemma award_defaults: "award (replicate k default_luck_prize) num = 0"
  by (induction k) (simp_all add: default_luck_prize_def)

lemma sint_add_small:
  fixes a b :: int32
  assumes "- (2 ^ 31) \<le> sint a + sint b" "sint a + sint b < 2 ^ 31"
  shows "sint (a + b) = sint a + sint b"
  using assms by (simp add: sint_word_ariths signed_take_bit_int_eq_self)

lemma award_ranges:
  assumes "\<forall>g\<in>set gs. 0 \<le> sint (lk_rate g)" and "sint late + 1 = int m"
    and "m + sum_list (rates_of gs) \<le> n" and "n < 2 ^ 31"
  shows "map (award (ranges late j gs @ ds)) (map int [m..<n]) =
    winnings j (rates_of gs) @ map (award ds) (map int [m + sum_list (rates_of gs)..<n])"
  using assms
proof (induction gs arbitrary: late m j)
  case (Cons g gs)
  define r where "r = nat (sint (lk_rate g))"
  let ?min = "late + 1" and ?max = "late + 1 + lk_rate g - 1"
  have r: "sint (lk_rate g) = int r" using Cons.prems(1) by (simp add: r_def)
  have le: "m + r + sum_list (rates_of gs) \<le> n" using Cons.prems(3) by (simp add: rates_of_def r_def)
  have min: "sint ?min = int m"
    using sint_add_small [of late 1] Cons.prems(2-4) by simp
  have "sint (late + lk_rate g) = int m - 1 + int r"
    using sint_add_small [of late "lk_rate g"] Cons.prems(2,4) le r by simp
  then have max: "sint ?max = int (m + r) - 1" by (simp add: algebra_simps)
  let ?f = "award (ranges late j (g # gs) @ ds)" and ?g = "award (ranges ?max (j + 1) gs @ ds)"
  have split: "[m..<n] = [m..<m + r] @ [m + r..<n]"
    using upt_add_eq_append [of m "m + r" "n - (m + r)"] le by simp
  have "map ?f (map int [m..<m + r]) = replicate r (of_nat (j + 1))"
    using min max by (intro replicate_eqI) (auto simp: Let_def)
  moreover have "map ?f (map int [m + r..<n]) = map ?g (map int [m + r..<n])"
    using min max by (auto simp: Let_def)
  ultimately have "map ?f (map int [m..<n]) = replicate r (of_nat (j + 1)) @ map ?g (map int [m + r..<n])"
    unfolding split map_append by (rule arg_cong2)
  also have "map ?g (map int [m + r..<n]) =
      winnings (j + 1) (rates_of gs) @ map (award ds) (map int [m + r + sum_list (rates_of gs)..<n])"
    using Cons.IH [of ?max "m + r" "j + 1"] Cons.prems(1,4) max le by simp
  finally show ?case by (simp add: rates_of_def r_def add.assoc)
qed (simp add: rates_of_def)

text \<open>With at most three prizes whose rates add up to no more than 10000, exactly as many of
  the 10000 tickets of the robot server's lottery win a prize as its rate says, and all others
  win nothing, whatever the random numbers that shuffle them.\<close>

theorem lottery_odds:
  assumes "\<And>k. rand k < 2 ^ 31" and "length gs \<le> 3" and "\<forall>g\<in>set gs. 0 \<le> sint (lk_rate g)"
    and "sum_list (rates_of gs) \<le> 10000"
  shows "\<exists>v ps. PrizeRate rand = Some v \<and> luck_prizes gs = Some ps \<and>
    mset (map (award ps) (pr_table v)) =
      mset (winnings 0 (rates_of gs) @ replicate (10000 - sum_list (rates_of gs)) 0)"
proof -
  obtain v where v: "PrizeRate rand = Some v" "draw_ok v" using PrizeRate_ok [of rand, OF assms(1)] by blast
  define ds where "ds = replicate (3 - length gs) default_luck_prize"
  let ?ps = "ranges (-1) 0 gs @ ds"
  have "map (award ?ps) (map int [0..<10000]) =
      winnings 0 (rates_of gs) @ map (award ds) (map int [sum_list (rates_of gs)..<10000])"
    using award_ranges [of gs "-1" 0 10000 0 ds] assms(3,4) by (simp del: upt_rec_numeral)
  also have "map (award ds) (map int [sum_list (rates_of gs)..<10000]) =
      replicate (10000 - sum_list (rates_of gs)) 0"
    unfolding ds_def by (intro replicate_eqI) (auto simp: award_defaults)
  finally have all: "map (award ?ps) (map int [0..<10000]) =
      winnings 0 (rates_of gs) @ replicate (10000 - sum_list (rates_of gs)) 0" .
  have "mset (map (award ?ps) (pr_table v)) = mset (map (award ?ps) (map int [0..<10000]))"
    using v(2) by (simp only: draw_ok_def mset_map)
  then have "mset (map (award ?ps) (pr_table v)) =
      mset (winnings 0 (rates_of gs) @ replicate (10000 - sum_list (rates_of gs)) 0)"
    unfolding all .
  moreover have "luck_prizes gs = Some ?ps" using assms(2) by (simp add: luck_prizes_def ds_def)
  ultimately show ?thesis using v(1) by blast
qed

text \<open>Three prizes at 1, 10 and 100 tickets.\<close>

definition sample_gifts :: "luck_gift list" where
  "sample_gifts = [\<lparr>lk_plat = 1, lk_rate = 1, lk_prize = 1\<rparr>, \<lparr>lk_plat = 1, lk_rate = 10, lk_prize = 2\<rparr>,
     \<lparr>lk_plat = 1, lk_rate = 100, lk_prize = 3\<rparr>]"

theorem lottery_odds_witness:
  "\<exists>v ps. PrizeRate (\<lambda>k. 7) = Some v \<and> luck_prizes sample_gifts = Some ps \<and>
     count (mset (map (award ps) (pr_table v))) 2 = 10"
proof -
  have rates: "rates_of sample_gifts = [1, 10, 100]" by (simp add: rates_of_def sample_gifts_def)
  obtain v ps where "PrizeRate (\<lambda>k. 7) = Some v" "luck_prizes sample_gifts = Some ps"
    "mset (map (award ps) (pr_table v)) = mset (winnings 0 [1, 10, 100] @ replicate (10000 - 111) 0)"
    using lottery_odds [of "\<lambda>k. 7" sample_gifts] unfolding rates
    by (auto simp: sample_gifts_def)
  then have "count (mset (map (award ps) (pr_table v))) 2 =
      count (mset (winnings 0 [1, 10, 100] @ replicate (10000 - 111) 0)) 2" by simp
  also have "\<dots> = 10" by simp
  finally show ?thesis using \<open>PrizeRate (\<lambda>k. 7) = Some v\<close> \<open>luck_prizes sample_gifts = Some ps\<close> by blast
qed

end
