(* ===== verification/RobotWorld.thy ===== *)
theory RobotWorld
  imports RobotDump PrizeRate ChatStore
begin

text \<open>
  The state of the robot server and its surroundings: the objects of
  \<^verbatim>\<open>src/server/robot/robot/robot_basic_info.{h,cc}\<close>, the cache of a platform
  (\<^verbatim>\<open>robot_cache_manager.h\<close>), and the sending of packets in \<^verbatim>\<open>base/utils_comm.cc\<close>.  As in the chat
  server an object shares its data with every copy made of it, so it is an address into a heap; the
  laws of such a heap are the locale \<open>object_heap\<close>.
\<close>

section \<open>Data\<close>

record robot_data =
  rd_uid :: int64
  rd_sex :: int32
  rd_latitude :: double
  rd_longitude :: double
  rd_songid :: int64
  rd_socket :: int32
  rd_task_count :: int32
  rd_song_task_count :: int32
  rd_say_hello_count :: int32
  rd_listen_task_count :: int32
  rd_send_error_count :: int32
  rd_login :: int32
  rd_nickname :: "byte list"
  rd_head_url :: "byte list"
  rd_follow_map :: "(int64, int64) stdmap"
  rd_send_last_time :: int64
  rd_recv_last_time :: int64
  rd_follower_user_last_time :: int64

text \<open>A robot made at the times \<open>t\<close> and \<open>t'\<close>; the parameterless constructor is the one with uid 0.\<close>

definition RobotBasicInfo_Data ::
  "int64 \<Rightarrow> int64 \<Rightarrow> int64 \<Rightarrow> int32 \<Rightarrow> byte list \<Rightarrow> byte list \<Rightarrow> robot_data" where
  "RobotBasicInfo_Data t t' uid sex nickname head_url =
     \<lparr>rd_uid = uid, rd_sex = sex, rd_latitude = 0, rd_longitude = 0, rd_songid = 0, rd_socket = 0,
      rd_task_count = 0, rd_song_task_count = 0, rd_say_hello_count = 0, rd_listen_task_count = 0,
      rd_send_error_count = 0, rd_login = 0, rd_nickname = nickname, rd_head_url = head_url,
      rd_follow_map = [], rd_send_last_time = t, rd_recv_last_time = t',
      rd_follower_user_last_time = 0\<rparr>"

text \<open>\<^verbatim>\<open>UserInfo\<close>, \<^verbatim>\<open>UserBasicInfo\<close>, \<^verbatim>\<open>SchedulerInfo\<close> and \<^verbatim>\<open>UserLbsInfo\<close>.\<close>

record listener_data =
  ld_uid :: int64
  ld_type_id :: int32
  ld_mode :: "byte list"

record user_basic_data =
  ub_uid :: int64
  ub_latitude :: double
  ub_longitude :: double
  ub_push_day :: int32
  ub_push_month :: int32
  ub_city :: "byte list"
  ub_province :: "byte list"
  ub_street :: "byte list"
  ub_district :: "byte list"
  ub_last_weather_status :: int32

definition UserBasicInfo_Data :: "int64 \<Rightarrow> int32 \<Rightarrow> user_basic_data" where
  "UserBasicInfo_Data uid weather =
     \<lparr>ub_uid = uid, ub_latitude = 0, ub_longitude = 0, ub_push_day = 0, ub_push_month = 0,
      ub_city = [], ub_province = [], ub_street = [], ub_district = [],
      ub_last_weather_status = weather\<rparr>"

record scheduler_data =
  sd_platform_id :: int64
  sd_socket :: int32
  sd_client_count :: int32
  sd_send_error_count :: int32
  sd_send_last_time :: int64
  sd_recv_last_time :: int64
  sd_ip :: "byte list"
  sd_machine_id :: "byte list"

definition SchedulerInfo_Data :: "int64 \<Rightarrow> int32 \<Rightarrow> byte list \<Rightarrow> byte list \<Rightarrow> scheduler_data" where
  "SchedulerInfo_Data pid socket ip machine_id =
     \<lparr>sd_platform_id = pid, sd_socket = socket, sd_client_count = 0, sd_send_error_count = 0,
      sd_send_last_time = 0, sd_recv_last_time = 0, sd_ip = ip, sd_machine_id = machine_id\<rparr>"

section \<open>The world\<close>

type_synonym robot_infos = "(int64, nat) stdmap"

record robot_platform =
  rp_platform_id :: int64
  rp_platform_name :: "byte list"
  rp_idle :: robot_infos
  rp_used :: robot_infos
  rp_temp :: robot_infos
  rp_follow :: "(int64, robot_infos) stdmap"
  rp_schedulers :: "(int32, nat) stdmap"
  rp_radom_in :: radom_v1
  rp_radom_table :: "int list"
  rp_channel :: "(int32, radom_v2) stdmap"
  rp_mood :: "(int32, radom_v2) stdmap"
  rp_scene :: "(int32, radom_v2) stdmap"
  rp_assistant :: robot_infos
  rp_robot_socket :: robot_infos
  rp_user_basic :: "(int64, nat) stdmap"
  rp_listeners :: "(int64, nat) stdmap"

text \<open>What leaves the server: a packet handed to \<^verbatim>\<open>send\<close>, an SQL statement, a Redis command, a
  \<^verbatim>\<open>shutdown\<close> of a connection.\<close>

datatype robot_event =
    RSent int32 packet_head robot_body "byte list" bool
  | RSql "byte list"
  | RRedis "byte list"
  | RShutdown int32

text \<open>\<open>rw_stray\<close> records reads outside an object, \<open>rw_crashed\<close> what ends the server: a failed
  \<^verbatim>\<open>assert\<close>, a null pointer, the end of an empty container, a store outside a buffer.\<close>

record robot_world =
  rw_platforms :: "(int64, robot_platform) stdmap"
  rw_robot_sockets :: "(int32, nat) stdmap"
  rw_luck_gifts :: "(int32, (int32, luck_gift) stdmap) stdmap"
  rw_prize :: prize_rate
  rw_robots :: "robot_data list"
  rw_listeners :: "listener_data list"
  rw_basics :: "user_basic_data list"
  rw_schedulers :: "scheduler_data list"
  rw_events :: "robot_event list"
  rw_queries :: nat
  rw_commands :: nat
  rw_draws :: nat
  rw_rands :: nat
  rw_ticks :: nat
  rw_sends :: nat
  rw_stray :: bool
  rw_crashed :: bool

type_synonym 'a robot_m = "(robot_world, 'a) state"

record music =
  mu_id :: "byte list"
  mu_title :: "byte list"
  mu_artist :: "byte list"

text \<open>The surroundings: MySQL, Redis (\<open>re_redis\<close> answers a batch command, None without a reply;
  \<open>re_value\<close> a key of the length passed), the clock, randomness, \<^verbatim>\<open>send\<close>, the floating point
  conversions of the C library, jsoncpp and Base64.\<close>

record robot_env =
  re_sql :: "nat \<Rightarrow> byte list \<Rightarrow> sql_result"
  re_redis :: "nat \<Rightarrow> byte list \<Rightarrow> byte list list option"
  re_value :: "nat \<Rightarrow> byte list \<Rightarrow> byte list option"
  re_hash_size :: "nat \<Rightarrow> byte list \<Rightarrow> int32"
  re_random :: "nat \<Rightarrow> int64"
  re_rand :: "nat \<Rightarrow> nat"
  re_shuffle :: "byte list \<Rightarrow> int32 \<Rightarrow> rand_source"
  re_time :: "nat \<Rightarrow> int64"
  re_localtime :: "int64 \<Rightarrow> tm"
  re_send :: "nat \<Rightarrow> nat \<Rightarrow> int"
  re_memory :: nat
  re_atof :: "byte list \<Rightarrow> double"
  re_printf_lf :: "double \<Rightarrow> byte list"
  re_music :: "byte list \<Rightarrow> music"
  re_json_member :: "byte list \<Rightarrow> byte list \<Rightarrow> byte list"
  re_base64 :: "byte list \<Rightarrow> byte list"
  re_junk :: "nat \<Rightarrow> byte list"
  re_junk32 :: int32
  re_junk64 :: int64

section \<open>Objects\<close>

definition obj_new :: "('w \<Rightarrow> 'd list) \<Rightarrow> (('d list \<Rightarrow> 'd list) \<Rightarrow> 'w \<Rightarrow> 'w) \<Rightarrow> 'd \<Rightarrow> ('w, nat) state" where
  "obj_new objs upd d = State (\<lambda>w. (length (objs w), upd (\<lambda>ds. ds @ [d]) w))"

definition obj_at :: "('w \<Rightarrow> 'd list) \<Rightarrow> nat \<Rightarrow> 'w \<Rightarrow> 'd" where
  "obj_at objs h w = objs w ! h"

definition obj_get :: "('w \<Rightarrow> 'd list) \<Rightarrow> nat \<Rightarrow> ('w, 'd) state" where
  "obj_get objs h = State (\<lambda>w. (obj_at objs h w, w))"

definition obj_set :: "(('d list \<Rightarrow> 'd list) \<Rightarrow> 'w \<Rightarrow> 'w) \<Rightarrow> nat \<Rightarrow> ('d \<Rightarrow> 'd) \<Rightarrow> ('w, unit) state" where
  "obj_set upd h f = State (\<lambda>w. ((), upd (\<lambda>ds. ds[h := f (ds ! h)]) w))"

text \<open>What code that holds a handle relies on: an object just made is read back, and a setter is
  seen through the handle and through no other.\<close>

locale object_heap =
  fixes objs :: "'w \<Rightarrow> 'd list" and upd :: "('d list \<Rightarrow> 'd list) \<Rightarrow> 'w \<Rightarrow> 'w"
  assumes objs_upd: "objs (upd f w) = f (objs w)"
begin

lemma new_is_allocated:
  "run_state (obj_new objs upd d) w = (h, w') \<Longrightarrow> h < length (objs w') \<and> obj_at objs h w' = d"
  by (auto simp: obj_new_def obj_at_def objs_upd)

lemma new_keeps_others:
  "run_state (obj_new objs upd d) w = (h, w') \<Longrightarrow> k < length (objs w) \<Longrightarrow>
     k \<noteq> h \<and> obj_at objs k w' = obj_at objs k w"
  by (auto simp: obj_new_def obj_at_def objs_upd nth_append)

lemma set_is_seen:
  "run_state (obj_set upd h f) w = (u, w') \<Longrightarrow> h < length (objs w) \<Longrightarrow>
     obj_at objs h w' = f (obj_at objs h w)"
  by (auto simp: obj_set_def obj_at_def objs_upd)

lemma set_keeps_others:
  "run_state (obj_set upd h f) w = (u, w') \<Longrightarrow> k \<noteq> h \<Longrightarrow> obj_at objs k w' = obj_at objs k w"
  by (auto simp: obj_set_def obj_at_def objs_upd)

lemma set_keeps_length:
  "run_state (obj_set upd h f) w = (u, w') \<Longrightarrow> length (objs w') = length (objs w)"
  by (auto simp: obj_set_def objs_upd)

end

interpretation robots: object_heap rw_robots rw_robots_update by unfold_locales simp
interpretation listeners: object_heap rw_listeners rw_listeners_update by unfold_locales simp
interpretation basics: object_heap rw_basics rw_basics_update by unfold_locales simp
interpretation schedulers: object_heap rw_schedulers rw_schedulers_update by unfold_locales simp

text \<open>A loop over the elements of a list.\<close>

primrec each :: "('a \<Rightarrow> ('w, unit) state) \<Rightarrow> 'a list \<Rightarrow> ('w, unit) state" where
  "each f [] = State_Monad.return ()"
| "each f (x # xs) = do { f x; each f xs }"

section \<open>Clock, randomness, headers\<close>

definition robot_emit :: "robot_event \<Rightarrow> unit robot_m" where
  "robot_emit e = State (\<lambda>w. ((), w\<lparr>rw_events := rw_events w @ [e]\<rparr>))"

definition robot_crash :: "unit robot_m" where
  "robot_crash = State (\<lambda>w. ((), w\<lparr>rw_crashed := True\<rparr>))"

definition robot_stray :: "unit robot_m" where
  "robot_stray = State (\<lambda>w. ((), w\<lparr>rw_stray := True\<rparr>))"

definition robot_time :: "robot_env \<Rightarrow> int64 robot_m" where
  "robot_time E = State (\<lambda>w. (re_time E (rw_ticks w), w\<lparr>rw_ticks := rw_ticks w + 1\<rparr>))"

definition RobotBasicInfo ::
  "robot_env \<Rightarrow> int64 \<Rightarrow> int32 \<Rightarrow> byte list \<Rightarrow> byte list \<Rightarrow> nat robot_m" where
  "RobotBasicInfo E uid sex nickname head_url = do {
     t \<leftarrow> robot_time E;
     t' \<leftarrow> robot_time E;
     obj_new rw_robots rw_robots_update (RobotBasicInfo_Data t t' uid sex nickname head_url)
   }"

definition robot_random_id :: "robot_env \<Rightarrow> int64 robot_m" where
  "robot_random_id E = State (\<lambda>w.
     let rd = re_random E (rw_draws w)
     in (if 0 < sint rd then rd else - rd, w\<lparr>rw_draws := rw_draws w + 1\<rparr>))"

definition Robot_MAKE_HEAD :: "robot_env \<Rightarrow> int32 \<Rightarrow> packet_head robot_m" where
  "Robot_MAKE_HEAD E op = do {
     t \<leftarrow> robot_time E;
     m \<leftarrow> robot_random_id E;
     State_Monad.return \<lparr>packet_length = 0, operate_code = op, data_length = 0,
       current_time = ucast t, msg_type = USER_TYPE, is_zip = 0, msg_id = m, reserverd = 0\<rparr>
   }"

section \<open>Sending\<close>

text \<open>\<^verbatim>\<open>LogicComm::SafeStrncpy\<close> copies as many bytes as the sizes say, whatever the length of the
  source: bytes behind its NUL come along.\<close>

definition LogicComm_SafeStrncpy :: "robot_env \<Rightarrow> nat \<Rightarrow> byte list \<Rightarrow> nat \<Rightarrow> byte list robot_m" where
  "LogicComm_SafeStrncpy E dest_size src src_size =
     (let n = (if dest_size < src_size then dest_size else src_size) in do {
       (if length src + 1 < n then robot_stray else State_Monad.return ());
       State_Monad.return (take n (src @ 0 # re_junk E n) @ replicate (dest_size - n) 0)
     })"

text \<open>\<^verbatim>\<open>LogicComm::SendFull\<close>: the loop with the number of calls of \<^verbatim>\<open>send\<close> so far; None is a loop
  still running when the fuel is spent.\<close>

fun LogicComm_SendFull :: "nat \<Rightarrow> (nat \<Rightarrow> nat \<Rightarrow> int) \<Rightarrow> nat \<Rightarrow> nat \<Rightarrow> int \<Rightarrow> int option \<times> nat" where
  "LogicComm_SendFull 0 sender calls nbytes tot = (None, calls)"
| "LogicComm_SendFull (Suc fuel) sender calls nbytes tot =
     (let amt = sender calls nbytes in
      if amt = -1 then (Some (-1), calls + 1)
      else if 0 < int nbytes - amt
      then LogicComm_SendFull fuel sender (calls + 1) (nat (int nbytes - amt)) (tot + amt)
      else (Some (tot + amt), calls + 1))"

definition robot_send :: "robot_env \<Rightarrow> int32 \<Rightarrow> int option robot_m" where
  "robot_send E len = State (\<lambda>w.
     case LogicComm_SendFull (nat (sint len)) (re_send E) (rw_sends w) (nat (sint len)) 0 of
       (r, calls) \<Rightarrow> (r, w\<lparr>rw_sends := calls\<rparr>))"

definition Robot_SendMessage :: "robot_env \<Rightarrow> int32 \<Rightarrow> packet_head \<Rightarrow> robot_body \<Rightarrow> bool robot_m" where
  "Robot_SendMessage E socket h b =
     (if sint socket \<le> 0 then State_Monad.return False
      else case Robot_PackStream (re_memory E) h b of
        PackFailed len \<Rightarrow> State_Monad.return False
      | PackThrows \<Rightarrow> do { robot_crash; State_Monad.return False }
      | BadCast \<Rightarrow> do { robot_crash; State_Monad.return False }
      | Packed out len \<Rightarrow> do {
          (if dump_overrun (Robot_DumpPacket h b) \<or> out_fault out then robot_crash
           else State_Monad.return ());
          ret \<leftarrow> robot_send E len;
          (if ret = None then robot_crash else State_Monad.return ());
          robot_emit (RSent socket h b (out_buffer out) (ret = Some (sint len)));
          State_Monad.return (ret = Some (sint len)) })"

text \<open>The macro \<^verbatim>\<open>sendrobotmssage\<close>, which notes the time first and assigns its result to the caller's
  \<^verbatim>\<open>r\<close>.\<close>

definition sendrobotmssage :: "robot_env \<Rightarrow> nat \<Rightarrow> packet_head \<Rightarrow> robot_body \<Rightarrow> bool robot_m" where
  "sendrobotmssage E robot h b = do {
     t \<leftarrow> robot_time E;
     obj_set rw_robots_update robot (\<lambda>d. d\<lparr>rd_send_last_time := t\<rparr>);
     d \<leftarrow> obj_get rw_robots robot;
     Robot_SendMessage E (rd_socket d) h b
   }"

definition closelockconnect :: "int32 \<Rightarrow> unit robot_m" where
  "closelockconnect socket = robot_emit (RShutdown socket)"

text \<open>\<^verbatim>\<open>snprintf\<close> into an array of \<open>n\<close> zeros: with \<^verbatim>\<open>%s\<close> the text is cut; with the text itself as the
  format a percent sign asks for arguments that are not there.\<close>

definition snprintf_s :: "nat \<Rightarrow> byte list \<Rightarrow> byte list" where
  "snprintf_s n s = take (n - 1) (c_string s) @ replicate (n - length (take (n - 1) (c_string s))) 0"

definition snprintf_format :: "nat \<Rightarrow> byte list \<Rightarrow> byte list robot_m" where
  "snprintf_format n s = do {
     (if 37 \<in> set (c_string s) then robot_crash else State_Monad.return ());
     State_Monad.return (snprintf_s n s)
   }"

section \<open>Statements and commands\<close>

definition robot_sql :: "robot_env \<Rightarrow> byte list \<Rightarrow> sql_result robot_m" where
  "robot_sql E sql = State (\<lambda>w.
     let r = re_sql E (rw_queries w) (c_string sql); w' = w\<lparr>rw_queries := rw_queries w + 1\<rparr>
     in (r, if r = NoEngine then w' else w'\<lparr>rw_events := rw_events w' @ [RSql (c_string sql)]\<rparr>))"

text \<open>\<^verbatim>\<open>RedisComm::GetBatchInfos\<close>.\<close>

definition GetBatchInfos :: "robot_env \<Rightarrow> byte list \<Rightarrow> byte list list option robot_m" where
  "GetBatchInfos E command = State (\<lambda>w.
     (re_redis E (rw_commands w) (c_string command),
      w\<lparr>rw_commands := rw_commands w + 1, rw_events := rw_events w @ [RRedis (c_string command)]\<rparr>))"

end
