(* ===== verification/RobotStore.thy ===== *)
theory RobotStore
  imports RobotWorld
begin

text \<open>
  What the robot server keeps elsewhere: the statements and rows of
  \<^verbatim>\<open>src/server/robot/robot/db_comm.cc\<close>, the Redis commands of \<^verbatim>\<open>dic_comm.cc\<close>, and the songs they
  yield (\<^verbatim>\<open>LogicUnit::FormateMusicInfo\<close>).
\<close>

section \<open>db_comm.cc\<close>

text \<open>A call with one number.\<close>

definition sql_call :: "string \<Rightarrow> int64 \<Rightarrow> string \<Rightarrow> byte list" where
  "sql_call name uid tail = ascii name @ decimal (sint uid) @ ascii tail"

primrec fetch_lbs_pos ::
  "robot_env \<Rightarrow> byte list option list list \<Rightarrow> double \<times> double \<Rightarrow> (double \<times> double) robot_m" where
  "fetch_lbs_pos E [] pos = State_Monad.return pos"
| "fetch_lbs_pos E (row # rows) pos = (case (column row 4, column row 5) of
       (Some latitude, Some longitude) \<Rightarrow> fetch_lbs_pos E rows (re_atof E latitude, re_atof E longitude)
     | _ \<Rightarrow> do { robot_crash; State_Monad.return pos })"

definition GetUserLbsPos :: "robot_env \<Rightarrow> int64 \<Rightarrow> (double \<times> double) robot_m" where
  "GetUserLbsPos E uid = do {
     r \<leftarrow> robot_sql E (sql_call ''call migfm.proc_GetLbsAboutInfos('' uid '');'');
     case r of Rows rows \<Rightarrow> fetch_lbs_pos E rows (0, 0) | _ \<Rightarrow> State_Monad.return (0, 0)
   }"

text \<open>Most statements are sent through a connection nobody checks.\<close>

definition unchecked_sql :: "robot_env \<Rightarrow> byte list \<Rightarrow> sql_result robot_m" where
  "unchecked_sql E sql = do {
     r \<leftarrow> robot_sql E sql;
     (if r = NoEngine then robot_crash else State_Monad.return ());
     State_Monad.return r
   }"

definition UpdateRobotLbsPos :: "robot_env \<Rightarrow> int64 \<Rightarrow> double \<Rightarrow> double \<Rightarrow> bool robot_m" where
  "UpdateRobotLbsPos E uid latitude longitude = do {
     r \<leftarrow> unchecked_sql E (ascii ''call proc_RecordRobotLbsPos('' @ quoted (decimal (sint uid)) @ comma @
       take 255 (re_printf_lf E latitude) @ comma @ take 255 (re_printf_lf E longitude) @ ascii ''); '');
     State_Monad.return True
   }"

definition atoi :: "byte list \<Rightarrow> int32" where
  "atoi s = ucast (atoll s)"

text \<open>The rows of \<^verbatim>\<open>GetAssistant\<close> and \<^verbatim>\<open>GetRobotInfos\<close>: an object for each, under its id.\<close>

primrec fetch_robots ::
  "robot_env \<Rightarrow> byte list option list list \<Rightarrow> robot_infos \<Rightarrow> robot_infos robot_m" where
  "fetch_robots E [] infos = State_Monad.return infos"
| "fetch_robots E (row # rows) infos = (case (column row 0, column row 1, column row 2, column row 3) of
       (Some uid, Some nickname, Some sex, Some head_url) \<Rightarrow> do {
         robot \<leftarrow> RobotBasicInfo E (atoll uid) (atoi sex) nickname head_url;
         fetch_robots E rows (map_set (atoll uid) robot infos)
       }
     | _ \<Rightarrow> do { robot_crash; State_Monad.return infos })"

definition query_robots :: "robot_env \<Rightarrow> byte list \<Rightarrow> robot_infos \<Rightarrow> (bool \<times> robot_infos) robot_m" where
  "query_robots E sql infos = do {
     r \<leftarrow> robot_sql E sql;
     case r of
       Rows rows \<Rightarrow> (if rows = [] then State_Monad.return (False, infos) else do {
           infos \<leftarrow> fetch_robots E rows infos;
           State_Monad.return (True, infos)
         })
     | _ \<Rightarrow> State_Monad.return (False, infos)
   }"

definition GetAssistant :: "robot_env \<Rightarrow> robot_infos \<Rightarrow> (bool \<times> robot_infos) robot_m" where
  "GetAssistant E = query_robots E (ascii ''call migfm.proc_GetAssistant()'')"

definition GetRobotInfos :: "robot_env \<Rightarrow> int32 \<Rightarrow> int32 \<Rightarrow> robot_infos \<Rightarrow> (bool \<times> robot_infos) robot_m" where
  "GetRobotInfos E from limit = query_robots E (ascii ''call migfm.proc_GetRobotsInfo('' @
     decimal (sint limit) @ comma @ decimal (sint from) @ ascii '');'')"

primrec fetch_number :: "byte list option list list \<Rightarrow> int64 \<Rightarrow> int64 robot_m" where
  "fetch_number [] n = State_Monad.return n"
| "fetch_number (row # rows) n = (case column row 0 of
       Some s \<Rightarrow> fetch_number rows (atoll s)
     | None \<Rightarrow> do { robot_crash; State_Monad.return n })"

text \<open>The song is not initialised by the caller.\<close>

definition GetRobotLoginListenSong :: "robot_env \<Rightarrow> int64 \<Rightarrow> (bool \<times> int64) robot_m" where
  "GetRobotLoginListenSong E uid = do {
     r \<leftarrow> robot_sql E (sql_call ''call migfm.proc_GetRobotLoginListenSong('' uid '');'');
     case r of
       Rows rows \<Rightarrow> (if rows = [] then State_Monad.return (False, re_junk64 E) else do {
           n \<leftarrow> fetch_number rows (re_junk64 E);
           State_Monad.return (True, n)
         })
     | _ \<Rightarrow> State_Monad.return (False, re_junk64 E)
   }"

definition UpdateRobotLoginTime :: "robot_env \<Rightarrow> int64 \<Rightarrow> bool robot_m" where
  "UpdateRobotLoginTime E uid = do {
     r \<leftarrow> unchecked_sql E (sql_call ''call migfm.proc_V2RobotLoginTime('' uid '')'');
     State_Monad.return (sql_succeeds r)
   }"

text \<open>The ids of channels, moods and scenes, in the order of the rows.\<close>

primrec fetch_ids :: "(int64 \<Rightarrow> int64) \<Rightarrow> byte list option list list \<Rightarrow> int64 list robot_m" where
  "fetch_ids f [] = State_Monad.return []"
| "fetch_ids f (row # rows) = (case column row 0 of
       Some s \<Rightarrow> do { ids \<leftarrow> fetch_ids f rows; State_Monad.return (f (atoll s) # ids) }
     | None \<Rightarrow> do { robot_crash; State_Monad.return [] })"

definition GetChannelInfos :: "robot_env \<Rightarrow> (bool \<times> int64 list) robot_m" where
  "GetChannelInfos E = do {
     r \<leftarrow> unchecked_sql E (ascii ''select id from migfm_channel;'');
     case r of
       Rows rows \<Rightarrow> do { ids \<leftarrow> fetch_ids id rows; State_Monad.return (True, ids) }
     | _ \<Rightarrow> State_Monad.return (False, [])
   }"

definition ids_of_table :: "robot_env \<Rightarrow> byte list \<Rightarrow> (bool \<times> int64 list) robot_m" where
  "ids_of_table E sql = do {
     r \<leftarrow> unchecked_sql E sql;
     case r of
       Rows rows \<Rightarrow> do { ids \<leftarrow> fetch_ids (\<lambda>n. to_int64 (to_int n)) rows; State_Monad.return (rows \<noteq> [], ids) }
     | _ \<Rightarrow> State_Monad.return (False, [])
   }"

definition GetMoodInfos :: "robot_env \<Rightarrow> (bool \<times> int64 list) robot_m" where
  "GetMoodInfos E = ids_of_table E (ascii ''select id from migfm_mood;'')"

definition GetSceneInfos :: "robot_env \<Rightarrow> (bool \<times> int64 list) robot_m" where
  "GetSceneInfos E = ids_of_table E (ascii ''select id from migfm_scene;'')"

section \<open>dic_comm.cc\<close>

text \<open>The length of the key is taken before the key is written.  The value ends in a NUL that is cut
  off; an empty one makes the length wrap around.\<close>

definition GetMusicInfos :: "robot_env \<Rightarrow> int64 \<Rightarrow> byte list robot_m" where
  "GetMusicInfos E songid = (case re_value E 0 (decimal (sint songid)) of
       None \<Rightarrow> State_Monad.return []
     | Some v \<Rightarrow> (if v = [] then do { robot_crash; State_Monad.return [] }
         else State_Monad.return (take (length v - 1) v)))"

definition spaced :: "byte list list \<Rightarrow> byte list" where
  "spaced ws = concat (map (\<lambda>w. 32 # w) ws)"

text \<open>First the ids of the songs at the places drawn, then the songs.\<close>

definition GetBatchMusicInfos :: "robot_env \<Rightarrow> byte list \<Rightarrow> int64 list \<Rightarrow> (bool \<times> byte list list) robot_m" where
  "GetBatchMusicInfos E key places =
     (if places = [] then State_Monad.return (False, []) else do {
        r \<leftarrow> GetBatchInfos E (ascii ''hmget'' @ 32 # key @
          spaced (map (\<lambda>n. decimal (sint (to_int n))) places));
        case r of
          None \<Rightarrow> State_Monad.return (False, [])
        | Some ids \<Rightarrow> (if ids = [] then State_Monad.return (False, []) else do {
            r \<leftarrow> GetBatchInfos E (ascii ''mget'' @ spaced ids);
            case r of
              None \<Rightarrow> State_Monad.return (False, [])
            | Some infos \<Rightarrow> State_Monad.return (True, infos)
          })
      })"

section \<open>Songs\<close>

text \<open>The order of \<^verbatim>\<open>std::string\<close>.\<close>

fun string_less :: "byte list \<Rightarrow> byte list \<Rightarrow> bool" where
  "string_less [] [] = False"
| "string_less [] (y # ys) = True"
| "string_less (x # xs) [] = False"
| "string_less (x # xs) (y # ys) = (x < y \<or> x = y \<and> string_less xs ys)"

text \<open>\<^verbatim>\<open>std::map<std::string, MusicInfo>\<close>.\<close>

fun music_map_set :: "byte list \<Rightarrow> music \<Rightarrow> (byte list \<times> music) list \<Rightarrow> (byte list \<times> music) list" where
  "music_map_set k v [] = [(k, v)]"
| "music_map_set k v ((k', v') # m) =
     (if k = k' then (k, v) # m
      else if string_less k k' then (k, v) # (k', v') # m
      else (k', v') # music_map_set k v m)"

definition add_song :: "robot_env \<Rightarrow> byte list \<Rightarrow> (byte list \<times> music) list \<Rightarrow> (byte list \<times> music) list" where
  "add_song E info m = (let mu = re_music E info in music_map_set (mu_id mu) mu m)"

definition FormateMusicInfo :: "robot_env \<Rightarrow> byte list list \<Rightarrow> (byte list \<times> music) list" where
  "FormateMusicInfo E infos = fold (add_song E) infos []"

lemma length_music_map_set: "length m \<le> length (music_map_set k v m)" "length (music_map_set k v m) \<le> length m + 1"
  "music_map_set k v m \<noteq> []"
  by (induction k v m rule: music_map_set.induct) auto

lemma length_add_songs:
  "length (fold (add_song E) infos m) \<le> length m + length infos"
  "length m \<le> length (fold (add_song E) infos m)"
proof (induction infos arbitrary: m)
  case (Cons info infos)
  have one: "length m \<le> length (add_song E info m)" "length (add_song E info m) \<le> length m + 1" for m
    using length_music_map_set(1,2) [where m = m] by (simp_all add: add_song_def Let_def)
  case 1
  show ?case using Cons.IH(1) [of "add_song E info m"] one(2) [of m] by simp
  case 2
  show ?case using Cons.IH(2) [of "add_song E info m"] one(1) [of m] by simp
qed simp_all

text \<open>No more songs come out than texts go in, and none only if none goes in.\<close>

lemma FormateMusicInfo_length:
  "length (FormateMusicInfo E infos) \<le> length infos"
  "FormateMusicInfo E infos = [] \<longleftrightarrow> infos = []"
proof -
  show "length (FormateMusicInfo E infos) \<le> length infos"
    using length_add_songs(1) [of E infos "[]"] by (simp add: FormateMusicInfo_def)
  show "FormateMusicInfo E infos = [] \<longleftrightarrow> infos = []"
  proof (cases infos)
    case (Cons info infos')
    have "add_song E info [] \<noteq> []" by (simp add: add_song_def Let_def)
    then have "0 < length (add_song E info [])" by blast
    then have "0 < length (fold (add_song E) infos' (add_song E info []))"
      using length_add_songs(2) [of "add_song E info []" E infos'] by linarith
    then show ?thesis by (auto simp: FormateMusicInfo_def Cons)
  qed (simp add: FormateMusicInfo_def)
qed

end
