(* ===== verification/RobotCache.thy ===== *)
theory RobotCache
  imports RobotStore
begin

text \<open>
  \<^verbatim>\<open>RobotCacheManager\<close> and \<^verbatim>\<open>CacheManagerOp\<close> of
  \<^verbatim>\<open>src/server/robot/robot/robot_cache_manager.{h,cc}\<close>.  A robot is idle, then temporary between the
  notice to a scheduler and its own login, then in use; all three are tables of the platform.  As in
  the chat server each operation is one critical section, hence one computation, and lookups cut
  their key to an \<^verbatim>\<open>int\<close>.
\<close>

section \<open>Access to a platform\<close>

definition rp_get :: "int64 \<Rightarrow> robot_platform option robot_m" where
  "rp_get pid = State (\<lambda>w. (map_find (rw_platforms w) pid, w))"

text \<open>The map holds pointers, so a platform is changed in place.\<close>

fun update_at :: "'k \<Rightarrow> ('v \<Rightarrow> 'v) \<Rightarrow> ('k \<times> 'v) list \<Rightarrow> ('k \<times> 'v) list" where
  "update_at k f [] = []"
| "update_at k f ((k', v) # m) = (if k' = k then (k', f v) # m else (k', v) # update_at k f m)"

definition rp_modify :: "int64 \<Rightarrow> (robot_platform \<Rightarrow> robot_platform) \<Rightarrow> unit robot_m" where
  "rp_modify pid f = State (\<lambda>w. ((), w\<lparr>rw_platforms := update_at pid f (rw_platforms w)\<rparr>))"

text \<open>The frame of an operation: \<open>d\<close> is what it returns for an unknown platform.\<close>

definition with_rp :: "int64 \<Rightarrow> 'a \<Rightarrow> (robot_platform \<Rightarrow> 'a robot_m) \<Rightarrow> 'a robot_m" where
  "with_rp pid d f = do {
     pc \<leftarrow> rp_get pid;
     case pc of None \<Rightarrow> State_Monad.return d | Some pc \<Rightarrow> f pc
   }"

abbreviation set_robot :: "nat \<Rightarrow> (robot_data \<Rightarrow> robot_data) \<Rightarrow> unit robot_m" where
  "set_robot \<equiv> obj_set rw_robots_update"

section \<open>Positions\<close>

text \<open>\<^verbatim>\<open>MigRadomIn::GetPrize\<close> on the table of the platform; a place outside of it is read all the same.\<close>

definition radom_draw :: "robot_env \<Rightarrow> int64 \<Rightarrow> int64 robot_m" where
  "radom_draw E pid = with_rp pid 0 (\<lambda>pc. do {
     r \<leftarrow> State (\<lambda>w. (re_rand E (rw_rands w), w\<lparr>rw_rands := rw_rands w + 1\<rparr>));
     (case GetPrizeV1 (rp_radom_table pc) r (rp_radom_in pc) of (num, v) \<Rightarrow> do {
        rp_modify pid (\<lambda>pc. pc\<lparr>rp_radom_in := v\<rparr>);
        case num of
          Some n \<Rightarrow> State_Monad.return (of_int n)
        | None \<Rightarrow> do { robot_stray; State_Monad.return (to_int64 (re_junk32 E)) } })
   })"

definition GetRobotLbsPos :: "robot_env \<Rightarrow> int64 \<Rightarrow> double \<Rightarrow> double \<Rightarrow> (double \<times> double) robot_m" where
  "GetRobotLbsPos E pid latitude longitude = do {
     a \<leftarrow> radom_draw E pid;
     b \<leftarrow> radom_draw E pid;
     State_Monad.return ((latitude * 10 * 10000 + of_int (sint a)) / 100000,
       (longitude * 10 * 10000 + of_int (sint b)) / 100000)
   }"

definition place_robot :: "robot_env \<Rightarrow> int64 \<Rightarrow> double \<Rightarrow> double \<Rightarrow> nat \<Rightarrow> unit robot_m" where
  "place_robot E pid latitude longitude robot = do {
     pos \<leftarrow> GetRobotLbsPos E pid latitude longitude;
     set_robot robot (\<lambda>d. d\<lparr>rd_latitude := fst pos\<rparr>);
     set_robot robot (\<lambda>d. d\<lparr>rd_longitude := snd pos\<rparr>)
   }"

section \<open>Robots for a user\<close>

text \<open>The first idle robot becomes temporary.\<close>

definition GetRobot :: "robot_env \<Rightarrow> int64 \<Rightarrow> double \<Rightarrow> double \<Rightarrow> nat option robot_m" where
  "GetRobot E pid latitude longitude = with_rp pid None (\<lambda>pc.
     case rp_idle pc of
       [] \<Rightarrow> State_Monad.return None
     | (k, robot) # _ \<Rightarrow> do {
         place_robot E pid latitude longitude robot;
         rp_modify pid (\<lambda>pc. pc\<lparr>rp_temp := map_set k robot (rp_temp pc),
           rp_idle := map_erase k (rp_idle pc)\<rparr>);
         State_Monad.return (Some robot)
       })"

primrec GetRobots :: "nat \<Rightarrow> robot_env \<Rightarrow> int64 \<Rightarrow> double \<Rightarrow> double \<Rightarrow> (bool \<times> nat list) robot_m" where
  "GetRobots 0 E pid latitude longitude = State_Monad.return (True, [])"
| "GetRobots (Suc i) E pid latitude longitude = do {
     r \<leftarrow> GetRobot E pid latitude longitude;
     case r of
       None \<Rightarrow> State_Monad.return (False, [])
     | Some robot \<Rightarrow> do {
         (r, list) \<leftarrow> GetRobots i E pid latitude longitude;
         State_Monad.return (r, robot # list)
       }
   }"

definition GetIdleRobot ::
  "robot_env \<Rightarrow> int64 \<Rightarrow> int64 \<Rightarrow> double \<Rightarrow> double \<Rightarrow> (bool \<times> nat list) robot_m" where
  "GetIdleRobot E pid uid latitude longitude = with_rp pid (False, []) (\<lambda>pc.
     case MapGet (rp_follow pc) (to_int uid) of
       Some robots \<Rightarrow> do {
         each (\<lambda>(k, robot). do {
           place_robot E pid latitude longitude robot;
           t \<leftarrow> robot_time E;
           set_robot robot (\<lambda>d. d\<lparr>rd_follower_user_last_time := t\<rparr>)
         }) robots;
         State_Monad.return (True, map snd robots)
       }
     | None \<Rightarrow> GetRobots 2 E pid latitude longitude)"

definition AddUserFollowRobot :: "int64 \<Rightarrow> nat \<Rightarrow> robot_data \<Rightarrow> robot_platform \<Rightarrow> robot_platform" where
  "AddUserFollowRobot uid robot d pc =
     (let robots = (case MapGet (rp_follow pc) (to_int uid) of None \<Rightarrow> [] | Some m \<Rightarrow> m);
        robots = map_set (rd_uid d) robot robots
      in pc\<lparr>rp_follow := snd (MapAdd (map_set uid robots (rp_follow pc)) uid robots)\<rparr>)"

text \<open>The robot found, or None if the caller's variable is left as it was.\<close>

definition RobotLoginSucess ::
  "robot_env \<Rightarrow> int64 \<Rightarrow> int64 \<Rightarrow> int32 \<Rightarrow> int64 \<Rightarrow> nat option robot_m" where
  "RobotLoginSucess E pid robot_uid socket uid = with_rp pid None (\<lambda>pc.
     case (case MapGet (rp_temp pc) (to_int robot_uid) of
         Some robot \<Rightarrow> Some robot | None \<Rightarrow> MapGet (rp_used pc) (to_int robot_uid)) of
       None \<Rightarrow> State_Monad.return None
     | Some robot \<Rightarrow> do {
         set_robot robot (\<lambda>d. d\<lparr>rd_socket := socket\<rparr>);
         set_robot robot (\<lambda>d. d\<lparr>rd_follow_map := map_set uid uid (rd_follow_map d)\<rparr>);
         t \<leftarrow> robot_time E;
         set_robot robot (\<lambda>d. d\<lparr>rd_recv_last_time := t\<rparr>);
         t \<leftarrow> robot_time E;
         set_robot robot (\<lambda>d. d\<lparr>rd_follower_user_last_time := t\<rparr>);
         rp_modify pid (\<lambda>pc. pc\<lparr>rp_temp := snd (MapDel (rp_temp pc) robot_uid),
           rp_used := snd (MapAdd (rp_used pc) robot_uid robot)\<rparr>);
         d \<leftarrow> obj_get rw_robots robot;
         UpdateRobotLbsPos E robot_uid (rd_latitude d) (rd_longitude d);
         rp_modify pid (AddUserFollowRobot uid robot d);
         State_Monad.return (Some robot)
       })"

definition GetUserFollower :: "int64 \<Rightarrow> int64 \<Rightarrow> robot_infos option robot_m" where
  "GetUserFollower pid uid = with_rp pid None (\<lambda>pc.
     State_Monad.return (MapGet (rp_follow pc) (to_int uid)))"

text \<open>The first robot with the most tasks; all of them are marked as busy with their user.\<close>

primrec busiest :: "robot_env \<Rightarrow> nat \<Rightarrow> nat list \<Rightarrow> nat robot_m" where
  "busiest E robot [] = State_Monad.return robot"
| "busiest E robot (r # rs) = do {
     t \<leftarrow> robot_time E;
     set_robot r (\<lambda>d. d\<lparr>rd_follower_user_last_time := t\<rparr>);
     d \<leftarrow> obj_get rw_robots r;
     best \<leftarrow> obj_get rw_robots robot;
     busiest E (if sint (rd_task_count best) < sint (rd_task_count d) then r else robot) rs
   }"

definition GetTaskRobot :: "robot_env \<Rightarrow> robot_infos \<Rightarrow> nat option robot_m" where
  "GetTaskRobot E robots = (case robots of
       [] \<Rightarrow> do { robot_crash; State_Monad.return None }
     | (k, robot) # _ \<Rightarrow> do {
         r \<leftarrow> busiest E robot (map snd robots);
         State_Monad.return (Some r)
       })"

definition GetUserFollowTaskRobot :: "robot_env \<Rightarrow> int64 \<Rightarrow> int64 \<Rightarrow> nat option robot_m" where
  "GetUserFollowTaskRobot E pid uid = with_rp pid None (\<lambda>pc.
     case MapGet (rp_follow pc) (to_int uid) of
       None \<Rightarrow> State_Monad.return None
     | Some robots \<Rightarrow> GetTaskRobot E robots)"

text \<open>What a notice says of a robot.\<close>

definition robot_info_of :: "robot_env \<Rightarrow> nat \<Rightarrow> robot_info_packet robot_m" where
  "robot_info_of E robot = do {
     d \<leftarrow> obj_get rw_robots robot;
     name \<leftarrow> LogicComm_SafeStrncpy E NICKNAME_LEN (rd_nickname d) NICKNAME_LEN;
     State_Monad.return \<lparr>ri_uid = rd_uid d, ri_songid = 0, ri_latitude = rd_latitude d,
       ri_longitude = rd_longitude d, ri_nickname = name\<rparr>
   }"

text \<open>A follower that is not in use, because its client was cleared away, is to log in again; the
  first scheduler is told so without a look whether there is one.\<close>

definition CheckUserFollowAllRobot :: "robot_env \<Rightarrow> int64 \<Rightarrow> int64 \<Rightarrow> nat \<Rightarrow> unit robot_m" where
  "CheckUserFollowAllRobot E pid uid robot = with_rp pid () (\<lambda>pc. do {
     d \<leftarrow> obj_get rw_robots robot;
     if MapGet (rp_used pc) (to_int (rd_uid d)) \<noteq> None then State_Monad.return ()
     else do {
       l \<leftarrow> obj_new rw_listeners rw_listeners_update
         \<lparr>ld_uid = 0, ld_type_id = re_junk32 E, ld_mode = []\<rparr>;
       rp_modify pid (\<lambda>pc. pc\<lparr>rp_listeners := snd (MapAdd (rp_listeners pc) uid l),
         rp_idle := snd (MapDel (rp_idle pc) (rd_uid d)),
         rp_temp := snd (MapAdd (rp_temp pc) (rd_uid d) robot)\<rparr>);
       case rp_schedulers pc of
         [] \<Rightarrow> robot_crash
       | (k, s) # _ \<Rightarrow> do {
           sd \<leftarrow> obj_get rw_schedulers s;
           h \<leftarrow> Robot_MAKE_HEAD E NOTICE_USER_ROBOT_LOGIN;
           info \<leftarrow> robot_info_of E robot;
           Robot_SendMessage E (sd_socket sd) h (RobotLoginNotice \<lparr>rl_uid = uid, rl_robot_list = [info]\<rparr>);
           State_Monad.return ()
         }
     }
   })"

definition GetUserFollowAllRobot :: "robot_env \<Rightarrow> int64 \<Rightarrow> int64 \<Rightarrow> robot_infos option robot_m" where
  "GetUserFollowAllRobot E pid uid = with_rp pid None (\<lambda>pc.
     case MapGet (rp_follow pc) (to_int uid) of
       None \<Rightarrow> State_Monad.return None
     | Some robots \<Rightarrow> do {
         each (\<lambda>(k, robot). CheckUserFollowAllRobot E pid uid robot) robots;
         State_Monad.return (Some robots)
       })"

definition GetUsedRobotInfo :: "int64 \<Rightarrow> int64 \<Rightarrow> nat option robot_m" where
  "GetUsedRobotInfo pid uid = with_rp pid None (\<lambda>pc.
     State_Monad.return (MapGet (rp_used pc) (to_int uid)))"

definition GetIdelRobotInfo :: "int64 \<Rightarrow> int64 \<Rightarrow> nat option robot_m" where
  "GetIdelRobotInfo pid uid = with_rp pid None (\<lambda>pc.
     State_Monad.return (MapGet (rp_idle pc) (to_int uid)))"

text \<open>For each user of the robot: the user's listening state is dropped; the robot is taken out of a
  copy of the user's robots, and the entry goes only when this was the last one.\<close>

definition forget_follower :: "int64 \<Rightarrow> int64 \<Rightarrow> robot_platform \<Rightarrow> robot_platform" where
  "forget_follower robot_uid uid pc =
     (let pc = pc\<lparr>rp_listeners := snd (MapDel (rp_listeners pc) uid)\<rparr>;
        robots = (case MapGet (rp_follow pc) (to_int uid) of None \<Rightarrow> [] | Some m \<Rightarrow> m)
      in if robots = [] then pc
         else if snd (MapDel robots robot_uid) = [] then pc\<lparr>rp_follow := snd (MapDel (rp_follow pc) uid)\<rparr>
         else pc)"

definition ClearRobot :: "int64 \<Rightarrow> nat \<Rightarrow> bool robot_m" where
  "ClearRobot pid robot = with_rp pid False (\<lambda>pc. do {
     d \<leftarrow> obj_get rw_robots robot;
     if rd_follow_map d = [] then State_Monad.return False
     else do {
       rp_modify pid (\<lambda>pc.
         let pc = fold (forget_follower (rd_uid d)) (map fst (rd_follow_map d)) pc
         in pc\<lparr>rp_used := snd (MapDel (rp_used pc) (rd_uid d)),
               rp_idle := snd (MapAdd (rp_idle pc) (rd_uid d) robot)\<rparr>);
       State_Monad.return True
     }
   })"

section \<open>Users\<close>

definition SetUserInfo :: "int64 \<Rightarrow> int64 \<Rightarrow> int32 \<Rightarrow> int32 \<Rightarrow> int32 \<Rightarrow> unit robot_m" where
  "SetUserInfo pid uid current_weather future_weather future_time = with_rp pid () (\<lambda>pc. do {
     u \<leftarrow> (case MapGet (rp_user_basic pc) (to_int uid) of
         None \<Rightarrow> do {
           u \<leftarrow> obj_new rw_basics rw_basics_update (UserBasicInfo_Data uid 0);
           State_Monad.return (Some u)
         }
       | Some u \<Rightarrow> do {
           d \<leftarrow> obj_get rw_basics u;
           State_Monad.return (if ub_last_weather_status d \<noteq> future_weather then None else Some u)
         });
     case u of
       None \<Rightarrow> State_Monad.return ()
     | Some u \<Rightarrow> do {
         obj_set rw_basics_update u (\<lambda>d. d\<lparr>ub_last_weather_status := current_weather\<rparr>);
         rp_modify pid (\<lambda>pc. pc\<lparr>rp_user_basic := snd (MapAdd (rp_user_basic pc) uid u)\<rparr>)
       }
   })"

definition GetUserAddressInfo :: "int64 \<Rightarrow> int64 \<Rightarrow> (bool \<times> user_basic_data option) robot_m" where
  "GetUserAddressInfo pid uid = with_rp pid (False, None) (\<lambda>pc.
     case MapGet (rp_user_basic pc) (to_int uid) of
       None \<Rightarrow> State_Monad.return (False, None)
     | Some u \<Rightarrow> do {
         d \<leftarrow> obj_get rw_basics u;
         State_Monad.return (ub_city d \<noteq> [] \<and> ub_province d \<noteq> [], Some d)
       })"

text \<open>The object found is shared with the table, so that setting its fields stores them.\<close>

definition SetUserAddressInfo ::
  "int64 \<Rightarrow> int64 \<Rightarrow> byte list \<Rightarrow> byte list \<Rightarrow> byte list \<Rightarrow> byte list \<Rightarrow> bool robot_m" where
  "SetUserAddressInfo pid uid city district province street = with_rp pid False (\<lambda>pc.
     case MapGet (rp_user_basic pc) (to_int uid) of
       None \<Rightarrow> State_Monad.return False
     | Some u \<Rightarrow> do {
         obj_set rw_basics_update u (\<lambda>d. d\<lparr>ub_city := city\<rparr>);
         obj_set rw_basics_update u (\<lambda>d. d\<lparr>ub_district := district\<rparr>);
         obj_set rw_basics_update u (\<lambda>d. d\<lparr>ub_province := province\<rparr>);
         obj_set rw_basics_update u (\<lambda>d. d\<lparr>ub_street := street\<rparr>);
         State_Monad.return True
       })"

definition IsPushMessageDay :: "robot_env \<Rightarrow> int64 \<Rightarrow> int64 \<Rightarrow> bool robot_m" where
  "IsPushMessageDay E pid uid = with_rp pid False (\<lambda>pc.
     case MapGet (rp_user_basic pc) (to_int uid) of
       None \<Rightarrow> State_Monad.return False
     | Some u \<Rightarrow> do {
         d \<leftarrow> obj_get rw_basics u;
         t \<leftarrow> robot_time E;
         State_Monad.return (tm_mon (re_localtime E t) + 1 \<noteq> sint (ub_push_month d) \<or>
           tm_mday (re_localtime E t) \<noteq> sint (ub_push_day d))
       })"

definition SetUserPushMessageDay :: "robot_env \<Rightarrow> int64 \<Rightarrow> int64 \<Rightarrow> bool robot_m" where
  "SetUserPushMessageDay E pid uid = with_rp pid False (\<lambda>pc.
     case MapGet (rp_user_basic pc) (to_int uid) of
       None \<Rightarrow> State_Monad.return False
     | Some u \<Rightarrow> do {
         t \<leftarrow> robot_time E;
         obj_set rw_basics_update u (\<lambda>d. d\<lparr>ub_push_month := of_int (tm_mon (re_localtime E t) + 1)\<rparr>);
         obj_set rw_basics_update u (\<lambda>d. d\<lparr>ub_push_day := of_int (tm_mday (re_localtime E t))\<rparr>);
         rp_modify pid (\<lambda>pc. pc\<lparr>rp_user_basic := snd (MapAdd (rp_user_basic pc) uid u)\<rparr>);
         State_Monad.return True
       })"

definition SetUserInfoLogin :: "robot_env \<Rightarrow> int64 \<Rightarrow> int64 \<Rightarrow> bool robot_m" where
  "SetUserInfoLogin E pid uid = with_rp pid False (\<lambda>pc. do {
     l \<leftarrow> obj_new rw_listeners rw_listeners_update \<lparr>ld_uid = uid, ld_type_id = re_junk32 E, ld_mode = []\<rparr>;
     rp_modify pid (\<lambda>pc. pc\<lparr>rp_listeners := snd (MapAdd (rp_listeners pc) uid l)\<rparr>);
     State_Monad.return True
   })"

definition SetUserListenState :: "int64 \<Rightarrow> int64 \<Rightarrow> int32 \<Rightarrow> byte list \<Rightarrow> bool robot_m" where
  "SetUserListenState pid uid type_id mode = with_rp pid False (\<lambda>pc.
     case MapGet (rp_listeners pc) (to_int uid) of
       None \<Rightarrow> State_Monad.return False
     | Some l \<Rightarrow> do {
         obj_set rw_listeners_update l (\<lambda>d. d\<lparr>ld_mode := mode\<rparr>);
         obj_set rw_listeners_update l (\<lambda>d. d\<lparr>ld_type_id := type_id\<rparr>);
         rp_modify pid (\<lambda>pc. pc\<lparr>rp_listeners := snd (MapAdd (rp_listeners pc) uid l)\<rparr>);
         State_Monad.return True
       })"

end
