(* ===== verification/RobotTasks.thy ===== *)
theory RobotTasks
  imports RobotCache
begin

text \<open>
  The rest of \<^verbatim>\<open>src/server/robot/robot/robot_cache_manager.cc\<close>: schedulers and assistants, the random
  songs of a channel, mood or scene, the periodic checks of connections, the start of a platform,
  and the lottery of \<^verbatim>\<open>logic_unit.cc\<close>.
\<close>

section \<open>Schedulers\<close>

text \<open>The first scheduler with the fewest clients.\<close>

primrec least_busy :: "nat \<Rightarrow> nat list \<Rightarrow> nat robot_m" where
  "least_busy s [] = State_Monad.return s"
| "least_busy s (t # ts) = do {
     d \<leftarrow> obj_get rw_schedulers s;
     e \<leftarrow> obj_get rw_schedulers t;
     least_busy (if sint (sd_client_count e) < sint (sd_client_count d) then t else s) ts
   }"

definition GetIdleScheduler :: "(int32, nat) stdmap \<Rightarrow> nat option robot_m" where
  "GetIdleScheduler m = (case m of
       [] \<Rightarrow> State_Monad.return None
     | (k, s) # m' \<Rightarrow> do { r \<leftarrow> least_busy s (map snd m'); State_Monad.return (Some r) })"

definition SetScheduler :: "int64 \<Rightarrow> nat \<Rightarrow> bool robot_m" where
  "SetScheduler pid s = with_rp pid False (\<lambda>pc. do {
     d \<leftarrow> obj_get rw_schedulers s;
     rp_modify pid (\<lambda>pc. pc\<lparr>rp_schedulers := snd (MapAdd (rp_schedulers pc) (sd_socket d) s)\<rparr>);
     State_Monad.return True
   })"

definition GetScheduler :: "int64 \<Rightarrow> int32 \<Rightarrow> nat option robot_m" where
  "GetScheduler pid socket = with_rp pid None (\<lambda>pc.
     State_Monad.return (MapGetKey (rp_schedulers pc) socket))"

definition DeleteScheduler :: "int64 \<Rightarrow> int32 \<Rightarrow> bool robot_m" where
  "DeleteScheduler pid socket = with_rp pid False (\<lambda>pc. do {
     rp_modify pid (\<lambda>pc. pc\<lparr>rp_schedulers := snd (MapDel (rp_schedulers pc) socket)\<rparr>);
     State_Monad.return (fst (MapDel (rp_schedulers pc) socket))
   })"

definition SchedulerSendMessage ::
  "robot_env \<Rightarrow> int64 \<Rightarrow> packet_head \<Rightarrow> robot_body \<Rightarrow> bool robot_m" where
  "SchedulerSendMessage E pid h b = with_rp pid False (\<lambda>pc. do {
     s \<leftarrow> GetIdleScheduler (rp_schedulers pc);
     case s of
       None \<Rightarrow> State_Monad.return False
     | Some s \<Rightarrow> do {
         d \<leftarrow> obj_get rw_schedulers s;
         Robot_SendMessage E (sd_socket d) h b
       }
   })"

section \<open>Assistants\<close>

definition GetAssistantInfo :: "int64 \<Rightarrow> int64 \<Rightarrow> nat option robot_m" where
  "GetAssistantInfo pid uid = with_rp pid None (\<lambda>pc.
     State_Monad.return (MapGet (rp_assistant pc) (to_int uid)))"

definition GetIdleAssistant :: "int64 \<Rightarrow> nat option robot_m" where
  "GetIdleAssistant pid = GetAssistantInfo pid 10000"

text \<open>The key is the socket of a robot just made, zero, and not the one that was closed.\<close>

definition DeleteAssistant :: "int64 \<Rightarrow> int32 \<Rightarrow> bool robot_m" where
  "DeleteAssistant pid socket = with_rp pid False (\<lambda>pc.
     let key = to_int64 (rd_socket (RobotBasicInfo_Data 0 0 0 0 [] [])) in do {
       rp_modify pid (\<lambda>pc. pc\<lparr>rp_robot_socket := snd (MapDel (rp_robot_socket pc) key)\<rparr>);
       State_Monad.return (fst (MapDel (rp_robot_socket pc) key))
     })"

definition SetAssistantLogin :: "int64 \<Rightarrow> int64 \<Rightarrow> int32 \<Rightarrow> bool robot_m" where
  "SetAssistantLogin pid assistant_id socket = with_rp pid False (\<lambda>pc.
     case MapGet (rp_assistant pc) (to_int assistant_id) of
       None \<Rightarrow> State_Monad.return False
     | Some a \<Rightarrow> do {
         set_robot a (\<lambda>d. d\<lparr>rd_login := 1\<rparr>);
         set_robot a (\<lambda>d. d\<lparr>rd_socket := socket\<rparr>);
         rp_modify pid (\<lambda>pc. pc\<lparr>rp_robot_socket := snd (MapAdd (rp_robot_socket pc) (to_int64 socket) a)\<rparr>);
         State_Monad.return True
       })"

definition SendAssistantHandlseSong :: "robot_env \<Rightarrow> int64 \<Rightarrow> handle_song_info list \<Rightarrow> bool robot_m" where
  "SendAssistantHandlseSong E pid songs = with_rp pid False (\<lambda>pc.
     case MapGet (rp_assistant pc) 10000 of
       None \<Rightarrow> State_Monad.return False
     | Some a \<Rightarrow> do {
         h \<leftarrow> Robot_MAKE_HEAD E NOTICE_ASSISTANT_HANDSEL_SONG;
         d \<leftarrow> obj_get rw_robots a;
         Robot_SendMessage E (rd_socket d) h (AssistantHandselSong
           \<lparr>ah_platform_id = pid, ah_assistant_id = rd_uid d, ah_list = songs\<rparr>)
       })"

text \<open>The texts in UTF-8 of an unknown title and an unknown artist.  A lookup that fails still returns
  true, so they are never used.\<close>

definition SendAssistantLuckGift ::
  "robot_env \<Rightarrow> int64 \<Rightarrow> int64 \<Rightarrow> int32 \<Rightarrow> int32 \<Rightarrow> int64 \<Rightarrow> bool robot_m" where
  "SendAssistantLuckGift E pid uid share_plat prize songid =
     (if prize = 0 then State_Monad.return True
      else with_rp pid False (\<lambda>pc. case MapGet (rp_assistant pc) 10000 of
         None \<Rightarrow> State_Monad.return False
       | Some a \<Rightarrow> do {
           text \<leftarrow> GetMusicInfos E songid;
           h \<leftarrow> Robot_MAKE_HEAD E NOTICE_USER_ROBOT_GIFT_LUCK;
           d \<leftarrow> obj_get rw_robots a;
           Robot_SendMessage E (rd_socket d) h (GiftLuck
             \<lparr>gl_platform_id = 10000, gl_uid = uid, gl_share_plat = share_plat, gl_prize = prize,
              gl_name = snprintf_s NAME_LEN (re_base64 E (mu_title (re_music E text))),
              gl_singer = snprintf_s SINGER_LEN (re_base64 E (mu_artist (re_music E text)))\<rparr>)
         }))"

definition notify_assistant :: "robot_env \<Rightarrow> int64 \<Rightarrow> nat \<Rightarrow> nat \<Rightarrow> unit robot_m" where
  "notify_assistant E pid s robot = do {
     h \<leftarrow> Robot_MAKE_HEAD E NOTICE_ASSISTANT_LOGIN;
     d \<leftarrow> obj_get rw_robots robot;
     sd \<leftarrow> obj_get rw_schedulers s;
     Robot_SendMessage E (sd_socket sd) h (AssistantLogin
       \<lparr>na_platform_id = pid, na_assistant_id = rd_uid d,
        na_nickname = snprintf_s NICKNAME_LEN (rd_nickname d)\<rparr>);
     State_Monad.return ()
   }"

definition NoticeAssistantLogin :: "robot_env \<Rightarrow> int64 \<Rightarrow> bool robot_m" where
  "NoticeAssistantLogin E pid = with_rp pid False (\<lambda>pc. do {
     s \<leftarrow> GetIdleScheduler (rp_schedulers pc);
     case s of
       None \<Rightarrow> State_Monad.return False
     | Some s \<Rightarrow> do {
         each (\<lambda>(k, robot). notify_assistant E pid s robot) (rp_assistant pc);
         State_Monad.return True
       }
   })"

section \<open>Songs\<close>

definition chl :: "byte list" where "chl = ascii ''chl''"
definition mm :: "byte list" where "mm = ascii ''mm''"
definition ms :: "byte list" where "ms = ascii ''ms''"

text \<open>The table of a type, and the platform with a new one.\<close>

definition random_map :: "byte list \<Rightarrow> robot_platform \<Rightarrow> (int32, radom_v2) stdmap" where
  "random_map type pc = (if type = chl then rp_channel pc else if type = mm then rp_mood pc
     else if type = ms then rp_scene pc else [])"

definition set_random :: "byte list \<Rightarrow> int32 \<Rightarrow> radom_v2 \<Rightarrow> robot_platform \<Rightarrow> robot_platform" where
  "set_random type n v pc =
     (if type = chl then pc\<lparr>rp_channel := map_set n v (rp_channel pc)\<rparr>
      else if type = mm then pc\<lparr>rp_mood := map_set n v (rp_mood pc)\<rparr>
      else if type = ms then pc\<lparr>rp_scene := map_set n v (rp_scene pc)\<rparr>
      else pc)"

text \<open>\<open>num\<close> random places; none without a table.  \<^verbatim>\<open>GetPrize\<close> asserts that some are asked for.\<close>

definition GetTypeRamdon ::
  "robot_env \<Rightarrow> int64 \<Rightarrow> byte list \<Rightarrow> int32 \<Rightarrow> nat \<Rightarrow> int64 list robot_m" where
  "GetTypeRamdon E pid type wordid num = with_rp pid [] (\<lambda>pc.
     case map_find (random_map type pc) wordid of
       None \<Rightarrow> State_Monad.return []
     | Some v \<Rightarrow>
         (if num = 0 then do { robot_crash; State_Monad.return [] }
          else case GetPrize (re_shuffle E type wordid) num v of
            None \<Rightarrow> do { robot_crash; State_Monad.return [] }
          | Some (places, v') \<Rightarrow> do {
              rp_modify pid (set_random type wordid v');
              State_Monad.return (map of_int places)
            }))"

definition GetModeRadomSong ::
  "robot_env \<Rightarrow> int64 \<Rightarrow> byte list \<Rightarrow> int32 \<Rightarrow> nat \<Rightarrow> (bool \<times> int64 list) robot_m" where
  "GetModeRadomSong E pid type type_id num = with_rp pid (False, []) (\<lambda>pc. do {
     list \<leftarrow> GetTypeRamdon E pid type type_id num;
     State_Monad.return (True, list)
   })"

definition random_key :: "byte list \<Rightarrow> int32 \<Rightarrow> byte list" where
  "random_key type n = type @ ascii ''_r'' @ decimal (sint n)"

definition GetHashSize :: "robot_env \<Rightarrow> byte list \<Rightarrow> int32 robot_m" where
  "GetHashSize E key = State (\<lambda>w. (re_hash_size E (rw_commands w) key, w\<lparr>rw_commands := rw_commands w + 1\<rparr>))"

definition CreateTypeRamdon :: "robot_env \<Rightarrow> int64 \<Rightarrow> byte list \<Rightarrow> int64 list \<Rightarrow> unit robot_m" where
  "CreateTypeRamdon E pid type = each (\<lambda>n. do {
     size \<leftarrow> GetHashSize E (random_key type (to_int n));
     if sint size \<le> 0 then State_Monad.return ()
     else case MigRadomInV2 (re_shuffle E type (to_int n)) (nat (sint size)) of
       None \<Rightarrow> robot_crash
     | Some v \<Rightarrow> rp_modify pid (set_random type (to_int n) v)
   })"

text \<open>One song for every user of every robot in use.\<close>

definition handsel_song :: "robot_env \<Rightarrow> int64 \<Rightarrow> nat \<Rightarrow> int64 \<Rightarrow> unit robot_m" where
  "handsel_song E pid robot uid = with_rp pid () (\<lambda>pc.
     case MapGet (rp_listeners pc) (to_int uid) of
       None \<Rightarrow> State_Monad.return ()
     | Some l \<Rightarrow> do {
         ld \<leftarrow> obj_get rw_listeners l;
         places \<leftarrow> GetTypeRamdon E pid (ld_mode ld) (ld_type_id ld) 1;
         r \<leftarrow> GetBatchMusicInfos E (random_key (ld_mode ld) (ld_type_id ld)) places;
         case FormateMusicInfo E (snd r) of
           [] \<Rightarrow> State_Monad.return ()
         | (k, mu) # _ \<Rightarrow> do {
             h \<leftarrow> Robot_MAKE_HEAD E NOTICE_USER_ROBOT_HANDSEL_SONG;
             d \<leftarrow> obj_get rw_robots robot;
             sendrobotmssage E robot h (HandselSong \<lparr>nh_platform_id = pid, nh_uid = uid,
               nh_robot_id = rd_uid d, nh_song_id = atoll (mu_id mu)\<rparr>);
             set_robot robot (\<lambda>d. d\<lparr>rd_song_task_count := rd_song_task_count d + 1\<rparr>);
             set_robot robot (\<lambda>d. d\<lparr>rd_task_count := rd_task_count d + 1\<rparr>)
           }
       })"

definition RobotHandselSong :: "robot_env \<Rightarrow> int64 \<Rightarrow> bool robot_m" where
  "RobotHandselSong E pid = with_rp pid False (\<lambda>pc. do {
     each (\<lambda>(k, robot). do {
       d \<leftarrow> obj_get rw_robots robot;
       each (handsel_song E pid robot) (map fst (rd_follow_map d))
     }) (rp_used pc);
     State_Monad.return True
   })"

section \<open>Periodic checks\<close>

text \<open>A connection with more than three errors is shut down; one that was silent for twenty seconds in
  both directions gets a heart beat.\<close>

definition silent :: "int64 \<Rightarrow> int64 \<Rightarrow> int64 \<Rightarrow> bool" where
  "silent now recv_last send_last \<longleftrightarrow> 20 < sint (now - recv_last) \<and> 20 < sint (now - send_last)"

definition check_robot :: "robot_env \<Rightarrow> int64 \<Rightarrow> nat \<Rightarrow> unit robot_m" where
  "check_robot E now robot = do {
     d \<leftarrow> obj_get rw_robots robot;
     if 3 < sint (rd_send_error_count d) then closelockconnect (rd_socket d)
     else if silent now (rd_recv_last_time d) (rd_send_last_time d) then do {
       h \<leftarrow> Robot_MAKE_HEAD E HEART_PACKET;
       r \<leftarrow> sendrobotmssage E robot h Heart;
       if r then State_Monad.return ()
       else set_robot robot (\<lambda>d. d\<lparr>rd_send_error_count := rd_send_error_count d + 1\<rparr>)
     }
     else State_Monad.return ()
   }"

definition CheckRobotConnect :: "robot_env \<Rightarrow> int64 \<Rightarrow> unit robot_m" where
  "CheckRobotConnect E pid = with_rp pid () (\<lambda>pc. do {
     now \<leftarrow> robot_time E;
     each (\<lambda>(k, robot). check_robot E now robot) (rp_used pc)
   })"

definition ChecAssistantConnect :: "robot_env \<Rightarrow> int64 \<Rightarrow> unit robot_m" where
  "ChecAssistantConnect E pid = with_rp pid () (\<lambda>pc. do {
     now \<leftarrow> robot_time E;
     each (\<lambda>(k, robot). do {
       d \<leftarrow> obj_get rw_robots robot;
       if MapGet (rp_robot_socket pc) (rd_socket d) = None then State_Monad.return ()
       else check_robot E now robot
     }) (rp_assistant pc)
   })"

definition check_scheduler :: "robot_env \<Rightarrow> int64 \<Rightarrow> nat \<Rightarrow> unit robot_m" where
  "check_scheduler E now s = do {
     d \<leftarrow> obj_get rw_schedulers s;
     if 3 < sint (sd_send_error_count d) then closelockconnect (sd_socket d)
     else if silent now (sd_recv_last_time d) (sd_send_last_time d) then do {
       h \<leftarrow> Robot_MAKE_HEAD E HEART_PACKET;
       r \<leftarrow> Robot_SendMessage E (sd_socket d) h Heart;
       if r then State_Monad.return ()
       else obj_set rw_schedulers_update s (\<lambda>d. d\<lparr>sd_send_error_count := sd_send_error_count d + 1\<rparr>)
     }
     else State_Monad.return ()
   }"

definition CheckSchedulerConnect :: "robot_env \<Rightarrow> int64 \<Rightarrow> unit robot_m" where
  "CheckSchedulerConnect E pid = with_rp pid () (\<lambda>pc. do {
     now \<leftarrow> robot_time E;
     each (\<lambda>(k, s). check_scheduler E now s) (rp_schedulers pc)
   })"

text \<open>A robot whose user was not active for an hour is disconnected.\<close>

definition CheckRobotLive :: "robot_env \<Rightarrow> int64 \<Rightarrow> unit robot_m" where
  "CheckRobotLive E pid = with_rp pid () (\<lambda>pc. do {
     now \<leftarrow> robot_time E;
     each (\<lambda>(k, robot). do {
       d \<leftarrow> obj_get rw_robots robot;
       if 3600 < sint (now - rd_follower_user_last_time d) then closelockconnect (rd_socket d)
       else State_Monad.return ()
     }) (rp_used pc)
   })"

section \<open>The start of a platform\<close>

definition assert_robot :: "bool \<Rightarrow> unit robot_m" where
  "assert_robot b = (if b then State_Monad.return () else robot_crash)"

definition RestMusicListRandom :: "robot_env \<Rightarrow> int64 \<Rightarrow> unit robot_m" where
  "RestMusicListRandom E pid = do {
     (r, channels) \<leftarrow> GetChannelInfos E; assert_robot r;
     (r, moods) \<leftarrow> GetMoodInfos E; assert_robot r;
     (r, scenes) \<leftarrow> GetSceneInfos E; assert_robot r;
     CreateTypeRamdon E pid chl channels;
     CreateTypeRamdon E pid mm moods;
     CreateTypeRamdon E pid ms scenes
   }"

text \<open>The counter of the position table is not initialised.\<close>

definition empty_robot_platform :: "robot_env \<Rightarrow> int list \<Rightarrow> robot_platform" where
  "empty_robot_platform E table = \<lparr>rp_platform_id = 0, rp_platform_name = [], rp_idle = [], rp_used = [],
     rp_temp = [], rp_follow = [], rp_schedulers = [],
     rp_radom_in = \<lparr>gN = 0, gM = 0, iIndex = re_junk32 E\<rparr>, rp_radom_table = table,
     rp_channel = [], rp_mood = [], rp_scene = [], rp_assistant = [], rp_robot_socket = [],
     rp_user_basic = [], rp_listeners = []\<rparr>"

definition Robot_SetPlatformInfo :: "robot_env \<Rightarrow> int64 \<Rightarrow> int64 \<Rightarrow> byte list \<Rightarrow> unit robot_m" where
  "Robot_SetPlatformInfo E pid info_id name = do {
     pc \<leftarrow> rp_get pid;
     (case pc of
        Some pc \<Rightarrow> State_Monad.return ()
      | None \<Rightarrow> (case SetRateTableV1 (re_shuffle E [] 0 0) of
          None \<Rightarrow> robot_crash
        | Some table \<Rightarrow> State (\<lambda>w. ((), w\<lparr>rw_platforms :=
            map_set pid (empty_robot_platform E table) (rw_platforms w)\<rparr>))));
     rp_modify pid (\<lambda>pc. pc\<lparr>rp_platform_id := info_id, rp_platform_name := name\<rparr>);
     pc \<leftarrow> rp_get pid;
     (case pc of None \<Rightarrow> State_Monad.return () | Some pc \<Rightarrow> do {
        (r, idle) \<leftarrow> GetRobotInfos E 0 10000 (rp_idle pc);
        rp_modify pid (\<lambda>pc. pc\<lparr>rp_idle := idle\<rparr>);
        (r, assistant) \<leftarrow> GetAssistant E (rp_assistant pc);
        rp_modify pid (\<lambda>pc. pc\<lparr>rp_assistant := assistant\<rparr>)
      });
     RestMusicListRandom E pid
   }"

definition Robot_GetPlatformInfo :: "int64 \<Rightarrow> (int64 \<times> byte list) option robot_m" where
  "Robot_GetPlatformInfo pid = with_rp pid None (\<lambda>pc.
     State_Monad.return (Some (rp_platform_id pc, rp_platform_name pc)))"

section \<open>Connections and the lottery\<close>

definition SetRobotInfo :: "int32 \<Rightarrow> nat \<Rightarrow> bool robot_m" where
  "SetRobotInfo socket robot = State (\<lambda>w. case MapAdd (rw_robot_sockets w) socket robot of
     (r, m) \<Rightarrow> (r, w\<lparr>rw_robot_sockets := m\<rparr>))"

definition DelRobotInfo :: "int32 \<Rightarrow> bool robot_m" where
  "DelRobotInfo socket = State (\<lambda>w. case MapDel (rw_robot_sockets w) socket of
     (r, m) \<Rightarrow> (r, w\<lparr>rw_robot_sockets := m\<rparr>))"

definition GetRobotInfo :: "int32 \<Rightarrow> nat option robot_m" where
  "GetRobotInfo socket = State (\<lambda>w. (MapGetKey (rw_robot_sockets w) socket, w))"

definition SetLuckGiftInfo :: "luck_gift \<Rightarrow> bool robot_m" where
  "SetLuckGiftInfo g = State (\<lambda>w.
     let plat = (case MapGetKey (rw_luck_gifts w) (lk_plat g) of None \<Rightarrow> [] | Some m \<Rightarrow> m)
     in (True, w\<lparr>rw_luck_gifts := snd (MapAdd (rw_luck_gifts w) (lk_plat g) (map_set (lk_prize g) g plat))\<rparr>))"

definition GetLuckGiftInfo :: "int32 \<Rightarrow> (int32, luck_gift) stdmap option robot_m" where
  "GetLuckGiftInfo plat = State (\<lambda>w. (MapGetKey (rw_luck_gifts w) plat, w))"

primrec fetch_gifts :: "byte list option list list \<Rightarrow> unit robot_m" where
  "fetch_gifts [] = State_Monad.return ()"
| "fetch_gifts (row # rows) = (case (column row 0, column row 1, column row 2) of
       (Some plat, Some rate, Some prize) \<Rightarrow> do {
         SetLuckGiftInfo \<lparr>lk_plat = to_int (atoll plat), lk_rate = to_int (atoll rate),
           lk_prize = to_int (atoll prize)\<rparr>;
         fetch_gifts rows
       }
     | _ \<Rightarrow> robot_crash)"

definition FetchLuckGiftDB :: "robot_env \<Rightarrow> bool robot_m" where
  "FetchLuckGiftDB E = do {
     r \<leftarrow> unchecked_sql E (ascii ''call proc_GetLuckGiftInfo()'');
     case r of
       Rows rows \<Rightarrow> do { fetch_gifts rows; State_Monad.return (rows \<noteq> []) }
     | _ \<Rightarrow> State_Monad.return False
   }"

text \<open>The result of the draw is overwritten: everybody wins the first prize.\<close>

definition LuckGiftCalculation :: "robot_env \<Rightarrow> int32 \<Rightarrow> int64 \<Rightarrow> int64 \<Rightarrow> bool robot_m" where
  "LuckGiftCalculation E plat uid songid = do {
     m \<leftarrow> GetLuckGiftInfo plat;
     case m of
       None \<Rightarrow> State_Monad.return False
     | Some m \<Rightarrow> do {
         (case luck_prizes (map snd m) of
            None \<Rightarrow> robot_crash
          | Some prizes \<Rightarrow> State (\<lambda>w. ((), w\<lparr>rw_rands := rw_rands w + 1,
              rw_prize := snd (PrizeRate_GetPrize (re_rand E (rw_rands w)) prizes (rw_prize w))\<rparr>)));
         SendAssistantLuckGift E 10000 uid plat 1 songid
       }
   }"

end
