(* ===== verification/RobotServer.thy ===== *)
theory RobotServer
  imports RobotTasks RobotUnpack ChatPlugin
begin

text \<open>
  The handlers of the robot server, \<^verbatim>\<open>src/server/robot/robot/robot_connection.cc\<close>, \<^verbatim>\<open>scheduler_mgr.cc\<close>,
  \<^verbatim>\<open>robot_song_mgr.cc\<close>, the dispatch of \<^verbatim>\<open>robot_manager.cc\<close> and the plugin entries of
  \<^verbatim>\<open>robot_init.cc\<close>, and the server as a step relation.
\<close>

section \<open>robot_connection.cc\<close>

primrec robot_infos_of :: "robot_env \<Rightarrow> nat list \<Rightarrow> robot_info_packet list robot_m" where
  "robot_infos_of E [] = State_Monad.return []"
| "robot_infos_of E (robot # rs) = do {
     info \<leftarrow> robot_info_of E robot;
     infos \<leftarrow> robot_infos_of E rs;
     State_Monad.return (info # infos)
   }"

definition Robot_OnUserLogin :: "robot_env \<Rightarrow> notice_user_login \<Rightarrow> bool robot_m" where
  "Robot_OnUserLogin E p = do {
     pos \<leftarrow> GetUserLbsPos E (nl_uid p);
     (r, list) \<leftarrow> GetIdleRobot E (nl_platform_id p) (nl_uid p) (fst pos) (snd pos);
     if list = [] then State_Monad.return False
     else do {
       SetUserInfoLogin E (nl_platform_id p) (nl_uid p);
       h \<leftarrow> Robot_MAKE_HEAD E NOTICE_USER_ROBOT_LOGIN;
       infos \<leftarrow> robot_infos_of E list;
       SchedulerSendMessage E (nl_platform_id p) h
         (RobotLoginNotice \<lparr>rl_uid = nl_uid p, rl_robot_list = infos\<rparr>);
       State_Monad.return True
     }
   }"

text \<open>When the login fails the socket is bound to a robot without data.\<close>

definition OnRobotLogin :: "robot_env \<Rightarrow> int32 \<Rightarrow> robot_login \<Rightarrow> bool robot_m" where
  "OnRobotLogin E socket p = do {
     found \<leftarrow> RobotLoginSucess E (lg_platform_id p) (lg_robot_id p) socket (lg_uid p);
     robot \<leftarrow> (case found of
         Some robot \<Rightarrow> State_Monad.return robot | None \<Rightarrow> RobotBasicInfo E 0 0 [] []);
     r \<leftarrow> SetRobotInfo socket robot;
     d \<leftarrow> obj_get rw_robots robot;
     UpdateRobotLoginTime E (rd_uid d);
     State_Monad.return r
   }"

definition OnRobotChatLogin :: "robot_env \<Rightarrow> notice_chat_login \<Rightarrow> bool robot_m" where
  "OnRobotChatLogin E p = do {
     used \<leftarrow> GetUsedRobotInfo (cl_platform_id p) (cl_robot_id p);
     idle \<leftarrow> (if used = None then GetIdelRobotInfo (cl_platform_id p) (cl_robot_id p)
       else State_Monad.return None);
     if used = None \<and> idle = None then State_Monad.return False
     else do {
       h \<leftarrow> Robot_MAKE_HEAD E NOTICE_USER_ROBOT_SCHEDULER_CHAT_LOGIN;
       SchedulerSendMessage E (cl_platform_id p) h (ChatLogin \<lparr>cl_platform_id = cl_platform_id p,
         cl_uid = cl_uid p, cl_robot_id = cl_robot_id p\<rparr>);
       State_Monad.return True
     }
   }"

definition OnClearRobotConnection :: "int32 \<Rightarrow> bool robot_m" where
  "OnClearRobotConnection socket = do {
     robot \<leftarrow> GetRobotInfo socket;
     case robot of
       None \<Rightarrow> State_Monad.return False
     | Some robot \<Rightarrow> do {
         r \<leftarrow> ClearRobot 10000 robot;
         r \<leftarrow> DelRobotInfo socket;
         State_Monad.return True
       }
   }"

section \<open>scheduler_mgr.cc\<close>

definition OnSchedulerMgrLogin :: "robot_env \<Rightarrow> int32 \<Rightarrow> scheduler_login \<Rightarrow> bool robot_m" where
  "OnSchedulerMgrLogin E socket p = do {
     s \<leftarrow> obj_new rw_schedulers rw_schedulers_update
       (SchedulerInfo_Data (sl_platform_id p) socket [] (sl_machine_id p));
     r \<leftarrow> SetScheduler (sl_platform_id p) s;
     r \<leftarrow> NoticeAssistantLogin E (sl_platform_id p);
     State_Monad.return True
   }"

definition OnDisQuiteScheduler :: "int32 \<Rightarrow> bool robot_m" where
  "OnDisQuiteScheduler socket = DeleteScheduler 10000 socket"

definition OnNoticeAssistant :: "int32 \<Rightarrow> assistant_login_success \<Rightarrow> bool robot_m" where
  "OnNoticeAssistant socket p = do {
     r \<leftarrow> SetAssistantLogin (as_platform_id p) (as_assistant_id p) socket;
     State_Monad.return True
   }"

definition OnDisQuiteAssistant :: "int32 \<Rightarrow> bool robot_m" where
  "OnDisQuiteAssistant socket = DeleteAssistant 10000 socket"

section \<open>robot_song_mgr.cc\<close>

definition OnUserDefaultSong :: "robot_env \<Rightarrow> notice_user_song \<Rightarrow> bool robot_m" where
  "OnUserDefaultSong E p = do {
     robot \<leftarrow> GetUserFollowTaskRobot E (ns_platform_id p) (ns_uid p);
     case robot of
       None \<Rightarrow> State_Monad.return False
     | Some robot \<Rightarrow> do {
         h \<leftarrow> Robot_MAKE_HEAD E NOTICE_USER_ROBOT_HANDSEL_SONG;
         d \<leftarrow> obj_get rw_robots robot;
         sendrobotmssage E robot h (HandselSong \<lparr>nh_platform_id = ns_platform_id p, nh_uid = ns_uid p,
           nh_robot_id = rd_uid d, nh_song_id = ns_songid p\<rparr>)
       }
   }"

text \<open>One song for each robot, as long as there are both.  The mode is used as a format.\<close>

primrec send_songs ::
  "robot_env \<Rightarrow> notice_user_song \<Rightarrow> (nat \<times> music) list \<Rightarrow> bool \<Rightarrow> bool robot_m" where
  "send_songs E p [] r = State_Monad.return r"
| "send_songs E p (rm # rms) r = (case rm of (robot, mu) \<Rightarrow> do {
     t \<leftarrow> robot_time E;
     set_robot robot (\<lambda>d. d\<lparr>rd_follower_user_last_time := t\<rparr>);
     h \<leftarrow> Robot_MAKE_HEAD E NOTICE_USER_ROBOT_LISTEN_SONG;
     mode \<leftarrow> snprintf_format MODE_LEN (ns_mode p);
     r \<leftarrow> sendrobotmssage E robot h (ListenSong \<lparr>ls_platform_id = ns_platform_id p,
       ls_songid = atoll (mu_id mu), ls_typid = ns_type_id p, ls_mode = mode,
       ls_name = snprintf_s NAME_LEN (re_base64 E (mu_title mu)),
       ls_singer = snprintf_s SINGER_LEN (re_base64 E (mu_artist mu))\<rparr>);
     send_songs E p rms r
   })"

definition OnNoticeUserChangerSong :: "robot_env \<Rightarrow> notice_user_song \<Rightarrow> bool robot_m" where
  "OnNoticeUserChangerSong E p = do {
     robots \<leftarrow> GetUserFollowAllRobot E (ns_platform_id p) (ns_uid p);
     case robots of
       None \<Rightarrow> State_Monad.return False
     | Some robots \<Rightarrow> do {
         (r, places) \<leftarrow> GetModeRadomSong E (ns_platform_id p) (ns_mode p) (ns_type_id p) (length robots);
         if \<not> r then State_Monad.return False
         else do {
           (r, songs) \<leftarrow> GetBatchMusicInfos E (random_key (ns_mode p) (ns_type_id p)) places;
           if \<not> r then State_Monad.return False
           else do {
             x \<leftarrow> SetUserListenState (ns_platform_id p) (ns_uid p) (ns_type_id p) (ns_mode p);
             send_songs E p (zip (map snd robots) (map snd (FormateMusicInfo E songs))) True
           }
         }
       }
   }"

definition SendRobotListenSong ::
  "robot_env \<Rightarrow> int64 \<Rightarrow> int64 \<Rightarrow> int64 \<Rightarrow> byte list \<Rightarrow> int32 \<Rightarrow> bool robot_m" where
  "SendRobotListenSong E pid songid type_id mode socket = do {
     text \<leftarrow> GetMusicInfos E songid;
     h \<leftarrow> Robot_MAKE_HEAD E NOTICE_USER_ROBOT_LISTEN_SONG;
     md \<leftarrow> snprintf_format MODE_LEN mode;
     r \<leftarrow> Robot_SendMessage E socket h (ListenSong \<lparr>ls_platform_id = pid, ls_songid = songid,
       ls_typid = to_int type_id, ls_mode = md,
       ls_name = snprintf_s NAME_LEN (re_base64 E (re_json_member E (c_string text) (ascii ''titile''))),
       ls_singer = snprintf_s SINGER_LEN (re_base64 E (re_json_member E (c_string text) (ascii ''artist'')))\<rparr>);
     State_Monad.return True
   }"

text \<open>The song is looked up for the user, and sent to the robot.\<close>

definition OnRobotLoginSong :: "robot_env \<Rightarrow> int32 \<Rightarrow> robot_login \<Rightarrow> bool robot_m" where
  "OnRobotLoginSong E socket p = do {
     (r, songid) \<leftarrow> GetRobotLoginListenSong E (lg_uid p);
     if \<not> r then State_Monad.return False
     else do {
       text \<leftarrow> GetMusicInfos E songid;
       r \<leftarrow> SendRobotListenSong E (lg_platform_id p) songid 1 chl socket;
       State_Monad.return True
     }
   }"

section \<open>robot_manager.cc\<close>

definition Robot_InitDefaultPlatformInfo :: "robot_env \<Rightarrow> bool robot_m" where
  "Robot_InitDefaultPlatformInfo E = do {
     Robot_SetPlatformInfo E 10000 10000 (ascii ''miu'');
     (case PrizeRate (re_shuffle E [] 1 0) of
        None \<Rightarrow> robot_crash
      | Some v \<Rightarrow> State (\<lambda>w. ((), w\<lparr>rw_prize := v\<rparr>)));
     r \<leftarrow> FetchLuckGiftDB E;
     State_Monad.return True
   }"

definition robot_dispatch :: "robot_env \<Rightarrow> int32 \<Rightarrow> robot_body \<Rightarrow> bool robot_m" where
  "robot_dispatch E socket b = (case b of
       SchedulerLogin p \<Rightarrow> OnSchedulerMgrLogin E socket p
     | UserLoginNotice p \<Rightarrow> Robot_OnUserLogin E p
     | RobotLogin p \<Rightarrow> do { r \<leftarrow> OnRobotLogin E socket p; OnRobotLoginSong E socket p }
     | CurrentSong p \<Rightarrow> OnNoticeUserChangerSong E p
     | AssistantLoginSuccess p \<Rightarrow> OnNoticeAssistant socket p
     | _ \<Rightarrow> State_Monad.return True)"

definition OnRobotManagerMessage :: "robot_env \<Rightarrow> int32 \<Rightarrow> byte list option \<Rightarrow> int32 \<Rightarrow> bool robot_m" where
  "OnRobotManagerMessage E socket m len =
     (if sint socket \<le> 0 \<or> m = None \<or> (scast len :: int64) < 31 then State_Monad.return False
      else case Robot_UnpackStream (re_junk64 E) (the m) len of
        None \<Rightarrow> State_Monad.return False
      | Some ((h, b), p) \<Rightarrow> do {
          (if in_fault p \<noteq> None then robot_crash else State_Monad.return ());
          r \<leftarrow> robot_dispatch E socket b;
          State_Monad.return True })"

definition OnRobotManagerClose :: "int32 \<Rightarrow> bool robot_m" where
  "OnRobotManagerClose socket = do {
     r \<leftarrow> OnClearRobotConnection socket;
     r \<leftarrow> OnDisQuiteScheduler socket;
     r \<leftarrow> OnDisQuiteAssistant socket;
     State_Monad.return True
   }"

abbreviation TIME_CHECK_CONNECT :: int32 where "TIME_CHECK_CONNECT \<equiv> 10025"
abbreviation TIME_ROBOT_LIVE :: int32 where "TIME_ROBOT_LIVE \<equiv> 10027"
abbreviation TIME_HANDSEL_SONG :: int32 where "TIME_HANDSEL_SONG \<equiv> 10028"

definition Robot_OnTimeout :: "robot_env \<Rightarrow> int32 \<Rightarrow> bool robot_m" where
  "Robot_OnTimeout E opcode = do {
     (if opcode = TIME_CHECK_CONNECT then do {
        CheckRobotConnect E 10000;
        CheckSchedulerConnect E 10000;
        ChecAssistantConnect E 10000
      }
      else if opcode = TIME_ROBOT_LIVE then CheckRobotLive E 10000
      else if opcode = TIME_HANDSEL_SONG then do { r \<leftarrow> RobotHandselSong E 10000; State_Monad.return () }
      else State_Monad.return ());
     State_Monad.return True
   }"

section \<open>The plugin\<close>

definition robot_go_on :: "'a robot_m \<Rightarrow> robot_world \<Rightarrow> handler_t \<times> robot_world" where
  "robot_go_on m w = (HANDLER_GO_ON, snd (run_state m w))"

definition robot_manager_plugin_init :: "robot_env \<Rightarrow> robot_world plugin" where
  "robot_manager_plugin_init E = \<lparr>
     pl_id = [],
     pl_connection = Some (\<lambda>fd data len w. (HANDLER_GO_ON, w)),
     pl_handler_read = Some (\<lambda>sock data len. robot_go_on (OnRobotManagerMessage E sock data len)),
     pl_connection_srv = Some (\<lambda>fd data len w. (HANDLER_GO_ON, w)),
     pl_handler_read_srv = Some (\<lambda>fd data len w. (HANDLER_GO_ON, w)),
     pl_handler_read_other = Some (\<lambda>fd data len w. (HANDLER_GO_ON, w)),
     pl_connection_close = Some (\<lambda>fd. robot_go_on (OnRobotManagerClose fd)),
     pl_connection_close_srv = Some (\<lambda>fd w. (HANDLER_GO_ON, w)),
     pl_handler_init_time = Some (\<lambda>w. (HANDLER_GO_ON, w)),
     pl_time_msg = Some (\<lambda>name opcode time. robot_go_on (Robot_OnTimeout E opcode))\<rparr>"

section \<open>The server as a state machine\<close>

inductive robot_step :: "robot_env \<Rightarrow> robot_world \<Rightarrow> robot_world \<Rightarrow> bool" for E where
  message: "robot_step E w (snd (run_state (OnRobotManagerMessage E socket m len) w))"
| closed: "robot_step E w (snd (run_state (OnRobotManagerClose socket) w))"
| timeout: "robot_step E w (snd (run_state (Robot_OnTimeout E opcode) w))"

definition empty_robot_world :: robot_world where
  "empty_robot_world = \<lparr>rw_platforms = [], rw_robot_sockets = [], rw_luck_gifts = [],
     rw_prize = \<lparr>pr_table = [], pr_gN = 0, pr_gM = 0\<rparr>, rw_robots = [], rw_listeners = [],
     rw_basics = [], rw_schedulers = [], rw_events = [], rw_queries = 0, rw_commands = 0, rw_draws = 0,
     rw_rands = 0, rw_ticks = 0, rw_sends = 0, rw_stray = False, rw_crashed = False\<rparr>"

definition robot_start :: "robot_env \<Rightarrow> robot_world" where
  "robot_start E = snd (run_state (Robot_InitDefaultPlatformInfo E) empty_robot_world)"

inductive_cases robot_stepE: "robot_step E w w'"

end
