(* ===== verification/RobotView.thy ===== *)
theory RobotView
  imports RobotServer
begin

text \<open>
  What of the robot server's state decides which robot serves which user: the tables of robots, the
  robots' own ids and users, and the sockets.  The rest, songs, times, positions, schedulers,
  assistants and everything sent or queried, is invisible in this view; an operation that does not
  change it is \<open>neutral\<close>.
\<close>

section \<open>The view\<close>

record robot_tables =
  t_idle :: robot_infos
  t_temp :: robot_infos
  t_used :: robot_infos
  t_follow :: "(int64, robot_infos) stdmap"

record robot_view =
  v_tables :: "(int64, robot_tables) stdmap"
  v_objs :: "(int64 \<times> (int64, int64) stdmap) list"
  v_sockets :: "(int32, nat) stdmap"

definition tables_of :: "robot_platform \<Rightarrow> robot_tables" where
  "tables_of pc = \<lparr>t_idle = rp_idle pc, t_temp = rp_temp pc, t_used = rp_used pc, t_follow = rp_follow pc\<rparr>"

definition obj_of :: "robot_data \<Rightarrow> int64 \<times> (int64, int64) stdmap" where
  "obj_of d = (rd_uid d, rd_follow_map d)"

definition view :: "robot_world \<Rightarrow> robot_view" where
  "view w = \<lparr>v_tables = map (map_prod id tables_of) (rw_platforms w),
     v_objs = map obj_of (rw_robots w), v_sockets = rw_robot_sockets w\<rparr>"

lemma view_sel [simp]:
  "v_tables (view w) = map (map_prod id tables_of) (rw_platforms w)"
  "v_objs (view w) = map obj_of (rw_robots w)"
  "v_sockets (view w) = rw_robot_sockets w"
  by (simp_all add: view_def)

lemma view_eqI:
  "rw_platforms w' = rw_platforms w \<Longrightarrow> map obj_of (rw_robots w') = map obj_of (rw_robots w) \<Longrightarrow>
     rw_robot_sockets w' = rw_robot_sockets w \<Longrightarrow> view w' = view w"
  by (simp add: view_def)

lemma map_find_map: "map_find (map (map_prod id g) m) k = map_option g (map_find m k)"
  by (induction m) auto

lemma map_set_map: "map (map_prod id g) (map_set k v m) = map_set k (g v) (map (map_prod id g) m)"
  by (induction k v m rule: map_set.induct) auto

lemma map_erase_map: "map (map_prod id g) (map_erase k m) = map_erase k (map (map_prod id g) m)"
  by (induction k m rule: map_erase.induct) auto

lemma map_find_update_at [simp]:
  "map_find (update_at k f m) k' = (if k' = k then map_option f (map_find m k) else map_find m k')"
  by (induction m) auto

lemma map_update_at:
  assumes "\<And>v. g (f v) = f' (g v)"
  shows "map (map_prod id g) (update_at k f m) = update_at k f' (map (map_prod id g) m)"
  using assms by (induction m) auto

lemma update_at_id [simp]: "update_at k (\<lambda>v. v) m = m"
  by (induction m) auto

lemma update_at_cong: "(\<And>v. map_find m k = Some v \<Longrightarrow> f v = f' v) \<Longrightarrow> update_at k f m = update_at k f' m"
  by (induction m) (auto split: if_splits)

lemma update_at_twice [simp]: "update_at k f (update_at k g m) = update_at k (\<lambda>v. f (g v)) m"
  by (induction m) auto

lemma keys_update_at [simp]: "map fst (update_at k f m) = map fst m"
  by (induction m) auto

lemma map_sorted_keys: "map_sorted m \<longleftrightarrow> sorted_wrt (\<lambda>k k'. sint k < sint k') (map fst m)"
  by (simp add: map_sorted_def sorted_wrt_map)

lemma map_sorted_update_at [simp]: "map_sorted (update_at k f m) = map_sorted m"
  by (simp add: map_sorted_keys)

section \<open>Neutral operations\<close>

definition neutral :: "'a robot_m \<Rightarrow> bool" where
  "neutral m \<longleftrightarrow> (\<forall>w. view (snd (run_state m w)) = view w)"

named_theorems neutral_intros

lemma run_bind: "run_state (m \<bind> f) w = run_state (f (fst (run_state m w))) (snd (run_state m w))"
  by (simp add: split_beta)

lemma neutralD: "neutral m \<Longrightarrow> view (snd (run_state m w)) = view w"
  by (simp add: neutral_def)

lemma neutral_bind [neutral_intros]: "neutral m \<Longrightarrow> (\<And>a. neutral (f a)) \<Longrightarrow> neutral (m \<bind> f)"
  by (simp add: neutral_def split_beta)

lemma neutral_return [neutral_intros]: "neutral (State_Monad.return x)"
  by (simp add: neutral_def)

lemma neutral_if [neutral_intros]: "neutral m \<Longrightarrow> neutral m' \<Longrightarrow> neutral (if b then m else m')"
  by simp

lemma neutral_option [neutral_intros]:
  "neutral m \<Longrightarrow> (\<And>y. neutral (f y)) \<Longrightarrow> neutral (case x of None \<Rightarrow> m | Some y \<Rightarrow> f y)"
  by (cases x) auto

lemma neutral_prod [neutral_intros]: "(\<And>a b. neutral (f a b)) \<Longrightarrow> neutral (case p of (a, b) \<Rightarrow> f a b)"
  by (cases p) auto

lemma neutral_list [neutral_intros]:
  "neutral m \<Longrightarrow> (\<And>y ys. neutral (f y ys)) \<Longrightarrow> neutral (case xs of [] \<Rightarrow> m | y # ys \<Rightarrow> f y ys)"
  by (cases xs) auto

lemma neutral_sql_result [neutral_intros]:
  "neutral m \<Longrightarrow> neutral m' \<Longrightarrow> (\<And>rows. neutral (f rows)) \<Longrightarrow>
     neutral (case r of NoEngine \<Rightarrow> m | ExecFailed \<Rightarrow> m' | Rows rows \<Rightarrow> f rows)"
  by (cases r) auto

lemma neutral_each [neutral_intros]: "(\<And>x. neutral (f x)) \<Longrightarrow> neutral (each f xs)"
  by (induction xs) (auto intro!: neutral_intros)

lemma neutral_simple [neutral_intros]:
  "neutral (robot_emit e)" "neutral robot_crash" "neutral robot_stray" "neutral (robot_time E)"
  "neutral (robot_random_id E)" "neutral (robot_sql E sql)" "neutral (GetBatchInfos E c)"
  "neutral (rp_get pid)" "neutral (GetHashSize E key)" "neutral (robot_send E len)"
  "neutral (obj_get rw_robots h)" "neutral (obj_get rw_listeners h)" "neutral (obj_get rw_basics h)"
  "neutral (obj_get rw_schedulers h)" "neutral (GetRobotInfo s)" "neutral (GetLuckGiftInfo plat)"
  "neutral (SetLuckGiftInfo g)"
  "neutral (obj_set rw_listeners_update h f1)" "neutral (obj_set rw_basics_update h f2)"
  "neutral (obj_set rw_schedulers_update h f3)"
  "neutral (obj_new rw_listeners rw_listeners_update d1)"
  "neutral (obj_new rw_basics rw_basics_update d2)"
  "neutral (obj_new rw_schedulers rw_schedulers_update d3)"
  by (auto simp: neutral_def view_def robot_emit_def robot_crash_def robot_stray_def robot_time_def
      robot_random_id_def robot_sql_def GetBatchInfos_def rp_get_def GetHashSize_def robot_send_def
      obj_get_def GetRobotInfo_def GetLuckGiftInfo_def SetLuckGiftInfo_def obj_set_def obj_new_def Let_def
      split: prod.splits)

lemma neutral_set_robot [neutral_intros]:
  assumes "\<And>d. rd_uid (f d) = rd_uid d \<and> rd_follow_map (f d) = rd_follow_map d"
  shows "neutral (set_robot h f)"
proof -
  have f: "obj_of (f d) = obj_of d" for d using assms [of d] by (simp add: obj_of_def)
  have "map obj_of (ds[h := f (ds ! h)]) = map obj_of ds" for ds
    by (cases "h < length ds") (simp_all add: map_update f list_update_same_conv list_update_beyond)
  then show ?thesis by (simp add: neutral_def obj_set_def view_def)
qed

lemma neutral_rp_modify [neutral_intros]:
  assumes "\<And>pc. tables_of (f pc) = tables_of pc"
  shows "neutral (rp_modify pid f)"
proof -
  have "map (map_prod id tables_of) (update_at pid f m) = map (map_prod id tables_of) m" for m
    using map_update_at [of tables_of f "\<lambda>t. t" pid m] assms by (simp add: update_at_id)
  then show ?thesis by (simp add: neutral_def rp_modify_def view_def)
qed

lemma neutral_with_rp [neutral_intros]: "(\<And>pc. neutral (f pc)) \<Longrightarrow> neutral (with_rp pid d f)"
  unfolding with_rp_def by (intro neutral_intros)

end
