(* ===== verification/RobotNeutral.thy ===== *)
theory RobotNeutral
  imports RobotView
begin

text \<open>
  The operations of the robot server that are neutral: everything but \<open>Robot_SetPlatformInfo\<close>,
  \<open>GetIdleRobot\<close>, \<open>RobotLoginSucess\<close>, \<open>GetUserFollowAllRobot\<close>, \<open>ClearRobot\<close> and the entries of the
  sockets.
\<close>

section \<open>Sending and asking\<close>

lemma neutral_RobotBasicInfo_free [neutral_intros]:
  "neutral (Robot_MAKE_HEAD E op)" "neutral (closelockconnect s)" "neutral (LogicComm_SafeStrncpy E n src m)"
  "neutral (snprintf_format n text)" "neutral (unchecked_sql E sql)" "neutral (assert_robot b)"
  by (auto simp: Robot_MAKE_HEAD_def closelockconnect_def LogicComm_SafeStrncpy_def snprintf_format_def
      unchecked_sql_def assert_robot_def Let_def intro!: neutral_intros)

lemma neutral_Robot_SendMessage [neutral_intros]: "neutral (Robot_SendMessage E socket h b)"
  by (auto simp: Robot_SendMessage_def split: packed.splits intro!: neutral_intros)

lemma neutral_sendrobotmssage [neutral_intros]: "neutral (sendrobotmssage E robot h b)"
  unfolding sendrobotmssage_def by (intro neutral_intros) simp

lemma neutral_fetch_lbs_pos [neutral_intros]: "neutral (fetch_lbs_pos E rows pos)"
  by (induction rows arbitrary: pos) (auto split: prod.splits option.splits intro!: neutral_intros)

lemma neutral_fetch_number [neutral_intros]: "neutral (fetch_number rows n)"
  by (induction rows arbitrary: n) (auto split: option.splits intro!: neutral_intros)

lemma neutral_store [neutral_intros]:
  "neutral (GetUserLbsPos E uid)" "neutral (UpdateRobotLbsPos E uid a b)"
  "neutral (GetRobotLoginListenSong E uid)" "neutral (UpdateRobotLoginTime E uid)"
  "neutral (GetMusicInfos E songid)" "neutral (GetBatchMusicInfos E key places)"
  by (auto simp: GetUserLbsPos_def UpdateRobotLbsPos_def GetRobotLoginListenSong_def UpdateRobotLoginTime_def
      GetMusicInfos_def GetBatchMusicInfos_def intro!: neutral_intros)

section \<open>Robots and users\<close>

lemma neutral_radom_draw [neutral_intros]: "neutral (radom_draw E pid)"
proof -
  have draw: "neutral (State (\<lambda>w. (g w, w\<lparr>rw_rands := rw_rands w + 1\<rparr>)))" for g :: "robot_world \<Rightarrow> nat"
    by (simp add: neutral_def view_def)
  show ?thesis unfolding radom_draw_def by (intro neutral_intros draw) (simp_all add: tables_of_def)
qed

lemma neutral_place_robot [neutral_intros]: "neutral (place_robot E pid a b robot)"
  unfolding place_robot_def GetRobotLbsPos_def by (intro neutral_intros) simp_all

lemma neutral_busiest [neutral_intros]: "neutral (busiest E robot rs)"
  by (induction rs arbitrary: robot) (auto intro!: neutral_intros)

lemma neutral_GetUserFollowTaskRobot [neutral_intros]: "neutral (GetUserFollowTaskRobot E pid uid)"
  unfolding GetUserFollowTaskRobot_def GetTaskRobot_def by (intro neutral_intros)

lemma neutral_robot_info_of [neutral_intros]: "neutral (robot_info_of E robot)"
  unfolding robot_info_of_def by (intro neutral_intros)

lemma neutral_robot_infos_of [neutral_intros]: "neutral (robot_infos_of E rs)"
  by (induction rs) (auto intro!: neutral_intros)

lemma neutral_lookups [neutral_intros]:
  "neutral (GetUsedRobotInfo pid uid)" "neutral (GetIdelRobotInfo pid uid)"
  unfolding GetUsedRobotInfo_def GetIdelRobotInfo_def by (intro neutral_intros)+

lemma neutral_users [neutral_intros]:
  "neutral (SetUserInfoLogin E pid uid)" "neutral (SetUserListenState pid uid type_id mode)"
  unfolding SetUserInfoLogin_def SetUserListenState_def
  by (intro neutral_intros; simp add: tables_of_def)+

section \<open>Schedulers and assistants\<close>

lemma neutral_least_busy [neutral_intros]: "neutral (least_busy s ts)"
  by (induction ts arbitrary: s) (auto intro!: neutral_intros)

lemma neutral_GetIdleScheduler [neutral_intros]: "neutral (GetIdleScheduler m)"
  unfolding GetIdleScheduler_def by (intro neutral_intros)

lemma neutral_schedulers [neutral_intros]:
  "neutral (SetScheduler pid s)" "neutral (DeleteScheduler pid socket)"
  "neutral (SchedulerSendMessage E pid h b)"
  unfolding SetScheduler_def DeleteScheduler_def SchedulerSendMessage_def
  by (intro neutral_intros; simp add: tables_of_def)+

lemma neutral_assistants [neutral_intros]:
  "neutral (DeleteAssistant pid socket)" "neutral (SetAssistantLogin pid aid socket)"
  "neutral (notify_assistant E pid s robot)"
  unfolding DeleteAssistant_def SetAssistantLogin_def notify_assistant_def Let_def
  by (intro neutral_intros; simp add: tables_of_def)+

lemma neutral_NoticeAssistantLogin [neutral_intros]: "neutral (NoticeAssistantLogin E pid)"
  unfolding NoticeAssistantLogin_def by (intro neutral_intros)

section \<open>Songs and timers\<close>

lemma tables_of_set_random [simp]: "tables_of (set_random type n v pc) = tables_of pc"
  by (simp add: set_random_def tables_of_def)

lemma neutral_songs [neutral_intros]:
  "neutral (GetTypeRamdon E pid type n num)" "neutral (GetModeRadomSong E pid type n num)"
  "neutral (CreateTypeRamdon E pid type ns)"
  unfolding GetModeRadomSong_def GetTypeRamdon_def CreateTypeRamdon_def
  by (intro neutral_intros; simp)+

lemma neutral_handsel_song [neutral_intros]: "neutral (handsel_song E pid robot uid)"
  unfolding handsel_song_def by (intro neutral_intros) simp_all

lemma neutral_RobotHandselSong [neutral_intros]: "neutral (RobotHandselSong E pid)"
  unfolding RobotHandselSong_def by (intro neutral_intros)

lemma neutral_checks [neutral_intros]:
  "neutral (check_robot E now robot)" "neutral (check_scheduler E now s)"
  unfolding check_robot_def check_scheduler_def by (intro neutral_intros; simp)+

lemma neutral_timers [neutral_intros]:
  "neutral (CheckRobotConnect E pid)" "neutral (ChecAssistantConnect E pid)"
  "neutral (CheckSchedulerConnect E pid)" "neutral (CheckRobotLive E pid)"
  unfolding CheckRobotConnect_def ChecAssistantConnect_def CheckSchedulerConnect_def CheckRobotLive_def
  by (intro neutral_intros)+

lemma neutral_send_songs [neutral_intros]: "neutral (send_songs E p rms r)"
  by (induction rms arbitrary: r) (auto intro!: neutral_intros)

section \<open>The start\<close>

lemma neutral_fetch_ids [neutral_intros]: "neutral (fetch_ids f rows)"
  by (induction rows) (auto split: option.splits intro!: neutral_intros)

lemma neutral_fetch_gifts [neutral_intros]: "neutral (fetch_gifts rows)"
  by (induction rows) (auto split: option.splits intro!: neutral_intros)

lemma neutral_start [neutral_intros]:
  "neutral (RestMusicListRandom E pid)" "neutral (FetchLuckGiftDB E)"
  unfolding RestMusicListRandom_def GetChannelInfos_def GetMoodInfos_def GetSceneInfos_def ids_of_table_def
    FetchLuckGiftDB_def
  by (intro neutral_intros)+

section \<open>Handlers\<close>

lemma neutral_handlers [neutral_intros]:
  "neutral (OnRobotChatLogin E cl)" "neutral (OnSchedulerMgrLogin E socket sl)"
  "neutral (OnDisQuiteScheduler socket)" "neutral (OnNoticeAssistant socket al)"
  "neutral (OnDisQuiteAssistant socket)" "neutral (OnUserDefaultSong E us)"
  "neutral (SendRobotListenSong E pid songid type_id mode socket)"
  unfolding OnRobotChatLogin_def OnSchedulerMgrLogin_def OnDisQuiteScheduler_def OnNoticeAssistant_def
    OnDisQuiteAssistant_def OnUserDefaultSong_def SendRobotListenSong_def
  by (intro neutral_intros)+

lemma neutral_OnRobotLoginSong [neutral_intros]: "neutral (OnRobotLoginSong E socket p)"
  unfolding OnRobotLoginSong_def by (intro neutral_intros)

lemma neutral_Robot_OnTimeout: "neutral (Robot_OnTimeout E opcode)"
  unfolding Robot_OnTimeout_def by (intro neutral_intros)

end
