(* ===== verification/RobotAlloc.thy ===== *)
theory RobotAlloc
  imports RobotNeutral
begin

text \<open>
  The allocation of robots to users as an automaton on the view, and what the operations that are
  not neutral do to it.
\<close>

section \<open>The automaton\<close>

text \<open>A login takes the two first idle robots, unless the user is known.\<close>

definition take_idle :: "robot_tables \<Rightarrow> robot_tables" where
  "take_idle t = (case t_idle t of
       [] \<Rightarrow> t
     | (k, h) # rest \<Rightarrow> t\<lparr>t_idle := rest, t_temp := map_set k h (t_temp t)\<rparr>)"

definition alloc_login :: "int64 \<Rightarrow> robot_tables \<Rightarrow> robot_tables" where
  "alloc_login uid t = (if MapGet (t_follow t) (to_int uid) = None then take_idle (take_idle t) else t)"

definition on_tables :: "int64 \<Rightarrow> (robot_tables \<Rightarrow> robot_tables) \<Rightarrow> robot_view \<Rightarrow> robot_view" where
  "on_tables pid f v = v\<lparr>v_tables := update_at pid f (v_tables v)\<rparr>"

definition robot_key :: "robot_view \<Rightarrow> nat \<Rightarrow> int64" where
  "robot_key v h = fst (v_objs v ! h)"

text \<open>A robot that logs in for a user is found among the temporary and the used ones.\<close>

definition find_login :: "int64 \<Rightarrow> robot_tables \<Rightarrow> nat option" where
  "find_login robot_uid t = (case MapGet (t_temp t) (to_int robot_uid) of
       Some h \<Rightarrow> Some h | None \<Rightarrow> MapGet (t_used t) (to_int robot_uid))"

definition users_robots :: "int64 \<Rightarrow> robot_tables \<Rightarrow> robot_infos" where
  "users_robots uid t = (case MapGet (t_follow t) (to_int uid) of None \<Rightarrow> [] | Some m \<Rightarrow> m)"

definition alloc_robot :: "int64 \<Rightarrow> int64 \<Rightarrow> int64 \<Rightarrow> nat \<Rightarrow> robot_tables \<Rightarrow> robot_tables" where
  "alloc_robot robot_uid uid key h t =
     t\<lparr>t_temp := map_erase robot_uid (t_temp t), t_used := map_set robot_uid h (t_used t),
       t_follow := map_set uid (map_set key h (users_robots uid t)) (t_follow t)\<rparr>"

definition bind_socket :: "int32 \<Rightarrow> nat \<Rightarrow> robot_view \<Rightarrow> robot_view" where
  "bind_socket socket h v = v\<lparr>v_sockets := map_set socket h (v_sockets v)\<rparr>"

definition login_target :: "int64 \<Rightarrow> int64 \<Rightarrow> robot_view \<Rightarrow> nat option" where
  "login_target pid robot_uid v =
     (case map_find (v_tables v) pid of None \<Rightarrow> None | Some t \<Rightarrow> find_login robot_uid t)"

definition alloc_serves :: "int64 \<Rightarrow> int64 \<Rightarrow> int64 \<Rightarrow> nat \<Rightarrow> robot_view \<Rightarrow> robot_view" where
  "alloc_serves pid robot_uid uid h v = on_tables pid (alloc_robot robot_uid uid (robot_key v h) h)
     (v\<lparr>v_objs := (v_objs v)[h := map_prod id (map_set uid uid) (v_objs v ! h)]\<rparr>)"

definition alloc_robot_login :: "int64 \<Rightarrow> int64 \<Rightarrow> int64 \<Rightarrow> int32 \<Rightarrow> robot_view \<Rightarrow> robot_view" where
  "alloc_robot_login pid robot_uid uid socket v = (case login_target pid robot_uid v of
       None \<Rightarrow> bind_socket socket (length (v_objs v)) (v\<lparr>v_objs := v_objs v @ [(0, [])]\<rparr>)
     | Some h \<Rightarrow> bind_socket socket h (alloc_serves pid robot_uid uid h v))"

text \<open>The close of a robot's socket.\<close>

definition alloc_forget :: "int64 \<Rightarrow> int64 \<Rightarrow> robot_tables \<Rightarrow> robot_tables" where
  "alloc_forget key uid t =
     (if users_robots uid t \<noteq> [] \<and> map_erase key (users_robots uid t) = []
      then t\<lparr>t_follow := map_erase uid (t_follow t)\<rparr> else t)"

definition alloc_clear :: "int64 \<Rightarrow> int64 list \<Rightarrow> nat \<Rightarrow> robot_tables \<Rightarrow> robot_tables" where
  "alloc_clear key uids h t =
     (if uids = [] then t
      else let t = fold (alloc_forget key) uids t
        in t\<lparr>t_used := map_erase key (t_used t), t_idle := map_set key h (t_idle t)\<rparr>)"

definition alloc_close :: "int32 \<Rightarrow> robot_view \<Rightarrow> robot_view" where
  "alloc_close socket v = (case map_find (v_sockets v) socket of
       None \<Rightarrow> v
     | Some h \<Rightarrow> on_tables 10000 (alloc_clear (robot_key v h) (map fst (snd (v_objs v ! h))) h)
         (v\<lparr>v_sockets := map_erase socket (v_sockets v)\<rparr>))"

text \<open>A change of song asks the user's robots that are not in use to log in again.\<close>

definition alloc_recall :: "int64 \<Rightarrow> nat \<Rightarrow> robot_tables \<Rightarrow> robot_tables" where
  "alloc_recall key h t = (if MapGet (t_used t) (to_int key) \<noteq> None then t
     else t\<lparr>t_idle := map_erase key (t_idle t), t_temp := map_set key h (t_temp t)\<rparr>)"

definition alloc_song :: "robot_view \<Rightarrow> int64 \<Rightarrow> robot_tables \<Rightarrow> robot_tables" where
  "alloc_song v uid t = fold (\<lambda>(k, h). alloc_recall (robot_key v h) h) (users_robots uid t) t"

datatype alloc_event =
    Nothing
  | UserLogsIn int64 int64
  | RobotLogsIn int64 int64 int64 int32
  | SocketCloses int32
  | SongChanges int64 int64

fun alloc_apply :: "alloc_event \<Rightarrow> robot_view \<Rightarrow> robot_view" where
  "alloc_apply Nothing v = v"
| "alloc_apply (UserLogsIn pid uid) v = on_tables pid (alloc_login uid) v"
| "alloc_apply (RobotLogsIn pid robot_uid uid socket) v = alloc_robot_login pid robot_uid uid socket v"
| "alloc_apply (SocketCloses socket) v = alloc_close socket v"
| "alloc_apply (SongChanges pid uid) v = on_tables pid (alloc_song v uid) v"

text \<open>What a message means for the allocation: three of the packets matter.\<close>

definition body_event :: "int32 \<Rightarrow> robot_body \<Rightarrow> alloc_event" where
  "body_event socket b = (case b of
       UserLoginNotice p \<Rightarrow> UserLogsIn (nl_platform_id p) (nl_uid p)
     | RobotLogin p \<Rightarrow> RobotLogsIn (lg_platform_id p) (lg_robot_id p) (lg_uid p) socket
     | CurrentSong p \<Rightarrow> SongChanges (ns_platform_id p) (ns_uid p)
     | _ \<Rightarrow> Nothing)"

definition message_event :: "robot_env \<Rightarrow> int32 \<Rightarrow> byte list option \<Rightarrow> int32 \<Rightarrow> alloc_event" where
  "message_event E socket m len =
     (if sint socket \<le> 0 \<or> m = None \<or> (scast len :: int64) < 31 then Nothing
      else case Robot_UnpackStream (re_junk64 E) (the m) len of
        None \<Rightarrow> Nothing
      | Some ((h, b), p) \<Rightarrow> body_event socket b)"

section \<open>Effects on the view\<close>

lemma on_tables_sel [simp]:
  "v_tables (on_tables pid f v) = update_at pid f (v_tables v)"
  "v_objs (on_tables pid f v) = v_objs v" "v_sockets (on_tables pid f v) = v_sockets v"
  by (simp_all add: on_tables_def)

lemma on_tables_id [simp]: "on_tables pid (\<lambda>t. t) v = v"
  by (simp add: on_tables_def)

lemma on_tables_twice: "on_tables pid f (on_tables pid g v) = on_tables pid (\<lambda>t. f (g t)) v"
  by (simp add: on_tables_def)

lemma on_tables_cong:
  "(\<And>t. map_find (v_tables v) pid = Some t \<Longrightarrow> f t = f' t) \<Longrightarrow> on_tables pid f v = on_tables pid f' v"
  by (simp add: on_tables_def cong: update_at_cong)

lemma on_tables_stays:
  "(\<And>t. map_find (v_tables v) pid = Some t \<Longrightarrow> f t = t) \<Longrightarrow> on_tables pid f v = v"
  using on_tables_cong [of v pid f "\<lambda>t. t"] by simp

lemma view_rp_modify:
  assumes "\<And>pc. tables_of (f pc) = g (tables_of pc)"
  shows "view (snd (run_state (rp_modify pid f) w)) = on_tables pid g (view w)"
  by (simp add: rp_modify_def view_def on_tables_def map_update_at [of tables_of f g, OF assms])

lemma view_bind_neutral:
  "(\<And>x. neutral (f x)) \<Longrightarrow> view (snd (run_state (m \<bind> f) w)) = view (snd (run_state m w))"
  by (simp add: split_beta neutralD)

lemma run_with_rp:
  "run_state (with_rp pid d f) w = (case map_find (rw_platforms w) pid of
     None \<Rightarrow> (d, w) | Some pc \<Rightarrow> run_state (f pc) w)"
  by (simp add: with_rp_def rp_get_def split: option.splits)

lemma tables_of_sel [simp]:
  "t_idle (tables_of pc) = rp_idle pc" "t_temp (tables_of pc) = rp_temp pc"
  "t_used (tables_of pc) = rp_used pc" "t_follow (tables_of pc) = rp_follow pc"
  by (simp_all add: tables_of_def)

subsection \<open>The login of a user\<close>

lemma view_GetRobot:
  "view (snd (run_state (GetRobot E pid a b) w)) = on_tables pid take_idle (view w)"
  "fst (run_state (GetRobot E pid a b) w) = None \<Longrightarrow> on_tables pid take_idle (view w) = view w"
proof -
  show "view (snd (run_state (GetRobot E pid a b) w)) = on_tables pid take_idle (view w)"
  proof (cases "map_find (rw_platforms w) pid")
    case None
    then show ?thesis
      by (auto simp: GetRobot_def run_with_rp map_find_map intro!: on_tables_stays [symmetric])
  next
    case (Some pc)
    show ?thesis
    proof (cases "rp_idle pc")
      case Nil
      with Some show ?thesis
        by (auto simp: GetRobot_def run_with_rp map_find_map take_idle_def intro!: on_tables_stays [symmetric])
    next
      case (Cons p rest)
      obtain k robot where p: "p = (k, robot)" by force
      have "view (snd (run_state (GetRobot E pid a b) w)) = on_tables pid
          (\<lambda>t. t\<lparr>t_temp := map_set k robot (t_temp t), t_idle := map_erase k (t_idle t)\<rparr>) (view w)"
        by (simp add: GetRobot_def run_with_rp Some Cons p split_beta neutralD [OF neutral_place_robot]
            view_rp_modify [where g = "\<lambda>t. t\<lparr>t_temp := map_set k robot (t_temp t),
              t_idle := map_erase k (t_idle t)\<rparr>"] tables_of_def)
      also have "\<dots> = on_tables pid take_idle (view w)"
        using Some by (intro on_tables_cong) (auto simp: map_find_map take_idle_def tables_of_def Cons p)
      finally show ?thesis .
    qed
  qed
  show "on_tables pid take_idle (view w) = view w" if "fst (run_state (GetRobot E pid a b) w) = None"
    using that by (intro on_tables_stays)
      (auto simp: GetRobot_def run_with_rp map_find_map take_idle_def split_beta
        split: option.splits list.splits)
qed

lemma view_GetRobots:
  "view (snd (run_state (GetRobots n E pid a b) w)) = on_tables pid (take_idle ^^ n) (view w)"
proof (induction n arbitrary: w)
  case (Suc n)
  show ?case
  proof (cases "fst (run_state (GetRobot E pid a b) w)")
    case None
    have stays: "on_tables pid (take_idle ^^ n) v = v" if "on_tables pid take_idle v = v" for n v
      using that by (induction n) (simp_all add: on_tables_twice [symmetric] comp_def id_def)
    show ?thesis using None view_GetRobot [of E pid a b w] stays [of "view w" "Suc n"]
      by (simp add: split_beta comp_def)
  next
    case (Some robot)
    then show ?thesis using view_GetRobot(1) [of E pid a b w] Suc.IH
      by (simp add: split_beta on_tables_twice funpow_swap1 comp_def)
  qed
qed (simp add: id_def)

lemma view_GetIdleRobot:
  "view (snd (run_state (GetIdleRobot E pid uid a b) w)) = on_tables pid (alloc_login uid) (view w)"
proof (cases "map_find (rw_platforms w) pid")
  case None
  then show ?thesis
    by (auto simp: GetIdleRobot_def run_with_rp map_find_map intro!: on_tables_stays [symmetric])
next
  case (Some pc)
  show ?thesis
  proof (cases "MapGet (rp_follow pc) (to_int uid)")
    case None
    have "on_tables pid (take_idle ^^ 2) (view w) = on_tables pid (alloc_login uid) (view w)"
      using Some None by (intro on_tables_cong) (auto simp: map_find_map alloc_login_def numeral_2_eq_2)
    then show ?thesis using None Some by (simp add: GetIdleRobot_def run_with_rp view_GetRobots)
  next
    case found: (Some robots)
    have "neutral (each (\<lambda>(k, robot). do {
        place_robot E pid a b robot;
        t \<leftarrow> robot_time E;
        set_robot robot (\<lambda>d. d\<lparr>rd_follower_user_last_time := t\<rparr>)
      }) robots)" by (intro neutral_intros) simp
    then show ?thesis using Some found
      by (auto simp: GetIdleRobot_def run_with_rp split_beta neutralD map_find_map alloc_login_def
          intro!: on_tables_stays [symmetric])
  qed
qed

subsection \<open>The login of a robot\<close>

lemma login_target_view:
  "login_target pid robot_uid (view w) = fst (run_state (RobotLoginSucess E pid robot_uid socket uid) w)"
  by (auto simp: login_target_def find_login_def RobotLoginSucess_def run_with_rp map_find_map split_beta
      split: option.splits)

definition robot_logged_in :: "int32 \<Rightarrow> int64 \<Rightarrow> int64 \<Rightarrow> int64 \<Rightarrow> robot_data \<Rightarrow> robot_data" where
  "robot_logged_in socket uid t t' d = d\<lparr>rd_socket := socket, rd_follow_map := map_set uid uid (rd_follow_map d),
     rd_recv_last_time := t, rd_follower_user_last_time := t'\<rparr>"

lemma view_set_robot:
  assumes "\<And>d. rd_uid (f d) = rd_uid d" "\<And>d. rd_follow_map (f d) = g (rd_follow_map d)"
  shows "view (snd (run_state (set_robot h f) w)) =
    (view w)\<lparr>v_objs := (v_objs (view w))[h := map_prod id g (v_objs (view w) ! h)]\<rparr>"
  using assms by (cases "h < length (rw_robots w)")
    (simp_all add: obj_set_def view_def map_update list_update_beyond obj_of_def)

lemma view_AddUserFollowRobot:
  "view (snd (run_state (rp_modify pid (AddUserFollowRobot uid robot d)) w)) =
     on_tables pid (\<lambda>t. t\<lparr>t_follow := map_set uid (map_set (rd_uid d) robot (users_robots uid t)) (t_follow t)\<rparr>)
       (view w)"
  by (rule view_rp_modify) (simp add: AddUserFollowRobot_def Let_def tables_of_def users_robots_def MapAdd_def)

lemma view_RobotLoginSucess:
  assumes h: "login_target pid robot_uid (view w) = Some h" "h < length (rw_robots w)"
  shows "view (snd (run_state (RobotLoginSucess E pid robot_uid socket uid) w)) =
    alloc_serves pid robot_uid uid h (view w)"
proof -
  obtain pc where pc: "map_find (rw_platforms w) pid = Some pc"
    and found: "find_login robot_uid (tables_of pc) = Some h"
    using h(1) by (auto simp: login_target_def map_find_map split: option.splits)
  define prepare where "prepare = do {
      set_robot h (\<lambda>d. d\<lparr>rd_socket := socket\<rparr>);
      set_robot h (\<lambda>d. d\<lparr>rd_follow_map := map_set uid uid (rd_follow_map d)\<rparr>);
      t \<leftarrow> robot_time E;
      set_robot h (\<lambda>d. d\<lparr>rd_recv_last_time := t\<rparr>);
      t \<leftarrow> robot_time E;
      set_robot h (\<lambda>d. d\<lparr>rd_follower_user_last_time := t\<rparr>)
    }"
  define use where "use = rp_modify pid (\<lambda>pc. pc\<lparr>rp_temp := snd (MapDel (rp_temp pc) robot_uid),
      rp_used := snd (MapAdd (rp_used pc) robot_uid h)\<rparr>)"
  define w1 where "w1 = snd (run_state prepare w)"
  define w2 where "w2 = snd (run_state use w1)"
  have v1: "view w1 = (view w)\<lparr>v_objs := (v_objs (view w))[h := map_prod id (map_set uid uid) (v_objs (view w) ! h)]\<rparr>"
    by (simp add: w1_def prepare_def split_beta neutralD neutral_set_robot neutral_simple
        view_set_robot [where g = "map_set uid uid"])
  have v2: "view w2 = on_tables pid (\<lambda>t. t\<lparr>t_temp := map_erase robot_uid (t_temp t),
      t_used := map_set robot_uid h (t_used t)\<rparr>) (view w1)"
    unfolding w2_def use_def by (rule view_rp_modify) (simp add: tables_of_def MapDel_eq MapAdd_def)
  have uid: "rd_uid (rw_robots w2 ! h) = robot_key (view w) h"
  proof -
    have "map obj_of (rw_robots w2) ! h = map_prod id (map_set uid uid) (map obj_of (rw_robots w) ! h)"
      using arg_cong [OF v2, of v_objs] arg_cong [OF v1, of v_objs] h(2) by simp
    moreover have "length (rw_robots w2) = length (rw_robots w)"
      using arg_cong [OF v2, of "\<lambda>v. length (v_objs v)"] arg_cong [OF v1, of "\<lambda>v. length (v_objs v)"] by simp
    ultimately show ?thesis using h(2) by (simp add: obj_of_def robot_key_def)
  qed
  have found': "(case MapGet (rp_temp pc) (to_int robot_uid) of
      Some robot \<Rightarrow> Some robot | None \<Rightarrow> MapGet (rp_used pc) (to_int robot_uid)) = Some h"
    using found by (simp add: find_login_def split: option.splits)
  define d where "d = obj_at rw_robots h w2"
  have "snd (run_state (RobotLoginSucess E pid robot_uid socket uid) w) =
      snd (run_state (rp_modify pid (AddUserFollowRobot uid h d))
        (snd (run_state (UpdateRobotLbsPos E robot_uid (rd_latitude d) (rd_longitude d)) w2)))"
    by (simp add: RobotLoginSucess_def run_with_rp pc found' d_def w2_def w1_def use_def
        prepare_def split_beta obj_get_def)
  then have "view (snd (run_state (RobotLoginSucess E pid robot_uid socket uid) w)) =
      on_tables pid (\<lambda>t. t\<lparr>t_follow := map_set uid (map_set (rd_uid d) h (users_robots uid t)) (t_follow t)\<rparr>)
        (view w2)"
    by (simp add: view_AddUserFollowRobot neutralD neutral_store)
  then show ?thesis
    by (simp add: v2 v1 on_tables_twice alloc_serves_def alloc_robot_def [abs_def] uid d_def obj_at_def users_robots_def)
qed

lemma RobotLoginSucess_fails:
  "login_target pid robot_uid (view w) = None \<Longrightarrow>
     snd (run_state (RobotLoginSucess E pid robot_uid socket uid) w) = w"
  by (auto simp: login_target_def find_login_def RobotLoginSucess_def run_with_rp map_find_map split_beta
      split: option.splits)

lemma view_SetRobotInfo: "view (snd (run_state (SetRobotInfo socket h) w)) = bind_socket socket h (view w)"
  by (simp add: SetRobotInfo_def MapAdd_def view_def bind_socket_def)

lemma view_new_robot:
  "view (snd (run_state (RobotBasicInfo E 0 0 [] []) w)) = (view w)\<lparr>v_objs := v_objs (view w) @ [(0, [])]\<rparr>"
  "fst (run_state (RobotBasicInfo E 0 0 [] []) w) = length (v_objs (view w))"
  by (simp_all add: RobotBasicInfo_def robot_time_def obj_new_def view_def obj_of_def RobotBasicInfo_Data_def)

lemma view_OnRobotLogin:
  assumes "\<And>h. login_target (lg_platform_id p) (lg_robot_id p) (view w) = Some h \<Longrightarrow> h < length (rw_robots w)"
  shows "view (snd (run_state (OnRobotLogin E socket p) w)) =
    alloc_robot_login (lg_platform_id p) (lg_robot_id p) (lg_uid p) socket (view w)"
proof (cases "login_target (lg_platform_id p) (lg_robot_id p) (view w)")
  case None
  then show ?thesis
    by (simp add: OnRobotLogin_def split_beta login_target_view [symmetric] RobotLoginSucess_fails
        neutralD neutral_simple neutral_store view_SetRobotInfo view_new_robot alloc_robot_login_def)
next
  case (Some h)
  then show ?thesis using assms [OF Some]
    by (simp add: OnRobotLogin_def split_beta login_target_view [symmetric] view_RobotLoginSucess
        neutralD neutral_simple neutral_store view_SetRobotInfo alloc_robot_login_def)
qed

subsection \<open>The close of a socket\<close>

lemma tables_of_forget: "tables_of (forget_follower key uid pc) = alloc_forget key uid (tables_of pc)"
  by (simp add: forget_follower_def alloc_forget_def users_robots_def Let_def tables_of_def MapDel_eq)

lemma tables_of_forgets:
  "tables_of (fold (forget_follower key) uids pc) = fold (alloc_forget key) uids (tables_of pc)"
  by (induction uids arbitrary: pc) (simp_all add: tables_of_forget)

lemma view_ClearRobot:
  assumes "h < length (rw_robots w)"
  shows "view (snd (run_state (ClearRobot pid h) w)) =
    on_tables pid (alloc_clear (robot_key (view w) h) (map fst (snd (v_objs (view w) ! h))) h) (view w)"
proof (cases "map_find (rw_platforms w) pid")
  case None
  then show ?thesis
    by (auto simp: ClearRobot_def run_with_rp map_find_map intro!: on_tables_stays [symmetric])
next
  case (Some pc)
  define d where "d = rw_robots w ! h"
  have obj: "robot_key (view w) h = rd_uid d" "snd (v_objs (view w) ! h) = rd_follow_map d"
    using assms by (simp_all add: robot_key_def obj_of_def d_def)
  show ?thesis
  proof (cases "rd_follow_map d = []")
    case True
    then show ?thesis by (auto simp: ClearRobot_def run_with_rp Some obj_get_def obj_at_def d_def [symmetric]
        obj alloc_clear_def intro!: on_tables_stays [symmetric] simp del: view_sel)
  next
    case False
    have "tables_of (let pc = fold (forget_follower (rd_uid d)) (map fst (rd_follow_map d)) pc
         in pc\<lparr>rp_used := snd (MapDel (rp_used pc) (rd_uid d)), rp_idle := snd (MapAdd (rp_idle pc) (rd_uid d) h)\<rparr>) =
      alloc_clear (rd_uid d) (map fst (rd_follow_map d)) h (tables_of pc)" for pc
      using False tables_of_forgets [of "rd_uid d" "map fst (rd_follow_map d)" pc, symmetric]
      by (simp add: alloc_clear_def Let_def MapDel_eq MapAdd_def tables_of_def)
    note step = view_rp_modify [of "\<lambda>pc. let pc = fold (forget_follower (rd_uid d)) (map fst (rd_follow_map d)) pc
         in pc\<lparr>rp_used := snd (MapDel (rp_used pc) (rd_uid d)), rp_idle := snd (MapAdd (rp_idle pc) (rd_uid d) h)\<rparr>",
         OF this]
    show ?thesis using False
      by (simp add: ClearRobot_def run_with_rp Some obj_get_def obj_at_def d_def [symmetric] split_beta
          step obj del: view_sel)
  qed
qed

lemma view_DelRobotInfo:
  "view (snd (run_state (DelRobotInfo socket) w)) = (view w)\<lparr>v_sockets := map_erase socket (v_sockets (view w))\<rparr>"
  by (simp add: DelRobotInfo_def MapDel_eq view_def)

lemma view_OnRobotManagerClose:
  assumes "\<And>h. map_find (rw_robot_sockets w) socket = Some h \<Longrightarrow> h < length (rw_robots w)"
  shows "view (snd (run_state (OnRobotManagerClose socket) w)) = alloc_close socket (view w)"
proof -
  have "view (snd (run_state (OnClearRobotConnection socket) w)) = alloc_close socket (view w)"
  proof (cases "map_find (rw_robot_sockets w) socket")
    case None
    then show ?thesis
      by (simp add: OnClearRobotConnection_def GetRobotInfo_def MapGetKey_def alloc_close_def)
  next
    case (Some h)
    then show ?thesis
      by (simp add: OnClearRobotConnection_def GetRobotInfo_def MapGetKey_def alloc_close_def split_beta
          view_DelRobotInfo view_ClearRobot [OF assms [OF Some]] del: view_sel)
        (simp add: on_tables_def)
  qed
  then show ?thesis
    by (simp add: OnRobotManagerClose_def split_beta neutralD neutral_handlers)
qed

subsection \<open>A change of song\<close>

lemma view_CheckUserFollowAllRobot:
  assumes h: "h < length (rw_robots w)"
  shows "view (snd (run_state (CheckUserFollowAllRobot E pid uid h) w)) =
    on_tables pid (alloc_recall (robot_key (view w) h) h) (view w)"
proof (cases "map_find (rw_platforms w) pid")
  case None
  then show ?thesis
    by (auto simp: CheckUserFollowAllRobot_def run_with_rp map_find_map intro!: on_tables_stays [symmetric])
next
  case (Some pc)
  define d where "d = rw_robots w ! h"
  have key: "robot_key (view w) h = rd_uid d" using h by (simp add: robot_key_def obj_of_def d_def)
  show ?thesis
  proof (cases "MapGet (rp_used pc) (to_int (rd_uid d))")
    case None
    define tell where "tell = (\<lambda>pc :: robot_platform. case rp_schedulers pc of
        [] \<Rightarrow> robot_crash
      | (k, s) # _ \<Rightarrow> do {
          sd \<leftarrow> obj_get rw_schedulers s;
          hd \<leftarrow> Robot_MAKE_HEAD E NOTICE_USER_ROBOT_LOGIN;
          info \<leftarrow> robot_info_of E h;
          Robot_SendMessage E (sd_socket sd) hd (RobotLoginNotice \<lparr>rl_uid = uid, rl_robot_list = [info]\<rparr>);
          State_Monad.return ()
        })"
    have tell: "neutral (tell pc)" for pc unfolding tell_def by (intro neutral_intros)
    define new :: "nat robot_m" where "new = obj_new rw_listeners rw_listeners_update
      \<lparr>ld_uid = 0, ld_type_id = re_junk32 E, ld_mode = []\<rparr>"
    define l where "l = fst (run_state new w)"
    have new: "view (snd (run_state new w)) = view w" unfolding new_def by (intro neutralD neutral_intros)
    have move: "view (snd (run_state (rp_modify pid (\<lambda>pc. pc\<lparr>rp_listeners := snd (MapAdd (rp_listeners pc) uid l),
         rp_idle := snd (MapDel (rp_idle pc) (rd_uid d)),
         rp_temp := snd (MapAdd (rp_temp pc) (rd_uid d) h)\<rparr>)) w')) =
       on_tables pid (\<lambda>t. t\<lparr>t_idle := map_erase (rd_uid d) (t_idle t), t_temp := map_set (rd_uid d) h (t_temp t)\<rparr>)
         (view w')" for w'
      by (rule view_rp_modify) (simp add: tables_of_def MapDel_eq MapAdd_def)
    have "view (snd (run_state (CheckUserFollowAllRobot E pid uid h) w)) =
       on_tables pid (\<lambda>t. t\<lparr>t_idle := map_erase (rd_uid d) (t_idle t), t_temp := map_set (rd_uid d) h (t_temp t)\<rparr>)
         (view w)"
      using None neutralD [OF tell [of pc, unfolded tell_def]] move new
      by (simp add: CheckUserFollowAllRobot_def run_with_rp Some obj_get_def [of rw_robots] obj_at_def
          d_def [symmetric] split_beta l_def new_def)
    also have "\<dots> = on_tables pid (alloc_recall (robot_key (view w) h) h) (view w)"
      using Some None by (intro on_tables_cong) (auto simp: map_find_map alloc_recall_def key)
    finally show ?thesis .
  next
    case used: (Some h')
    then have "view (snd (run_state (CheckUserFollowAllRobot E pid uid h) w)) = view w"
      by (simp add: CheckUserFollowAllRobot_def run_with_rp Some obj_get_def obj_at_def d_def [symmetric])
    then show ?thesis using Some used
      by (auto simp: map_find_map alloc_recall_def key intro!: on_tables_stays [symmetric])
  qed
qed

lemma view_check_all:
  assumes "\<forall>(k, h) \<in> set robots. h < length (rw_robots w)"
  shows "view (snd (run_state (each (\<lambda>(k, robot). CheckUserFollowAllRobot E pid uid robot) robots) w)) =
    on_tables pid (fold (\<lambda>(k, h). alloc_recall (robot_key (view w) h) h) robots) (view w)"
  using assms
proof (induction robots arbitrary: w)
  case (Cons p robots)
  obtain k h where p: "p = (k, h)" by force
  define w1 where "w1 = snd (run_state (CheckUserFollowAllRobot E pid uid h) w)"
  have v1: "view w1 = on_tables pid (alloc_recall (robot_key (view w) h) h) (view w)"
    using Cons.prems by (simp add: w1_def view_CheckUserFollowAllRobot p)
  have objs: "map obj_of (rw_robots w1) = map obj_of (rw_robots w)"
    using arg_cong [OF v1, of v_objs] by simp
  then have len: "length (rw_robots w1) = length (rw_robots w)" by (rule map_eq_imp_length_eq)
  have "robot_key (view w1) = robot_key (view w)" by (simp add: robot_key_def [abs_def] v1)
  then show ?case using Cons.IH [of w1] Cons.prems
    by (simp add: p split_beta w1_def [symmetric] len v1 on_tables_twice comp_def)
qed (simp add: id_def)

lemma view_GetUserFollowAllRobot:
  assumes "\<And>t. map_find (v_tables (view w)) pid = Some t \<Longrightarrow> \<forall>(k, h) \<in> set (users_robots uid t). h < length (rw_robots w)"
  shows "view (snd (run_state (GetUserFollowAllRobot E pid uid) w)) = on_tables pid (alloc_song (view w) uid) (view w)"
proof (cases "map_find (rw_platforms w) pid")
  case None
  then show ?thesis
    by (auto simp: GetUserFollowAllRobot_def run_with_rp map_find_map intro!: on_tables_stays [symmetric])
next
  case (Some pc)
  show ?thesis
  proof (cases "MapGet (rp_follow pc) (to_int uid)")
    case None
    with Some show ?thesis by (auto simp: GetUserFollowAllRobot_def run_with_rp map_find_map alloc_song_def
        users_robots_def intro!: on_tables_stays [symmetric])
  next
    case found: (Some robots)
    have "\<forall>(k, h) \<in> set robots. h < length (rw_robots w)"
      using assms [of "tables_of pc"] Some found by (simp add: map_find_map users_robots_def)
    then have "view (snd (run_state (GetUserFollowAllRobot E pid uid) w)) =
        on_tables pid (fold (\<lambda>(k, h). alloc_recall (robot_key (view w) h) h) robots) (view w)"
      using Some found by (simp add: GetUserFollowAllRobot_def run_with_rp run_bind view_check_all
          del: run_state_bind)
    also have "\<dots> = on_tables pid (alloc_song (view w) uid) (view w)"
      using Some found by (intro on_tables_cong) (auto simp: map_find_map alloc_song_def users_robots_def)
    finally show ?thesis .
  qed
qed

lemma view_OnNoticeUserChangerSong:
  assumes "\<And>t. map_find (v_tables (view w)) (ns_platform_id p) = Some t \<Longrightarrow>
    \<forall>(k, h) \<in> set (users_robots (ns_uid p) t). h < length (rw_robots w)"
  shows "view (snd (run_state (OnNoticeUserChangerSong E p) w)) =
    on_tables (ns_platform_id p) (alloc_song (view w) (ns_uid p)) (view w)"
  unfolding OnNoticeUserChangerSong_def
  by (rule trans [OF view_bind_neutral view_GetUserFollowAllRobot [OF assms]]) (intro neutral_intros)

subsection \<open>Messages\<close>

lemma view_Robot_OnUserLogin:
  "view (snd (run_state (Robot_OnUserLogin E p) w)) =
     on_tables (nl_platform_id p) (alloc_login (nl_uid p)) (view w)"
proof -
  define pos where "pos = run_state (GetUserLbsPos E (nl_uid p)) w"
  have pos: "view (snd pos) = view w" unfolding pos_def by (rule neutralD [OF neutral_store(1)])
  have "view (snd (run_state (Robot_OnUserLogin E p) w)) = view (snd (run_state
      (GetIdleRobot E (nl_platform_id p) (nl_uid p) (fst (fst pos)) (snd (fst pos))) (snd pos)))"
    unfolding Robot_OnUserLogin_def run_bind [of "GetUserLbsPos E (nl_uid p)"] pos_def
    by (rule view_bind_neutral) (intro neutral_intros)
  then show ?thesis by (simp add: view_GetIdleRobot pos)
qed

end
