(* ===== verification/RobotCompanions.thy ===== *)
theory RobotCompanions
  imports RobotAlloc
begin

text \<open>
  What the robot server promises its users, through the allocation automaton: the refinement, the
  robots that are never lost, the two companions of a user, and what is left of them when they go.
\<close>

section \<open>The invariant of the view\<close>

definition infos_ok :: "nat \<Rightarrow> robot_infos \<Rightarrow> bool" where
  "infos_ok n m \<longleftrightarrow> map_sorted m \<and> (\<forall>x \<in> set m. snd x < n)"

definition tables_ok :: "nat \<Rightarrow> robot_tables \<Rightarrow> bool" where
  "tables_ok n t \<longleftrightarrow> infos_ok n (t_idle t) \<and> infos_ok n (t_temp t) \<and> infos_ok n (t_used t) \<and>
     map_sorted (t_follow t) \<and> (\<forall>x \<in> set (t_follow t). infos_ok n (snd x))"

definition view_ok :: "robot_view \<Rightarrow> bool" where
  "view_ok v \<longleftrightarrow> map_sorted (v_tables v) \<and> (\<forall>x \<in> set (v_tables v). tables_ok (length (v_objs v)) (snd x)) \<and>
     map_sorted (v_sockets v) \<and> (\<forall>x \<in> set (v_sockets v). snd x < length (v_objs v))"

lemma infos_ok_set [simp]: "infos_ok n m \<Longrightarrow> h < n \<Longrightarrow> infos_ok n (map_set k h m)"
  using set_map_set [of k h m] by (force simp: infos_ok_def)

lemma infos_ok_erase [simp]: "infos_ok n m \<Longrightarrow> infos_ok n (map_erase k m)"
  using set_map_erase [of k m] by (auto simp: infos_ok_def)

lemma infos_ok_Nil [simp]: "infos_ok n []"
  by (simp add: infos_ok_def)

lemma infos_ok_Cons: "infos_ok n ((k, h) # m) \<Longrightarrow> infos_ok n m \<and> h < n"
  by (simp add: infos_ok_def)

lemma infos_ok_mono: "infos_ok n m \<Longrightarrow> n \<le> n' \<Longrightarrow> infos_ok n' m"
  by (auto simp: infos_ok_def)

lemma infos_ok_find: "infos_ok n m \<Longrightarrow> map_find m k = Some h \<Longrightarrow> h < n"
  by (auto simp: infos_ok_def dest!: map_find_in_set)

lemma tables_ok_mono: "tables_ok n t \<Longrightarrow> n \<le> n' \<Longrightarrow> tables_ok n' t"
  by (auto simp: tables_ok_def intro: infos_ok_mono)

lemma tables_ok_users_robots: "tables_ok n t \<Longrightarrow> infos_ok n (users_robots uid t)"
  by (auto simp: tables_ok_def users_robots_def MapGet_def split: option.splits dest!: map_find_in_set)

lemma all_update_at:
  "\<forall>x \<in> set m. P (snd x) \<and> P (f (snd x)) \<Longrightarrow> \<forall>x \<in> set (update_at k f m). P (snd x)"
  by (induction k f m rule: update_at.induct) (simp_all split: if_splits)

lemma view_ok_on_tables:
  assumes "view_ok v" "\<And>t. tables_ok (length (v_objs v)) t \<Longrightarrow> tables_ok (length (v_objs v)) (f t)"
  shows "view_ok (on_tables pid f v)"
  using assms all_update_at [of "v_tables v" "tables_ok (length (v_objs v))" f pid] by (simp add: view_ok_def)

lemma view_ok_tables: "view_ok v \<Longrightarrow> map_find (v_tables v) pid = Some t \<Longrightarrow> tables_ok (length (v_objs v)) t"
  by (force simp: view_ok_def dest!: map_find_in_set)

section \<open>Every event keeps it\<close>

lemma tables_ok_take_idle: "tables_ok n t \<Longrightarrow> tables_ok n (take_idle t)"
  by (auto simp: take_idle_def tables_ok_def split: list.splits dest!: infos_ok_Cons)

lemma tables_ok_alloc_login: "tables_ok n t \<Longrightarrow> tables_ok n (alloc_login uid t)"
  by (simp add: alloc_login_def tables_ok_take_idle)

lemma set_follow_ok:
  "map_sorted m \<Longrightarrow> \<forall>x \<in> set m. infos_ok n (snd x) \<Longrightarrow> infos_ok n r \<Longrightarrow>
     map_sorted (map_set uid r m) \<and> (\<forall>x \<in> set (map_set uid r m). infos_ok n (snd x))"
  using set_map_set [of uid r m] by force

lemma tables_ok_alloc_robot: "tables_ok n t \<Longrightarrow> h < n \<Longrightarrow> tables_ok n (alloc_robot robot_uid uid key h t)"
  using tables_ok_users_robots [of n t uid] set_follow_ok [of "t_follow t" n "map_set key h (users_robots uid t)" uid]
  by (simp add: alloc_robot_def tables_ok_def)

lemma tables_ok_alloc_forget: "tables_ok n t \<Longrightarrow> tables_ok n (alloc_forget key uid t)"
  using set_map_erase [of uid "t_follow t"] by (auto simp: alloc_forget_def tables_ok_def)

lemma tables_ok_alloc_forgets: "tables_ok n t \<Longrightarrow> tables_ok n (fold (alloc_forget key) uids t)"
  by (induction uids arbitrary: t) (simp_all add: tables_ok_alloc_forget)

lemma tables_ok_alloc_clear: "tables_ok n t \<Longrightarrow> h < n \<Longrightarrow> tables_ok n (alloc_clear key uids h t)"
  using tables_ok_alloc_forgets [of n t key uids] by (simp add: alloc_clear_def Let_def tables_ok_def)

lemma tables_ok_alloc_recall: "tables_ok n t \<Longrightarrow> h < n \<Longrightarrow> tables_ok n (alloc_recall key h t)"
  by (simp add: alloc_recall_def tables_ok_def)

lemma tables_ok_alloc_recalls:
  "tables_ok n t \<Longrightarrow> \<forall>x \<in> set robots. snd x < n \<Longrightarrow>
     tables_ok n (fold (\<lambda>(k, h). alloc_recall (robot_key v h) h) robots t)"
  by (induction robots arbitrary: t) (auto simp: tables_ok_alloc_recall)

lemma tables_ok_alloc_song: "tables_ok n t \<Longrightarrow> tables_ok n (alloc_song v uid t)"
  using tables_ok_users_robots [of n t uid] by (simp add: alloc_song_def tables_ok_alloc_recalls infos_ok_def)

lemma view_ok_bind_socket: "view_ok v \<Longrightarrow> h < length (v_objs v) \<Longrightarrow> view_ok (bind_socket socket h v)"
  using set_map_set [of socket h "v_sockets v"] by (auto simp: view_ok_def bind_socket_def)

lemma login_target_bound: "view_ok v \<Longrightarrow> login_target pid robot_uid v = Some h \<Longrightarrow> h < length (v_objs v)"
  by (auto simp: login_target_def find_login_def tables_ok_def MapGet_def split: option.splits
      dest!: view_ok_tables intro: infos_ok_find)

lemma view_ok_objs:
  "view_ok v \<Longrightarrow> length (v_objs v) \<le> length objs \<Longrightarrow> view_ok (v\<lparr>v_objs := objs\<rparr>)"
  by (fastforce simp: view_ok_def intro: tables_ok_mono)

lemma view_ok_robot_login: "view_ok v \<Longrightarrow> view_ok (alloc_robot_login pid robot_uid uid socket v)"
  by (auto simp: alloc_robot_login_def alloc_serves_def split: option.splits
      intro!: view_ok_bind_socket view_ok_objs view_ok_on_tables tables_ok_alloc_robot
      dest: login_target_bound)

lemma view_ok_close: "view_ok v \<Longrightarrow> view_ok (alloc_close socket v)"
proof (cases "map_find (v_sockets v) socket")
  case (Some h)
  assume v: "view_ok v"
  have h: "h < length (v_objs v)" using v Some by (force simp: view_ok_def dest!: map_find_in_set)
  have "view_ok (v\<lparr>v_sockets := map_erase socket (v_sockets v)\<rparr>)"
    using v set_map_erase [of socket "v_sockets v"] by (auto simp: view_ok_def)
  then show ?thesis using h Some
    by (auto simp: alloc_close_def intro!: view_ok_on_tables tables_ok_alloc_clear)
qed (simp add: alloc_close_def)

lemma view_ok_alloc_apply: "view_ok v \<Longrightarrow> view_ok (alloc_apply e v)"
  by (cases e) (auto intro: view_ok_on_tables tables_ok_alloc_login tables_ok_alloc_song
      view_ok_robot_login view_ok_close)

section \<open>The start\<close>

lemma fetch_robots_effect:
  assumes "infos_ok (length (rw_robots w)) infos"
  shows "rw_platforms (snd (run_state (fetch_robots E rows infos) w)) = rw_platforms w \<and>
    rw_robot_sockets (snd (run_state (fetch_robots E rows infos) w)) = rw_robot_sockets w \<and>
    length (rw_robots w) \<le> length (rw_robots (snd (run_state (fetch_robots E rows infos) w))) \<and>
    infos_ok (length (rw_robots (snd (run_state (fetch_robots E rows infos) w))))
      (fst (run_state (fetch_robots E rows infos) w))"
  using assms
proof (induction rows arbitrary: infos w)
  case (Cons row rows)
  have make: "rw_platforms (snd (run_state (RobotBasicInfo E uid sex name url) w)) = rw_platforms w"
    "rw_robot_sockets (snd (run_state (RobotBasicInfo E uid sex name url) w)) = rw_robot_sockets w"
    "length (rw_robots (snd (run_state (RobotBasicInfo E uid sex name url) w))) = Suc (length (rw_robots w))"
    "fst (run_state (RobotBasicInfo E uid sex name url) w) = length (rw_robots w)"
    for uid sex name url
    by (simp_all add: RobotBasicInfo_def robot_time_def obj_new_def)
  have "infos_ok (Suc (length (rw_robots w))) (map_set k (length (rw_robots w)) infos)" for k
    using Cons.prems infos_ok_mono by (intro infos_ok_set) auto
  note later = Cons.IH [of "snd (run_state (RobotBasicInfo E uid sex name url) w)"
      "map_set k (length (rw_robots w)) infos" for uid sex name url k, unfolded make, OF this]
  show ?case using Cons.prems
    by (auto simp: split_beta make later robot_crash_def split: option.splits intro: Suc_leD)
qed simp

lemma query_robots_effect:
  assumes "infos_ok (length (rw_robots w)) infos"
  shows "rw_platforms (snd (run_state (query_robots E sql infos) w)) = rw_platforms w"
    "rw_robot_sockets (snd (run_state (query_robots E sql infos) w)) = rw_robot_sockets w"
    "length (rw_robots w) \<le> length (rw_robots (snd (run_state (query_robots E sql infos) w)))"
    "infos_ok (length (rw_robots (snd (run_state (query_robots E sql infos) w))))
      (snd (fst (run_state (query_robots E sql infos) w)))"
proof -
  have sql: "rw_platforms (snd (run_state (robot_sql E sql) w)) = rw_platforms w"
    "rw_robot_sockets (snd (run_state (robot_sql E sql) w)) = rw_robot_sockets w"
    "rw_robots (snd (run_state (robot_sql E sql) w)) = rw_robots w"
    by (simp_all add: robot_sql_def Let_def)
  note fetch = fetch_robots_effect [of "snd (run_state (robot_sql E sql) w)" infos E, unfolded sql, OF assms]
  show "rw_platforms (snd (run_state (query_robots E sql infos) w)) = rw_platforms w"
    "rw_robot_sockets (snd (run_state (query_robots E sql infos) w)) = rw_robot_sockets w"
    "length (rw_robots w) \<le> length (rw_robots (snd (run_state (query_robots E sql infos) w)))"
    "infos_ok (length (rw_robots (snd (run_state (query_robots E sql infos) w))))
      (snd (fst (run_state (query_robots E sql infos) w)))"
    using fetch assms by (simp_all add: query_robots_def split_beta sql split: sql_result.splits)
qed

text \<open>The platform of the start, once the random tables are filled.\<close>

definition fill_platform :: "robot_env \<Rightarrow> int64 \<Rightarrow> unit robot_m" where
  "fill_platform E pid = do {
     pc \<leftarrow> rp_get pid;
     (case pc of None \<Rightarrow> State_Monad.return () | Some pc \<Rightarrow> do {
        (r, idle) \<leftarrow> GetRobotInfos E 0 10000 (rp_idle pc);
        rp_modify pid (\<lambda>pc. pc\<lparr>rp_idle := idle\<rparr>);
        (r, assistant) \<leftarrow> GetAssistant E (rp_assistant pc);
        rp_modify pid (\<lambda>pc. pc\<lparr>rp_assistant := assistant\<rparr>)
      })
   }"

lemma view_query_robots:
  assumes "view_ok (view w)" "infos_ok (length (rw_robots w)) infos"
  shows "view_ok (view (snd (run_state (query_robots E sql infos) w)))"
  using query_robots_effect [OF assms(2), of E sql] assms(1)
    view_ok_objs [OF assms(1), of "map obj_of (rw_robots (snd (run_state (query_robots E sql infos) w)))"]
  by (simp add: view_def)

lemma view_ok_fill:
  assumes ok: "view_ok (view w)"
    and empty: "\<And>pc. map_find (rw_platforms w) pid = Some pc \<Longrightarrow> rp_assistant pc = []"
  shows "view_ok (view (snd (run_state (fill_platform E pid) w)))"
proof (cases "map_find (rw_platforms w) pid")
  case None
  then show ?thesis using ok by (simp add: fill_platform_def rp_get_def)
next
  case (Some pc)
  have idle: "infos_ok (length (rw_robots w)) (rp_idle pc)"
    using view_ok_tables [OF ok, of pid "tables_of pc"] Some by (simp add: map_find_map tables_ok_def)
  define q1 where "q1 = run_state (GetRobotInfos E 0 10000 (rp_idle pc)) w"
  define w1 where "w1 = snd (run_state (rp_modify pid (\<lambda>pc. pc\<lparr>rp_idle := snd (fst q1)\<rparr>)) (snd q1))"
  define q2 where "q2 = run_state (GetAssistant E (rp_assistant pc)) w1"
  have v1: "view w1 = on_tables pid (\<lambda>t. t\<lparr>t_idle := snd (fst q1)\<rparr>) (view (snd q1))"
    unfolding w1_def by (rule view_rp_modify) (simp add: tables_of_def)
  have "view_ok (view w1)" unfolding v1
    using view_query_robots [OF ok idle] query_robots_effect(4) [OF idle]
    by (intro view_ok_on_tables) (auto simp: q1_def GetRobotInfos_def tables_ok_def)
  then have "view_ok (view (snd q2))"
    unfolding q2_def GetAssistant_def using empty [OF Some] by (intro view_query_robots) simp_all
  moreover have "neutral (rp_modify pid (\<lambda>pc. pc\<lparr>rp_assistant := x\<rparr>))" for x
    by (intro neutral_intros) (simp add: tables_of_def)
  ultimately show ?thesis
    using Some by (simp add: fill_platform_def rp_get_def split_beta neutralD q1_def [symmetric]
        w1_def [symmetric] q2_def [symmetric])
qed

text \<open>The world before the platform is filled.\<close>

definition made_platform :: "robot_env \<Rightarrow> robot_world" where
  "made_platform E = snd (run_state (do {
      (case SetRateTableV1 (re_shuffle E [] 0 0) of
          None \<Rightarrow> robot_crash
        | Some table \<Rightarrow> State (\<lambda>w. ((), w\<lparr>rw_platforms :=
            map_set 10000 (empty_robot_platform E table) (rw_platforms w)\<rparr>)));
      rp_modify 10000 (\<lambda>pc. pc\<lparr>rp_platform_id := 10000, rp_platform_name := ascii ''miu''\<rparr>)
    }) empty_robot_world)"

lemma view_robot_start: "view (robot_start E) = view (snd (run_state (fill_platform E 10000) (made_platform E)))"
proof -
  have prize: "neutral (case PrizeRate r of None \<Rightarrow> robot_crash
      | Some v \<Rightarrow> State (\<lambda>w. ((), w\<lparr>rw_prize := v\<rparr>)))" for r
    by (cases "PrizeRate r") (auto simp: neutral_def view_def robot_crash_def)
  show ?thesis
    by (simp add: robot_start_def Robot_InitDefaultPlatformInfo_def Robot_SetPlatformInfo_def split_beta
        neutralD [OF prize] neutralD neutral_start fill_platform_def made_platform_def rp_get_def
        empty_robot_world_def)
qed

lemma view_ok_start: "view_ok (view (robot_start E))"
proof -
  have "view_ok (view (made_platform E))"
    "\<And>pc. map_find (rw_platforms (made_platform E)) 10000 = Some pc \<Longrightarrow> rp_assistant pc = []"
    by (cases "SetRateTableV1 (re_shuffle E [] 0 0)"; force simp: made_platform_def robot_crash_def rp_modify_def
        empty_robot_world_def empty_robot_platform_def view_ok_def view_def tables_of_def tables_ok_def)+
  then show ?thesis unfolding view_robot_start by (rule view_ok_fill)
qed

section \<open>The refinement\<close>

text \<open>The server runs from its start; a message, the close of a connection and a timer are its steps.\<close>

inductive robot_reachable :: "robot_env \<Rightarrow> robot_world \<Rightarrow> bool" for E where
  start: "robot_reachable E (robot_start E)"
| step: "robot_reachable E w \<Longrightarrow> robot_step E w w' \<Longrightarrow> robot_reachable E w'"

lemma view_robot_dispatch:
  assumes "view_ok (view w)"
  shows "view (snd (run_state (robot_dispatch E socket b) w)) = alloc_apply (body_event socket b) (view w)"
proof (cases b)
  case (RobotLogin p)
  have "h < length (rw_robots w)" if "login_target (lg_platform_id p) (lg_robot_id p) (view w) = Some h" for h
    using login_target_bound [OF assms that] by simp
  then show ?thesis
    by (simp add: RobotLogin robot_dispatch_def body_event_def split_beta view_OnRobotLogin
        neutralD neutral_OnRobotLoginSong)
next
  case (CurrentSong p)
  have "\<forall>(k, h) \<in> set (users_robots (ns_uid p) t). h < length (rw_robots w)"
    if "map_find (v_tables (view w)) (ns_platform_id p) = Some t" for t
    using tables_ok_users_robots [OF view_ok_tables [OF assms that], of "ns_uid p"]
    by (auto simp: infos_ok_def)
  from view_OnNoticeUserChangerSong [OF this, of E] show ?thesis
    by (simp add: CurrentSong robot_dispatch_def body_event_def)
qed (simp_all add: robot_dispatch_def body_event_def neutralD neutral_handlers view_Robot_OnUserLogin)

lemma view_OnRobotManagerMessage:
  assumes "view_ok (view w)"
  shows "view (snd (run_state (OnRobotManagerMessage E socket m len) w)) =
    alloc_apply (message_event E socket m len) (view w)"
proof -
  have crash: "view (snd (run_state (if c then robot_crash else State_Monad.return ()) w)) = view w" for c
    by (simp add: robot_crash_def view_def)
  show ?thesis
    using view_robot_dispatch [of "snd (run_state (if c then robot_crash else State_Monad.return ()) w)" for c]
      assms crash
    by (auto simp: OnRobotManagerMessage_def message_event_def split_beta split: option.splits)
qed

lemma view_ok_step: "robot_step E w w' \<Longrightarrow> view_ok (view w) \<Longrightarrow> \<exists>e. view w' = alloc_apply e (view w)"
proof (induction rule: robot_step.induct)
  case (message w socket m len)
  then show ?case using view_OnRobotManagerMessage by blast
next
  case (closed w socket)
  have "h < length (rw_robots w)" if "map_find (rw_robot_sockets w) socket = Some h" for h
    using closed that by (force simp: view_ok_def dest!: map_find_in_set)
  then have "view (snd (run_state (OnRobotManagerClose socket) w)) = alloc_apply (SocketCloses socket) (view w)"
    by (simp add: view_OnRobotManagerClose)
  then show ?case by blast
next
  case (timeout w opcode)
  have "view (snd (run_state (Robot_OnTimeout E opcode) w)) = alloc_apply Nothing (view w)"
    by (simp add: neutralD neutral_Robot_OnTimeout)
  then show ?case by blast
qed

lemma view_ok_reachable: "robot_reachable E w \<Longrightarrow> view_ok (view w)"
proof (induction rule: robot_reachable.induct)
  case start
  show ?case by (rule view_ok_start)
next
  case (step w w')
  then show ?case using view_ok_step view_ok_alloc_apply by metis
qed

lemma sockets_bound:
  "robot_reachable E w \<Longrightarrow> map_find (rw_robot_sockets w) socket = Some h \<Longrightarrow> h < length (rw_robots w)"
  using view_ok_reachable [of E w] by (force simp: view_ok_def dest!: map_find_in_set)

text \<open>C5: Seen through the tables of robots, the sockets and the users of each robot, a message of a
  running robot server is the event of the allocation automaton that its packet stands for,
  the close of a connection is the automaton's close, and a timer changes nothing.\<close>

theorem robot_server_refines_allocation:
  assumes "robot_reachable E w"
  shows "view (snd (run_state (OnRobotManagerMessage E socket m len) w)) =
      alloc_apply (message_event E socket m len) (view w) \<and>
    view (snd (run_state (OnRobotManagerClose s) w)) = alloc_apply (SocketCloses s) (view w) \<and>
    view (snd (run_state (Robot_OnTimeout E opcode) w)) = view w"
  using view_ok_reachable [OF assms] sockets_bound [OF assms]
  by (simp_all add: view_OnRobotManagerMessage view_OnRobotManagerClose neutralD neutral_Robot_OnTimeout)

section \<open>No robot is lost\<close>

definition known_robots :: "robot_tables \<Rightarrow> int64 set" where
  "known_robots t = fst ` set (t_idle t) \<union> fst ` set (t_temp t) \<union> fst ` set (t_used t)"

lemma keys_map_set [simp]: "fst ` set (map_set k h m) = insert k (fst ` set m)"
proof -
  have "k' \<in> fst ` set (map_set k h m) \<longleftrightarrow> k' \<in> insert k (fst ` set m)" for k'
    using map_find_set [of k h m k'] map_find_None [of "map_set k h m" k'] map_find_None [of m k']
    by (auto split: if_splits)
  then show ?thesis by blast
qed

lemma keys_map_erase: "fst ` set m - {k} \<subseteq> fst ` set (map_erase k m)"
  by (induction k m rule: map_erase.induct) auto

lemma known_take_idle: "known_robots (take_idle t) = known_robots t"
  by (auto simp: take_idle_def known_robots_def split: list.splits)

lemma known_alloc_login: "known_robots (alloc_login uid t) = known_robots t"
  by (simp add: alloc_login_def known_take_idle)

lemma known_alloc_robot: "known_robots t \<subseteq> known_robots (alloc_robot robot_uid uid key h t)"
  using keys_map_erase [of "t_temp t" robot_uid] by (auto simp: alloc_robot_def known_robots_def)

lemma known_alloc_forgets: "known_robots (fold (alloc_forget key) uids t) = known_robots t"
  by (induction uids arbitrary: t) (simp_all add: alloc_forget_def known_robots_def)

lemma known_alloc_clear: "known_robots t \<subseteq> known_robots (alloc_clear key uids h t)"
proof -
  define t' where "t' = fold (alloc_forget key) uids t"
  have "known_robots t' = known_robots t" by (simp add: t'_def known_alloc_forgets)
  moreover have "known_robots t' \<subseteq>
      known_robots (t'\<lparr>t_used := map_erase key (t_used t'), t_idle := map_set key h (t_idle t')\<rparr>)"
    using keys_map_erase [of "t_used t'" key] by (simp add: known_robots_def) blast
  ultimately show ?thesis by (simp add: alloc_clear_def Let_def t'_def [symmetric])
qed

lemma known_alloc_recall: "known_robots t \<subseteq> known_robots (alloc_recall key h t)"
  using keys_map_erase [of "t_idle t" key] by (auto simp: alloc_recall_def known_robots_def)

lemma known_alloc_recalls:
  "known_robots t \<subseteq> known_robots (fold (\<lambda>(k, h). alloc_recall (robot_key v h) h) robots t)"
proof (induction robots arbitrary: t)
  case (Cons p robots)
  obtain k h where p: "p = (k, h)" by force
  show ?case using Cons.IH [of "alloc_recall (robot_key v h) h t"] known_alloc_recall [of t "robot_key v h" h]
    by (simp add: p)
qed simp

lemma known_alloc_song: "known_robots t \<subseteq> known_robots (alloc_song v uid t)"
  by (simp add: alloc_song_def known_alloc_recalls)

lemma known_on_tables:
  assumes "\<And>t. known_robots t \<subseteq> known_robots (f t)" "map_find (v_tables v) pid' = Some t"
  shows "\<exists>t'. map_find (v_tables (on_tables pid f v)) pid' = Some t' \<and> known_robots t \<subseteq> known_robots t'"
  using assms by auto

lemma known_alloc_apply:
  assumes "map_find (v_tables v) pid' = Some t"
  shows "\<exists>t'. map_find (v_tables (alloc_apply e v)) pid' = Some t' \<and> known_robots t \<subseteq> known_robots t'"
proof (cases e)
  case (RobotLogsIn pid robot_uid uid socket)
  then show ?thesis using assms known_alloc_robot
    by (auto simp: alloc_robot_login_def alloc_serves_def bind_socket_def split: option.splits)
next
  case (SongChanges pid uid)
  then show ?thesis using known_on_tables [OF known_alloc_song assms] by simp
next
  case (SocketCloses socket)
  then show ?thesis using assms known_alloc_clear by (auto simp: alloc_close_def split: option.splits)
qed (use assms in \<open>auto simp: known_alloc_login\<close>)

text \<open>C17: No robot is ever lost: each robot a platform knows as idle, temporary or used in a state
  that the server reaches, it knows in every later state.\<close>

theorem no_robot_is_lost:
  assumes "robot_reachable E w" and "(robot_step E)\<^sup>*\<^sup>* w w'"
    and "map_find (rw_platforms w) pid = Some pc" and "k \<in> known_robots (tables_of pc)"
  shows "\<exists>pc'. map_find (rw_platforms w') pid = Some pc' \<and> k \<in> known_robots (tables_of pc')"
proof -
  have "robot_reachable E w' \<and>
      (\<exists>t'. map_find (v_tables (view w')) pid = Some t' \<and> known_robots (tables_of pc) \<subseteq> known_robots t')"
    using assms(2)
  proof (induction rule: rtranclp_induct)
    case base
    then show ?case using assms(1,3) by (simp add: map_find_map)
  next
    case (step y z)
    obtain e where "view z = alloc_apply e (view y)"
      using view_ok_step [OF step.hyps(2)] view_ok_reachable step.IH by blast
    then show ?case
      using step.IH known_alloc_apply [of "view y" pid _ e] robot_reachable.step [OF _ step.hyps(2)]
      by (metis subset_trans)
  qed
  then show ?thesis using assms(4) by (auto simp: map_find_map)
qed

section \<open>The companions of a user\<close>

lemma MapGet_fits: "fits_int k \<Longrightarrow> MapGet m (to_int k) = map_find m k"
  by (simp add: MapGet_def fits_int_def)

lemma view_tables_find:
  "map_find (v_tables (view w)) pid = Some t \<Longrightarrow> \<exists>pc. map_find (rw_platforms w) pid = Some pc \<and> tables_of pc = t"
  by (auto simp: map_find_map)

lemma login_target_on_tables:
  "map_find (v_tables v) pid = Some t \<Longrightarrow> login_target pid k (on_tables pid f v) = find_login k (f t)"
  by (simp add: login_target_def)

text \<open>Two idle robots that log in for a new user.\<close>

lemma alloc_companions:
  assumes v: "view_ok v" "map_find (v_tables v) pid = Some t"
    and user: "map_find (t_follow t) uid = None" "fits_int uid"
    and idle: "t_idle t = (k1, h1) # (k2, h2) # rest" "fits_int k1" "fits_int k2"
    and keys: "robot_key v h1 = k1" "robot_key v h2 = k2" and s: "s1 \<noteq> s2"
    and v': "v' = alloc_apply (RobotLogsIn pid k2 uid s2)
      (alloc_apply (RobotLogsIn pid k1 uid s1) (alloc_apply (UserLogsIn pid uid) v))"
  shows "\<exists>t'. map_find (v_tables v') pid = Some t' \<and> t_idle t' = rest \<and>
    map_find (t_used t') k1 = Some h1 \<and> map_find (t_used t') k2 = Some h2 \<and>
    map_find (t_follow t') uid = Some [(k1, h1), (k2, h2)] \<and>
    map_find (v_sockets v') s1 = Some h1 \<and> map_find (v_sockets v') s2 = Some h2"
proof -
  have ok: "tables_ok (length (v_objs v)) t" by (rule view_ok_tables [OF v])
  have less: "sint k1 < sint k2" and temp: "map_sorted (t_temp t)"
    and h: "h1 < length (v_objs v)" "h2 < length (v_objs v)"
    using ok idle by (simp_all add: tables_ok_def infos_ok_def)
  have ne: "k1 \<noteq> k2" using less by auto
  define t1 where "t1 = alloc_login uid t"
  have t1: "t1 = t\<lparr>t_idle := rest, t_temp := map_set k2 h2 (map_set k1 h1 (t_temp t))\<rparr>"
    by (simp add: t1_def alloc_login_def take_idle_def MapGet_fits user idle)
  define t2 where "t2 = alloc_robot k1 uid k1 h1 t1"
  have find1: "find_login k1 t1 = Some h1"
    using ne by (simp add: find_login_def MapGet_fits idle t1)
  have find2: "find_login k2 t2 = Some h2"
    using ne temp by (simp add: find_login_def MapGet_fits idle t1 t2_def alloc_robot_def)
  define v1 where "v1 = alloc_serves pid k1 uid h1 (on_tables pid (alloc_login uid) v)"
  have v1: "alloc_apply (RobotLogsIn pid k1 uid s1) (alloc_apply (UserLogsIn pid uid) v) = bind_socket s1 h1 v1"
    using login_target_on_tables [OF v(2), of k1 "alloc_login uid"] find1
    by (simp add: alloc_robot_login_def v1_def t1_def)
  have tables1: "map_find (v_tables v1) pid = Some t2"
    using v(2) keys by (simp add: v1_def alloc_serves_def robot_key_def t2_def t1_def)
  have key2: "robot_key v1 h2 = k2"
    using keys h by (cases "h1 = h2") (simp_all add: v1_def alloc_serves_def robot_key_def)
  have target2: "login_target pid k2 (bind_socket s1 h1 v1) = Some h2"
    using find2 by (simp add: login_target_def bind_socket_def tables1)
  have follow: "users_robots uid t2 = [(k1, h1)]"
    using user by (simp add: t2_def alloc_robot_def t1 users_robots_def MapGet_fits)
  have v'2: "v' = bind_socket s2 h2 (alloc_serves pid k2 uid h2 (bind_socket s1 h1 v1))"
    unfolding v' v1 by (simp add: alloc_robot_login_def target2)
  have "map_find (v_tables v') pid = Some (alloc_robot k2 uid k2 h2 t2)"
    using tables1 key2 by (simp add: v'2 alloc_serves_def bind_socket_def robot_key_def)
  moreover have "v_sockets v' = map_set s2 h2 (map_set s1 h1 (v_sockets v1))"
    by (simp add: v'2 bind_socket_def alloc_serves_def)
  moreover have "map_set k2 h2 (users_robots uid t2) = [(k1, h1), (k2, h2)]"
    using less ne by (simp add: follow)
  ultimately show ?thesis
    using ne s by (simp add: alloc_robot_def) (simp add: t2_def alloc_robot_def t1)
qed

text \<open>C18: When a new user logs in and two robots are idle, these two leave the idle robots; once
  both have logged in for the user, from two connections, they are in use, they are the user's
  robots, and each connection is bound to its robot. The ids of the user and the robots fit an
  int, and the two robots are entered under their own ids.\<close>

theorem a_new_user_gets_two_companions:
  assumes w: "robot_reachable E w" "map_find (rw_platforms w) pid = Some pc"
    and user: "map_find (rp_follow pc) uid = None" "fits_int uid"
    and idle: "rp_idle pc = (k1, h1) # (k2, h2) # rest" "fits_int k1" "fits_int k2"
    and keys: "rd_uid (rw_robots w ! h1) = k1" "rd_uid (rw_robots w ! h2) = k2" and s: "s1 \<noteq> s2"
    and w': "w' = snd (run_state (do {
        robot_dispatch E s (UserLoginNotice \<lparr>nl_platform_id = pid, nl_uid = uid,
          nl_latitude = a, nl_longitude = b\<rparr>);
        robot_dispatch E s1 (RobotLogin \<lparr>lg_platform_id = pid, lg_uid = uid, lg_robot_id = k1\<rparr>);
        robot_dispatch E s2 (RobotLogin \<lparr>lg_platform_id = pid, lg_uid = uid, lg_robot_id = k2\<rparr>)
      }) w)"
  shows "\<exists>pc'. map_find (rw_platforms w') pid = Some pc' \<and> rp_idle pc' = rest \<and>
    map_find (rp_used pc') k1 = Some h1 \<and> map_find (rp_used pc') k2 = Some h2 \<and>
    map_find (rp_follow pc') uid = Some [(k1, h1), (k2, h2)] \<and>
    map_find (rw_robot_sockets w') s1 = Some h1 \<and> map_find (rw_robot_sockets w') s2 = Some h2"
proof -
  have ok: "view_ok (view w)" by (rule view_ok_reachable [OF w(1)])
  have t: "map_find (v_tables (view w)) pid = Some (tables_of pc)" using w(2) by (simp add: map_find_map)
  have h: "h1 < length (rw_robots w)" "h2 < length (rw_robots w)"
    using view_ok_tables [OF ok t] idle(1) by (simp_all add: tables_ok_def infos_ok_def)
  have v': "view w' = alloc_apply (RobotLogsIn pid k2 uid s2)
      (alloc_apply (RobotLogsIn pid k1 uid s1) (alloc_apply (UserLogsIn pid uid) (view w)))"
    using ok by (simp add: w' split_beta view_robot_dispatch view_ok_alloc_apply body_event_def
        del: alloc_apply.simps)
  from alloc_companions [OF ok t _ user(2) _ idle(2,3) _ _ s v', of h1 h2 rest] user(1) idle(1) keys h
  show ?thesis by (auto simp: robot_key_def obj_of_def map_find_map)
qed

section \<open>After the companions have gone\<close>

lemma length_map_erase: "length m \<le> length (map_erase k m) + 1"
  by (induction k m rule: map_erase.induct) auto

lemma alloc_forget_keeps:
  assumes "map_sorted (t_follow t)" "MapGet (t_follow t) (to_int uid) = Some robots" "2 \<le> length robots"
  shows "MapGet (t_follow (alloc_forget key uid' t)) (to_int uid) = Some robots"
proof (cases "uid' = to_int64 (to_int uid)")
  case True
  then have "users_robots uid' t = robots" using assms(2) by (simp add: users_robots_def)
  then have "map_erase key (users_robots uid' t) \<noteq> []" using length_map_erase [of robots key] assms(3) by auto
  then show ?thesis using assms(2) by (simp add: alloc_forget_def)
next
  case False
  then show ?thesis using assms(1,2) by (simp add: alloc_forget_def MapGet_def)
qed

lemma tables_ok_follow: "tables_ok n t \<Longrightarrow> map_sorted (t_follow t)"
  by (simp add: tables_ok_def)

lemma alloc_forgets_keep:
  "tables_ok n t \<Longrightarrow> MapGet (t_follow t) (to_int uid) = Some robots \<Longrightarrow> 2 \<le> length robots \<Longrightarrow>
     MapGet (t_follow (fold (alloc_forget key) uids t)) (to_int uid) = Some robots"
  by (induction uids arbitrary: t) (simp_all add: tables_ok_alloc_forget alloc_forget_keeps tables_ok_follow)

lemma alloc_close_keeps:
  assumes "view_ok v" "map_find (v_tables v) 10000 = Some t"
    and "MapGet (t_follow t) (to_int uid) = Some robots" "2 \<le> length robots"
  shows "\<exists>t'. map_find (v_tables (alloc_close socket v)) 10000 = Some t' \<and>
    MapGet (t_follow t') (to_int uid) = Some robots"
  using assms(2,3) alloc_forgets_keep [OF view_ok_tables [OF assms(1,2)] assms(3,4)]
  by (auto simp: alloc_close_def alloc_clear_def Let_def split: option.splits)

definition close_all :: "int32 list \<Rightarrow> unit robot_m" where
  "close_all = each (\<lambda>s. do { r \<leftarrow> OnRobotManagerClose s; State_Monad.return () })"

lemma close_all_effect:
  assumes "robot_reachable E w"
  shows "robot_reachable E (snd (run_state (close_all gone) w)) \<and>
    view (snd (run_state (close_all gone) w)) = fold alloc_close gone (view w)"
  using assms
proof (induction gone arbitrary: w)
  case (Cons s gone)
  define w1 where "w1 = snd (run_state (OnRobotManagerClose s) w)"
  have "robot_reachable E w1"
    using robot_reachable.step [OF Cons.prems robot_step.closed] by (simp add: w1_def)
  moreover have "view w1 = alloc_close s (view w)"
    using sockets_bound [OF Cons.prems] by (simp add: w1_def view_OnRobotManagerClose)
  ultimately show ?case using Cons.IH [of w1] by (simp add: close_all_def w1_def split_beta del: view_sel)
qed (simp add: close_all_def)

lemma closes_keep:
  assumes "view_ok v" "map_find (v_tables v) 10000 = Some t"
    and "MapGet (t_follow t) (to_int uid) = Some robots" "2 \<le> length robots"
  shows "\<exists>t'. map_find (v_tables (fold alloc_close gone v)) 10000 = Some t' \<and>
    MapGet (t_follow t') (to_int uid) = Some robots"
  using assms
proof (induction gone arbitrary: v t)
  case (Cons s gone)
  then show ?case using alloc_close_keeps [OF Cons.prems, of s] view_ok_close by (metis fold_simps(2))
qed auto

lemma dispatch_login_view:
  assumes "view_ok (view w)"
  shows "view (snd (run_state (robot_dispatch E s (UserLoginNotice p)) w)) =
    on_tables (nl_platform_id p) (alloc_login (nl_uid p)) (view w)"
  using assms by (simp add: view_robot_dispatch body_event_def)

text \<open>C19: A user who has two or more robots keeps them listed whichever connections close; when the
  user logs in again no robot is allotted, and a robot that went back to the idle ones, and so
  is neither temporary nor in use, changes no table by logging in for the user again.\<close>

theorem gone_companions_are_not_replaced:
  assumes "robot_reachable E w" and "map_find (rw_platforms w) 10000 = Some pc"
    and "MapGet (rp_follow pc) (to_int uid) = Some robots" and "2 \<le> length robots"
    and w': "w' = snd (run_state (close_all gone) w)"
    and p: "nl_platform_id p = 10000" "nl_uid p = uid"
    and q: "lg_platform_id q = 10000"
      "\<And>pc. map_find (rw_platforms w') 10000 = Some pc \<Longrightarrow> find_login (lg_robot_id q) (tables_of pc) = None"
    and w'': "w'' = snd (run_state (robot_dispatch E s (UserLoginNotice p)) w')"
  shows "(\<exists>pc'. map_find (rw_platforms w') 10000 = Some pc' \<and> MapGet (rp_follow pc') (to_int uid) = Some robots) \<and>
    view w'' = view w' \<and>
    v_tables (view (snd (run_state (robot_dispatch E s' (RobotLogin q)) w''))) = v_tables (view w')"
proof -
  have t: "map_find (v_tables (view w)) 10000 = Some (tables_of pc)"
    "MapGet (t_follow (tables_of pc)) (to_int uid) = Some robots"
    using assms(2,3) by (simp_all add: map_find_map)
  obtain t' where r: "robot_reachable E w'" and t': "map_find (v_tables (view w')) 10000 = Some t'"
    "MapGet (t_follow t') (to_int uid) = Some robots"
    using close_all_effect [OF assms(1), of gone] closes_keep [OF view_ok_reachable [OF assms(1)] t assms(4), of gone]
    by (auto simp: w' simp del: view_sel)
  note ok = view_ok_reachable [OF r]
  obtain pc' where pc': "map_find (rw_platforms w') 10000 = Some pc'" "tables_of pc' = t'"
    using view_tables_find [OF t'(1)] by blast
  have same: "view w'' = view w'"
    using t' p by (auto simp: w'' dispatch_login_view [OF ok] alloc_login_def intro!: on_tables_stays)
  have "login_target 10000 (lg_robot_id q) (view w'') = None"
    using q(2) [OF pc'(1)] t'(1) pc'(2) by (simp add: login_target_def same del: view_sel)
  then have "v_tables (view (snd (run_state (robot_dispatch E s' (RobotLogin q)) w''))) = v_tables (view w'')"
    using ok by (simp add: view_robot_dispatch same body_event_def q(1) alloc_robot_login_def bind_socket_def
        del: view_sel)
  then show ?thesis using pc' t'(2) same by auto
qed

end
