(* ===== verification/RobotSample.thy ===== *)
theory RobotSample
  imports RobotCompanions
begin

text \<open>
  A robot server with two robots, 17 and 23, and one assistant: the witnesses of the properties of
  \<^verbatim>\<open>RobotCompanions\<close>.
\<close>

definition robot_sample :: robot_env where
  "robot_sample = \<lparr>
     re_sql = (\<lambda>n sql. Rows (map (\<lambda>s. replicate 6 (Some (ascii s))) (if n = 0 then [''17'', ''23''] else [''1'']))),
     re_redis = (\<lambda>n c. None), re_value = (\<lambda>n k. None), re_hash_size = (\<lambda>n k. 0), re_random = (\<lambda>n. 1),
     re_rand = (\<lambda>n. 0), re_shuffle = (\<lambda>s n i j. 0), re_time = (\<lambda>n. 1000),
     re_localtime = (\<lambda>t. \<lparr>tm_year = 115, tm_mon = 0, tm_mday = 1, tm_hour = 0, tm_min = 0, tm_sec = 0\<rparr>),
     re_send = (\<lambda>n k. int k), re_memory = 1000000, re_atof = (\<lambda>s. 0), re_printf_lf = (\<lambda>d. ascii ''0''),
     re_music = (\<lambda>s. \<lparr>mu_id = [], mu_title = [], mu_artist = []\<rparr>), re_json_member = (\<lambda>s k. []),
     re_base64 = (\<lambda>s. s), re_junk = (\<lambda>n. replicate n 0), re_junk32 = 0, re_junk64 = 0\<rparr>"

lemma sample_numbers: "atoll (ascii ''17'') = 17" "atoll (ascii ''23'') = 23" "atoll (ascii ''1'') = 1"
  by code_simp+

lemma sample_fits: "fits_int 7" "fits_int 17" "fits_int 23"
  by code_simp+

lemma sample_sel:
  "re_sql robot_sample n sql = Rows (map (\<lambda>s. replicate 6 (Some (ascii s))) (if n = 0 then [''17'', ''23''] else [''1'']))"
  "re_shuffle robot_sample = (\<lambda>s n i j. 0)"
  by (simp_all add: robot_sample_def)

lemma column_replicate: "column (replicate n x) i = (if i < n then x else None)"
  by (simp add: column_def)

lemma sample_start:
  "view (robot_start robot_sample) = \<lparr>v_tables = [(10000, \<lparr>t_idle = [(17, 0), (23, 1)], t_temp = [], t_used = [],
     t_follow = []\<rparr>)], v_objs = [(17, []), (23, []), (1, [])], v_sockets = []\<rparr>"
proof -
  obtain table where table: "SetRateTableV1 (re_shuffle robot_sample [] 0 0) = Some table"
    using reset_permutation [of "re_shuffle robot_sample [] 0 0" 10000] by (auto simp: SetRateTableV1_def sample_sel simp del: upt_rec_numeral)
  have made: "made_platform robot_sample = empty_robot_world\<lparr>rw_platforms :=
      [(10000, (empty_robot_platform robot_sample table)\<lparr>rp_platform_id := 10000,
        rp_platform_name := ascii ''miu''\<rparr>)]\<rparr>"
    by (simp add: made_platform_def table empty_robot_world_def rp_modify_def)
  show ?thesis unfolding view_robot_start made
    by (simp add: fill_platform_def rp_get_def GetRobotInfos_def GetAssistant_def query_robots_def
        robot_sql_def sample_sel Let_def column_replicate sample_numbers RobotBasicInfo_def robot_time_def
        obj_new_def RobotBasicInfo_Data_def empty_robot_world_def empty_robot_platform_def rp_modify_def
        view_def tables_of_def obj_of_def split_beta)
qed

section \<open>Messages\<close>

definition user_login_message :: "int64 \<Rightarrow> byte list" where
  "user_login_message uid = head_bytes (plain_head NOTICE_USER_LOGIN) 24 @
     le_bytes 8 (10000 :: int64) @ le_bytes 8 uid @ le_bytes 4 (0 :: int32) @ le_bytes 4 (0 :: int32)"

definition robot_login_message :: "int64 \<Rightarrow> int64 \<Rightarrow> byte list" where
  "robot_login_message uid robot = head_bytes (plain_head ROBOT_LOGIN) 24 @
     le_bytes 8 (10000 :: int64) @ le_bytes 8 uid @ le_bytes 8 robot"

lemma user_login_event:
  assumes "0 < sint socket"
  shows "message_event E socket (Some (user_login_message uid)) 55 = UserLogsIn 10000 uid"
proof -
  let ?p = "\<lparr>nl_platform_id = 10000, nl_uid = uid, nl_latitude = int32_to_double 0,
    nl_longitude = int32_to_double 0\<rparr>"
  let ?bs = "le_bytes 8 (10000 :: int64) @ le_bytes 8 uid @ le_bytes 4 (0 :: int32) @ le_bytes 4 (0 :: int32)"
  have "reads read_user_login_notice ?bs (UserLoginNotice ?p)"
    unfolding read_user_login_notice_def by (intro reads_field robot_reads_ends) simp
  from robot_unpack_read [of ?bs "[]" "plain_head NOTICE_USER_LOGIN", OF _ _ _ this, of "re_junk64 E"]
  show ?thesis using assms
    by (auto simp: message_event_def user_login_message_def read_robot_body_def robot_operations_def body_event_def)
qed

lemma robot_login_event:
  assumes "0 < sint socket"
  shows "message_event E socket (Some (robot_login_message uid robot)) 55 = RobotLogsIn 10000 robot uid socket"
proof -
  let ?p = "\<lparr>lg_platform_id = 10000, lg_uid = uid, lg_robot_id = robot\<rparr>"
  from robot_unpack_read [of "robot_body_bytes (RobotLogin ?p)" "[]" "plain_head ROBOT_LOGIN",
    OF _ _ _ reads_robot_fixed(1), of "re_junk64 E"]
  show ?thesis using assms
    by (auto simp: message_event_def robot_login_message_def read_robot_body_def robot_operations_def body_event_def)
qed

section \<open>A user with two companions\<close>

definition sample_served :: robot_world where
  "sample_served = snd (run_state (do {
     OnRobotManagerMessage robot_sample 5 (Some (user_login_message 7)) 55;
     OnRobotManagerMessage robot_sample 6 (Some (robot_login_message 7 17)) 55;
     OnRobotManagerMessage robot_sample 8 (Some (robot_login_message 7 23)) 55
   }) (robot_start robot_sample))"

lemma sample_served_reachable: "robot_reachable robot_sample sample_served"
  unfolding sample_served_def by (simp add: split_beta)
    (rule robot_reachable.step [OF _ robot_step.message] robot_reachable.start)+

lemma sample_served_view:
  "view sample_served = \<lparr>v_tables = [(10000, \<lparr>t_idle = [], t_temp = [], t_used = [(17, 0), (23, 1)],
     t_follow = [(7, [(17, 0), (23, 1)])]\<rparr>)],
     v_objs = [(17, [(7, 7)]), (23, [(7, 7)]), (1, [])], v_sockets = [(6, 0), (8, 1)]\<rparr>"
proof -
  have "view sample_served = alloc_apply (RobotLogsIn 10000 23 7 8) (alloc_apply (RobotLogsIn 10000 17 7 6)
      (alloc_apply (UserLogsIn 10000 7) (view (robot_start robot_sample))))"
    by (simp add: sample_served_def split_beta view_OnRobotManagerMessage view_ok_alloc_apply view_ok_start
        user_login_event robot_login_event del: alloc_apply.simps view_sel)
  also have "\<dots> = \<lparr>v_tables = [(10000, \<lparr>t_idle = [], t_temp = [], t_used = [(17, 0), (23, 1)],
     t_follow = [(7, [(17, 0), (23, 1)])]\<rparr>)],
     v_objs = [(17, [(7, 7)]), (23, [(7, 7)]), (1, [])], v_sockets = [(6, 0), (8, 1)]\<rparr>"
    unfolding sample_start by code_simp
  finally show ?thesis .
qed

section \<open>Witnesses\<close>

theorem robot_server_refines_allocation_witness:
  "view (snd (run_state (OnRobotManagerClose 6) sample_served)) = alloc_apply (SocketCloses 6) (view sample_served)"
  using robot_server_refines_allocation [OF sample_served_reachable] by blast

theorem no_robot_is_lost_witness:
  "\<exists>pc'. map_find (rw_platforms (snd (run_state (OnRobotManagerClose 6) sample_served))) 10000 = Some pc' \<and>
     17 \<in> known_robots (tables_of pc')"
proof -
  obtain pc where pc: "map_find (rw_platforms sample_served) 10000 = Some pc"
    "tables_of pc = \<lparr>t_idle = [], t_temp = [], t_used = [(17, 0), (23, 1)], t_follow = [(7, [(17, 0), (23, 1)])]\<rparr>"
    using view_tables_find [of sample_served 10000] by (auto simp: sample_served_view simp del: view_sel)
  show ?thesis
    by (rule no_robot_is_lost [OF sample_served_reachable _ pc(1)])
      (auto simp: known_robots_def pc(2) intro: robot_step.closed)
qed

theorem a_new_user_gets_two_companions_witness:
  "\<exists>(w' :: robot_world) pc'. map_find (rw_platforms w') 10000 = Some pc' \<and> rp_idle pc' = [] \<and>
     map_find (rp_follow pc') 7 = Some [(17, 0), (23, 1)] \<and> map_find (rw_robot_sockets w') 8 = Some 1"
proof -
  let ?w = "robot_start robot_sample"
  obtain pc where pc: "map_find (rw_platforms ?w) 10000 = Some pc"
    "tables_of pc = \<lparr>t_idle = [(17, 0), (23, 1)], t_temp = [], t_used = [], t_follow = []\<rparr>"
    using view_tables_find [of ?w 10000] by (auto simp: sample_start simp del: view_sel)
  have objs: "map obj_of (rw_robots ?w) = [(17, []), (23, []), (1, [])]"
    using arg_cong [OF sample_start, of v_objs] by simp
  then have len: "length (rw_robots ?w) = 3" using map_eq_imp_length_eq [of obj_of "rw_robots ?w" id] by simp
  have keys: "rd_uid (rw_robots ?w ! 0) = 17" "rd_uid (rw_robots ?w ! 1) = 23"
    using arg_cong [OF objs, of "\<lambda>l. fst (l ! 0)"] arg_cong [OF objs, of "\<lambda>l. fst (l ! 1)"] len
    by (simp_all add: obj_of_def)
  have tables: "rp_follow pc = []" "rp_idle pc = [(17, 0), (23, 1)]"
    using pc(2) by (simp_all add: tables_of_def)
  define w' where "w' = snd (run_state (do {
      robot_dispatch robot_sample 5 (UserLoginNotice \<lparr>nl_platform_id = 10000, nl_uid = 7,
        nl_latitude = 0, nl_longitude = 0\<rparr>);
      robot_dispatch robot_sample 6 (RobotLogin \<lparr>lg_platform_id = 10000, lg_uid = 7, lg_robot_id = 17\<rparr>);
      robot_dispatch robot_sample 8 (RobotLogin \<lparr>lg_platform_id = 10000, lg_uid = 7, lg_robot_id = 23\<rparr>)
    }) ?w)"
  from a_new_user_gets_two_companions [OF robot_reachable.start pc(1) _ sample_fits(1) tables(2) sample_fits(2,3)
      keys _ w'_def] tables(1)
  have "\<exists>pc'. map_find (rw_platforms w') 10000 = Some pc' \<and> rp_idle pc' = [] \<and>
     map_find (rp_follow pc') 7 = Some [(17, 0), (23, 1)] \<and> map_find (rw_robot_sockets w') 8 = Some 1"
    by auto
  then show ?thesis by blast
qed

theorem gone_companions_are_not_replaced_witness:
  "\<exists>w' :: robot_world. MapGet (rp_follow (the (map_find (rw_platforms w') 10000))) (to_int 7) = Some [(17, 0), (23, 1)] \<and>
     rw_robot_sockets w' = []"
proof -
  obtain pc where pc: "map_find (rw_platforms sample_served) 10000 = Some pc"
    "tables_of pc = \<lparr>t_idle = [], t_temp = [], t_used = [(17, 0), (23, 1)], t_follow = [(7, [(17, 0), (23, 1)])]\<rparr>"
    using view_tables_find [of sample_served 10000] by (auto simp: sample_served_view simp del: view_sel)
  have follow: "MapGet (rp_follow pc) (to_int 7) = Some [(17, 0), (23, 1)]"
    using arg_cong [OF pc(2), of t_follow] by (simp add: MapGet_fits sample_fits)
  define w' where "w' = snd (run_state (close_all [6, 8]) sample_served)"
  have "view w' = alloc_close 8 (alloc_close 6 (view sample_served))"
    using close_all_effect [OF sample_served_reachable, of "[6, 8]"] by (simp add: w'_def)
  also have "\<dots> = \<lparr>v_tables = [(10000, \<lparr>t_idle = [(17, 0), (23, 1)], t_temp = [], t_used = [],
      t_follow = [(7, [(17, 0), (23, 1)])]\<rparr>)],
      v_objs = [(17, [(7, 7)]), (23, [(7, 7)]), (1, [])], v_sockets = []\<rparr>"
    unfolding sample_served_view by code_simp
  finally have v': "view w' = \<dots>" .
  let ?p = "\<lparr>nl_platform_id = 10000, nl_uid = 7, nl_latitude = 0, nl_longitude = 0\<rparr>"
  let ?q = "\<lparr>lg_platform_id = 10000, lg_uid = 7, lg_robot_id = 17\<rparr>"
  have "find_login (lg_robot_id ?q) (tables_of pc') = None"
    if "map_find (rw_platforms w') 10000 = Some pc'" for pc'
  proof -
    have "map_find (v_tables (view w')) 10000 = Some (tables_of pc')" using that by (simp add: map_find_map)
    then have "tables_of pc' = \<lparr>t_idle = [(17, 0), (23, 1)], t_temp = [], t_used = [],
        t_follow = [(7, [(17, 0), (23, 1)])]\<rparr>" by (simp add: v' del: view_sel)
    then show ?thesis by (simp add: find_login_def MapGet_def del: tables_of_sel)
  qed
  from gone_companions_are_not_replaced [OF sample_served_reachable pc(1) follow _ w'_def, of ?p ?q _ 5 5] this
  have "\<exists>pc'. map_find (rw_platforms w') 10000 = Some pc' \<and> MapGet (rp_follow pc') (to_int 7) = Some [(17, 0), (23, 1)]"
    by force
  moreover have "rw_robot_sockets w' = []" using arg_cong [OF v', of v_sockets] by simp
  ultimately show ?thesis by force
qed

end
