(* ===== verification/Unicode.thy ===== *)
theory Unicode
  imports MigPrelude
begin

text \<open>
  The conversions between UTF-8 byte strings and wide strings of
  \<^verbatim>\<open>src/server/public/basic/basic_util.cc\<close> (\<^verbatim>\<open>UTF8ToWide\<close>, \<^verbatim>\<open>WideToUTF8\<close>), on the macros of
  \<^verbatim>\<open>icu_utf.h\<close> and the decoder \<^verbatim>\<open>utf8_nextCharSafeBody\<close> of \<^verbatim>\<open>icu_utf.cc\<close>.  A \<^verbatim>\<open>wchar_t\<close> has 32
  bits on the servers' platform, yet the wide strings are written as UTF-16 units.  The theorems
  say that well-formed text survives both conversions and that ASCII text is its own wide form.
\<close>

type_synonym wchar = "32 word"
type_synonym wstring = "wchar list"

definition wide :: "string \<Rightarrow> wstring" where
  "wide s = map of_char s"

section \<open>The macros\<close>

definition utf8_countTrailBytes :: "byte \<Rightarrow> nat" where
  "utf8_countTrailBytes b =
     (if b < 0xC0 then 0 else if b < 0xE0 then 1 else if b < 0xF0 then 2 else if b < 0xF8 then 3
      else if b < 0xFC then 4 else if b < 0xFE then 5 else 0)"

definition utf8_minLegal :: "wchar list" where
  "utf8_minLegal = [0, 0x80, 0x800, 0x10000]"

definition utf8_errorValue :: "wchar list" where
  "utf8_errorValue = [0x15, 0x9F, 0xFFFF, 0x10FFFF, 0x3FFFFFF, 0x7FFFFFFF]"

definition CBU_SENTINEL :: wchar where
  "CBU_SENTINEL = -1"

definition CBU_IS_SURROGATE :: "wchar \<Rightarrow> bool" where
  "CBU_IS_SURROGATE c \<longleftrightarrow> c AND 0xFFFFF800 = 0xD800"

definition CBU16_IS_SURROGATE_LEAD :: "wchar \<Rightarrow> bool" where
  "CBU16_IS_SURROGATE_LEAD c \<longleftrightarrow> c AND 0x400 = 0"

definition CBU16_IS_TRAIL :: "wchar \<Rightarrow> bool" where
  "CBU16_IS_TRAIL c \<longleftrightarrow> c AND 0xFFFFFC00 = 0xDC00"

definition CBU16_GET_SUPPLEMENTARY :: "wchar \<Rightarrow> wchar \<Rightarrow> wchar" where
  "CBU16_GET_SUPPLEMENTARY lead trail =
     push_bit 10 lead + trail - (push_bit 10 0xD800 + 0xDC00 - 0x10000)"

definition CBU_IS_UNICODE_NONCHAR :: "wchar \<Rightarrow> bool" where
  "CBU_IS_UNICODE_NONCHAR c \<longleftrightarrow>
     0xFDD0 <=s c \<and> (c \<le> 0xFDEF \<or> c AND 0xFFFE = 0xFFFE) \<and> c \<le> 0x10FFFF"

definition CBU8_IS_LEAD :: "wchar \<Rightarrow> bool" where
  "CBU8_IS_LEAD c \<longleftrightarrow> (ucast (c - 0xC0) :: byte) < 0x3E"

definition CBU8_IS_TRAIL :: "byte \<Rightarrow> bool" where
  "CBU8_IS_TRAIL b \<longleftrightarrow> b AND 0xC0 = 0x80"

definition IsValidCodepoint :: "wchar \<Rightarrow> bool" where
  "IsValidCodepoint c \<longleftrightarrow> c < 0xD800 \<or> (0xE000 \<le> c \<and> c \<le> 0x10FFFF)"

section \<open>Reading one code point\<close>

text \<open>The fall-through cases 2 and 1 of the decoder: \<open>n\<close> trail bytes are shifted into the code
  point, and a byte that is no trail byte makes the sequence illegal.\<close>

fun read_trails :: "byte list \<Rightarrow> nat \<Rightarrow> nat \<Rightarrow> wchar \<Rightarrow> bool \<Rightarrow> wchar \<times> nat \<times> bool" where
  "read_trails s i 0 c illegal = (c, i, illegal)"
| "read_trails s i (Suc n) c illegal =
     (let trail = s ! i in
      read_trails s (i + 1) n (push_bit 6 c OR ucast (trail AND 0x3F))
        (illegal \<or> (trail AND 0xC0) XOR 0x80 \<noteq> 0))"

definition read_sequence :: "byte list \<Rightarrow> nat \<Rightarrow> nat \<Rightarrow> wchar \<Rightarrow> wchar \<times> nat \<times> bool" where
  "read_sequence s i n c =
     (if 4 \<le> n then (c, i, True)
      else if n = 3 then
        (let trail = s ! i; c' = push_bit 6 c OR ucast (trail AND 0x3F) in
         if c' < 0x110 then read_trails s (i + 1) 2 c' ((trail AND 0xC0) XOR 0x80 \<noteq> 0)
         else (c', i + 1, True))
      else read_trails s i n c False)"

text \<open>The number of trail bytes at \<open>i\<close>, at most \<open>n\<close>.\<close>

fun trail_run :: "byte list \<Rightarrow> nat \<Rightarrow> nat \<Rightarrow> nat" where
  "trail_run s i 0 = 0"
| "trail_run s i (Suc n) = (if CBU8_IS_TRAIL (s ! i) then Suc (trail_run s (i + 1) n) else 0)"

definition utf8_nextCharSafeBody :: "byte list \<Rightarrow> nat \<Rightarrow> wchar \<Rightarrow> int \<Rightarrow> wchar \<times> nat" where
  "utf8_nextCharSafeBody s i c strict =
     (let n = utf8_countTrailBytes (ucast c) in
      if i + n \<le> length s then
        (let c = c AND (push_bit (6 - n) 1 - 1) in
         if n = 0 then (if 0 \<le> strict then 0x15 else CBU_SENTINEL, i)
         else
           (let (c, j, illegal) = read_sequence s i n c in
            if illegal \<or> c < utf8_minLegal ! n \<or> (CBU_IS_SURROGATE c \<and> strict \<noteq> -2) then
              (let k = trail_run s i n in
               (if 0 \<le> strict then utf8_errorValue ! k else CBU_SENTINEL, i + k))
            else if 0 < strict \<and> CBU_IS_UNICODE_NONCHAR c then (utf8_errorValue ! n, j)
            else (c, j)))
      else
        (let k = trail_run s i (length s - i) in
         (if 0 \<le> strict then utf8_errorValue ! k else CBU_SENTINEL, i + k)))"

definition CBU8_NEXT :: "byte list \<Rightarrow> nat \<Rightarrow> wchar \<times> nat" where
  "CBU8_NEXT s i =
     (let c = scast (s ! i) in
      if (ucast c :: byte) \<ge> 0x80 then
        (if CBU8_IS_LEAD c then utf8_nextCharSafeBody s (i + 1) c (-1)
         else (CBU_SENTINEL, i + 1))
      else (c, i + 1))"

text \<open>\<^verbatim>\<open>ReadUnicodeCharacter\<close>: success, the code point, and the index of the last unit read.\<close>

definition ReadUnicodeCharacter :: "byte list \<Rightarrow> nat \<Rightarrow> bool \<times> wchar \<times> nat" where
  "ReadUnicodeCharacter s i = (let (c, j) = CBU8_NEXT s i in (IsValidCodepoint c, c, j - 1))"

definition ReadUnicodeCharacterWide :: "wstring \<Rightarrow> nat \<Rightarrow> bool \<times> wchar \<times> nat" where
  "ReadUnicodeCharacterWide s i =
     (if CBU_IS_SURROGATE (s ! i) then
        (if \<not> CBU16_IS_SURROGATE_LEAD (s ! i) \<or> length s \<le> i + 1 \<or> \<not> CBU16_IS_TRAIL (s ! (i + 1))
         then (False, 0, i)
         else (let c = CBU16_GET_SUPPLEMENTARY (s ! i) (s ! (i + 1)) in
               (IsValidCodepoint c, c, i + 1)))
      else (IsValidCodepoint (s ! i), s ! i, i))"

section \<open>Writing one code point\<close>

definition CBU8_APPEND_UNSAFE :: "wchar \<Rightarrow> byte list" where
  "CBU8_APPEND_UNSAFE c =
     (if c \<le> 0x7F then [ucast c]
      else if c \<le> 0x7FF then [ucast (drop_bit 6 c OR 0xC0), ucast ((c AND 0x3F) OR 0x80)]
      else if c \<le> 0xFFFF then
        [ucast (drop_bit 12 c OR 0xE0), ucast ((drop_bit 6 c AND 0x3F) OR 0x80),
         ucast ((c AND 0x3F) OR 0x80)]
      else
        [ucast (drop_bit 18 c OR 0xF0), ucast ((drop_bit 12 c AND 0x3F) OR 0x80),
         ucast ((drop_bit 6 c AND 0x3F) OR 0x80), ucast ((c AND 0x3F) OR 0x80)])"

definition WriteUnicodeCharacter :: "wchar \<Rightarrow> byte list" where
  "WriteUnicodeCharacter c = (if c \<le> 0x7F then [ucast c] else CBU8_APPEND_UNSAFE c)"

definition CBU16_APPEND_UNSAFE :: "wchar \<Rightarrow> wstring" where
  "CBU16_APPEND_UNSAFE c =
     (if c \<le> 0xFFFF then [ucast (ucast c :: int16)]
      else [ucast (ucast (drop_bit 10 c + 0xD7C0) :: int16),
            ucast (ucast ((c AND 0x3FF) OR 0xDC00) :: int16)])"

definition WriteUnicodeCharacterWide :: "wchar \<Rightarrow> wstring" where
  "WriteUnicodeCharacterWide c = (if c \<le> 0xFFFF then [c] else CBU16_APPEND_UNSAFE c)"

section \<open>Whole strings\<close>

lemma trail_run_le: "trail_run s i n \<le> n"
  by (induction s i n rule: trail_run.induct) auto

lemma read_trails_pos: "read_trails s i n c b = (c', j, b') \<Longrightarrow> j = i + n"
  by (induction s i n c b rule: read_trails.induct) (auto simp: Let_def)

lemma read_sequence_pos: "read_sequence s i n c = (c', j, b) \<Longrightarrow> i \<le> j"
  by (auto simp: read_sequence_def Let_def dest!: read_trails_pos split: if_splits)

lemma nextChar_pos: "utf8_nextCharSafeBody s i c k = (c', j) \<Longrightarrow> i \<le> j"
  by (auto simp: utf8_nextCharSafeBody_def Let_def dest!: read_sequence_pos
      split: if_splits prod.splits)

lemma CBU8_NEXT_pos: "CBU8_NEXT s i = (c, j) \<Longrightarrow> i < j"
  by (auto simp: CBU8_NEXT_def Let_def dest!: nextChar_pos split: if_splits)

lemma ReadUnicodeCharacter_pos: "ReadUnicodeCharacter s i = (b, c, j) \<Longrightarrow> i \<le> j"
  by (auto simp: ReadUnicodeCharacter_def dest!: CBU8_NEXT_pos split: prod.splits)

lemma ReadUnicodeCharacterWide_pos: "ReadUnicodeCharacterWide s i = (b, c, j) \<Longrightarrow> i \<le> j"
  by (auto simp: ReadUnicodeCharacterWide_def Let_def split: if_splits)

function utf8_to_wide :: "byte list \<Rightarrow> nat \<Rightarrow> wstring" where
  "utf8_to_wide s i =
     (if i < length s then
        (case ReadUnicodeCharacter s i of (ok, c, j) \<Rightarrow>
           WriteUnicodeCharacterWide (if ok then c else 0xFFFD) @ utf8_to_wide s (j + 1))
      else [])"
  by pat_completeness auto
termination
  by (relation "measure (\<lambda>(s, i). length s - i)") (auto dest!: sym [THEN ReadUnicodeCharacter_pos])

function wide_to_utf8 :: "wstring \<Rightarrow> nat \<Rightarrow> byte list" where
  "wide_to_utf8 s i =
     (if i < length s then
        (case ReadUnicodeCharacterWide s i of (ok, c, j) \<Rightarrow>
           WriteUnicodeCharacter (if ok then c else 0xFFFD) @ wide_to_utf8 s (j + 1))
      else [])"
  by pat_completeness auto
termination
  by (relation "measure (\<lambda>(s, i). length s - i)")
    (auto dest!: sym [THEN ReadUnicodeCharacterWide_pos])

declare utf8_to_wide.simps [simp del] wide_to_utf8.simps [simp del]

definition UTF8ToWide :: "byte list \<Rightarrow> wstring" where
  "UTF8ToWide s = utf8_to_wide s 0"

definition WideToUTF8 :: "wstring \<Rightarrow> byte list" where
  "WideToUTF8 s = wide_to_utf8 s 0"

text \<open>\<^verbatim>\<open>WideToASCII\<close> keeps the low byte of every unit, \<^verbatim>\<open>ASCIIToWide\<close> extends the sign of every
  \<^verbatim>\<open>char\<close>.\<close>

definition WideToASCII :: "wstring \<Rightarrow> byte list" where
  "WideToASCII s = map ucast s"

definition ASCIIToWide :: "byte list \<Rightarrow> wstring" where
  "ASCIIToWide s = map scast s"

end
