(* ===== verification/UnicodeText.thy ===== *)
theory UnicodeText
  imports Unicode
begin

text \<open>
  What the conversions of \<^verbatim>\<open>Unicode\<close> do to text.  \<open>utf8_text\<close> and \<open>utf16_text\<close> are the
  encodings of a list of code points; the decoder finds every encoded code point and where it
  ends, so each conversion takes one encoding to the other, and converting any bytes at all to
  wide and back yields well-formed UTF-8.
\<close>

section \<open>Facts about bytes, checked one by one\<close>

lemma byte_all: "list_all P (map word_of_nat [0..<256]) \<Longrightarrow> P (b :: byte)"
proof -
  assume "list_all P (map word_of_nat [0..<256])"
  moreover have "b = word_of_nat (unat b)" "unat b < 256" using unsigned_less [of b] by simp_all
  ultimately show ?thesis by (metis (no_types, lifting) Ball_set atLeastLessThan_iff image_eqI
      list.set_map set_upt zero_le)
qed

lemma bits_below:
  assumes "unat (c :: 'a::len word) < 2 ^ k" "bit c n" shows "n < k"
proof -
  have "take_bit k (unat c) = unat c" using assms by (simp add: take_bit_nat_eq_self)
  moreover have "bit (unat c) n" using assms(2) by (simp add: bit_unsigned_iff)
  ultimately show ?thesis by (metis bit_take_bit_iff)
qed

lemma numeral_bits:
  "bit (0x3F :: int) n \<longleftrightarrow> n < 6"
  "bit (0x80 :: int) n \<longleftrightarrow> n = 7"
  "bit (0xC0 :: int) n \<longleftrightarrow> n = 6 \<or> n = 7"
  "bit (0xE0 :: int) n \<longleftrightarrow> 5 \<le> n \<and> n < 8"
  "bit (0xF0 :: int) n \<longleftrightarrow> 4 \<le> n \<and> n < 8"
  "bit (0xF8 :: int) n \<longleftrightarrow> 3 \<le> n \<and> n < 8"
  "bit (7 :: int) n \<longleftrightarrow> n < 3"
  "bit (0xF :: int) n \<longleftrightarrow> n < 4"
  "bit (0x1F :: int) n \<longleftrightarrow> n < 5"
proof -
  have m: "bit (push_bit k (mask l) :: int) n \<longleftrightarrow> k \<le> n \<and> n < k + l" for k l
    by (auto simp: bit_push_bit_iff bit_mask_iff)
  show "bit (0x3F :: int) n \<longleftrightarrow> n < 6"
    using m [of 0 6] by (auto simp: mask_eq_exp_minus_1 push_bit_eq_mult)
  show "bit (0x80 :: int) n \<longleftrightarrow> n = 7"
    using m [of 7 1] by (auto simp: mask_eq_exp_minus_1 push_bit_eq_mult)
  show "bit (0xC0 :: int) n \<longleftrightarrow> n = 6 \<or> n = 7"
    using m [of 6 2] by (auto simp: mask_eq_exp_minus_1 push_bit_eq_mult)
  show "bit (0xE0 :: int) n \<longleftrightarrow> 5 \<le> n \<and> n < 8"
    using m [of 5 3] by (auto simp: mask_eq_exp_minus_1 push_bit_eq_mult)
  show "bit (0xF0 :: int) n \<longleftrightarrow> 4 \<le> n \<and> n < 8"
    using m [of 4 4] by (auto simp: mask_eq_exp_minus_1 push_bit_eq_mult)
  show "bit (0xF8 :: int) n \<longleftrightarrow> 3 \<le> n \<and> n < 8"
    using m [of 3 5] by (auto simp: mask_eq_exp_minus_1 push_bit_eq_mult)
  show "bit (7 :: int) n \<longleftrightarrow> n < 3"
    using m [of 0 3] by (auto simp: mask_eq_exp_minus_1 push_bit_eq_mult)
  show "bit (0xF :: int) n \<longleftrightarrow> n < 4"
    using m [of 0 4] by (auto simp: mask_eq_exp_minus_1 push_bit_eq_mult)
  show "bit (0x1F :: int) n \<longleftrightarrow> n < 5"
    using m [of 0 5] by (auto simp: mask_eq_exp_minus_1 push_bit_eq_mult)
qed

lemma lead_bytes:
  "b AND 0xE0 = 0xC0 \<Longrightarrow> 0x80 \<le> b \<and> utf8_countTrailBytes b = 1 \<and> b - 0xC0 < 0x3E"
  "b AND 0xF0 = 0xE0 \<Longrightarrow> 0x80 \<le> b \<and> utf8_countTrailBytes b = 2 \<and> b - 0xC0 < 0x3E"
  "b AND 0xF8 = 0xF0 \<Longrightarrow> 0x80 \<le> b \<and> utf8_countTrailBytes b = 3 \<and> b - 0xC0 < 0x3E"
proof -
  have "list_all (\<lambda>b.
      (b AND 0xE0 = 0xC0 \<longrightarrow> 0x80 \<le> b \<and> utf8_countTrailBytes b = 1 \<and> b - 0xC0 < 0x3E) \<and>
      (b AND 0xF0 = 0xE0 \<longrightarrow> 0x80 \<le> b \<and> utf8_countTrailBytes b = 2 \<and> b - 0xC0 < 0x3E) \<and>
      (b AND 0xF8 = 0xF0 \<longrightarrow> 0x80 \<le> b \<and> utf8_countTrailBytes b = 3 \<and> b - 0xC0 < 0x3E))
      (map word_of_nat [0..<256])"
    by code_simp
  from byte_all [OF this, of b] show
  "b AND 0xE0 = 0xC0 \<Longrightarrow> 0x80 \<le> b \<and> utf8_countTrailBytes b = 1 \<and> b - 0xC0 < 0x3E"
  "b AND 0xF0 = 0xE0 \<Longrightarrow> 0x80 \<le> b \<and> utf8_countTrailBytes b = 2 \<and> b - 0xC0 < 0x3E"
  "b AND 0xF8 = 0xF0 \<Longrightarrow> 0x80 \<le> b \<and> utf8_countTrailBytes b = 3 \<and> b - 0xC0 < 0x3E" by blast+
qed

lemma append_lead:
  "\<forall>n. bit c n \<longrightarrow> n < 11 \<Longrightarrow> ucast (drop_bit 6 c OR 0xC0) AND (0xE0 :: byte) = 0xC0"
  "\<forall>n. bit c n \<longrightarrow> n < 16 \<Longrightarrow> ucast (drop_bit 12 c OR 0xE0) AND (0xF0 :: byte) = 0xE0"
  "\<forall>n. bit c n \<longrightarrow> n < 21 \<Longrightarrow> ucast (drop_bit 18 c OR 0xF0) AND (0xF8 :: byte) = 0xF0" for c :: wchar
  subgoal by (rule bit_word_eqI) (fastforce simp: bit_simps numeral_bits)
  subgoal by (rule bit_word_eqI) (fastforce simp: bit_simps numeral_bits)
  subgoal by (rule bit_word_eqI) (fastforce simp: bit_simps numeral_bits)
  done

lemma trail_byte: "(ucast ((c AND 0x3F) OR 0x80) :: byte) AND 0xC0 = 0x80"
  "ucast ((ucast ((c AND 0x3F) OR 0x80) :: byte) AND 0x3F) = c AND 0x3F" for c :: wchar
  subgoal by (rule bit_word_eqI) (auto simp: bit_simps numeral_bits)
  subgoal by (rule bit_word_eqI) (auto simp: bit_simps numeral_bits)
  done

lemma lead_value:
  "\<forall>n. bit c n \<longrightarrow> n < 11 \<Longrightarrow> scast (ucast (drop_bit 6 c OR 0xC0) :: byte) AND 0x1F = drop_bit 6 c"
  "\<forall>n. bit c n \<longrightarrow> n < 16 \<Longrightarrow> scast (ucast (drop_bit 12 c OR 0xE0) :: byte) AND 0xF = drop_bit 12 c"
  "\<forall>n. bit c n \<longrightarrow> n < 21 \<Longrightarrow> scast (ucast (drop_bit 18 c OR 0xF0) :: byte) AND 7 = drop_bit 18 c" for c :: wchar
  subgoal by (rule bit_word_eqI) (fastforce simp: bit_simps numeral_bits)
  subgoal by (rule bit_word_eqI) (fastforce simp: bit_simps numeral_bits)
  subgoal by (rule bit_word_eqI) (fastforce simp: bit_simps numeral_bits)
  done

lemma join:
  "push_bit 6 (drop_bit 6 c) OR (c AND 0x3F) = c"
  "push_bit 6 (drop_bit 12 c) OR (drop_bit 6 c AND 0x3F) = drop_bit 6 c"
  "push_bit 6 (drop_bit 18 c) OR (drop_bit 12 c AND 0x3F) = drop_bit 12 c" for c :: wchar
  subgoal by (rule bit_word_eqI) (auto simp: bit_simps numeral_bits)
  subgoal by (rule bit_word_eqI) (auto simp: bit_simps numeral_bits)
  subgoal by (rule bit_word_eqI) (auto simp: bit_simps numeral_bits)
  done

section \<open>Code points and UTF-16 units\<close>


lemma unat_bound: "unat (c :: wchar) < 2 ^ 32"
proof -
  have "unat c < 2 ^ LENGTH(32)" by (rule unsigned_less)
  then show ?thesis by simp
qed

lemma take_bit_unat [simp]: "take_bit 32 (unat (c :: wchar)) = unat c"
  using unat_bound [of c] by (rule take_bit_nat_eq_self)

lemma unat_high_bits:
  "unat (c AND 0xFFFFF800) = unat c div 2048 * 2048" "unat (c AND 0xFFFFFC00) = unat c div 1024 * 1024" for c :: wchar
proof -
  have "unat (c AND NOT (mask n)) = unat c div 2 ^ n * 2 ^ n" for n
  proof -
    have "c AND NOT (mask n) = push_bit n (drop_bit n c)"
      by (rule bit_word_eqI) (auto simp: bit_simps)
    then have "unat (c AND NOT (mask n)) = take_bit 32 (unat c div 2 ^ n * 2 ^ n)"
      by (simp only: unsigned_push_bit_eq unsigned_drop_bit_eq) (simp add: push_bit_eq_mult drop_bit_eq_div)
    also have "\<dots> = unat c div 2 ^ n * 2 ^ n"
    proof (rule take_bit_nat_eq_self)
      show "unat c div 2 ^ n * 2 ^ n < 2 ^ 32"
        using unat_bound [of c] by (rule le_less_trans [rotated]) simp
    qed
    finally show ?thesis .
  qed
  note n = this
  have m: "(0xFFFFF800 :: wchar) = - 2048" "(0xFFFFFC00 :: wchar) = - 1024" by simp_all
  from n [of 11] n [of 10] show
    "unat (c AND 0xFFFFF800) = unat c div 2048 * 2048" "unat (c AND 0xFFFFFC00) = unat c div 1024 * 1024"
    by (simp_all add: mask_eq_exp_minus_1 not_eq_complement m)
qed

lemma surrogate_iff: "CBU_IS_SURROGATE c \<longleftrightarrow> 0xD800 \<le> unat c \<and> unat c < 0xE000"
proof -
  have "CBU_IS_SURROGATE c \<longleftrightarrow> unat (c AND 0xFFFFF800) = 0xD800"
    by (simp add: CBU_IS_SURROGATE_def word_unat_eq_iff)
  then show ?thesis unfolding unat_high_bits by auto
qed
lemma trail_iff: "CBU16_IS_TRAIL c \<longleftrightarrow> 0xDC00 \<le> unat c \<and> unat c < 0xE000"
proof -
  have "CBU16_IS_TRAIL c \<longleftrightarrow> unat (c AND 0xFFFFFC00) = 0xDC00"
    by (simp add: CBU16_IS_TRAIL_def word_unat_eq_iff)
  then show ?thesis unfolding unat_high_bits by auto
qed
lemma lead_iff: "CBU16_IS_SURROGATE_LEAD c \<longleftrightarrow> even (unat c div 1024)"
proof -
  have "CBU16_IS_SURROGATE_LEAD c \<longleftrightarrow> \<not> bit c 10"
    using and_exp_eq_0_iff_not_bit [of c 10] by (simp add: CBU16_IS_SURROGATE_LEAD_def)
  also have "bit c 10 \<longleftrightarrow> bit (unat c) 10" by (simp add: bit_unsigned_iff)
  finally show ?thesis by (simp add: bit_iff_odd)
qed
lemma valid_iff: "IsValidCodepoint c \<longleftrightarrow> unat c < 0xD800 \<or> (0xE000 \<le> unat c \<and> unat c \<le> 0x10FFFF)"
  by (simp add: IsValidCodepoint_def word_less_nat_alt word_le_nat_alt)

lemma WriteUnicodeCharacter_append: "WriteUnicodeCharacter c = CBU8_APPEND_UNSAFE c"
  by (simp add: WriteUnicodeCharacter_def CBU8_APPEND_UNSAFE_def)

lemma located_length:
  assumes "drop i s = xs @ ys" "xs \<noteq> []"
  shows "i + length xs \<le> length s"
proof -
  have "length s - i = length xs + length ys" using arg_cong [OF assms(1), of length] by simp
  moreover have "0 < length xs" using assms(2) by simp
  ultimately show ?thesis by linarith
qed

lemma located:
  assumes "drop i s = xs @ ys" "k < length xs"
  shows "s ! (i + k) = xs ! k"
proof -
  have "i \<le> length s" using located_length [OF assms(1)] assms(2) by (cases xs) auto
  then have "s ! (i + k) = (xs @ ys) ! k" using nth_drop [of i s k] assms(1) by simp
  with assms(2) show ?thesis by (simp add: nth_append)
qed

lemma byte_signed: "ucast (scast b :: wchar) = (b :: byte)" "ucast ((scast b :: wchar) - 0xC0) = (b :: byte) - 0xC0"
proof -
  have "list_all (\<lambda>b :: byte. ucast (scast b :: wchar) = b \<and> ucast ((scast b :: wchar) - 0xC0) = b - 0xC0)
    (map word_of_nat [0..<256])" by code_simp
  from byte_all [OF this, of b] show "ucast (scast b :: wchar) = (b :: byte)" "ucast ((scast b :: wchar) - 0xC0) = (b :: byte) - 0xC0"
    by simp_all
qed

lemma CBU8_NEXT_multi:
  assumes "b AND 0xE0 = 0xC0 \<and> n = 1 \<or> b AND 0xF0 = 0xE0 \<and> n = 2 \<or> b AND 0xF8 = 0xF0 \<and> n = 3"
    and "s ! i = b" and "i + 1 + n \<le> length s"
    and "read_sequence s (i + 1) n (scast b AND (push_bit (6 - n) 1 - 1)) = (c, j, False)"
    and "IsValidCodepoint c" "unat (utf8_minLegal ! n) \<le> unat c" "n < 4"
  shows "CBU8_NEXT s i = (c, j)"
proof -
  note u = byte_signed [of b]
  have b: "0x80 \<le> b" "utf8_countTrailBytes b = n" "b - 0xC0 < 0x3E"
    using assms(1) lead_bytes [of b] by auto
  have l: "\<not> c < utf8_minLegal ! n"
  proof -
    have "n = 0 \<or> n = 1 \<or> n = 2 \<or> n = 3" using assms(7) by linarith
    then have "unat (utf8_minLegal ! n) < 2 ^ 31" by (auto simp: utf8_minLegal_def)
    moreover have "unat c < 2 ^ 31" using assms(5) by (auto simp: valid_iff)
    ultimately show ?thesis using assms(6) by (simp add: word_less_nat_alt)
  qed
  have "\<not> CBU_IS_SURROGATE c" using assms(5) by (auto simp: surrogate_iff valid_iff)
  with b u l assms(2,3,4) assms(1) show ?thesis
    by (auto simp: CBU8_NEXT_def CBU8_IS_LEAD_def utf8_nextCharSafeBody_def Let_def)
qed

section \<open>Decoding what was encoded\<close>

declare read_trails.simps(2) [simp del]

lemma read_trail:
  fixes x :: wchar
  assumes "drop i s = ucast ((x AND 0x3F) OR 0x80) # r"
  shows "read_trails s i (Suc n) c b = read_trails s (i + 1) n (push_bit 6 c OR (x AND 0x3F)) b"
    and "s ! i = ucast ((x AND 0x3F) OR 0x80)"
    and "drop (i + 1) s = r"
proof -
  show i: "s ! i = ucast ((x AND 0x3F) OR 0x80)"
    using located [of i s "[ucast ((x AND 0x3F) OR 0x80)]" r 0] assms by simp
  show "drop (i + 1) s = r" using assms drop_drop [of 1 i s] by simp
  show "read_trails s i (Suc n) c b = read_trails s (i + 1) n (push_bit 6 c OR (x AND 0x3F)) b"
    using i by (simp add: read_trails.simps(2) Let_def trail_byte)
qed

lemma CBU8_NEXT_two:
  assumes "drop i s = CBU8_APPEND_UNSAFE c @ r" and "0x7F < unat c" "unat c \<le> 0x7FF"
  shows "CBU8_NEXT s i = (c, i + 2)"
proof -
  let ?b = "ucast (drop_bit 6 c OR 0xC0) :: byte"
  have s: "drop i s = ?b # ucast ((c AND 0x3F) OR 0x80) # r"
    using assms by (simp add: CBU8_APPEND_UNSAFE_def word_le_nat_alt)
  have bits: "\<forall>n. bit c n \<longrightarrow> n < 11" using bits_below [of c 11] assms(3) by simp
  have s1: "drop (i + 1) s = ucast ((c AND 0x3F) OR 0x80) # r" using s drop_drop [of 1 i s] by simp
  have v: "IsValidCodepoint c" using assms by (simp add: valid_iff)
  show ?thesis
  proof (rule CBU8_NEXT_multi [where n = 1 and b = ?b])
    show "s ! i = ?b" using located [of i s "[?b]" _ 0] s by simp
    show "i + 1 + 1 \<le> length s" using located_length [of i s "[?b, ucast ((c AND 0x3F) OR 0x80)]" r] s by simp
    show "read_sequence s (i + 1) 1 (scast ?b AND (push_bit (6 - 1) 1 - 1)) = (c, i + 2, False)"
      using read_trail(1) [OF s1, of 0 "drop_bit 6 c" False, unfolded join] lead_value(1) [OF bits]
      by (simp add: read_sequence_def)
  qed (use assms v append_lead(1) [OF bits] in \<open>simp_all add: utf8_minLegal_def\<close>)
qed

lemma CBU8_NEXT_three:
  assumes "drop i s = CBU8_APPEND_UNSAFE c @ r" and "0x7FF < unat c" "unat c \<le> 0xFFFF" and v: "IsValidCodepoint c"
  shows "CBU8_NEXT s i = (c, i + 3)"
proof -
  let ?b = "ucast (drop_bit 12 c OR 0xE0) :: byte"
  let ?t = "\<lambda>x :: wchar. ucast ((x AND 0x3F) OR 0x80) :: byte"
  have s: "drop i s = ?b # ?t (drop_bit 6 c) # ?t c # r"
    using assms by (simp add: CBU8_APPEND_UNSAFE_def word_le_nat_alt)
  have bits: "\<forall>n. bit c n \<longrightarrow> n < 16" using bits_below [of c 16] assms(3) by simp
  have s1: "drop (i + 1) s = ?t (drop_bit 6 c) # ?t c # r" using s drop_drop [of 1 i s] by simp
  note r1 = read_trail [OF s1]
  show ?thesis
  proof (rule CBU8_NEXT_multi [where n = 2 and b = ?b])
    show "s ! i = ?b" using located [of i s "[?b]" _ 0] s by simp
    show "i + 1 + 2 \<le> length s" using located_length [of i s "[?b, ?t (drop_bit 6 c), ?t c]" r] s by simp
    show "read_sequence s (i + 1) 2 (scast ?b AND (push_bit (6 - 2) 1 - 1)) = (c, i + 3, False)"
      using r1(1) [of 1 "drop_bit 12 c" False, unfolded join] lead_value(2) [OF bits]
        read_trail(1) [OF r1(3), of 0 "drop_bit 6 c" False, unfolded join]
      by (simp add: read_sequence_def numeral_2_eq_2)
  qed (use assms v append_lead(2) [OF bits] in \<open>simp_all add: utf8_minLegal_def\<close>)
qed

lemma CBU8_NEXT_four:
  assumes "drop i s = CBU8_APPEND_UNSAFE c @ r" and "0xFFFF < unat c" and v: "IsValidCodepoint c"
  shows "CBU8_NEXT s i = (c, i + 4)"
proof -
  let ?b = "ucast (drop_bit 18 c OR 0xF0) :: byte"
  let ?t = "\<lambda>x :: wchar. ucast ((x AND 0x3F) OR 0x80) :: byte"
  have s: "drop i s = ?b # ?t (drop_bit 12 c) # ?t (drop_bit 6 c) # ?t c # r"
    using assms by (simp add: CBU8_APPEND_UNSAFE_def word_le_nat_alt)
  have c: "unat c \<le> 0x10FFFF" using v assms(2) by (auto simp: valid_iff)
  have bits: "\<forall>n. bit c n \<longrightarrow> n < 21" using bits_below [of c 21] c by simp
  have s1: "drop (i + 1) s = ?t (drop_bit 12 c) # ?t (drop_bit 6 c) # ?t c # r"
    using s drop_drop [of 1 i s] by simp
  note r1 = read_trail [OF s1]
  note r2 = read_trail [OF r1(3)]
  have small: "drop_bit 12 c < 0x110"
  proof -
    have "unat (drop_bit 12 c) = unat c div 4096" by (subst unsigned_drop_bit_eq) (simp add: drop_bit_eq_div take_bit_nat_eq_self unat_bound)
    with c show ?thesis by (subst word_less_nat_alt) auto
  qed
  show ?thesis
  proof (rule CBU8_NEXT_multi [where n = 3 and b = ?b])
    show "s ! i = ?b" using located [of i s "[?b]" _ 0] s by simp
    show "i + 1 + 3 \<le> length s"
      using located_length [of i s "[?b, ?t (drop_bit 12 c), ?t (drop_bit 6 c), ?t c]" r] s by simp
    show "read_sequence s (i + 1) 3 (scast ?b AND (push_bit (6 - 3) 1 - 1)) = (c, i + 4, False)"
      using r1(2) r2(1) [of 1 "drop_bit 12 c" False, unfolded join] lead_value(3) [OF bits] small
        read_trail(1) [OF r2(3), of 0 "drop_bit 6 c" False, unfolded join] join(3) [of c]
      by (simp add: read_sequence_def numeral_2_eq_2 trail_byte Let_def)
  qed (use assms c v append_lead(3) [OF bits] in \<open>simp_all add: utf8_minLegal_def\<close>)
qed

lemma CBU8_NEXT_one:
  assumes "drop i s = b # r" and "b < 0x80"
  shows "CBU8_NEXT s i = (ucast b, i + 1)"
proof -
  have i: "s ! i = b" using located [of i s "[b]" r 0] assms by simp
  have "list_all (\<lambda>b :: byte. b < 0x80 \<longrightarrow> scast b = (ucast b :: wchar) \<and>
      (ucast (ucast b :: wchar) :: byte) = b) (map word_of_nat [0..<256])"
    by code_simp
  with byte_all [OF this, of b] assms(2) i show ?thesis
    by (auto simp: CBU8_NEXT_def Let_def dest: leD)
qed

lemma CBU8_NEXT_encoded:
  assumes "IsValidCodepoint c" and s: "drop i s = CBU8_APPEND_UNSAFE c @ r"
  shows "CBU8_NEXT s i = (c, i + length (CBU8_APPEND_UNSAFE c))"
proof -
  consider "unat c \<le> 0x7F" | "0x7F < unat c" "unat c \<le> 0x7FF" | "0x7FF < unat c" "unat c \<le> 0xFFFF"
    | "0xFFFF < unat c" by linarith
  then show ?thesis
  proof cases
    case 1
    then have "unat (ucast c :: byte) = unat c"
      by (simp add: unsigned_ucast_eq unsigned_take_bit_eq take_bit_nat_eq_self)
    then have "(ucast c :: byte) < 0x80" "ucast (ucast c :: byte) = c"
      using 1 by (simp_all add: word_less_nat_alt word_unat_eq_iff unsigned_ucast_eq unsigned_take_bit_eq take_bit_nat_eq_self)
    with 1 s CBU8_NEXT_one [of i s "ucast c" r] show ?thesis
      by (simp add: CBU8_APPEND_UNSAFE_def word_le_nat_alt)
  next
    case 2
    with CBU8_NEXT_two [OF s] show ?thesis by (simp add: CBU8_APPEND_UNSAFE_def word_le_nat_alt)
  next
    case 3
    with CBU8_NEXT_three [OF s] assms(1) show ?thesis
      by (simp add: CBU8_APPEND_UNSAFE_def word_le_nat_alt)
  next
    case 4
    with CBU8_NEXT_four [OF s] assms(1) show ?thesis
      by (simp add: CBU8_APPEND_UNSAFE_def word_le_nat_alt)
  qed
qed

section \<open>Text\<close>

definition utf8_text :: "wchar list \<Rightarrow> byte list" where
  "utf8_text cs = concat (map CBU8_APPEND_UNSAFE cs)"

definition utf16_text :: "wchar list \<Rightarrow> wstring" where
  "utf16_text cs = concat (map WriteUnicodeCharacterWide cs)"

lemma text_simps [simp]:
  "utf8_text [] = []" "utf8_text (c # cs) = CBU8_APPEND_UNSAFE c @ utf8_text cs"
  "utf16_text [] = []" "utf16_text (c # cs) = WriteUnicodeCharacterWide c @ utf16_text cs"
  "utf8_text (cs @ ds) = utf8_text cs @ utf8_text ds" "utf16_text (cs @ ds) = utf16_text cs @ utf16_text ds"
  by (simp_all add: utf8_text_def utf16_text_def)

lemma append_nonempty [simp]: "CBU8_APPEND_UNSAFE c \<noteq> []" "WriteUnicodeCharacterWide c \<noteq> []"
  by (simp_all add: CBU8_APPEND_UNSAFE_def WriteUnicodeCharacterWide_def CBU16_APPEND_UNSAFE_def)

lemma utf8_to_wide_prefix:
  "\<forall>c\<in>set cs. IsValidCodepoint c \<Longrightarrow> drop i s = utf8_text cs @ r \<Longrightarrow>
   utf8_to_wide s i = utf16_text cs @ utf8_to_wide s (i + length (utf8_text cs))"
proof (induction cs arbitrary: i)
  case (Cons c cs)
  then have s: "drop i s = CBU8_APPEND_UNSAFE c @ utf8_text cs @ r" by simp
  let ?n = "length (CBU8_APPEND_UNSAFE c)"
  have n: "0 < ?n" by simp
  have "i + ?n \<le> length s" using located_length [OF s] by simp
  moreover have "drop (i + ?n) s = utf8_text cs @ r"
    using arg_cong [OF s, of "drop ?n"] by (simp add: drop_drop add.commute)
  moreover have "i < length s" using n calculation(1) by linarith
  ultimately show ?case
    using Cons CBU8_NEXT_encoded [OF _ s]
    by (subst utf8_to_wide.simps) (simp add: ReadUnicodeCharacter_def add.assoc)
qed simp

lemma utf8_to_wide_text:
  "\<forall>c\<in>set cs. IsValidCodepoint c \<Longrightarrow> drop i s = utf8_text cs \<Longrightarrow> utf8_to_wide s i = utf16_text cs"
proof -
  assume c: "\<forall>c\<in>set cs. IsValidCodepoint c" and d: "drop i s = utf8_text cs"
  from d have "length s - i = length (utf8_text cs)" by (metis length_drop)
  then have "length s \<le> i + length (utf8_text cs)" by simp
  then have "utf8_to_wide s (i + length (utf8_text cs)) = []" by (subst utf8_to_wide.simps) simp
  with utf8_to_wide_prefix [of cs i s "[]"] c d show ?thesis by simp
qed

lemma lead_unit:
  fixes c :: wchar
  assumes "unat c \<le> 0x10FFFF"
  shows "ucast (ucast (drop_bit 10 c + 0xD7C0) :: int16) = (of_nat (unat c div 1024) + 0xD7C0 :: wchar)"
proof -
  let ?q = "unat c div 1024"
  have q: "?q \<le> 0x43F" using assms by auto
  have "drop_bit 10 c = of_nat ?q"
    using q by (simp add: word_unat_eq_iff unsigned_of_nat take_bit_nat_eq_self)
       (subst unsigned_drop_bit_eq, simp add: drop_bit_eq_div)
  then show ?thesis
    using q by (simp add: word_unat_eq_iff unsigned_ucast_eq unsigned_take_bit_eq unat_word_ariths
        unsigned_of_nat take_bit_nat_eq_self)
qed

lemma trail_unit:
  "ucast (ucast ((c AND 0x3FF) OR 0xDC00) :: int16) = (of_nat (unat c mod 1024) + 0xDC00 :: wchar)"
  for c :: wchar
proof -
  let ?r = "unat c mod 1024"
  have r: "?r < 1024" by simp
  have k: "c AND 0x3FF = of_nat ?r"
  proof -
    have t: "c AND 0x3FF = take_bit 10 c" by (simp add: take_bit_eq_mask mask_eq_exp_minus_1)
    have "unat (c AND 0x3FF) = ?r"
      by (simp only: t unsigned_take_bit_eq) (simp add: take_bit_eq_mod)
    then show ?thesis using r by (simp add: word_unat_eq_iff unsigned_of_nat take_bit_nat_eq_self)
  qed
  have "(c AND 0x3FF) OR 0xDC00 = (c AND 0x3FF) + 0xDC00"
  proof (rule disjunctive_add [symmetric])
    fix n
    have "(0x3FF :: wchar) = mask 10" "(0xDC00 :: wchar) = push_bit 10 0x37"
      by (simp_all add: mask_eq_exp_minus_1 push_bit_eq_mult)
    then show "\<not> bit (c AND 0x3FF) n \<or> \<not> bit (0xDC00 :: wchar) n"
      by (simp only: bit_and_iff bit_mask_iff bit_push_bit_iff) auto
  qed
  then have o: "(c AND 0x3FF) OR 0xDC00 = of_nat (?r + 0xDC00)" by (simp add: k)
  show ?thesis
    unfolding o using r by (simp add: word_unat_eq_iff unsigned_ucast_eq unsigned_take_bit_eq
        unat_word_ariths unsigned_of_nat take_bit_nat_eq_self)
qed

lemma code_point_split: "of_nat (unat c mod 1024) + 1024 * of_nat (unat c div 1024) = (c :: wchar)"
proof -
  have "of_nat (unat c mod 1024) + 1024 * of_nat (unat c div 1024)
      = (of_nat (unat c div 1024 * 1024 + unat c mod 1024) :: wchar)"
    by (simp only: of_nat_add of_nat_mult of_nat_numeral ac_simps)
  also have "\<dots> = c" by (simp only: div_mult_mod_eq) simp
  finally show ?thesis .
qed

lemma read_unit:
  assumes "drop i s = WriteUnicodeCharacterWide c @ r" "IsValidCodepoint c"
  shows "ReadUnicodeCharacterWide s i = (True, c, i + length (WriteUnicodeCharacterWide c) - 1)"
proof (cases "unat c \<le> 0xFFFF")
  case True
  then have "s ! i = c"
    using located [OF assms(1), of 0] by (simp add: WriteUnicodeCharacterWide_def word_le_nat_alt)
  moreover have "\<not> CBU_IS_SURROGATE c" using assms(2) by (auto simp: surrogate_iff valid_iff)
  ultimately show ?thesis using True assms(2)
    by (simp add: ReadUnicodeCharacterWide_def WriteUnicodeCharacterWide_def word_le_nat_alt)
next
  case False
  let ?q = "unat c div 1024" and ?r = "unat c mod 1024"
  let ?l = "of_nat ?q + 0xD7C0 :: wchar" and ?t = "of_nat ?r + 0xDC00 :: wchar"
  from False assms(2) have c: "0xFFFF < unat c" "unat c \<le> 0x10FFFF" by (auto simp: valid_iff)
  then have q: "?q \<le> 0x43F" and r: "?r < 1024" by auto
  have w: "WriteUnicodeCharacterWide c = [?l, ?t]"
    using False c(2) unfolding lead_unit [OF c(2), symmetric] trail_unit [symmetric]
    by (simp add: WriteUnicodeCharacterWide_def CBU16_APPEND_UNSAFE_def word_le_nat_alt)
  have s: "s ! i = ?l" "s ! (i + 1) = ?t" "i + 2 \<le> length s"
    using located [OF assms(1), of 0] located [OF assms(1), of 1] located_length [OF assms(1)] w
    by simp_all
  have g: "CBU16_GET_SUPPLEMENTARY ?l ?t = c"
    by (simp add: CBU16_GET_SUPPLEMENTARY_def push_bit_eq_mult algebra_simps code_point_split)
  have "unat ?l = ?q + 0xD7C0" "unat ?t = ?r + 0xDC00"
    using q r by (simp_all add: unat_word_ariths unsigned_of_nat take_bit_nat_eq_self)
  moreover have "(?q + 0xD7C0) div 1024 = 54" using q c by (intro div_nat_eqI) auto
  ultimately have "CBU_IS_SURROGATE ?l" "CBU16_IS_SURROGATE_LEAD ?l" "CBU16_IS_TRAIL ?t"
    using q r c by (simp_all add: surrogate_iff lead_iff trail_iff)
  then show ?thesis using s g w assms(2) by (simp add: ReadUnicodeCharacterWide_def Let_def)
qed

lemma wide_to_utf8_text:
  "\<forall>c\<in>set cs. IsValidCodepoint c \<Longrightarrow> drop i s = utf16_text cs \<Longrightarrow> wide_to_utf8 s i = utf8_text cs"
proof (induction cs arbitrary: i)
  case Nil
  then show ?case by (simp add: wide_to_utf8.simps)
next
  case (Cons c cs)
  then have s: "drop i s = WriteUnicodeCharacterWide c @ utf16_text cs" by simp
  let ?n = "length (WriteUnicodeCharacterWide c)"
  have n: "0 < ?n" by simp
  have "i + ?n \<le> length s" using located_length [OF s] by simp
  moreover have "drop (i + ?n) s = utf16_text cs"
    using arg_cong [OF s, of "drop ?n"] by (simp add: drop_drop add.commute)
  moreover have "i < length s" using n calculation(1) by linarith
  ultimately show ?case
    using Cons read_unit [OF s]
    by (subst wide_to_utf8.simps) (simp add: WriteUnicodeCharacter_append)
qed

theorem text_survives_conversion:
  assumes "\<forall>c\<in>set cs. IsValidCodepoint c"
  shows "UTF8ToWide (utf8_text cs) = utf16_text cs" and "WideToUTF8 (utf16_text cs) = utf8_text cs"
  using assms utf8_to_wide_text [of cs 0 "utf8_text cs"] wide_to_utf8_text [of cs 0 "utf16_text cs"]
  by (simp_all add: UTF8ToWide_def WideToUTF8_def)

lemma utf8_to_wide_valid: "\<exists>cs. (\<forall>c\<in>set cs. IsValidCodepoint c) \<and> utf8_to_wide s i = utf16_text cs"
proof (induction s i rule: utf8_to_wide.induct)
  case (1 s i)
  show ?case
  proof (cases "i < length s")
    case True
    obtain ok c j where r: "ReadUnicodeCharacter s i = (ok, c, j)" by (cases "ReadUnicodeCharacter s i")
    from 1 [OF True r [symmetric] refl] obtain cs
      where cs: "\<forall>c\<in>set cs. IsValidCodepoint c" "utf8_to_wide s (j + 1) = utf16_text cs" by auto
    let ?c = "if ok then c else 0xFFFD"
    have "IsValidCodepoint ?c" using r by (auto simp: ReadUnicodeCharacter_def IsValidCodepoint_def split: prod.splits)
    with cs True r show ?thesis by (intro exI [of _ "?c # cs"]) (subst utf8_to_wide.simps, simp)
  next
    case False
    then show ?thesis by (intro exI [of _ "[]"]) (subst utf8_to_wide.simps, simp)
  qed
qed

theorem conversion_sanitises:
  "\<exists>cs. (\<forall>c\<in>set cs. IsValidCodepoint c) \<and> UTF8ToWide s = utf16_text cs \<and>
        WideToUTF8 (UTF8ToWide s) = utf8_text cs \<and>
        UTF8ToWide (WideToUTF8 (UTF8ToWide s)) = UTF8ToWide s"
  using utf8_to_wide_valid [of s 0] text_survives_conversion unfolding UTF8ToWide_def by metis

lemma ascii_text:
  assumes "\<forall>b\<in>set s. b < 0x80"
  shows "UTF8ToWide s = map ucast s" "WideToUTF8 (map ucast s) = s"
proof -
  have *: "list_all (\<lambda>b :: byte. b < 0x80 \<longrightarrow> IsValidCodepoint (ucast b) \<and>
      CBU8_APPEND_UNSAFE (ucast b) = [b] \<and> WriteUnicodeCharacterWide (ucast b) = [ucast b]) (map word_of_nat [0..<256])"
    by code_simp
  have b: "\<forall>b\<in>set s. IsValidCodepoint (ucast b) \<and>
      CBU8_APPEND_UNSAFE (ucast b) = [b] \<and> WriteUnicodeCharacterWide (ucast b) = [ucast b]"
    using assms byte_all [OF *] by blast
  then have "utf8_text (map ucast s) = s" "utf16_text (map ucast s) = map ucast s"
    by (induction s) auto
  with b text_survives_conversion [of "map ucast s"]
  show "UTF8ToWide s = map ucast s" "WideToUTF8 (map ucast s) = s" by simp_all
qed
end
