(* ===== verification/ValueTree.thy ===== *)
theory ValueTree
  imports Unicode StdMap
begin

text \<open>
  The value trees of \<^verbatim>\<open>src/server/base/logic/base_values.{h,cc}\<close>: the requests and answers of the
  service plug-ins are trees of dictionaries, lists and leaves.  A \<^verbatim>\<open>Value*\<close> is the tree it
  points to; a dictionary is the list of its entries in the order of \<^verbatim>\<open>std::map<std::wstring,
  Value*>\<close>; a getter that returns false is \<open>None\<close>, and a \<^verbatim>\<open>NULL\<close> argument of a setter is
  \<open>None\<close>.  A \<^verbatim>\<open>double\<close> is its 64 bits.
\<close>

section \<open>Maps with wide string keys\<close>

fun wless :: "wstring \<Rightarrow> wstring \<Rightarrow> bool" where
  "wless a [] = False"
| "wless [] (y # b) = True"
| "wless (x # a) (y # b) = (x <s y \<or> (x = y \<and> wless a b))"

fun dict_set :: "wstring \<Rightarrow> 'v \<Rightarrow> (wstring \<times> 'v) list \<Rightarrow> (wstring \<times> 'v) list" where
  "dict_set k v [] = [(k, v)]"
| "dict_set k v ((k', v') # m) =
     (if k = k' then (k, v) # m
      else if wless k k' then (k, v) # (k', v') # m
      else (k', v') # dict_set k v m)"

fun dict_erase :: "wstring \<Rightarrow> (wstring \<times> 'v) list \<Rightarrow> (wstring \<times> 'v) list" where
  "dict_erase k [] = []"
| "dict_erase k ((k', v') # m) = (if k = k' then m else (k', v') # dict_erase k m)"

definition dict_find :: "(wstring \<times> 'v) list \<Rightarrow> wstring \<Rightarrow> 'v option" where
  "dict_find m k = map_of m k"

definition dict_sorted :: "(wstring \<times> 'v) list \<Rightarrow> bool" where
  "dict_sorted m \<longleftrightarrow> sorted_wrt (\<lambda>a b. wless (fst a) (fst b)) m"

section \<open>Values\<close>

type_synonym real64 = "64 word"

definition real_nan :: "real64 \<Rightarrow> bool" where
  "real_nan r \<longleftrightarrow> 0x7FF0000000000000 < take_bit 63 r"

text \<open>\<^verbatim>\<open>==\<close> of two doubles: no NaN is equal to anything, and the two zeros are equal.\<close>

definition real_eq :: "real64 \<Rightarrow> real64 \<Rightarrow> bool" where
  "real_eq a b \<longleftrightarrow>
     \<not> real_nan a \<and> \<not> real_nan b \<and> (a = b \<or> (take_bit 63 a = 0 \<and> take_bit 63 b = 0))"

datatype tree =
    NullValue
  | BooleanValue bool
  | IntegerValue int32
  | BigIntegerValue int64
  | RealValue real64
  | StringValue "byte list"
  | BinaryValue "byte list"
  | DictionaryValue "(wstring \<times> tree) list"
  | ListValue "tree list"

type_synonym dict = "(wstring \<times> tree) list"

datatype ValueType =
  TYPE_NULL | TYPE_BOOLEAN | TYPE_INTEGER | TYPE_BIG_INTEGER | TYPE_REAL | TYPE_STRING |
  TYPE_BINARY | TYPE_DICTIONARY | TYPE_LIST

fun GetType :: "tree \<Rightarrow> ValueType" where
  "GetType NullValue = TYPE_NULL"
| "GetType (BooleanValue b) = TYPE_BOOLEAN"
| "GetType (IntegerValue i) = TYPE_INTEGER"
| "GetType (BigIntegerValue i) = TYPE_BIG_INTEGER"
| "GetType (RealValue r) = TYPE_REAL"
| "GetType (StringValue s) = TYPE_STRING"
| "GetType (BinaryValue s) = TYPE_BINARY"
| "GetType (DictionaryValue m) = TYPE_DICTIONARY"
| "GetType (ListValue vs) = TYPE_LIST"

definition CreateStringValueWide :: "wstring \<Rightarrow> tree" where
  "CreateStringValueWide s = StringValue (WideToUTF8 s)"

fun GetAsBoolean :: "tree \<Rightarrow> bool option" where
  "GetAsBoolean (BooleanValue b) = Some b"
| "GetAsBoolean _ = None"

fun GetAsInteger :: "tree \<Rightarrow> int32 option" where
  "GetAsInteger (IntegerValue i) = Some i"
| "GetAsInteger _ = None"

fun GetAsBigInteger :: "tree \<Rightarrow> int64 option" where
  "GetAsBigInteger (BigIntegerValue i) = Some i"
| "GetAsBigInteger _ = None"

fun GetAsReal :: "tree \<Rightarrow> real64 option" where
  "GetAsReal (RealValue r) = Some r"
| "GetAsReal _ = None"

fun GetAsString :: "tree \<Rightarrow> byte list option" where
  "GetAsString (StringValue s) = Some s"
| "GetAsString _ = None"

definition GetAsWString :: "tree \<Rightarrow> wstring option" where
  "GetAsWString v = map_option UTF8ToWide (GetAsString v)"

section \<open>Copies and comparison\<close>

fun DeepCopy :: "tree \<Rightarrow> tree" where
  "DeepCopy (DictionaryValue m) = DictionaryValue []"
| "DeepCopy (ListValue vs) = ListValue (map DeepCopy vs)"
| "DeepCopy v = v"

fun Equals :: "tree \<Rightarrow> tree \<Rightarrow> bool" and ListEquals :: "tree list \<Rightarrow> tree list \<Rightarrow> bool" where
  "Equals NullValue other = (GetType other = TYPE_NULL)"
| "Equals (BooleanValue a) other = (case other of BooleanValue b \<Rightarrow> a = b | _ \<Rightarrow> False)"
| "Equals (IntegerValue a) other = (case other of IntegerValue b \<Rightarrow> a = b | _ \<Rightarrow> False)"
| "Equals (RealValue a) other = (case other of RealValue b \<Rightarrow> real_eq a b | _ \<Rightarrow> False)"
| "Equals (BigIntegerValue a) other = False"
| "Equals (StringValue a) other = (case other of StringValue b \<Rightarrow> a = b | _ \<Rightarrow> False)"
| "Equals (BinaryValue a) other = (case other of BinaryValue b \<Rightarrow> a = b | _ \<Rightarrow> False)"
| "Equals (DictionaryValue m) other = (GetType other = TYPE_DICTIONARY)"
| "Equals (ListValue vs) other = (case other of ListValue ws \<Rightarrow> ListEquals vs ws | _ \<Rightarrow> False)"
| "ListEquals (v # vs) (w # ws) = (Equals v w \<and> ListEquals vs ws)"
| "ListEquals [] [] = True"
| "ListEquals _ _ = False"

section \<open>Dictionaries\<close>

definition HasKey :: "dict \<Rightarrow> wstring \<Rightarrow> bool" where
  "HasKey d key \<longleftrightarrow> dict_find d key \<noteq> None"

definition HasKeyASCII :: "dict \<Rightarrow> byte list \<Rightarrow> bool" where
  "HasKeyASCII d key = HasKey d (ASCIIToWide key)"

definition GetWithoutPathExpansion :: "dict \<Rightarrow> wstring \<Rightarrow> tree option" where
  "GetWithoutPathExpansion d key = dict_find d key"

definition SetWithoutPathExpansion :: "dict \<Rightarrow> wstring \<Rightarrow> tree option \<Rightarrow> dict" where
  "SetWithoutPathExpansion d key in_value =
     (case in_value of None \<Rightarrow> d | Some v \<Rightarrow> dict_set key v d)"

text \<open>The loops over \<^verbatim>\<open>current_path.find('.')\<close> peel one key after the other off the path: a path
  is the list of its segments.\<close>

fun segments :: "wstring \<Rightarrow> wstring list" where
  "segments [] = [[]]"
| "segments (c # path) =
     (if c = 0x2E then [] # segments path
      else (case segments path of k # ks \<Rightarrow> (c # k) # ks | [] \<Rightarrow> [[c]]))"

definition child_dict :: "dict \<Rightarrow> wstring \<Rightarrow> dict option" where
  "child_dict d key = (case dict_find d key of Some (DictionaryValue c) \<Rightarrow> Some c | _ \<Rightarrow> None)"

fun get_segments :: "dict \<Rightarrow> wstring list \<Rightarrow> tree option" where
  "get_segments d [] = None"
| "get_segments d [key] = GetWithoutPathExpansion d key"
| "get_segments d (key # keys) =
     (case child_dict d key of None \<Rightarrow> None | Some c \<Rightarrow> get_segments c keys)"

fun set_segments :: "dict \<Rightarrow> wstring list \<Rightarrow> tree \<Rightarrow> dict" where
  "set_segments d [] v = d"
| "set_segments d [key] v = SetWithoutPathExpansion d key (Some v)"
| "set_segments d (key # keys) v =
     (let c = (case child_dict d key of None \<Rightarrow> [] | Some c \<Rightarrow> c) in
      SetWithoutPathExpansion d key (Some (DictionaryValue (set_segments c keys v))))"

fun remove_segments :: "dict \<Rightarrow> wstring list \<Rightarrow> tree option \<times> dict" where
  "remove_segments d [] = (None, d)"
| "remove_segments d [key] = (dict_find d key, dict_erase key d)"
| "remove_segments d (key # keys) =
     (case child_dict d key of
        None \<Rightarrow> (None, d)
      | Some c \<Rightarrow> (let (v, c) = remove_segments c keys in
                   (v, dict_set key (DictionaryValue c) d)))"

definition Dict_Get :: "dict \<Rightarrow> wstring \<Rightarrow> tree option" where
  "Dict_Get d path = get_segments d (segments path)"

definition Dict_Set :: "dict \<Rightarrow> wstring \<Rightarrow> tree option \<Rightarrow> dict" where
  "Dict_Set d path in_value =
     (case in_value of None \<Rightarrow> d | Some v \<Rightarrow> set_segments d (segments path) v)"

definition Dict_SetUtf8 :: "dict \<Rightarrow> byte list \<Rightarrow> tree option \<Rightarrow> dict" where
  "Dict_SetUtf8 d path in_value =
     (case in_value of None \<Rightarrow> d | Some v \<Rightarrow> Dict_Set d (UTF8ToWide path) (Some v))"

definition SetBoolean :: "dict \<Rightarrow> wstring \<Rightarrow> bool \<Rightarrow> dict" where
  "SetBoolean d path v = Dict_Set d path (Some (BooleanValue v))"

definition SetInteger :: "dict \<Rightarrow> wstring \<Rightarrow> int32 \<Rightarrow> dict" where
  "SetInteger d path v = Dict_Set d path (Some (IntegerValue v))"

definition SetBigInteger :: "dict \<Rightarrow> wstring \<Rightarrow> int64 \<Rightarrow> dict" where
  "SetBigInteger d path v = Dict_Set d path (Some (BigIntegerValue v))"

definition SetReal :: "dict \<Rightarrow> wstring \<Rightarrow> real64 \<Rightarrow> dict" where
  "SetReal d path v = Dict_Set d path (Some (RealValue v))"

definition SetString :: "dict \<Rightarrow> wstring \<Rightarrow> byte list \<Rightarrow> dict" where
  "SetString d path v = Dict_Set d path (Some (StringValue v))"

definition SetWString :: "dict \<Rightarrow> wstring \<Rightarrow> wstring \<Rightarrow> dict" where
  "SetWString d path v = Dict_Set d path (Some (CreateStringValueWide v))"

definition GetBoolean :: "dict \<Rightarrow> wstring \<Rightarrow> bool option" where
  "GetBoolean d path = Option.bind (Dict_Get d path) GetAsBoolean"

definition GetInteger :: "dict \<Rightarrow> wstring \<Rightarrow> int32 option" where
  "GetInteger d path = Option.bind (Dict_Get d path) GetAsInteger"

definition GetBigInteger :: "dict \<Rightarrow> wstring \<Rightarrow> int64 option" where
  "GetBigInteger d path = Option.bind (Dict_Get d path) GetAsBigInteger"

definition GetReal :: "dict \<Rightarrow> wstring \<Rightarrow> real64 option" where
  "GetReal d path = Option.bind (Dict_Get d path) GetAsReal"

definition GetString :: "dict \<Rightarrow> wstring \<Rightarrow> byte list option" where
  "GetString d path = Option.bind (Dict_Get d path) GetAsString"

definition GetWString :: "dict \<Rightarrow> wstring \<Rightarrow> wstring option" where
  "GetWString d path = Option.bind (Dict_Get d path) GetAsWString"

text \<open>\<^verbatim>\<open>c > 0x7F\<close> compares a \<^verbatim>\<open>char\<close>, which is signed.\<close>

definition IsStringASCII :: "byte list \<Rightarrow> bool" where
  "IsStringASCII s \<longleftrightarrow> \<not> (\<exists>c\<in>set s. (0x7F :: wchar) <s scast c)"

definition GetStringASCII :: "dict \<Rightarrow> byte list \<Rightarrow> byte list option" where
  "GetStringASCII d path =
     (case GetString d (ASCIIToWide path) of
        None \<Rightarrow> None
      | Some s \<Rightarrow> (if IsStringASCII s then Some s else None))"

definition GetBinary :: "dict \<Rightarrow> wstring \<Rightarrow> byte list option" where
  "GetBinary d path = (case Dict_Get d path of Some (BinaryValue b) \<Rightarrow> Some b | _ \<Rightarrow> None)"

definition GetDictionary :: "dict \<Rightarrow> wstring \<Rightarrow> dict option" where
  "GetDictionary d path = (case Dict_Get d path of Some (DictionaryValue c) \<Rightarrow> Some c | _ \<Rightarrow> None)"

definition GetList :: "dict \<Rightarrow> wstring \<Rightarrow> tree list option" where
  "GetList d path = (case Dict_Get d path of Some (ListValue vs) \<Rightarrow> Some vs | _ \<Rightarrow> None)"

definition GetIntegerWithoutPathExpansion :: "dict \<Rightarrow> wstring \<Rightarrow> int32 option" where
  "GetIntegerWithoutPathExpansion d key = Option.bind (GetWithoutPathExpansion d key) GetAsInteger"

definition GetBigIntegerWithoutPathExpansion :: "dict \<Rightarrow> wstring \<Rightarrow> int64 option" where
  "GetBigIntegerWithoutPathExpansion d key =
     Option.bind (GetWithoutPathExpansion d key) GetAsBigInteger"

definition GetStringWithoutPathExpansion :: "dict \<Rightarrow> wstring \<Rightarrow> byte list option" where
  "GetStringWithoutPathExpansion d key = Option.bind (GetWithoutPathExpansion d key) GetAsString"

definition GetDictionaryWithoutPathExpansion :: "dict \<Rightarrow> wstring \<Rightarrow> dict option" where
  "GetDictionaryWithoutPathExpansion d key =
     (case GetWithoutPathExpansion d key of Some (DictionaryValue c) \<Rightarrow> Some c | _ \<Rightarrow> None)"

definition GetListWithoutPathExpansion :: "dict \<Rightarrow> wstring \<Rightarrow> tree list option" where
  "GetListWithoutPathExpansion d key =
     (case GetWithoutPathExpansion d key of Some (ListValue vs) \<Rightarrow> Some vs | _ \<Rightarrow> None)"

text \<open>The removed value and what is left; \<open>None\<close> when nothing was there.\<close>

definition Dict_Remove :: "dict \<Rightarrow> wstring \<Rightarrow> tree option \<times> dict" where
  "Dict_Remove d path = remove_segments d (segments path)"

definition RemoveWithoutPathExpansion :: "dict \<Rightarrow> wstring \<Rightarrow> tree option \<times> dict" where
  "RemoveWithoutPathExpansion d key = (dict_find d key, dict_erase key d)"

text \<open>\<^verbatim>\<open>CopyWithoutEmptyChildren\<close>: \<open>None\<close> for a container with nothing in it.\<close>

function CopyWithoutEmptyChildren :: "tree \<Rightarrow> tree option"
  and copy_list :: "tree list \<Rightarrow> tree list" and copy_entries :: "dict \<Rightarrow> dict \<Rightarrow> dict" where
  "CopyWithoutEmptyChildren (ListValue vs) =
     (let copy = copy_list vs in if copy = [] then None else Some (ListValue copy))"
| "CopyWithoutEmptyChildren (DictionaryValue m) =
     (let copy = copy_entries [] m in if copy = [] then None else Some (DictionaryValue copy))"
| "CopyWithoutEmptyChildren NullValue = Some (DeepCopy NullValue)"
| "CopyWithoutEmptyChildren (BooleanValue b) = Some (DeepCopy (BooleanValue b))"
| "CopyWithoutEmptyChildren (IntegerValue i) = Some (DeepCopy (IntegerValue i))"
| "CopyWithoutEmptyChildren (BigIntegerValue i) = Some (DeepCopy (BigIntegerValue i))"
| "CopyWithoutEmptyChildren (RealValue r) = Some (DeepCopy (RealValue r))"
| "CopyWithoutEmptyChildren (StringValue s) = Some (DeepCopy (StringValue s))"
| "CopyWithoutEmptyChildren (BinaryValue s) = Some (DeepCopy (BinaryValue s))"
| "copy_list [] = []"
| "copy_list (v # vs) =
     (case CopyWithoutEmptyChildren v of None \<Rightarrow> copy_list vs | Some c \<Rightarrow> c # copy_list vs)"
| "copy_entries copy [] = copy"
| "copy_entries copy ((k, v) # m) =
     copy_entries (SetWithoutPathExpansion copy k (CopyWithoutEmptyChildren v)) m"
  by pat_completeness auto
termination
  by (relation "measure (case_sum (\<lambda>v. Suc (2 * size v)) (case_sum (\<lambda>vs. 2 * size (ListValue vs))
        (\<lambda>(c, m). 2 * size (DictionaryValue m))))") auto

definition DeepCopyWithoutEmptyChildren :: "dict \<Rightarrow> dict" where
  "DeepCopyWithoutEmptyChildren d =
     (case CopyWithoutEmptyChildren (DictionaryValue d) of
        Some (DictionaryValue c) \<Rightarrow> c
      | _ \<Rightarrow> [])"

function MergeDictionary :: "dict \<Rightarrow> dict \<Rightarrow> dict" where
  "MergeDictionary d [] = d"
| "MergeDictionary d ((key, merge_value) # m) =
     MergeDictionary
       (case merge_value of
          DictionaryValue sub \<Rightarrow>
            (case GetDictionaryWithoutPathExpansion d key of
               Some sub_dict \<Rightarrow> dict_set key (DictionaryValue (MergeDictionary sub_dict sub)) d
             | None \<Rightarrow> SetWithoutPathExpansion d key (Some (DeepCopy merge_value)))
        | _ \<Rightarrow> SetWithoutPathExpansion d key (Some (DeepCopy merge_value))) m"
  by pat_completeness auto
termination
  by (relation "measure (\<lambda>(d, m). size (DictionaryValue m))") auto

section \<open>Lists\<close>

definition List_Append :: "tree list \<Rightarrow> tree option \<Rightarrow> tree list" where
  "List_Append vs in_value = (case in_value of None \<Rightarrow> vs | Some v \<Rightarrow> vs @ [v])"

definition List_Set :: "tree list \<Rightarrow> nat \<Rightarrow> tree option \<Rightarrow> bool \<times> tree list" where
  "List_Set vs index in_value =
     (case in_value of
        None \<Rightarrow> (False, vs)
      | Some v \<Rightarrow>
          (if length vs \<le> index then
             (True, List_Append (vs @ replicate (index - length vs) NullValue) (Some v))
           else (True, vs[index := v])))"

definition List_Get :: "tree list \<Rightarrow> nat \<Rightarrow> tree option" where
  "List_Get vs index = (if length vs \<le> index then None else Some (vs ! index))"

definition List_Remove :: "tree list \<Rightarrow> nat \<Rightarrow> tree option \<times> tree list" where
  "List_Remove vs index =
     (if length vs \<le> index then (None, vs)
      else (Some (vs ! index), take index vs @ drop (Suc index) vs))"

text \<open>\<^verbatim>\<open>Remove(const Value&)\<close>: the index of the first equal element, which is erased, or -1.\<close>

fun remove_equal :: "tree \<Rightarrow> nat \<Rightarrow> tree list \<Rightarrow> int \<times> tree list" where
  "remove_equal v n [] = (-1, [])"
| "remove_equal v n (w # ws) =
     (if Equals w v then (int n, ws)
      else (let (i, ws) = remove_equal v (n + 1) ws in (i, w # ws)))"

definition List_RemoveValue :: "tree list \<Rightarrow> tree \<Rightarrow> int \<times> tree list" where
  "List_RemoveValue vs v = remove_equal v 0 vs"

definition AppendIfNotPresent :: "tree list \<Rightarrow> tree option \<Rightarrow> bool \<times> tree list" where
  "AppendIfNotPresent vs in_value =
     (case in_value of
        None \<Rightarrow> (False, vs)
      | Some v \<Rightarrow> (if \<exists>w\<in>set vs. Equals w v then (False, vs) else (True, vs @ [v])))"

definition List_Insert :: "tree list \<Rightarrow> nat \<Rightarrow> tree option \<Rightarrow> bool \<times> tree list" where
  "List_Insert vs index in_value =
     (case in_value of
        None \<Rightarrow> (False, vs)
      | Some v \<Rightarrow>
          (if length vs < index then (False, vs)
           else (True, take index vs @ v # drop index vs)))"

definition List_GetBoolean :: "tree list \<Rightarrow> nat \<Rightarrow> bool option" where
  "List_GetBoolean vs index = Option.bind (List_Get vs index) GetAsBoolean"

definition List_GetInteger :: "tree list \<Rightarrow> nat \<Rightarrow> int32 option" where
  "List_GetInteger vs index = Option.bind (List_Get vs index) GetAsInteger"

definition List_GetBigInteger :: "tree list \<Rightarrow> nat \<Rightarrow> int64 option" where
  "List_GetBigInteger vs index = Option.bind (List_Get vs index) GetAsBigInteger"

definition List_GetReal :: "tree list \<Rightarrow> nat \<Rightarrow> real64 option" where
  "List_GetReal vs index = Option.bind (List_Get vs index) GetAsReal"

definition List_GetString :: "tree list \<Rightarrow> nat \<Rightarrow> byte list option" where
  "List_GetString vs index = Option.bind (List_Get vs index) GetAsString"

definition List_GetDictionary :: "tree list \<Rightarrow> nat \<Rightarrow> dict option" where
  "List_GetDictionary vs index =
     (case List_Get vs index of Some (DictionaryValue c) \<Rightarrow> Some c | _ \<Rightarrow> None)"

definition List_GetList :: "tree list \<Rightarrow> nat \<Rightarrow> tree list option" where
  "List_GetList vs index = (case List_Get vs index of Some (ListValue c) \<Rightarrow> Some c | _ \<Rightarrow> None)"

end
