(* ===== verification/ValueLaws.thy ===== *)
theory ValueLaws
  imports ValueTree
begin

text \<open>
  What the operations of \<^verbatim>\<open>ValueTree\<close> promise: the maps are dictionaries in the sense of the
  locale \<open>dictionary\<close>, a value that was set under a path is found there and nowhere else, every
  operation keeps the entries of every dictionary in key order, pruning removes exactly the
  empty containers, and what \<^verbatim>\<open>DeepCopy\<close> and \<^verbatim>\<open>Equals\<close> lose.
\<close>

section \<open>The order of the keys\<close>

lemma wless_irrefl [simp]: "\<not> wless a a"
  by (induction a) auto

lemma wless_trans: "wless a b \<Longrightarrow> wless b c \<Longrightarrow> wless a c"
proof (induction a b arbitrary: c rule: wless.induct)
  case (2 y b)
  then show ?case by (cases c) auto
next
  case (3 x a y b)
  then show ?case by (cases c) (auto intro: signed.less_trans)
qed simp

lemma wless_total: "a \<noteq> b \<Longrightarrow> \<not> wless a b \<Longrightarrow> wless b a"
proof (induction a b rule: wless.induct)
  case (1 a)
  then show ?case by (cases a) auto
qed (auto simp: not_less signed.less_le)

lemma dict_sorted_Nil [simp]: "dict_sorted []"
  by (simp add: dict_sorted_def)

lemma dict_sorted_Cons [simp]:
  "dict_sorted ((k, v) # m) \<longleftrightarrow> (\<forall>(k', v')\<in>set m. wless k k') \<and> dict_sorted m"
  by (auto simp: dict_sorted_def)

lemma dict_find_simps [simp]:
  "dict_find [] k = None"
  "dict_find ((k', v) # m) k = (if k = k' then Some v else dict_find m k)"
  by (simp_all add: dict_find_def)

lemma set_dict_set: "set (dict_set k v m) \<subseteq> insert (k, v) (set m)"
  by (induction m) (auto split: if_splits)

lemma set_dict_erase: "set (dict_erase k m) \<subseteq> set m"
  by (induction m) (auto split: if_splits)

lemma dict_sorted_set [simp]: "dict_sorted m \<Longrightarrow> dict_sorted (dict_set k v m)"
proof (induction m)
  case (Cons e m)
  obtain k' v' where e: "e = (k', v')" by (cases e)
  from Cons.prems e have above: "\<forall>(k'', v'')\<in>set m. wless k' k''" and s: "dict_sorted m" by auto
  show ?case
  proof (cases "k = k' \<or> wless k k'")
    case True
    with above s e show ?thesis by (fastforce intro: wless_trans)
  next
    case False
    then have "wless k' k" by (metis wless_total)
    with above set_dict_set [of k v m] have "\<forall>(k'', v'')\<in>set (dict_set k v m). wless k' k''" by auto
    with False Cons.IH [OF s] e show ?thesis by simp
  qed
qed simp

lemma dict_sorted_erase [simp]: "dict_sorted m \<Longrightarrow> dict_sorted (dict_erase k m)"
proof (induction m)
  case (Cons e m)
  with set_dict_erase [of k m] show ?case by (cases e) fastforce
qed simp

lemma dict_find_set [simp]: "dict_find (dict_set k v m) k' = (if k' = k then Some v else dict_find m k')"
  by (induction m) auto

lemma dict_find_above: "\<forall>(k', v)\<in>set m. wless k k' \<Longrightarrow> dict_find m k = None"
  by (induction m) auto

lemma dict_find_erase [simp]:
  "dict_sorted m \<Longrightarrow> dict_find (dict_erase k m) k' = (if k' = k then None else dict_find m k')"
  by (induction m) (auto simp: dict_find_above)

interpretation tree_map: dictionary dict_sorted "[]" dict_find dict_set dict_erase
  by unfold_locales auto

lemma dict_find_in_set: "dict_find m k = Some v \<Longrightarrow> (k, v) \<in> set m"
  by (simp add: dict_find_def map_of_SomeD)

lemma dict_set_same: "dict_find m k = Some v \<Longrightarrow> dict_sorted m \<Longrightarrow> dict_set k v m = m"
proof (induction m)
  case (Cons e m)
  then show ?case by (cases e) (auto dest!: dict_find_in_set split: if_splits dest: wless_trans)
qed simp

lemma dict_set_last: "\<forall>(k', v')\<in>set m. wless k' k \<Longrightarrow> dict_set k v m = m @ [(k, v)]"
  by (induction m) (use wless_trans in fastforce)+

section \<open>Paths\<close>

lemma segments_nonempty [simp]: "segments p \<noteq> []"
  by (induction p) (auto split: list.splits)

lemma child_dict_find: "child_dict d k = Some c \<longleftrightarrow> dict_find d k = Some (DictionaryValue c)"
  by (auto simp: child_dict_def split: option.splits tree.splits)

lemma child_dict_set [simp]:
  "child_dict (dict_set k (DictionaryValue c) d) k' = (if k' = k then Some c else child_dict d k')"
  by (auto simp: child_dict_def)

lemma get_set_segments: "ks \<noteq> [] \<Longrightarrow> get_segments (set_segments d ks v) ks = Some v"
  by (induction d ks v rule: set_segments.induct)
    (auto simp: SetWithoutPathExpansion_def GetWithoutPathExpansion_def Let_def)

text \<open>Paths that part at some segment.\<close>

fun diverge :: "wstring list \<Rightarrow> wstring list \<Rightarrow> bool" where
  "diverge (a # as) (b # bs) = (a \<noteq> b \<or> diverge as bs)"
| "diverge _ _ = False"

lemma get_segments_empty [simp]: "get_segments [] ks = None"
  by (cases "([] :: dict, ks)" rule: get_segments.cases)
    (auto simp: GetWithoutPathExpansion_def child_dict_def)

lemma get_set_segments_other:
  "diverge ks js \<Longrightarrow> get_segments (set_segments d ks v) js = get_segments d js"
proof (induction d ks v arbitrary: js rule: set_segments.induct)
  case (2 d k v)
  then obtain j js' where "js = j # js'" "k \<noteq> j" by (cases js) auto
  then show ?case
    by (cases js') (auto simp: SetWithoutPathExpansion_def GetWithoutPathExpansion_def child_dict_def)
next
  case (3 d k k2 ks v)
  then obtain j js' where js: "js = j # js'" by (cases js) auto
  show ?case
  proof (cases "k = j")
    case False
    with js show ?thesis
      by (cases js') (auto simp: SetWithoutPathExpansion_def GetWithoutPathExpansion_def Let_def)
  next
    case True
    with 3 js obtain j2 js'' where j2: "js' = j2 # js''" and d: "diverge (k2 # ks) js'" by (cases js') auto
    from 3(1) [OF refl d] True js j2 show ?thesis
      by (auto simp: SetWithoutPathExpansion_def Let_def split: option.splits)
  qed
qed simp

lemma Dict_Get_Set: "Dict_Get (Dict_Set d p (Some v)) p = Some v"
  by (simp add: Dict_Get_def Dict_Set_def get_set_segments)

lemma Dict_Get_Set_other:
  "diverge (segments p) (segments q) \<Longrightarrow> Dict_Get (Dict_Set d p (Some v)) q = Dict_Get d q"
  by (simp add: Dict_Get_def Dict_Set_def get_set_segments_other)

section \<open>Well-formed trees\<close>

text \<open>Every dictionary of the tree has its entries in key order.\<close>

primrec wf_tree :: "tree \<Rightarrow> bool" where
  "wf_tree NullValue = True"
| "wf_tree (BooleanValue b) = True"
| "wf_tree (IntegerValue i) = True"
| "wf_tree (BigIntegerValue i) = True"
| "wf_tree (RealValue r) = True"
| "wf_tree (StringValue s) = True"
| "wf_tree (BinaryValue s) = True"
| "wf_tree (DictionaryValue m) = (dict_sorted m \<and> list_all snd (map (map_prod id wf_tree) m))"
| "wf_tree (ListValue vs) = list_all id (map wf_tree vs)"

definition wf_dict :: "dict \<Rightarrow> bool" where
  "wf_dict d \<longleftrightarrow> wf_tree (DictionaryValue d)"

definition wf_list :: "tree list \<Rightarrow> bool" where
  "wf_list vs \<longleftrightarrow> wf_tree (ListValue vs)"

lemma wf_dict_iff: "wf_dict d \<longleftrightarrow> dict_sorted d \<and> (\<forall>(k, v)\<in>set d. wf_tree v)"
  by (auto simp: wf_dict_def list_all_iff)

lemma wf_list_iff: "wf_list vs \<longleftrightarrow> (\<forall>v\<in>set vs. wf_tree v)"
  by (auto simp: wf_list_def list_all_iff)

lemma wf_tree_containers [simp]:
  "wf_tree (DictionaryValue d) \<longleftrightarrow> wf_dict d" "wf_tree (ListValue vs) \<longleftrightarrow> wf_list vs"
  by (simp_all add: wf_dict_def wf_list_def)

declare wf_tree.simps(8,9) [simp del]

lemma wf_dict_empty [simp]: "wf_dict []" "wf_list []"
  by (simp_all add: wf_dict_iff wf_list_iff)

lemma wf_dict_set [simp]: "wf_dict d \<Longrightarrow> wf_tree v \<Longrightarrow> wf_dict (dict_set k v d)"
  using set_dict_set [of k v d] by (fastforce simp: wf_dict_iff)

lemma wf_dict_erase [simp]: "wf_dict d \<Longrightarrow> wf_dict (dict_erase k d)"
  using set_dict_erase [of k d] by (fastforce simp: wf_dict_iff)

lemma wf_find: "wf_dict d \<Longrightarrow> dict_find d k = Some v \<Longrightarrow> wf_tree v"
  by (auto simp: wf_dict_iff dest: dict_find_in_set)

lemma wf_child: "wf_dict d \<Longrightarrow> child_dict d k = Some c \<Longrightarrow> wf_dict c"
  using wf_find [of d k "DictionaryValue c"] by (simp add: child_dict_find)

lemma wf_set_segments: "wf_dict d \<Longrightarrow> wf_tree v \<Longrightarrow> wf_dict (set_segments d ks v)"
proof (induction d ks v rule: set_segments.induct)
  case (3 d k k2 ks v)
  then show ?case
    by (auto simp: SetWithoutPathExpansion_def Let_def wf_child split: option.splits)
qed (auto simp: SetWithoutPathExpansion_def)

lemma wf_remove_segments: "wf_dict d \<Longrightarrow> wf_dict (snd (remove_segments d ks))"
  by (induction d ks rule: remove_segments.induct)
    (auto simp: wf_child split: option.splits prod.splits)

lemma wf_DeepCopy [simp]: "wf_tree v \<Longrightarrow> wf_tree (DeepCopy v)"
  by (induction v) (auto simp: wf_list_iff)

lemma wf_Set: "wf_dict d \<Longrightarrow> (\<And>v. w = Some v \<Longrightarrow> wf_tree v) \<Longrightarrow> wf_dict (SetWithoutPathExpansion d k w)"
  by (simp add: SetWithoutPathExpansion_def split: option.split)

lemma wf_MergeDictionary: "wf_dict d \<Longrightarrow> wf_dict m \<Longrightarrow> wf_dict (MergeDictionary d m)"
proof (induction d m rule: MergeDictionary.induct)
  case (2 d key w m)
  have m: "wf_tree w" "wf_dict m" using 2(4) by (auto simp: wf_dict_iff)
  then have w: "wf_dict (SetWithoutPathExpansion d key (Some (DeepCopy w)))"
    using 2(3) by (auto intro: wf_Set)
  have "wf_dict (case w of
      DictionaryValue sub \<Rightarrow>
        (case GetDictionaryWithoutPathExpansion d key of
           Some sub_dict \<Rightarrow> dict_set key (DictionaryValue (MergeDictionary sub_dict sub)) d
         | None \<Rightarrow> SetWithoutPathExpansion d key (Some (DeepCopy w)))
    | _ \<Rightarrow> SetWithoutPathExpansion d key (Some (DeepCopy w)))"
    (is "wf_dict ?d")
  proof (cases "\<exists>sub c. w = DictionaryValue sub \<and> GetDictionaryWithoutPathExpansion d key = Some c")
    case True
    then obtain sub c where e: "w = DictionaryValue sub" "GetDictionaryWithoutPathExpansion d key = Some c"
      by blast
    then have "wf_dict c" using 2(3) wf_find [of d key "DictionaryValue c"]
      by (auto simp: GetDictionaryWithoutPathExpansion_def GetWithoutPathExpansion_def
          split: option.splits tree.splits)
    with 2(1) [OF e] 2(3) m e show ?thesis by simp
  next
    case False
    with w show ?thesis by (auto split: tree.splits option.splits)
  qed
  from 2(2) [OF this m(2)] show ?case by simp
qed simp

section \<open>Pruning\<close>

text \<open>The reference: a container keeps the children that are not pruned away, in their order,
  and goes itself when none is left.\<close>

primrec prune :: "tree \<Rightarrow> tree option" where
  "prune NullValue = Some NullValue"
| "prune (BooleanValue b) = Some (BooleanValue b)"
| "prune (IntegerValue i) = Some (IntegerValue i)"
| "prune (BigIntegerValue i) = Some (BigIntegerValue i)"
| "prune (RealValue r) = Some (RealValue r)"
| "prune (StringValue s) = Some (StringValue s)"
| "prune (BinaryValue s) = Some (BinaryValue s)"
| "prune (DictionaryValue m) =
     (case List.map_filter (\<lambda>(k, c). map_option (Pair k) c) (map (map_prod id prune) m) of
        [] \<Rightarrow> None | m' \<Rightarrow> Some (DictionaryValue m'))"
| "prune (ListValue vs) =
     (case List.map_filter id (map prune vs) of [] \<Rightarrow> None | vs' \<Rightarrow> Some (ListValue vs'))"

definition prune_entries :: "dict \<Rightarrow> dict" where
  "prune_entries m = List.map_filter (\<lambda>(k, v). map_option (Pair k) (prune v)) m"

definition prune_list :: "tree list \<Rightarrow> tree list" where
  "prune_list vs = List.map_filter prune vs"

lemma prune_containers [simp]:
  "prune (DictionaryValue m) =
     (if prune_entries m = [] then None else Some (DictionaryValue (prune_entries m)))"
  "prune (ListValue vs) = (if prune_list vs = [] then None else Some (ListValue (prune_list vs)))"
proof -
  have "List.map_filter (\<lambda>(k, c). map_option (Pair k) c) (map (map_prod id prune) m) = prune_entries m"
    by (induction m) (auto simp: prune_entries_def List.map_filter_simps split: option.split)
  then show "prune (DictionaryValue m) =
     (if prune_entries m = [] then None else Some (DictionaryValue (prune_entries m)))"
    by (simp split: list.split)
  have "List.map_filter id (map prune vs) = prune_list vs"
    by (induction vs) (auto simp: prune_list_def List.map_filter_simps split: option.split)
  then show "prune (ListValue vs) = (if prune_list vs = [] then None else Some (ListValue (prune_list vs)))"
    by (simp split: list.split)
qed

declare prune.simps(8,9) [simp del]

lemma prune_entries_simps [simp]:
  "prune_entries [] = []"
  "prune_entries ((k, v) # m) =
     (case prune v of None \<Rightarrow> prune_entries m | Some c \<Rightarrow> (k, c) # prune_entries m)"
  "prune_list [] = []"
  "prune_list (v # vs) = (case prune v of None \<Rightarrow> prune_list vs | Some c \<Rightarrow> c # prune_list vs)"
  by (auto simp: prune_entries_def prune_list_def List.map_filter_simps split: option.split)

lemma prune_entries_keys: "(k, c) \<in> set (prune_entries m) \<Longrightarrow> \<exists>v. (k, v) \<in> set m \<and> prune v = Some c"
  by (induction m) (auto split: option.splits, blast+)

lemma prune_list_from: "c \<in> set (prune_list vs) \<Longrightarrow> \<exists>v\<in>set vs. prune v = Some c"
  by (induction vs) (auto split: option.splits)

lemma copy_entries_prune:
  "\<forall>(k, v)\<in>set m. CopyWithoutEmptyChildren v = prune v \<Longrightarrow> dict_sorted m \<Longrightarrow>
     \<forall>(k, c)\<in>set copy. \<forall>(k', v)\<in>set m. wless k k' \<Longrightarrow> copy_entries copy m = copy @ prune_entries m"
proof (induction m arbitrary: copy)
  case (Cons e m)
  obtain k v where e: "e = (k, v)" by (cases e)
  with Cons.prems have v: "CopyWithoutEmptyChildren v = prune v" and below: "\<forall>(k', c)\<in>set copy. wless k' k"
    and above: "\<forall>(k', v)\<in>set m. wless k k'" by auto
  show ?case
  proof (cases "prune v")
    case None
    have "copy_entries copy m = copy @ prune_entries m"
      using Cons.prems e by (intro Cons.IH) auto
    with None e v show ?thesis by (simp add: SetWithoutPathExpansion_def)
  next
    case (Some c)
    have "copy_entries (copy @ [(k, c)]) m = (copy @ [(k, c)]) @ prune_entries m"
      using Cons.prems above e by (intro Cons.IH) auto
    with Some e v below show ?thesis by (simp add: SetWithoutPathExpansion_def dict_set_last)
  qed
qed simp

lemma copy_list_prune:
  "\<forall>v\<in>set vs. CopyWithoutEmptyChildren v = prune v \<Longrightarrow> copy_list vs = prune_list vs"
  by (induction vs) (auto split: option.split)

lemma copy_is_prune: "wf_tree v \<Longrightarrow> CopyWithoutEmptyChildren v = prune v"
proof (induction v)
  case (DictionaryValue m)
  have "\<forall>(k, v)\<in>set m. CopyWithoutEmptyChildren v = prune v"
    using DictionaryValue by (fastforce simp: wf_dict_iff)
  moreover have "dict_sorted m" using DictionaryValue.prems by (simp add: wf_dict_iff)
  ultimately show ?case by (simp add: copy_entries_prune Let_def)
next
  case (ListValue vs)
  then have "\<forall>v\<in>set vs. CopyWithoutEmptyChildren v = prune v" by (simp add: wf_list_iff)
  then show ?case by (simp add: copy_list_prune Let_def)
qed auto

text \<open>The leaves of a tree in order, and trees whose containers all hold something.\<close>

fun leaves :: "tree \<Rightarrow> tree list" where
  "leaves (DictionaryValue m) = concat (map (\<lambda>(k, v). leaves v) m)"
| "leaves (ListValue vs) = concat (map leaves vs)"
| "leaves v = [v]"

fun no_empty :: "tree \<Rightarrow> bool" where
  "no_empty (DictionaryValue m) = (m \<noteq> [] \<and> (\<forall>(k, v)\<in>set m. no_empty v))"
| "no_empty (ListValue vs) = (vs \<noteq> [] \<and> (\<forall>v\<in>set vs. no_empty v))"
| "no_empty v = True"

lemma leaves_prune: "concat (map leaves (case prune v of None \<Rightarrow> [] | Some c \<Rightarrow> [c])) = leaves v"
proof (induction v)
  case (DictionaryValue m)
  then have "\<forall>(k, v)\<in>set m. concat (map leaves (case prune v of None \<Rightarrow> [] | Some c \<Rightarrow> [c])) = leaves v"
    by fastforce
  then have "concat (map (\<lambda>(k, v). leaves v) (prune_entries m)) = concat (map (\<lambda>(k, v). leaves v) m)"
    by (induction m) (auto split: option.splits)
  then show ?case by auto
next
  case (ListValue vs)
  then have "\<forall>v\<in>set vs. concat (map leaves (case prune v of None \<Rightarrow> [] | Some c \<Rightarrow> [c])) = leaves v"
    by simp
  then have "concat (map leaves (prune_list vs)) = concat (map leaves vs)"
    by (induction vs) (auto split: option.splits)
  then show ?case by auto
qed auto

lemma no_empty_prune: "prune v = Some c \<Longrightarrow> no_empty c"
proof (induction v arbitrary: c)
  case (DictionaryValue m)
  then have "no_empty w" if "(k, w) \<in> set (prune_entries m)" for k w
    using that prune_entries_keys [OF that] by fastforce
  with DictionaryValue.prems show ?case by (auto split: if_splits)
next
  case (ListValue vs)
  then have "no_empty w" if "w \<in> set (prune_list vs)" for w using prune_list_from [OF that] by blast
  with ListValue.prems show ?case by (auto split: if_splits)
qed auto

lemma prune_no_empty: "no_empty v \<Longrightarrow> prune v = Some v"
proof (induction v)
  case (DictionaryValue m)
  then have "\<forall>(k, v)\<in>set m. prune v = Some v" by fastforce
  then have "prune_entries m = m" by (induction m) auto
  with DictionaryValue.prems show ?case by simp
next
  case (ListValue vs)
  then have "\<forall>v\<in>set vs. prune v = Some v" by auto
  then have "prune_list vs = vs" by (induction vs) auto
  with ListValue.prems show ?case by simp
qed auto

lemma dict_sorted_prune: "dict_sorted m \<Longrightarrow> dict_sorted (prune_entries m)"
  by (induction m) (auto split: option.splits dest!: prune_entries_keys)

lemma wf_prune: "wf_tree v \<Longrightarrow> prune v = Some c \<Longrightarrow> wf_tree c"
proof (induction v arbitrary: c)
  case (DictionaryValue m)
  then have "wf_tree w" if "(k, w) \<in> set (prune_entries m)" for k w
    using that prune_entries_keys [OF that] by (fastforce simp: wf_dict_iff)
  with DictionaryValue.prems show ?case
    by (auto simp: wf_dict_iff dict_sorted_prune split: if_splits)
next
  case (ListValue vs)
  then have "wf_tree w" if "w \<in> set (prune_list vs)" for w
    using prune_list_from [OF that] by (auto simp: wf_list_iff)
  with ListValue.prems show ?case by (auto simp: wf_list_iff split: if_splits)
qed auto

section \<open>Lists and merging\<close>

lemma wf_remove_equal: "wf_list vs \<Longrightarrow> wf_list (snd (remove_equal v n vs))"
  by (induction v n vs rule: remove_equal.induct) (auto simp: wf_list_iff split: prod.splits)

lemma wf_list_ops:
  assumes "wf_list vs" "wf_tree v"
  shows "wf_list (List_Append vs (Some v))" "wf_list (snd (List_Set vs i (Some v)))"
    "wf_list (snd (List_Remove vs i))" "wf_list (snd (List_RemoveValue vs v))"
    "wf_list (snd (AppendIfNotPresent vs (Some v)))" "wf_list (snd (List_Insert vs i (Some v)))"
  using assms wf_remove_equal [of vs v 0]
  by (auto simp: List_Append_def List_Set_def List_Remove_def List_RemoveValue_def
      AppendIfNotPresent_def List_Insert_def wf_list_iff
      dest: set_update_subset_insert [THEN subsetD] in_set_takeD in_set_dropD)

lemma wf_prune_entries: "wf_dict d \<Longrightarrow> wf_dict (prune_entries d)"
  using wf_prune [of "DictionaryValue d"] by (cases "prune_entries d = []") auto

lemma DeepCopyWithoutEmptyChildren_prune: "wf_dict d \<Longrightarrow> DeepCopyWithoutEmptyChildren d = prune_entries d"
  using copy_is_prune [of "DictionaryValue d"] by (simp add: DeepCopyWithoutEmptyChildren_def)

lemma GetDictionaryWithoutPathExpansion_child: "GetDictionaryWithoutPathExpansion d k = child_dict d k"
  by (simp add: GetDictionaryWithoutPathExpansion_def GetWithoutPathExpansion_def child_dict_def)

text \<open>What a merge leaves under a key.\<close>

definition merged :: "tree option \<Rightarrow> tree option \<Rightarrow> tree option" where
  "merged old new =
     (case new of
        None \<Rightarrow> old
      | Some (DictionaryValue sub) \<Rightarrow>
          (case old of
             Some (DictionaryValue c) \<Rightarrow> Some (DictionaryValue (MergeDictionary c sub))
           | _ \<Rightarrow> Some (DictionaryValue []))
      | Some v \<Rightarrow> Some (DeepCopy v))"

lemma dict_find_Merge:
  "dict_sorted m \<Longrightarrow> dict_find (MergeDictionary d m) k = merged (dict_find d k) (dict_find m k)"
proof (induction m arbitrary: d)
  case Nil
  then show ?case by (simp add: merged_def)
next
  case (Cons e m)
  obtain key w where e: "e = (key, w)" by (cases e)
  define d' where "d' = (case w of
      DictionaryValue sub \<Rightarrow>
        (case GetDictionaryWithoutPathExpansion d key of
           Some sub_dict \<Rightarrow> dict_set key (DictionaryValue (MergeDictionary sub_dict sub)) d
         | None \<Rightarrow> SetWithoutPathExpansion d key (Some (DeepCopy w)))
    | _ \<Rightarrow> SetWithoutPathExpansion d key (Some (DeepCopy w)))"
  have d': "dict_find d' j = (if j = key then merged (dict_find d key) (Some w) else dict_find d j)" for j
    by (auto simp: d'_def merged_def SetWithoutPathExpansion_def GetDictionaryWithoutPathExpansion_child
        child_dict_def split: tree.splits option.splits)
  have "dict_find m key = None" using Cons.prems e by (intro dict_find_above) auto
  moreover have "dict_find (MergeDictionary d' m) k = merged (dict_find d' k) (dict_find m k)"
    using Cons.prems e by (intro Cons.IH) auto
  moreover have "MergeDictionary d (e # m) = MergeDictionary d' m"
    by (simp only: e MergeDictionary.simps d'_def)
  moreover have "merged old None = old" for old by (simp add: merged_def)
  ultimately show ?case using d' e by simp
qed

section \<open>Properties\<close>

text \<open>C11: What is set under a path is what every later look-up of that path finds, whatever was
  stored on the way; a path that parts from it at some segment is not affected; and the typed
  getters find the value only under its own type.\<close>

theorem set_then_get:
  "Dict_Get (Dict_Set d p (Some v)) p = Some v \<and>
   (\<forall>q. diverge (segments p) (segments q) \<longrightarrow> Dict_Get (Dict_Set d p (Some v)) q = Dict_Get d q) \<and>
   GetBigInteger (SetBigInteger d p i) p = Some i \<and> GetString (SetBigInteger d p i) p = None \<and>
   GetString (SetString d p s) p = Some s \<and> GetBigInteger (SetString d p s) p = None \<and>
   GetBigInteger (SetInteger d p j) p = None"
  by (simp add: Dict_Get_Set Dict_Get_Set_other SetBigInteger_def SetString_def SetInteger_def
      GetBigInteger_def GetString_def)

theorem set_then_get_witness:
  "Dict_Get (Dict_Set [(wide ''a'', NullValue)] (wide ''b.c'') (Some (BooleanValue True))) (wide ''a'')
     = Some NullValue"
proof -
  have "diverge (segments (wide ''b.c'')) (segments (wide ''a''))" by code_simp
  then have "Dict_Get (Dict_Set [(wide ''a'', NullValue)] (wide ''b.c'') (Some (BooleanValue True)))
      (wide ''a'') = Dict_Get [(wide ''a'', NullValue)] (wide ''a'')"
    using set_then_get [of "[(wide ''a'', NullValue)]" "wide ''b.c''" "BooleanValue True"] by blast
  also have "\<dots> = Some NullValue" by code_simp
  finally show ?thesis .
qed

text \<open>Every operation that changes a dictionary or a list keeps all dictionaries of the tree in
  strict key order, so that no key ever occurs twice.\<close>

theorem operations_keep_key_order:
  assumes "wf_dict d" and "wf_dict e" and "wf_list vs" and "wf_tree v"
  shows "wf_dict (Dict_Set d path (Some v)) \<and> wf_dict (Dict_SetUtf8 d name (Some v)) \<and>
    wf_dict (SetWithoutPathExpansion d key (Some v)) \<and> wf_dict (snd (Dict_Remove d path)) \<and>
    wf_dict (snd (RemoveWithoutPathExpansion d key)) \<and> wf_dict (MergeDictionary d e) \<and>
    wf_dict (DeepCopyWithoutEmptyChildren d) \<and> wf_tree (DeepCopy v) \<and>
    wf_list (List_Append vs (Some v)) \<and> wf_list (snd (List_Set vs i (Some v))) \<and>
    wf_list (snd (List_Remove vs i)) \<and> wf_list (snd (List_RemoveValue vs v)) \<and>
    wf_list (snd (AppendIfNotPresent vs (Some v))) \<and> wf_list (snd (List_Insert vs i (Some v)))"
  using assms wf_list_ops [OF assms(3,4)]
  by (simp add: Dict_Set_def Dict_SetUtf8_def wf_set_segments Dict_Remove_def
      SetWithoutPathExpansion_def
      wf_remove_segments RemoveWithoutPathExpansion_def wf_MergeDictionary
      DeepCopyWithoutEmptyChildren_prune wf_prune_entries)

theorem operations_keep_key_order_witness:
  "wf_dict (MergeDictionary [(wide ''a'', NullValue)] [(wide ''b'', ListValue [])])"
  using operations_keep_key_order [of "[(wide ''a'', NullValue)]" "[(wide ''b'', ListValue [])]" "[]"
      NullValue] by (simp add: wf_dict_iff)

text \<open>C9: The copy without empty children, built by inserting each surviving child into a new
  dictionary, is the reference pruning: no container of it is empty, its leaves are the leaves
  of the original in their order, and pruning it again changes nothing.\<close>

theorem pruning_is_the_reference:
  assumes "wf_dict d"
  shows "DeepCopyWithoutEmptyChildren d = prune_entries d \<and>
    (\<forall>(k, c)\<in>set (DeepCopyWithoutEmptyChildren d). no_empty c) \<and>
    leaves (DictionaryValue (DeepCopyWithoutEmptyChildren d)) = leaves (DictionaryValue d) \<and>
    DeepCopyWithoutEmptyChildren (DeepCopyWithoutEmptyChildren d) = DeepCopyWithoutEmptyChildren d"
proof -
  have "leaves (DictionaryValue (prune_entries d)) = leaves (DictionaryValue d)"
    using leaves_prune [of "DictionaryValue d"] by (simp split: if_splits)
  moreover have ne: "\<forall>(k, c)\<in>set (prune_entries d). no_empty c"
    by (auto dest: prune_entries_keys no_empty_prune)
  moreover have "prune_entries (prune_entries d) = prune_entries d"
    using prune_no_empty [of "DictionaryValue (prune_entries d)"] ne
    by (cases "prune_entries d = []") (auto split: if_splits)
  ultimately show ?thesis
    using assms by (simp add: DeepCopyWithoutEmptyChildren_prune wf_prune_entries)
qed

theorem pruning_is_the_reference_witness:
  "DeepCopyWithoutEmptyChildren
     [(wide ''a'', ListValue [DictionaryValue []]), (wide ''b'', ListValue [NullValue, ListValue []])]
   = [(wide ''b'', ListValue [NullValue])]"
proof -
  have "wf_dict [(wide ''a'', ListValue [DictionaryValue []]), (wide ''b'', ListValue [NullValue, ListValue []])]"
    by (simp add: wf_dict_iff wf_list_iff, code_simp)
  from pruning_is_the_reference [OF this] show ?thesis by simp
qed

text \<open>C10: After a merge every key holds what merged says: the old value where the merged dictionary
  has no entry, the two dictionaries merged where both have one, a copy of a new leaf or list
  - and an empty dictionary in place of a new one, because DictionaryValue::DeepCopy copies no
  entry.\<close>

theorem merge_result:
  assumes "dict_sorted m"
  shows "dict_find (MergeDictionary d m) k = merged (dict_find d k) (dict_find m k) \<and>
    DeepCopy (DictionaryValue e) = DictionaryValue []"
  using assms by (simp add: dict_find_Merge)

theorem merge_result_witness:
  "dict_find (MergeDictionary [] [(wide ''a'', DictionaryValue [(wide ''b'', NullValue)])]) (wide ''a'')
     = Some (DictionaryValue [])"
  using merge_result [of "[(wide ''a'', DictionaryValue [(wide ''b'', NullValue)])]" "[]" "wide ''a''"]
  by (simp add: merged_def)

text \<open>A list never recognises a big integer it already holds: \<^verbatim>\<open>FundamentalValue::Equals\<close>
  has no case for it, so \<^verbatim>\<open>AppendIfNotPresent\<close> appends it again and \<^verbatim>\<open>Remove\<close> does not find it;
  and any two dictionaries count as equal.\<close>

theorem big_integers_are_never_equal:
  "AppendIfNotPresent vs (Some (BigIntegerValue i)) =
     (True, vs @ [BigIntegerValue i]) \<and>
   List_RemoveValue [BigIntegerValue i] (BigIntegerValue i) = (-1, [BigIntegerValue i]) \<and>
   Equals (DictionaryValue d) (DictionaryValue e)"
proof -
  have "\<not> Equals w (BigIntegerValue i)" for w by (cases w) auto
  then show ?thesis by (simp add: AppendIfNotPresent_def List_RemoveValue_def)
qed

end
