(* ===== verification/NumberText.thy ===== *)
theory NumberText
  imports Unicode
begin

text \<open>
  Numbers as text and escaped strings: \<^verbatim>\<open>StringToInt64\<close> and \<^verbatim>\<open>Int64ToString\<close> of
  \<^verbatim>\<open>src/server/public/basic/basic_util.{h,cc}\<close> with \<^verbatim>\<open>strtoll\<close> of the C library, and the
  escapes of \<^verbatim>\<open>src/server/base/logic/string_escape.cc\<close>.  The floating-point conversions
  \<^verbatim>\<open>dmg_fp::strtod\<close> and \<^verbatim>\<open>dmg_fp::g_fmt\<close> are a vendored third-party package
  (\<^verbatim>\<open>src/server/third_party/dmg_fp\<close>): they are the parameters \<open>strtod\<close> and \<open>g_fmt\<close>, of which
  nothing is assumed.
\<close>

section \<open>Integers\<close>

definition take_digits :: "byte list \<Rightarrow> byte list" where
  "take_digits s = takeWhile is_digit s"

text \<open>\<^verbatim>\<open>strtoll\<close>: the value, how many bytes it read, and whether \<^verbatim>\<open>errno\<close> is \<^verbatim>\<open>ERANGE\<close>.\<close>

definition strtoll :: "byte list \<Rightarrow> int \<times> nat \<times> bool" where
  "strtoll s =
     (let blanks = length (takeWhile is_blank s); r = drop blanks s;
          sign = (case r of b # _ \<Rightarrow> b = 0x2D \<or> b = 0x2B | [] \<Rightarrow> False);
          ds = take_digits (if sign then tl r else r);
          v = digits_value 0 ds; v = (if sign \<and> hd r = 0x2D then - v else v) in
      if ds = [] then (0, 0, False)
      else if v < - (2 ^ 63) then (- (2 ^ 63), blanks + (if sign then 1 else 0) + length ds, True)
      else if 2 ^ 63 \<le> v then (2 ^ 63 - 1, blanks + (if sign then 1 else 0) + length ds, True)
      else (v, blanks + (if sign then 1 else 0) + length ds, False))"

definition StringToInt64 :: "byte list \<Rightarrow> int64 option" where
  "StringToInt64 input =
     (let (v, n, erange) = strtoll (c_string input) in
      if \<not> erange \<and> input \<noteq> [] \<and> n = length input \<and> \<not> is_blank (hd input)
      then Some (word_of_int v) else None)"

text \<open>\<^verbatim>\<open>IntToStringT\<close>: the digits are written from the right, then the sign.\<close>

fun int_to_string :: "nat \<Rightarrow> byte list \<Rightarrow> byte list" where
  "int_to_string res out =
     (let out = of_nat (res mod 10 + 0x30) # out in
      if res div 10 = 0 then out else int_to_string (res div 10) out)"

declare int_to_string.simps [simp del]

definition Int64ToString :: "int64 \<Rightarrow> byte list" where
  "Int64ToString value =
     (let is_neg = value <s 0; res = unat (if value <s 0 then - value else value);
          out = int_to_string res [] in
      if is_neg then 0x2D # out else out)"

section \<open>Floating-point numbers\<close>

type_synonym strtod = "byte list \<Rightarrow> 64 word \<times> nat \<times> bool"
type_synonym g_fmt = "64 word \<Rightarrow> byte list"

definition StringToDouble :: "strtod \<Rightarrow> byte list \<Rightarrow> 64 word option" where
  "StringToDouble strtod input =
     (let (v, n, erange) = strtod (c_string input) in
      if \<not> erange \<and> input \<noteq> [] \<and> n = length input \<and> \<not> is_blank (hd input) then Some v else None)"

definition real_finite :: "64 word \<Rightarrow> bool" where
  "real_finite r \<longleftrightarrow> take_bit 63 r < 0x7FF0000000000000"

section \<open>Escapes\<close>

fun SingleEscapeChar :: "byte \<Rightarrow> byte list option" where
  "SingleEscapeChar c =
     (if c = 0x08 then Some (ascii [CHR 0x5C, CHR ''b''])
      else if c = 0x0C then Some (ascii [CHR 0x5C, CHR ''f''])
      else if c = 0x0A then Some (ascii [CHR 0x5C, CHR ''n''])
      else if c = 0x0D then Some (ascii [CHR 0x5C, CHR ''r''])
      else if c = 0x09 then Some (ascii [CHR 0x5C, CHR ''t''])
      else if c = 0x5C then Some [0x5C, 0x5C]
      else if c = 0x22 then Some [0x5C, 0x22]
      else None)"

text \<open>The branch on \<^verbatim>\<open>c < 32 || c > 126\<close> appends the same byte as its other side.\<close>

definition escape_char :: "byte \<Rightarrow> byte list" where
  "escape_char c = (case SingleEscapeChar c of Some e \<Rightarrow> e | None \<Rightarrow> [c])"

definition HttpDoubleQuote :: "byte list \<Rightarrow> byte list" where
  "HttpDoubleQuote s = concat (map escape_char s)"

definition JsonDoubleQuote :: "byte list \<Rightarrow> bool \<Rightarrow> byte list" where
  "JsonDoubleQuote s put_in_quotes =
     (if put_in_quotes then [0x22] else []) @ concat (map escape_char s) @
     (if put_in_quotes then [0x22] else [])"

definition XMLDoubleQuote :: "byte list \<Rightarrow> byte list" where
  "XMLDoubleQuote s = concat (map escape_char s)"

end
