(* ===== verification/HttpSerializer.thy ===== *)
theory HttpSerializer
  imports ValueTree NumberText
begin

text \<open>
  The parser and the writer of query strings, \<^verbatim>\<open>src/server/base/logic/http_serializer.{h,cc}\<close>:
  every request of the service plug-ins goes through \<^verbatim>\<open>HttpValueSerializer::Deserialize\<close>.  The
  text is the contents of a wide string; a pointer into it is an index, and the index just
  behind the contents holds the terminator.  Reading behind the terminator is undefined, and
  every function that reads returns \<open>None\<close> for it; \<^verbatim>\<open>NULL\<close> is the \<open>None\<close> inside.
\<close>

section \<open>Tokens\<close>

datatype token_type =
  STRING | NUMBER | BOOL_TRUE | BOOL_FALSE | NULL_TOKEN | LIST_SEPARATOR | OBJECT_PAIR_SEPARATOR |
  OBJECT_BEGIN | OBJECT_END | ARRAY_BEGIN | ARRAY_END | END_OF_INPUT | INVALID_TOKEN

record token =
  token_type :: token_type
  token_begin :: nat
  token_length :: nat

datatype ParseError =
  NO_ERROR | BAD_ROOT_ELEENT_TYPE | INVALID_ESCAPE | SYNTAX_ERROR | TRAILING_COMMA |
  TOO_MUCH_NESTING | UNEXPECTED_DATA_AFTER_ROOT | UNSUPPORTED_ENCODING | UNQUOTED_DICTIONARY_KEY

definition Token :: "token_type \<Rightarrow> nat \<Rightarrow> nat \<Rightarrow> token" where
  "Token t b n = \<lparr>token_type = t, token_begin = b, token_length = n\<rparr>"

definition kInvalidToken :: token where
  "kInvalidToken = Token INVALID_TOKEN 0 0"

text \<open>\<^verbatim>\<open>*(p)\<close> for a pointer into the text.\<close>

definition char_at :: "wstring \<Rightarrow> nat \<Rightarrow> wchar option" where
  "char_at t p = (if p < length t then Some (t ! p) else if p = length t then Some 0 else None)"

definition NextChar :: "wstring \<Rightarrow> token \<Rightarrow> wchar option" where
  "NextChar t token = char_at t (token_begin token + token_length token)"

definition substring :: "wstring \<Rightarrow> nat \<Rightarrow> nat \<Rightarrow> wstring option" where
  "substring t b n = (if b + n \<le> length t + 1 then Some (take n (drop b (t @ [0]))) else None)"

text \<open>Comparisons of \<^verbatim>\<open>wchar_t\<close> are signed.\<close>

definition wide_digit :: "wchar \<Rightarrow> bool" where
  "wide_digit c \<longleftrightarrow> 0x30 <=s c \<and> c <=s 0x39"

definition hex_char :: "wchar \<Rightarrow> bool" where
  "hex_char c \<longleftrightarrow> wide_digit c \<or> (0x61 <=s c \<and> c <=s 0x66) \<or> (0x41 <=s c \<and> c <=s 0x46)"

definition HexToInt :: "wchar \<Rightarrow> int32" where
  "HexToInt c =
     (if 0x30 <=s c \<and> c <=s 0x39 then c - 0x30
      else if 0x41 <=s c \<and> c <=s 0x46 then c - 0x41 + 10
      else if 0x61 <=s c \<and> c <=s 0x66 then c - 0x61 + 10
      else 0)"

section \<open>Scanning\<close>

fun match_string :: "wstring \<Rightarrow> nat \<Rightarrow> nat \<Rightarrow> wstring \<Rightarrow> bool option" where
  "match_string t p i [] = Some True"
| "match_string t p i (c # str) =
     Option.bind (char_at t p) (\<lambda>first.
       if first = 0 then Some False
       else Option.bind (char_at t (p + i)) (\<lambda>x.
         if x \<noteq> c then Some False else match_string t p (i + 1) str))"

definition NextStringMatch :: "wstring \<Rightarrow> nat \<Rightarrow> wstring \<Rightarrow> bool option" where
  "NextStringMatch t p str = match_string t p 0 str"

text \<open>The loop of \<^verbatim>\<open>NextNumberMatch\<close>: where it stops, or \<open>None\<close> when it returns false.\<close>

function scan_number :: "wstring \<Rightarrow> nat \<Rightarrow> nat \<Rightarrow> nat option option" where
  "scan_number t p spot =
     (case char_at t p of
        None \<Rightarrow> None
      | Some c \<Rightarrow>
          (if c = 0x26 \<or> c = 0 then Some (Some p)
           else if wide_digit c then scan_number t (p + 1) spot
           else if c = 0x2E then
             (if 1 < spot + 1 then Some None else scan_number t (p + 1) (spot + 1))
           else if c = 0x65 \<or> c = 0x45 then scan_number t (p + 1) spot
           else if c = 0x2D \<or> c = 0x2B then scan_number t (p + 1) spot
           else Some None))"
  by pat_completeness auto
termination
  by (relation "measure (\<lambda>(t, p, _). length t + 1 - p)")
    (auto simp: char_at_def split: if_splits)

declare scan_number.simps [simp del]

definition NextNumberMatch :: "wstring \<Rightarrow> nat \<Rightarrow> bool option" where
  "NextNumberMatch t p0 =
     map_option (\<lambda>r. case r of None \<Rightarrow> False | Some p \<Rightarrow> \<not> 19 < p - p0)
       (scan_number t p0 0)"

text \<open>How many digits stand at \<open>p\<close>.\<close>

function count_digits :: "wstring \<Rightarrow> nat \<Rightarrow> nat option" where
  "count_digits t p =
     (case char_at t p of
        None \<Rightarrow> None
      | Some c \<Rightarrow>
          (if c \<noteq> 0 \<and> wide_digit c then map_option Suc (count_digits t (p + 1)) else Some 0))"
  by pat_completeness auto
termination
  by (relation "measure (\<lambda>(t, p). length t + 1 - p)") (auto simp: char_at_def split: if_splits)

declare count_digits.simps [simp del]

definition ReadInt :: "wstring \<Rightarrow> token \<Rightarrow> bool \<Rightarrow> (bool \<times> token) option" where
  "ReadInt t token can_have_leading_zeros =
     Option.bind (NextChar t token) (\<lambda>first.
     Option.bind (count_digits t (token_begin token + token_length token)) (\<lambda>len.
       let token = token\<lparr>token_length := token_length token + len\<rparr> in
       Some (if len = 0 then (False, token)
             else if \<not> can_have_leading_zeros \<and> 1 < len \<and> first = 0x30 then (False, token)
             else (True, token))))"

definition longer :: "nat \<Rightarrow> token \<Rightarrow> token" where
  "longer n token = token\<lparr>token_length := token_length token + n\<rparr>"

text \<open>A sign, when one of \<open>signs\<close> was read, and the character after it.\<close>

definition past_sign :: "wstring \<Rightarrow> wchar list \<Rightarrow> token \<Rightarrow> wchar \<Rightarrow> token option" where
  "past_sign t signs token c =
     (if c \<in> set signs then map_option (\<lambda>_. longer 1 token) (NextChar t (longer 1 token))
      else Some token)"

text \<open>The exponent of \<^verbatim>\<open>ParseNumberToken\<close>, then its fraction, then the whole number.\<close>

definition parse_exponent :: "wstring \<Rightarrow> token \<Rightarrow> token option" where
  "parse_exponent t token =
     Option.bind (NextChar t token) (\<lambda>c.
       if c = 0x65 \<or> c = 0x45 then
         Option.bind (NextChar t (longer 1 token)) (\<lambda>c.
         Option.bind (past_sign t [0x2D, 0x2B] (longer 1 token) c) (\<lambda>token.
           map_option (\<lambda>(ok, token). if ok then token else kInvalidToken) (ReadInt t token True)))
       else Some token)"

definition parse_fraction :: "wstring \<Rightarrow> token \<Rightarrow> token option" where
  "parse_fraction t token =
     Option.bind (NextChar t token) (\<lambda>c.
       if c = 0x2E then
         Option.bind (ReadInt t (longer 1 token) True) (\<lambda>(ok, token).
           if ok then parse_exponent t token else Some kInvalidToken)
       else parse_exponent t token)"

definition ParseNumberToken :: "wstring \<Rightarrow> nat \<Rightarrow> token option" where
  "ParseNumberToken t p =
     Option.bind (char_at t p) (\<lambda>c.
     Option.bind (past_sign t [0x2D] (Token NUMBER p 0) c) (\<lambda>token.
     Option.bind (ReadInt t token False) (\<lambda>(ok, token).
       if ok then parse_fraction t token else Some kInvalidToken)))"

fun hex_digits_at :: "wstring \<Rightarrow> nat \<Rightarrow> nat \<Rightarrow> bool option" where
  "hex_digits_at t p 0 = Some True"
| "hex_digits_at t p (Suc n) =
     Option.bind (char_at t p) (\<lambda>c.
       if c = 0 then Some False else if \<not> hex_char c then Some False
       else hex_digits_at t (p + 1) n)"

definition ReadHexDigits :: "wstring \<Rightarrow> token \<Rightarrow> nat \<Rightarrow> (bool \<times> token) option" where
  "ReadHexDigits t token digits =
     map_option (\<lambda>ok. (ok, if ok then longer digits token else token))
       (hex_digits_at t (token_begin token + token_length token + 1) digits)"

definition single_escapes :: "wstring" where
  "single_escapes = wide [CHR 0x5C, CHR ''/'', CHR ''b'', CHR ''f'', CHR ''n'', CHR ''r'', CHR ''t'',
     CHR ''v'', CHR 0x22]"

text \<open>The loop of \<^verbatim>\<open>ParseStringToken\<close> from the token read so far.\<close>

function string_token :: "wstring \<Rightarrow> token \<Rightarrow> token option" where
  "string_token t token =
     (case NextChar t token of
        None \<Rightarrow> None
      | Some c \<Rightarrow>
          (if c = 0 then Some token
           else if c = 0x5C then
             (let token = longer 1 token in
              case NextChar t token of
                None \<Rightarrow> None
              | Some c \<Rightarrow>
                  (if c = 0x78 \<or> c = 0x75 then
                     (case ReadHexDigits t token (if c = 0x78 then 2 else 4) of
                        None \<Rightarrow> None
                      | Some (ok, token) \<Rightarrow>
                          (if ok then string_token t (longer 1 token) else Some kInvalidToken))
                   else if c \<in> set single_escapes then string_token t (longer 1 token)
                   else Some (longer 1 token)))
           else if c = 0x26 \<or> c = 0x3D then Some token
           else string_token t (longer 1 token)))"
  by pat_completeness auto
termination
  by (relation "measure (\<lambda>(t, k). length t + 1 - (token_begin k + token_length k))")
    (auto simp: NextChar_def char_at_def longer_def ReadHexDigits_def split: if_splits)

declare string_token.simps [simp del]

definition ParseStringToken :: "wstring \<Rightarrow> nat \<Rightarrow> token option" where
  "ParseStringToken t p = string_token t (Token STRING p 0)"

section \<open>Decoding\<close>

definition DecodeNumber :: "strtod \<Rightarrow> wstring \<Rightarrow> token \<Rightarrow> tree option option" where
  "DecodeNumber strtod t token =
     Option.bind (substring t (token_begin token) (token_length token)) (\<lambda>num_wstring.
       let num_string = WideToASCII num_wstring in
       Some (case StringToInt64 num_string of
               Some num_int64 \<Rightarrow> Some (BigIntegerValue num_int64)
             | None \<Rightarrow>
                 (case StringToDouble strtod num_string of
                    Some num_double \<Rightarrow>
                      (if real_finite num_double then Some (RealValue num_double) else None)
                  | None \<Rightarrow> None)))"

definition hex2 :: "wchar \<Rightarrow> wchar \<Rightarrow> wchar" where
  "hex2 a b = push_bit 4 (HexToInt a) + HexToInt b"

definition hex4 :: "wchar \<Rightarrow> wchar \<Rightarrow> wchar \<Rightarrow> wchar \<Rightarrow> wchar" where
  "hex4 a b c d =
     push_bit 12 (HexToInt a) + push_bit 8 (HexToInt b) + push_bit 4 (HexToInt c) + HexToInt d"

definition single_escape :: "wchar \<Rightarrow> wchar option" where
  "single_escape c =
     (if c = 0x22 \<or> c = 0x2F \<or> c = 0x5C then Some c
      else if c = 0x62 then Some 0x08 else if c = 0x66 then Some 0x0C
      else if c = 0x6E then Some 0x0A else if c = 0x72 then Some 0x0D
      else if c = 0x74 then Some 0x09 else if c = 0x76 then Some 0x0B else None)"

text \<open>The loop of \<^verbatim>\<open>DecodeString\<close>; \<open>n\<close> is \<^verbatim>\<open>token.length - i\<close> and \<open>p\<close> is
  \<^verbatim>\<open>token.begin + i\<close>.  An escape may take the index past the length of the token.\<close>

function decode_chars :: "wstring \<Rightarrow> nat \<Rightarrow> nat \<Rightarrow> wstring \<Rightarrow> wstring option option" where
  "decode_chars t p n decoded =
     (if n = 0 then Some (Some decoded)
      else (case char_at t p of
        None \<Rightarrow> None
      | Some c \<Rightarrow>
          (if c \<noteq> 0x5C then decode_chars t (p + 1) (n - 1) (decoded @ [c])
           else (case char_at t (p + 1) of
             None \<Rightarrow> None
           | Some e \<Rightarrow>
               (case single_escape e of
                  Some d \<Rightarrow> decode_chars t (p + 2) (n - 2) (decoded @ [d])
                | None \<Rightarrow>
                    (if e = 0x78 then
                       Option.bind (char_at t (p + 2)) (\<lambda>a.
                       Option.bind (char_at t (p + 3)) (\<lambda>b.
                         decode_chars t (p + 4) (n - 4) (decoded @ [hex2 a b])))
                     else if e = 0x75 then
                       Option.bind (char_at t (p + 2)) (\<lambda>a.
                       Option.bind (char_at t (p + 3)) (\<lambda>b.
                       Option.bind (char_at t (p + 4)) (\<lambda>c.
                       Option.bind (char_at t (p + 5)) (\<lambda>d.
                         decode_chars t (p + 6) (n - 6) (decoded @ [hex4 a b c d])))))
                     else Some None))))))"
  by pat_completeness auto
termination
  by (relation "measure (\<lambda>(t, p, n, _). n)") auto

declare decode_chars.simps [simp del]

definition DecodeString :: "wstring \<Rightarrow> token \<Rightarrow> tree option option" where
  "DecodeString t token =
     map_option (map_option CreateStringValueWide)
       (decode_chars t (token_begin token) (token_length token) [])"

section \<open>The parser\<close>

record http_parser =
  start_pos :: nat
  http_pos :: nat
  stack_depth :: nat
  error_code :: ParseError
  error_line :: nat
  error_col :: nat

definition kStackLimit :: nat where
  "kStackLimit = 100"

text \<open>Line and column of an error, counted from the start; \<open>None\<close> when the terminator is met
  first and the error is not recorded.\<close>

fun error_position :: "wstring \<Rightarrow> nat \<Rightarrow> nat \<Rightarrow> nat \<Rightarrow> nat \<Rightarrow> (nat \<times> nat) option" where
  "error_position t p 0 line col = Some (line, col)"
| "error_position t p (Suc n) line col =
     (case char_at t p of
        None \<Rightarrow> None
      | Some c \<Rightarrow>
          (if c = 0 then None
           else if c = 0x0A then error_position t (p + 1) n (line + 1) 1
           else error_position t (p + 1) n line (col + 1)))"

definition SetErrorCode :: "wstring \<Rightarrow> ParseError \<Rightarrow> nat \<Rightarrow> http_parser \<Rightarrow> http_parser" where
  "SetErrorCode t error pos h =
     (case error_position t (start_pos h) (pos - start_pos h) 1 1 of
        None \<Rightarrow> h
      | Some (line, col) \<Rightarrow> h\<lparr>error_line := line, error_col := col, error_code := error\<rparr>)"

function eat_blanks :: "wstring \<Rightarrow> nat \<Rightarrow> nat option" where
  "eat_blanks t p =
     (case char_at t p of
        None \<Rightarrow> None
      | Some c \<Rightarrow>
          (if c = 0x20 \<or> c = 0x0D \<or> c = 0x09 then eat_blanks t (p + 1) else Some p))"
  by pat_completeness auto
termination
  by (relation "measure (\<lambda>(t, p). length t + 1 - p)") (auto simp: char_at_def split: if_splits)

declare eat_blanks.simps [simp del]

definition EatWhitesspaceAndComments :: "wstring \<Rightarrow> http_parser \<Rightarrow> http_parser option" where
  "EatWhitesspaceAndComments t h =
     map_option (\<lambda>p. h\<lparr>http_pos := p\<rparr>) (eat_blanks t (http_pos h))"

definition keyword_token :: "wstring \<Rightarrow> nat \<Rightarrow> string \<Rightarrow> token_type \<Rightarrow> token option" where
  "keyword_token t p keyword k =
     Option.bind (NextStringMatch t p (wide keyword)) (\<lambda>match.
       if match then Some (Token k p 4) else ParseStringToken t p)"

definition token_at :: "wstring \<Rightarrow> nat \<Rightarrow> token option" where
  "token_at t p =
     Option.bind (char_at t p) (\<lambda>c.
       if c = 0x6E then keyword_token t p ''null'' NULL_TOKEN
       else if c = 0x74 then keyword_token t p ''true'' BOOL_TRUE
       else if c = 0x66 then keyword_token t p ''false'' BOOL_FALSE
       else if c = 0x26 then Some (Token LIST_SEPARATOR p 1)
       else if c = 0x3D then Some (Token OBJECT_PAIR_SEPARATOR p 1)
       else if wide_digit c \<or> c = 0x2D then
         Option.bind (NextNumberMatch t p) (\<lambda>match.
           if match then ParseNumberToken t p else ParseStringToken t p)
       else if c = 0 then Some (Token OBJECT_END p 0)
       else ParseStringToken t p)"

definition ParseToken :: "wstring \<Rightarrow> http_parser \<Rightarrow> (token \<times> http_parser) option" where
  "ParseToken t h =
     Option.bind (EatWhitesspaceAndComments t h) (\<lambda>h.
       map_option (\<lambda>token. (token, h)) (token_at t (http_pos h)))"

definition past_token :: "token \<Rightarrow> http_parser \<Rightarrow> http_parser" where
  "past_token token h = h\<lparr>http_pos := http_pos h + token_length token\<rparr>"

type_synonym built = "(tree option \<times> http_parser) option"

text \<open>The end of an object, and what follows a value in it: the end, or another entry, which
  \<open>loop\<close> reads.\<close>

definition object_end :: "dict \<Rightarrow> token \<Rightarrow> http_parser \<Rightarrow> built" where
  "object_end node token h =
     (let h = past_token token h in
      Some (Some (DictionaryValue node), h\<lparr>stack_depth := stack_depth h - 1\<rparr>))"

definition object_rest ::
  "wstring \<Rightarrow> (dict \<Rightarrow> token \<Rightarrow> http_parser \<Rightarrow> built) \<Rightarrow> dict \<Rightarrow> http_parser \<Rightarrow> built" where
  "object_rest t loop node h =
     Option.bind (ParseToken t h) (\<lambda>(token, h).
       if token_type token = LIST_SEPARATOR then
         Option.bind (ParseToken t (past_token token h)) (\<lambda>(token, h). loop node token h)
       else if token_type token = OBJECT_END then object_end node token h
       else Some (None, h))"

text \<open>The loop of the case \<^verbatim>\<open>OBJECT_BEGIN\<close>: \<open>build\<close> is the recursive call
  \<^verbatim>\<open>BuildValue(false)\<close>, \<open>n\<close> bounds the number of turns.\<close>

primrec object_loop ::
  "wstring \<Rightarrow> (http_parser \<Rightarrow> built) \<Rightarrow> nat \<Rightarrow> dict \<Rightarrow> token \<Rightarrow> http_parser \<Rightarrow> built" where
  "object_loop t build 0 node token h = None"
| "object_loop t build (Suc n) node token h =
     (if token_type token = OBJECT_END then object_end node token h
      else if token_type token \<noteq> STRING then
        Some (None, SetErrorCode t UNQUOTED_DICTIONARY_KEY (http_pos h) h)
      else
        Option.bind (DecodeString t token) (\<lambda>dict_key_value.
          case Option.bind dict_key_value GetAsWString of
            None \<Rightarrow> Some (None, h)
          | Some dict_key \<Rightarrow>
              Option.bind (ParseToken t (past_token token h)) (\<lambda>(token, h).
                if token_type token \<noteq> OBJECT_PAIR_SEPARATOR then Some (None, h)
                else
                  Option.bind (ParseToken t (past_token token h)) (\<lambda>(_, h).
                  Option.bind (build h) (\<lambda>(dict_value, h).
                    let dict_value = (case dict_value of None \<Rightarrow> StringValue [] | Some v \<Rightarrow> v) in
                    object_rest t (object_loop t build n)
                      (SetWithoutPathExpansion node dict_key (Some dict_value)) h)))))"

text \<open>\<^verbatim>\<open>BuildValue\<close>, with a bound \<open>d\<close> on the depth of the recursion.\<close>

primrec BuildValue :: "strtod \<Rightarrow> nat \<Rightarrow> wstring \<Rightarrow> bool \<Rightarrow> http_parser \<Rightarrow> built" where
  "BuildValue strtod 0 t is_root h = None"
| "BuildValue strtod (Suc d) t is_root h =
     (let h = h\<lparr>stack_depth := stack_depth h + 1\<rparr> in
      if kStackLimit < stack_depth h then
        Some (None, SetErrorCode t TOO_MUCH_NESTING (http_pos h) h)
      else
        Option.bind
          (if is_root then Some (Token OBJECT_BEGIN (http_pos h) 0, h) else ParseToken t h)
          (\<lambda>(token, h).
            let leaf = (\<lambda>node. let h = past_token token h in
                          Some (Some node, h\<lparr>stack_depth := stack_depth h - 1\<rparr>));
                decoded = (\<lambda>node. case node of None \<Rightarrow> Some (None, h) | Some v \<Rightarrow> leaf v) in
            case token_type token of
              NULL_TOKEN \<Rightarrow> leaf NullValue
            | BOOL_TRUE \<Rightarrow> leaf (BooleanValue True)
            | BOOL_FALSE \<Rightarrow> leaf (BooleanValue False)
            | STRING \<Rightarrow> Option.bind (DecodeString t token) decoded
            | NUMBER \<Rightarrow> Option.bind (DecodeNumber strtod t token) decoded
            | OBJECT_BEGIN \<Rightarrow>
                Option.bind (ParseToken t (past_token token h)) (\<lambda>(token, h).
                  object_loop t (BuildValue strtod d t False) (length t + 1) [] token h)
            | _ \<Rightarrow> Some (None, h)))"

text \<open>The parser starts behind a byte order mark.\<close>

definition text_start :: "wstring \<Rightarrow> nat" where
  "text_start t = (if t \<noteq> [] \<and> t ! 0 = 0xFEFF then 1 else 0)"

definition new_parser :: "nat \<Rightarrow> http_parser" where
  "new_parser start =
     \<lparr>start_pos = start, http_pos = start, stack_depth = 0, error_code = NO_ERROR,
      error_line = 0, error_col = 0\<rparr>"

text \<open>\<^verbatim>\<open>Deserialize\<close>: the last byte of the message is overwritten by a terminator.  The result
  is the value, the message as it is left, and the parser; \<^verbatim>\<open>error_code == 0\<close> compares the
  pointer of the caller, which is never null.\<close>

definition Deserialize ::
  "strtod \<Rightarrow> byte list \<Rightarrow> (tree option \<times> byte list \<times> http_parser) option" where
  "Deserialize strtod http_string =
     (if http_string = [] then None
      else
        (let http_string = http_string[length http_string - 1 := 0];
             http_wide = UTF8ToWide http_string in
         Option.bind (BuildValue strtod (kStackLimit + 1) http_wide True (new_parser (text_start http_wide))) (\<lambda>(root, h).
           case root of
             None \<Rightarrow> Some (None, http_string, h)
           | Some v \<Rightarrow>
               Option.bind (ParseToken http_wide h) (\<lambda>(token, h).
                 if token_type token = END_OF_INPUT then Some (Some v, http_string, h)
                 else
                   Option.bind (ParseToken http_wide h) (\<lambda>(token, h).
                     if token_type token = LIST_SEPARATOR then Some (Some v, http_string, h)
                     else Some (Some v, http_string,
                            SetErrorCode http_wide UNEXPECTED_DATA_AFTER_ROOT (http_pos h) h))))))"

section \<open>The writer\<close>

definition real_text :: "byte list \<Rightarrow> byte list" where
  "real_text real =
     (if real \<noteq> [] \<and> real ! 0 = 0x2E then 0x30 # real
      else if 1 < length real \<and> real ! 0 = 0x2D \<and> real ! 1 = 0x2E then take 1 real @ 0x30 # drop 1 real
      else real)"

fun BuildHTTPString :: "g_fmt \<Rightarrow> tree \<Rightarrow> byte list"
  and http_entries :: "g_fmt \<Rightarrow> bool \<Rightarrow> dict \<Rightarrow> byte list" where
  "BuildHTTPString g_fmt NullValue = ascii ''null''"
| "BuildHTTPString g_fmt (BooleanValue b) = (if b then ascii ''true'' else ascii ''false'')"
| "BuildHTTPString g_fmt (IntegerValue i) = decimal (sint i)"
| "BuildHTTPString g_fmt (BigIntegerValue i) = decimal (sint i)"
| "BuildHTTPString g_fmt (RealValue r) = real_text (g_fmt r)"
| "BuildHTTPString g_fmt (StringValue s) = HttpDoubleQuote s"
| "BuildHTTPString g_fmt (DictionaryValue m) = http_entries g_fmt True m"
| "BuildHTTPString g_fmt (BinaryValue s) = []"
| "BuildHTTPString g_fmt (ListValue vs) = []"
| "http_entries g_fmt first [] = []"
| "http_entries g_fmt first ((key, v) # m) =
     (if first then [] else [0x26]) @ HttpDoubleQuote (WideToASCII key) @ [0x3D] @
     BuildHTTPString g_fmt v @ http_entries g_fmt False m"

definition HttpSerialize :: "g_fmt \<Rightarrow> tree \<Rightarrow> byte list \<Rightarrow> byte list" where
  "HttpSerialize g_fmt root http_string = http_string @ BuildHTTPString g_fmt root"

end
