(* ===== verification/HttpBounds.thy ===== *)
theory HttpBounds
  imports HttpSerializer
begin

text \<open>
  The parser of query strings stays inside the message and terminates: from an index inside the
  text every scanning function returns, and leaves an index inside the text.  For string tokens
  this rests on the scanner having seen every escape whole that the decoder will read.
\<close>

abbreviation token_end :: "token \<Rightarrow> nat" where
  "token_end k \<equiv> token_begin k + token_length k"

lemma char_at_inside: "p \<le> length t \<Longrightarrow> \<exists>c. char_at t p = Some c"
  by (auto simp: char_at_def)

lemma char_at_nonzero: "char_at t p = Some c \<Longrightarrow> c \<noteq> 0 \<Longrightarrow> p < length t"
  by (auto simp: char_at_def split: if_splits)

lemma char_at_le: "char_at t p = Some c \<Longrightarrow> p \<le> length t"
  by (auto simp: char_at_def split: if_splits)

lemma Token_simps [simp]:
  "token_type (Token k b n) = k" "token_begin (Token k b n) = b" "token_length (Token k b n) = n"
  "token_type (longer n x) = token_type x" "token_begin (longer n x) = token_begin x"
  "token_length (longer n x) = token_length x + n"
  "token_type kInvalidToken = INVALID_TOKEN"
  by (simp_all add: Token_def longer_def kInvalidToken_def)

section \<open>Scanning stays inside\<close>

lemma match_string_inside:
  "p + i \<le> length t \<Longrightarrow> 0 \<notin> set str \<Longrightarrow>
     \<exists>b. match_string t p i str = Some b \<and> (b \<longrightarrow> p + i + length str \<le> length t)"
proof (induction t p i str rule: match_string.induct)
  case (2 t p i c str)
  obtain first x where x: "char_at t p = Some first" "char_at t (p + i) = Some x"
    using char_at_inside [of p t] char_at_inside [of "p + i" t] 2(2) by auto
  show ?case
  proof (cases "first = 0 \<or> x \<noteq> c")
    case False
    then have "p + i < length t" using x(2) 2(3) char_at_nonzero [of t "p + i" x] by auto
    with 2(1) [of first x] False 2(3) x show ?thesis by auto
  qed (use x in auto)
qed auto

lemma NextStringMatch_inside:
  "p \<le> length t \<Longrightarrow> 0 \<notin> set str \<Longrightarrow>
     \<exists>b. NextStringMatch t p str = Some b \<and> (b \<longrightarrow> p + length str \<le> length t)"
  using match_string_inside [of p 0 t str] by (simp add: NextStringMatch_def)

lemma scan_number_inside: "p \<le> length t \<Longrightarrow> \<exists>r. scan_number t p spot = Some r"
proof (induction t p spot rule: scan_number.induct)
  case (1 t p spot)
  obtain c where c: "char_at t p = Some c" using 1(5) char_at_inside by blast
  have "c \<noteq> 0 \<Longrightarrow> p + 1 \<le> length t" using char_at_nonzero [OF c] by simp
  with 1(1-4) [OF c] c show ?case by (subst scan_number.simps) auto
qed

lemma NextNumberMatch_inside: "p \<le> length t \<Longrightarrow> \<exists>b. NextNumberMatch t p = Some b"
  using scan_number_inside [of p t 0] by (auto simp: NextNumberMatch_def)

lemma count_digits_inside:
  "p \<le> length t \<Longrightarrow> \<exists>n. count_digits t p = Some n \<and> p + n \<le> length t"
proof (induction t p rule: count_digits.induct)
  case (1 t p)
  obtain c where c: "char_at t p = Some c" using 1(2) char_at_inside by blast
  show ?case
  proof (cases "c \<noteq> 0 \<and> wide_digit c")
    case True
    with char_at_nonzero [OF c] have "p + 1 \<le> length t" by simp
    with 1(1) [OF c] True c show ?thesis by (subst count_digits.simps) auto
  qed (use c 1(2) in \<open>subst count_digits.simps, auto\<close>)
qed

definition token_inside :: "wstring \<Rightarrow> token \<Rightarrow> bool" where
  "token_inside t k \<longleftrightarrow> token_end k \<le> length t"

lemma ReadInt_inside:
  assumes "token_inside t k"
  obtains ok k' where "ReadInt t k z = Some (ok, k')" "token_inside t k'" "token_begin k' = token_begin k"
    "token_type k' = token_type k"
proof -
  obtain c where "char_at t (token_end k) = Some c"
    using assms char_at_inside [of "token_end k" t] by (auto simp: token_inside_def)
  moreover obtain n where "count_digits t (token_end k) = Some n" "token_end k + n \<le> length t"
    using assms count_digits_inside [of "token_end k" t] by (auto simp: token_inside_def)
  ultimately show ?thesis
    by (intro that [of "fst (the (ReadInt t k z))" "snd (the (ReadInt t k z))"])
      (auto simp: ReadInt_def NextChar_def Let_def token_inside_def)
qed

lemma NextChar_inside: "token_inside t k \<Longrightarrow> \<exists>c. NextChar t k = Some c \<and> (c \<noteq> 0 \<longrightarrow> token_inside t (longer 1 k))"
  using char_at_inside [of "token_end k" t] char_at_nonzero [of t "token_end k"]
  by (fastforce simp: NextChar_def token_inside_def)

lemma kInvalid_inside [simp]: "token_inside t kInvalidToken"
  by (simp add: token_inside_def kInvalidToken_def Token_def)

lemma past_sign_inside:
  assumes "token_inside t k" "NextChar t k = Some c" "0 \<notin> set signs"
  obtains k' where "past_sign t signs k c = Some k'" "token_inside t k'"
    "token_begin k' = token_begin k" "token_type k' = token_type k"
proof (cases "c \<in> set signs")
  case True
  then have "c \<noteq> 0" using assms(3) by auto
  with NextChar_inside [OF assms(1)] assms(2) have i: "token_inside t (longer 1 k)" by simp
  then obtain d where "NextChar t (longer 1 k) = Some d" using NextChar_inside by blast
  with True i that [of "longer 1 k"] show ?thesis by (simp add: past_sign_def)
next
  case False
  with assms(1) that [of k] show ?thesis by (simp add: past_sign_def)
qed

lemma parse_exponent_inside:
  assumes "token_inside t k"
  shows "\<exists>k'. parse_exponent t k = Some k' \<and> token_inside t k' \<and>
    (k' = kInvalidToken \<or> token_begin k' = token_begin k \<and> token_type k' = token_type k)"
proof -
  obtain c where c: "NextChar t k = Some c" "c \<noteq> 0 \<Longrightarrow> token_inside t (longer 1 k)"
    using NextChar_inside [OF assms] by blast
  show ?thesis
  proof (cases "c = 0x65 \<or> c = 0x45")
    case True
    with c(2) have i: "token_inside t (longer 1 k)" by auto
    obtain s where s: "NextChar t (longer 1 k) = Some s" using NextChar_inside [OF i] by blast
    obtain k2 where k2: "past_sign t [0x2D, 0x2B] (longer 1 k) s = Some k2" "token_inside t k2"
      "token_begin k2 = token_begin (longer 1 k)" "token_type k2 = token_type (longer 1 k)"
      using past_sign_inside [OF i s, of "[0x2D, 0x2B]"] by auto
    obtain ok k3 where k3: "ReadInt t k2 True = Some (ok, k3)" "token_inside t k3"
      "token_begin k3 = token_begin k2" "token_type k3 = token_type k2"
      using ReadInt_inside [OF k2(2)] by metis
    have "parse_exponent t k = Some (if ok then k3 else kInvalidToken)"
      using True c(1) s k2(1) k3(1) by (auto simp: parse_exponent_def)
    with k2(3,4) k3 show ?thesis by auto
  qed (use assms c(1) in \<open>simp add: parse_exponent_def\<close>)
qed

lemma parse_fraction_inside:
  assumes "token_inside t k"
  shows "\<exists>k'. parse_fraction t k = Some k' \<and> token_inside t k' \<and>
    (k' = kInvalidToken \<or> token_begin k' = token_begin k \<and> token_type k' = token_type k)"
proof -
  obtain c where c: "NextChar t k = Some c" "c \<noteq> 0 \<Longrightarrow> token_inside t (longer 1 k)"
    using NextChar_inside [OF assms] by blast
  show ?thesis
  proof (cases "c = 0x2E")
    case True
    with c(2) have i: "token_inside t (longer 1 k)" by auto
    obtain ok k2 where k2: "ReadInt t (longer 1 k) True = Some (ok, k2)" "token_inside t k2"
      "token_begin k2 = token_begin (longer 1 k)" "token_type k2 = token_type (longer 1 k)"
      using ReadInt_inside [OF i] by metis
    have "parse_fraction t k = (if ok then parse_exponent t k2 else Some kInvalidToken)"
      using True c(1) k2(1) by (simp add: parse_fraction_def)
    with parse_exponent_inside [OF k2(2)] k2(3,4) show ?thesis by auto
  qed (use c(1) parse_exponent_inside [OF assms] in \<open>simp add: parse_fraction_def\<close>)
qed

lemma ParseNumberToken_inside:
  assumes "p \<le> length t"
  shows "\<exists>k. ParseNumberToken t p = Some k \<and> token_inside t k \<and>
    (k = kInvalidToken \<or> token_begin k = p \<and> token_type k = NUMBER)"
proof -
  obtain c where c: "char_at t p = Some c" using assms char_at_inside by blast
  have i: "token_inside t (Token NUMBER p 0)" using assms by (simp add: token_inside_def)
  have n: "NextChar t (Token NUMBER p 0) = Some c" using c by (simp add: NextChar_def)
  obtain k where k: "past_sign t [0x2D] (Token NUMBER p 0) c = Some k" "token_inside t k"
    "token_begin k = p" "token_type k = NUMBER"
    using past_sign_inside [OF i n, of "[0x2D]"] by auto
  obtain ok k2 where k2: "ReadInt t k False = Some (ok, k2)" "token_inside t k2"
      "token_begin k2 = token_begin k" "token_type k2 = token_type k"
    using ReadInt_inside [OF k(2)] by metis
  have "ParseNumberToken t p = (if ok then parse_fraction t k2 else Some kInvalidToken)"
    using c k(1) k2(1) by (simp add: ParseNumberToken_def)
  with parse_fraction_inside [OF k2(2)] k k2(3,4) show ?thesis by auto
qed

section \<open>String tokens and their decoding\<close>

lemma single_escape_iff: "single_escape e \<noteq> None \<longleftrightarrow> e \<in> set single_escapes"
  by (auto simp: single_escape_def single_escapes_def wide_def)

lemma hex_digits_inside:
  "p \<le> length t \<Longrightarrow> \<exists>b. hex_digits_at t p n = Some b \<and> (b \<longrightarrow> p + n \<le> length t)"
proof (induction t p n rule: hex_digits_at.induct)
  case (2 t p n)
  obtain c where c: "char_at t p = Some c" using 2(2) char_at_inside by blast
  show ?case
  proof (cases "c \<noteq> 0 \<and> hex_char c")
    case True
    with char_at_nonzero [OF c] have "p + 1 \<le> length t" by simp
    with 2(1) [of c] True c show ?thesis by auto
  qed (use c in auto)
qed auto

text \<open>What the decoder does with a token the scanner returned: it never leaves the text, and
  when it accepts the token, the token ends inside the text.\<close>

definition decodes :: "wstring \<Rightarrow> nat \<Rightarrow> nat \<Rightarrow> bool" where
  "decodes t p q \<longleftrightarrow> p \<le> q \<and> (\<forall>ds. \<exists>r. decode_chars t p (q - p) ds = Some r \<and> (r \<noteq> None \<longrightarrow> q \<le> length t))"

lemma decodes_refl: "p \<le> length t \<Longrightarrow> decodes t p p"
  by (simp add: decodes_def decode_chars.simps)

lemma decodes_plain:
  assumes "char_at t p = Some c" "c \<noteq> 0x5C" "decodes t (p + 1) q"
  shows "decodes t p q"
proof -
  have "decode_chars t p (q - p) ds = decode_chars t (p + 1) (q - (p + 1)) (ds @ [c])" for ds
    using assms by (subst decode_chars.simps) (auto simp: decodes_def)
  with assms(3) show ?thesis by (auto simp: decodes_def)
qed

lemma decodes_single:
  assumes "char_at t p = Some 0x5C" "char_at t (p + 1) = Some e" "single_escape e = Some d" "decodes t (p + 2) q"
  shows "decodes t p q"
proof -
  have "decode_chars t p (q - p) ds = decode_chars t (p + 2) (q - (p + 2)) (ds @ [d])" for ds
    using assms by (subst decode_chars.simps) (auto simp: decodes_def numeral_2_eq_2)
  with assms(4) show ?thesis by (auto simp: decodes_def)
qed

lemma decodes_hex:
  assumes "char_at t p = Some 0x5C" "char_at t (p + 1) = Some e" "e = 0x78 \<and> n = 2 \<or> e = 0x75 \<and> n = 4"
    and "p + 2 + n \<le> length t" "decodes t (p + 2 + n) q"
  shows "decodes t p q"
proof -
  have at: "\<exists>c. char_at t (p + 2 + j) = Some c" if "j < n" for j
    using assms(4) that by (intro char_at_inside) simp
  have q: "p + 2 + n \<le> q" using assms(5) by (simp add: decodes_def)
  have "\<exists>d. decode_chars t p (q - p) ds = decode_chars t (p + 2 + n) (q - (p + 2 + n)) (ds @ [d])" for ds
  proof (cases "e = 0x78")
    case True
    then have n: "n = 2" using assms(3) by auto
    obtain a b where "char_at t (p + 2) = Some a" "char_at t (p + 3) = Some b"
      using at [of 0] at [of 1] n by (auto simp: numeral_3_eq_3)
    moreover have e: "p + 2 + n = p + 4" using n by simp
    ultimately show ?thesis
      using True q assms(1,2) unfolding e by (subst decode_chars.simps) (auto simp: single_escape_def)
  next
    case False
    then have n: "n = 4" "e = 0x75" using assms(3) by auto
    obtain a b c d where "char_at t (p + 2) = Some a" "char_at t (p + 3) = Some b"
      "char_at t (p + 4) = Some c" "char_at t (p + 5) = Some d"
      using at [of 0] at [of 1] at [of 2] at [of 3] n by (auto simp: eval_nat_numeral)
    moreover have e: "p + 2 + n = p + 6" using n by simp
    ultimately show ?thesis
      using n(2) q assms(1,2) unfolding e
      by (subst decode_chars.simps) (auto simp: single_escape_def)
  qed
  with assms(5) show ?thesis unfolding decodes_def by (metis le_trans le_add1 add.assoc)
qed

lemma decodes_bad:
  assumes "char_at t p = Some 0x5C" "char_at t (p + 1) = Some e" "single_escape e = None" "e \<noteq> 0x78" "e \<noteq> 0x75"
  shows "decodes t p (p + 2)"
  using assms by (auto simp: decodes_def decode_chars.simps)

lemma string_token_decodes:
  "token_inside t k \<Longrightarrow> \<exists>k'. string_token t k = Some k' \<and>
     (k' = kInvalidToken \<or>
      token_begin k' = token_begin k \<and> token_type k' = token_type k \<and> decodes t (token_end k) (token_end k'))"
proof (induction t k rule: string_token.induct)
  case (1 t k)
  let ?p = "token_end k"
  obtain c where c: "NextChar t k = Some c" "c \<noteq> 0 \<Longrightarrow> token_inside t (longer 1 k)"
    using NextChar_inside [OF 1(4)] by blast
  then have at: "char_at t ?p = Some c" by (simp add: NextChar_def)
  have p: "?p \<le> length t" using 1(4) by (simp add: token_inside_def)
  show ?case
  proof (cases "c = 0 \<or> c = 0x26 \<or> c = 0x3D")
    case True
    then have "string_token t k = Some k" using c by (subst string_token.simps) auto
    then show ?thesis using decodes_refl [OF p] by auto
  next
    case False
    then have i: "token_inside t (longer 1 k)" using c by simp
    show ?thesis
    proof (cases "c = 0x5C")
      case False
      with 1(3) [OF c(1)] \<open>\<not> (c = 0 \<or> c = 0x26 \<or> c = 0x3D)\<close> i
      obtain k' where k': "string_token t (longer 1 k) = Some k'" "k' = kInvalidToken \<or>
        token_begin k' = token_begin k \<and> token_type k' = token_type k \<and> decodes t (?p + 1) (token_end k')"
        by auto
      have "string_token t k = Some k'" using c(1) False \<open>\<not> (c = 0 \<or> c = 0x26 \<or> c = 0x3D)\<close> k'(1)
        by (subst string_token.simps) simp
      then show ?thesis using k'(2) decodes_plain [OF at False] by auto
    next
      case True
      note bs = at [unfolded True] and c1 = c(1) [unfolded True]
      obtain e where e: "NextChar t (longer 1 k) = Some e" "e \<noteq> 0 \<Longrightarrow> token_inside t (longer 1 (longer 1 k))"
        using NextChar_inside [OF i] by blast
      then have at1: "char_at t (?p + 1) = Some e" by (simp add: NextChar_def)
      consider "e = 0x78 \<or> e = 0x75" | "e \<in> set single_escapes" "e \<noteq> 0x78" "e \<noteq> 0x75"
        | "e \<notin> set single_escapes" "e \<noteq> 0x78" "e \<noteq> 0x75" by blast
      then show ?thesis
      proof cases
        case 1
        define n :: nat where "n = (if e = 0x78 then 2 else 4)"
        have "?p + 2 \<le> length t" using 1 e(2) by (auto simp: token_inside_def)
        then obtain ok where ok: "hex_digits_at t (?p + 2) n = Some ok" "ok \<Longrightarrow> ?p + 2 + n \<le> length t"
          using hex_digits_inside by blast
        have r: "ReadHexDigits t (longer 1 k) n = Some (ok, if ok then longer n (longer 1 k) else longer 1 k)"
          using ok(1) by (simp add: ReadHexDigits_def)
        have step: "string_token t k = (if ok then string_token t (longer 1 (longer n (longer 1 k))) else Some kInvalidToken)"
          using c1 e(1) 1 r by (subst string_token.simps) (auto simp: n_def)
        show ?thesis
        proof (cases ok)
          case True
          then have i2: "token_inside t (longer 1 (longer n (longer 1 k)))" using ok(2) by (simp add: token_inside_def)
          with "1.IH"(1) [OF c(1) _ _ refl e(1) _ r [unfolded n_def] refl] 1 True \<open>c = 0x5C\<close> obtain k'
            where k': "string_token t (longer 1 (longer n (longer 1 k))) = Some k'" "k' = kInvalidToken \<or>
              token_begin k' = token_begin k \<and> token_type k' = token_type k \<and>
              decodes t (?p + 2 + n) (token_end k')" by (auto simp: n_def add.assoc)
          moreover have "decodes t (?p + 2 + n) q \<Longrightarrow> decodes t ?p q" for q
            using decodes_hex [OF bs at1 _ ok(2)] True 1 by (auto simp: n_def)
          ultimately show ?thesis using step True by auto
        qed (use step in simp)
      next
        case 2
        then have "e \<noteq> 0" by (auto simp: single_escapes_def wide_def)
        then have i2: "token_inside t (longer 1 (longer 1 k))" using e(2) by simp
        with "1.IH"(2) [OF c(1) _ _ refl e(1)] 2 \<open>c = 0x5C\<close> obtain k'
          where k': "string_token t (longer 1 (longer 1 k)) = Some k'" "k' = kInvalidToken \<or>
            token_begin k' = token_begin k \<and> token_type k' = token_type k \<and>
            decodes t (?p + 2) (token_end k')" by auto
        have step: "string_token t k = string_token t (longer 1 (longer 1 k))"
          using c1 e(1) 2 by (subst string_token.simps) simp
        obtain d where "single_escape e = Some d" using 2(1) single_escape_iff by blast
        with k' decodes_single [OF bs at1] step show ?thesis by auto
      next
        case 3
        have step: "string_token t k = Some (longer 1 (longer 1 k))"
          using c1 e(1) 3 by (subst string_token.simps) simp
        have "single_escape e = None" using 3(1) single_escape_iff by blast
        with decodes_bad [OF bs at1] 3 step show ?thesis by (simp add: numeral_2_eq_2)
      qed
    qed
  qed
qed

section \<open>The parser stays inside\<close>

definition token_good :: "wstring \<Rightarrow> nat \<Rightarrow> token \<Rightarrow> bool" where
  "token_good t p k \<longleftrightarrow>
     token_type k \<notin> {OBJECT_BEGIN, ARRAY_BEGIN, ARRAY_END, END_OF_INPUT} \<and>
     (token_type k = STRING \<longrightarrow> token_begin k = p \<and> decodes t p (p + token_length k)) \<and>
     (token_type k \<notin> {STRING, INVALID_TOKEN} \<longrightarrow> token_begin k = p \<and> p + token_length k \<le> length t) \<and>
     (token_type k \<in> {LIST_SEPARATOR, OBJECT_PAIR_SEPARATOR} \<longrightarrow> token_length k = 1)"

lemma ParseStringToken_good:
  assumes "p \<le> length t" shows "\<exists>k. ParseStringToken t p = Some k \<and> token_good t p k"
proof -
  have "token_inside t (Token STRING p 0)" using assms by (simp add: token_inside_def)
  from string_token_decodes [OF this] show ?thesis
    by (auto simp: ParseStringToken_def token_good_def)
qed

lemma keyword_token_good:
  assumes "p \<le> length t" "0 \<notin> set (wide w)" "4 \<le> length w" "k \<in> {NULL_TOKEN, BOOL_TRUE, BOOL_FALSE}"
  shows "\<exists>x. keyword_token t p w k = Some x \<and> token_good t p x"
proof -
  obtain b where b: "NextStringMatch t p (wide w) = Some b" "b \<Longrightarrow> p + length (wide w) \<le> length t"
    using NextStringMatch_inside [OF assms(1,2)] by auto
  show ?thesis
  proof (cases b)
    case True
    with b assms(3) have "p + 4 \<le> length t" by (simp add: wide_def)
    with True b(1) assms(4) show ?thesis by (auto simp: keyword_token_def token_good_def)
  qed (use b(1) ParseStringToken_good [OF assms(1)] in \<open>simp add: keyword_token_def\<close>)
qed

lemma token_at_good:
  assumes "p \<le> length t" shows "\<exists>k. token_at t p = Some k \<and> token_good t p k"
proof -
  obtain c where c: "char_at t p = Some c" using assms char_at_inside by blast
  obtain b where b: "NextNumberMatch t p = Some b" using NextNumberMatch_inside [OF assms] by blast
  obtain s where s: "ParseStringToken t p = Some s" "token_good t p s"
    using ParseStringToken_good [OF assms] by blast
  obtain n where n: "ParseNumberToken t p = Some n" "token_good t p n"
    using ParseNumberToken_inside [OF assms] by (auto simp: token_good_def token_inside_def)
  have w: "0 \<notin> set (wide ''null'')" "0 \<notin> set (wide ''true'')" "0 \<notin> set (wide ''false'')"
    by (simp_all add: wide_def)
  obtain k1 k2 k3 where kw: "keyword_token t p ''null'' NULL_TOKEN = Some k1" "token_good t p k1"
    "keyword_token t p ''true'' BOOL_TRUE = Some k2" "token_good t p k2"
    "keyword_token t p ''false'' BOOL_FALSE = Some k3" "token_good t p k3"
    using keyword_token_good [OF assms w(1), of NULL_TOKEN] keyword_token_good [OF assms w(2), of BOOL_TRUE]
      keyword_token_good [OF assms w(3), of BOOL_FALSE] by auto
  have sep: "c \<noteq> 0 \<Longrightarrow> token_good t p (Token LIST_SEPARATOR p 1)"
    "c \<noteq> 0 \<Longrightarrow> token_good t p (Token OBJECT_PAIR_SEPARATOR p 1)"
    "token_good t p (Token OBJECT_END p 0)"
    using assms char_at_nonzero [OF c] by (simp_all add: token_good_def)
  show ?thesis
    using c b s n kw sep by (simp add: token_at_def)
qed

lemma eat_blanks_inside: "p \<le> length t \<Longrightarrow> \<exists>q. eat_blanks t p = Some q \<and> p \<le> q \<and> q \<le> length t"
proof (induction t p rule: eat_blanks.induct)
  case (1 t p)
  obtain c where c: "char_at t p = Some c" using 1(2) char_at_inside by blast
  show ?case
  proof (cases "c = 0x20 \<or> c = 0x0D \<or> c = 0x09")
    case True
    with char_at_nonzero [OF c] have "p + 1 \<le> length t" by auto
    with 1(1) [OF c True] c True show ?thesis by (subst eat_blanks.simps) auto
  qed (use c 1(2) in \<open>subst eat_blanks.simps, auto\<close>)
qed

lemma ParseToken_inside:
  assumes "http_pos h \<le> length t"
  obtains k h' where "ParseToken t h = Some (k, h')" "http_pos h \<le> http_pos h'" "http_pos h' \<le> length t"
    "token_good t (http_pos h') k"
proof -
  obtain q where q: "eat_blanks t (http_pos h) = Some q" "http_pos h \<le> q" "q \<le> length t"
    using eat_blanks_inside [OF assms] by blast
  obtain k where "token_at t q = Some k" "token_good t q k" using token_at_good [OF q(3)] by blast
  with q that [of k "h\<lparr>http_pos := q\<rparr>"] show ?thesis
    by (simp add: ParseToken_def EatWhitesspaceAndComments_def)
qed

lemma DecodeString_inside:
  assumes "token_good t p k" "token_type k = STRING"
  obtains r where "DecodeString t k = Some r" "r \<noteq> None \<Longrightarrow> p + token_length k \<le> length t"
proof -
  from assms have "token_begin k = p" "decodes t p (p + token_length k)" by (auto simp: token_good_def)
  then obtain r where "decode_chars t (token_begin k) (token_length k) [] = Some r"
    "r \<noteq> None \<longrightarrow> p + token_length k \<le> length t"
    by (auto simp: decodes_def)
  with that [of "map_option CreateStringValueWide r"] show ?thesis by (auto simp: DecodeString_def)
qed

lemma SetErrorCode_pos [simp]: "http_pos (SetErrorCode t e p h) = http_pos h"
  "stack_depth (SetErrorCode t e p h) = stack_depth h"
  by (auto simp: SetErrorCode_def split: option.split)

lemma past_token_simps [simp]:
  "http_pos (past_token k h) = http_pos h + token_length k" "stack_depth (past_token k h) = stack_depth h"
  by (simp_all add: past_token_def)

text \<open>A builder that returns, without going back and without leaving the text.\<close>

definition builds :: "wstring \<Rightarrow> (http_parser \<Rightarrow> built) \<Rightarrow> bool" where
  "builds t build \<longleftrightarrow> (\<forall>h. http_pos h \<le> length t \<longrightarrow>
     (\<exists>v h'. build h = Some (v, h') \<and> http_pos h \<le> http_pos h' \<and> http_pos h' \<le> length t))"

lemma leaf_token_builds:
  assumes "http_pos h \<le> length t"
  shows "\<exists>v h'. BuildValue strtod (Suc d) t False h = Some (v, h') \<and>
     http_pos h \<le> http_pos h' \<and> http_pos h' \<le> length t"
proof (cases "kStackLimit < stack_depth h + 1")
  case True
  with assms show ?thesis by simp
next
  case False
  let ?h = "h\<lparr>stack_depth := stack_depth h + 1\<rparr>"
  obtain k h' where k: "ParseToken t ?h = Some (k, h')" "http_pos h \<le> http_pos h'" "http_pos h' \<le> length t"
    "token_good t (http_pos h') k"
    using ParseToken_inside [of ?h t] assms by auto
  have fit: "http_pos h' + token_length k \<le> length t" if "token_type k \<notin> {STRING, INVALID_TOKEN}"
    using that k(4) by (auto simp: token_good_def)
  show ?thesis
  proof (cases "token_type k")
    case STRING
    obtain r where r: "DecodeString t k = Some r" "r \<noteq> None \<Longrightarrow> http_pos h' + token_length k \<le> length t"
      using DecodeString_inside [OF k(4) STRING] by metis
    show ?thesis by (cases r) (use False k r STRING in auto)
  next
    case NUMBER
    have "\<exists>r. DecodeNumber strtod t k = Some r"
      using fit NUMBER k(4) by (auto simp: DecodeNumber_def substring_def token_good_def Let_def)
    then obtain r where r: "DecodeNumber strtod t k = Some r" by blast
    show ?thesis by (cases r) (use False k r NUMBER fit in auto)
  qed (use False k fit in \<open>auto simp: token_good_def\<close>)
qed

lemma object_loop_inside:
  assumes "builds t build"
  shows "http_pos h \<le> length t \<Longrightarrow> token_good t (http_pos h) k \<Longrightarrow> length t - http_pos h < n \<Longrightarrow>
     \<exists>v h'. object_loop t build n node k h = Some (v, h') \<and> http_pos h' \<le> length t"
proof (induction n arbitrary: node k h)
  case (Suc n)
  note h = Suc.prems(1) and k = Suc.prems(2)
  consider "token_type k = OBJECT_END" | "token_type k \<noteq> OBJECT_END" "token_type k \<noteq> STRING"
    | "token_type k = STRING" by blast
  then show ?case
  proof cases
    case 1
    with k show ?thesis by (simp add: token_good_def object_end_def Let_def)
  next
    case 2
    with h show ?thesis by simp
  next
    case 3
    obtain r where r: "DecodeString t k = Some r" "r \<noteq> None \<Longrightarrow> http_pos h + token_length k \<le> length t"
      using DecodeString_inside [OF k 3] by metis
    show ?thesis
    proof (cases "Option.bind r GetAsWString")
      case None
      with r(1) 3 h show ?thesis by simp
    next
      case (Some key)
      then have "r \<noteq> None" by (cases r) auto
      then have a1: "http_pos (past_token k h) \<le> length t" using r(2) by simp
      obtain k1 h1 where t1: "ParseToken t (past_token k h) = Some (k1, h1)"
        "http_pos (past_token k h) \<le> http_pos h1" "http_pos h1 \<le> length t" "token_good t (http_pos h1) k1"
        using ParseToken_inside [OF a1] by metis
      show ?thesis
      proof (cases "token_type k1 = OBJECT_PAIR_SEPARATOR")
        case False
        with r(1) 3 Some t1 show ?thesis by simp
      next
        case True
        then have a2: "http_pos (past_token k1 h1) \<le> length t" "http_pos h < http_pos (past_token k1 h1)"
          using t1 by (auto simp: token_good_def)
        obtain k2 h2 where t2: "ParseToken t (past_token k1 h1) = Some (k2, h2)"
          "http_pos (past_token k1 h1) \<le> http_pos h2" "http_pos h2 \<le> length t"
          using ParseToken_inside [OF a2(1)] by metis
        obtain v h3 where b: "build h2 = Some (v, h3)" "http_pos h2 \<le> http_pos h3" "http_pos h3 \<le> length t"
          using assms t2(3) unfolding builds_def by metis
        define node' where "node' = SetWithoutPathExpansion node key
            (Some (case v of None \<Rightarrow> StringValue [] | Some v \<Rightarrow> v))"
        obtain k4 h4 where t4: "ParseToken t h3 = Some (k4, h4)" "http_pos h3 \<le> http_pos h4"
          "http_pos h4 \<le> length t" "token_good t (http_pos h4) k4"
          using ParseToken_inside [OF b(3)] by metis
        show ?thesis
        proof (cases "token_type k4 = LIST_SEPARATOR")
          case False
          with r(1) 3 Some t1(1) True t2(1) b(1) t4 show ?thesis
            by (auto simp: token_good_def object_rest_def object_end_def Let_def)
        next
          case sep: True
          then have a5: "http_pos (past_token k4 h4) \<le> length t" using t4 by (simp add: token_good_def)
          obtain k5 h5 where t5: "ParseToken t (past_token k4 h4) = Some (k5, h5)"
            "http_pos (past_token k4 h4) \<le> http_pos h5" "http_pos h5 \<le> length t" "token_good t (http_pos h5) k5"
            using ParseToken_inside [OF a5] by metis
          have "http_pos h < http_pos h5" using a2(2) t2(2) b(2) t4(2) t5(2) by simp
          then have "length t - http_pos h5 < n" using Suc.prems(3) t5(3) by linarith
          from Suc.IH [OF t5(3,4) this, of node'] show ?thesis
            using r(1) 3 Some t1(1) True t2(1) b(1) t4(1) sep t5(1) by (simp add: node'_def object_rest_def Let_def)
        qed
      qed
    qed
  qed
qed simp

lemma BuildValue_root_inside:
  assumes "http_pos h \<le> length t"
  shows "\<exists>v h'. BuildValue strtod (Suc (Suc d)) t True h = Some (v, h') \<and> http_pos h' \<le> length t"
proof (cases "kStackLimit < stack_depth h + 1")
  case True
  with assms show ?thesis by simp
next
  case False
  let ?h = "past_token (Token OBJECT_BEGIN (http_pos h) 0) (h\<lparr>stack_depth := stack_depth h + 1\<rparr>)"
  have "http_pos ?h \<le> length t" using assms by simp
  then obtain k h' where k: "ParseToken t ?h = Some (k, h')" "http_pos h' \<le> length t" "token_good t (http_pos h') k"
    using ParseToken_inside by metis
  have "builds t (BuildValue strtod (Suc d) t False)"
    using leaf_token_builds unfolding builds_def by blast
  moreover have "length t - http_pos h' < length t + 1" by simp
  ultimately obtain v h2
    where "object_loop t (BuildValue strtod (Suc d) t False) (length t + 1) [] k h' = Some (v, h2)"
      "http_pos h2 \<le> length t" using object_loop_inside k(2,3) by blast
  then have "BuildValue strtod (Suc (Suc d)) t True h = Some (v, h2)"
    using k(1) False by (subst BuildValue.simps) (simp add: Let_def del: BuildValue.simps object_loop.simps)
  with \<open>http_pos h2 \<le> length t\<close> show ?thesis by blast
qed

lemma text_start_le: "text_start t \<le> length t"
  by (cases t) (auto simp: text_start_def)

lemma new_parser_simps [simp]:
  "http_pos (new_parser p) = p" "start_pos (new_parser p) = p" "stack_depth (new_parser p) = 0"
  by (simp_all add: new_parser_def)

lemma Deserialize_returns: "s \<noteq> [] \<Longrightarrow> \<exists>r. Deserialize strtod s = Some r"
proof -
  assume s: "s \<noteq> []"
  let ?t = "UTF8ToWide (s[length s - 1 := 0])"
  let ?h = "new_parser (text_start ?t)"
  have "http_pos ?h \<le> length ?t" by (simp add: text_start_le)
  from BuildValue_root_inside [OF this, of strtod 99] obtain v h
    where b: "BuildValue strtod (kStackLimit + 1) ?t True ?h = Some (v, h)" "http_pos h \<le> length ?t"
    by (auto simp: kStackLimit_def eval_nat_numeral simp del: BuildValue.simps)
  obtain k1 h1 where k1: "ParseToken ?t h = Some (k1, h1)" "http_pos h1 \<le> length ?t"
    using ParseToken_inside [OF b(2)] by metis
  obtain k2 h2 where k2: "ParseToken ?t h1 = Some (k2, h2)"
    using ParseToken_inside [OF k1(2)] by metis
  show ?thesis
    using s b(1) k1(1) k2 by (cases v) (simp_all add: Deserialize_def Let_def del: BuildValue.simps)
qed

text \<open>C7: The parser of query strings returns for every message that is not empty, whatever its
  bytes: it ends after at most one turn per character, the recursion stays within the stack
  limit, and no read goes past the terminator of the text.  The empty message is the
  exception: there the byte before the message is overwritten.\<close>

theorem Deserialize_stays_inside: "Deserialize strtod s \<noteq> None \<longleftrightarrow> s \<noteq> []"
  using Deserialize_returns [of s strtod] by (auto simp: Deserialize_def)

end
