(* ===== verification/HttpText.thy ===== *)
theory HttpText
  imports HttpBounds UnicodeText ValueLaws "HOL-Library.Sublist"
begin

text \<open>
  What a written query string becomes when it is parsed.  The lemmas follow the text from left to
  right: \<open>drop p t = w @ r\<close> says that \<open>w\<close> stands at index \<open>p\<close>, and each one gives the token found
  there and what is left behind it.
\<close>

section \<open>Text at an index\<close>

lemma char_at_text: "drop p t = c # r \<Longrightarrow> char_at t p = Some c"
  by (metis char_at_def drop_all hd_drop_conv_nth list.distinct(1) list.sel(1) not_le_imp_less)

lemma drop_past: "drop p t = w @ r \<Longrightarrow> drop (p + length w) t = r"
  by (metis add.commute append_eq_conv_conj drop_drop)

lemma drop_next: "drop p t = c # r \<Longrightarrow> drop (Suc p) t = r"
  using drop_past [of p t "[c]" r] by simp

lemma drop_next2: "drop p t = c # d # r \<Longrightarrow> drop (Suc (Suc p)) t = r"
  using drop_past [of p t "[c, d]" r] by simp

lemma longer_longer [simp]: "longer m (longer n k) = longer (n + m) k" "longer 0 k = k"
  by (simp_all add: longer_def)

lemma longer_Token [simp]: "longer n (Token k p m) = Token k p (m + n)"
  by (simp add: longer_def Token_def)

lemma concat_map_singles: "\<forall>x\<in>set xs. f x = [x] \<Longrightarrow> concat (map f xs) = xs"
  by (induction xs) auto

section \<open>Escaped strings\<close>

text \<open>The escape of one unit, and a string that may stand in a query string.\<close>

definition esc :: "wchar \<Rightarrow> wstring" where
  "esc c =
     (if c = 0x08 then [0x5C, 0x62] else if c = 0x0C then [0x5C, 0x66]
      else if c = 0x0A then [0x5C, 0x6E] else if c = 0x0D then [0x5C, 0x72]
      else if c = 0x09 then [0x5C, 0x74] else if c = 0x5C then [0x5C, 0x5C]
      else if c = 0x22 then [0x5C, 0x22] else [c])"

abbreviation escaped :: "wstring \<Rightarrow> wstring" where
  "escaped w \<equiv> concat (map esc w)"

definition clean :: "wstring \<Rightarrow> bool" where
  "clean w \<longleftrightarrow> 0 \<notin> set w \<and> 0x26 \<notin> set w \<and> 0x3D \<notin> set w"

lemma clean_Cons [simp]: "clean (u # w) \<longleftrightarrow> u \<noteq> 0 \<and> u \<noteq> 0x26 \<and> u \<noteq> 0x3D \<and> clean w" "clean []"
  by (auto simp: clean_def)

lemma esc_cases:
  obtains "esc u = [u]" "u \<noteq> 0x5C"
  | e where "esc u = [0x5C, e]" "single_escape e = Some u" "e \<in> set single_escapes" "e \<noteq> 0x78" "e \<noteq> 0x75"
proof (cases "u \<in> {0x08, 0x0C, 0x0A, 0x0D, 0x09, 0x5C, 0x22}")
  case False
  then show ?thesis by (intro that(1)) (auto simp: esc_def)
next
  case True
  then show ?thesis
    by (intro that(2) [of "esc u ! 1"]) (auto simp: esc_def single_escape_def single_escapes_def wide_def)
qed

definition separator :: "wchar \<Rightarrow> bool" where
  "separator c \<longleftrightarrow> c = 0 \<or> c = 0x26 \<or> c = 0x3D"

lemma string_token_text:
  "drop (token_end k) t = escaped w @ c # r \<Longrightarrow> clean w \<Longrightarrow> separator c \<Longrightarrow>
     string_token t k = Some (longer (length (escaped w)) k)"
proof (induction w arbitrary: k)
  case Nil
  then show ?case
    using char_at_text [of "token_end k" t c r]
    by (subst string_token.simps) (auto simp: NextChar_def separator_def)
next
  case (Cons u w)
  let ?q = "token_end k"
  show ?case
  proof (cases u rule: esc_cases)
    case 1
    with Cons.prems have d: "drop ?q t = u # escaped w @ c # r" by simp
    from drop_next [OF d] have "drop (token_end (longer 1 k)) t = escaped w @ c # r" by simp
    from Cons.IH [OF this] Cons.prems have "string_token t (longer 1 k) = Some (longer (length (escaped w)) (longer 1 k))"
      by simp
    with 1 Cons.prems(2) char_at_text [OF d] show ?thesis
      by (subst string_token.simps) (simp add: NextChar_def)
  next
    case (2 e)
    with Cons.prems have d: "drop ?q t = 0x5C # e # escaped w @ c # r" by simp
    from drop_next2 [OF d] have "drop (token_end (longer (Suc (Suc 0)) k)) t = escaped w @ c # r" by simp
    from Cons.IH [OF this] Cons.prems have "string_token t (longer (Suc (Suc 0)) k) = Some (longer (length (escaped w)) (longer (Suc (Suc 0)) k))"
      by simp
    with 2 char_at_text [OF d] char_at_text [OF drop_next [OF d]] show ?thesis
      by (subst string_token.simps) (simp add: NextChar_def Let_def)
  qed
qed

lemma decode_text:
  "drop p t = escaped w @ r \<Longrightarrow> decode_chars t p (length (escaped w)) ds = Some (Some (ds @ w))"
proof (induction w arbitrary: p ds)
  case Nil
  then show ?case by (simp add: decode_chars.simps)
next
  case (Cons u w)
  show ?case
  proof (cases u rule: esc_cases)
    case 1
    with Cons.prems have d: "drop p t = u # escaped w @ r" by simp
    from Cons.IH [OF drop_next [OF d], of "ds @ [u]"] 1 char_at_text [OF d] show ?thesis
      by (subst decode_chars.simps) simp
  next
    case (2 e)
    with Cons.prems have d: "drop p t = 0x5C # e # escaped w @ r" by simp
    from Cons.IH [OF drop_next2 [OF d], of "ds @ [u]"] 2 char_at_text [OF d]
      char_at_text [OF drop_next [OF d]] show ?thesis
      by (subst decode_chars.simps) simp
  qed
qed

section \<open>Keywords\<close>

lemma match_string_prefix:
  "p < length t \<Longrightarrow> t ! p \<noteq> 0 \<Longrightarrow> 0 \<notin> set str \<Longrightarrow> p + i \<le> length t \<Longrightarrow>
     match_string t p i str = Some (prefix str (drop (p + i) t))"
proof (induction str arbitrary: i)
  case (Cons c str)
  show ?case
  proof (cases "p + i < length t")
    case True
    then have "drop (p + i) t = t ! (p + i) # drop (p + Suc i) t" by (simp add: Cons_nth_drop_Suc)
    with Cons.IH [of "Suc i"] Cons.prems True show ?thesis by (auto simp: char_at_def)
  next
    case False
    with Cons.prems show ?thesis by (auto simp: char_at_def)
  qed
qed simp

lemma NextStringMatch_prefix:
  assumes "drop p t = c # r" "c \<noteq> 0" "0 \<notin> set str"
  shows "NextStringMatch t p str = Some (prefix str (c # r))"
proof -
  have "p < length t" using assms(1) by (metis drop_all list.distinct(1) not_le_imp_less)
  with match_string_prefix [of p t str 0] assms show ?thesis
    by (simp add: NextStringMatch_def nth_via_drop)
qed

lemma prefix_escaped:
  assumes "\<forall>k\<in>set str. esc k = [k] \<and> k \<noteq> c" shows "prefix str (escaped w @ c # r) \<longleftrightarrow> prefix str w"
  using assms
proof (induction w arbitrary: str)
  case Nil
  then show ?case by (cases str) auto
next
  case (Cons u w)
  show ?case
  proof (cases str)
    case str: (Cons k ks)
    have "k \<noteq> 0x5C" "esc k = [k]" using Cons.prems str by (auto simp: esc_def)
    then show ?thesis
      by (cases u rule: esc_cases) (use Cons str in auto)
  qed simp
qed

text \<open>A string whose token is a string token.\<close>

definition plain_start :: "wstring \<Rightarrow> bool" where
  "plain_start w \<longleftrightarrow> w \<noteq> [] \<and> \<not> wide_digit (hd w) \<and> hd w \<noteq> 0x2D \<and> hd w \<noteq> 0x20 \<and>
     \<not> prefix (wide ''null'') w \<and> \<not> prefix (wide ''true'') w \<and> \<not> prefix (wide ''false'') w"

lemma escaped_hd:
  assumes "clean w" "plain_start w"
  obtains c r where "escaped w = c # r" "\<not> wide_digit c" "c \<notin> {0, 0x26, 0x3D, 0x2D, 0x20, 0x0D, 0x09}"
proof -
  obtain u v where w: "w = u # v" using assms(2) by (cases w) (auto simp: plain_start_def)
  show ?thesis
  proof (cases u rule: esc_cases)
    case 1
    moreover have "u \<noteq> 0x0D" "u \<noteq> 0x09" using 1 by (auto simp: esc_def split: if_splits)
    ultimately show ?thesis using assms that [of u "escaped v"] by (auto simp: w plain_start_def)
  next
    case (2 e)
    moreover have "\<not> wide_digit 0x5C" by (simp add: wide_digit_def)
    ultimately show ?thesis using that [of "0x5C" "e # escaped v"] by (simp add: w)
  qed
qed

lemma token_at_text:
  assumes "drop p t = escaped w @ c # r" "clean w" "plain_start w" "separator c"
  shows "token_at t p = Some (Token STRING p (length (escaped w)))"
proof -
  obtain d e where d: "escaped w = d # e" "\<not> wide_digit d" "d \<notin> {0, 0x26, 0x3D, 0x2D, 0x20, 0x0D, 0x09}"
    using escaped_hd [OF assms(2,3)] by metis
  have at: "drop p t = d # e @ c # r" using assms(1) d(1) by simp
  have s: "ParseStringToken t p = Some (Token STRING p (length (escaped w)))"
    using string_token_text [of "Token STRING p 0" t w c r] assms by (simp add: ParseStringToken_def)
  have k: "keyword_token t p str x = Some (Token STRING p (length (escaped w)))"
    if "str = ''null'' \<or> str = ''true'' \<or> str = ''false''" for str x
  proof -
    have z: "\<forall>k\<in>set (wide str). esc k = [k] \<and> k \<noteq> c" "0 \<notin> set (wide str)"
      using that assms(4) by (auto simp: separator_def wide_def esc_def)
    have "NextStringMatch t p (wide str) = Some (prefix (wide str) (escaped w @ c # r))"
      using NextStringMatch_prefix [OF at _ z(2)] d by auto
    with prefix_escaped [OF z(1)] that assms(3) s show ?thesis
      by (auto simp: keyword_token_def plain_start_def)
  qed
  from d(3) char_at_text [OF at] s k d(2) show ?thesis by (auto simp: token_at_def)
qed

section \<open>Numbers\<close>

lemma wide_digit_byte: "wide_digit (ucast b) = is_digit (b :: byte)" "ucast (ucast b :: wchar) = b"
  "(ucast b :: wchar) = 0x30 \<longleftrightarrow> b = 0x30"
proof -
  have *: "list_all (\<lambda>b :: byte. wide_digit (ucast b) = is_digit b \<and> ucast (ucast b :: wchar) = b \<and>
    ((ucast b :: wchar) = 0x30 \<longleftrightarrow> b = 0x30)) (map word_of_nat [0..<256])"
    by code_simp
  then show "wide_digit (ucast b) = is_digit (b :: byte)" "ucast (ucast b :: wchar) = b"
    "(ucast b :: wchar) = 0x30 \<longleftrightarrow> b = 0x30"
    using byte_all [OF *] by simp_all
qed

lemma wide_digit_0 [simp]: "\<not> wide_digit 0"
  by (simp add: wide_digit_def word_sle_eq)

lemma wide_digit_not: "wide_digit c \<Longrightarrow> c \<notin> {0, 0x26, 0x3D, 0x2D, 0x20, 0x0D, 0x09, 0x2E, 0x65, 0x45, 0x6E, 0x74, 0x66, 0x2B}"
  by (auto simp: wide_digit_def word_sle_eq)

lemma scan_number_text:
  "drop p t = w @ c # r \<Longrightarrow> \<forall>u\<in>set w. wide_digit u \<Longrightarrow> c = 0 \<or> c = 0x26 \<Longrightarrow>
     scan_number t p spot = Some (Some (p + length w))"
proof (induction w arbitrary: p)
  case Nil
  with char_at_text [of p t c r] show ?case by (subst scan_number.simps) auto
next
  case (Cons u w)
  with drop_next [of p t u "w @ c # r"] have "scan_number t (Suc p) spot = Some (Some (Suc p + length w))" by simp
  with Cons.prems char_at_text [of p t u "w @ c # r"] wide_digit_not [of u] show ?case
    by (subst scan_number.simps) simp
qed

lemma count_digits_text:
  "drop p t = w @ c # r \<Longrightarrow> \<forall>u\<in>set w. wide_digit u \<Longrightarrow> c = 0 \<or> c = 0x26 \<Longrightarrow>
     count_digits t p = Some (length w)"
proof (induction w arbitrary: p)
  case Nil
  with char_at_text [of p t c r] show ?case by (subst count_digits.simps) (auto simp: wide_digit_def)
next
  case (Cons u w)
  with drop_next [of p t u "w @ c # r"] have "count_digits t (Suc p) = Some (length w)" by simp
  with Cons.prems char_at_text [of p t u "w @ c # r"] wide_digit_not [of u] show ?case
    by (subst count_digits.simps) simp
qed

definition number_text :: "wstring \<Rightarrow> bool" where
  "number_text w \<longleftrightarrow> w \<noteq> [] \<and> (\<forall>u\<in>set w. wide_digit u) \<and> (1 < length w \<longrightarrow> hd w \<noteq> 0x30)"

lemma ParseNumberToken_text:
  assumes "drop p t = s @ w @ c # r" "s = [] \<or> s = [0x2D]" "number_text w" "c = 0 \<or> c = 0x26"
  shows "ParseNumberToken t p = Some (Token NUMBER p (length s + length w))"
proof -
  let ?k = "Token NUMBER p (length s)"
  from assms(3) obtain u v where w: "w = u # v" "wide_digit u" by (cases w) (auto simp: number_text_def)
  have d: "drop (p + length s) t = w @ c # r" using drop_past [OF assms(1)] .
  have u: "char_at t (p + length s) = Some u" using d w char_at_text by simp
  have p: "Option.bind (char_at t p) (past_sign t [0x2D] (Token NUMBER p 0)) = Some ?k"
    using assms(1,2) u w(2) wide_digit_not [of u] char_at_text [of p t]
    by (auto simp: past_sign_def NextChar_def w)
  have r: "ReadInt t ?k False = Some (True, Token NUMBER p (length s + length w))"
    using count_digits_text [OF d _ assms(4)] assms(3) u
    by (auto simp: ReadInt_def NextChar_def number_text_def w Let_def Token_def)
  have e: "char_at t (p + (length s + length w)) = Some c"
    using char_at_text [OF drop_past [OF d]] by (simp add: add.assoc)
  have f: "parse_fraction t (Token NUMBER p (length s + length w)) = Some (Token NUMBER p (length s + length w))"
    using e assms(4) by (auto simp: parse_fraction_def parse_exponent_def NextChar_def)
  from p obtain a where "char_at t p = Some a" "past_sign t [0x2D] (Token NUMBER p 0) a = Some ?k"
    by (cases "char_at t p") auto
  with r f show ?thesis by (simp add: ParseNumberToken_def)
qed

lemma token_at_number:
  assumes "drop p t = s @ w @ c # r" "s = [] \<or> s = [0x2D]" "number_text w" "c = 0 \<or> c = 0x26"
    and "length s + length w \<le> 19"
  shows "token_at t p = Some (Token NUMBER p (length s + length w))"
proof -
  from assms(3) obtain u v where w: "w = u # v" "wide_digit u" by (cases w) (auto simp: number_text_def)
  define h where "h = hd (s @ w)"
  have h: "char_at t p = Some h" "wide_digit h \<or> h = 0x2D"
    "h \<notin> {0x6E, 0x74, 0x66, 0x26, 0x3D}"
    using assms(1,2) w wide_digit_not [OF w(2)] char_at_text [of p t] by (auto simp: h_def)
  have d: "drop (p + length s) t = w @ c # r" using drop_past [OF assms(1)] .
  have "scan_number t (p + length s) 0 = Some (Some (p + length s + length w))"
    using scan_number_text [OF d _ assms(4)] assms(3) by (simp add: number_text_def)
  then have "scan_number t p 0 = Some (Some (p + (length s + length w)))"
    using assms(1,2) char_at_text [of p t]
    by (elim disjE) (simp_all add: add.assoc scan_number.simps [of t p] wide_digit_def)
  then have "NextNumberMatch t p = Some True" using assms(5) by (simp add: NextNumberMatch_def)
  with h ParseNumberToken_text [OF assms(1-4)] show ?thesis by (auto simp: token_at_def)
qed

lemma nat_digits_first: "10 \<le> n \<Longrightarrow> hd (nat_digits n) \<noteq> 48" "0 < n \<Longrightarrow> hd (nat_digits n) \<noteq> 48"
proof -
  have *: "0 < n \<Longrightarrow> hd (nat_digits n) \<noteq> 48"
  proof (induction n rule: nat_digits.induct)
    case (1 n)
    show ?case
    proof (cases "n < 10")
      case True
      have "uint (of_nat (48 + n) :: byte) \<noteq> 48" using digit_byte(2) [OF True] 1(2) by simp
      then have "(of_nat (48 + n) :: byte) \<noteq> 48" by auto
      with True show ?thesis by (subst nat_digits.simps) (simp del: of_nat_add)
    next
      case False
      with 1 have "hd (nat_digits (n div 10)) \<noteq> 48" by simp
      with False show ?thesis by (subst nat_digits.simps) simp
    qed
  qed
  then show "10 \<le> n \<Longrightarrow> hd (nat_digits n) \<noteq> 48" "0 < n \<Longrightarrow> hd (nat_digits n) \<noteq> 48" by simp_all
qed

lemma nat_digits_number: "number_text (map ucast (nat_digits n))"
proof -
  have "hd (nat_digits n) \<noteq> 48" if "1 < length (nat_digits n)"
  proof (cases "n < 10")
    case True
    with that show ?thesis by (simp add: nat_digits.simps [of n])
  qed (use nat_digits_first(1) [of n] in simp)
  then show ?thesis
    using nat_digits_digits [of n] by (auto simp: number_text_def wide_digit_byte hd_map)
qed

lemma decimal_sign:
  obtains s n where "decimal i = s @ nat_digits n" "s = [] \<and> i = int n \<or> s = [0x2D] \<and> i = - int n \<and> 0 < n"
  by (cases "i < 0") (use that [of "[]" "nat i"] that [of "[0x2D]" "nat (- i)"] in \<open>auto simp: decimal_def\<close>)

lemma take_digits_all: "\<forall>b\<in>set ds. is_digit b \<Longrightarrow> take_digits ds = ds"
  by (simp add: take_digits_def takeWhile_eq_all_conv)

lemma nat_digits_head:
  obtains x xs where "nat_digits n = x # xs" "is_digit x" "\<not> is_blank x" "x \<noteq> 0x2D" "x \<noteq> 0x2B"
proof -
  obtain x xs where x: "nat_digits n = x # xs" by (cases "nat_digits n") auto
  then have "is_digit x" using nat_digits_digits [of n] by simp
  moreover from this have "\<not> is_blank x" "x \<noteq> 0x2D" "x \<noteq> 0x2B"
    by (auto simp: is_digit_def is_blank_def word_le_def)
  ultimately show ?thesis using x that by blast
qed

lemma digits_value_0: "digits_value 0 (nat_digits n) = int n"
  using digits_value_nat_digits [of 0 n] by auto

lemma c_string_decimal [simp]: "c_string (decimal i) = decimal i"
proof -
  obtain s n where "decimal i = s @ nat_digits n" "s = [] \<or> s = [0x2D]" by (rule decimal_sign [of i]) auto
  moreover have "\<forall>b\<in>set (nat_digits n). b \<noteq> 0" using nat_digits_digits [of n] by (auto simp: is_digit_def)
  ultimately show ?thesis by (auto simp: c_string_def takeWhile_eq_all_conv)
qed

lemma strtoll_decimal:
  assumes "- (2 ^ 63) \<le> i" "i < 2 ^ 63" shows "strtoll (decimal i) = (i, length (decimal i), False)"
proof -
  obtain s n where d: "decimal i = s @ nat_digits n" "s = [] \<and> i = int n \<or> s = [0x2D] \<and> i = - int n \<and> 0 < n"
    by (rule decimal_sign)
  obtain x xs where x: "nat_digits n = x # xs" "is_digit x" "\<not> is_blank x" "x \<noteq> 0x2D" "x \<noteq> 0x2B"
    by (rule nat_digits_head)
  have t: "take_digits (x # xs) = x # xs" using take_digits_all [OF nat_digits_digits, of n] x(1) by simp
  have v: "digits_value 0 (x # xs) = int n" using digits_value_0 [of n] x(1) by simp
  have b: "\<not> is_blank 0x2D" by (simp add: is_blank_def)
  from d(2) show ?thesis
  proof (elim disjE conjE)
    assume "s = []" "i = int n"
    then show ?thesis using d(1) x t v assms by (simp add: strtoll_def Let_def)
  next
    assume "s = [0x2D]" "i = - int n" "0 < n"
    then show ?thesis using d(1) x t v b assms by (simp add: strtoll_def Let_def)
  qed
qed

lemma decimal_head: "decimal i \<noteq> [] \<and> \<not> is_blank (hd (decimal i))"
proof -
  obtain s n where d: "decimal i = s @ nat_digits n" "s = [] \<or> s = [0x2D]" by (rule decimal_sign [of i]) auto
  obtain x xs where "nat_digits n = x # xs" "\<not> is_blank x" by (rule nat_digits_head)
  with d show ?thesis by (auto simp: is_blank_def)
qed

lemma StringToInt64_decimal: "StringToInt64 (decimal (sint (i :: int64))) = Some i"
proof -
  have "- (2 ^ 63) \<le> sint i" "sint i < 2 ^ 63" using sint_ge [of i] sint_lt [of i] by simp_all
  from strtoll_decimal [OF this] decimal_head [of "sint i"] show ?thesis
    by (simp add: StringToInt64_def Let_def)
qed

lemma length_decimal_19:
  assumes "- (10 ^ 18) < i" "i < 2 ^ 63" shows "length (decimal i) \<le> 19"
proof (cases "i < 0")
  case True
  then have "nat (- i) < 10 ^ 18" using assms(1) by (simp add: nat_less_iff)
  from length_nat_digits [OF this] True show ?thesis by (simp add: decimal_def)
next
  case False
  then have "nat i < 10 ^ 19" using assms(2) by (simp add: nat_less_iff)
  from length_nat_digits [OF this] False show ?thesis by (simp add: decimal_def)
qed

section \<open>Values\<close>

text \<open>The values a query string carries, the wide text of each, and what the parser makes of it:
  an \<^verbatim>\<open>int\<close> comes back as a big integer, and a number of more than 19 characters as a
  string.\<close>

fun carried :: "tree \<Rightarrow> bool" where
  "carried NullValue = True"
| "carried (BooleanValue b) = b"
| "carried (IntegerValue i) = True"
| "carried (BigIntegerValue i) = True"
| "carried (StringValue s) =
     (WideToUTF8 (UTF8ToWide s) = s \<and>
      (s = [] \<or> (clean (UTF8ToWide s) \<and> plain_start (UTF8ToWide s))))"
| "carried v = False"

fun value_text :: "tree \<Rightarrow> wstring" where
  "value_text (BooleanValue b) = wide ''true''"
| "value_text (IntegerValue i) = map ucast (decimal (sint i))"
| "value_text (BigIntegerValue i) = map ucast (decimal (sint i))"
| "value_text (StringValue s) = escaped (UTF8ToWide s)"
| "value_text v = wide ''null''"

fun read_back :: "tree \<Rightarrow> tree" where
  "read_back (IntegerValue i) = BigIntegerValue (scast i)"
| "read_back (BigIntegerValue i) =
     (if - (10 ^ 18) < sint i then BigIntegerValue i else StringValue (decimal (sint i)))"
| "read_back v = v"

lemma substring_text: "drop p t = w @ c # r \<Longrightarrow> substring t p (length w) = Some w"
proof -
  assume d: "drop p t = w @ c # r"
  then have "p < length t" by (metis append_is_Nil_conv drop_all list.distinct(1) not_le_imp_less)
  moreover have "length t - p = length w + Suc (length r)" using arg_cong [OF d, of length] by simp
  ultimately show ?thesis using d by (simp add: substring_def)
qed

lemma DecodeNumber_text:
  assumes "drop p t = map ucast (decimal (sint (i :: int64))) @ c # r"
  shows "DecodeNumber strtod t (Token NUMBER p (length (decimal (sint i)))) = Some (Some (BigIntegerValue i))"
proof -
  have "map (ucast \<circ> (ucast :: byte \<Rightarrow> wchar)) bs = bs" for bs by (induction bs) (simp_all add: wide_digit_byte)
  then have "WideToASCII (map ucast bs) = bs" for bs by (simp add: WideToASCII_def)
  with substring_text [OF assms] show ?thesis by (simp add: DecodeNumber_def StringToInt64_decimal)
qed

lemma token_at_decimal:
  assumes "drop p t = map ucast (decimal (sint (i :: int64))) @ c # r" "- (10 ^ 18) < sint i" "c = 0 \<or> c = 0x26"
  shows "token_at t p = Some (Token NUMBER p (length (decimal (sint i))))"
proof -
  obtain s n where d: "decimal (sint i) = s @ nat_digits n" "s = [] \<or> s = [0x2D]" by (rule decimal_sign [of "sint i"]) auto
  have "sint i < 2 ^ 63" using sint_lt [of i] by simp
  from length_decimal_19 [OF assms(2) this] d(1) have "length s + length (nat_digits n) \<le> 19" by simp
  with token_at_number [of p t "map ucast s" "map ucast (nat_digits n)" c r] d assms nat_digits_number [of n]
  show ?thesis by auto
qed

text \<open>The parser at a value: it reads the token and takes the step.\<close>

lemma ParseToken_text:
  assumes "drop (http_pos h) t = c # r" "c \<notin> {0x20, 0x0D, 0x09}"
  shows "ParseToken t h = map_option (\<lambda>k. (k, h)) (token_at t (http_pos h))"
  using assms char_at_text [OF assms(1)]
  by (simp add: ParseToken_def EatWhitesspaceAndComments_def eat_blanks.simps [of t "http_pos h"])

lemma ParseToken_separator:
  assumes "drop (http_pos h) t = c # r"
  shows "c = 0x26 \<Longrightarrow> ParseToken t h = Some (Token LIST_SEPARATOR (http_pos h) 1, h)"
    and "c = 0x3D \<Longrightarrow> ParseToken t h = Some (Token OBJECT_PAIR_SEPARATOR (http_pos h) 1, h)"
    and "c = 0 \<Longrightarrow> ParseToken t h = Some (Token OBJECT_END (http_pos h) 0, h)"
  using ParseToken_text [OF assms] char_at_text [OF assms] by (simp_all add: token_at_def)

lemma ParseToken_string:
  assumes "drop (http_pos h) t = escaped w @ c # r" "clean w" "plain_start w" "separator c"
  shows "ParseToken t h = Some (Token STRING (http_pos h) (length (escaped w)), h)"
proof -
  obtain d e where d: "escaped w = d # e" "d \<notin> {0, 0x26, 0x3D, 0x2D, 0x20, 0x0D, 0x09}"
    using escaped_hd [OF assms(2,3)] by metis
  have "drop (http_pos h) t = d # e @ c # r" using assms(1) d(1) by simp
  from ParseToken_text [OF this] d(2) token_at_text [OF assms] show ?thesis by simp
qed

lemma ParseToken_number:
  assumes "drop (http_pos h) t = map ucast (decimal (sint (i :: int64))) @ c # r" "- (10 ^ 18) < sint i" "c = 0 \<or> c = 0x26"
  shows "ParseToken t h = Some (Token NUMBER (http_pos h) (length (decimal (sint i))), h)"
proof -
  obtain d e where d: "decimal (sint i) = d # e" "\<not> is_blank d" using decimal_head [of "sint i"] by (cases "decimal (sint i)") auto
  then have "ucast d \<notin> {0x20 :: wchar, 0x0D, 0x09}"
    using wide_digit_byte(2) [of d] by (auto simp: is_blank_def word_le_def)
  with ParseToken_text [of h t "ucast d"] token_at_decimal [OF assms] assms(1) d show ?thesis by simp
qed

lemma ParseToken_keyword:
  assumes "drop (http_pos h) t = wide word @ c # r" "(word, k) = (''null'', NULL_TOKEN) \<or> (word, k) = (''true'', BOOL_TRUE)"
  shows "ParseToken t h = Some (Token k (http_pos h) 4, h)"
proof -
  obtain d e where d: "wide word = d # e" "d \<notin> {0, 0x20, 0x0D, 0x09}" "0 \<notin> set (wide word)"
    "d = 0x6E \<and> word = ''null'' \<or> d = 0x74 \<and> word = ''true''"
    using assms(2) by (auto simp: wide_def)
  have at: "drop (http_pos h) t = d # e @ c # r" using assms(1) d(1) by simp
  have "NextStringMatch t (http_pos h) (wide word) = Some True"
    using NextStringMatch_prefix [OF at _ d(3)] d(1,2) by simp
  then have "token_at t (http_pos h) = Some (Token k (http_pos h) 4)"
    using char_at_text [OF at] d(4) assms(2) by (auto simp: token_at_def keyword_token_def)
  with ParseToken_text [OF at] d(2) show ?thesis by simp
qed

lemma length_nat_digits_ge: "n < 10 ^ length (nat_digits n)"
proof (induction n rule: nat_digits.induct)
  case (1 n)
  show ?case
  proof (cases "n < 10")
    case False
    then have "length (nat_digits n) = Suc (length (nat_digits (n div 10)))"
      by (subst nat_digits.simps) simp
    with 1 False show ?thesis by simp
  qed (simp add: nat_digits.simps [of n])
qed

lemma decimal_chars:
  assumes "u \<in> set (map ucast (decimal i))" shows "wide_digit u \<or> u = 0x2D"
proof -
  obtain s n where "decimal i = s @ nat_digits n" "s = [] \<or> s = [0x2D]" by (rule decimal_sign [of i]) auto
  with assms nat_digits_digits [of n] show ?thesis by (auto simp: wide_digit_byte)
qed

lemma escaped_decimal: "escaped (map ucast (decimal i)) = map ucast (decimal i)" "clean (map ucast (decimal i))"
proof -
  have u: "u \<notin> {0x08, 0x0C, 0x0A, 0x0D, 0x09, 0x5C, 0x22, 0, 0x26, 0x3D}"
    if "u \<in> set (map ucast (decimal i))" for u :: wchar
    using decimal_chars [OF that] by (auto simp: wide_digit_def word_sle_eq)
  then have "\<forall>u\<in>set (map ucast (decimal i)). esc u = [u]" by (simp add: esc_def)
  from concat_map_singles [OF this] show "escaped (map ucast (decimal i)) = map ucast (decimal i)" .
  from u show "clean (map ucast (decimal i))" unfolding clean_def by blast
qed

lemma ParseToken_long:
  assumes "drop (http_pos h) t = map ucast (decimal i) @ c # r" "i \<le> - (10 ^ 18)" "c = 0 \<or> c = 0x26"
  shows "ParseToken t h = Some (Token STRING (http_pos h) (length (decimal i)), h)"
proof -
  let ?p = "http_pos h" and ?w = "map ucast (nat_digits (nat (- i))) :: wstring"
  have at: "drop ?p t = 0x2D # ?w @ c # r" using assms(1,2) by (simp add: decimal_def)
  have "\<not> length (nat_digits (nat (- i))) \<le> 18"
  proof
    assume "length (nat_digits (nat (- i))) \<le> 18"
    then have "(10 :: nat) ^ length (nat_digits (nat (- i))) \<le> 10 ^ 18" by (rule power_increasing) simp
    with length_nat_digits_ge [of "nat (- i)"] have "nat (- i) < 10 ^ 18" by linarith
    with assms(2) show False by (simp add: nat_less_iff)
  qed
  moreover have "scan_number t (Suc ?p) 0 = Some (Some (Suc ?p + length ?w))"
    using scan_number_text [OF drop_next [OF at] _ assms(3)] nat_digits_digits by (simp add: wide_digit_byte)
  ultimately have "NextNumberMatch t ?p = Some False"
    using char_at_text [OF at] by (simp add: NextNumberMatch_def scan_number.simps [of t ?p] wide_digit_def)
  moreover have "ParseStringToken t ?p = Some (Token STRING ?p (length (decimal i)))"
    using string_token_text [of "Token STRING ?p 0" t "map ucast (decimal i)" c r] assms(1,3) escaped_decimal [of i]
    by (auto simp: ParseStringToken_def separator_def)
  ultimately have "token_at t ?p = Some (Token STRING ?p (length (decimal i)))"
    using char_at_text [OF at] by (simp add: token_at_def wide_digit_def)
  with ParseToken_text [OF at] show ?thesis by simp
qed

lemma decimal_ascii: "\<forall>b\<in>set (decimal i). b < 0x80"
proof -
  obtain s n where "decimal i = s @ nat_digits n" "s = [] \<or> s = [0x2D]" by (rule decimal_sign [of i]) auto
  moreover have "\<forall>b\<in>set (nat_digits n). b < 0x80"
    using nat_digits_digits [of n] by (auto simp: is_digit_def intro: le_less_trans)
  ultimately show ?thesis by auto
qed

lemma decimal_wide: "WideToUTF8 (map ucast (decimal i)) = decimal i"
  by (rule ascii_text(2)) (rule decimal_ascii)

definition value_end :: "tree \<Rightarrow> http_parser \<Rightarrow> http_parser" where
  "value_end v h =
     (if v = StringValue [] then h\<lparr>stack_depth := stack_depth h + 1\<rparr>
      else h\<lparr>http_pos := http_pos h + length (value_text v)\<rparr>)"

lemma BuildValue_text:
  assumes "drop (http_pos h) t = value_text v @ c # r" "carried v" "c = 0 \<or> c = 0x26" "stack_depth h < kStackLimit"
  shows "BuildValue strtod (Suc d) t False h =
    Some (if v = StringValue [] then None else Some (read_back v), value_end v h)"
proof -
  let ?h = "h\<lparr>stack_depth := stack_depth h + 1\<rparr>"
  have lim: "\<not> kStackLimit < Suc (stack_depth h)" using assms(4) by simp
  have at: "drop (http_pos ?h) t = value_text v @ c # r" using assms(1) by simp
  have num: ?thesis if "value_text v = map ucast (decimal (sint i))" "read_back v = BigIntegerValue i"
    "- (10 ^ 18) < sint i" "v \<noteq> StringValue []" for i :: int64
    using ParseToken_number [OF at [unfolded that(1)] that(3) assms(3)]
      DecodeNumber_text [OF assms(1) [unfolded that(1)], of strtod] lim that
    by (simp add: Let_def past_token_def value_end_def)
  have long: ?thesis if "v = BigIntegerValue i" "sint i \<le> - (10 ^ 18)" for i :: int64
    using ParseToken_long [of ?h t "sint i" c r] assms(1,3) at that lim escaped_decimal [of "sint i"]
      decode_text [of "http_pos h" t "map ucast (decimal (sint i))" "c # r" "[]"]
    by (simp add: Let_def value_end_def DecodeString_def CreateStringValueWide_def past_token_def decimal_wide)
  show ?thesis
  proof (cases v)
    case (IntegerValue i)
    have "sint (scast i :: int64) = sint i" by (simp add: sint_up_scast is_up)
    moreover have "- (10 ^ 18) < sint i" using sint32_bounds(1) [of i] by simp
    ultimately show ?thesis using num [of "scast i"] IntegerValue by simp
  next
    case (StringValue s)
    show ?thesis
    proof (cases "s = []")
      case True
      with StringValue at have "drop (http_pos ?h) t = c # r" by (simp add: UTF8ToWide_def utf8_to_wide.simps)
      from ParseToken_separator [OF this] assms(3) lim StringValue True show ?thesis
        by (auto simp: Let_def value_end_def)
    next
      case False
      with assms(2) StringValue have w: "clean (UTF8ToWide s)" "plain_start (UTF8ToWide s)"
        "WideToUTF8 (UTF8ToWide s) = s" by auto
      have c: "separator c" using assms(3) by (auto simp: separator_def)
      from StringValue at assms(1) have at': "drop (http_pos ?h) t = escaped (UTF8ToWide s) @ c # r"
        "drop (http_pos h) t = escaped (UTF8ToWide s) @ c # r" by auto
      show ?thesis
        using ParseToken_string [OF at'(1) w(1,2) c] decode_text [OF at'(2), of "[]"] lim w(3) StringValue False
        by (simp add: Let_def value_end_def DecodeString_def CreateStringValueWide_def past_token_def)
    qed
  next
    case NullValue
    with ParseToken_keyword [of ?h t "''null''" c r NULL_TOKEN] at lim show ?thesis
      by (simp add: Let_def value_end_def past_token_def wide_def)
  next
    case (BooleanValue b)
    with ParseToken_keyword [of ?h t "''true''" c r BOOL_TRUE] at lim assms(2) show ?thesis
      by (simp add: Let_def value_end_def past_token_def wide_def)
  next
    case (BigIntegerValue i)
    then show ?thesis using num [of i] long [of i] by (cases "- (10 ^ 18) < sint i") auto
  qed (use assms(2) in auto)
qed

end
