(* ===== verification/HttpRoundTrip.thy ===== *)
theory HttpRoundTrip
  imports HttpText
begin

text \<open>
  Whole query strings: what a written dictionary becomes when it is parsed, and the values that make
  the parser refuse the whole request.
\<close>

section \<open>Entries\<close>

fun entries_text :: "dict \<Rightarrow> wstring" where
  "entries_text [] = []"
| "entries_text ((k, v) # m) =
     escaped k @ 0x3D # value_text v @ (if m = [] then [] else 0x26 # entries_text m)"

text \<open>A key must be ASCII; the values without text each leave one level of the stack behind.\<close>

definition key_ok :: "wstring \<Rightarrow> bool" where
  "key_ok k \<longleftrightarrow> (\<forall>c\<in>set k. c < 0x80) \<and> clean k \<and> plain_start k"

definition entry_ok :: "wstring \<times> tree \<Rightarrow> bool" where
  "entry_ok e \<longleftrightarrow> key_ok (fst e) \<and> carried (snd e)"

definition empties :: "dict \<Rightarrow> nat" where
  "empties m = length (filter (\<lambda>e. snd e = StringValue []) m)"

definition read_entries :: "dict \<Rightarrow> dict \<Rightarrow> dict" where
  "read_entries = foldl (\<lambda>node e. dict_set (fst e) (read_back (snd e)) node)"

lemma ascii_key:
  assumes "\<forall>c\<in>set k. c < (0x80 :: wchar)"
  shows "map ucast (WideToASCII k) = k" "\<forall>b\<in>set (WideToASCII k). b < 0x80" "UTF8ToWide (WideToUTF8 k) = k"
proof -
  have *: "unat (ucast c :: byte) = unat c" if "c \<in> set k" for c
  proof -
    have "unat c < 128" using assms that by (simp add: word_less_nat_alt)
    then show ?thesis by (simp add: unsigned_ucast_eq take_bit_nat_eq_self)
  qed
  then have "ucast (ucast c :: byte) = c" "ucast c < (0x80 :: byte)" if "c \<in> set k" for c
    using assms that by (auto simp: word_unat_eq_iff word_less_nat_alt unsigned_ucast_eq unsigned_take_bit_eq take_bit_nat_eq_self)
  then show a: "map ucast (WideToASCII k) = k" and b: "\<forall>b\<in>set (WideToASCII k). b < 0x80"
    by (simp_all add: WideToASCII_def map_idI)
  from ascii_text [OF b] a show "UTF8ToWide (WideToUTF8 k) = k" by simp
qed

lemma value_token:
  assumes "drop (http_pos h) t = value_text v @ c # r" "carried v" "c = 0 \<or> c = 0x26"
  shows "\<exists>k. ParseToken t h = Some (k, h)"
proof (cases v)
  case (IntegerValue i)
  have "sint (scast i :: int64) = sint i" by (simp add: sint_up_scast is_up)
  then show ?thesis
    using ParseToken_number [of h t "scast i" c r] assms sint32_bounds(1) [of i] IntegerValue by auto
next
  case (BigIntegerValue i)
  with ParseToken_number [of h t i c r] ParseToken_long [of h t "sint i" c r] assms show ?thesis
    by (cases "- (10 ^ 18) < sint i") auto
next
  case (StringValue s)
  show ?thesis
  proof (cases "s = []")
    case True
    with StringValue assms(1) have "drop (http_pos h) t = c # r" by (simp add: UTF8ToWide_def utf8_to_wide.simps)
    from ParseToken_separator [OF this] assms(3) show ?thesis by blast
  next
    case False
    have "separator c" using assms(3) by (auto simp: separator_def)
    with ParseToken_string [of h t "UTF8ToWide s" c r] StringValue False assms(1,2) show ?thesis by simp
  qed
next
  case NullValue
  with ParseToken_keyword [of h t "''null''" c r NULL_TOKEN] assms show ?thesis by simp
next
  case (BooleanValue b)
  with ParseToken_keyword [of h t "''true''" c r BOOL_TRUE] assms show ?thesis by simp
qed (use assms(2) in auto)

text \<open>One turn of the loop: the key, the separator, and whatever \<open>build\<close> makes of the value.\<close>

lemma entry_key:
  assumes "drop (http_pos h) t = escaped k @ 0x3D # r" "key_ok k"
    and "h2 = h\<lparr>http_pos := http_pos h + length (escaped k) + 1\<rparr>"
    and "ParseToken t h2 = Some (k2, h2)" "build h2 = Some (v, h3)"
  shows "object_loop t build (Suc n) node (Token STRING (http_pos h) (length (escaped k))) h =
    object_rest t (object_loop t build n)
      (dict_set k (case v of None \<Rightarrow> StringValue [] | Some v \<Rightarrow> v) node) h3"
proof -
  let ?k = "Token STRING (http_pos h) (length (escaped k))"
  let ?h1 = "past_token ?k h"
  have key: "DecodeString t ?k = Some (Some (CreateStringValueWide k))"
    using decode_text [OF assms(1), of "[]"] by (simp add: DecodeString_def)
  have key': "GetAsWString (CreateStringValueWide k) = Some k"
    using ascii_key(3) [of k] assms(2) by (simp add: GetAsWString_def CreateStringValueWide_def key_ok_def)
  have d1: "drop (http_pos ?h1) t = 0x3D # r" using drop_past [OF assms(1)] by simp
  have h2: "past_token (Token OBJECT_PAIR_SEPARATOR (http_pos ?h1) 1) ?h1 = h2"
    by (simp add: assms(3) past_token_def)
  have "ParseToken t ?h1 = Some (Token OBJECT_PAIR_SEPARATOR (http_pos ?h1) 1, ?h1)"
    using ParseToken_separator(2) [OF d1] by simp
  with key key' h2 assms(4,5) show ?thesis by (simp add: SetWithoutPathExpansion_def Let_def)
qed

lemma entry_text:
  assumes "drop (http_pos h) t = escaped k @ 0x3D # value_text v @ c # r" "entry_ok (k, v)"
    and "c = 0 \<or> c = 0x26" "stack_depth h < kStackLimit"
  obtains h' where "object_loop t (BuildValue strtod (Suc d) t False) (Suc n) node
      (Token STRING (http_pos h) (length (escaped k))) h =
      object_rest t (object_loop t (BuildValue strtod (Suc d) t False) n) (dict_set k (read_back v) node) h'"
    "drop (http_pos h') t = c # r" "stack_depth h' = stack_depth h + (if v = StringValue [] then 1 else 0)"
proof -
  define h2 where "h2 = h\<lparr>http_pos := http_pos h + length (escaped k) + 1\<rparr>"
  have ok: "key_ok k" "carried v" using assms(2) by (auto simp: entry_ok_def)
  have d2: "drop (http_pos h2) t = value_text v @ c # r"
    using drop_next [OF drop_past [OF assms(1)]] by (simp add: h2_def)
  obtain k2 where t2: "ParseToken t h2 = Some (k2, h2)" using value_token [OF d2 ok(2) assms(3)] by blast
  have b: "BuildValue strtod (Suc d) t False h2 =
      Some (if v = StringValue [] then None else Some (read_back v), value_end v h2)"
    using BuildValue_text [OF d2 ok(2) assms(3)] assms(4) by (simp add: h2_def del: BuildValue.simps)
  have "drop (http_pos (value_end v h2)) t = c # r"
    using drop_past [OF d2] d2 by (simp add: value_end_def UTF8ToWide_def utf8_to_wide.simps)
  moreover have "stack_depth (value_end v h2) = stack_depth h + (if v = StringValue [] then 1 else 0)"
    by (simp add: value_end_def h2_def)
  ultimately show ?thesis
    using that [of "value_end v h2"] entry_key [where build = "BuildValue strtod (Suc d) t False", OF assms(1) ok(1) h2_def t2 b, of n node]
    by (cases "v = StringValue []") (simp_all del: object_loop.simps)
qed

lemma object_loop_text:
  assumes "\<forall>e\<in>set m. entry_ok e" "stack_depth h + empties m < kStackLimit" "length m \<le> n" "m \<noteq> []"
    and "drop (http_pos h) t = entries_text m @ 0 # r"
  shows "\<exists>h'. object_loop t (BuildValue strtod (Suc d) t False) n node
      (Token STRING (http_pos h) (length (escaped (fst (hd m))))) h =
    Some (Some (DictionaryValue (read_entries node m)), h') \<and> drop (http_pos h') t = 0 # r"
  using assms
proof (induction m arbitrary: h n node)
  case (Cons e m)
  obtain k v where e: "e = (k, v)" by (cases e)
  obtain n' where n: "n = Suc n'" using Cons.prems(3) by (cases n) auto
  define c where "c = (if m = [] then 0 else 0x26 :: wchar)"
  define r' where "r' = (if m = [] then r else entries_text m @ 0 # r)"
  have d: "drop (http_pos h) t = escaped k @ 0x3D # value_text v @ c # r'"
    using Cons.prems(5) by (simp add: e c_def r'_def)
  have "entry_ok (k, v)" "c = 0 \<or> c = 0x26" "stack_depth h < kStackLimit"
    using Cons.prems(1,2) by (auto simp: e c_def)
  from entry_text [OF d this, of strtod d n' node] obtain h' where h':
    "object_loop t (BuildValue strtod (Suc d) t False) (Suc n') node
      (Token STRING (http_pos h) (length (escaped k))) h =
      object_rest t (object_loop t (BuildValue strtod (Suc d) t False) n') (dict_set k (read_back v) node) h'"
    "drop (http_pos h') t = c # r'" "stack_depth h' = stack_depth h + (if v = StringValue [] then 1 else 0)"
    by metis
  show ?case
  proof (cases m)
    case Nil
    with h' ParseToken_separator(3) [OF h'(2)] show ?thesis
      by (simp add: e n c_def r'_def read_entries_def object_rest_def object_end_def Let_def del: object_loop.simps BuildValue.simps)
  next
    case (Cons e2 m2)
    let ?h = "past_token (Token LIST_SEPARATOR (http_pos h') 1) h'"
    obtain k2 v2 where e2: "e2 = (k2, v2)" by (cases e2)
    from Cons have c: "c = 0x26" "r' = entries_text m @ 0 # r" by (simp_all add: c_def r'_def)
    have at: "drop (http_pos ?h) t = entries_text m @ 0 # r" using drop_next [OF h'(2)] c by simp
    have "key_ok k2" using Cons.prems(1) Cons e2 by (auto simp: entry_ok_def)
    then have t: "ParseToken t ?h = Some (Token STRING (http_pos ?h) (length (escaped k2)), ?h)"
      using ParseToken_string [of ?h t k2 "0x3D"] at Cons e2 by (simp add: key_ok_def separator_def)
    have "\<forall>e\<in>set m. entry_ok e" "stack_depth ?h + empties m < kStackLimit" "length m \<le> n'" "m \<noteq> []"
      using Cons.prems(1-3) Cons h'(3) by (auto simp: empties_def e n)
    from Cons.IH [OF this at, of "dict_set k (read_back v) node"]
      show ?thesis using h'(1) ParseToken_separator(1) [OF h'(2) c(1)] t Cons e2
      by (simp add: e n read_entries_def object_rest_def del: object_loop.simps BuildValue.simps)
  qed
qed simp

section \<open>The written message\<close>

text \<open>A byte string is the UTF-8 encoding and a wide string the UTF-16 encoding of the same text.\<close>

definition encodes :: "byte list \<Rightarrow> wstring \<Rightarrow> bool" where
  "encodes bs w \<longleftrightarrow> (\<exists>cs. (\<forall>c\<in>set cs. IsValidCodepoint c) \<and> bs = utf8_text cs \<and> w = utf16_text cs)"

lemma encodes_append: "encodes a v \<Longrightarrow> encodes b w \<Longrightarrow> encodes (a @ b) (v @ w)"
proof -
  assume "encodes a v" "encodes b w"
  then obtain cs ds where "\<forall>c\<in>set (cs @ ds). IsValidCodepoint c" "a @ b = utf8_text (cs @ ds)"
    "v @ w = utf16_text (cs @ ds)" by (auto simp: encodes_def)
  then show ?thesis unfolding encodes_def by blast
qed

lemma encodes_wide: "encodes bs w \<Longrightarrow> UTF8ToWide bs = w"
  by (auto simp: encodes_def text_survives_conversion)

lemma encodes_stable: "WideToUTF8 (UTF8ToWide s) = s \<Longrightarrow> encodes s (UTF8ToWide s)"
  using conversion_sanitises [of s] by (auto simp: encodes_def)

lemma ascii_bytes:
  "b < 0x80 \<Longrightarrow> IsValidCodepoint (ucast (b :: byte)) \<and> CBU8_APPEND_UNSAFE (ucast b) = [b] \<and>
     WriteUnicodeCharacterWide (ucast b) = [ucast b] \<and> map ucast (escape_char b) = esc (ucast b) \<and>
     (\<forall>d\<in>set (escape_char b). d < 0x80)"
proof -
  have *: "list_all (\<lambda>b :: byte. b < 0x80 \<longrightarrow> IsValidCodepoint (ucast b) \<and> CBU8_APPEND_UNSAFE (ucast b) = [b] \<and>
     WriteUnicodeCharacterWide (ucast b) = [ucast b] \<and> map ucast (escape_char b) = esc (ucast b) \<and>
     (\<forall>d\<in>set (escape_char b). d < 0x80)) (map word_of_nat [0..<256])"
    by code_simp
  then show "b < 0x80 \<Longrightarrow> IsValidCodepoint (ucast (b :: byte)) \<and> CBU8_APPEND_UNSAFE (ucast b) = [b] \<and>
     WriteUnicodeCharacterWide (ucast b) = [ucast b] \<and> map ucast (escape_char b) = esc (ucast b) \<and>
     (\<forall>d\<in>set (escape_char b). d < 0x80)"
    using byte_all [OF *] by blast
qed

lemma encodes_ascii: "\<forall>b\<in>set bs. b < 0x80 \<Longrightarrow> encodes bs (map ucast bs)"
proof (induction bs)
  case Nil
  show ?case unfolding encodes_def by (intro exI [of _ "[]"]) simp
next
  case (Cons b bs)
  then have "encodes [b] [ucast b]" unfolding encodes_def
    using ascii_bytes [of b] by (intro exI [of _ "[ucast b]"]) simp
  from encodes_append [OF this] Cons show ?case by fastforce
qed

lemma escape_high: "0x80 \<le> (b :: byte) \<Longrightarrow> escape_char b = [b]" "0x80 \<le> unat (u :: wchar) \<Longrightarrow> esc u = [u]"
proof -
  have *: "list_all (\<lambda>b :: byte. 0x80 \<le> b \<longrightarrow> escape_char b = [b]) (map word_of_nat [0..<256])"
    by code_simp
  show "0x80 \<le> b \<Longrightarrow> escape_char b = [b]" using byte_all [OF *] by blast
  show "0x80 \<le> unat u \<Longrightarrow> esc u = [u]" by (auto simp: esc_def)
qed

lemma high_byte: "bit (b :: byte) 7 \<Longrightarrow> 0x80 \<le> b"
proof -
  have *: "list_all (\<lambda>b :: byte. bit b 7 \<longrightarrow> 0x80 \<le> b) (map word_of_nat [0..<256])" by code_simp
  show "bit b 7 \<Longrightarrow> 0x80 \<le> b" using byte_all [OF *] by blast
qed

lemma encoded_high:
  assumes "0x80 \<le> unat c" "IsValidCodepoint c"
  shows "\<forall>b\<in>set (CBU8_APPEND_UNSAFE c). 0x80 \<le> b" "\<forall>u\<in>set (WriteUnicodeCharacterWide c). 0x80 \<le> unat u"
proof -
  have "\<not> c \<le> 0x7F" using assms(1) by (simp add: word_le_nat_alt)
  then show "\<forall>b\<in>set (CBU8_APPEND_UNSAFE c). 0x80 \<le> b"
    by (auto simp: CBU8_APPEND_UNSAFE_def bit_simps numeral_bits intro!: high_byte)
  have q: "unat c div 1024 \<le> 0x43F" "unat c \<le> 0x10FFFF" using assms(2) by (auto simp: valid_iff)
  have "unat (of_nat (unat c div 1024) + 0xD7C0 :: wchar) = unat c div 1024 + 0xD7C0"
    "unat (of_nat (unat c mod 1024) + 0xDC00 :: wchar) = unat c mod 1024 + 0xDC00"
    using q mod_less_divisor [of 1024 "unat c"]
    by (simp_all add: unat_word_ariths unsigned_of_nat take_bit_nat_eq_self)
  then show "\<forall>u\<in>set (WriteUnicodeCharacterWide c). 0x80 \<le> unat u"
    using assms(1) by (simp add: WriteUnicodeCharacterWide_def CBU16_APPEND_UNSAFE_def lead_unit [OF q(2)] trail_unit)
qed

lemma encodes_quote_one:
  assumes "IsValidCodepoint c"
  shows "encodes (HttpDoubleQuote (CBU8_APPEND_UNSAFE c)) (escaped (WriteUnicodeCharacterWide c))"
proof (cases "unat c < 0x80")
  case True
  define b :: byte where "b = ucast c"
  have b: "ucast b = c" "b < 0x80"
    using True by (auto simp: b_def word_unat_eq_iff word_less_nat_alt unsigned_ucast_eq unsigned_take_bit_eq take_bit_nat_eq_self)
  from ascii_bytes [OF b(2)] encodes_ascii [of "escape_char b"] show ?thesis
    by (simp add: b(1) HttpDoubleQuote_def)
next
  case False
  with encoded_high [of c] assms have "HttpDoubleQuote (CBU8_APPEND_UNSAFE c) = CBU8_APPEND_UNSAFE c"
    "escaped (WriteUnicodeCharacterWide c) = WriteUnicodeCharacterWide c"
    unfolding HttpDoubleQuote_def by (simp_all add: concat_map_singles escape_high)
  with assms show ?thesis unfolding encodes_def by (intro exI [of _ "[c]"]) simp
qed

lemma encodes_quote: "encodes s w \<Longrightarrow> encodes (HttpDoubleQuote s) (escaped w)"
proof -
  have *: "\<forall>c\<in>set cs. IsValidCodepoint c \<Longrightarrow> encodes (HttpDoubleQuote (utf8_text cs)) (escaped (utf16_text cs))" for cs
  proof (induction cs)
    case Nil
    show ?case using encodes_ascii [of "[]"] by (simp add: HttpDoubleQuote_def)
  next
    case (Cons c cs)
    from Cons encodes_append [OF encodes_quote_one [of c]] show ?case by (simp add: HttpDoubleQuote_def)
  qed
  assume "encodes s w"
  with * show ?thesis unfolding encodes_def by blast
qed

lemma encodes_decimal: "encodes (decimal i) (map ucast (decimal i))"
  by (rule encodes_ascii) (rule decimal_ascii)

lemma encodes_value: "carried v \<Longrightarrow> encodes (BuildHTTPString g v) (value_text v)"
proof (cases v)
  case (StringValue s)
  assume "carried v"
  with StringValue encodes_quote [OF encodes_stable [of s]] show ?thesis by simp
qed (use encodes_decimal encodes_ascii [of "ascii ''null''"] encodes_ascii [of "ascii ''true''"] in
  \<open>auto simp: ascii_def wide_def\<close>)

lemma encodes_entries:
  "\<forall>e\<in>set m. entry_ok e \<Longrightarrow>
     encodes (http_entries g first m) (if m = [] then [] else (if first then [] else [0x26]) @ entries_text m)"
proof (induction m arbitrary: first)
  case Nil
  show ?case using encodes_ascii [of "[]"] by simp
next
  case (Cons e m)
  obtain k v where e: "e = (k, v)" by (cases e)
  have ok: "key_ok k" "carried v" "\<forall>e\<in>set m. entry_ok e" using Cons.prems by (auto simp: e entry_ok_def)
  have k: "encodes (HttpDoubleQuote (WideToASCII k)) (escaped k)"
  proof -
    have a: "\<forall>c\<in>set k. c < 0x80" using ok(1) by (simp add: key_ok_def)
    from encodes_quote [OF encodes_ascii [OF ascii_key(2) [OF a]]] show ?thesis
      unfolding ascii_key(1) [OF a] .
  qed
  have sep: "encodes (if first then [] else [0x26]) (if first then [] else [0x26])"
    "encodes [0x3D] [0x3D]"
    using encodes_ascii [of "[]"] encodes_ascii [of "[0x26]"] encodes_ascii [of "[0x3D]"] by simp_all
  from encodes_append [OF sep(1) encodes_append [OF k encodes_append [OF sep(2)
        encodes_append [OF encodes_value [OF ok(2), of g] Cons.IH [OF ok(3), of False]]]]]
  show ?case by (cases first; cases "m = []"; simp add: e)
qed

lemma read_entries_sorted:
  "dict_sorted (node @ m) \<Longrightarrow>
     read_entries (map (\<lambda>(k, v). (k, read_back v)) node) m = map (\<lambda>(k, v). (k, read_back v)) (node @ m)"
proof (induction m arbitrary: node)
  case (Cons e m)
  obtain k v where e: "e = (k, v)" by (cases e)
  have "\<forall>(k', v')\<in>set (map (\<lambda>(k, v). (k, read_back v)) node). wless k' k"
    using Cons.prems by (auto simp: dict_sorted_def sorted_wrt_append e)
  from dict_set_last [OF this, of "read_back v"] Cons.IH [of "node @ [(k, v)]"] Cons.prems show ?case
    by (simp add: read_entries_def e)
qed (simp add: read_entries_def)

lemma length_entries_text: "length m \<le> length (entries_text m)"
  by (induction m rule: entries_text.induct) auto

lemma BuildValue_root:
  assumes "stack_depth h < kStackLimit"
  shows "BuildValue strtod (Suc d) t True h =
      Option.bind (ParseToken t (past_token (Token OBJECT_BEGIN (http_pos h) 0) (h\<lparr>stack_depth := stack_depth h + 1\<rparr>)))
        (\<lambda>(token, h). object_loop t (BuildValue strtod d t False) (length t + 1) [] token h)"
  using assms by (subst BuildValue.simps) (simp add: Let_def del: BuildValue.simps object_loop.simps)

lemma BuildValue_entries:
  assumes "\<forall>e\<in>set m. entry_ok e" "1 + empties m < kStackLimit" "t = entries_text m @ [0]"
    and "stack_depth h = 0" "http_pos h = 0"
  shows "\<exists>h'. BuildValue strtod (Suc (Suc d)) t True h = Some (Some (DictionaryValue (read_entries [] m)), h') \<and>
    http_pos h' \<le> length t"
proof -
  let ?h = "past_token (Token OBJECT_BEGIN (http_pos h) 0) (h\<lparr>stack_depth := stack_depth h + 1\<rparr>)"
  have at: "drop (http_pos ?h) t = entries_text m @ 0 # []" using assms(3,5) by simp
  note loop = BuildValue_root [of h strtod "Suc d" t]
  show ?thesis
  proof (cases m)
    case Nil
    with at ParseToken_separator(3) [of ?h t 0 "[]"] loop assms(2,4) show ?thesis
      by (simp add: object_end_def read_entries_def Let_def assms(5) del: BuildValue.simps)
  next
    case (Cons e m')
    obtain k v where e: "e = (k, v)" by (cases e)
    have "key_ok k" using assms(1) Cons by (auto simp: e entry_ok_def)
    then have p: "ParseToken t ?h = Some (Token STRING (http_pos ?h) (length (escaped k)), ?h)"
      using ParseToken_string [of ?h t k "0x3D"] at Cons e by (simp add: key_ok_def separator_def)
    have "stack_depth ?h + empties m < kStackLimit" "length m \<le> length t + 1" "m \<noteq> []"
      using assms(2-4) Cons length_entries_text [of m] by simp_all
    from object_loop_text [OF assms(1) this at, of strtod d "[]"] obtain h'
      where "object_loop t (BuildValue strtod (Suc d) t False) (length t + 1) []
        (Token STRING (http_pos ?h) (length (escaped (fst (hd m))))) ?h =
          Some (Some (DictionaryValue (read_entries [] m)), h')" "drop (http_pos h') t = [0]" by blast
    moreover from this(2) have "http_pos h' \<le> length t" by (metis drop_all list.distinct(1) nle_le)
    ultimately show ?thesis using loop p Cons e assms(2,4) by (simp del: BuildValue.simps object_loop.simps)
  qed
qed

text \<open>What the parser makes of a written dictionary.\<close>

lemma query_string_read:
  assumes "dict_sorted m" "\<forall>e\<in>set m. entry_ok e" "empties m \<le> 98"
  shows "\<exists>h. Deserialize strtod (HttpSerialize g (DictionaryValue m) [] @ [x]) =
    Some (Some (DictionaryValue (map (\<lambda>(k, v). (k, read_back v)) m)),
          HttpSerialize g (DictionaryValue m) [] @ [0], h)"
proof -
  let ?s = "HttpSerialize g (DictionaryValue m) []"
  let ?t = "entries_text m @ [0]"
  have "encodes ?s (entries_text m)"
    using encodes_entries [OF assms(2), of g True] by (cases m) (simp_all add: HttpSerialize_def)
  from encodes_append [OF this encodes_ascii [of "[0]"]] have t: "UTF8ToWide (?s @ [0]) = ?t"
    by (simp add: encodes_wide)
  have start: "text_start ?t = 0"
  proof (cases m)
    case (Cons e m')
    then obtain k v where e: "m = (k, v) # m'" by (cases e) auto
    then have "plain_start k" "clean k" "\<forall>c\<in>set k. c < 0x80" using assms(2) by (auto simp: entry_ok_def key_ok_def)
    then obtain c w where "k = c # w" "c < 0x80" by (cases k) (auto simp: plain_start_def)
    then show ?thesis using e by (cases c rule: esc_cases) (auto simp: text_start_def)
  qed (simp add: text_start_def)
  have "1 + empties m < kStackLimit" using assms(3) by (simp add: kStackLimit_def)
  from BuildValue_entries [OF assms(2) this refl, of "new_parser (text_start ?t)" strtod 99] obtain h
    where b: "BuildValue strtod (kStackLimit + 1) ?t True (new_parser (text_start ?t)) =
        Some (Some (DictionaryValue (read_entries [] m)), h)" "http_pos h \<le> length ?t"
    by (auto simp: start kStackLimit_def eval_nat_numeral simp del: BuildValue.simps)
  obtain k1 h1 where k1: "ParseToken ?t h = Some (k1, h1)" "http_pos h1 \<le> length ?t"
    using ParseToken_inside [OF b(2)] by metis
  obtain k2 h2 where k2: "ParseToken ?t h1 = Some (k2, h2)"
    using ParseToken_inside [OF k1(2)] by metis
  have l: "(?s @ [x])[length (?s @ [x]) - 1 := 0] = ?s @ [0]" by simp
  show ?thesis
    using b(1) k1(1) k2 read_entries_sorted [of "[]" m] assms(1)
    by (simp add: Deserialize_def Let_def l t del: BuildValue.simps)
qed

text \<open>C6: A dictionary that is written as a query string is read back as it was, with its int values
  widened and numbers of -10^18 and below, which have 20 characters, turned into strings. Its
  values are null, true, integers and UTF-8 strings; its keys are not empty and ASCII; no
  string or key contains &, = or NUL, which are written as they are, nor begins with a space,
  a minus, a digit, null, true or false; strings may be empty, at most 98 of them. Characters
  with an escape, such as quotes and line ends, are allowed everywhere. The byte after the
  text is lost: it is overwritten by the terminator.\<close>

theorem query_string_round_trip:
  assumes "dict_sorted m" "\<forall>e\<in>set m. entry_ok e" "empties m \<le> 98"
  shows "\<exists>h. Deserialize strtod (HttpSerialize g (DictionaryValue m) [] @ [x]) =
    Some (Some (DictionaryValue (map (\<lambda>(k, v). (k, read_back v)) m)),
          HttpSerialize g (DictionaryValue m) [] @ [0], h)"
  using query_string_read [OF assms] .

definition sample_query :: dict where
  "sample_query =
     [(wide ''name'', StringValue (ascii ''say '' @ [0x22] @ [0xE4, 0xBD, 0xA0] @ [0x22])),
      (wide ''note'', StringValue []), (wide ''uid'', IntegerValue 10108)]"

theorem query_string_round_trip_witness:
  "\<exists>h. Deserialize (\<lambda>_. (0, 0, False)) (HttpSerialize (\<lambda>_. []) (DictionaryValue sample_query) [] @ [0x20]) =
    Some (Some (DictionaryValue (map (\<lambda>(k, v). (k, read_back v)) sample_query)),
          HttpSerialize (\<lambda>_. []) (DictionaryValue sample_query) [] @ [0], h)"
proof (rule query_string_round_trip)
  show "dict_sorted sample_query" by code_simp
  show "\<forall>e\<in>set sample_query. entry_ok e" by code_simp
  show "empties sample_query \<le> 98" by code_simp
qed

section \<open>Values that are refused\<close>

text \<open>The number with a leading zero, and \<^verbatim>\<open>false\<close>, whose token is one character short.\<close>

definition zero_number :: "byte list \<Rightarrow> bool" where
  "zero_number s \<longleftrightarrow> 1 < length s \<and> length s \<le> 19 \<and> hd s = 0x30 \<and> list_all is_digit s"

fun refused :: "tree \<Rightarrow> bool" where
  "refused (BooleanValue b) = (\<not> b)"
| "refused (StringValue s) = zero_number s"
| "refused v = False"

fun refused_text :: "tree \<Rightarrow> wstring" where
  "refused_text (StringValue s) = map ucast s"
| "refused_text v = wide ''false''"

lemma digit_ascii: "is_digit b \<Longrightarrow> b < 0x80"
  by (auto simp: is_digit_def intro: le_less_trans)

lemma ParseToken_zero:
  assumes "drop (http_pos h) t = map ucast s @ c # r" "zero_number s" "c = 0 \<or> c = 0x26"
  shows "ParseToken t h = Some (kInvalidToken, h)"
proof -
  let ?w = "map ucast s :: wstring"
  obtain a s' where s: "s = 0x30 # a # s'" using assms(2) by (cases s rule: remdups_adj.cases) (auto simp: zero_number_def)
  have at: "drop (http_pos h) t = 0x30 # ucast a # map ucast s' @ c # r" using assms(1) s by simp
  have dig: "\<forall>u\<in>set ?w. wide_digit u" using assms(2) by (auto simp: zero_number_def list_all_iff wide_digit_byte)
  have "scan_number t (http_pos h) 0 = Some (Some (http_pos h + length ?w))"
    using scan_number_text [OF assms(1) dig assms(3)] .
  then have "NextNumberMatch t (http_pos h) = Some True" using assms(2) by (simp add: NextNumberMatch_def zero_number_def)
  moreover have "ReadInt t (Token NUMBER (http_pos h) 0) False = Some (False, Token NUMBER (http_pos h) (length s))"
    using count_digits_text [OF assms(1) dig assms(3)] char_at_text [OF at] s
    by (auto simp: ReadInt_def NextChar_def Let_def Token_def)
  then have "ParseNumberToken t (http_pos h) = Some kInvalidToken"
    using char_at_text [OF at] by (simp add: ParseNumberToken_def past_sign_def)
  ultimately have "token_at t (http_pos h) = Some kInvalidToken"
    using char_at_text [OF at] by (simp add: token_at_def wide_digit_def)
  with ParseToken_text [OF at] show ?thesis by simp
qed

lemma ParseToken_false:
  assumes "drop (http_pos h) t = wide ''false'' @ r"
  shows "ParseToken t h = Some (Token BOOL_FALSE (http_pos h) 4, h)"
proof -
  have at: "drop (http_pos h) t = 0x66 # wide ''alse'' @ r" using assms by (simp add: wide_def)
  have "NextStringMatch t (http_pos h) (wide ''false'') = Some True"
    using NextStringMatch_prefix [OF at, of "wide ''false''"] by (simp add: wide_def)
  then show ?thesis
    using ParseToken_text [OF at] char_at_text [OF at] by (simp add: token_at_def keyword_token_def)
qed

text \<open>At a refused value the builder stops where the next token is no separator.\<close>

lemma refused_value:
  assumes "drop (http_pos h) t = refused_text v @ c # r" "refused v" "c = 0 \<or> c = 0x26" "stack_depth h < kStackLimit"
  obtains k w h' k' h2 where "ParseToken t h = Some (k, h)" "BuildValue strtod (Suc d) t False h = Some (w, h')"
    "ParseToken t h' = Some (k', h2)" "token_type k' \<noteq> LIST_SEPARATOR" "token_type k' \<noteq> OBJECT_END"
proof -
  let ?h = "h\<lparr>stack_depth := stack_depth h + 1\<rparr>"
  have lim: "\<not> kStackLimit < Suc (stack_depth h)" using assms(4) by simp
  show ?thesis
  proof (cases v)
    case (StringValue s)
    have z: "ParseToken t x = Some (kInvalidToken, x)" if "http_pos x = http_pos h" for x
      using ParseToken_zero [of x t s c r] assms(1-3) StringValue that by simp
    have "BuildValue strtod (Suc d) t False h = Some (None, ?h)" using z [of ?h] lim by (simp add: Let_def)
    from that [OF z this z] show ?thesis by simp
  next
    case (BooleanValue b)
    have d: "drop (http_pos h) t = wide ''false'' @ c # r" using assms(1) BooleanValue by simp
    let ?h2 = "h\<lparr>http_pos := http_pos h + 4\<rparr>"
    have b: "BuildValue strtod (Suc d) t False h = Some (Some (BooleanValue False), ?h2)"
      using ParseToken_false [of ?h t "c # r"] d lim by (simp add: Let_def past_token_def)
    have "length (wide ''fals'') = 4" "wide ''false'' = wide ''fals'' @ [0x65]" by (simp_all add: wide_def)
    with drop_past [of "http_pos h" t "wide ''fals''" "0x65 # c # r"] d
    have "drop (http_pos ?h2) t = escaped [0x65] @ c # r" by (simp add: esc_def)
    moreover have "clean [0x65]" "plain_start [0x65]" "separator c"
      using assms(3) by (auto simp: plain_start_def wide_digit_def wide_def separator_def)
    ultimately have "ParseToken t ?h2 = Some (Token STRING (http_pos ?h2) (length (escaped [0x65])), ?h2)"
      by (rule ParseToken_string)
    from that [OF ParseToken_false [OF d] b this] show ?thesis by simp
  qed (use assms(2) in auto)
qed

lemma encodes_refused: "refused v \<Longrightarrow> encodes (BuildHTTPString g v) (refused_text v)"
proof (cases v)
  case (StringValue s)
  assume "refused v"
  with StringValue have s: "\<forall>b\<in>set s. is_digit b" by (simp add: zero_number_def list_all_iff)
  then have "\<forall>b\<in>set s. escape_char b = [b]" by (auto simp: escape_char_def is_digit_def)
  then have "HttpDoubleQuote s = s" by (simp add: HttpDoubleQuote_def concat_map_singles)
  with s StringValue encodes_ascii [of s] digit_ascii show ?thesis by simp
next
  case (BooleanValue b)
  assume "refused v"
  with BooleanValue encodes_ascii [of "ascii ''false''"] show ?thesis by (simp add: ascii_def wide_def)
qed auto

text \<open>Before the refused value, entries that are read back: the loop takes them one after the other
  and gives up behind the value.\<close>

lemma object_loop_refused:
  assumes "\<forall>e\<in>set m. entry_ok e" "stack_depth h + empties m < kStackLimit" "length m < n"
    and "key_ok k" "refused v" "c = 0 \<or> c = 0x26"
    and "drop (http_pos h) t = entries_text m @ (if m = [] then [] else [0x26]) @ escaped k @ 0x3D # refused_text v @ c # r"
  shows "\<exists>h'. object_loop t (BuildValue strtod (Suc d) t False) n node
      (Token STRING (http_pos h) (length (escaped (fst (hd (m @ [(k, v)])))))) h = Some (None, h')"
  using assms(1-3,7)
proof (induction m arbitrary: h n node)
  case Nil
  obtain n' where n: "n = Suc n'" using Nil.prems(3) by (cases n) auto
  define h2 where "h2 = h\<lparr>http_pos := http_pos h + length (escaped k) + 1\<rparr>"
  have at: "drop (http_pos h) t = escaped k @ 0x3D # refused_text v @ c # r" using Nil.prems(4) by simp
  have d2: "drop (http_pos h2) t = refused_text v @ c # r"
    using drop_next [OF drop_past [OF at]] by (simp add: h2_def)
  have "stack_depth h2 < kStackLimit" using Nil.prems(2) by (simp add: h2_def empties_def)
  from refused_value [OF d2 assms(5,6) this, of strtod d] obtain k2 w h3 k4 h4
    where v: "ParseToken t h2 = Some (k2, h2)" "BuildValue strtod (Suc d) t False h2 = Some (w, h3)"
      "ParseToken t h3 = Some (k4, h4)" "token_type k4 \<noteq> LIST_SEPARATOR" "token_type k4 \<noteq> OBJECT_END" .
  show ?case
    using entry_key [where build = "BuildValue strtod (Suc d) t False", OF at assms(4) h2_def v(1,2)] v(3-5)
    by (simp add: n object_rest_def del: object_loop.simps BuildValue.simps)
next
  case (Cons e m)
  obtain k1 v1 where e: "e = (k1, v1)" by (cases e)
  obtain n' where n: "n = Suc n'" using Cons.prems(3) by (cases n) auto
  let ?r = "(if m = [] then [] else entries_text m @ [0x26]) @ escaped k @ 0x3D # refused_text v @ c # r"
  have at: "drop (http_pos h) t = escaped k1 @ 0x3D # value_text v1 @ 0x26 # ?r"
    using Cons.prems(4) by (simp add: e)
  have "entry_ok (k1, v1)" "stack_depth h < kStackLimit" using Cons.prems(1,2) by (auto simp: e)
  from entry_text [OF at this(1) _ this(2), of strtod d n' node] obtain h' where h':
    "object_loop t (BuildValue strtod (Suc d) t False) (Suc n') node
      (Token STRING (http_pos h) (length (escaped k1))) h =
      object_rest t (object_loop t (BuildValue strtod (Suc d) t False) n') (dict_set k1 (read_back v1) node) h'"
    "drop (http_pos h') t = 0x26 # ?r" "stack_depth h' = stack_depth h + (if v1 = StringValue [] then 1 else 0)"
    by metis
  let ?h = "past_token (Token LIST_SEPARATOR (http_pos h') 1) h'"
  have next_entry: "drop (http_pos ?h) t = entries_text m @ (if m = [] then [] else [0x26]) @
      escaped k @ 0x3D # refused_text v @ c # r"
    using drop_next [OF h'(2)] by simp
  obtain k2 r2 where k2: "k2 = fst (hd (m @ [(k, v)]))" "key_ok k2"
    "drop (http_pos ?h) t = escaped k2 @ 0x3D # r2"
  proof (cases m)
    case (Cons e2 m2)
    then show ?thesis using that [of "fst e2"] next_entry Cons.prems(1)
      by (cases e2) (auto simp: entry_ok_def)
  qed (use that [of k] next_entry assms(4) in simp)
  have t: "ParseToken t ?h = Some (Token STRING (http_pos ?h) (length (escaped k2)), ?h)"
    using ParseToken_string [of ?h t k2 "0x3D"] k2(2,3) by (simp add: key_ok_def separator_def)
  have "\<forall>e\<in>set m. entry_ok e" "stack_depth ?h + empties m < kStackLimit" "length m < n'"
    using Cons.prems(1-3) h'(3) by (auto simp: empties_def e n)
  from Cons.IH [OF this next_entry, of "dict_set k1 (read_back v1) node"]
  show ?case using h'(1) ParseToken_separator(1) [OF h'(2)] t k2(1)
    by (simp add: e n object_rest_def del: object_loop.simps BuildValue.simps)
qed

lemma encodes_prefix: "encodes a w \<Longrightarrow> \<exists>r. UTF8ToWide (a @ b) = w @ r"
  using utf8_to_wide_prefix [of _ 0 "a @ b" b] by (fastforce simp: encodes_def UTF8ToWide_def)

lemma http_entries_append:
  "http_entries g first (m1 @ m2) = http_entries g first m1 @ http_entries g (first \<and> m1 = []) m2"
  by (induction m1 arbitrary: first) (auto split: prod.split)

text \<open>The message up to the byte behind the refused value.\<close>

lemma refused_message:
  assumes "\<forall>e\<in>set m1. entry_ok e" "key_ok k" "refused v"
  shows "\<exists>c r. (c = 0 \<or> c = 0x26) \<and>
    UTF8ToWide (HttpSerialize g (DictionaryValue (m1 @ (k, v) # m2)) [] @ [0]) =
      entries_text m1 @ (if m1 = [] then [] else [0x26]) @ escaped k @ 0x3D # refused_text v @ c # r"
proof -
  let ?sep = "if m1 = [] then [] else [0x26 :: byte]" and ?wsep = "if m1 = [] then [] else [0x26 :: wchar]"
  have a: "\<forall>c\<in>set k. c < 0x80" using assms(2) by (simp add: key_ok_def)
  have key: "encodes (HttpDoubleQuote (WideToASCII k)) (escaped k)"
    using encodes_quote [OF encodes_ascii [OF ascii_key(2) [OF a]]] unfolding ascii_key(1) [OF a] .
  have entries: "encodes (http_entries g True m1) (entries_text m1)"
    using encodes_entries [OF assms(1), of g True] by (cases "m1 = []") simp_all
  have sep: "encodes ?sep ?wsep" using encodes_ascii [of "[]"] encodes_ascii [of "[0x26]"] by simp
  have eq: "encodes [0x3D] [0x3D]" using encodes_ascii [of "[0x3D]"] by simp
  have enc: "encodes ((http_entries g True m1 @ ?sep @ HttpDoubleQuote (WideToASCII k) @ [0x3D] @ BuildHTTPString g v) @ b)
      ((entries_text m1 @ ?wsep @ escaped k @ [0x3D] @ refused_text v) @ map ucast b)" if "\<forall>x\<in>set b. x < 0x80" for b
    by (rule encodes_append [OF encodes_append [OF entries encodes_append [OF sep encodes_append [OF key
      encodes_append [OF eq encodes_refused [OF assms(3)]]]]] encodes_ascii [OF that]])
  let ?p = "http_entries g True m1 @ ?sep @ HttpDoubleQuote (WideToASCII k) @ [0x3D] @ BuildHTTPString g v"
  have s: "HttpSerialize g (DictionaryValue (m1 @ (k, v) # m2)) [] @ [0] = ?p @ http_entries g False m2 @ [0]"
    by (simp add: HttpSerialize_def http_entries_append)
  show ?thesis
  proof (cases m2)
    case Nil
    have "UTF8ToWide (?p @ [0]) = (entries_text m1 @ ?wsep @ escaped k @ [0x3D] @ refused_text v) @ map ucast [0 :: byte]"
      by (rule encodes_wide [OF enc]) simp
    then show ?thesis unfolding s unfolding Nil by (intro exI [of _ 0] exI [of _ "[]"]) simp
  next
    case (Cons e m)
    then obtain b where "http_entries g False m2 @ [0] = [0x26] @ b" by (cases e) auto
    moreover obtain r where "UTF8ToWide ((?p @ [0x26]) @ b) =
        ((entries_text m1 @ ?wsep @ escaped k @ [0x3D] @ refused_text v) @ map ucast [0x26 :: byte]) @ r"
      using encodes_prefix [OF enc [of "[0x26]"]] by auto
    ultimately show ?thesis unfolding s by (intro exI [of _ "0x26"] exI [of _ r]) simp
  qed
qed

text \<open>C8: Two kinds of values make the parser refuse the whole request: false, because its token is
  taken to have four characters, and a text of 2 to 19 digits that starts with a zero, such as
  a telephone number. The value stands after any entries that would be read back (those of the
  round trip of query strings, at most 98 of them empty) and under such a key; whatever
  entries follow, the result is NULL.\<close>

theorem refused_values:
  assumes "\<forall>e\<in>set m1. entry_ok e" "empties m1 \<le> 98" "key_ok k" "refused v"
  shows "\<exists>h. Deserialize strtod (HttpSerialize g (DictionaryValue (m1 @ (k, v) # m2)) [] @ [x]) =
    Some (None, HttpSerialize g (DictionaryValue (m1 @ (k, v) # m2)) [] @ [0], h)"
proof -
  let ?s = "HttpSerialize g (DictionaryValue (m1 @ (k, v) # m2)) []"
  obtain c r where c: "c = 0 \<or> c = 0x26" and t: "UTF8ToWide (?s @ [0]) =
      entries_text m1 @ (if m1 = [] then [] else [0x26]) @ escaped k @ 0x3D # refused_text v @ c # r"
    using refused_message [OF assms(1,3,4)] by blast
  define t where "t = UTF8ToWide (?s @ [0])"
  let ?h = "past_token (Token OBJECT_BEGIN 0 0) ((new_parser 0)\<lparr>stack_depth := 1\<rparr>)"
  have at: "drop (http_pos ?h) t =
      entries_text m1 @ (if m1 = [] then [] else [0x26]) @ escaped k @ 0x3D # refused_text v @ c # r"
    by (simp add: t t_def)
  obtain k1 r1 where k1: "k1 = fst (hd (m1 @ [(k, v)]))" "key_ok k1" "t = escaped k1 @ 0x3D # r1"
  proof (cases m1)
    case (Cons e m)
    then show ?thesis using that [of "fst e"] t assms(1) by (cases e) (auto simp: entry_ok_def t_def)
  qed (use that [of k] t assms(3) in \<open>simp add: t_def\<close>)
  have p: "plain_start k1" "clean k1" "\<forall>c\<in>set k1. c < 0x80" using k1(2) by (auto simp: key_ok_def)
  have start: "text_start t = 0"
  proof -
    from p(1,3) obtain c w where "k1 = c # w" "c < 0x80" by (cases k1) (auto simp: plain_start_def)
    then show ?thesis unfolding k1(3) by (cases c rule: esc_cases) (auto simp: text_start_def)
  qed
  have tok: "ParseToken t ?h = Some (Token STRING (http_pos ?h) (length (escaped k1)), ?h)"
    using ParseToken_string [of ?h t k1 "0x3D"] k1(3) p by (simp add: separator_def)
  have "stack_depth ?h + empties m1 < kStackLimit" "length m1 < Suc (length t)"
    using assms(2) length_entries_text [of m1] at by (simp_all add: kStackLimit_def)
  from object_loop_refused [OF assms(1) this assms(3,4) c at, of strtod 99 "[]"] k1(1)
  obtain h4 where "object_loop t (BuildValue strtod (Suc 99) t False) (Suc (length t)) []
      (Token STRING (http_pos ?h) (length (escaped k1))) ?h = Some (None, h4)" by metis
  then have "BuildValue strtod (kStackLimit + 1) t True (new_parser (text_start t)) = Some (None, h4)"
    using tok BuildValue_root [of "new_parser 0" strtod "Suc 99" t]
    by (simp add: start kStackLimit_def del: object_loop.simps BuildValue.simps)
  then show ?thesis
    by (simp add: Deserialize_def Let_def t_def del: BuildValue.simps)
qed

theorem refused_values_witness:
  "\<exists>h. Deserialize (\<lambda>_. (0, 0, False))
      (HttpSerialize (\<lambda>_. []) (DictionaryValue (sample_query @ [(wide ''mobile'', StringValue (ascii ''01082345678'')), (wide ''x'', RealValue 0)])) [] @ [0x20]) =
    Some (None, HttpSerialize (\<lambda>_. []) (DictionaryValue (sample_query @ [(wide ''mobile'', StringValue (ascii ''01082345678'')), (wide ''x'', RealValue 0)])) [] @ [0], h)"
proof (rule refused_values)
  show "key_ok (wide ''mobile'')" by code_simp
  show "refused (StringValue (ascii ''01082345678''))" by code_simp
  show "\<forall>e\<in>set sample_query. entry_ok e" by code_simp
  show "empties sample_query \<le> 98" by code_simp
qed

end
