(* ===== verification/JsonWriter.thy ===== *)
theory JsonWriter
  imports HttpRoundTrip
begin

text \<open>
  The JSON serializer of \<^verbatim>\<open>src/server/base/logic/json_serializer.{h,cc}\<close> as it is used: the
  writer, with pretty printing on, through which every answer of the service plug-ins passes, and
  \<^verbatim>\<open>Deserialize\<close>, which fills a dictionary with numbers, drops it and returns \<^verbatim>\<open>NULL\<close> for every
  text.  The theorem says that the writer produces JSON, by a grammar of it (RFC 8259).
\<close>

section \<open>The writer\<close>

definition json_real :: "g_fmt \<Rightarrow> real64 \<Rightarrow> byte list" where
  "json_real g_fmt value =
     (let real = g_fmt value;
          real = (if 0x2E \<notin> set real \<and> 0x65 \<notin> set real \<and> 0x45 \<notin> set real
                  then real @ ascii ''.0'' else real) in
      if real \<noteq> [] \<and> real ! 0 = 0x2E then 0x30 # real
      else if 1 < length real \<and> real ! 0 = 0x2D \<and> real ! 1 = 0x2E
        then take 1 real @ 0x30 # drop 1 real
      else real)"

definition IndentLine :: "nat \<Rightarrow> byte list" where
  "IndentLine depth = replicate (depth * 3) 0x20"

definition AppendQuoteString :: "byte list \<Rightarrow> byte list" where
  "AppendQuoteString str = JsonDoubleQuote str True"

fun BuildJSONString :: "g_fmt \<Rightarrow> nat \<Rightarrow> tree \<Rightarrow> byte list"
  and json_elements :: "g_fmt \<Rightarrow> nat \<Rightarrow> bool \<Rightarrow> tree list \<Rightarrow> byte list"
  and json_entries :: "g_fmt \<Rightarrow> nat \<Rightarrow> bool \<Rightarrow> dict \<Rightarrow> byte list" where
  "BuildJSONString g_fmt depth NullValue = ascii ''null''"
| "BuildJSONString g_fmt depth (BooleanValue b) = (if b then ascii ''true'' else ascii ''false'')"
| "BuildJSONString g_fmt depth (IntegerValue i) = decimal (sint i)"
| "BuildJSONString g_fmt depth (BigIntegerValue i) = decimal (sint i)"
| "BuildJSONString g_fmt depth (RealValue r) = json_real g_fmt r"
| "BuildJSONString g_fmt depth (StringValue s) = JsonDoubleQuote s True"
| "BuildJSONString g_fmt depth (ListValue vs) =
     [0x5B, 0x20] @ json_elements g_fmt depth True vs @ [0x20, 0x5D]"
| "BuildJSONString g_fmt depth (DictionaryValue m) =
     [0x7B, 0x0A] @ json_entries g_fmt depth True m @ [0x0A] @ IndentLine depth @ [0x7D]"
| "BuildJSONString g_fmt depth (BinaryValue s) = []"
| "json_elements g_fmt depth first [] = []"
| "json_elements g_fmt depth first (v # vs) =
     (if first then [] else [0x2C, 0x20]) @ BuildJSONString g_fmt depth v @
     json_elements g_fmt depth False vs"
| "json_entries g_fmt depth first [] = []"
| "json_entries g_fmt depth first ((key, v) # m) =
     (if first then [] else [0x2C, 0x0A]) @ IndentLine (depth + 1) @
     AppendQuoteString (WideToASCII key) @ [0x3A, 0x20] @ BuildJSONString g_fmt (depth + 1) v @
     json_entries g_fmt depth False m"

definition JsonSerialize :: "g_fmt \<Rightarrow> tree \<Rightarrow> byte list \<Rightarrow> byte list" where
  "JsonSerialize g_fmt root json_string = json_string @ BuildJSONString g_fmt 0 root"

section \<open>The reader\<close>

definition JsonDeserialize :: "byte list \<Rightarrow> dict option" where
  "JsonDeserialize json_string = None"

section \<open>A grammar of JSON\<close>

definition blanks :: "byte list \<Rightarrow> bool" where
  "blanks w \<longleftrightarrow> set w \<subseteq> {0x20, 0x09, 0x0A, 0x0D}"

text \<open>The characters of a string, those below a blank, quotes and backslashes only as escapes.\<close>

inductive json_chars :: "byte list \<Rightarrow> byte list \<Rightarrow> bool" where
  no_chars: "json_chars [] []"
| plain_char: "0x20 \<le> c \<Longrightarrow> c \<noteq> 0x22 \<Longrightarrow> c \<noteq> 0x5C \<Longrightarrow> json_chars s t \<Longrightarrow> json_chars (c # s) (c # t)"
| escaped_char: "(c, e) \<in> set [(0x22, 0x22), (0x5C, 0x5C), (0x2F, 0x2F), (0x08, 0x62), (0x0C, 0x66),
     (0x0A, 0x6E), (0x0D, 0x72), (0x09, 0x74)] \<Longrightarrow> json_chars s t \<Longrightarrow> json_chars (c # s) (0x5C # e # t)"

text \<open>A number with a fraction or an exponent.\<close>

definition digits_text :: "byte list \<Rightarrow> bool" where
  "digits_text s \<longleftrightarrow> s \<noteq> [] \<and> (\<forall>c\<in>set s. is_digit c)"

inductive json_integer :: "byte list \<Rightarrow> bool" where
  zero: "json_integer [0x30]"
| positive: "is_digit c \<Longrightarrow> c \<noteq> 0x30 \<Longrightarrow> \<forall>d\<in>set s. is_digit d \<Longrightarrow> json_integer (c # s)"
| negative: "json_integer s \<Longrightarrow> hd s \<noteq> 0x2D \<Longrightarrow> json_integer (0x2D # s)"

inductive json_number :: "byte list \<Rightarrow> bool" where
  whole: "json_integer s \<Longrightarrow> json_number s"
| fraction: "json_integer s \<Longrightarrow> digits_text f \<Longrightarrow> json_number (s @ 0x2E # f)"
| power: "json_number s \<Longrightarrow> 0x65 \<notin> set s \<Longrightarrow> sign \<in> {[], [0x2B], [0x2D]} \<Longrightarrow> digits_text x \<Longrightarrow>
     json_number (s @ 0x65 # sign @ x)"

text \<open>The value a text denotes.  The texts of a number are given by its type; for a real any number.\<close>

inductive json :: "tree \<Rightarrow> byte list \<Rightarrow> bool"
  and elements :: "tree list \<Rightarrow> byte list \<Rightarrow> bool"
  and members :: "dict \<Rightarrow> byte list \<Rightarrow> bool" where
  json_null: "json NullValue (ascii ''null'')"
| json_true: "json (BooleanValue True) (ascii ''true'')"
| json_false: "json (BooleanValue False) (ascii ''false'')"
| json_int: "json_integer t \<Longrightarrow> atoll_int t = sint i \<Longrightarrow> json (IntegerValue i) t"
| json_big: "json_integer t \<Longrightarrow> atoll_int t = sint i \<Longrightarrow> json (BigIntegerValue i) t"
| json_double: "json_number t \<Longrightarrow> json (RealValue r) t"
| json_string: "json_chars s t \<Longrightarrow> json (StringValue s) (0x22 # t @ [0x22])"
| json_empty_list: "blanks w \<Longrightarrow> json (ListValue []) (0x5B # w @ [0x5D])"
| json_list: "elements vs t \<Longrightarrow> json (ListValue vs) (0x5B # t @ [0x5D])"
| json_empty_object: "blanks w \<Longrightarrow> json (DictionaryValue []) (0x7B # w @ [0x7D])"
| json_object: "members m t \<Longrightarrow> json (DictionaryValue m) (0x7B # t @ [0x7D])"
| element: "json v t \<Longrightarrow> blanks w \<Longrightarrow> blanks x \<Longrightarrow> elements [v] (w @ t @ x)"
| more_elements: "elements [v] t \<Longrightarrow> elements vs u \<Longrightarrow> elements (v # vs) (t @ 0x2C # u)"
| member: "json_chars (WideToUTF8 k) s \<Longrightarrow> json v t \<Longrightarrow> blanks w \<Longrightarrow> blanks x \<Longrightarrow> blanks y \<Longrightarrow> blanks z \<Longrightarrow>
    members [(k, v)] (w @ 0x22 # s @ 0x22 # x @ 0x3A # y @ t @ z)"
| more_members: "members [(k, v)] t \<Longrightarrow> members m u \<Longrightarrow> members ((k, v) # m) (t @ 0x2C # u)"


section \<open>The writer keeps to the grammar\<close>

text \<open>Bytes a string may hold: control characters only if they have an escape.\<close>

definition writable_byte :: "byte \<Rightarrow> bool" where
  "writable_byte c \<longleftrightarrow> 0x20 \<le> c \<or> c \<in> {0x08, 0x09, 0x0A, 0x0C, 0x0D}"

definition key_text :: "wstring \<Rightarrow> bool" where
  "key_text k \<longleftrightarrow> (\<forall>c\<in>set k. c < 0x80) \<and> (\<forall>c\<in>set (WideToASCII k). writable_byte c)"

fun json_writable :: "g_fmt \<Rightarrow> tree \<Rightarrow> bool" where
  "json_writable g (RealValue r) = json_number (json_real g r)"
| "json_writable g (StringValue s) = (\<forall>c\<in>set s. writable_byte c)"
| "json_writable g (BinaryValue s) = False"
| "json_writable g (ListValue vs) = (\<forall>v\<in>set vs. json_writable g v)"
| "json_writable g (DictionaryValue m) = (\<forall>(k, v)\<in>set m. key_text k \<and> json_writable g v)"
| "json_writable g _ = True"

lemma hd_nat_digits: "0 < n \<Longrightarrow> hd (nat_digits n) \<noteq> 0x30"
proof (induction n rule: nat_digits.induct)
  case (1 n)
  show ?case
  proof (cases "n < 10")
    case True
    then have "n \<in> set [1..<10]" using 1(2) by auto
    moreover have "\<forall>k\<in>set [1..<10]. (of_nat (48 + k) :: byte) \<noteq> 0x30" by code_simp
    ultimately have "(of_nat (48 + n) :: byte) \<noteq> 0x30" by blast
    with True show ?thesis by (subst nat_digits.simps) (simp del: of_nat_add)
  next
    case False
    with 1 show ?thesis by (subst nat_digits.simps) (simp add: hd_append del: of_nat_add)
  qed
qed

lemma json_nat_digits: "json_integer (nat_digits n)" "hd (nat_digits n) \<noteq> 0x2D"
proof -
  obtain c s where c: "nat_digits n = c # s" by (cases "nat_digits n") auto
  have d: "\<forall>b\<in>set (c # s). is_digit b" using nat_digits_digits [of n] c by simp
  show "json_integer (nat_digits n)"
  proof (cases "n = 0")
    case True
    then show ?thesis by (simp add: nat_digits.simps json_integer.zero)
  next
    case False
    then show ?thesis using hd_nat_digits [of n] c d by (auto intro: json_integer.positive)
  qed
  show "hd (nat_digits n) \<noteq> 0x2D" using c d by (auto simp: is_digit_def word_le_def)
qed

lemma json_decimal: "json_integer (decimal i)"
  using json_nat_digits by (auto simp: decimal_def intro: json_integer.negative)

lemma json_chars_escape: "\<forall>c\<in>set s. writable_byte c \<Longrightarrow> json_chars s (concat (map escape_char s))"
proof (induction s)
  case (Cons c s)
  then have IH: "json_chars s (concat (map escape_char s))" "writable_byte c" by simp_all
  show ?case
  proof (cases "SingleEscapeChar c")
    case None
    then have "0x20 \<le> c" "c \<noteq> 0x22" "c \<noteq> 0x5C"
      using IH(2) by (auto simp: writable_byte_def split: if_splits)
    moreover have "escape_char c = [c]" using None by (simp add: escape_char_def del: SingleEscapeChar.simps)
    ultimately show ?thesis using IH(1) by (simp add: json_chars.plain_char)
  next
    case (Some e)
    then obtain d where "e = [0x5C, d]" "(c, d) \<in> set [(0x22, 0x22), (0x5C, 0x5C), (0x2F, 0x2F), (0x08, 0x62),
        (0x0C, 0x66), (0x0A, 0x6E), (0x0D, 0x72), (0x09, 0x74)]"
      by (auto simp: ascii_def split: if_splits)
    moreover from this(1) have "escape_char c = [0x5C, d]"
      using Some by (simp add: escape_char_def del: SingleEscapeChar.simps)
    ultimately show ?thesis using json_chars.escaped_char [OF _ IH(1), of c d] by simp
  qed
qed (simp add: json_chars.no_chars)

lemma json_quoted: "\<forall>c\<in>set s. writable_byte c \<Longrightarrow> json (StringValue s) (JsonDoubleQuote s True)"
  using json_string [OF json_chars_escape] by (simp add: JsonDoubleQuote_def)

lemma not_first:
  "vs \<noteq> [] \<Longrightarrow> json_elements g d False vs = 0x2C # 0x20 # json_elements g d True vs"
  "m \<noteq> [] \<Longrightarrow> json_entries g d False m = 0x2C # 0x0A # json_entries g d True m"
  by (cases vs, simp, simp) (cases m, auto)

lemma blanks_simps [simp]: "blanks []" "blanks (c # w) \<longleftrightarrow> c \<in> {0x20, 0x09, 0x0A, 0x0D} \<and> blanks w"
  "blanks (w @ x) \<longleftrightarrow> blanks w \<and> blanks x" "blanks (IndentLine d)"
  by (auto simp: blanks_def IndentLine_def)


lemma key_json:
  assumes "key_text k"
  shows "\<exists>t. AppendQuoteString (WideToASCII k) = 0x22 # t @ [0x22] \<and> json_chars (WideToUTF8 k) t"
proof -
  have a: "\<forall>c\<in>set k. c < 0x80" and w: "\<forall>c\<in>set (WideToASCII k). writable_byte c"
    using assms by (simp_all add: key_text_def)
  have "WideToUTF8 k = WideToASCII k"
    using ascii_text(2) [OF ascii_key(2) [OF a]] ascii_key(1) [OF a] by simp
  with json_chars_escape [OF w] show ?thesis
    by (simp add: AppendQuoteString_def JsonDoubleQuote_def)
qed

lemma elements_text:
  assumes "\<forall>v\<in>set vs. json v (BuildJSONString g d v)" "vs \<noteq> []" "blanks w" "blanks x"
  shows "elements vs (w @ json_elements g d True vs @ x)"
  using assms
proof (induction vs arbitrary: w)
  case (Cons v vs)
  then have v: "json v (BuildJSONString g d v)" by simp
  show ?case
  proof (cases "vs = []")
    case True
    then show ?thesis using element [OF v Cons.prems(3,4)] by simp
  next
    case False
    from Cons.IH [OF _ this, of "[0x20]"] Cons.prems have "elements vs ([0x20] @ json_elements g d True vs @ x)"
      by simp
    from more_elements [OF element [OF v Cons.prems(3), of "[]"] this] show ?thesis
      using False by (simp add: not_first)
  qed
qed simp

lemma members_text:
  assumes "\<forall>(k, v)\<in>set m. key_text k \<and> json v (BuildJSONString g (d + 1) v)" "m \<noteq> []" "blanks w" "blanks x"
  shows "members m (w @ json_entries g d True m @ x)"
  using assms
proof (induction m arbitrary: w)
  case (Cons e m)
  obtain k v where e: "e = (k, v)" by fastforce
  then have v: "json v (BuildJSONString g (d + 1) v)" and "key_text k" using Cons.prems(1) by auto
  then obtain t where t: "AppendQuoteString (WideToASCII k) = 0x22 # t @ [0x22]" "json_chars (WideToUTF8 k) t"
    using key_json by blast
  have one: "members [e] ((w @ IndentLine (d + 1)) @ 0x22 # t @ 0x22 # [] @ 0x3A # [0x20] @ BuildJSONString g (d + 1) v @ z)"
    if "blanks z" for z
    unfolding e by (rule member [OF t(2) v]) (use Cons.prems(3) that in simp_all)
  show ?case
  proof (cases "m = []")
    case True
    then show ?thesis using one [OF Cons.prems(4)] e t(1) by simp
  next
    case False
    from Cons.IH [OF _ this, of "[0x0A]"] Cons.prems have "members m ([0x0A] @ json_entries g d True m @ x)"
      by simp
    from more_members [OF one [of "[]", unfolded e] this] show ?thesis
      using False e t(1) by (simp add: not_first)
  qed
qed simp

lemma writer_keeps_grammar: "json_writable g v \<Longrightarrow> json v (BuildJSONString g d v)"
proof (induction v arbitrary: d)
  case (DictionaryValue m)
  then have "\<forall>(k, v)\<in>set m. key_text k \<and> json v (BuildJSONString g (d + 1) v)" by fastforce
  then show ?case
    using json_object [OF members_text [of m g d "[0x0A]" "[0x0A] @ IndentLine d"]]
      json_empty_object [of "[0x0A, 0x0A] @ IndentLine d"]
    by (cases "m = []") simp_all
next
  case (ListValue vs)
  then show ?case
    using json_list [OF elements_text [of vs g d "[0x20]" "[0x20]"]] json_empty_list [of "[0x20, 0x20]"]
    by (cases "vs = []") simp_all
qed (auto simp: json_decimal atoll_int_decimal json_quoted intro: json_elements_members.intros)



end
