(* ===== verification/ServicePackets.thy ===== *)
theory ServicePackets
  imports ValueTree
begin

text \<open>
  The requests and answers of the music service, \<^verbatim>\<open>src/server/pub/net/comm_head.h\<close> and
  \<^verbatim>\<open>music_comm_head.h\<close> with the error codes of \<^verbatim>\<open>error_comm.{h,cc}\<close>: a packet is built from the
  dictionary of a query string, and an answer is a dictionary.  A base class is the first field
  of a packet.  \<open>u\<close> is what an uninitialised local or member holds.  The old version of the
  protocol is modelled, for which the service is compiled.
\<close>

section \<open>Error codes\<close>

abbreviation "STRUCT_ERROR \<equiv> (-100 :: int32)"
abbreviation "TYPE_LACK \<equiv> (-200 :: int32)"
abbreviation "PLATFORM_LACK \<equiv> (-500 :: int32)"
abbreviation "UID_LACK \<equiv> (-1107 :: int32)"
abbreviation "TOKEN_LACK \<equiv> (-1108 :: int32)"
abbreviation "MUSIC_TYPE_LACK \<equiv> (-2000 :: int32)"
abbreviation "MUSIC_TYPE_ID_LACK \<equiv> (-2001 :: int32)"
abbreviation "MUSIC_SONG_ID_LACK \<equiv> (-2002 :: int32)"
abbreviation "MESSAGE_ID_LACK \<equiv> (-3000 :: int32)"
abbreviation "GROUP_ID_LACK \<equiv> (-3001 :: int32)"
abbreviation "TID_LACK \<equiv> (-3002 :: int32)"

text \<open>The texts are Chinese, here as numbers of the Basic Multilingual Plane.\<close>

definition chinese :: "wstring \<Rightarrow> byte list" where
  "chinese s = WideToUTF8 s"

definition miyo_strerror :: "int32 \<Rightarrow> byte list" where
  "miyo_strerror code =
     (if code = STRUCT_ERROR then chinese [0x8BF7, 0x6C42, 0x7ED3, 0x6784, 0x9519, 0x8BEF]
      else if code = TYPE_LACK then chinese [0x7C7B, 0x522B, 0x4E0D, 0x5B58, 0x5728]
      else if code = PLATFORM_LACK then chinese [0x5E73, 0x53F0, 0x53F7, 0x4E0D, 0x5B58, 0x5728]
      else if code = UID_LACK then chinese [0x7F3A, 0x5C11, 0x7528, 0x6237] @ ascii ''ID''
      else if code = TOKEN_LACK then ascii ''TOKEN'' @ chinese [0x4E0D, 0x5B58, 0x5728, 0x6216, 0x9519, 0x8BEF]
      else if code = MUSIC_TYPE_LACK then
        chinese [0x5F53, 0x524D, 0x97F3, 0x4E50, 0x7C7B, 0x522B, 0x4E0D, 0x5B58, 0x5728]
      else if code = MUSIC_TYPE_ID_LACK then
        chinese [0x5F53, 0x524D, 0x97F3, 0x4E50, 0x7C7B, 0x522B] @ ascii ''ID'' @ chinese [0x4E0D, 0x5B58, 0x5728]
      else if code = MESSAGE_ID_LACK then
        chinese [0x6D88, 0x606F] @ ascii ''ID'' @ chinese [0x4E0D, 0x5B58, 0x5728]
      else if code = GROUP_ID_LACK then
        chinese [0x7FA4, 0x7EC4] @ ascii ''ID'' @ chinese [0x4E0D, 0x5B58, 0x5728]
      else if code = TID_LACK then chinese [0x7F3A, 0x5C11, 0x5BF9, 0x65B9] @ ascii ''ID''
      else chinese [0x672A, 0x77E5, 0x9519, 0x8BEF])"

section \<open>Requests\<close>

text \<open>The macro reads into a local without initial value and copies it whether or not the field is
  there.\<close>

definition GETBIGINTTOINT :: "int64 \<Rightarrow> dict \<Rightarrow> string \<Rightarrow> bool \<times> int64" where
  "GETBIGINTTOINT u m key =
     (case GetBigInteger m (wide key) of Some v \<Rightarrow> (True, v) | None \<Rightarrow> (False, u))"

text \<open>A getter with a variable that keeps its value when the field is missing.\<close>

definition big_or :: "int64 \<Rightarrow> dict \<Rightarrow> string \<Rightarrow> int64" where
  "big_or v m key = (case GetBigInteger m (wide key) of Some v \<Rightarrow> v | None \<Rightarrow> v)"

definition string_or :: "byte list \<Rightarrow> dict \<Rightarrow> string \<Rightarrow> byte list" where
  "string_or v m key = (case GetString m (wide key) of Some v \<Rightarrow> v | None \<Rightarrow> v)"

definition real_or :: "real64 \<Rightarrow> dict \<Rightarrow> string \<Rightarrow> real64" where
  "real_or v m key = (case GetReal m (wide key) of Some v \<Rightarrow> v | None \<Rightarrow> v)"

definition has_big :: "dict \<Rightarrow> string \<Rightarrow> bool" where
  "has_big m key \<longleftrightarrow> GetBigInteger m (wide key) \<noteq> None"

definition has_string :: "dict \<Rightarrow> string \<Rightarrow> bool" where
  "has_string m key \<longleftrightarrow> GetString m (wide key) \<noteq> None"

text \<open>\<^verbatim>\<open>if(!r) error_code_ = code\<close>.\<close>

definition lack :: "bool \<Rightarrow> int32 \<Rightarrow> int32 \<Rightarrow> int32" where
  "lack r code e = (if r then e else code)"

record head_packet =
  hp_type :: int32
  hp_error :: int32
  hp_remote_addr :: "byte list"
  hp_latitude :: real64
  hp_longitude :: real64
  hp_login_machine :: int64

definition recv_HeadPacket :: "int64 \<Rightarrow> dict \<Rightarrow> head_packet" where
  "recv_HeadPacket u m =
     (let (r, t) = GETBIGINTTOINT u m ''type'' in
      \<lparr>hp_type = to_int t, hp_error = lack r TYPE_LACK 0, hp_remote_addr = string_or [] m ''remote_addr'',
       hp_latitude = real_or 0 m ''latitude'', hp_longitude = real_or 0 m ''longitude'',
       hp_login_machine = big_or u m ''login_machine''\<rparr>)"

record login_packet =
  lp_head :: head_packet
  lp_error :: int32
  lp_uid :: int64
  lp_token :: "byte list"

definition recv_LoginHeadPacket :: "int64 \<Rightarrow> dict \<Rightarrow> login_packet" where
  "recv_LoginHeadPacket u m =
     (let h = recv_HeadPacket u m; (r, uid) = GETBIGINTTOINT u m ''uid'';
          e = lack r UID_LACK (hp_error h); e = lack (has_string m ''token'') TOKEN_LACK e in
      \<lparr>lp_head = h, lp_error = e, lp_uid = uid, lp_token = string_or [] m ''token''\<rparr>)"

text \<open>\<^verbatim>\<open>GetResult\<close> of a packet is the error code after all initialisers have run.\<close>

record collect_packet =
  cp_login :: login_packet
  cp_error :: int32
  cp_tid :: int64

definition recv_Collect :: "int64 \<Rightarrow> dict \<Rightarrow> collect_packet" where
  "recv_Collect u m =
     (let l = recv_LoginHeadPacket u m; (r, tid) = GETBIGINTTOINT u m ''taruid'' in
      \<lparr>cp_login = l, cp_error = lp_error l, cp_tid = tid\<rparr>)"

record song_packet =
  sp_login :: login_packet
  sp_error :: int32
  sp_songid :: int64

definition recv_DelCollect :: "int64 \<Rightarrow> dict \<Rightarrow> song_packet" where
  "recv_DelCollect u m =
     (let l = recv_LoginHeadPacket u m; (r, songid) = GETBIGINTTOINT u m ''songid'' in
      \<lparr>sp_login = l, sp_error = lack r MUSIC_SONG_ID_LACK (lp_error l), sp_songid = songid\<rparr>)"

abbreviation recv_SetHateCollect :: "int64 \<Rightarrow> dict \<Rightarrow> song_packet" where
  "recv_SetHateCollect \<equiv> recv_DelCollect"

record set_collect_packet =
  sc_login :: login_packet
  sc_error :: int32
  sc_songid :: int64
  sc_dimension_id :: int64
  sc_dimension_alais :: "byte list"

definition recv_SetCollect :: "int64 \<Rightarrow> dict \<Rightarrow> set_collect_packet" where
  "recv_SetCollect u m =
     (let l = recv_LoginHeadPacket u m;
          (r, songid) = GETBIGINTTOINT u m ''songid'';
          e = lack r MUSIC_SONG_ID_LACK (lp_error l);
          (r, dimension_id) = GETBIGINTTOINT u m ''typeid'';
          (r, dimension_id) = (if r then (r, dimension_id) else GETBIGINTTOINT u m ''sid'');
          e = lack r MUSIC_TYPE_ID_LACK e;
          alais = string_or (string_or [] m ''dimension'') m ''modetype'';
          e = lack (has_string m ''modetype'' \<or> has_string m ''dimension'') MUSIC_TYPE_LACK e in
      \<lparr>sc_login = l, sc_error = e, sc_songid = songid, sc_dimension_id = dimension_id,
       sc_dimension_alais = alais\<rparr>)"

record dimension_packet =
  dp_login :: login_packet
  dp_error :: int32
  dp_name :: "byte list"
  dp_sub_id :: int64

definition recv_Dimension :: "int64 \<Rightarrow> dict \<Rightarrow> dimension_packet" where
  "recv_Dimension u m =
     (let l = recv_LoginHeadPacket u m; (r, sub_id) = GETBIGINTTOINT u m ''sid'';
          e = lack r MUSIC_TYPE_LACK (lp_error l);
          e = lack (has_string m ''dimension'') MUSIC_TYPE_ID_LACK e in
      \<lparr>dp_login = l, dp_error = e, dp_name = string_or [] m ''dimension'', dp_sub_id = sub_id\<rparr>)"

record dimension_unit =
  du_id :: int64
  du_index :: int64
  du_alias :: "byte list"

text \<open>Identifier and index are -1 until set; the local \<^verbatim>\<open>id\<close> is overwritten by the macro, but every
  later use of it follows another read.\<close>

definition DimensionUnit :: "dict \<Rightarrow> string \<Rightarrow> string \<Rightarrow> byte list \<Rightarrow> dimension_unit" where
  "DimensionUnit m id_key index_key alias_name =
     \<lparr>du_id = big_or (-1) m id_key, du_index = big_or (-1) m index_key, du_alias = alias_name\<rparr>"

record dimensions_packet =
  ds_login :: login_packet
  ds_error :: int32
  ds_type :: dimension_unit
  ds_channel :: dimension_unit
  ds_mood :: dimension_unit
  ds_scens :: dimension_unit
  ds_num :: int64

definition recv_Dimensions :: "int64 \<Rightarrow> dict \<Rightarrow> dimensions_packet" where
  "recv_Dimensions u m =
     (let l = recv_LoginHeadPacket u m;
          e = fold (\<lambda>key. lack (has_big m key) MUSIC_TYPE_LACK)
                [''typeid'', ''moodid'', ''sceneid'', ''channelid'',
                 ''typeindex'', ''channelindex'', ''moodindex'', ''sceneindex''] (lp_error l);
          (r, num) = GETBIGINTTOINT u m ''num'' in
      \<lparr>ds_login = l, ds_error = e, ds_type = DimensionUnit m ''typeid'' ''typeindex'' [],
       ds_channel = DimensionUnit m ''channelid'' ''channelindex'' (ascii ''chl''),
       ds_mood = DimensionUnit m ''moodid'' ''moodindex'' (ascii ''mm''),
       ds_scens = DimensionUnit m ''sceneid'' ''sceneindex'' (ascii ''ms''),
       ds_num = (if r then num else 5)\<rparr>)"

record near_packet =
  np_login :: login_packet
  np_error :: int32
  np_longitude :: real64
  np_latitude :: real64
  np_radius :: int64
  np_page_index :: int64
  np_page_size :: int64

definition recv_NearMusic :: "int64 \<Rightarrow> dict \<Rightarrow> near_packet" where
  "recv_NearMusic u m =
     (let l = recv_LoginHeadPacket u m in
      \<lparr>np_login = l, np_error = lp_error l, np_longitude = real_or 0 m ''longitude'',
       np_latitude = real_or 0 m ''latitude'', np_radius = big_or 1000 m ''radius'',
       np_page_index = big_or 0 m ''page_index'', np_page_size = big_or 5 m ''page_size''\<rparr>)"

abbreviation recv_NearUser :: "int64 \<Rightarrow> dict \<Rightarrow> near_packet" where
  "recv_NearUser \<equiv> recv_NearMusic"

record friend_packet =
  fp_login :: login_packet
  fp_error :: int32
  fp_from :: int64
  fp_count :: int64

definition recv_MyMusicFriend :: "int64 \<Rightarrow> dict \<Rightarrow> friend_packet" where
  "recv_MyMusicFriend u m =
     (let l = recv_LoginHeadPacket u m; (r, start) = GETBIGINTTOINT u m ''from'';
          (s, count) = GETBIGINTTOINT u m ''count'' in
      \<lparr>fp_login = l, fp_error = lp_error l, fp_from = (if r then start else 0),
       fp_count = (if s then count else 5)\<rparr>)"

text \<open>\<^verbatim>\<open>UrlDecode\<close> of \<^verbatim>\<open>public/basic/basic_util.cc\<close>: the result ends at the first zero.\<close>

definition hex_byte :: "byte \<Rightarrow> bool" where
  "hex_byte c \<longleftrightarrow> is_digit c \<or> (0x41 \<le> c \<and> c \<le> 0x46) \<or> (0x61 \<le> c \<and> c \<le> 0x66)"

definition hex_byte_value :: "byte \<Rightarrow> byte" where
  "hex_byte_value c =
     (let c = (if 0x41 \<le> c \<and> c \<le> 0x5A then c + 0x20 else c) in
      if is_digit c then c - 0x30 else c - 0x61 + 10)"

definition php_htoi :: "byte \<Rightarrow> byte \<Rightarrow> byte" where
  "php_htoi a b = hex_byte_value a * 16 + hex_byte_value b"

fun url_chars :: "byte list \<Rightarrow> byte list" where
  "url_chars [] = []"
| "url_chars (c # a # b # s) =
     (if c = 0x2B then 0x20 # url_chars (a # b # s)
      else if c = 0x25 \<and> hex_byte a \<and> hex_byte b then php_htoi a b # url_chars s
      else c # url_chars (a # b # s))"
| "url_chars (c # s) = (if c = 0x2B then 0x20 else c) # url_chars s"

definition UrlDecode :: "byte list \<Rightarrow> byte list" where
  "UrlDecode content = c_string (url_chars (c_string content))"

record record_packet =
  rp_login :: login_packet
  rp_error :: int32
  rp_last_song_id :: int64
  rp_current_song_id :: int64
  rp_dimension_sub_id :: int64
  rp_state :: int64
  rp_singer :: "byte list"
  rp_name :: "byte list"
  rp_dimension_name :: "byte list"

text \<open>The title is decoded from the member it is to be stored in, which is still empty.\<close>

definition recv_RecordMusic :: "int64 \<Rightarrow> dict \<Rightarrow> record_packet" where
  "recv_RecordMusic u m =
     (let l = recv_LoginHeadPacket u m;
          e = lack (has_big m ''cursong'') MUSIC_SONG_ID_LACK (lp_error l);
          e = lack (has_big m ''typeid'') MUSIC_TYPE_ID_LACK e;
          e = lack (has_string m ''mode'') MUSIC_TYPE_LACK e in
      \<lparr>rp_login = l, rp_error = e, rp_last_song_id = big_or 0 m ''lastsong'',
       rp_current_song_id = big_or u m ''cursong'', rp_dimension_sub_id = big_or u m ''typeid'',
       rp_state = big_or 0 m ''state'',
       rp_singer = (case GetString m (wide ''singer'') of
                      None \<Rightarrow> chinese [0x4F5A, 0x540D] | Some singer \<Rightarrow> UrlDecode singer),
       rp_name = (if has_string m ''song'' then UrlDecode [] else chinese [0x672A, 0x77E5]),
       rp_dimension_name = (case GetString m (wide ''mode'') of None \<Rightarrow> [] | Some s \<Rightarrow> UrlDecode s)\<rparr>)"

section \<open>Answers\<close>

definition set_msg :: "byte list \<Rightarrow> dict \<Rightarrow> dict" where
  "set_msg msg head = Dict_SetUtf8 head (ascii ''msg'') (Some (StringValue msg))"

definition set_flag :: "int32 \<Rightarrow> dict \<Rightarrow> dict" where
  "set_flag flag head = Dict_SetUtf8 head (ascii ''flag'') (Some (IntegerValue flag))"

definition set_status :: "int32 \<Rightarrow> dict \<Rightarrow> dict" where
  "set_status status head = Dict_SetUtf8 head (ascii ''status'') (Some (IntegerValue status))"

text \<open>\<^verbatim>\<open>release\<close> of a list under its key, and of \<^verbatim>\<open>DimensionInfo\<close>.\<close>

definition release_list :: "string \<Rightarrow> tree list \<Rightarrow> dict" where
  "release_list key list =
     (let base = (if list = [] then [] else Dict_Set [] (wide key) (Some (ListValue list)));
          head = Dict_SetUtf8 [] (ascii ''result'') (Some (DictionaryValue base)) in
      set_status 1 head)"

definition send_MusicList :: "tree list \<Rightarrow> dict" where
  "send_MusicList list = release_list ''song'' list"

definition send_NearMusic :: "tree list \<Rightarrow> dict" where
  "send_NearMusic list = release_list ''nearUser'' list"

definition send_MyMusicFriend :: "tree list \<Rightarrow> dict" where
  "send_MyMusicFriend list = release_list ''list'' list"

definition send_DimensionInfo :: "tree list \<Rightarrow> tree list \<Rightarrow> tree list \<Rightarrow> dict" where
  "send_DimensionInfo channel mood scens =
     (let put = (\<lambda>key list base. if list = [] then base else Dict_Set base (wide key) (Some (ListValue list)));
          base = put ''ms'' scens (put ''mm'' mood (put ''chl'' channel []));
          head = Dict_SetUtf8 [] (ascii ''result'') (Some (DictionaryValue base)) in
      set_status 1 head)"

end
