(* ===== verification/MusicWorld.thy ===== *)
theory MusicWorld
  imports ServicePackets JsonWriter RobotWorld RateTable "HOL-Library.Monad_Syntax"
begin

text \<open>
  The songs and the cache of the music service, \<^verbatim>\<open>MusicInfo\<close>, \<^verbatim>\<open>Dimension\<close> and \<^verbatim>\<open>Dimensions\<close> of
  \<^verbatim>\<open>src/server/pub/logic/logic_infos.{h,cc}\<close>, the queries of \<^verbatim>\<open>pub_db_comm.cc\<close> that fill it, and
  \<^verbatim>\<open>WholeManager\<close> of \<^verbatim>\<open>src/server/svc/musicsvc/whole_manager.{h,cc}\<close>.  A song shares its data with
  every copy of it, so it is an address into the heap \<open>mw_songs\<close>, for which the locale
  \<open>object_heap\<close> is interpreted.  An operation that changes the state returns \<open>None\<close> when its
  behaviour is undefined or the process ends: after a dereferenced null pointer there is no state.
  Only the word behind the array of draws is a parameter, because it is read without failing.
\<close>

section \<open>Songs\<close>

record song =
  s_id :: int64
  s_clt :: int64
  s_cmt :: int64
  s_hot :: int64
  s_like :: int32
  s_class :: int32
  s_class_name :: "byte list"
  s_ablum :: "byte list"
  s_artist :: "byte list"
  s_title :: "byte list"
  s_hq_url :: "byte list"
  s_pic :: "byte list"
  s_pubtime :: "byte list"
  s_url :: "byte list"
  s_lyric :: "byte list"

definition MusicInfo_Data :: song where
  "MusicInfo_Data =
     \<lparr>s_id = 0, s_clt = -1, s_cmt = -1, s_hot = -1, s_like = -1, s_class = -1, s_class_name = [],
      s_ablum = [], s_artist = [], s_title = [], s_hq_url = [], s_pic = [], s_pubtime = [],
      s_url = [], s_lyric = []\<rparr>"

text \<open>\<^verbatim>\<open>BaseCopy\<close>: neither the comments nor the dimension are copied, nor the time.\<close>

definition BaseCopy :: "song \<Rightarrow> song \<Rightarrow> song" where
  "BaseCopy music_info s =
     s\<lparr>s_id := s_id music_info, s_clt := s_clt music_info, s_hot := s_hot music_info,
       s_like := s_like music_info, s_ablum := s_ablum music_info, s_artist := s_artist music_info,
       s_title := s_title music_info, s_hq_url := s_hq_url music_info, s_pic := s_pic music_info,
       s_url := s_url music_info, s_lyric := s_lyric music_info\<rparr>"

text \<open>An entry that is only set when its value says something.\<close>

definition set_if :: "bool \<Rightarrow> string \<Rightarrow> tree \<Rightarrow> dict \<Rightarrow> dict" where
  "set_if b key v d = (if b then Dict_Set d (wide key) (Some v) else d)"

text \<open>\<^verbatim>\<open>Release\<close> and \<^verbatim>\<open>JsonDeserialize\<close>, which in spite of its name writes.\<close>

definition MusicInfo_Release :: "bool \<Rightarrow> song \<Rightarrow> tree option" where
  "MusicInfo_Release all s =
     (if all \<and> (s_hq_url s = [] \<or> s_url s = []) then None
      else Some (DictionaryValue (
        set_if (s_url s \<noteq> []) ''url'' (StringValue (s_url s)) (
        set_if (s_pubtime s \<noteq> []) ''pubtime'' (StringValue (s_pubtime s)) (
        set_if (s_pic s \<noteq> []) ''pic'' (StringValue (s_pic s)) (
        set_if (s_hq_url s \<noteq> []) ''hq_url'' (StringValue (s_hq_url s)) (
        set_if (s_title s \<noteq> []) ''titile'' (StringValue (s_title s)) (
        set_if (s_title s \<noteq> []) ''name'' (StringValue (s_title s)) (
        set_if (s_title s \<noteq> []) ''title'' (StringValue (s_title s)) (
        set_if (s_artist s \<noteq> []) ''artist'' (StringValue (s_artist s)) (
        set_if (s_ablum s \<noteq> []) ''ablum'' (StringValue (s_ablum s)) (
        set_if (s_class_name s \<noteq> []) ''type'' (StringValue (s_class_name s)) (
        set_if (s_class s \<noteq> -1) ''tid'' (IntegerValue (s_class s)) (
        set_if True ''like'' (IntegerValue (if s_like s \<noteq> -1 then s_like s else 0)) (
        set_if (s_hot s \<noteq> -1) ''hot'' (BigIntegerValue (s_hot s)) (
        set_if (s_cmt s \<noteq> -1) ''cmt'' (BigIntegerValue (s_cmt s)) (
        set_if (s_clt s \<noteq> -1) ''clt'' (BigIntegerValue (s_clt s)) (
        set_if (s_id s \<noteq> 0) ''id'' (BigIntegerValue (s_id s)) []))))))))))))))))))"

definition MusicInfo_JsonDeserialize :: "g_fmt \<Rightarrow> byte list \<Rightarrow> int32 \<Rightarrow> song \<Rightarrow> byte list" where
  "MusicInfo_JsonDeserialize g str dimenon s =
     JsonSerialize g (DictionaryValue (
        set_if (dimenon = 1 \<and> s_class_name s \<noteq> []) ''type'' (StringValue (s_class_name s)) (
        set_if (dimenon = 1 \<and> s_class s \<noteq> -1) ''typeid'' (BigIntegerValue (scast (s_class s))) (
        set_if (s_url s \<noteq> []) ''url'' (StringValue (s_url s)) (
        set_if (s_pubtime s \<noteq> []) ''pubtime'' (StringValue (s_pubtime s)) (
        set_if (s_pic s \<noteq> []) ''pic'' (StringValue (s_pic s)) (
        set_if (s_hq_url s \<noteq> []) ''hq_url'' (StringValue (s_hq_url s)) (
        set_if (s_title s \<noteq> []) ''titile'' (StringValue (s_title s)) (
        set_if (s_title s \<noteq> []) ''name'' (StringValue (s_title s)) (
        set_if (s_title s \<noteq> []) ''title'' (StringValue (s_title s)) (
        set_if (s_artist s \<noteq> []) ''artist'' (StringValue (s_artist s)) (
        set_if (s_ablum s \<noteq> []) ''album'' (StringValue (s_ablum s)) (
        set_if (s_class_name s \<noteq> []) ''type'' (StringValue (s_class_name s)) (
        set_if (s_class s \<noteq> -1) ''tid'' (IntegerValue (s_class s)) (
        set_if (s_like s \<noteq> -1) ''like'' (IntegerValue (s_like s)) (
        set_if (s_hot s \<noteq> -1) ''hot'' (BigIntegerValue (s_hot s)) (
        set_if (s_cmt s \<noteq> -1) ''cmt'' (BigIntegerValue (s_cmt s)) (
        set_if (s_clt s \<noteq> -1) ''clt'' (BigIntegerValue (s_clt s)) (
        set_if (s_id s \<noteq> 0) ''songid'' (BigIntegerValue (s_id s)) (
        set_if (s_id s \<noteq> 0) ''id'' (BigIntegerValue (s_id s)) [])))))))))))))))))))) str"

text \<open>\<^verbatim>\<open>JsonSeralize\<close>, which reads: a null dictionary is dereferenced.  A song identifier that is
  neither a string nor an integer stays unset.\<close>

definition MusicInfo_JsonSeralize :: "int64 \<Rightarrow> byte list \<Rightarrow> song \<Rightarrow> song option" where
  "MusicInfo_JsonSeralize u str s =
     map_option (\<lambda>dic.
       let songid = (case GetString dic (wide ''songid'') of
              Some str_songid \<Rightarrow> atoll (c_string str_songid)
            | None \<Rightarrow> big_or u dic ''songid'') in
       s\<lparr>s_id := songid, s_class_name := string_or [] dic ''type'',
         s_class := to_int (atoll (c_string (string_or [] dic ''typeid'')))\<rparr>)
       (JsonDeserialize str)"

section \<open>Dimensions\<close>

record dimension_data =
  dd_id :: int64
  dd_class_name :: "byte list"
  dd_name :: "byte list"
  dd_description :: "byte list"

definition Dimension_Release :: "dimension_data \<Rightarrow> tree" where
  "Dimension_Release d = DictionaryValue (
     set_if (dd_name d \<noteq> []) ''name'' (StringValue (dd_name d)) (
     set_if (dd_id d \<noteq> 0) ''id'' (BigIntegerValue (dd_id d)) (
     set_if (dd_description d \<noteq> []) ''desc'' (StringValue (dd_description d)) (
     set_if (dd_class_name d \<noteq> []) ''class_name'' (StringValue (dd_class_name d)) []))))"

record dimensions_data =
  dn_id :: int64
  dn_name :: "byte list"
  dn_alias :: "byte list"
  dn_map :: "(int64, dimension_data) stdmap"

section \<open>The state\<close>

type_synonym songs = "(int64, nat) stdmap"

record dimension_cache =
  dc_map :: "(int64, songs) stdmap"
  dc_vec :: "(int64, nat list) stdmap"
  dc_radomin :: "(int32, radom_v2) stdmap"

text \<open>What the service does to the outside, besides the data stores: answers, notices to the robot
  server, and calls of the log of the behaviour of users.\<close>

datatype music_event =
  Answer int32 "byte list"
| Notice int32 int64 int64 int64 int32 "byte list"
| Behavior int64 int64 int32 "byte list"

text \<open>\<open>mw_store\<close> is the state of Redis, memcached and MySQL.\<close>

record 's music_world =
  mw_songs :: "song list"
  mw_info :: songs
  mw_collect :: "(int64, songs) stdmap"
  mw_hate :: "(int64, songs) stdmap"
  mw_channel :: dimension_cache
  mw_mood :: dimension_cache
  mw_scene :: dimension_cache
  mw_dimensions :: "byte list \<Rightarrow> dimensions_data"
  mw_robot_socket :: int32
  mw_store :: 's
  mw_events :: "music_event list"

text \<open>A row of an answer of the database: the columns, \<^verbatim>\<open>NULL\<close> is \<open>None\<close>.\<close>

type_synonym db_row = "nat \<Rightarrow> byte list option"

text \<open>The surroundings: the rows of the stored procedures, a hash of Redis set, deleted from and
  read, memcached, the history, Base64, the shuffles, the conversions of doubles, uninitialised
  integers, the word behind an array of draws, the bytes \<^verbatim>\<open>new\<close> can give, and what
  \<^verbatim>\<open>HeadPacket::release\<close>, a function without \<^verbatim>\<open>return\<close>, gives to its caller.\<close>

record 's music_env =
  me_available :: "'s \<Rightarrow> db_row list"
  me_all_dimensions :: "'s \<Rightarrow> db_row list"
  me_dimensions :: "byte list \<Rightarrow> 's \<Rightarrow> db_row list"
  me_friends :: "int64 \<Rightarrow> int64 \<Rightarrow> 's \<Rightarrow> db_row list"
  me_by_login :: "'s \<Rightarrow> db_row list"
  me_by_location :: "'s \<Rightarrow> db_row list"
  me_hset :: "byte list \<Rightarrow> byte list \<Rightarrow> byte list \<Rightarrow> 's \<Rightarrow> 's"
  me_hdel :: "byte list \<Rightarrow> byte list \<Rightarrow> 's \<Rightarrow> 's"
  me_hvals :: "byte list \<Rightarrow> 's \<Rightarrow> byte list list"
  me_mem_set :: "byte list \<Rightarrow> byte list \<Rightarrow> 's \<Rightarrow> 's"
  me_mem_get :: "byte list \<Rightarrow> 's \<Rightarrow> byte list option"
  me_history :: "int64 \<Rightarrow> int64 \<Rightarrow> 's \<Rightarrow> 's"
  me_base64 :: "byte list \<Rightarrow> byte list"
  me_rand :: "byte list \<Rightarrow> int64 \<Rightarrow> rand_source"
  me_strtod :: strtod
  me_g_fmt :: g_fmt
  me_unset :: int64
  me_behind :: int32
  me_memory :: nat
  me_released :: "dict \<Rightarrow> dict option"

type_synonym ('s, 'a) music_m = "'s music_world \<Rightarrow> ('a \<times> 's music_world) option"

definition new_song :: "song \<Rightarrow> 's music_world \<Rightarrow> nat \<times> 's music_world" where
  "new_song d w = run_state (obj_new mw_songs mw_songs_update d) w"

definition song_at :: "'s music_world \<Rightarrow> nat \<Rightarrow> song" where
  "song_at w h = obj_at mw_songs h w"

definition set_song :: "nat \<Rightarrow> (song \<Rightarrow> song) \<Rightarrow> 's music_world \<Rightarrow> 's music_world" where
  "set_song h f w = snd (run_state (obj_set mw_songs_update h f) w)"

interpretation music_songs: object_heap mw_songs mw_songs_update by unfold_locales simp

definition music_emit :: "music_event \<Rightarrow> 's music_world \<Rightarrow> 's music_world" where
  "music_emit e w = w\<lparr>mw_events := mw_events w @ [e]\<rparr>"

definition in_store :: "('s \<Rightarrow> 's) \<Rightarrow> 's music_world \<Rightarrow> 's music_world" where
  "in_store f w = w\<lparr>mw_store := f (mw_store w)\<rparr>"

section \<open>Loading\<close>

definition column_int :: "db_row \<Rightarrow> nat \<Rightarrow> int64 \<Rightarrow> int64" where
  "column_int row i v = (case row i of None \<Rightarrow> v | Some s \<Rightarrow> atoll s)"

definition column_text :: "db_row \<Rightarrow> nat \<Rightarrow> (byte list \<Rightarrow> byte list) \<Rightarrow> byte list" where
  "column_text row i f = (case row i of None \<Rightarrow> [] | Some s \<Rightarrow> f s)"

text \<open>Column 8 is both addresses of a song.\<close>

definition available_song :: "'s music_env \<Rightarrow> db_row \<Rightarrow> song" where
  "available_song E row = MusicInfo_Data
     \<lparr>s_id := column_int row 0 0, s_hot := column_int row 1 (-1), s_clt := column_int row 2 (-1),
      s_cmt := column_int row 3 (-1), s_title := column_text row 4 (me_base64 E),
      s_ablum := column_text row 5 (me_base64 E), s_pubtime := column_text row 6 id,
      s_artist := column_text row 7 (me_base64 E), s_url := column_text row 8 id,
      s_hq_url := column_text row 8 id, s_pic := column_text row 9 id, s_lyric := column_text row 10 id\<rparr>"

definition GetAvailableMusicInfo :: "'s music_env \<Rightarrow> 's music_world \<Rightarrow> 's music_world" where
  "GetAvailableMusicInfo E w =
     fold (\<lambda>row w. let d = available_song E row; (h, w) = new_song d w in
             w\<lparr>mw_info := map_set (s_id d) h (mw_info w)\<rparr>) (me_available E (mw_store w)) w"

definition GetDimensions :: "'s music_env \<Rightarrow> byte list \<Rightarrow> dimensions_data \<Rightarrow> 's music_world \<Rightarrow> dimensions_data" where
  "GetDimensions E type dimensions w =
     fold (\<lambda>row ds. let i = column_int row 0 0 in
             ds\<lparr>dn_map := map_set i \<lparr>dd_id = i, dd_class_name = [], dd_name = column_text row 1 id,
                                     dd_description = []\<rparr> (dn_map ds)\<rparr>)
       (me_dimensions E type (mw_store w)) dimensions"

definition CreateDimensions :: "'s music_env \<Rightarrow> int64 \<Rightarrow> byte list \<Rightarrow> byte list \<Rightarrow> 's music_world \<Rightarrow> 's music_world" where
  "CreateDimensions E i type name w =
     (let ds = GetDimensions E type \<lparr>dn_id = i, dn_name = name, dn_alias = type, dn_map = []\<rparr> w in
      w\<lparr>mw_dimensions := (mw_dimensions w)(type := ds)\<rparr>)"

text \<open>\<^verbatim>\<open>Init\<close>: the names of moods and scenes are exchanged with respect to their aliases elsewhere.\<close>

definition WholeManager_Init :: "'s music_env \<Rightarrow> 's music_world \<Rightarrow> 's music_world" where
  "WholeManager_Init E w =
     CreateDimensions E 30000 (ascii ''chl'') (chinese [0x9891, 0x9053])
       (CreateDimensions E 20000 (ascii ''mm'') (chinese [0x573A, 0x666F])
         (CreateDimensions E 10000 (ascii ''ms'') (chinese [0x5FC3, 0x60C5]) w))"

definition GetAllDimension :: "'s music_env \<Rightarrow> 's music_world \<Rightarrow> dimension_data list" where
  "GetAllDimension E w =
     map (\<lambda>row. \<lparr>dd_id = column_int row 0 0, dd_class_name = column_text row 1 id,
                 dd_name = column_text row 2 id, dd_description = column_text row 3 id\<rparr>)
       (me_all_dimensions E (mw_store w))"

text \<open>The cache of a class of dimensions; other classes have none.\<close>

definition cache_of :: "byte list \<Rightarrow> 's music_world \<Rightarrow> dimension_cache option" where
  "cache_of name w =
     (if name = ascii ''chl'' then Some (mw_channel w)
      else if name = ascii ''ms'' then Some (mw_scene w)
      else if name = ascii ''mm'' then Some (mw_mood w) else None)"

definition update_cache ::
  "byte list \<Rightarrow> (dimension_cache \<Rightarrow> dimension_cache) \<Rightarrow> 's music_world \<Rightarrow> 's music_world" where
  "update_cache name f w =
     (if name = ascii ''chl'' then w\<lparr>mw_channel := f (mw_channel w)\<rparr>
      else if name = ascii ''ms'' then w\<lparr>mw_scene := f (mw_scene w)\<rparr>
      else if name = ascii ''mm'' then w\<lparr>mw_mood := f (mw_mood w)\<rparr> else w)"

primrec dimension_songs ::
  "dimension_data \<Rightarrow> byte list list \<Rightarrow> songs \<times> nat list \<Rightarrow> 's music_world \<Rightarrow> (songs \<times> nat list) \<times> 's music_world" where
  "dimension_songs d [] mv w = (mv, w)"
| "dimension_songs d (str # strs) mv w =
     (let s = MusicInfo_Data\<lparr>s_id := atoll (c_string str), s_class_name := dd_class_name d,
                             s_class := to_int (dd_id d)\<rparr>;
          (h, w) = new_song s w in
      dimension_songs d strs (map_set (s_id s) h (fst mv), snd mv @ [h]) w)"

definition FectchDimensionMusic :: "'s music_env \<Rightarrow> dimension_data \<Rightarrow> 's music_world \<Rightarrow> 's music_world" where
  "FectchDimensionMusic E d w =
     (let key = dd_class_name d @ ascii ''_r'' @ decimal (sint (dd_id d));
          ((dimension_map, dimension_vec), w) = dimension_songs d (me_hvals E key (mw_store w)) ([], []) w in
      update_cache (dd_class_name d)
        (\<lambda>c. c\<lparr>dc_map := map_set (dd_id d) dimension_map (dc_map c),
               dc_vec := map_set (dd_id d) dimension_vec (dc_vec c)\<rparr>) w)"

definition FetchDimensionMusic :: "'s music_env \<Rightarrow> 's music_world \<Rightarrow> 's music_world" where
  "FetchDimensionMusic E w = fold (FectchDimensionMusic E) (GetAllDimension E w) w"

text \<open>A table of draws for every dimension, by its identifier cut to an \<^verbatim>\<open>int\<close>.\<close>

primrec radomin_tables ::
  "(int64 \<Rightarrow> rand_source) \<Rightarrow> (int64 \<times> songs) list \<Rightarrow> (int32, radom_v2) stdmap \<Rightarrow> (int32, radom_v2) stdmap option" where
  "radomin_tables rand [] tables = Some tables"
| "radomin_tables rand (e # es) tables = do {
     t \<leftarrow> MigRadomInV2 (rand (fst e)) (length (snd e));
     radomin_tables rand es (map_set (to_int (fst e)) t tables)
   }"

definition CreateRadomin1 :: "'s music_env \<Rightarrow> byte list \<Rightarrow> 's music_world \<Rightarrow> 's music_world option" where
  "CreateRadomin1 E name w =
     (case cache_of name w of
        None \<Rightarrow> Some w
      | Some c \<Rightarrow> map_option (\<lambda>t. update_cache name (\<lambda>c. c\<lparr>dc_radomin := t\<rparr>) w)
          (radomin_tables (me_rand E name) (dc_map c) (dc_radomin c)))"

definition CreateRadomin :: "'s music_env \<Rightarrow> 's music_world \<Rightarrow> 's music_world option" where
  "CreateRadomin E w = do {
     w \<leftarrow> CreateRadomin1 E (ascii ''chl'') w;
     w \<leftarrow> CreateRadomin1 E (ascii ''mm'') w;
     CreateRadomin1 E (ascii ''ms'') w
   }"

definition no_songs :: "'s \<Rightarrow> 's music_world" where
  "no_songs s =
     \<lparr>mw_songs = [], mw_info = [], mw_collect = [], mw_hate = [],
      mw_channel = \<lparr>dc_map = [], dc_vec = [], dc_radomin = []\<rparr>,
      mw_mood = \<lparr>dc_map = [], dc_vec = [], dc_radomin = []\<rparr>,
      mw_scene = \<lparr>dc_map = [], dc_vec = [], dc_radomin = []\<rparr>,
      mw_dimensions = (\<lambda>_. \<lparr>dn_id = 0, dn_name = [], dn_alias = [], dn_map = []\<rparr>),
      mw_robot_socket = 0, mw_store = s, mw_events = []\<rparr>"

definition Musiclogic_Init :: "'s music_env \<Rightarrow> 's \<Rightarrow> 's music_world option" where
  "Musiclogic_Init E s =
     CreateRadomin E (FetchDimensionMusic E (GetAvailableMusicInfo E (WholeManager_Init E (no_songs s))))"

section \<open>The cache\<close>

definition GetMusicInfo :: "songs \<Rightarrow> 's music_world \<Rightarrow> 's music_world" where
  "GetMusicInfo list w =
     fold (\<lambda>(k, h) w. case map_find (mw_info w) (s_id (song_at w h)) of
              None \<Rightarrow> w
            | Some r \<Rightarrow> set_song h (BaseCopy (song_at w r)) w) list w"

text \<open>\<^verbatim>\<open>GetRadomin\<close>: \<open>num\<close> draws, and what stands behind them.\<close>

definition GetRadomin :: "'s music_env \<Rightarrow> byte list \<Rightarrow> int32 \<Rightarrow> int32 \<Rightarrow> ('s, int32 list) music_m" where
  "GetRadomin E name i num w =
     (if num <s 0 \<or> me_memory E < 4 * nat (sint num) then None
      else
        (let radomins = (case cache_of name w of None \<Rightarrow> [] | Some c \<Rightarrow> dc_radomin c) in
         case map_find radomins i of
           None \<Rightarrow> Some ([], w)
         | Some radomin \<Rightarrow>
             if num_of radomin = 0 \<and> num \<noteq> 0 then None
             else do {
               (rands, radomin) \<leftarrow> GetPrize (me_rand E name (to_int64 i)) (nat (sint num)) radomin;
               Some (map of_int rands @ [me_behind E],
                     update_cache name (\<lambda>c. c\<lparr>dc_radomin := map_set i radomin (dc_radomin c)\<rparr>) w)
             }))"

text \<open>The loop over the draws.  The comparison with the size is unsigned, and lets the size pass.\<close>

primrec drawn_songs :: "nat list \<Rightarrow> int32 list \<Rightarrow> songs \<Rightarrow> ('s, songs) music_m" where
  "drawn_songs vec [] list w = Some (list, w)"
| "drawn_songs vec (radom # radoms) list w =
     (let k = unat (scast radom :: int64) in
      if length vec < k then drawn_songs vec radoms list w
      else if length vec = k then None
      else drawn_songs vec radoms (map_set (s_id (song_at w (vec ! k))) (vec ! k) list) w)"

definition GetDimensionList ::
  "'s music_env \<Rightarrow> byte list \<Rightarrow> int64 \<Rightarrow> songs \<Rightarrow> int64 \<Rightarrow> ('s, songs) music_m" where
  "GetDimensionList E name i music_list num w =
     (let multi_dimension_vec = (case cache_of name w of None \<Rightarrow> [] | Some c \<Rightarrow> dc_vec c) in
      do {
        (radom_list, w) \<leftarrow> GetRadomin E name (to_int i) (to_int num) w;
        (music_list, w) \<leftarrow> drawn_songs
           (case map_find multi_dimension_vec i of None \<Rightarrow> [] | Some v \<Rightarrow> v) radom_list music_list w;
        Some (music_list, GetMusicInfo music_list w)
      })"

definition collect_key :: "int64 \<Rightarrow> byte list" where
  "collect_key uid = ascii ''h'' @ Int64ToString uid @ ascii ''clt''"

definition hate_key :: "int64 \<Rightarrow> byte list" where
  "hate_key uid = ascii ''h'' @ Int64ToString uid @ ascii ''ht''"

definition DelCollectSong :: "'s music_env \<Rightarrow> int64 \<Rightarrow> int64 \<Rightarrow> 's music_world \<Rightarrow> 's music_world" where
  "DelCollectSong E uid songid w =
     (let w = in_store (me_hdel E (collect_key uid) (Int64ToString songid)) w in
      case map_find (mw_collect w) uid of
        None \<Rightarrow> w
      | Some music_list \<Rightarrow>
          (let (r, music_list) = MapDel music_list songid in
           if \<not> r then w else w\<lparr>mw_collect := snd (MapAdd (mw_collect w) uid music_list)\<rparr>))"

text \<open>\<open>get\<close> and \<open>upd\<close> stand for the reference to one of the two caches.\<close>

definition SetMusicPreference ::
  "'s music_env \<Rightarrow> int64 \<Rightarrow> nat \<Rightarrow> ('s music_world \<Rightarrow> (int64, songs) stdmap) \<Rightarrow>
   (((int64, songs) stdmap \<Rightarrow> (int64, songs) stdmap) \<Rightarrow> 's music_world \<Rightarrow> 's music_world) \<Rightarrow>
   (int64 \<Rightarrow> byte list) \<Rightarrow> 's music_world \<Rightarrow> 's music_world" where
  "SetMusicPreference E uid music get upd hash_name w =
     (let s = song_at w music; str_json = MusicInfo_JsonDeserialize (me_g_fmt E) [] 1 s;
          w = in_store (me_hset E (hash_name uid) (Int64ToString (s_id s)) str_json) w;
          music = (case map_find (mw_info w) (s_id s) of None \<Rightarrow> music | Some full \<Rightarrow> full) in
      case map_find (get w) uid of
        None \<Rightarrow> w
      | Some music_list \<Rightarrow>
          upd (\<lambda>m. snd (MapAdd m uid (snd (MapAdd music_list (s_id (song_at w music)) music)))) w)"

definition SetCollectSong :: "'s music_env \<Rightarrow> int64 \<Rightarrow> nat \<Rightarrow> 's music_world \<Rightarrow> 's music_world" where
  "SetCollectSong E uid music w = SetMusicPreference E uid music mw_collect mw_collect_update collect_key w"

definition SetHatList :: "'s music_env \<Rightarrow> int64 \<Rightarrow> nat \<Rightarrow> 's music_world \<Rightarrow> 's music_world" where
  "SetHatList E uid music w = SetMusicPreference E uid music mw_hate mw_hate_update hate_key w"

primrec read_songs :: "int64 \<Rightarrow> byte list list \<Rightarrow> songs \<Rightarrow> ('s, songs) music_m" where
  "read_songs u [] list w = Some (list, w)"
| "read_songs u (str # strs) list w = do {
     s \<leftarrow> MusicInfo_JsonSeralize u str MusicInfo_Data;
     let (h, w) = new_song s w;
     read_songs u strs (map_set (s_id s) h list) w
   }"

definition GetMusicListT :: "'s music_env \<Rightarrow> int64 \<Rightarrow> ('s, songs) music_m" where
  "GetMusicListT E uid w =
     (let found = map_find (mw_collect w) uid;
          music_list = (case found of None \<Rightarrow> [] | Some l \<Rightarrow> l);
          strs = (if music_list = [] then me_hvals E (collect_key uid) (mw_store w) else []) in
      if strs = [] then Some (music_list, w)
      else do {
        (music_list, w) \<leftarrow> read_songs (me_unset E) strs music_list w;
        Some (music_list, w\<lparr>mw_collect := snd (MapAdd (mw_collect w) uid music_list)\<rparr>)
      })"

definition GetCollectList :: "'s music_env \<Rightarrow> int64 \<Rightarrow> ('s, songs) music_m" where
  "GetCollectList E uid w = do {
     (music_list, w) \<leftarrow> GetMusicListT E uid w;
     Some (music_list, GetMusicInfo music_list w)
   }"

definition dimension_infos :: "byte list \<Rightarrow> 's music_world \<Rightarrow> tree list" where
  "dimension_infos type w = map (\<lambda>e. Dimension_Release (snd e)) (dn_map (mw_dimensions w type))"

definition GetDimensionInfo :: "'s music_world \<Rightarrow> dict" where
  "GetDimensionInfo w =
     send_DimensionInfo (dimension_infos (ascii ''chl'') w) (dimension_infos (ascii ''mm'') w)
       (dimension_infos (ascii ''ms'') w)"

end
