(* ===== verification/MusicService.thy ===== *)
theory MusicService
  imports MusicWorld HttpRoundTrip
begin

text \<open>
  The handlers of the music service, \<^verbatim>\<open>src/server/svc/musicsvc/music_logic.cc\<close>, with the keys of
  \<^verbatim>\<open>music_dic_comm.cc\<close> and the sending of \<^verbatim>\<open>pub/logic/logic_unit.cc\<close>: a query string is parsed,
  its type chooses the handler, the handler checks the packet, works on the cache and answers with
  JSON.  The service is the step relation \<open>music_step\<close>.  What a handler returns is ignored by its
  caller and not modelled.
\<close>

section \<open>Sending\<close>

definition music_send_message :: "'s music_env \<Rightarrow> int32 \<Rightarrow> dict \<Rightarrow> 's music_world \<Rightarrow> 's music_world" where
  "music_send_message E socket packet w =
     music_emit (Answer socket (JsonSerialize (me_g_fmt E) (DictionaryValue packet) [])) w"

text \<open>A plain \<^verbatim>\<open>HeadPacket\<close> is handed over by the function without \<^verbatim>\<open>return\<close>.\<close>

definition send_head :: "'s music_env \<Rightarrow> int32 \<Rightarrow> dict \<Rightarrow> 's music_world \<Rightarrow> 's music_world option" where
  "send_head E socket head w =
     map_option (\<lambda>d. music_send_message E socket d w) (me_released E head)"

definition SendErrorMsg :: "'s music_env \<Rightarrow> int32 \<Rightarrow> int32 \<Rightarrow> 's music_world \<Rightarrow> 's music_world option" where
  "SendErrorMsg E code socket w =
     send_head E socket (set_status 0 (set_msg (miyo_strerror code) (set_flag code []))) w"

text \<open>Every handler begins like this.\<close>

definition checked ::
  "'s music_env \<Rightarrow> int32 \<Rightarrow> int32 \<Rightarrow> ('s music_world \<Rightarrow> 's music_world option) \<Rightarrow> 's music_world \<Rightarrow> 's music_world option" where
  "checked E code socket handler w = (if code \<noteq> 0 then SendErrorMsg E code socket w else handler w)"

section \<open>Lists of songs\<close>

definition released_songs :: "songs \<Rightarrow> 's music_world \<Rightarrow> tree list" where
  "released_songs music_list w = List.map_filter (\<lambda>(k, h). MusicInfo_Release True (song_at w h)) music_list"

definition OnDimensionList :: "'s music_env \<Rightarrow> int32 \<Rightarrow> dict \<Rightarrow> 's music_world \<Rightarrow> 's music_world option" where
  "OnDimensionList E socket m w =
     (let p = recv_Dimension (me_unset E) m in
      checked E (dp_error p) socket (\<lambda>w. do {
        (music_list, w) \<leftarrow> GetDimensionList E (dp_name p) (dp_sub_id p) [] 10 w;
        Some (music_send_message E socket (send_MusicList (released_songs music_list w)) w)
      }) w)"

definition dimension_part :: "'s music_env \<Rightarrow> dimension_unit \<Rightarrow> int64 \<Rightarrow> songs \<Rightarrow> ('s, songs) music_m" where
  "dimension_part E d num music_list w =
     (if du_index d \<noteq> -1 then GetDimensionList E (du_alias d) (du_id d) music_list num w
      else Some (music_list, w))"

definition OnDimensionsList :: "'s music_env \<Rightarrow> int32 \<Rightarrow> dict \<Rightarrow> 's music_world \<Rightarrow> 's music_world option" where
  "OnDimensionsList E socket m w =
     (let p = recv_Dimensions (me_unset E) m in
      checked E (ds_error p) socket (\<lambda>w. do {
        (music_list, w) \<leftarrow> dimension_part E (ds_channel p) (ds_num p) [] w;
        (music_list, w) \<leftarrow> dimension_part E (ds_mood p) (ds_num p) music_list w;
        (music_list, w) \<leftarrow> dimension_part E (ds_scens p) (ds_num p) music_list w;
        Some (music_send_message E socket (send_MusicList (released_songs music_list w)) w)
      }) w)"

text \<open>The songs are marked as liked in the objects that the caches share.\<close>

primrec liked_songs :: "songs \<Rightarrow> tree list \<Rightarrow> 's music_world \<Rightarrow> tree list \<times> 's music_world" where
  "liked_songs [] list w = (list, w)"
| "liked_songs (e # es) list w =
     (let w = set_song (snd e) (\<lambda>s. s\<lparr>s_like := 1\<rparr>) w in
      liked_songs es (list @ (case MusicInfo_Release True (song_at w (snd e)) of None \<Rightarrow> [] | Some d \<Rightarrow> [d])) w)"

definition OnCollectList :: "'s music_env \<Rightarrow> int32 \<Rightarrow> dict \<Rightarrow> 's music_world \<Rightarrow> 's music_world option" where
  "OnCollectList E socket m w =
     (let p = recv_Collect (me_unset E) m in
      checked E (cp_error p) socket (\<lambda>w. do {
        (music_list, w) \<leftarrow> GetCollectList E (lp_uid (cp_login p)) w;
        let (list, w) = liked_songs music_list [] w;
        Some (music_send_message E socket (send_MusicList list) w)
      }) w)"

section \<open>Likes and dislikes\<close>

definition OnSetCollection :: "'s music_env \<Rightarrow> int32 \<Rightarrow> dict \<Rightarrow> 's music_world \<Rightarrow> 's music_world option" where
  "OnSetCollection E socket m w =
     (let p = recv_SetCollect (me_unset E) m in
      checked E (sc_error p) socket (\<lambda>w.
        let (music, w) = new_song (MusicInfo_Data\<lparr>s_id := sc_songid p, s_class := to_int (sc_dimension_id p),
              s_class_name := sc_dimension_alais p\<rparr>) w in
        send_head E socket (set_status 1 []) (SetCollectSong E (lp_uid (sc_login p)) music w)) w)"

definition OnDelCollection :: "'s music_env \<Rightarrow> int32 \<Rightarrow> dict \<Rightarrow> 's music_world \<Rightarrow> 's music_world option" where
  "OnDelCollection E socket m w =
     (let p = recv_DelCollect (me_unset E) m in
      checked E (sp_error p) socket (\<lambda>w.
        send_head E socket (set_status 1 []) (DelCollectSong E (lp_uid (sp_login p)) (sp_songid p) w)) w)"

definition OnHateList :: "'s music_env \<Rightarrow> int32 \<Rightarrow> dict \<Rightarrow> 's music_world \<Rightarrow> 's music_world option" where
  "OnHateList E socket m w =
     (let p = recv_SetHateCollect (me_unset E) m in
      checked E (sp_error p) socket (\<lambda>w.
        let (music, w) = new_song (MusicInfo_Data\<lparr>s_id := sp_songid p\<rparr>) w in
        send_head E socket (set_status 1 []) (SetHatList E (lp_uid (sp_login p)) music w)) w)"

section \<open>Users nearby\<close>

text \<open>The users of an answer by their identifier, each with a song of its own.  Their other columns
  are only used behind the loop that leaves the map.\<close>

definition near_users :: "db_row list \<Rightarrow> 's music_world \<Rightarrow> songs \<times> 's music_world" where
  "near_users rows w =
     fold (\<lambda>row (users, w). let (h, w) = new_song MusicInfo_Data w in
             (map_set (column_int row 0 0) h users, w)) rows ([], w)"

definition current_key :: "int64 \<Rightarrow> byte list" where
  "current_key uid = ascii ''cur'' @ decimal (sint uid)"

primrec current_songs :: "'s music_env \<Rightarrow> songs \<Rightarrow> songs \<Rightarrow> ('s, songs) music_m" where
  "current_songs E [] infomap w = Some (infomap, w)"
| "current_songs E (e # es) infomap w =
     (case me_mem_get E (current_key (fst e)) (mw_store w) of
        None \<Rightarrow> current_songs E es infomap w
      | Some v \<Rightarrow> do {
          s \<leftarrow> MusicInfo_JsonSeralize (me_unset E) v (song_at w (snd e));
          current_songs E es (map_set (fst e) (snd e) infomap) (set_song (snd e) (\<lambda>_. s) w)
        })"

definition BatchGetCurrentSong :: "'s music_env \<Rightarrow> songs \<Rightarrow> 's music_world \<Rightarrow> 's music_world option" where
  "BatchGetCurrentSong E users w =
     map_option (\<lambda>(infomap, w). GetMusicInfo infomap w) (current_songs E users [] w)"

text \<open>The loop from \<^verbatim>\<open>end()\<close> down to \<^verbatim>\<open>begin()\<close> first reads the entry at \<^verbatim>\<open>end()\<close>, so it is undefined
  unless there is no user at all.  \<open>near\<close> is the category \<^verbatim>\<open>MUSIC_NEAR\<close>.\<close>

definition GetNearUserAndMusic ::
  "'s music_env \<Rightarrow> int64 \<Rightarrow> bool \<Rightarrow> real64 \<Rightarrow> real64 \<Rightarrow> int32 \<Rightarrow> int32 \<Rightarrow> ('s, tree list) music_m" where
  "GetNearUserAndMusic E uid near latitude longitude start n w =
     (let rows = (if \<not> near then me_friends E (to_int64 start) (to_int64 n) (mw_store w)
                  else if real_eq latitude 0 \<or> real_eq longitude 0 then me_by_login E (mw_store w)
                  else me_by_location E (mw_store w));
          (users, w) = near_users rows w in
      do {
        w \<leftarrow> BatchGetCurrentSong E users w;
        if users \<noteq> [] then None
        else do {
          (collected, w) \<leftarrow> GetCollectList E uid w;
          Some ([], w)
        }
      })"

definition OnNearMusic :: "'s music_env \<Rightarrow> int32 \<Rightarrow> dict \<Rightarrow> 's music_world \<Rightarrow> 's music_world option" where
  "OnNearMusic E socket m w =
     (let p = recv_NearMusic (me_unset E) m in
      checked E (np_error p) socket (\<lambda>w. do {
        (list, w) \<leftarrow> GetNearUserAndMusic E (lp_uid (np_login p)) True (np_latitude p) (np_longitude p) 0 0 w;
        Some (music_send_message E socket (send_NearMusic list) w)
      }) w)"

definition OnSocNearUser :: "'s music_env \<Rightarrow> int32 \<Rightarrow> dict \<Rightarrow> 's music_world \<Rightarrow> 's music_world option" where
  "OnSocNearUser E socket m w =
     (let p = recv_NearUser (me_unset E) m in
      checked E (np_error p) socket (\<lambda>w. do {
        (list, w) \<leftarrow> GetNearUserAndMusic E (lp_uid (np_login p)) True (np_latitude p) (np_longitude p) 0 0 w;
        Some (music_send_message E socket (send_NearMusic list) w)
      }) w)"

definition OnSocMyMusicFriend :: "'s music_env \<Rightarrow> int32 \<Rightarrow> dict \<Rightarrow> 's music_world \<Rightarrow> 's music_world option" where
  "OnSocMyMusicFriend E socket m w =
     (let p = recv_MyMusicFriend (me_unset E) m; h = lp_head (fp_login p) in
      checked E (fp_error p) socket (\<lambda>w. do {
        (list, w) \<leftarrow> GetNearUserAndMusic E (lp_uid (fp_login p)) False (hp_latitude h) (hp_longitude h)
           (to_int (fp_from p)) (to_int (fp_count p)) w;
        Some (music_send_message E socket (send_MyMusicFriend list) w)
      }) w)"

section \<open>Dimensions and the current song\<close>

definition OnDimensionInfo :: "'s music_env \<Rightarrow> int32 \<Rightarrow> dict \<Rightarrow> 's music_world \<Rightarrow> 's music_world option" where
  "OnDimensionInfo E socket m w =
     (let p = recv_LoginHeadPacket (me_unset E) m in
      checked E (lp_error p) socket (\<lambda>w. Some (music_send_message E socket (GetDimensionInfo w) w)) w)"

text \<open>The guards of \<^verbatim>\<open>robot/intertface/robot_interface.cc\<close>.\<close>

definition NoticeUserCurrentSong ::
  "int32 \<Rightarrow> int64 \<Rightarrow> int64 \<Rightarrow> int64 \<Rightarrow> int32 \<Rightarrow> byte list \<Rightarrow> 's music_world \<Rightarrow> 's music_world" where
  "NoticeUserCurrentSong socket platform_id uid songid type_id mode w =
     (if socket \<le>s 0 \<or> 10000000 \<le>s uid then w
      else music_emit (Notice socket platform_id uid songid type_id mode) w)"

definition OnRecordMusic :: "'s music_env \<Rightarrow> int32 \<Rightarrow> dict \<Rightarrow> 's music_world \<Rightarrow> 's music_world option" where
  "OnRecordMusic E socket m w =
     (let p = recv_RecordMusic (me_unset E) m; uid = lp_uid (rp_login p) in
      checked E (rp_error p) socket (\<lambda>w.
        let s = MusicInfo_Data\<lparr>s_id := rp_current_song_id p, s_title := me_base64 E (rp_name p),
              s_artist := me_base64 E (rp_singer p), s_class_name := rp_dimension_name p,
              s_class := to_int (rp_dimension_sub_id p)\<rparr>;
            json = MusicInfo_JsonDeserialize (me_g_fmt E) [] 0 s; (music, w) = new_song s w in
        do {
          w \<leftarrow> send_head E socket (set_status 1 []) w;
          let w = NoticeUserCurrentSong (mw_robot_socket w) 10000 uid (rp_current_song_id p)
                    (to_int (rp_dimension_sub_id p)) (c_string (rp_dimension_name p)) w;
          Some (if json = [] then w
                else music_emit (Behavior uid (rp_current_song_id p) (to_int (rp_dimension_sub_id p))
                       (c_string (rp_dimension_name p)))
                  (in_store (me_history E uid (rp_current_song_id p))
                    (in_store (me_mem_set E (ascii ''cur'' @ Int64ToString uid) json) w)))
        }) w)"

section \<open>The service\<close>

definition music_dispatch :: "'s music_env \<Rightarrow> int32 \<Rightarrow> dict \<Rightarrow> 's music_world \<Rightarrow> 's music_world option" where
  "music_dispatch E socket m w =
     (let type = hp_type (recv_HeadPacket (me_unset E) m) in
      if type = 4001 then OnCollectList E socket m w
      else if type = 4002 then OnDimensionList E socket m w
      else if type = 4003 then OnDimensionsList E socket m w
      else if type = 4004 then OnSetCollection E socket m w
      else if type = 4005 then OnDelCollection E socket m w
      else if type = 4006 then OnNearMusic E socket m w
      else if type = 4007 then OnSocNearUser E socket m w
      else if type = 4008 then OnHateList E socket m w
      else if type = 4009 then OnRecordMusic E socket m w
      else if type = 4010 then OnSocMyMusicFriend E socket m w
      else if type = 4011 then OnDimensionInfo E socket m w
      else Some w)"

definition OnMusicMessage :: "'s music_env \<Rightarrow> int32 \<Rightarrow> byte list \<Rightarrow> 's music_world \<Rightarrow> 's music_world option" where
  "OnMusicMessage E socket msg w =
     (case Deserialize (me_strtod E) msg of
        None \<Rightarrow> None
      | Some (None, _, _) \<Rightarrow> SendErrorMsg E STRUCT_ERROR socket w
      | Some (Some (DictionaryValue m), _, _) \<Rightarrow> music_dispatch E socket m w
      | Some (Some _, _, _) \<Rightarrow> None)"

definition Music_OnBroadcastConnect :: "int32 \<Rightarrow> 's music_world \<Rightarrow> 's music_world" where
  "Music_OnBroadcastConnect socket w = w\<lparr>mw_robot_socket := socket\<rparr>"

inductive music_step :: "'s music_env \<Rightarrow> 's music_world \<Rightarrow> 's music_world \<Rightarrow> bool" for E where
  message: "OnMusicMessage E socket msg w = Some w' \<Longrightarrow> music_step E w w'"
| robot_server: "music_step E w (Music_OnBroadcastConnect socket w)"
| others: "music_step E w (w\<lparr>mw_store := s\<rparr>)"

inductive music_reachable :: "'s music_env \<Rightarrow> 's music_world \<Rightarrow> bool" for E where
  start: "Musiclogic_Init E s = Some w \<Longrightarrow> music_reachable E w"
| step: "music_reachable E w \<Longrightarrow> music_step E w w' \<Longrightarrow> music_reachable E w'"

inductive_cases music_stepE: "music_step E w w'"

end
