(* ===== verification/MusicLaws.thy ===== *)
theory MusicLaws
  imports MusicService
begin

text \<open>
  What the music service does with its lists of songs and of users: the cached lists stay empty,
  a song that was liked cannot be listed, and lists of users nearby are empty or undefined.  A
  part of the state that the small operations leave alone is left alone by the handlers: the
  locale \<open>song_frame\<close>, which \<open>list_frame\<close> extends by the tables of draws.
\<close>

section \<open>Without cached lists\<close>

definition no_lists :: "'s music_world \<Rightarrow> bool" where
  "no_lists w \<longleftrightarrow> mw_collect w = [] \<and> mw_hate w = []"

lemma no_lists_new: "no_lists w \<Longrightarrow> new_song d w = (h, v) \<Longrightarrow> no_lists v"
  by (auto simp: no_lists_def new_song_def obj_new_def)

lemma Del_no_lists:
  "no_lists w \<Longrightarrow> DelCollectSong E uid songid w = in_store (me_hdel E (collect_key uid) (Int64ToString songid)) w"
  by (simp add: DelCollectSong_def Let_def no_lists_def in_store_def)

lemma Set_no_lists:
  assumes "no_lists w"
  shows "\<exists>j. SetCollectSong E uid music w =
      in_store (me_hset E (collect_key uid) (Int64ToString (s_id (song_at w music))) j) w"
    and "\<exists>j. SetHatList E uid music w =
      in_store (me_hset E (hate_key uid) (Int64ToString (s_id (song_at w music))) j) w"
  using assms by (auto simp: SetCollectSong_def SetHatList_def SetMusicPreference_def Let_def in_store_def no_lists_def)

text \<open>Without a cached list Redis is asked; with an entry there is no dictionary to read it from.\<close>

lemma read_songs_undefined: "strs \<noteq> [] \<Longrightarrow> read_songs u strs list w = None"
  by (cases strs) (simp_all add: MusicInfo_JsonSeralize_def JsonDeserialize_def)

lemma GetCollectList_result:
  assumes "no_lists w"
  shows "GetCollectList E uid w = (if me_hvals E (collect_key uid) (mw_store w) = [] then Some ([], w) else None)"
  using assms by (simp add: GetCollectList_def GetMusicListT_def no_lists_def read_songs_undefined GetMusicInfo_def)

lemma near_users_Nil:
  "fst (fold (\<lambda>row (users, w). let (h, w) = new_song MusicInfo_Data w in
     (map_set (column_int row 0 0) h users, w)) rows (us, w)) = [] \<longleftrightarrow> rows = [] \<and> us = []"
proof (induction rows arbitrary: us w)
  case (Cons row rows)
  have "map_set k v m \<noteq> []" for k v and m :: songs by (cases m) (auto split: if_splits)
  with Cons show ?case by (simp split: prod.split)
qed simp

lemma near_result:
  assumes "no_lists w" "GetNearUserAndMusic E uid near la lo start n w = Some (list, w')"
  shows "list = [] \<and> w' = w"
proof -
  define rows where "rows = (if \<not> near then me_friends E (to_int64 start) (to_int64 n) (mw_store w)
      else if real_eq la 0 \<or> real_eq lo 0 then me_by_login E (mw_store w) else me_by_location E (mw_store w))"
  obtain users v where u: "near_users rows w = (users, v)" by fastforce
  have r: "users = []"
    using assms(2) u by (auto simp: GetNearUserAndMusic_def rows_def [symmetric] split: bind_splits if_splits)
  then have "rows = []" using near_users_Nil [of rows "[]" w] u by (simp add: near_users_def)
  then have "v = w" using u by (simp add: near_users_def)
  then show ?thesis using assms u r
    by (auto simp: GetNearUserAndMusic_def rows_def [symmetric] BatchGetCurrentSong_def GetMusicInfo_def
        GetCollectList_result split: bind_splits if_splits)
qed

lemma drawn_songs_state: "drawn_songs vec radoms list w = Some (list', w') \<Longrightarrow> w' = w"
  by (induction radoms arbitrary: list) (auto simp: Let_def split: if_splits)

section \<open>What the handlers leave alone\<close>

locale song_frame =
  fixes view :: "'s music_world \<Rightarrow> 'v"
  assumes view_song: "view (set_song h f w) = view w" and view_store: "view (in_store g w) = view w"
    and view_emit: "view (music_emit e w) = view w" and view_info: "view (w\<lparr>mw_info := i\<rparr>) = view w"
    and view_dimensions: "view (w\<lparr>mw_dimensions := ds\<rparr>) = view w"
    and view_new: "new_song d w = (h, w') \<Longrightarrow> view w' = view w"
begin

lemmas views = view_song view_store view_emit view_info view_dimensions

lemma view_send: "view (music_send_message E s d w) = view w"
  by (simp add: music_send_message_def views)

lemma view_fold: "(\<And>x w. view (f x w) = view w) \<Longrightarrow> view (fold f xs w) = view w"
  by (induction xs arbitrary: w) simp_all

lemma view_GetMusicInfo: "view (GetMusicInfo list w) = view w"
  unfolding GetMusicInfo_def by (rule view_fold) (auto simp: views split: option.split)

lemma view_send_head: "send_head E s d w = Some w' \<Longrightarrow> view w' = view w"
  by (auto simp: send_head_def view_send)

lemma view_liked: "liked_songs es list w = (list', w') \<Longrightarrow> view w' = view w"
  by (induction es arbitrary: list w) (auto simp: Let_def views)

lemma view_checked:
  assumes "checked E code s handler w = Some w'" "\<And>w'. handler w = Some w' \<Longrightarrow> view w' = view w"
  shows "view w' = view w"
  using assms by (auto simp: checked_def SendErrorMsg_def view_send_head split: if_splits)

lemma view_OnCollectList:
  assumes "no_lists w" "OnCollectList E s m w = Some w'"
  shows "view w' = view w"
  using assms(2) unfolding OnCollectList_def Let_def
  by (rule view_checked) (auto simp: view_send GetCollectList_result [OF assms(1)] split: bind_splits if_splits)

lemma view_Set:
  assumes "no_lists w"
  shows "view (SetCollectSong E uid music w) = view w" "view (SetHatList E uid music w) = view w"
  using Set_no_lists [OF assms, of E uid music] by (auto simp: views)

lemma view_OnSetCollection:
  assumes "no_lists w" "OnSetCollection E s m w = Some w'"
  shows "view w' = view w"
  using assms(2) unfolding OnSetCollection_def Let_def
  by (rule view_checked)
     (auto dest!: view_send_head simp: view_Set no_lists_new [OF assms(1)] view_new split: prod.splits)

lemma view_OnHateList:
  assumes "no_lists w" "OnHateList E s m w = Some w'"
  shows "view w' = view w"
  using assms(2) unfolding OnHateList_def Let_def
  by (rule view_checked)
     (auto dest!: view_send_head simp: view_Set no_lists_new [OF assms(1)] view_new split: prod.splits)

lemma view_OnDelCollection:
  assumes "no_lists w" "OnDelCollection E s m w = Some w'"
  shows "view w' = view w"
  using assms(2) unfolding OnDelCollection_def Let_def
  by (rule view_checked) (auto dest!: view_send_head simp: Del_no_lists [OF assms(1)] views)

lemma view_near_handlers:
  assumes "no_lists w"
  shows "OnNearMusic E s m w = Some w' \<Longrightarrow> view w' = view w"
    and "OnSocNearUser E s m w = Some w' \<Longrightarrow> view w' = view w"
    and "OnSocMyMusicFriend E s m w = Some w' \<Longrightarrow> view w' = view w"
  unfolding OnNearMusic_def OnSocNearUser_def OnSocMyMusicFriend_def Let_def
  by (erule view_checked, auto simp: view_send dest!: near_result [OF assms] split: bind_splits)+

lemma view_OnDimensionInfo: "OnDimensionInfo E s m w = Some w' \<Longrightarrow> view w' = view w"
  unfolding OnDimensionInfo_def Let_def by (erule view_checked) (auto simp: view_send)

lemma view_OnRecordMusic: "OnRecordMusic E s m w = Some w' \<Longrightarrow> view w' = view w"
  unfolding OnRecordMusic_def Let_def
  by (erule view_checked)
     (auto simp: views NoticeUserCurrentSong_def dest!: view_send_head view_new split: prod.splits bind_splits if_splits)

text \<open>All requests but those for songs of a dimension.\<close>

lemma view_dispatch:
  assumes "no_lists w" "music_dispatch E s m w = Some w'"
  shows "view w' = view w \<or> OnDimensionList E s m w = Some w' \<or> OnDimensionsList E s m w = Some w'"
  using assms(2) view_OnCollectList [OF assms(1)]
    view_OnSetCollection [OF assms(1)] view_OnHateList [OF assms(1)]
    view_OnDelCollection [OF assms(1)] view_near_handlers [OF assms(1)]
    view_OnDimensionInfo view_OnRecordMusic
  by (auto simp: music_dispatch_def Let_def split: if_splits)

lemma view_message:
  assumes "no_lists w" "OnMusicMessage E s msg w = Some w'"
  shows "view w' = view w \<or> (\<exists>m. OnDimensionList E s m w = Some w' \<or> OnDimensionsList E s m w = Some w')"
  using assms(2) view_dispatch [OF assms(1)]
  by (auto simp: OnMusicMessage_def SendErrorMsg_def view_send_head split: option.splits prod.splits tree.splits)
     blast

lemma view_dimension_songs: "dimension_songs d strs mv w = (mv', w') \<Longrightarrow> view w' = view w"
  by (induction strs arbitrary: mv w) (auto simp: Let_def view_new split: prod.splits)

lemma view_loading:
  "view (CreateDimensions E i t n w) = view w" "view (GetAvailableMusicInfo E w) = view w"
proof -
  show "view (CreateDimensions E i t n w) = view w" by (simp add: CreateDimensions_def Let_def views)
  show "view (GetAvailableMusicInfo E w) = view w"
    unfolding GetAvailableMusicInfo_def
    by (rule view_fold) (auto simp: Let_def views view_new split: prod.splits)
qed

end

locale list_frame = song_frame +
  assumes view_cache: "view (update_cache name f w) = view w"
begin

lemma view_GetRadomin: "GetRadomin E name i num w = Some (rs, w') \<Longrightarrow> view w' = view w"
  by (auto simp: GetRadomin_def Let_def view_cache split: if_splits option.splits bind_splits)

lemma view_GetDimensionList: "GetDimensionList E name i list num w = Some (list', w') \<Longrightarrow> view w' = view w"
  by (auto simp: GetDimensionList_def view_GetMusicInfo dest!: view_GetRadomin drawn_songs_state
      split: bind_splits)

lemma view_part: "dimension_part E d num list w = Some (list', w') \<Longrightarrow> view w' = view w"
  by (auto simp: dimension_part_def view_GetDimensionList split: if_splits)

lemma view_dimension_handlers:
  "OnDimensionList E s m w = Some w' \<Longrightarrow> view w' = view w"
  "OnDimensionsList E s m w = Some w' \<Longrightarrow> view w' = view w"
  unfolding OnDimensionList_def OnDimensionsList_def Let_def
  by (erule view_checked, auto simp: view_send dest!: view_part view_GetDimensionList split: bind_splits)+

lemma view_any_message: "no_lists w \<Longrightarrow> OnMusicMessage E s msg w = Some w' \<Longrightarrow> view w' = view w"
  using view_message view_dimension_handlers by blast

lemma view_Init:
  assumes "Musiclogic_Init E s = Some w"
  shows "view w = view (no_songs s)"
proof -
  have a: "view (FetchDimensionMusic E v) = view v" for v
    unfolding FetchDimensionMusic_def FectchDimensionMusic_def
    by (rule view_fold) (auto simp: Let_def view_cache view_dimension_songs split: prod.splits)
  have b: "CreateRadomin1 E n v = Some v' \<Longrightarrow> view v' = view v" for n v v'
    by (auto simp: CreateRadomin1_def view_cache split: option.splits)
  show ?thesis
    using assms by (auto simp: Musiclogic_Init_def CreateRadomin_def WholeManager_Init_def view_loading a
        dest!: b split: bind_splits)
qed

end

text \<open>The lists of collected and hated songs are such a part of the state.\<close>

definition song_lists :: "'s music_world \<Rightarrow> (int64, songs) stdmap \<times> (int64, songs) stdmap" where
  "song_lists w = (mw_collect w, mw_hate w)"

interpretation lists: list_frame song_lists
  by unfold_locales (auto simp: song_lists_def set_song_def obj_set_def in_store_def music_emit_def
      update_cache_def new_song_def obj_new_def)

lemma no_lists_iff: "no_lists w \<longleftrightarrow> song_lists w = ([], [])"
  by (simp add: no_lists_def song_lists_def)

lemma lists_after_step: "no_lists w \<Longrightarrow> music_step E w w' \<Longrightarrow> no_lists w'"
  by (erule music_stepE)
     (use lists.view_any_message [of w] in \<open>auto simp: no_lists_iff\<close>,
      auto simp: song_lists_def Music_OnBroadcastConnect_def)

lemma reachable_no_lists: "music_reachable E w \<Longrightarrow> no_lists w"
proof (induction rule: music_reachable.induct)
  case (start s w)
  then show ?case using lists.view_Init [OF start] by (simp add: no_lists_iff song_lists_def no_songs_def)
qed (rule lists_after_step)

section \<open>Likes\<close>

text \<open>C12: In every state the music service reaches, the list of liked songs is never found in the
  cache: a request for it is answered with an empty list when Redis knows no liked song of the
  user, and is undefined otherwise, because a dictionary is read through a null pointer. A
  request to like a song puts just that song into the hash of the user, so if Redis keeps what
  is set, the next request for the list of this user is undefined. The requests carry their
  arguments (their packets report no error).\<close>

theorem liked_songs_cannot_be_listed:
  assumes "music_reachable E w" and "cp_error (recv_Collect (me_unset E) l) = 0"
    and "\<And>h k j s. j \<in> set (me_hvals E h (me_hset E h k j s))"
    and "sc_error (recv_SetCollect (me_unset E) m) = 0" and "OnSetCollection E s m w = Some v"
    and "lp_uid (sc_login (recv_SetCollect (me_unset E) m)) = lp_uid (cp_login (recv_Collect (me_unset E) l))"
  shows "OnCollectList E t l w =
      (if me_hvals E (collect_key (lp_uid (cp_login (recv_Collect (me_unset E) l)))) (mw_store w) = []
       then Some (music_send_message E t (send_MusicList []) w) else None) \<and>
    (\<exists>j. mw_store v = me_hset E (collect_key (lp_uid (cp_login (recv_Collect (me_unset E) l))))
       (Int64ToString (sc_songid (recv_SetCollect (me_unset E) m))) j (mw_store w)) \<and>
    OnCollectList E t l v = None"
proof -
  let ?uid = "lp_uid (cp_login (recv_Collect (me_unset E) l))"
  let ?song = "sc_songid (recv_SetCollect (me_unset E) m)"
  have n: "no_lists w" using reachable_no_lists [OF assms(1)] .
  have list: "OnCollectList E t l u = (if me_hvals E (collect_key ?uid) (mw_store u) = []
      then Some (music_send_message E t (send_MusicList []) u) else None)" if "no_lists u" for u
    using assms(2) that by (simp add: OnCollectList_def Let_def checked_def GetCollectList_result)
  have v: "no_lists v" using lists.view_OnSetCollection [OF n assms(5)] n by (simp add: no_lists_iff)
  have "\<exists>j. mw_store v = me_hset E (collect_key ?uid) (Int64ToString ?song) j (mw_store w)"
  proof -
    obtain h u where u: "new_song (MusicInfo_Data \<lparr>s_id := ?song,
         s_class := to_int (sc_dimension_id (recv_SetCollect (me_unset E) m)),
         s_class_name := sc_dimension_alais (recv_SetCollect (me_unset E) m)\<rparr>) w = (h, u)" by fastforce
    have "s_id (song_at u h) = ?song"
      using music_songs.new_is_allocated [OF u [unfolded new_song_def]] by (simp add: song_at_def)
    moreover have "mw_store u = mw_store w" using u by (auto simp: new_song_def obj_new_def)
    ultimately show ?thesis using assms(4,5,6) Set_no_lists(1) [OF no_lists_new [OF n u], of E ?uid h] u
      by (auto simp: OnSetCollection_def Let_def checked_def send_head_def music_send_message_def
          music_emit_def in_store_def)
  qed
  then obtain j where j: "mw_store v = me_hset E (collect_key ?uid) (Int64ToString ?song) j (mw_store w)" by blast
  then have "me_hvals E (collect_key ?uid) (mw_store v) \<noteq> []"
    using assms(3) [of j "collect_key ?uid" "Int64ToString ?song" "mw_store w"] by auto
  then show ?thesis using list [OF n] list [OF v] j by auto
qed

text \<open>A list of users nearby or of friends that is answered at all is empty.\<close>

lemma nobody_is_nearby:
  assumes "music_reachable E w" "np_error (recv_NearMusic (me_unset E) m) = 0"
    and "OnNearMusic E s m w = Some w'"
  shows "w' = music_send_message E s (send_NearMusic []) w"
  using assms(2,3)
  by (auto simp: OnNearMusic_def Let_def checked_def dest!: near_result [OF reachable_no_lists [OF assms(1)]]
      split: bind_splits)

section \<open>Refused requests\<close>

lemma token_is_a_number:
  assumes "dict_find m (wide ''token'') = Some (BigIntegerValue i)"
  shows "\<not> has_string m ''token''"
proof -
  have "segments (wide ''token'') = [wide ''token'']" by code_simp
  then show ?thesis using assms by (simp add: has_string_def GetString_def Dict_Get_def GetWithoutPathExpansion_def)
qed

lemma lack_nonzero: "e \<noteq> 0 \<Longrightarrow> c \<noteq> 0 \<Longrightarrow> lack r c e \<noteq> 0"
  by (simp add: lack_def)

lemma login_without_token:
  assumes "\<not> has_string m ''token''"
  shows "lp_error (recv_LoginHeadPacket u m) = TOKEN_LACK"
  using assms by (simp add: recv_LoginHeadPacket_def lack_def Let_def split: prod.split)

lemma fold_lack: "(e :: int32) \<noteq> 0 \<Longrightarrow> c \<noteq> 0 \<Longrightarrow> fold (\<lambda>k. lack (f k) c) ks e \<noteq> 0"
  by (induction ks arbitrary: e) (simp_all add: lack_nonzero)

lemma errors_without_token:
  assumes "\<not> has_string m ''token''"
  shows "cp_error (recv_Collect u m) = TOKEN_LACK" "np_error (recv_NearMusic u m) = TOKEN_LACK"
    "fp_error (recv_MyMusicFriend u m) = TOKEN_LACK" "dp_error (recv_Dimension u m) \<noteq> 0"
    "ds_error (recv_Dimensions u m) \<noteq> 0" "sc_error (recv_SetCollect u m) \<noteq> 0"
    "sp_error (recv_DelCollect u m) \<noteq> 0" "rp_error (recv_RecordMusic u m) \<noteq> 0"
  using login_without_token [OF assms, of u] fold_lack [of TOKEN_LACK MUSIC_TYPE_LACK "has_big m"]
  by (simp_all add: recv_Collect_def recv_NearMusic_def recv_MyMusicFriend_def recv_Dimension_def
      recv_Dimensions_def recv_SetCollect_def recv_DelCollect_def recv_RecordMusic_def Let_def lack_nonzero
      split: prod.split)


lemma refused_dispatch:
  assumes "\<not> has_string m ''token''" "hp_type (recv_HeadPacket (me_unset E) m) = of_nat n" "n \<in> {4001..4011}"
  shows "\<exists>code. music_dispatch E s m w = SendErrorMsg E code s w \<and> code \<noteq> 0 \<and>
    (n \<in> {4001, 4006, 4007, 4010, 4011} \<longrightarrow> code = TOKEN_LACK)"
proof -
  note errors = errors_without_token [OF assms(1), of "me_unset E"] login_without_token [OF assms(1), of "me_unset E"]
  have "4001 \<le> n" "n \<le> 4011" using assms(3) by simp_all
  then consider "n = 4001" | "n = 4002" | "n = 4003" | "n = 4004" | "n = 4005" | "n = 4006" | "n = 4007"
    | "n = 4008" | "n = 4009" | "n = 4010" | "n = 4011" by (atomize_elim, presburger)
  then show ?thesis
    using assms(2) errors
    by cases (simp_all add: music_dispatch_def OnCollectList_def OnDimensionList_def OnDimensionsList_def
      OnSetCollection_def OnDelCollection_def OnNearMusic_def OnSocNearUser_def OnHateList_def
      OnRecordMusic_def OnSocMyMusicFriend_def OnDimensionInfo_def checked_def Let_def, (blast)+)
qed

text \<open>A token of digits is a number to the parser of query strings, not a string, so that a
  request whose token consists of digits is refused: whatever its type, it does nothing but to
  answer an error, and for the requests that need nothing but a login this is TOKEN_LACK.\<close>

theorem numeric_tokens_are_refused:
  assumes "dict_sorted m" "\<forall>e\<in>set m. entry_ok e" "empties m \<le> 98"
    and "dict_find m (wide ''token'') = Some (BigIntegerValue i)" "0 \<le> sint i"
    and "dict_find m (wide ''type'') = Some (IntegerValue (of_nat n))" "n \<in> {4001..4011}"
  shows "\<exists>code. OnMusicMessage E s (HttpSerialize g (DictionaryValue m) [] @ [x]) w = SendErrorMsg E code s w \<and>
    code \<noteq> 0 \<and> (n \<in> {4001, 4006, 4007, 4010, 4011} \<longrightarrow> code = TOKEN_LACK)"
proof -
  let ?m = "map (\<lambda>(k, v). (k, read_back v)) m"
  obtain h where d: "Deserialize (me_strtod E) (HttpSerialize g (DictionaryValue m) [] @ [x]) =
      Some (Some (DictionaryValue ?m), HttpSerialize g (DictionaryValue m) [] @ [0], h)"
    using query_string_read [OF assms(1-3)] by blast
  have r: "dict_find ?m k = map_option read_back (dict_find m k)" for k
    by (simp add: dict_find_def map_of_map)
  have "dict_find ?m (wide ''token'') = Some (BigIntegerValue i)" using r assms(4,5) by simp
  then have t: "\<not> has_string ?m ''token''" by (rule token_is_a_number)
  have "dict_find ?m (wide ''type'') = Some (BigIntegerValue (scast (of_nat n :: int32)))" using r assms(6) by simp
  moreover have "segments (wide ''type'') = [wide ''type'']" by code_simp
  ultimately have "GetBigInteger ?m (wide ''type'') = Some (to_int64 (of_nat n))"
    by (simp add: GetBigInteger_def Dict_Get_def GetWithoutPathExpansion_def to_int64_def)
  then have "hp_type (recv_HeadPacket (me_unset E) ?m) = of_nat n"
    by (simp add: recv_HeadPacket_def GETBIGINTTOINT_def)
  from refused_dispatch [OF t this assms(7)] show ?thesis by (simp add: OnMusicMessage_def d)
qed

section \<open>Instances\<close>

text \<open>Redis as a list of hash, key and value, and nothing else known.\<close>

definition sample_music_env :: "(byte list \<times> byte list \<times> byte list) list music_env" where
  "sample_music_env =
     \<lparr>me_available = (\<lambda>_. []), me_all_dimensions = (\<lambda>_. []), me_dimensions = (\<lambda>_ _. []),
      me_friends = (\<lambda>_ _ _. []), me_by_login = (\<lambda>_. []), me_by_location = (\<lambda>_. []),
      me_hset = (\<lambda>h k j s. (h, k, j) # filter (\<lambda>(h', k', _). h' \<noteq> h \<or> k' \<noteq> k) s),
      me_hdel = (\<lambda>h k. filter (\<lambda>(h', k', _). h' \<noteq> h \<or> k' \<noteq> k)),
      me_hvals = (\<lambda>h s. map (\<lambda>(_, _, j). j) (filter (\<lambda>(h', _, _). h' = h) s)),
      me_mem_set = (\<lambda>_ _ s. s), me_mem_get = (\<lambda>_ _. None), me_history = (\<lambda>_ _ s. s),
      me_base64 = id, me_rand = (\<lambda>_ _ _ _. 0), me_strtod = (\<lambda>_. (0, 0, False)), me_g_fmt = (\<lambda>_. [0x30]),
      me_unset = 0, me_behind = -1, me_memory = 1000, me_released = Some\<rparr>"

definition sample_like :: dict where
  "sample_like = [(wide ''dimension'', StringValue (ascii ''chl'')), (wide ''songid'', BigIntegerValue 7),
     (wide ''token'', StringValue (ascii ''a'')), (wide ''type'', BigIntegerValue 4004),
     (wide ''typeid'', BigIntegerValue 1), (wide ''uid'', BigIntegerValue 5)]"

definition music_start :: "(byte list \<times> byte list \<times> byte list) list music_world" where
  "music_start = FetchDimensionMusic sample_music_env
     (GetAvailableMusicInfo sample_music_env (WholeManager_Init sample_music_env (no_songs [])))"

lemma music_start_reachable: "music_reachable sample_music_env music_start"
proof -
  have "Musiclogic_Init sample_music_env [] = Some music_start"
    by (simp add: Musiclogic_Init_def music_start_def FetchDimensionMusic_def GetAllDimension_def
        GetAvailableMusicInfo_def WholeManager_Init_def CreateDimensions_def GetDimensions_def Let_def
        CreateRadomin_def CreateRadomin1_def sample_music_env_def no_songs_def cache_of_def update_cache_def ascii_def)
  then show ?thesis by (rule music_reachable.start)
qed

theorem liked_songs_cannot_be_listed_witness:
  "\<exists>v. OnSetCollection sample_music_env 3 sample_like music_start = Some v \<and>
     OnCollectList sample_music_env 4 sample_like v = None"
proof -
  have e: "sc_error (recv_SetCollect (me_unset sample_music_env) sample_like) = 0"
    "cp_error (recv_Collect (me_unset sample_music_env) sample_like) = 0"
    "lp_uid (sc_login (recv_SetCollect (me_unset sample_music_env) sample_like)) =
     lp_uid (cp_login (recv_Collect (me_unset sample_music_env) sample_like))"
    by code_simp+
  have "\<exists>v. OnSetCollection sample_music_env 3 sample_like music_start = Some v"
    using e(1) by (simp add: OnSetCollection_def Let_def checked_def send_head_def split: prod.split)
      (simp add: sample_music_env_def)
  moreover have "j \<in> set (me_hvals sample_music_env h (me_hset sample_music_env h k j s))" for h k j s
    by (simp add: sample_music_env_def)
  ultimately show ?thesis
    using liked_songs_cannot_be_listed [OF music_start_reachable e(2) _ e(1) _ e(3)] by blast
qed

definition numeric_query :: dict where
  "numeric_query = [(wide ''token'', BigIntegerValue 123), (wide ''type'', IntegerValue 4001),
     (wide ''uid'', BigIntegerValue 5)]"

theorem numeric_tokens_are_refused_witness:
  "OnMusicMessage sample_music_env 3 (ascii ''token=123&type=4001&uid=5;'') music_start =
     SendErrorMsg sample_music_env TOKEN_LACK 3 music_start"
proof -
  have "dict_sorted numeric_query" "\<forall>e\<in>set numeric_query. entry_ok e" "empties numeric_query \<le> 98"
    "dict_find numeric_query (wide ''token'') = Some (BigIntegerValue 123)"
    "dict_find numeric_query (wide ''type'') = Some (IntegerValue (of_nat 4001))"
    by code_simp+
  from numeric_tokens_are_refused [OF this(1-4) _ this(5), of sample_music_env 3 "\<lambda>_. []" "0x3B" music_start]
  have "OnMusicMessage sample_music_env 3 (HttpSerialize (\<lambda>_. []) (DictionaryValue numeric_query) [] @ [0x3B]) music_start =
      SendErrorMsg sample_music_env TOKEN_LACK 3 music_start" by auto
  moreover have "HttpSerialize (\<lambda>_. []) (DictionaryValue numeric_query) [] @ [0x3B] =
      ascii ''token=123&type=4001&uid=5;''" by code_simp
  ultimately show ?thesis by simp
qed

end
