(* ===== verification/MusicDimensions.thy ===== *)
theory MusicDimensions
  imports MusicLaws
begin

text \<open>
  The songs of a dimension: in every state the service reaches, each known dimension has a table of
  draws below the number of its songs, so that a request is answered with songs of that dimension;
  the one draw too many is read behind the array of draws.
\<close>

section \<open>Tables of draws\<close>

definition rand_law :: "'s music_env \<Rightarrow> bool" where
  "rand_law E \<longleftrightarrow> (\<forall>name i k r. me_rand E name i k r < 2 ^ 31)"

definition table_ok :: "radom_v2 \<Rightarrow> bool" where
  "table_ok t \<longleftrightarrow> length (rate_table t) = num_of t \<and> index_of t \<le> num_of t \<and> num_of t < 2 ^ 24 \<and>
     (\<forall>x\<in>set (rate_table t). 0 \<le> x \<and> x < int (num_of t))"

lemma SetRateTable_ok:
  assumes "\<And>k. rand (resets t) k < 2 ^ 31" "num_of t < 2 ^ 24"
  shows "\<exists>t'. SetRateTable rand 0 t = Some t' \<and> table_ok t' \<and> num_of t' = num_of t \<and> index_of t' = 0"
proof -
  obtain r where r: "Reset_table (rand (resets t)) (num_of t) = Some r" "length r = num_of t"
    "mset r = mset (map int [0..<num_of t])" using reset_permutation [of "rand (resets t)", OF assms] by blast
  from r(3) have "set r = int ` {0..<num_of t}" by (metis set_map set_mset_mset set_upt)
  with r assms(2) show ?thesis by (simp add: SetRateTable_def table_ok_def)
qed

lemma MigRadomInV2_ok:
  "(\<And>i k. rand i k < 2 ^ 31) \<Longrightarrow> n < 2 ^ 24 \<Longrightarrow> \<exists>t. MigRadomInV2 rand n = Some t \<and> table_ok t \<and> num_of t = n"
  using SetRateTable_ok [of rand "\<lparr>rate_table = [], num_of = n, index_of = 0, resets = 0\<rparr>"]
  by (auto simp: MigRadomInV2_def)

lemma GetPrize_ok:
  assumes "\<And>i k. rand i k < 2 ^ 31"
  shows "table_ok t \<Longrightarrow> 0 < num_of t \<Longrightarrow> \<exists>xs t'. GetPrize rand k t = Some (xs, t') \<and> length xs = k \<and>
    (\<forall>x\<in>set xs. 0 \<le> x \<and> x < int (num_of t)) \<and> table_ok t' \<and> num_of t' = num_of t"
proof (induction k arbitrary: t)
  case (Suc k)
  obtain u where u: "(if index_of t < num_of t then Some t else SetRateTable rand 0 t) = Some u"
    "table_ok u" "num_of u = num_of t" "index_of u < num_of t"
  proof (cases "index_of t < num_of t")
    case False
    have "num_of t < 2 ^ 24" using Suc.prems(1) by (simp add: table_ok_def)
    then show ?thesis using False SetRateTable_ok [of rand t, OF assms] Suc.prems(2) that by auto
  qed (use Suc.prems(1) in simp)
  let ?u = "u\<lparr>index_of := index_of u + 1\<rparr>"
  have "table_ok ?u" "0 < num_of ?u" using u Suc.prems(2) by (auto simp: table_ok_def)
  from Suc.IH [OF this] obtain xs t' where x: "GetPrize rand k ?u = Some (xs, t')" "length xs = k"
    "\<forall>x\<in>set xs. 0 \<le> x \<and> x < int (num_of t)" "table_ok t'" "num_of t' = num_of t" using u(3) by auto
  have "rate_table u ! index_of u \<in> set (rate_table u)" using u(2-4) by (simp add: table_ok_def)
  then have "0 \<le> rate_table u ! index_of u \<and> rate_table u ! index_of u < int (num_of t)"
    using u(2,3) by (auto simp: table_ok_def)
  with u(1) x show ?case by simp
qed simp

section \<open>The caches of dimensions\<close>

definition cache_ok :: "dimension_cache \<Rightarrow> bool" where
  "cache_ok c \<longleftrightarrow> (\<forall>i t. map_find (dc_radomin c) i = Some t \<longrightarrow> table_ok t) \<and>
     (\<forall>i vec. map_find (dc_vec c) i = Some vec \<and> vec \<noteq> [] \<longrightarrow>
        (\<exists>t. map_find (dc_radomin c) (to_int i) = Some t \<and> 0 < num_of t \<and> num_of t \<le> length vec))"

definition caches :: "'s music_world \<Rightarrow> dimension_cache \<times> dimension_cache \<times> dimension_cache" where
  "caches w = (mw_channel w, mw_mood w, mw_scene w)"

interpretation caches: song_frame caches
  by unfold_locales (auto simp: caches_def set_song_def obj_set_def in_store_def music_emit_def
      new_song_def obj_new_def)

lemma cache_of_caches: "caches w' = caches w \<Longrightarrow> cache_of name w' = cache_of name w"
  by (simp add: caches_def cache_of_def)

definition caches_ok :: "'s music_world \<Rightarrow> bool" where
  "caches_ok w \<longleftrightarrow> (\<forall>name c. cache_of name w = Some c \<longrightarrow> cache_ok c)"

lemma caches_ok_same: "caches w' = caches w \<Longrightarrow> caches_ok w' = caches_ok w"
  using cache_of_caches [of w' w] by (simp add: caches_ok_def)

lemma cache_of_update:
  "cache_of name' (update_cache name f w) =
     (if name' = name then map_option f (cache_of name w) else cache_of name' w)"
proof -
  have "ascii ''chl'' \<noteq> ascii ''ms''" "ascii ''chl'' \<noteq> ascii ''mm''" "ascii ''ms'' \<noteq> ascii ''mm''" by code_simp+
  then show ?thesis by (auto simp: cache_of_def update_cache_def)
qed

text \<open>A draw keeps the size of its table.\<close>

lemma cache_ok_draw:
  assumes "cache_ok c" "map_find (dc_radomin c) i = Some t" "table_ok t'" "num_of t' = num_of t"
  shows "cache_ok (c\<lparr>dc_radomin := map_set i t' (dc_radomin c)\<rparr>)"
  using assms by (fastforce simp: cache_ok_def)

text \<open>What the draws of a dimension with songs are, and that they keep the caches.\<close>

lemma GetRadomin_result:
  assumes "rand_law E" "caches_ok w" "cache_of name w = Some c" "map_find (dc_radomin c) i = Some t"
    and "0 < num_of t" "0 \<le> sint num" "4 * nat (sint num) \<le> me_memory E"
  shows "\<exists>xs w'. GetRadomin E name i num w = Some (map of_int xs @ [me_behind E], w') \<and> length xs = nat (sint num) \<and>
    (\<forall>x\<in>set xs. 0 \<le> x \<and> x < int (num_of t)) \<and> caches_ok w' \<and> mw_songs w' = mw_songs w \<and>
    (\<exists>c'. cache_of name w' = Some c' \<and> dc_vec c' = dc_vec c)"
proof -
  have r: "\<And>j k. me_rand E name (to_int64 i) j k < 2 ^ 31" using assms(1) by (simp add: rand_law_def)
  have "table_ok t" using assms(2-4) by (auto simp: caches_ok_def cache_ok_def)
  from GetPrize_ok [where rand = "me_rand E name (to_int64 i)" and k = "nat (sint num)", OF r this assms(5)] obtain xs t' where
    x: "GetPrize (me_rand E name (to_int64 i)) (nat (sint num)) t = Some (xs, t')" "length xs = nat (sint num)"
      "\<forall>x\<in>set xs. 0 \<le> x \<and> x < int (num_of t)" "table_ok t'" "num_of t' = num_of t" by blast
  let ?w = "update_cache name (\<lambda>c. c\<lparr>dc_radomin := map_set i t' (dc_radomin c)\<rparr>) w"
  have "caches_ok ?w"
    using assms(2,3) cache_ok_draw [OF _ assms(4) x(4,5)] by (auto simp: caches_ok_def cache_of_update)
  moreover have "GetRadomin E name i num w = Some (map of_int xs @ [me_behind E], ?w)"
    using x(1) assms(3-7) by (simp add: GetRadomin_def word_sless_alt)
  moreover have "mw_songs ?w = mw_songs w" by (simp add: update_cache_def)
  ultimately show ?thesis using x(2,3) assms(3) by (auto simp: cache_of_update)
qed

lemma GetRadomin_keeps:
  assumes "rand_law E" "caches_ok w" "GetRadomin E name i num w = Some (rs, w')"
  shows "caches_ok w'"
proof (cases "cache_of name w")
  case None
  with assms(2,3) show ?thesis by (auto simp: GetRadomin_def split: if_splits)
next
  case (Some c)
  show ?thesis
  proof (cases "map_find (dc_radomin c) i")
    case None
    with Some assms(2,3) show ?thesis by (auto simp: GetRadomin_def split: if_splits)
  next
    case t: (Some t)
    have num: "0 \<le> sint num" "4 * nat (sint num) \<le> me_memory E" "num_of t \<noteq> 0 \<or> num = 0"
      using assms(3) Some t by (auto simp: GetRadomin_def word_sless_alt split: if_splits)
    show ?thesis
    proof (cases "num_of t = 0")
      case False
      then show ?thesis using GetRadomin_result [OF assms(1,2) Some t _ num(1,2)] assms(3) by auto
    next
      case True
      then have "w' = update_cache name (\<lambda>c. c\<lparr>dc_radomin := map_set i t (dc_radomin c)\<rparr>) w"
        using num assms(3) Some t by (auto simp: GetRadomin_def)
      moreover have "cache_ok c" using assms(2) Some by (simp add: caches_ok_def)
      then have "cache_ok (c\<lparr>dc_radomin := map_set i t (dc_radomin c)\<rparr>)"
        using cache_ok_draw [OF _ t, of t] t by (simp add: cache_ok_def)
      ultimately show ?thesis using assms(2) Some by (auto simp: caches_ok_def cache_of_update)
    qed
  qed
qed

lemma GetDimensionList_keeps:
  assumes "rand_law E" "caches_ok w" "GetDimensionList E name i list num w = Some (list', w')"
  shows "caches_ok w'"
  using assms(3) GetRadomin_keeps [OF assms(1,2)]
  by (auto simp: GetDimensionList_def caches_ok_same [OF caches.view_GetMusicInfo] dest!: drawn_songs_state
      split: bind_splits)

lemma part_keeps:
  "rand_law E \<Longrightarrow> caches_ok w \<Longrightarrow> dimension_part E d num list w = Some (list', w') \<Longrightarrow> caches_ok w'"
  by (auto simp: dimension_part_def dest: GetDimensionList_keeps split: if_splits)

lemma dimension_handlers_keep:
  assumes "rand_law E" "caches_ok w"
  shows "OnDimensionList E s m w = Some w' \<Longrightarrow> caches_ok w'" "OnDimensionsList E s m w = Some w' \<Longrightarrow> caches_ok w'"
proof -
  have head: "SendErrorMsg E code s w = Some w' \<Longrightarrow> caches_ok w'" for code
    unfolding SendErrorMsg_def by (drule caches.view_send_head) (simp add: caches_ok_same assms(2))
  show "OnDimensionList E s m w = Some w' \<Longrightarrow> caches_ok w'"
    using GetDimensionList_keeps [OF assms] head
    by (auto simp: OnDimensionList_def Let_def checked_def caches_ok_same [OF caches.view_send]
        split: if_splits bind_splits)
  assume a: "OnDimensionsList E s m w = Some w'"
  show "caches_ok w'"
  proof (cases "ds_error (recv_Dimensions (me_unset E) m) = 0")
    case True
    with a obtain l1 w1 l2 w2 l3 w3 d1 d2 d3 n where
      "dimension_part E d1 n [] w = Some (l1, w1)" "dimension_part E d2 n l1 w1 = Some (l2, w2)"
      "dimension_part E d3 n l2 w2 = Some (l3, w3)"
      "w' = music_send_message E s (send_MusicList (released_songs l3 w3)) w3"
      by (auto simp: OnDimensionsList_def Let_def checked_def split: bind_splits)
    with part_keeps [OF assms(1)] assms(2) show ?thesis
      by (simp add: caches_ok_same [OF caches.view_send]) blast
  qed (use a head in \<open>simp add: OnDimensionsList_def Let_def checked_def\<close>)
qed

section \<open>The songs drawn\<close>

lemma of_int_index:
  assumes "0 \<le> x" "x < 2 ^ 31"
  shows "unat (scast (of_int x :: int32) :: int64) = nat x"
proof -
  obtain n where n: "x = int n" using assms(1) by (metis nonneg_int_cases)
  with assms(2) have l: "n < 2 ^ 31" by simp
  then have "sint (of_nat n :: int32) = int n" by (rule signed_of_nat32)
  then have "(scast (of_nat n :: int32) :: int64) = of_nat n" by (simp add: scast_eq)
  then show ?thesis using l n by (simp add: unat_of_nat)
qed

text \<open>Each draw adds a song of the dimension; the word behind them adds one, is skipped or is the
  size, for which the vector is read behind its end.\<close>

lemma drawn_songs_result:
  assumes "\<forall>x\<in>set xs. 0 \<le> x \<and> x < int (length vec)" "length vec < 2 ^ 31"
  shows "drawn_songs vec (map of_int xs @ [b]) list w =
      (if unat (scast b :: int64) = length vec then None
       else Some (fold (\<lambda>h m. map_set (s_id (song_at w h)) h m)
         (map (\<lambda>x. vec ! nat x) xs @ (if unat (scast b :: int64) < length vec then [vec ! unat (scast b :: int64)] else [])) list, w))"
  using assms(1)
proof (induction xs arbitrary: list)
  case (Cons x xs)
  have "unat (scast (of_int x :: int32) :: int64) = nat x" using Cons.prems assms(2) by (intro of_int_index) auto
  moreover have "nat x < length vec" using Cons.prems by auto
  ultimately show ?case using Cons by (simp add: Let_def)
qed (auto simp: Let_def)

lemma set_fold_map_set:
  "set (fold (\<lambda>h m. map_set (f h) h m) hs list) \<subseteq> set list \<union> (\<lambda>h. (f h, h)) ` set hs"
proof (induction hs arbitrary: list)
  case (Cons h hs)
  from Cons [of "map_set (f h) h list"] set_map_set [of "f h" h list] show ?case by auto
qed simp

lemma length_map_set_le: "length (map_set k v m) \<le> Suc (length m)"
  by (induction k v m rule: map_set.induct) auto

lemma length_fold_map_set: "length (fold (\<lambda>h m. map_set (f h) h m) hs list) \<le> length list + length hs"
proof (induction hs arbitrary: list)
  case (Cons h hs)
  from Cons [of "map_set (f h) h list"] length_map_set_le [of "f h" h list] show ?case by simp
qed simp

lemma GetDimensionList_result:
  assumes "rand_law E" "caches_ok w" "cache_of name w = Some c" "map_find (dc_vec c) i = Some vec"
    and "vec \<noteq> []" "length vec < 2 ^ 31" "0 \<le> sint (to_int num)" "4 * nat (sint (to_int num)) \<le> me_memory E"
  shows "if unat (scast (me_behind E) :: int64) = length vec then GetDimensionList E name i [] num w = None
    else \<exists>list w'. GetDimensionList E name i [] num w = Some (list, w') \<and> snd ` set list \<subseteq> set vec \<and>
      length list \<le> nat (sint (to_int num)) + 1 \<and> mw_events w' = mw_events w"
proof -
  have "cache_ok c" using assms(2,3) by (simp add: caches_ok_def)
  then obtain t where t: "map_find (dc_radomin c) (to_int i) = Some t" "0 < num_of t" "num_of t \<le> length vec"
    using assms(4,5) unfolding cache_ok_def by blast
  from GetRadomin_result [OF assms(1-3) t(1,2) assms(7,8)] obtain xs v where
    x: "GetRadomin E name (to_int i) (to_int num) w = Some (map of_int xs @ [me_behind E], v)"
      "length xs = nat (sint (to_int num))" "\<forall>x\<in>set xs. 0 \<le> x \<and> x < int (num_of t)" by blast
  have ev: "mw_events v = mw_events w"
    using x(1) by (auto simp: GetRadomin_def update_cache_def Let_def split: if_splits option.splits bind_splits)
  have less: "\<forall>x\<in>set xs. 0 \<le> x \<and> x < int (length vec)" using x(3) t(3) by fastforce
  note d = drawn_songs_result [OF less assms(6), of "me_behind E" "[]" v]
  define hs where "hs = map (\<lambda>x. vec ! nat x) xs @ (if unat (scast (me_behind E) :: int64) < length vec
    then [vec ! unat (scast (me_behind E) :: int64)] else [])"
  define list where "list = fold (\<lambda>h m. map_set (s_id (song_at v h)) h m) hs []"
  have "set hs \<subseteq> set vec" "length hs \<le> nat (sint (to_int num)) + 1" using less x(2) by (auto simp: hs_def)
  then have l: "snd ` set list \<subseteq> set vec" "length list \<le> nat (sint (to_int num)) + 1"
    using set_fold_map_set [of "\<lambda>h. s_id (song_at v h)" hs "[]"]
      length_fold_map_set [of "\<lambda>h. s_id (song_at v h)" hs "[]"] by (auto simp: list_def)
  have "mw_events (GetMusicInfo list v) = mw_events v"
  proof -
    have "mw_events (fold (\<lambda>(k, h) w. case map_find (mw_info w) (s_id (song_at w h)) of None \<Rightarrow> w
        | Some r \<Rightarrow> set_song h (BaseCopy (song_at w r)) w) l u) = mw_events u" for l :: songs and u :: "'a music_world"
      by (induction l arbitrary: u) (auto simp: set_song_def obj_set_def split: option.split)
    then show ?thesis by (simp add: GetMusicInfo_def)
  qed
  then show ?thesis
    using x(1) d l ev assms(3,4) unfolding hs_def [symmetric] list_def [symmetric]
    by (auto simp: GetDimensionList_def)
qed

lemma released_songs_of:
  "length (released_songs list w) \<le> length list"
  "t \<in> set (released_songs list w) \<Longrightarrow> \<exists>h\<in>snd ` set list. MusicInfo_Release True (song_at w h) = Some t"
  by (induction list) (force simp: released_songs_def map_filter_simps split: option.splits)+


section \<open>The caches at the start\<close>

text \<open>The identifiers of the dimensions in the database fit an \<^verbatim>\<open>int\<close>, and a hash of Redis holds fewer
  songs than a \<^verbatim>\<open>float\<close> can count.\<close>

definition dimensions_fit :: "'s music_env \<Rightarrow> bool" where
  "dimensions_fit E \<longleftrightarrow> (\<forall>s. (\<forall>row\<in>set (me_all_dimensions E s). fits_int (column_int row 0 0)) \<and>
     (\<forall>key. length (me_hvals E key s) < 2 ^ 24))"

definition cache_loaded :: "dimension_cache \<Rightarrow> bool" where
  "cache_loaded c \<longleftrightarrow> map_sorted (dc_map c) \<and>
     (\<forall>e\<in>set (dc_map c). fits_int (fst e) \<and> length (snd e) < 2 ^ 24) \<and> dc_radomin c = [] \<and>
     (\<forall>i vec. map_find (dc_vec c) i = Some vec \<longrightarrow>
        (\<exists>m. map_find (dc_map c) i = Some m \<and> length m \<le> length vec \<and> (vec \<noteq> [] \<longrightarrow> m \<noteq> [])))"

lemma dimension_songs_sizes:
  "dimension_songs d strs (m, v) w = ((m', v'), w') \<Longrightarrow> length m \<le> length v \<Longrightarrow> (v \<noteq> [] \<longrightarrow> m \<noteq> []) \<Longrightarrow>
     length m' \<le> length v' \<and> (v' \<noteq> [] \<longrightarrow> m' \<noteq> []) \<and> length v' = length v + length strs"
proof (induction strs arbitrary: m v w)
  case (Cons str strs)
  let ?s = "MusicInfo_Data\<lparr>s_id := atoll (c_string str), s_class_name := dd_class_name d,
      s_class := to_int (dd_id d)\<rparr>"
  obtain h u where h: "new_song ?s w = (h, u)" by fastforce
  then have "dimension_songs d strs (map_set (s_id ?s) h m, v @ [h]) u = ((m', v'), w')"
    using Cons.prems(1) by (simp add: Let_def)
  moreover have "map_set (s_id ?s) h m \<noteq> []" by (cases m) (auto split: if_splits)
  ultimately show ?case using Cons.IH length_map_set_le [of "s_id ?s" h m] Cons.prems(2) by fastforce
qed simp

text \<open>The caches of the classes in \<open>done\<close> have tables, the others are loaded.\<close>

definition all_loaded :: "byte list set \<Rightarrow> 's music_world \<Rightarrow> bool" where
  "all_loaded ready w \<longleftrightarrow>
     (\<forall>name c. cache_of name w = Some c \<longrightarrow> (if name \<in> ready then cache_ok c else cache_loaded c))"

lemma loaded_add:
  assumes "cache_loaded c" "length m \<le> length v" "v \<noteq> [] \<Longrightarrow> m \<noteq> []" "fits_int i" "length m < 2 ^ 24"
  shows "cache_loaded (c\<lparr>dc_map := map_set i m (dc_map c), dc_vec := map_set i v (dc_vec c)\<rparr>)"
proof -
  have "\<forall>e\<in>set (map_set i m (dc_map c)). fits_int (fst e) \<and> length (snd e) < 2 ^ 24"
    using assms(1,4,5) set_map_set [of i m "dc_map c"] by (auto simp: cache_loaded_def)
  with assms(1-3) show ?thesis by (simp add: cache_loaded_def)
qed

lemma loaded_dimension:
  assumes "all_loaded {} w" "fits_int (dd_id d)" "dimensions_fit E"
  shows "all_loaded {} (FectchDimensionMusic E d w)"
proof -
  obtain m v u where f: "dimension_songs d (me_hvals E (dd_class_name d @ ascii ''_r'' @ decimal (sint (dd_id d)))
      (mw_store w)) ([], []) w = ((m, v), u)" by (metis surj_pair)
  have u: "cache_of name u = cache_of name w" for name
    using caches.view_dimension_songs [OF f] cache_of_caches by blast
  have sizes: "length m \<le> length v" "v \<noteq> [] \<Longrightarrow> m \<noteq> []" using dimension_songs_sizes [OF f] by simp_all
  have "length v < 2 ^ 24" using dimension_songs_sizes [OF f] assms(3) by (simp add: dimensions_fit_def)
  with sizes(1) have small: "length m < 2 ^ 24" by simp
  have "cache_loaded c'" if "cache_of name (FectchDimensionMusic E d w) = Some c'" for name c'
  proof (cases "name = dd_class_name d")
    case True
    with that obtain c where "cache_of name w = Some c"
      "c' = c\<lparr>dc_map := map_set (dd_id d) m (dc_map c), dc_vec := map_set (dd_id d) v (dc_vec c)\<rparr>"
      by (auto simp: FectchDimensionMusic_def f cache_of_update u)
    then show ?thesis using loaded_add [OF _ sizes assms(2) small] assms(1) by (simp add: all_loaded_def)
  next
    case False
    with that have "cache_of name w = Some c'" by (simp add: FectchDimensionMusic_def f cache_of_update u)
    then show ?thesis using assms(1) by (simp add: all_loaded_def)
  qed
  then show ?thesis by (simp add: all_loaded_def)
qed

lemma loaded_dimensions:
  "dimensions_fit E \<Longrightarrow> \<forall>d\<in>set ds. fits_int (dd_id d) \<Longrightarrow> all_loaded {} w \<Longrightarrow> all_loaded {} (fold (FectchDimensionMusic E) ds w)"
  by (induction ds arbitrary: w) (simp_all add: loaded_dimension)

lemma radomin_tables_ok:
  assumes "\<And>i j k. rand i j k < 2 ^ 31"
  shows "radomin_tables rand es tables = Some ts \<Longrightarrow> distinct (map (\<lambda>e. to_int (fst e)) es) \<Longrightarrow>
    \<forall>e\<in>set es. length (snd e) < 2 ^ 24 \<Longrightarrow> \<forall>i t. map_find tables i = Some t \<longrightarrow> table_ok t \<Longrightarrow>
    (\<forall>i t. map_find ts i = Some t \<longrightarrow> table_ok t) \<and>
    (\<forall>e\<in>set es. \<exists>t. map_find ts (to_int (fst e)) = Some t \<and> num_of t = length (snd e)) \<and>
    (\<forall>i. i \<notin> (\<lambda>e. to_int (fst e)) ` set es \<longrightarrow> map_find ts i = map_find tables i)"
proof (induction es arbitrary: tables)
  case (Cons e es)
  obtain t where t: "MigRadomInV2 (rand (fst e)) (length (snd e)) = Some t" "table_ok t" "num_of t = length (snd e)"
    using MigRadomInV2_ok [of "rand (fst e)" "length (snd e)", OF assms] Cons.prems(3) by auto
  have "radomin_tables rand es (map_set (to_int (fst e)) t tables) = Some ts" using Cons.prems(1) t(1) by simp
  moreover have "distinct (map (\<lambda>e. to_int (fst e)) es)" "\<forall>e\<in>set es. length (snd e) < 2 ^ 24"
    using Cons.prems(2,3) by simp_all
  moreover have "\<forall>i u. map_find (map_set (to_int (fst e)) t tables) i = Some u \<longrightarrow> table_ok u"
    using Cons.prems(4) t(2) by simp
  ultimately have ok: "(\<forall>i t. map_find ts i = Some t \<longrightarrow> table_ok t) \<and>
    (\<forall>e\<in>set es. \<exists>t. map_find ts (to_int (fst e)) = Some t \<and> num_of t = length (snd e)) \<and>
    (\<forall>i. i \<notin> (\<lambda>e. to_int (fst e)) ` set es \<longrightarrow> map_find ts i = map_find (map_set (to_int (fst e)) t tables) i)"
    by (rule Cons.IH)
  have "to_int (fst e) \<notin> (\<lambda>e. to_int (fst e)) ` set es" using Cons.prems(2) by auto
  with ok have "map_find ts (to_int (fst e)) = Some t" by simp
  moreover have "map_find ts i = map_find tables i" if "i \<notin> (\<lambda>e. to_int (fst e)) ` set (e # es)" for i
    using ok that by simp
  ultimately show ?case using ok t(3) by simp
qed simp

lemma loaded_tables:
  assumes "cache_loaded c" "radomin_tables rand (dc_map c) (dc_radomin c) = Some ts" "\<And>i j k. rand i j k < 2 ^ 31"
  shows "cache_ok (c\<lparr>dc_radomin := ts\<rparr>)"
proof -
  have "inj_on to_int (fst ` set (dc_map c))"
    using assms(1) by (intro inj_onI) (metis (no_types, lifting) fits_int_def imageE cache_loaded_def)
  moreover have "distinct (map fst (dc_map c))"
  proof -
    have "map_sorted m \<Longrightarrow> distinct (map fst m)" for m :: "(int64, songs) stdmap"
      by (induction m) force+
    then show ?thesis using assms(1) by (simp add: cache_loaded_def)
  qed
  ultimately have "distinct (map (to_int \<circ> fst) (dc_map c))" by (simp add: distinct_map comp_inj_on)
  then have "distinct (map (\<lambda>e. to_int (fst e)) (dc_map c))" by (simp add: comp_def)
  from radomin_tables_ok [OF assms(3,2) this] assms(1) have ok: "\<forall>i t. map_find ts i = Some t \<longrightarrow> table_ok t"
    "\<forall>e\<in>set (dc_map c). \<exists>t. map_find ts (to_int (fst e)) = Some t \<and> num_of t = length (snd e)"
    by (simp_all add: cache_loaded_def)
  have "\<exists>t. map_find ts (to_int i) = Some t \<and> 0 < num_of t \<and> num_of t \<le> length vec"
    if v: "map_find (dc_vec c) i = Some vec" "vec \<noteq> []" for i vec
  proof -
    obtain m where m: "map_find (dc_map c) i = Some m" "length m \<le> length vec" "m \<noteq> []"
      using assms(1) v unfolding cache_loaded_def by blast
    then have "(i, m) \<in> set (dc_map c)" by (simp add: map_find_def map_of_SomeD)
    with ok(2) m show ?thesis by fastforce
  qed
  with ok(1) show ?thesis by (simp add: cache_ok_def)
qed

lemma CreateRadomin1_ok:
  assumes "rand_law E" "all_loaded ready u" "CreateRadomin1 E name u = Some v" "name \<notin> ready"
  shows "all_loaded (insert name ready) v"
proof (cases "cache_of name u")
  case None
  with assms(2,3) show ?thesis by (auto simp: CreateRadomin1_def all_loaded_def)
next
  case (Some c)
  with assms(3) obtain ts where ts: "radomin_tables (me_rand E name) (dc_map c) (dc_radomin c) = Some ts"
    "v = update_cache name (\<lambda>c. c\<lparr>dc_radomin := ts\<rparr>) u" by (auto simp: CreateRadomin1_def)
  have "cache_loaded c" using assms(2,4) Some by (auto simp: all_loaded_def)
  from loaded_tables [OF this ts(1)] assms(1) have "cache_ok (c\<lparr>dc_radomin := ts\<rparr>)" by (simp add: rand_law_def)
  with assms(2) Some show ?thesis by (simp add: all_loaded_def ts(2) cache_of_update)
qed

lemma loaded_at_start:
  assumes "dimensions_fit E"
  shows "all_loaded {} (FetchDimensionMusic E (GetAvailableMusicInfo E (WholeManager_Init E (no_songs s))))"
proof -
  let ?u = "GetAvailableMusicInfo E (WholeManager_Init E (no_songs s))"
  have init: "caches ?u = caches (no_songs s)"
    by (simp add: WholeManager_Init_def caches.view_loading)
  have "all_loaded {} ?u"
    unfolding all_loaded_def cache_of_caches [OF init]
    by (auto simp: cache_of_def no_songs_def cache_loaded_def split: if_splits)
  moreover have "\<forall>d\<in>set (GetAllDimension E ?u). fits_int (dd_id d)"
    using assms by (auto simp: GetAllDimension_def dimensions_fit_def)
  ultimately show ?thesis
    unfolding FetchDimensionMusic_def using assms by (intro loaded_dimensions)
qed

lemma caches_ok_at_start:
  assumes "rand_law E" "dimensions_fit E" "Musiclogic_Init E s = Some w"
  shows "caches_ok w"
proof -
  let ?u = "GetAvailableMusicInfo E (WholeManager_Init E (no_songs s))"
  have l: "all_loaded {} (FetchDimensionMusic E ?u)" using loaded_at_start [OF assms(2)] .
  obtain w1 w2 where r: "CreateRadomin1 E (ascii ''chl'') (FetchDimensionMusic E ?u) = Some w1"
    "CreateRadomin1 E (ascii ''mm'') w1 = Some w2" "CreateRadomin1 E (ascii ''ms'') w2 = Some w"
    using assms(3) by (auto simp: Musiclogic_Init_def CreateRadomin_def split: bind_splits)
  have ne: "ascii ''ms'' \<noteq> ascii ''chl''" "ascii ''mm'' \<noteq> ascii ''chl''" "ascii ''ms'' \<noteq> ascii ''mm''" by code_simp+
  have "all_loaded {ascii ''chl''} w1" using CreateRadomin1_ok [OF assms(1) l r(1)] by simp
  from CreateRadomin1_ok [OF assms(1) this r(2)] have "all_loaded {ascii ''mm'', ascii ''chl''} w2" using ne by simp
  from CreateRadomin1_ok [OF assms(1) this r(3)] have
    "all_loaded {ascii ''ms'', ascii ''mm'', ascii ''chl''} w" using ne by simp
  then show ?thesis by (auto simp: all_loaded_def caches_ok_def cache_of_def split: if_splits)
qed

text \<open>The service starts.\<close>

lemma radomin_tables_total:
  assumes "\<And>i j k. rand i j k < 2 ^ 31"
  shows "\<forall>e\<in>set es. length (snd e) < 2 ^ 24 \<Longrightarrow> \<exists>ts. radomin_tables rand es tables = Some ts"
proof (induction es arbitrary: tables)
  case (Cons e es)
  then show ?case using MigRadomInV2_ok [of "rand (fst e)" "length (snd e)", OF assms] by auto
qed simp

lemma CreateRadomin1_total:
  assumes "rand_law E" "all_loaded ready u" "name \<notin> ready"
  shows "\<exists>v. CreateRadomin1 E name u = Some v \<and> all_loaded (insert name ready) v \<and>
    (\<forall>name'. map_option dc_vec (cache_of name' v) = map_option dc_vec (cache_of name' u))"
proof (cases "cache_of name u")
  case (Some c)
  then have "cache_loaded c" using assms(2,3) by (auto simp: all_loaded_def)
  then have "\<forall>e\<in>set (dc_map c). length (snd e) < 2 ^ 24" by (simp add: cache_loaded_def)
  then obtain ts where "radomin_tables (me_rand E name) (dc_map c) (dc_radomin c) = Some ts"
    using radomin_tables_total [of "me_rand E name" "dc_map c" "dc_radomin c"] assms(1)
    unfolding rand_law_def by blast
  with Some obtain v where "CreateRadomin1 E name u = Some v"
    "\<forall>name'. map_option dc_vec (cache_of name' v) = map_option dc_vec (cache_of name' u)"
    by (auto simp: CreateRadomin1_def cache_of_update)
  with CreateRadomin1_ok [OF assms(1,2) _ assms(3)] show ?thesis by blast
next
  case None
  then show ?thesis using assms(2) by (auto simp: CreateRadomin1_def all_loaded_def)
qed

lemma service_starts:
  assumes "rand_law E" "dimensions_fit E"
  shows "\<exists>w. Musiclogic_Init E s = Some w \<and> (\<forall>name. map_option dc_vec (cache_of name w) =
    map_option dc_vec (cache_of name
      (FetchDimensionMusic E (GetAvailableMusicInfo E (WholeManager_Init E (no_songs s))))))"
proof -
  let ?u = "FetchDimensionMusic E (GetAvailableMusicInfo E (WholeManager_Init E (no_songs s)))"
  have ne: "ascii ''ms'' \<noteq> ascii ''chl''" "ascii ''mm'' \<noteq> ascii ''chl''" "ascii ''ms'' \<noteq> ascii ''mm''" by code_simp+
  obtain w1 where 1: "CreateRadomin1 E (ascii ''chl'') ?u = Some w1" "all_loaded {ascii ''chl''} w1"
    "\<forall>name. map_option dc_vec (cache_of name w1) = map_option dc_vec (cache_of name ?u)"
    using CreateRadomin1_total [OF assms(1) loaded_at_start [OF assms(2)], of "ascii ''chl''"] by auto
  obtain w2 where 2: "CreateRadomin1 E (ascii ''mm'') w1 = Some w2" "all_loaded {ascii ''mm'', ascii ''chl''} w2"
    "\<forall>name. map_option dc_vec (cache_of name w2) = map_option dc_vec (cache_of name w1)"
    using CreateRadomin1_total [OF assms(1) 1(2), of "ascii ''mm''"] ne by auto
  obtain w3 where 3: "CreateRadomin1 E (ascii ''ms'') w2 = Some w3"
    "\<forall>name. map_option dc_vec (cache_of name w3) = map_option dc_vec (cache_of name w2)"
    using CreateRadomin1_total [OF assms(1) 2(2), of "ascii ''ms''"] ne by auto
  from 1 2 3 show ?thesis by (simp add: Musiclogic_Init_def CreateRadomin_def)
qed

lemma caches_after_step:
  assumes "rand_law E" "no_lists w" "caches_ok w" "music_step E w w'"
  shows "caches_ok w'"
  using assms(4)
proof (rule music_stepE)
  fix s msg assume "OnMusicMessage E s msg w = Some w'"
  from caches.view_message [OF assms(2) this] show ?thesis
    using dimension_handlers_keep [OF assms(1,3)] caches_ok_same assms(3) by blast
next
  fix s assume "w' = Music_OnBroadcastConnect s w"
  then have "caches w' = caches w" by (simp add: caches_def Music_OnBroadcastConnect_def)
  then show ?thesis using assms(3) caches_ok_same by blast
next
  fix s assume "w' = w\<lparr>mw_store := s\<rparr>"
  then have "caches w' = caches w" by (simp add: caches_def)
  then show ?thesis using assms(3) caches_ok_same by blast
qed

lemma reachable_caches_ok:
  "music_reachable E w \<Longrightarrow> rand_law E \<Longrightarrow> dimensions_fit E \<Longrightarrow> caches_ok w"
  by (induction rule: music_reachable.induct)
     (auto intro: caches_ok_at_start caches_after_step reachable_no_lists)

text \<open>In every state the service reaches, a request for the songs of a dimension that has any is
  undefined when the word behind its ten draws happens to be the number of songs; otherwise it is
  answered with at most eleven songs, all of the dimension.\<close>

theorem dimension_list_answer:
  assumes "music_reachable E w" "rand_law E" "dimensions_fit E" "40 \<le> me_memory E"
    and "dp_error (recv_Dimension (me_unset E) m) = 0"
    and "cache_of (dp_name (recv_Dimension (me_unset E) m)) w = Some c"
    and "map_find (dc_vec c) (dp_sub_id (recv_Dimension (me_unset E) m)) = Some vec"
    and "vec \<noteq> []" "length vec < 2 ^ 31"
  shows "if unat (scast (me_behind E) :: int64) = length vec then OnDimensionList E s m w = None
    else \<exists>w' ts. OnDimensionList E s m w = Some w' \<and> length ts \<le> 11 \<and>
      mw_events w' = mw_events w @ [Answer s (JsonSerialize (me_g_fmt E) (DictionaryValue (send_MusicList ts)) [])] \<and>
      (\<forall>t\<in>set ts. \<exists>h\<in>set vec. MusicInfo_Release True (song_at w' h) = Some t)"
proof -
  have n: "to_int 10 = (10 :: int32)" by (simp add: to_int_def)
  note r = GetDimensionList_result [where num = 10, unfolded n, OF assms(2) reachable_caches_ok [OF assms(1-3)] assms(6-9)]
  have ten: "0 \<le> sint (10 :: int32)" "4 * nat (sint (10 :: int32)) \<le> me_memory E"
    "nat (sint (10 :: int32)) + 1 = 11" using assms(4) by simp_all
  note r = r [OF ten(1,2), unfolded ten(3)]
  show ?thesis
  proof (cases "unat (scast (me_behind E) :: int64) = length vec")
    case True
    then show ?thesis using r assms(5) by (simp add: OnDimensionList_def Let_def checked_def)
  next
    case False
    with r obtain list v where v: "GetDimensionList E (dp_name (recv_Dimension (me_unset E) m))
        (dp_sub_id (recv_Dimension (me_unset E) m)) [] 10 w = Some (list, v)" "snd ` set list \<subseteq> set vec"
      "length list \<le> 11" "mw_events v = mw_events w" by auto
    let ?ts = "released_songs list v"
    let ?w = "music_send_message E s (send_MusicList ?ts) v"
    have "OnDimensionList E s m w = Some ?w" using v(1) assms(5) by (simp add: OnDimensionList_def Let_def checked_def)
    moreover have "length ?ts \<le> 11" using released_songs_of(1) [of list v] v(3) by simp
    moreover have "song_at ?w = song_at v" by (simp add: song_at_def obj_at_def music_send_message_def music_emit_def fun_eq_iff)
    then have "\<forall>t\<in>set ?ts. \<exists>h\<in>set vec. MusicInfo_Release True (song_at ?w h) = Some t"
      using released_songs_of(2) [of _ list v] v(2) by fastforce
    ultimately show ?thesis using False v(4) by (auto simp: music_send_message_def music_emit_def)
  qed
qed


section \<open>An instance\<close>

text \<open>One channel with two songs in Redis, one of them in the database.\<close>

definition dimension_env :: "(byte list \<times> byte list \<times> byte list) list music_env" where
  "dimension_env = sample_music_env
     \<lparr>me_behind := 5, me_hvals := \<lambda>h s. take 1000 (me_hvals sample_music_env h s), me_all_dimensions := (\<lambda>_. [\<lambda>i. if i = 0 then Some (ascii ''1'') else if i = 1 then Some (ascii ''chl'') else None]),
      me_available := (\<lambda>_. [\<lambda>i. if i = 0 then Some (ascii ''7'') else if i = 8 then Some (ascii ''u'') else None])\<rparr>"

definition dimension_request :: dict where
  "dimension_request = [(wide ''dimension'', StringValue (ascii ''chl'')), (wide ''sid'', BigIntegerValue 1),
     (wide ''token'', StringValue (ascii ''a'')), (wide ''type'', BigIntegerValue 4002), (wide ''uid'', BigIntegerValue 5)]"

definition dimension_store :: "(byte list \<times> byte list \<times> byte list) list" where
  "dimension_store = [(ascii ''chl_r1'', ascii ''7'', ascii ''7''), (ascii ''chl_r1'', ascii ''8'', ascii ''8'')]"

theorem dimension_list_answer_witness:
  "\<exists>w w' ts. Musiclogic_Init dimension_env dimension_store = Some w \<and> OnDimensionList dimension_env 3 dimension_request w = Some w' \<and>
     mw_events w' = mw_events w @ [Answer 3 (JsonSerialize (me_g_fmt dimension_env) (DictionaryValue (send_MusicList ts)) [])] \<and>
     length ts \<le> 11 \<and> (\<forall>t\<in>set ts. \<exists>h\<in>{1, 2}. MusicInfo_Release True (song_at w' h) = Some t)"
proof -
  have law: "rand_law dimension_env" by (simp add: rand_law_def dimension_env_def sample_music_env_def)
  have fit: "dimensions_fit dimension_env"
  proof -
    have "fits_int (column_int (\<lambda>i. if i = 0 then Some (ascii ''1'') else if i = 1 then Some (ascii ''chl'') else None) 0 0)"
      by code_simp
    moreover have "min n 1000 < 2 ^ 24" for n :: nat by simp
    ultimately show ?thesis by (simp add: dimensions_fit_def dimension_env_def)
  qed
  have "dc_vec (mw_channel (FetchDimensionMusic dimension_env (GetAvailableMusicInfo dimension_env
      (WholeManager_Init dimension_env (no_songs dimension_store))))) = [(1, [1, 2])]" by code_simp
  moreover obtain w where w: "Musiclogic_Init dimension_env dimension_store = Some w"
    "map_option dc_vec (cache_of (ascii ''chl'') w) = map_option dc_vec (cache_of (ascii ''chl'')
      (FetchDimensionMusic dimension_env (GetAvailableMusicInfo dimension_env
        (WholeManager_Init dimension_env (no_songs dimension_store)))))"
    using service_starts [OF law fit] by blast
  ultimately have vec: "dc_vec (mw_channel w) = [(1, [1, 2])]" by (simp add: cache_of_def)
  have r: "music_reachable dimension_env w" using w(1) by (rule music_reachable.start)
  have p: "dp_error (recv_Dimension (me_unset dimension_env) dimension_request) = 0"
    "dp_name (recv_Dimension (me_unset dimension_env) dimension_request) = ascii ''chl''"
    "dp_sub_id (recv_Dimension (me_unset dimension_env) dimension_request) = 1"
    by code_simp+
  have e: "40 \<le> me_memory dimension_env" "unat (scast (me_behind dimension_env) :: int64) \<noteq> 2"
    by (simp_all add: dimension_env_def sample_music_env_def)
  have c: "cache_of (dp_name (recv_Dimension (me_unset dimension_env) dimension_request)) w = Some (mw_channel w)"
    unfolding p(2) by (simp add: cache_of_def)
  have v: "map_find (dc_vec (mw_channel w)) (dp_sub_id (recv_Dimension (me_unset dimension_env) dimension_request)) = Some [1, 2]"
    unfolding p(3) vec by simp
  from dimension_list_answer [OF r law fit e(1) p(1) c v, of 3] e(2) w(1) show ?thesis
    by (auto simp: numeral_2_eq_2 [symmetric])
qed

end
