(* ===== verification/Spec2Isabelle.thy ===== *)
theory Spec2Isabelle
  imports MigPrelude DataPacket ChatPackets ChatPack ChatUnpack ChatDump StdMap ChatWorld ChatCache
    ChatStore ChatDelivery UserConnection ChatServer ChatSessions ChatMessages RateTable
    RobotPackets RobotUnpack CoreBuffer CoreNetwork CoreReceive CoreStream ChatPlugin
    RobotDump PrizeRate RobotWorld RobotStore RobotCache RobotTasks RobotServer RobotView RobotNeutral
    RobotAlloc RobotCompanions RobotSample
    Unicode UnicodeText ValueTree ValueLaws NumberText HttpSerializer HttpBounds HttpText HttpRoundTrip
    JsonWriter ServicePackets MusicWorld MusicService MusicLaws MusicDimensions
begin

text \<open>
  A verification library for the chat server of the migfm music radio, \<^verbatim>\<open>src/server/chat\<close>, with
  the wire library and the helpers of \<^verbatim>\<open>src/server/public\<close> it stands on, the receiving part of the
  C core that feeds it, and the robot server next to it, \<^verbatim>\<open>src/server/robot\<close>, which lends every
  listener two robots for company, the value trees and query strings of \<^verbatim>\<open>src/server/base\<close>, through
  which every request of the HTTP services passes, and one of these services, the music service
  \<^verbatim>\<open>src/server/svc/musicsvc\<close>, with the packets and songs of \<^verbatim>\<open>src/server/pub\<close>.

  \<^bold>\<open>The program.\<close>  Clients hold a TCP connection to a server whose core collects what arrives in
  blocks of 4096 bytes, cuts it into packets by the length each begins with, copies a packet into
  a buffer for the thread pool, and has a worker call the plugins, which hands every packet of a
  connection to \<^verbatim>\<open>ChatManager::OnChatManagerMessage\<close>.  It parses the packet
  (\<^verbatim>\<open>ProtocolPack::UnpackStream\<close> over \<^verbatim>\<open>DataInPacket\<close>), dumps it to the log and calls the handler of
  its operation code in \<^verbatim>\<open>UserConnectionMgr\<close>, \<^verbatim>\<open>IMSMgr\<close> or \<^verbatim>\<open>FileMgr\<close>.  The handlers share the
  cache: per platform the users, groups, meetings, leave sessions and pending confirmations, and
  the users by socket.  They read and record through MySQL, number messages through Redis, and
  answer with packets built by \<^verbatim>\<open>ProtocolPack::PackStream\<close> over \<^verbatim>\<open>DataOutPacket\<close>.

  The robot server is a plugin of the same core.  It learns from the other servers who logs in and
  what they listen to, picks robots for a user, has a scheduler start their clients, and sends the
  clients what to play.  A robot is idle, temporary until its client has logged in, then in use.

  The service plugins get their requests from the web server as query strings.  The serializer
  \<^verbatim>\<open>HttpValueSerializer\<close> turns the bytes into a wide string and that into a tree of \<^verbatim>\<open>Value\<close>s, from
  which the plugins take their arguments by path, and writes trees back.  The music service makes a
  packet of the tree (\<^verbatim>\<open>comm_head.h\<close>, \<^verbatim>\<open>music_comm_head.h\<close>), calls the handler of its type in
  \<^verbatim>\<open>Musiclogic\<close>, which works on the cache of \<^verbatim>\<open>WholeManager\<close>, on MySQL, Redis and memcached, and answers
  with a tree written by \<^verbatim>\<open>JsonValueSerializer\<close>.

  \<^bold>\<open>Theories.\<close>
  \<^item> \<^verbatim>\<open>MigPrelude\<close>: machine integers as words, bytes in memory, C strings, decimal texts, the cut of
    an \<^verbatim>\<open>int64\<close> to an \<^verbatim>\<open>int\<close>; the collections \<^verbatim>\<open>run_simps\<close>, \<^verbatim>\<open>reads_intros\<close>, \<^verbatim>\<open>writes_intros\<close>.
  \<^item> \<^verbatim>\<open>DataPacket\<close>: \<^verbatim>\<open>public/protocol/data_packet.{h,cc}\<close>, with buffer capacity, cursor and faults;
    the predicates \<open>writes\<close> and \<open>reads\<close>; the locales \<open>wire_writer\<close>, \<open>fixed_writer\<close>, \<open>wire_codec\<close>.
  \<^item> \<^verbatim>\<open>ChatPackets\<close>, \<^verbatim>\<open>ChatPack\<close>, \<^verbatim>\<open>ChatUnpack\<close>, \<^verbatim>\<open>ChatDump\<close>: \<^verbatim>\<open>chat/base/comm_head.h\<close>,
    \<^verbatim>\<open>protocol.{h,cc}\<close>: a record per struct, a writer, reader and dumper per packet kind.
  \<^item> \<^verbatim>\<open>StdMap\<close>: \<^verbatim>\<open>std::map\<close> as the ordered list of its pairs, and \<^verbatim>\<open>public/basic/template.h\<close>; the
    locale \<open>dictionary\<close>.
  \<^item> \<^verbatim>\<open>ChatWorld\<close>: the whole state (\<open>world\<close>), the surroundings (\<open>env\<close>), \<^verbatim>\<open>chat/base/logic_comm.cc\<close>;
    the invariant \<open>world_ok\<close> and the judgement \<open>safe\<close> that a computation keeps it.
  \<^item> \<^verbatim>\<open>ChatCache\<close>: \<^verbatim>\<open>chat/chat/chat_cache_manager.{h,cc}\<close>.
  \<^item> \<^verbatim>\<open>ChatStore\<close>: \<^verbatim>\<open>db_comm.cc\<close>, \<^verbatim>\<open>logic_unit.cc\<close> and the counter of \<^verbatim>\<open>dic_comm.cc\<close>.
  \<^item> \<^verbatim>\<open>ChatDelivery\<close>: what a send leaves behind, and who receives a message to a meeting.
  \<^item> \<^verbatim>\<open>UserConnection\<close>, \<^verbatim>\<open>ChatServer\<close>: the handlers of \<^verbatim>\<open>user_connection.cc\<close>, \<^verbatim>\<open>im_mgr.cc\<close>,
    \<^verbatim>\<open>file_mgr.cc\<close>, the dispatch of \<^verbatim>\<open>chat_manager.cc\<close>, and the server as the step relation
    \<open>server_step\<close> with its \<open>reachable\<close> states.
  \<^item> \<^verbatim>\<open>ChatSessions\<close>, \<^verbatim>\<open>ChatMessages\<close>: the behaviour of the handlers: login, quitting, lost
    connections; opening a conversation, private and group messages.
  \<^item> \<^verbatim>\<open>RateTable\<close>: the shuffled tables of \<^verbatim>\<open>public/basic/radom_in.{h,cc}\<close>.
  \<^item> \<^verbatim>\<open>RobotPackets\<close>, \<^verbatim>\<open>RobotUnpack\<close>: \<^verbatim>\<open>robot/base/comm_head.h\<close> and \<^verbatim>\<open>protocol.cc\<close>, the packets between
    the robot server, its schedulers and the other servers, packed and unpacked; \<^verbatim>\<open>RobotDump\<close>: dumped.
  \<^item> \<^verbatim>\<open>PrizeRate\<close>: the lottery of \<^verbatim>\<open>robot/robot/prize_rate.{h,cc}\<close> and \<^verbatim>\<open>logic_unit.cc\<close>.
  \<^item> \<^verbatim>\<open>RobotWorld\<close>, \<^verbatim>\<open>RobotStore\<close>, \<^verbatim>\<open>RobotCache\<close>, \<^verbatim>\<open>RobotTasks\<close>, \<^verbatim>\<open>RobotServer\<close>: the state of the robot
    server with the locale \<open>object_heap\<close> of its shared objects, \<^verbatim>\<open>db_comm.cc\<close> and \<^verbatim>\<open>dic_comm.cc\<close>, the
    two halves of \<^verbatim>\<open>robot_cache_manager.cc\<close>, and the handlers with the step relation \<open>robot_step\<close>.
  \<^item> \<^verbatim>\<open>RobotView\<close>, \<^verbatim>\<open>RobotNeutral\<close>, \<^verbatim>\<open>RobotAlloc\<close>, \<^verbatim>\<open>RobotCompanions\<close>: the view of the state that decides
    which robot serves whom, the judgement \<open>neutral\<close> of operations that leave it alone, the
    allocation automaton \<open>alloc_apply\<close> that abstracts the server, and what it promises to users;
    \<^verbatim>\<open>RobotSample\<close>: an example run.
  \<^item> \<^verbatim>\<open>CoreBuffer\<close>: \<^verbatim>\<open>chat/core/buffer.{h,c}\<close>, growing texts with a final zero; the invariant
    \<open>buffer_ok\<close> and the locale \<open>text_builder\<close>.
  \<^item> \<^verbatim>\<open>CoreNetwork\<close>: \<^verbatim>\<open>chat/core/network.{h,c}\<close> from a read event to the queue of the thread pool, with
    reference-counted blocks and connections.  \<^verbatim>\<open>CoreReceive\<close> has its invariant \<open>rx_inv\<close> and that
    each piece of the stream keeps it; \<^verbatim>\<open>CoreStream\<close> the stream as a whole, against the reference
    \<open>frames\<close>, and the inputs that break it.
  \<^item> \<^verbatim>\<open>ChatPlugin\<close>: the calls of \<^verbatim>\<open>chat/core/plugins.c\<close> and the entries of \<^verbatim>\<open>chat/chat/chat_init.cc\<close>.
  \<^item> \<^verbatim>\<open>Unicode\<close>, \<^verbatim>\<open>UnicodeText\<close>: the conversions between UTF-8, UTF-16 and wide strings of
    \<^verbatim>\<open>public/basic\<close> and the vendored ICU macros they expand, and that they invert each other;
    \<^verbatim>\<open>NumberText\<close>: texts of numbers, and the quoting of strings.
  \<^item> \<^verbatim>\<open>ValueTree\<close>, \<^verbatim>\<open>ValueLaws\<close>: \<^verbatim>\<open>base/logic/base_values.{h,cc}\<close>, values, dictionaries with their
    paths, lists; their laws, with the interpretation \<open>tree_map\<close> of the locale \<open>dictionary\<close>.
  \<^item> \<^verbatim>\<open>HttpSerializer\<close>: \<^verbatim>\<open>base/logic/http_serializer.{h,cc}\<close>, the scanner, the parser and the writer;
    \<^verbatim>\<open>HttpBounds\<close>: where the parser reads; \<^verbatim>\<open>HttpText\<close>, \<^verbatim>\<open>HttpRoundTrip\<close>: what it makes of
    well-formed texts, of refused ones and of what the writer has written.
  \<^item> \<^verbatim>\<open>JsonWriter\<close>: the writer of \<^verbatim>\<open>base/logic/json_serializer.{h,cc}\<close>, against a grammar of JSON.
  \<^item> \<^verbatim>\<open>ServicePackets\<close>: \<^verbatim>\<open>pub/net/comm_head.h\<close> and \<^verbatim>\<open>music_comm_head.h\<close>: a record per packet, its reader
    from a tree, and the answers.
  \<^item> \<^verbatim>\<open>MusicWorld\<close>, \<^verbatim>\<open>MusicService\<close>: the songs of \<^verbatim>\<open>pub/logic/logic_infos.{h,cc}\<close>, the cache and the
    operations of \<^verbatim>\<open>svc/musicsvc/whole_manager.cc\<close> with the parts of \<^verbatim>\<open>db_comm.cc\<close> and
    \<^verbatim>\<open>music_dic_comm.cc\<close> they call; the handlers and the dispatch of \<^verbatim>\<open>music_logic.cc\<close>, and the service
    as the step relation \<open>music_step\<close>.
  \<^item> \<^verbatim>\<open>MusicLaws\<close>, \<^verbatim>\<open>MusicDimensions\<close>: what the handlers leave alone (the locales \<open>song_frame\<close> and
    \<open>list_frame\<close>), liked songs, and the songs of a dimension.
  \<^item> This theory: from the bytes of the clients to the handlers, and from an answer to the client.

  \<^bold>\<open>Conventions.\<close>  Code that changes state is a computation of the state monad, over a packet
  buffer or over \<open>world\<close>.  A \<^verbatim>\<open>UserInfo\<close> is a handle into the heap of users, because its copies
  share one object.  What leaves the server is the list \<open>events\<close>.  A handler is one atomic step:
  the locks are not modelled, nor are threads interleaved.  Undefined behaviour does not stop a
  computation: a store or read outside a buffer sets a fault of the packet or the flag \<open>crashed\<close>
  of the world, and uninitialised memory is a parameter (\<open>e_junk\<close>).  Objects without owner stay on
  the heap.  The core is written with its state passed explicitly (\<open>net\<close>: the blocks, the connection,
  the queue); what it does with memory outside a block or already freed is entered in the set
  \<open>faults\<close>, with the kind of access.  A \<^verbatim>\<open>recv\<close> takes from a list of arrivals whose cutting is
  arbitrary; a \<^verbatim>\<open>double\<close> of the robot protocol is a rational, but the product that draws a slot of a
  rate table is rounded as \<^verbatim>\<open>float\<close> and \<^verbatim>\<open>double\<close> are (\<open>scaled\<close>).  The sizes of the buffers of the core
  are natural numbers: no size reaches \<open>2\<^sup>6\<^sup>4\<close>.  Memory of a connection that was freed is taken to keep
  what it held; every use of it is entered as \<open>FreedConnection\<close>, and nothing is proved of what comes
  after the first.  \<open>Sent\<close> records every packet given to \<^verbatim>\<open>SendMessage\<close> with its bytes; its last
  component says whether all of them went out.  In the music service a handler is a function to an
  option, \<open>None\<close> being undefined behaviour.

  \<^bold>\<open>Parameters\<close> (\<open>env\<close>): the database, Redis, clock, \<^verbatim>\<open>localtime\<close>, randomness, \<^verbatim>\<open>send\<close>, MD5 and the
  geographic distance.  The only hypothesis on them is \<open>send_law\<close>, the documented result of
  \<^verbatim>\<open>send\<close>; theorems about users in the database assume what the answer contains.  \<open>net_env\<close> holds
  what the core finds in uninitialised and in freed memory, of which nothing is assumed: where a
  packet ends at the end of a block or in its last three bytes the core reads the length of the block
  it has just freed, and the theorems on whole streams exclude this (\<open>clear_ends\<close>).  \<open>robot_env\<close> adds to the
  database and Redis the shuffles of the song tables, \<^verbatim>\<open>atof\<close> and \<^verbatim>\<open>%lf\<close>, and the JSON and Base64
  readers; nothing is assumed about it.  \<^verbatim>\<open>strtod\<close> and \<^verbatim>\<open>g_fmt\<close> of the vendored \<^verbatim>\<open>dmg_fp\<close> are
  arguments of the serializer, of which nothing is assumed either.  \<open>music_env\<close> holds the databases as
  functions on a store, Base64, the results of \<^verbatim>\<open>rand\<close>, uninitialised words, the word behind an array
  of draws, and what the caller finds as the result of \<^verbatim>\<open>HeadPacket::release\<close>, which returns nothing.
  The hypotheses about it are that a hash of Redis gives back what was set (for liked songs), that
  \<^verbatim>\<open>rand\<close> gives 31 bits (\<open>rand_law\<close>), and that the dimensions of the database have \<^verbatim>\<open>int\<close> identifiers and
  fewer than \<open>2\<^sup>2\<^sup>4\<close> songs each (\<open>dimensions_fit\<close>).

  \<^bold>\<open>Fuel.\<close>  The loop of \<^verbatim>\<open>SendFull\<close> runs on fuel, the number of bytes: each call that does not end it
  takes at least one (\<open>SendFull_returns\<close>).  The search of a free slot in a rate table runs on the
  size of the table, which suffices as one slot is always free (\<open>rate_table_is_a_permutation\<close>).
  The scheduler of the core runs on more than the \<open>weight\<close> of what arrives: every round takes some
  of it, and the theorems about it state that it ends.  The query parser reads the entries of an
  object on the length of the text plus one, for each entry takes a character, and the depth of
  its recursion is bounded by \<^verbatim>\<open>kStackLimit\<close>; \<open>Deserialize_stays_inside\<close> shows that it always returns.

  \<^bold>\<open>What the theorems show.\<close>  Packing writes the documented bytes and unpacking inverts it for all
  kinds but three, where it reads or writes out of bounds (\<open>unfaithful_packets_fault\<close>); which inputs do so is
  characterised.  A
  well-formed request reaches its handler and an answer is understood.  Every reachable state is
  well-formed.  Login, quit, close, opening a conversation, private and group messages have their
  effect on the cache and their packets stated exactly, with the defects this shows: identifiers
  cut to 32 bits, tokens never checked, a quit nobody hears of, a leave session that survives,
  quotes in recorded messages.  However a stream is cut, the core finds its packets
  (\<open>stream_is_cut_into_packets\<close>), so that requests reach their handlers from the socket on
  (\<open>requests_reach_their_handlers\<close>); lengths up to four, the end of the stream and packets that end
  with a block are the inputs it does not survive.  The robot server refines the allocation automaton
  (\<open>robot_server_refines_allocation\<close>): it never loses a robot and gives a new user two, but a user
  whose robots have gone gets none in their place.  The query parser never reads outside its text
  (\<open>Deserialize_stays_inside\<close>); what the writer makes of a flat dictionary it reads back
  (\<open>query_string_round_trip\<close>); false and numbers with leading zeros refuse the whole
  text (\<open>refused_values\<close>).  The music service answers in JSON (\<open>answers_are_json\<close>); a request for the songs
  of a dimension draws one song too many, from the word behind the draws (\<open>dimension_list_answer\<close>);
  liked songs can be recorded, but no list of them is ever answered (\<open>liked_songs_cannot_be_listed\<close>); a
  request with a number where a text is expected is refused (\<open>numeric_tokens_are_refused\<close>).  Dictionaries keep their keys sorted under all operations, what is set is
  what is got, pruning is its reference definition, and merging is stated key by key, with the
  entries that a copied dictionary loses.

  \<^bold>\<open>Not modelled:\<close> the other plugins (\<^verbatim>\<open>src/server/master\<close>, and of \<^verbatim>\<open>svc\<close> \<^verbatim>\<open>chatsvc\<close>, \<^verbatim>\<open>hfcsrv\<close>, \<^verbatim>\<open>msgsvc\<close>, \<^verbatim>\<open>socsvc\<close>, \<^verbatim>\<open>usersvc\<close>),
  the serializer of XML and the reader of JSON, which its class never reaches, the weather manager of the robot
  server, which nothing calls, the part of the C core that waits for events and loads plugins, configuration,
  connection pools, threads (the workers are taken one after the other), and the vendored
  libraries.
\<close>

section \<open>From the wire to a handler\<close>

text \<open>The state in which a handler runs has not crashed on the way: neither the reader nor the
  dump left its buffer.\<close>

lemma packed_length:
  assumes "wf_body b"
  defines "n \<equiv> (of_nat (length (body_bytes b)) :: int32)"
  shows "sint (n + PACKET_HEAD_LENGTH) = int (length (body_bytes b)) + 31"
  using signed_of_nat32 [of "length (body_bytes b) + 31"] payload_size_bytes(2) [OF assms(1)]
  by (simp add: n_def add.commute)

lemma unsigned_length_ok: "31 \<le> sint (len :: int32) \<Longrightarrow> \<not> (scast len :: int64) < 31"
  by (simp add: word_less_def uint_scast_nonneg)

text \<open>The bytes PackStream makes of a well-formed request are accepted by OnChatManagerMessage,
  which then does exactly what the handler of that packet does, without any access out of
  bounds on the way.\<close>

lemma packed_request_is_handled:
  assumes "wf_body b" and "faithful_body b" and "operate_code h = operatorcode b"
    and "free_text b \<le> 2048" and "0 < sint socket"
    and "length (body_bytes b) + 31 \<le> limit" and "PackStream limit h b = Packed out len"
    and "packet_length h \<noteq> PACKET_HEAD_LENGTH"
  shows "run_state (OnChatManagerMessage E socket (Some (out_buffer out)) len) w =
    (True, runs (dispatch E socket (sized_head h (of_nat (length (body_bytes b)))) b) w)"
proof -
  let ?n = "of_nat (length (body_bytes b)) :: int32"
  obtain out' len' where "PackStream limit h b = Packed out' len'" "len' = ?n + PACKET_HEAD_LENGTH"
    "out_buffer out' = head_bytes h ?n @ body_bytes b"
    using PackStream_writes [OF assms(1,3,6)] assms(8) by blast
  with assms(7) have out: "len = ?n + PACKET_HEAD_LENGTH" "out_buffer out = head_bytes h ?n @ body_bytes b"
    by simp_all
  obtain p where p: "UnpackStream (head_bytes h ?n @ body_bytes b) (?n + PACKET_HEAD_LENGTH) =
      Some ((sized_head h ?n, b), p)" "in_fault p = None"
    using unpack_faithful [OF assms(1-3)] by blast
  have "\<not> dump_overrun (DumpPacket (sized_head h ?n) b)"
    using dump_fits [of b "sized_head h ?n"] assms(1,3,4) by (simp add: sized_head_def)
  moreover have "\<not> (scast len :: int64) < 31"
    using unsigned_length_ok [of len] packed_length [OF assms(1)] out(1) by simp
  ultimately show ?thesis using p out assms(5)
    by (simp add: OnChatManagerMessage_def runs_def split_beta)
qed

section \<open>From a handler to the client\<close>

lemma run_SendFull_result:
  assumes "send_law E" and "0 < n"
  shows "\<exists>k r. run_state (SendFull n E n 0) w = (Some r, w\<lparr>sends := k\<rparr>)"
proof -
  obtain k where "snd (run_state (SendFull n E n 0) w) = w\<lparr>sends := k\<rparr>"
    using run_SendFull [of n E n 0 w] by blast
  moreover obtain r where "fst (run_state (SendFull n E n 0) w) = Some r"
    using SendFull_enough_fuel [OF assms order_refl, of 0 w] by auto
  ultimately show ?thesis by (metis prod.collapse)
qed

text \<open>C16: SendMessage of a well-formed packet of a faithful kind with at most 2048 bytes of text
  does not crash and emits exactly one packet, whose bytes a client unpacks to the same header
  and body. The socket is positive, the packet is not made as a header only (packet_length is
  not 31) and fits the memory, and send behaves as documented.\<close>

theorem sent_packet_is_understood:
  assumes "send_law E" and "wf_body b" and "faithful_body b" and "operate_code h = operatorcode b"
    and "free_text b \<le> 2048" and "0 < sint s" and "length (body_bytes b) + 31 \<le> e_memory E"
    and "packet_length h \<noteq> PACKET_HEAD_LENGTH"
  shows "\<exists>n bytes ok p. run_state (SendMessage E s h b) w =
      (ok, after_sends w n (crashed w) [Sent s h b bytes ok]) \<and>
    UnpackStream bytes (of_nat (length bytes)) =
      Some ((sized_head h (of_nat (length (body_bytes b))), b), p) \<and> in_fault p = None"
proof -
  let ?n = "of_nat (length (body_bytes b)) :: int32"
  obtain out len where out: "PackStream (e_memory E) h b = Packed out len" "\<not> out_fault out"
    "out_buffer out = head_bytes h ?n @ body_bytes b" "len = ?n + PACKET_HEAD_LENGTH"
    using PackStream_writes [OF assms(2,4,7)] assms(8) by blast
  have len: "sint len = int (length (body_bytes b)) + 31"
    using packed_length [OF assms(2)] out(4) by simp
  then have "nat (sint len) > 0" by simp
  then obtain k r where r: "run_state (SendFull (nat (sint len)) E (nat (sint len)) 0) w =
      (Some r, w\<lparr>sends := k\<rparr>)"
    using run_SendFull_result [OF assms(1)] by blast
  have dump: "\<not> dump_overrun (DumpPacket h b)" using dump_fits [OF assms(2,4,5)] by simp
  have "run_state (SendMessage E s h b) w = (r = sint len,
      after_sends w k (crashed w) [Sent s h b (out_buffer out) (r = sint len)])"
    using out(1,2) dump assms(6) r by (simp add: SendMessage_def emit_def after_sends_def)
  moreover obtain p where "UnpackStream (out_buffer out) len = Some ((sized_head h ?n, b), p)"
      "in_fault p = None"
    using unpack_faithful [OF assms(2-4)] out(3,4) by auto
  moreover have "len = of_nat (length (out_buffer out))" using out(3,4) by (simp add: add.commute)
  ultimately show ?thesis by blast
qed

section \<open>From the clients' bytes to the handlers\<close>

text \<open>A request as a client sends it.\<close>

definition sendable :: "nat \<Rightarrow> packet_head \<times> body \<Rightarrow> bool" where
  "sendable limit hb \<longleftrightarrow> (case hb of (h, b) \<Rightarrow> wf_body b \<and> faithful_body b \<and> operate_code h = operatorcode b \<and>
     free_text b \<le> 2048 \<and> length (body_bytes b) + 31 \<le> limit \<and> packet_length h \<noteq> PACKET_HEAD_LENGTH)"

definition wire_bytes :: "packet_head \<times> body \<Rightarrow> byte list" where
  "wire_bytes hb = (case hb of (h, b) \<Rightarrow> head_bytes h (of_nat (length (body_bytes b))) @ body_bytes b)"

definition handle_request :: "env \<Rightarrow> int32 \<Rightarrow> packet_head \<times> body \<Rightarrow> world \<Rightarrow> world" where
  "handle_request E s hb w = (case hb of (h, b) \<Rightarrow>
     runs (dispatch E s (sized_head h (of_nat (length (body_bytes b)))) b) w)"

lemma wire_bytes_packed:
  assumes "sendable limit hb" "hb = (h, b)"
  shows "\<exists>out len. PackStream limit h b = Packed out len \<and> out_buffer out = wire_bytes hb \<and>
    len = of_nat (length (wire_bytes hb)) \<and> length (wire_bytes hb) < 2 ^ 31"
proof -
  have a: "wf_body b" "operate_code h = operatorcode b" "length (body_bytes b) + 31 \<le> limit"
    "packet_length h \<noteq> PACKET_HEAD_LENGTH" using assms by (simp_all add: sendable_def)
  obtain out len where "PackStream limit h b = Packed out len" "out_buffer out = wire_bytes hb"
    "len = of_nat (length (body_bytes b)) + PACKET_HEAD_LENGTH"
    using PackStream_writes [OF a(1-3)] a(4) assms(2) by (auto simp: wire_bytes_def)
  moreover have "length (wire_bytes hb) < 2 ^ 31"
    using payload_size_bytes(2) [OF a(1)] assms(2) by (simp add: wire_bytes_def)
  ultimately show ?thesis using assms(2) by (auto simp: wire_bytes_def)
qed

text \<open>Its first four bytes are its length, so the core takes it for one packet.\<close>

lemma wire_bytes_complete:
  assumes "sendable limit hb"
  shows "complete (wire_bytes hb)" "4 < length (wire_bytes hb)"
proof -
  obtain h b where hb: "hb = (h, b)" by fastforce
  have "length (wire_bytes hb) < 2 ^ 31" using wire_bytes_packed [OF assms hb] by blast
  then have "sint (of_nat (length (wire_bytes hb)) :: int32) = int (length (wire_bytes hb))"
    by (rule signed_of_nat32)
  moreover have "header (wire_bytes hb) = of_nat (length (wire_bytes hb))"
    by (simp add: header_def wire_bytes_def hb head_bytes_def)
  ultimately show "complete (wire_bytes hb)" "4 < length (wire_bytes hb)"
    by (simp_all add: complete_def wire_bytes_def hb)
qed

lemma worker_handles:
  assumes "sendable limit hb" "0 < sint sock"
  shows "snd (plugin_entry [chat_manager_plugin_init E]
      (HandlerRead sock (wire_bytes hb) (int (length (wire_bytes hb)))) w) = handle_request E sock hb w"
proof -
  obtain h b where hb: "hb = (h, b)" by fastforce
  have ok: "wf_body b" "faithful_body b" "operate_code h = operatorcode b" "free_text b \<le> 2048"
    "length (body_bytes b) + 31 \<le> limit" "packet_length h \<noteq> PACKET_HEAD_LENGTH"
    using assms(1) hb by (simp_all add: sendable_def)
  obtain out len where out: "PackStream limit h b = Packed out len" "out_buffer out = wire_bytes hb"
    "len = of_nat (length (wire_bytes hb))"
    using wire_bytes_packed [OF assms(1) hb] by blast
  from packed_request_is_handled [OF ok(1-4) assms(2) ok(5) out(1) ok(6), of E w]
  show ?thesis using out(2,3) by (simp add: chat_plugin_reads runs_def handle_request_def hb)
qed

lemma worker_handles_all:
  assumes "\<forall>hb\<in>set reqs. sendable limit hb" "0 < sint sock"
  shows "worker [chat_manager_plugin_init E]
      (map (\<lambda>p. HandlerRead sock p (int (length p))) (map wire_bytes reqs)) w = fold (handle_request E sock) reqs w"
  using assms worker_handles [OF _ assms(2)]
  by (induction reqs arbitrary: w) (auto simp: worker_def)

text \<open>C3: Whatever way the bytes of requests are cut into segments and read events, the core and the
  chat plugin do on the world exactly what the handlers of these requests do one after the
  other; no access leaves a block or uses one that was freed, and the connection stays open.
  The requests are well-formed packets of the kinds that are unpacked faithfully, with at most
  2048 bytes of text, not made as a header only (packet_length is not 31) and small enough for
  the memory the packer is given; the socket is positive, and no request ends at the end of a
  4096-byte block of the stream or in the last three bytes of one.\<close>

theorem requests_reach_their_handlers:
  assumes "\<forall>hb\<in>set reqs. sendable limit hb" and "0 < sint sock"
    and "concat (concat evs) = concat (map wire_bytes reqs)" and "clear_ends 0 (map wire_bytes reqs)"
    and "\<forall>segs\<in>set evs. weight (map Segment segs) < fuel"
  shows "\<exists>n. read_events fuel N evs (new_connection N ACCEPT sock) = Some n \<and>
    worker [chat_manager_plugin_init E] (calls_of n) w = fold (handle_request E sock) reqs w \<and>
    faults n = {} \<and> \<not> conn_freed n"
proof -
  have ps: "\<forall>p\<in>set (map wire_bytes reqs). complete p \<and> 4 < packet_size p"
    using assms(1) wire_bytes_complete by (auto simp: complete_size)
  have stream: "concat (concat evs) = concat (map wire_bytes reqs) @ []" using assms(3) by simp
  have "well_framed (concat (concat evs))" unfolding stream by (rule well_framed_concat [OF ps]) simp
  from fresh_events [OF this _ assms(5), of N sock]
  obtain n where n: "read_events fuel N evs (new_connection N ACCEPT sock) = Some n"
    "calls_of n = map (\<lambda>p. HandlerRead sock p (int (length p))) (map wire_bytes reqs)"
    "faults n = {}" "idle n []"
    using frames_concat [OF ps, of "[]"] stream assms(4) by auto
  have "\<not> conn_freed n" using n(4) rx_inv_live by (auto simp: idle_def)
  then show ?thesis using n(1-3) worker_handles_all [OF assms(1,2)] by auto
qed

section \<open>Instances\<close>

definition sample_request :: body where
  "sample_request = QuitNotification \<lparr>un_platform_id = 10000, un_user_id = 7\<rparr>"

theorem requests_reach_their_handlers_witness:
  "\<exists>n. read_events 1000 \<lparr>ne_uninit = (\<lambda>_. 0), ne_freed_length = 0, ne_unset_rc = 0\<rparr>
      [[take 3 (wire_bytes (sample_head\<lparr>operate_code := USER_NOTIFICATION_QUIT\<rparr>, sample_request))],
       [drop 3 (wire_bytes (sample_head\<lparr>operate_code := USER_NOTIFICATION_QUIT\<rparr>, sample_request))]]
      (new_connection \<lparr>ne_uninit = (\<lambda>_. 0), ne_freed_length = 0, ne_unset_rc = 0\<rparr> ACCEPT 5) = Some n \<and>
    worker [chat_manager_plugin_init sample_env] (calls_of n) sample_world =
      handle_request sample_env 5 (sample_head\<lparr>operate_code := USER_NOTIFICATION_QUIT\<rparr>, sample_request) sample_world"
proof -
  let ?hb = "(sample_head\<lparr>operate_code := USER_NOTIFICATION_QUIT\<rparr>, sample_request)"
  let ?N = "\<lparr>ne_uninit = (\<lambda>_. 0), ne_freed_length = 0, ne_unset_rc = 0\<rparr>"
  have "sendable 1000 ?hb" by (simp add: sendable_def sample_request_def sample_head_def)
  moreover have "length (wire_bytes ?hb) = 47" by (simp add: wire_bytes_def sample_request_def)
  moreover from this have "clear_ends 0 (map wire_bytes [?hb])" by (simp add: clear_end_def)
  ultimately show ?thesis
    using requests_reach_their_handlers [of "[?hb]" 1000 5 "[[take 3 (wire_bytes ?hb)], [drop 3 (wire_bytes ?hb)]]"
        1000 ?N sample_env sample_world]
    by auto
qed

theorem sent_packet_is_understood_witness:
  "\<exists>ok w'. run_state (SendMessage byte_at_a_time 5 (sample_head\<lparr>operate_code := USER_NOTIFICATION_QUIT\<rparr>)
      sample_request) sample_world = (ok, w') \<and> crashed w' = crashed sample_world"
  using sent_packet_is_understood [of byte_at_a_time sample_request
    "sample_head\<lparr>operate_code := USER_NOTIFICATION_QUIT\<rparr>" 5 sample_world]
  by (auto simp: sample_request_def sample_head_def) (auto simp: byte_at_a_time_def)

end
